(* ===== verification/Prelude.thy ===== *)
theory Prelude
  imports Main "HOL-Library.Word" "HOL-Library.Sublist"
begin

text \<open>
  Shared vocabulary of the development: results of fallible Rust code as sums, saturating and
  checked 64-bit arithmetic, UTF-8 strings as lists of bytes, SQL tables as lists of rows,
  three-way comparators with the stable sort and the maximum the standard library offers, and
  the contract of a guarded state machine, from which every component gets its invariant for
  all reachable states.
\<close>

named_theorems result_simps \<open>rewrite rules for computations that may fail\<close>
named_theorems table_simps \<open>rewrite rules for tables of rows\<close>

unbundle bit_operations_syntax

section \<open>Results\<close>

text \<open>
  \<open>Result<T, E>\<close> is \<open>'e + 'a\<close>, with \<open>Inl\<close> the error. \<open>rbind\<close> is the \<open>?\<close> operator and
  \<open>ensure\<close> an early \<open>return Err(..)\<close> or \<open>bail!\<close> behind a guard.
\<close>

definition rbind :: "'e + 'a \<Rightarrow> ('a \<Rightarrow> 'e + 'b) \<Rightarrow> 'e + 'b" where
  "rbind m f = (case m of Inl e \<Rightarrow> Inl e | Inr x \<Rightarrow> f x)"

definition ensure :: "bool \<Rightarrow> 'e \<Rightarrow> 'e + unit" where
  "ensure b e = (if b then Inr () else Inl e)"

definition ok_or :: "'a option \<Rightarrow> 'e \<Rightarrow> 'e + 'a" where
  "ok_or v e = (case v of None \<Rightarrow> Inl e | Some x \<Rightarrow> Inr x)"

definition is_ok :: "'e + 'a \<Rightarrow> bool" where
  "is_ok m = (case m of Inl _ \<Rightarrow> False | Inr _ \<Rightarrow> True)"

lemma rbind_simps [simp, result_simps]:
  "rbind (Inl e) f = Inl e"
  "rbind (Inr x) f = f x"
  by (simp_all add: rbind_def)

lemma rbind_Inr_iff [result_simps]:
  "rbind m f = Inr y \<longleftrightarrow> (\<exists>x. m = Inr x \<and> f x = Inr y)"
  by (cases m) simp_all

lemma rbind_InrE:
  assumes "rbind m f = Inr y"
  obtains x where "m = Inr x" "f x = Inr y"
  using assms by (auto simp: rbind_Inr_iff)

lemma rbind_Inl_iff [result_simps]:
  "rbind m f = Inl e \<longleftrightarrow> m = Inl e \<or> (\<exists>x. m = Inr x \<and> f x = Inl e)"
  by (cases m) simp_all

lemma ensure_Inr_iff [simp, result_simps]: "ensure b e = Inr u \<longleftrightarrow> b"
  by (simp add: ensure_def)

lemma ensure_Inl_iff [simp, result_simps]: "ensure b e = Inl e' \<longleftrightarrow> \<not> b \<and> e' = e"
  by (auto simp: ensure_def)

lemma ensure_simps [simp]: "ensure True e = Inr ()" "ensure False e = Inl e"
  by (simp_all add: ensure_def)

lemma ok_or_Inr_iff [simp, result_simps]: "ok_or v e = Inr x \<longleftrightarrow> v = Some x"
  by (simp add: ok_or_def split: option.splits)

lemma ok_or_Inl_iff [simp, result_simps]: "ok_or v e = Inl e' \<longleftrightarrow> v = None \<and> e' = e"
  by (auto simp: ok_or_def split: option.splits)

lemma ok_or_simps [simp]: "ok_or None e = Inl e" "ok_or (Some x) e = Inr x"
  by (simp_all add: ok_or_def)

lemma is_ok_simps [simp]: "is_ok (Inl e) = False" "is_ok (Inr x) = True"
  by (simp_all add: is_ok_def)

lemma is_ok_iff: "is_ok m \<longleftrightarrow> (\<exists>x. m = Inr x)"
  by (cases m) simp_all

section \<open>Machine integers\<close>

text \<open>
  \<open>i64\<close> and \<open>u64\<close> values are mathematical integers and naturals together with their range;
  the operations that wrap, saturate or fail at the edge of the range are written out.
\<close>

type_synonym i64 = int
type_synonym u64 = nat

definition i64_max :: i64 where "i64_max = 9223372036854775807"
definition i64_min :: i64 where "i64_min = - 9223372036854775808"
definition u64_max :: u64 where "u64_max = 18446744073709551615"
definition in_i64 :: "int \<Rightarrow> bool" where "in_i64 n \<longleftrightarrow> i64_min \<le> n \<and> n \<le> i64_max"

definition i64_saturating_add :: "i64 \<Rightarrow> i64 \<Rightarrow> i64" where
  "i64_saturating_add a b = max i64_min (min i64_max (a + b))"

definition i64_checked_add :: "i64 \<Rightarrow> i64 \<Rightarrow> i64 option" where
  "i64_checked_add a b = (if in_i64 (a + b) then Some (a + b) else None)"

definition u64_checked_add :: "u64 \<Rightarrow> u64 \<Rightarrow> u64 option" where
  "u64_checked_add a b = (if a + b \<le> u64_max then Some (a + b) else None)"

definition u64_checked_mul :: "u64 \<Rightarrow> u64 \<Rightarrow> u64 option" where
  "u64_checked_mul a b = (if a * b \<le> u64_max then Some (a * b) else None)"

definition u64_saturating_add :: "u64 \<Rightarrow> u64 \<Rightarrow> u64" where
  "u64_saturating_add a b = min u64_max (a + b)"

definition u64_saturating_sub :: "u64 \<Rightarrow> u64 \<Rightarrow> u64" where
  "u64_saturating_sub a b = a - b"

text \<open>The cast \<open>x as i64\<close> of an unsigned value reinterprets its bits.\<close>

definition as_i64 :: "u64 \<Rightarrow> i64" where
  "as_i64 n = (let m = int n mod 18446744073709551616
               in if m \<le> i64_max then m else m - 18446744073709551616)"

definition as_u64 :: "i64 \<Rightarrow> u64" where
  "as_u64 n = nat (n mod 18446744073709551616)"

text \<open>\<open>i64::try_from(u64)\<close> and \<open>u64::try_from(i64)\<close>.\<close>

definition i64_try_from :: "u64 \<Rightarrow> i64 option" where
  "i64_try_from n = (if int n \<le> i64_max then Some (int n) else None)"

definition u64_try_from :: "i64 \<Rightarrow> u64 option" where
  "u64_try_from n = (if 0 \<le> n then Some (nat n) else None)"

lemma as_i64_small [simp]: "int n \<le> i64_max \<Longrightarrow> as_i64 n = int n"
  by (simp add: as_i64_def i64_max_def)

lemma as_u64_nonneg [simp]: "0 \<le> n \<Longrightarrow> n \<le> i64_max \<Longrightarrow> as_u64 n = nat n"
  by (simp add: as_u64_def i64_max_def)

lemma i64_saturating_add_le_iff:
  "in_i64 a \<Longrightarrow> c < i64_max \<Longrightarrow> i64_min \<le> c \<Longrightarrow> i64_saturating_add a b \<le> c \<longleftrightarrow> a + b \<le> c"
  by (auto simp: i64_saturating_add_def i64_max_def i64_min_def)

lemma i64_saturating_add_le_max: "i64_saturating_add a b \<le> i64_max"
  by (simp add: i64_saturating_add_def i64_max_def i64_min_def)

lemma i64_saturating_add_exact: "in_i64 (a + b) \<Longrightarrow> i64_saturating_add a b = a + b"
  by (simp add: i64_saturating_add_def in_i64_def)

lemma i64_checked_add_Some: "i64_checked_add a b = Some c \<longleftrightarrow> c = a + b \<and> in_i64 c"
  by (auto simp: i64_checked_add_def)

section \<open>Strings\<close>

text \<open>
  A Rust \<open>String\<close> is its UTF-8 bytes, so \<open>length\<close> is \<open>String::len\<close>. Tests on characters are
  written over the encoded bytes: \<open>has_control\<close> is \<open>chars().any(char::is_control)\<close> (U+0000 to
  U+001F, U+007F to U+009F) and \<open>blank\<close> is \<open>trim().is_empty()\<close> (every character has the
  Unicode property White_Space).
\<close>

fun has_control :: "string \<Rightarrow> bool" where
  "has_control [] = False"
| "has_control (c # cs) =
     (of_char c < (32::nat) \<or> of_char c = (127::nat)
      \<or> (of_char c = (194::nat)
         \<and> (case cs of [] \<Rightarrow> False | d # _ \<Rightarrow> of_char d \<ge> (128::nat) \<and> of_char d \<le> (159::nat)))
      \<or> has_control cs)"

definition white_prefix :: "string \<Rightarrow> nat" where
  "white_prefix s =
     (case map of_char (take 3 s) :: nat list of
        [] \<Rightarrow> 0
      | a # r \<Rightarrow>
          if (9 \<le> a \<and> a \<le> 13) \<or> a = 32 then 1
          else if a = 194 \<and> r \<noteq> [] \<and> (hd r = 133 \<or> hd r = 160) then 2
          else if a = 225 \<and> r = [154, 128] then 3
          else if a = 226 \<and> length r = 2 \<and> hd r = 128
                  \<and> (128 \<le> r ! 1 \<and> r ! 1 \<le> 138 \<or> r ! 1 = 168 \<or> r ! 1 = 169 \<or> r ! 1 = 175) then 3
          else if a = 226 \<and> r = [129, 159] then 3
          else if a = 227 \<and> r = [128, 128] then 3
          else 0)"

function blank :: "string \<Rightarrow> bool" where
  "blank s =
     (if s = [] then True
      else if white_prefix s = 0 then False
      else blank (drop (white_prefix s) s))"
  by pat_completeness auto
termination
  by (relation "measure length") auto

declare blank.simps [simp del]

lemma blank_Nil [simp]: "blank []"
  by (simp add: blank.simps)

lemma white_prefix_plain:
  assumes "32 < (of_char c :: nat)" "(of_char c :: nat) < 194"
  shows "white_prefix (c # s) = 0"
  using assms by (simp add: white_prefix_def)

lemma not_blank_plain:
  assumes "32 < (of_char c :: nat)" "(of_char c :: nat) < 194"
  shows "\<not> blank (c # s)"
  using white_prefix_plain [OF assms] by (subst blank.simps) simp

definition ascii_lower_char :: "char \<Rightarrow> char" where
  "ascii_lower_char c =
     (if of_char c \<ge> (65::nat) \<and> of_char c \<le> (90::nat) then char_of (of_char c + (32::nat)) else c)"

definition to_ascii_lowercase :: "string \<Rightarrow> string" where
  "to_ascii_lowercase s = map ascii_lower_char s"

definition is_ascii_digit :: "char \<Rightarrow> bool" where
  "is_ascii_digit c \<longleftrightarrow> (48::nat) \<le> of_char c \<and> of_char c \<le> (57::nat)"

definition is_ascii_alphanumeric :: "char \<Rightarrow> bool" where
  "is_ascii_alphanumeric c \<longleftrightarrow>
     is_ascii_digit c \<or> (65::nat) \<le> of_char c \<and> of_char c \<le> (90::nat)
     \<or> (97::nat) \<le> of_char c \<and> of_char c \<le> (122::nat)"

text \<open>\<open>str::split(c)\<close>: the pieces between the separators, at least one.\<close>

fun split_on :: "char \<Rightarrow> string \<Rightarrow> string list" where
  "split_on sep [] = [[]]"
| "split_on sep (c # cs) =
     (if c = sep then [] # split_on sep cs
      else (case split_on sep cs of [] \<Rightarrow> [[c]] | p # ps \<Rightarrow> (c # p) # ps))"

lemma split_on_nonempty: "split_on sep s \<noteq> []"
  by (induction s) (auto split: list.splits)

lemma split_on_no_sep: "sep \<notin> set s \<Longrightarrow> split_on sep s = [s]"
  by (induction s) auto

lemma split_on_append:
  "sep \<notin> set p \<Longrightarrow> split_on sep (p @ sep # rest) = p # split_on sep rest"
  by (induction p) (auto split: list.splits)

text \<open>
  \<open>utf8_chars\<close> cuts a string before every byte that is not a continuation byte: for the valid
  UTF-8 a Rust string holds, its characters in their encoded form.
\<close>

definition utf8_continuation :: "char \<Rightarrow> bool" where
  "utf8_continuation c \<longleftrightarrow> (128::nat) \<le> of_char c \<and> of_char c < (192::nat)"

fun utf8_chars :: "string \<Rightarrow> string list" where
  "utf8_chars [] = []"
| "utf8_chars (c # cs) =
     (case utf8_chars cs of
        [] \<Rightarrow> [[c]]
      | p # ps \<Rightarrow> if p \<noteq> [] \<and> utf8_continuation (hd p) then (c # p) # ps else [c] # p # ps)"

lemma concat_utf8_chars [simp]: "concat (utf8_chars s) = s"
  by (induction s) (auto split: list.splits)

text \<open>\<open>char_prefix n s\<close> is the string of the first \<open>n\<close> characters.\<close>

definition char_prefix :: "nat \<Rightarrow> string \<Rightarrow> string" where
  "char_prefix n s = concat (take n (utf8_chars s))"

text \<open>\<open>usize::to_string\<close>, and \<open>str::parse::<usize>\<close> (digits, with one optional leading plus sign).\<close>

function decimal :: "nat \<Rightarrow> string" where
  "decimal n = (if n < 10 then [char_of (48 + n)] else decimal (n div 10) @ [char_of (48 + n mod 10)])"
  by pat_completeness auto
termination
  by (relation "measure id") auto

declare decimal.simps [simp del]

definition signed_decimal :: "int \<Rightarrow> string" where
  "signed_decimal n = (if n < 0 then ''-'' @ decimal (nat (- n)) else decimal (nat n))"

fun parse_digits :: "nat \<Rightarrow> string \<Rightarrow> nat option" where
  "parse_digits acc [] = Some acc"
| "parse_digits acc (c # cs) =
     (if is_ascii_digit c \<and> acc * 10 + (of_char c - 48) \<le> u64_max
      then parse_digits (acc * 10 + (of_char c - 48)) cs else None)"

definition parse_usize :: "string \<Rightarrow> nat option" where
  "parse_usize s =
     (case s of
        [] \<Rightarrow> None
      | c # cs \<Rightarrow> if c = CHR ''+'' then (if cs = [] then None else parse_digits 0 cs)
                  else parse_digits 0 s)"

lemma of_char_char_of_small: "n < 256 \<Longrightarrow> of_char (char_of (n::nat)) = n"
  by simp

lemma digit_char: "d < 10 \<Longrightarrow> is_ascii_digit (char_of (48 + d :: nat)) \<and> of_char (char_of (48 + d :: nat)) = 48 + d"
  by (simp add: is_ascii_digit_def)

lemma parse_digits_append:
  "parse_digits acc (xs @ ys) = (case parse_digits acc xs of None \<Rightarrow> None | Some a \<Rightarrow> parse_digits a ys)"
  by (induction xs arbitrary: acc) auto

lemma parse_digits_decimal: "n \<le> u64_max \<Longrightarrow> parse_digits 0 (decimal n) = Some n"
proof (induction n rule: decimal.induct)
  case (1 n)
  show ?case
  proof (cases "n < 10")
    case True
    with 1 digit_char [of n] show ?thesis by (simp add: decimal.simps [of n])
  next
    case False
    have "n div 10 \<le> n" by simp
    with False 1 have IH: "parse_digits 0 (decimal (n div 10)) = Some (n div 10)" by simp
    have "n div 10 * 10 + n mod 10 = n" by simp
    with False IH 1(2) digit_char [of "n mod 10"] show ?thesis
      by (simp add: decimal.simps [of n] parse_digits_append)
  qed
qed

lemma decimal_digits: "c \<in> set (decimal n) \<Longrightarrow> is_ascii_digit c"
proof (induction n rule: decimal.induct)
  case (1 n)
  then show ?case
    using digit_char [of n] digit_char [of "n mod 10"]
    by (auto simp: decimal.simps [of n] split: if_splits)
qed

lemma decimal_not_Nil [simp]: "decimal n \<noteq> []"
  by (subst decimal.simps) simp

lemma parse_usize_decimal: "n \<le> u64_max \<Longrightarrow> parse_usize (decimal n) = Some n"
proof -
  assume n: "n \<le> u64_max"
  have "is_ascii_digit (hd (decimal n))" by (rule decimal_digits [of _ n]) simp
  then have "hd (decimal n) \<noteq> CHR ''+''" by (auto simp: is_ascii_digit_def)
  with n show ?thesis
    by (cases "decimal n") (auto simp: parse_usize_def parse_digits_decimal [symmetric])
qed

lemma length_decimal: "n < 10 ^ k \<Longrightarrow> 0 < k \<Longrightarrow> length (decimal n) \<le> k"
proof (induction n arbitrary: k rule: decimal.induct)
  case (1 n)
  show ?case
  proof (cases "n < 10")
    case True
    with 1 show ?thesis by (simp add: decimal.simps [of n])
  next
    case False
    with 1(2,3) obtain j where k: "k = Suc j" "0 < j"
      by (cases k; cases "k - 1") auto
    with 1(2) have "n div 10 < 10 ^ j" by (simp add: div_less_iff_less_mult mult.commute)
    with False k 1(1) have "length (decimal (n div 10)) \<le> j" by simp
    with False k show ?thesis by (simp add: decimal.simps [of n])
  qed
qed

section \<open>Tables of rows\<close>

text \<open>
  An SQL table is the list of its rows in insertion order. \<open>row_by\<close> is
  \<open>SELECT .. WHERE key = ?\<close> on a primary key, \<open>update_where\<close> and \<open>delete_where\<close> are
  \<open>UPDATE\<close> and \<open>DELETE\<close>, \<open>count_where\<close> is \<open>COUNT(*)\<close> and the number of rows a statement
  changes, and \<open>sum_where\<close> is \<open>COALESCE(SUM(..),0)\<close>, which SQLite computes in 64 bits and
  refuses with an error on overflow (\<open>None\<close>).
\<close>

definition row_by :: "('r \<Rightarrow> 'k) \<Rightarrow> 'k \<Rightarrow> 'r list \<Rightarrow> 'r option" where
  "row_by key k rows = find (\<lambda>r. key r = k) rows"

definition update_where :: "('r \<Rightarrow> bool) \<Rightarrow> ('r \<Rightarrow> 'r) \<Rightarrow> 'r list \<Rightarrow> 'r list" where
  "update_where p f rows = map (\<lambda>r. if p r then f r else r) rows"

definition delete_where :: "('r \<Rightarrow> bool) \<Rightarrow> 'r list \<Rightarrow> 'r list" where
  "delete_where p rows = filter (\<lambda>r. \<not> p r) rows"

definition count_where :: "('r \<Rightarrow> bool) \<Rightarrow> 'r list \<Rightarrow> nat" where
  "count_where p rows = length (filter p rows)"

definition total_where :: "('r \<Rightarrow> bool) \<Rightarrow> ('r \<Rightarrow> int) \<Rightarrow> 'r list \<Rightarrow> int" where
  "total_where p f rows = sum_list (map f (filter p rows))"

fun checked_total :: "int \<Rightarrow> int list \<Rightarrow> int option" where
  "checked_total acc [] = Some acc"
| "checked_total acc (n # ns) = (if in_i64 (acc + n) then checked_total (acc + n) ns else None)"

definition sum_where :: "('r \<Rightarrow> bool) \<Rightarrow> ('r \<Rightarrow> int) \<Rightarrow> 'r list \<Rightarrow> int option" where
  "sum_where p f rows = checked_total 0 (map f (filter p rows))"

definition unique_by :: "('r \<Rightarrow> 'k) \<Rightarrow> 'r list \<Rightarrow> bool" where
  "unique_by key rows \<longleftrightarrow> distinct (map key rows)"

lemma find_Some_in: "find p xs = Some x \<Longrightarrow> x \<in> set xs \<and> p x"
  by (auto simp: find_Some_iff)

lemma row_by_Nil [simp, table_simps]: "row_by key k [] = None"
  by (simp add: row_by_def)

lemma row_by_Cons [table_simps]:
  "row_by key k (r # rows) = (if key r = k then Some r else row_by key k rows)"
  by (simp add: row_by_def)

lemma row_by_Some: "row_by key k rows = Some r \<Longrightarrow> r \<in> set rows \<and> key r = k"
  by (auto simp: row_by_def find_Some_iff)

lemma row_by_Some_key: "row_by key k rows = Some r \<Longrightarrow> k \<in> key ` set rows"
  using row_by_Some [of key k rows r] by auto

lemma row_by_None: "row_by key k rows = None \<longleftrightarrow> k \<notin> key ` set rows"
  by (auto simp: row_by_def find_None_iff)

lemma row_by_append [table_simps]:
  "row_by key k (xs @ ys) = (case row_by key k xs of None \<Rightarrow> row_by key k ys | Some r \<Rightarrow> Some r)"
  by (induction xs) (simp_all add: row_by_Cons)

lemma row_by_update_where [table_simps]:
  assumes "\<And>r. key (f r) = key r"
  shows "row_by key k (update_where p f rows)
         = map_option (\<lambda>r. if p r then f r else r) (row_by key k rows)"
  by (induction rows) (simp_all add: row_by_Cons update_where_def assms)

lemma row_by_unique:
  "unique_by key rows \<Longrightarrow> row_by key k rows = Some r \<longleftrightarrow> r \<in> set rows \<and> key r = k"
  by (induction rows) (auto simp: unique_by_def row_by_Cons)

lemma unique_by_Nil [simp]: "unique_by key []"
  by (simp add: unique_by_def)

lemma unique_by_snoc [simp]:
  "unique_by key (rows @ [r]) \<longleftrightarrow> unique_by key rows \<and> key r \<notin> key ` set rows"
  by (auto simp: unique_by_def)

lemma unique_by_update_where [simp]:
  assumes "\<And>r. key (f r) = key r"
  shows "unique_by key (update_where p f rows) = unique_by key rows"
proof -
  have "map key (update_where p f rows) = map key rows"
    by (simp add: update_where_def assms)
  then show ?thesis by (simp add: unique_by_def)
qed

lemma unique_by_delete_where: "unique_by key rows \<Longrightarrow> unique_by key (delete_where p rows)"
  by (simp add: unique_by_def delete_where_def distinct_map_filter)

lemma unique_by_inj: "unique_by key rows \<Longrightarrow> r \<in> set rows \<Longrightarrow> r' \<in> set rows \<Longrightarrow> key r = key r' \<Longrightarrow> r = r'"
  by (auto simp: unique_by_def distinct_map inj_on_def)

lemma set_update_where: "set (update_where p f rows) = (\<lambda>r. if p r then f r else r) ` set rows"
  by (simp add: update_where_def)

lemma update_where_id: "(\<And>r. r \<in> set rows \<Longrightarrow> p r \<Longrightarrow> f r = r) \<Longrightarrow> update_where p f rows = rows"
  by (induction rows) (auto simp: update_where_def)

lemma set_delete_where [simp]: "set (delete_where p rows) = {r \<in> set rows. \<not> p r}"
  by (auto simp: delete_where_def)

lemma length_update_where [simp]: "length (update_where p f rows) = length rows"
  by (simp add: update_where_def)

lemma count_where_simps [simp, table_simps]:
  "count_where p [] = 0"
  "count_where p (r # rows) = (if p r then 1 else 0) + count_where p rows"
  "count_where p (xs @ ys) = count_where p xs + count_where p ys"
  by (simp_all add: count_where_def)

lemma count_where_zero_iff: "count_where p rows = 0 \<longleftrightarrow> (\<forall>r\<in>set rows. \<not> p r)"
  by (induction rows) auto

lemma total_where_simps [simp, table_simps]:
  "total_where p f [] = 0"
  "total_where p f (r # rows) = (if p r then f r else 0) + total_where p f rows"
  "total_where p f (xs @ ys) = total_where p f xs + total_where p f ys"
  by (simp_all add: total_where_def)

lemma total_where_nonneg: "(\<And>r. r \<in> set rows \<Longrightarrow> p r \<Longrightarrow> 0 \<le> f r) \<Longrightarrow> 0 \<le> total_where p f rows"
  by (induction rows) auto

lemma total_where_mono:
  assumes "\<And>r. r \<in> set rows \<Longrightarrow> (if p r then f r else 0) \<le> (if q r then g r else 0)"
  shows "total_where p f rows \<le> total_where q g rows"
  using assms
proof (induction rows)
  case Nil
  then show ?case by simp
next
  case (Cons a rows)
  then have "total_where p f rows \<le> total_where q g rows" by simp
  moreover have "(if p a then f a else 0) \<le> (if q a then g a else 0)"
    using Cons.prems by simp
  ultimately show ?case by (simp only: total_where_simps add_mono)
qed

lemma total_where_update_where:
  "total_where p f (update_where q g rows)
   = total_where (\<lambda>r. p (if q r then g r else r)) (\<lambda>r. f (if q r then g r else r)) rows"
  by (induction rows) (simp_all add: update_where_def)

lemma total_where_cong:
  assumes "\<And>r. r \<in> set rows \<Longrightarrow> (if p r then f r else 0) = (if q r then g r else 0)"
  shows "total_where p f rows = total_where q g rows"
  using assms by (induction rows) auto

lemma checked_total_Some: "checked_total acc ns = Some t \<Longrightarrow> t = acc + sum_list ns"
  by (induction ns arbitrary: acc) (fastforce split: if_splits)+

lemma checked_total_in_i64: "checked_total acc ns = Some t \<Longrightarrow> in_i64 acc \<Longrightarrow> in_i64 t"
  by (induction ns arbitrary: acc) (auto split: if_splits)

lemma checked_total_nonneg:
  "(\<And>n. n \<in> set ns \<Longrightarrow> 0 \<le> n) \<Longrightarrow> 0 \<le> acc \<Longrightarrow> acc + sum_list ns \<le> i64_max \<Longrightarrow>
   checked_total acc ns = Some (acc + sum_list ns)"
proof (induction ns arbitrary: acc)
  case Nil
  then show ?case by simp
next
  case (Cons n ns)
  have "0 \<le> sum_list ns" using Cons.prems(1) by (simp add: sum_list_nonneg)
  then have "in_i64 (acc + n)"
    using Cons.prems(1) [of n] Cons.prems(2,3) by (simp add: in_i64_def i64_min_def)
  with Cons show ?case by (simp add: add.assoc)
qed

lemma sum_where_Some: "sum_where p f rows = Some t \<Longrightarrow> t = total_where p f rows"
  by (auto simp: sum_where_def total_where_def dest: checked_total_Some)

lemma sum_where_in_i64: "sum_where p f rows = Some t \<Longrightarrow> in_i64 t"
  using checked_total_in_i64 [of 0 "map f (filter p rows)" t]
  by (simp add: sum_where_def in_i64_def i64_min_def i64_max_def)

lemma sum_where_exact:
  "(\<And>r. r \<in> set rows \<Longrightarrow> p r \<Longrightarrow> 0 \<le> f r) \<Longrightarrow> total_where p f rows \<le> i64_max \<Longrightarrow>
   sum_where p f rows = Some (total_where p f rows)"
  unfolding sum_where_def total_where_def
  by (subst checked_total_nonneg) auto

lemma image_update_where [simp]:
  assumes "\<And>r. key (f r) = key r"
  shows "key ` set (update_where p f rows) = key ` set rows"
proof -
  have "map key (update_where p f rows) = map key rows" by (simp add: update_where_def assms)
  then show ?thesis by (simp flip: set_map)
qed

text \<open>\<open>persists R xs ys\<close>: every row of \<open>xs\<close> is still in \<open>ys\<close>, up to the change \<open>R\<close> allows.\<close>

definition persists :: "('r \<Rightarrow> 'r \<Rightarrow> bool) \<Rightarrow> 'r list \<Rightarrow> 'r list \<Rightarrow> bool" where
  "persists R xs ys \<longleftrightarrow> (\<forall>x\<in>set xs. \<exists>y\<in>set ys. R x y)"

lemma persists_refl: "(\<And>x. R x x) \<Longrightarrow> persists R xs xs"
  by (auto simp: persists_def)

lemma persists_trans:
  "transp R \<Longrightarrow> persists R xs ys \<Longrightarrow> persists R ys zs \<Longrightarrow> persists R xs zs"
  by (fastforce simp: persists_def dest: transpD)

lemma persists_append: "(\<And>x. R x x) \<Longrightarrow> persists R xs (xs @ ys)"
  by (auto simp: persists_def)

lemma persists_update_where:
  assumes "\<And>x. x \<in> set xs \<Longrightarrow> p x \<Longrightarrow> R x (f x)" and "\<And>x. R x x"
  shows "persists R xs (update_where p f xs)"
  unfolding persists_def
proof
  fix x
  assume "x \<in> set xs"
  then have "(if p x then f x else x) \<in> set (update_where p f xs)" and "R x (if p x then f x else x)"
    using assms by (auto simp: set_update_where)
  then show "\<exists>y\<in>set (update_where p f xs). R x y" by blast
qed

lemma update_where_by_key:
  assumes "unique_by key rows" and "row_by key k rows = Some r"
  shows "x \<in> set (update_where (\<lambda>r. key r = k) f rows) \<longleftrightarrow> x = f r \<or> (x \<in> set rows \<and> key x \<noteq> k)"
  using assms by (auto simp: set_update_where row_by_unique image_iff dest: unique_by_inj)

lemma count_where_mono:
  "(\<And>r. r \<in> set rows \<Longrightarrow> p r \<Longrightarrow> q r) \<Longrightarrow> count_where p rows \<le> count_where q rows"
  by (induction rows) auto

lemma count_where_split:
  "count_where q rows + count_where p (filter (\<lambda>r. \<not> q r) rows) = count_where (\<lambda>r. q r \<or> p r) rows"
  by (induction rows) auto

lemma count_where_cong:
  "(\<And>r. r \<in> set rows \<Longrightarrow> p r = q r) \<Longrightarrow> count_where p rows = count_where q rows"
  by (induction rows) auto

lemma count_where_update_where:
  "count_where p (update_where q g rows) = count_where (\<lambda>r. p (if q r then g r else r)) rows"
  by (induction rows) (simp_all add: update_where_def)

text \<open>Only the row with the given key may make a difference to a total.\<close>

lemma total_where_one_row:
  assumes "unique_by key rows" and "row_by key k rows = Some r"
    and "\<And>x. x \<in> set rows \<Longrightarrow> key x \<noteq> k \<Longrightarrow> (if p x then f x else 0) = (if q x then g x else 0)"
  shows "total_where q g rows
         = total_where p f rows + ((if q r then g r else 0) - (if p r then f r else 0))"
  using assms
proof (induction rows)
  case Nil
  then show ?case by simp
next
  case (Cons a rows)
  show ?case
  proof (cases "key a = k")
    case True
    with Cons.prems(2) have "r = a" by (simp add: row_by_Cons)
    moreover have "total_where p f rows = total_where q g rows"
    proof (rule total_where_cong)
      fix x
      assume "x \<in> set rows"
      moreover from \<open>x \<in> set rows\<close> have "key a \<noteq> key x"
        using Cons.prems(1) by (fastforce simp: unique_by_def)
      then have "key x \<noteq> k" using True by simp
      ultimately show "(if p x then f x else 0) = (if q x then g x else 0)"
        using Cons.prems(3) [of x] by simp
    qed
    ultimately show ?thesis by simp
  next
    case False
    have "unique_by key rows" using Cons.prems(1) by (simp add: unique_by_def)
    moreover have "row_by key k rows = Some r" using Cons.prems(2) False by (simp add: row_by_Cons)
    ultimately have IH: "total_where q g rows
         = total_where p f rows + ((if q r then g r else 0) - (if p r then f r else 0))"
      using Cons.IH Cons.prems(3) by simp
    have "(if p a then f a else 0) = (if q a then g a else 0)"
      using Cons.prems(3) [of a] False by simp
    with IH show ?thesis by (simp only: total_where_simps)
  qed
qed

lemma sum_where_update_where:
  assumes "\<And>x. x \<in> set rows \<Longrightarrow> q x \<Longrightarrow> p (g x) = p x \<and> f (g x) = f x"
  shows "sum_where p f (update_where q g rows) = sum_where p f rows"
proof -
  have "map f (filter p (update_where q g rows)) = map f (filter p rows)"
    using assms by (induction rows) (auto simp: update_where_def)
  then show ?thesis by (simp add: sum_where_def)
qed

section \<open>Three-way comparison, stable sort, maximum\<close>

text \<open>
  \<open>std::cmp::Ordering\<close> is \<open>ordering\<close>; \<open>sort_by\<close> is the stable sort and \<open>max_by\<close> the maximum
  by a comparison (the last one of several equal maxima, as \<open>Iterator::max_by\<close> returns it).
  What both promise rests on the comparison being a total preorder, the contract
  \<open>three_way\<close>.
\<close>

datatype ordering = Less | Equal | Greater

definition then_with :: "ordering \<Rightarrow> ordering \<Rightarrow> ordering" where
  "then_with a b = (if a = Equal then b else a)"

definition compare_of :: "'a::linorder \<Rightarrow> 'a \<Rightarrow> ordering" where
  "compare_of a b = (if a < b then Less else if a = b then Equal else Greater)"

fun insert_by :: "('a \<Rightarrow> 'a \<Rightarrow> ordering) \<Rightarrow> 'a \<Rightarrow> 'a list \<Rightarrow> 'a list" where
  "insert_by cmp x [] = [x]"
| "insert_by cmp x (y # ys) = (if cmp x y = Greater then y # insert_by cmp x ys else x # y # ys)"

definition sort_by :: "('a \<Rightarrow> 'a \<Rightarrow> ordering) \<Rightarrow> 'a list \<Rightarrow> 'a list" where
  "sort_by cmp xs = foldr (insert_by cmp) xs []"

fun max_by_from :: "('a \<Rightarrow> 'a \<Rightarrow> ordering) \<Rightarrow> 'a \<Rightarrow> 'a list \<Rightarrow> 'a" where
  "max_by_from cmp m [] = m"
| "max_by_from cmp m (x # xs) = max_by_from cmp (if cmp m x = Greater then m else x) xs"

definition max_by :: "('a \<Rightarrow> 'a \<Rightarrow> ordering) \<Rightarrow> 'a list \<Rightarrow> 'a option" where
  "max_by cmp xs = (case xs of [] \<Rightarrow> None | y # ys \<Rightarrow> Some (max_by_from cmp y ys))"

lemma set_insert_by [simp]: "set (insert_by cmp x xs) = insert x (set xs)"
  by (induction xs) auto

lemma set_sort_by [simp]: "set (sort_by cmp xs) = set xs"
  by (induction xs) (simp_all add: sort_by_def)

lemma sort_by_Nil [simp]: "sort_by cmp [] = []"
  by (simp add: sort_by_def)

lemma sort_by_Cons [simp]: "sort_by cmp (x # xs) = insert_by cmp x (sort_by cmp xs)"
  by (simp add: sort_by_def)

lemma insert_by_not_Nil [simp]: "insert_by cmp x xs \<noteq> []"
  by (cases xs) auto

lemma sort_by_Nil_iff [simp]: "sort_by cmp xs = [] \<longleftrightarrow> xs = []"
  by (cases xs) auto

lemma max_by_from_in: "max_by_from cmp m xs \<in> insert m (set xs)"
  by (induction xs arbitrary: m) fastforce+

lemma max_by_None [simp]: "max_by cmp xs = None \<longleftrightarrow> xs = []"
  by (cases xs) (auto simp: max_by_def)

lemma max_by_Some_in: "max_by cmp xs = Some m \<Longrightarrow> m \<in> set xs"
  using max_by_from_in [of cmp "hd xs" "tl xs"] by (auto simp: max_by_def split: list.splits)

lemma max_by_singleton [simp]: "max_by cmp [x] = Some x"
  by (simp add: max_by_def)

locale three_way =
  fixes cmp :: "'a \<Rightarrow> 'a \<Rightarrow> ordering"
  assumes cmp_swap: "cmp a b = Greater \<longleftrightarrow> cmp b a = Less"
    and cmp_trans: "cmp a b \<noteq> Greater \<Longrightarrow> cmp b c \<noteq> Greater \<Longrightarrow> cmp a c \<noteq> Greater"
begin

lemma cmp_refl: "cmp a a = Equal"
  using cmp_swap [of a a] by (cases "cmp a a") auto

lemma cmp_total: "cmp a b \<noteq> Greater \<or> cmp b a \<noteq> Greater"
  using cmp_swap [of a b] cmp_swap [of b a] by (cases "cmp a b") auto

lemma cmp_not_Greater: "cmp a b = Greater \<Longrightarrow> cmp b a \<noteq> Greater"
  using cmp_total by blast

lemma sorted_insert_by:
  "sorted_wrt (\<lambda>a b. cmp a b \<noteq> Greater) xs \<Longrightarrow> sorted_wrt (\<lambda>a b. cmp a b \<noteq> Greater) (insert_by cmp x xs)"
proof (induction xs)
  case Nil
  then show ?case by simp
next
  case (Cons y ys)
  show ?case
  proof (cases "cmp x y = Greater")
    case True
    with Cons show ?thesis by (auto dest: cmp_not_Greater)
  next
    case False
    moreover from Cons.prems False have "\<forall>z\<in>set ys. cmp x z \<noteq> Greater"
      using cmp_trans by fastforce
    ultimately show ?thesis using Cons.prems by simp
  qed
qed

lemma sorted_sort_by: "sorted_wrt (\<lambda>a b. cmp a b \<noteq> Greater) (sort_by cmp xs)"
  by (induction xs) (simp_all add: sorted_insert_by)

lemma sort_by_hd_least:
  assumes "sort_by cmp xs = y # ys" and "x \<in> set xs"
  shows "cmp y x \<noteq> Greater"
proof -
  have "x \<in> set (y # ys)" using assms set_sort_by [of cmp xs] by simp
  moreover have "sorted_wrt (\<lambda>a b. cmp a b \<noteq> Greater) (y # ys)"
    using sorted_sort_by [of xs] assms(1) by simp
  ultimately show ?thesis using cmp_refl [of y] by auto
qed

lemma max_by_from_greatest:
  "x \<in> insert m (set xs) \<Longrightarrow> cmp x (max_by_from cmp m xs) \<noteq> Greater"
proof (induction xs arbitrary: m x)
  case Nil
  then show ?case by (simp add: cmp_refl)
next
  case (Cons y ys)
  let ?m = "if cmp m y = Greater then m else y"
  have best: "cmp ?m (max_by_from cmp ?m ys) \<noteq> Greater" by (rule Cons.IH) simp
  have "cmp m ?m \<noteq> Greater" "cmp y ?m \<noteq> Greater"
    by (auto simp: cmp_refl dest: cmp_not_Greater)
  then have hd: "cmp m (max_by_from cmp ?m ys) \<noteq> Greater" "cmp y (max_by_from cmp ?m ys) \<noteq> Greater"
    using cmp_trans [OF _ best] by simp_all
  have step: "max_by_from cmp m (y # ys) = max_by_from cmp ?m ys" by simp
  from Cons.prems consider "x = m" | "x = y" | "x \<in> insert ?m (set ys)" by auto
  then show ?case
    unfolding step using hd Cons.IH [of x ?m] by cases simp_all
qed

lemma max_by_greatest: "max_by cmp xs = Some m \<Longrightarrow> x \<in> set xs \<Longrightarrow> cmp x m \<noteq> Greater"
  using max_by_from_greatest by (auto simp: max_by_def split: list.splits)

end

interpretation compare_of: three_way "compare_of :: 'a::linorder \<Rightarrow> 'a \<Rightarrow> ordering"
  by unfold_locales (auto simp: compare_of_def split: if_splits)

text \<open>Comparing by a key, and by two comparisons one after the other, keep the contract.\<close>

lemma three_way_by_key: "three_way cmp \<Longrightarrow> three_way (\<lambda>a b. cmp (key a) (key b))"
  unfolding three_way_def by blast

lemma three_way_then_with:
  assumes "three_way c" and "three_way d"
  shows "three_way (\<lambda>a b. then_with (c a b) (d a b))"
proof
  note cs = three_way.cmp_swap [OF assms(1)] and ds = three_way.cmp_swap [OF assms(2)]
  note ct = three_way.cmp_trans [OF assms(1)] and dt = three_way.cmp_trans [OF assms(2)]
  have ceq: "c a b = Equal \<longleftrightarrow> c b a = Equal" for a b
    using cs [of a b] cs [of b a] by (cases "c a b"; cases "c b a") auto
  show "then_with (c a b) (d a b) = Greater \<longleftrightarrow> then_with (c b a) (d b a) = Less" for a b
    using ceq [of a b] cs [of a b] ds [of a b] by (auto simp: then_with_def)
  fix x y z
  assume xy: "then_with (c x y) (d x y) \<noteq> Greater" and yz: "then_with (c y z) (d y z) \<noteq> Greater"
  have cxy: "c x y \<noteq> Greater" and cyz: "c y z \<noteq> Greater"
    using xy yz by (auto simp: then_with_def split: if_splits)
  show "then_with (c x z) (d x z) \<noteq> Greater"
  proof (cases "c x z = Equal")
    case False
    with ct [OF cxy cyz] show ?thesis by (simp add: then_with_def)
  next
    case True
    then have "c z x \<noteq> Greater" using ceq [of x z] by simp
    with cxy cyz have "c z y \<noteq> Greater" and "c y x \<noteq> Greater"
      using ct by blast+
    with cxy cyz have "c x y = Equal" and "c y z = Equal"
      using cs [of x y] cs [of y x] cs [of y z] cs [of z y]
      by (cases "c x y"; cases "c y z"; auto)+
    with xy yz have "d x y \<noteq> Greater" "d y z \<noteq> Greater" by (simp_all add: then_with_def)
    then have "d x z \<noteq> Greater" by (rule dt)
    with True show ?thesis by (simp add: then_with_def)
  qed
qed

section \<open>Guarded state machines\<close>

text \<open>
  The contract the components with durable state share: operations that either fail and leave
  the state alone or return a new state, and an invariant every successful operation keeps.
  \<open>run\<close> applies a sequence of operations; one that fails changes nothing, as a rolled back
  transaction does.
\<close>

fun run :: "('op \<Rightarrow> 's \<Rightarrow> 'e + 's) \<Rightarrow> 'op list \<Rightarrow> 's \<Rightarrow> 's" where
  "run step [] s = s"
| "run step (op # ops) s = run step ops (case step op s of Inl _ \<Rightarrow> s | Inr s' \<Rightarrow> s')"

inductive reachable :: "('op \<Rightarrow> 's \<Rightarrow> 'e + 's) \<Rightarrow> 's \<Rightarrow> 's \<Rightarrow> bool" for step s0 where
  start: "reachable step s0 s0"
| step: "reachable step s0 s \<Longrightarrow> step op s = Inr s' \<Longrightarrow> reachable step s0 s'"

lemma run_append: "run step (xs @ ys) s = run step ys (run step xs s)"
  by (induction xs arbitrary: s) simp_all

lemma reachable_trans: "reachable step b c \<Longrightarrow> reachable step a b \<Longrightarrow> reachable step a c"
  by (induction rule: reachable.induct) (auto intro: reachable.step)

lemma reachable_run: "reachable step s (run step ops s)"
proof (induction ops arbitrary: s)
  case Nil
  show ?case by (simp add: reachable.start)
next
  case (Cons op ops)
  show ?case
  proof (cases "step op s")
    case (Inl e)
    with Cons show ?thesis by simp
  next
    case (Inr s')
    then have "reachable step s s'" by (rule reachable.step [OF reachable.start])
    with Cons [of s'] have "reachable step s (run step ops s')" by (rule reachable_trans)
    with Inr show ?thesis by simp
  qed
qed

lemma run_keeps:
  assumes "\<And>op s s'. op \<in> set ops \<Longrightarrow> P s \<Longrightarrow> step op s = Inr s' \<Longrightarrow> P s'"
  shows "P s \<Longrightarrow> P (run step ops s)"
  using assms
proof (induction ops arbitrary: s)
  case Nil
  then show ?case by simp
next
  case (Cons op ops)
  have "P (case step op s of Inl _ \<Rightarrow> s | Inr s' \<Rightarrow> s')"
    using Cons.prems(1) Cons.prems(2) [of op s] by (cases "step op s") auto
  moreover have "\<And>op s s'. op \<in> set ops \<Longrightarrow> P s \<Longrightarrow> step op s = Inr s' \<Longrightarrow> P s'"
    by (rule Cons.prems(2)) auto
  ultimately show ?case using Cons.IH by simp
qed

locale guarded_machine =
  fixes step :: "'op \<Rightarrow> 's \<Rightarrow> 'e + 's"
    and inv :: "'s \<Rightarrow> bool"
  assumes step_inv: "inv s \<Longrightarrow> step op s = Inr s' \<Longrightarrow> inv s'"
begin

lemma reachable_inv: "reachable step s0 s \<Longrightarrow> inv s0 \<Longrightarrow> inv s"
  by (induction rule: reachable.induct) (auto dest: step_inv)

lemma run_inv: "inv s \<Longrightarrow> inv (run step ops s)"
  by (rule reachable_inv [OF reachable_run])

end

text \<open>
  A machine that also only ever moves forward along a preorder of states (charges that are
  never refunded, final states that stay, generations that grow).
\<close>

locale monotone_machine = guarded_machine step inv
  for step :: "'op \<Rightarrow> 's \<Rightarrow> 'e + 's" and inv :: "'s \<Rightarrow> bool" +
  fixes ahead :: "'s \<Rightarrow> 's \<Rightarrow> bool"
  assumes ahead_refl: "ahead s s"
    and ahead_trans: "ahead a b \<Longrightarrow> ahead b c \<Longrightarrow> ahead a c"
    and step_ahead: "inv s \<Longrightarrow> step op s = Inr s' \<Longrightarrow> ahead s s'"
begin

lemma reachable_ahead: "reachable step s0 s \<Longrightarrow> inv s0 \<Longrightarrow> ahead s0 s"
proof (induction rule: reachable.induct)
  case start
  show ?case by (rule ahead_refl)
next
  case (step s op s')
  have "inv s" by (rule reachable_inv [OF step.hyps(1) step.prems])
  then have "ahead s s'" using step.hyps(2) by (rule step_ahead)
  with step.IH [OF step.prems] show ?case by (rule ahead_trans)
qed

lemma run_ahead: "inv s \<Longrightarrow> ahead s (run step ops s)"
  by (rule reachable_ahead [OF reachable_run])

end

end
