(* ===== verification/F64.thy ===== *)
theory F64
  imports Prelude
begin

text \<open>
  The \<open>f64\<close> times the program stores and compares, as their 64 bits, with what the modelled code
  uses of them: subtraction rounded to the nearest double, the IEEE relations \<open>==\<close> and \<open><\<close>, under which a NaN is
  unordered and the two zeros are equal, and \<open>f64::total_cmp\<close>, the total order on bit
  patterns the standard library defines by flipping the bits of negative numbers.
\<close>

type_synonym f64 = "64 word"

definition f64_magnitude :: "f64 \<Rightarrow> f64" where
  "f64_magnitude w = w AND 0x7FFFFFFFFFFFFFFF"

definition f64_is_nan :: "f64 \<Rightarrow> bool" where
  "f64_is_nan w \<longleftrightarrow> 0x7FF0000000000000 < f64_magnitude w"

definition f64_is_zero :: "f64 \<Rightarrow> bool" where
  "f64_is_zero w \<longleftrightarrow> f64_magnitude w = 0"

text \<open>\<open>left ^= (((left >> 63) as u64) >> 1) as i64\<close>\<close>

definition f64_total_bits :: "f64 \<Rightarrow> f64" where
  "f64_total_bits w = w XOR drop_bit 1 (signed_drop_bit 63 w)"

definition f64_total_key :: "f64 \<Rightarrow> int" where
  "f64_total_key w = sint (f64_total_bits w)"

definition f64_total_cmp :: "f64 \<Rightarrow> f64 \<Rightarrow> ordering" where
  "f64_total_cmp a b = compare_of (f64_total_key a) (f64_total_key b)"

definition f64_lt :: "f64 \<Rightarrow> f64 \<Rightarrow> bool" where
  "f64_lt a b \<longleftrightarrow> \<not> f64_is_nan a \<and> \<not> f64_is_nan b \<and> \<not> (f64_is_zero a \<and> f64_is_zero b)
                 \<and> f64_total_key a < f64_total_key b"

definition f64_eq :: "f64 \<Rightarrow> f64 \<Rightarrow> bool" where
  "f64_eq a b \<longleftrightarrow> \<not> f64_is_nan a \<and> \<not> f64_is_nan b \<and> (a = b \<or> f64_is_zero a \<and> f64_is_zero b)"

definition f64_zero :: f64 where "f64_zero = 0"

lemma signed_drop_bit_63: "signed_drop_bit 63 (w :: f64) = (if bit w 63 then -1 else 0)"
proof (rule bit_word_eqI)
  fix n assume "n < LENGTH(64)"
  then show "bit (signed_drop_bit 63 w) n = bit (if bit w 63 then -1 else 0 :: f64) n"
    by (cases n) (auto simp: bit_signed_drop_bit_iff)
qed

lemma f64_total_bits_eq:
  "f64_total_bits w = (if bit w 63 then w XOR 0x7FFFFFFFFFFFFFFF else w)"
proof -
  have "drop_bit 1 (-1 :: f64) = 0x7FFFFFFFFFFFFFFF"
    by (simp add: mask_eq_exp_minus_1)
  then show ?thesis by (simp add: f64_total_bits_def signed_drop_bit_63)
qed

lemma f64_total_bits_involution: "f64_total_bits (f64_total_bits w) = w"
proof -
  have "bit (w XOR 0x7FFFFFFFFFFFFFFF) 63 = bit w 63" by (simp add: bit_xor_iff)
  moreover have "w XOR 0x7FFFFFFFFFFFFFFF XOR 0x7FFFFFFFFFFFFFFF = w"
    by (simp add: xor.assoc)
  ultimately show ?thesis by (auto simp: f64_total_bits_eq xor.assoc)
qed

lemma f64_total_key_inj: "f64_total_key a = f64_total_key b \<longleftrightarrow> a = b"
  by (metis f64_total_key_def f64_total_bits_involution signed_word_eqI)

lemma f64_total_cmp_Equal [simp]: "f64_total_cmp a b = Equal \<longleftrightarrow> a = b"
  by (auto simp: f64_total_cmp_def compare_of_def f64_total_key_inj)

lemma f64_total_cmp_Greater: "f64_total_cmp a b = Greater \<longleftrightarrow> f64_total_key b < f64_total_key a"
  by (auto simp: f64_total_cmp_def compare_of_def)

interpretation f64_order: three_way f64_total_cmp
  unfolding f64_total_cmp_def by (rule three_way_by_key [OF compare_of.three_way_axioms])

lemma f64_lt_irrefl [simp]: "\<not> f64_lt a a"
  by (simp add: f64_lt_def)

lemma f64_lt_imp_less: "f64_lt a b \<Longrightarrow> f64_total_cmp a b = Less"
  by (simp add: f64_lt_def f64_total_cmp_def compare_of_def)

text \<open>The order of \<open>total_cmp\<close> at the special values.\<close>

lemma f64_total_cmp_examples:
  "f64_total_cmp 0x8000000000000000 0 = Less"
  "f64_total_cmp 0x3FF0000000000000 0x4000000000000000 = Less"
  "f64_total_cmp 0xC000000000000000 0xBFF0000000000000 = Less"
  "f64_total_cmp 0x7FF0000000000000 0x7FF8000000000000 = Less"
  "f64_total_cmp 0xFFF8000000000000 0xFFF0000000000000 = Less"
  by (simp_all add: f64_total_cmp_def f64_total_key_def f64_total_bits_eq compare_of_def
      bit_iff_odd drop_bit_eq_div)

section \<open>Subtraction\<close>

text \<open>A finite double is a whole number of units of \<open>2 ^ -1074\<close>; the exact difference of two is rounded to
  the nearest double, ties to the even one.\<close>

definition f64_is_infinite :: "f64 \<Rightarrow> bool" where
  "f64_is_infinite w \<longleftrightarrow> f64_magnitude w = 0x7FF0000000000000"

definition f64_negative :: "f64 \<Rightarrow> bool" where
  "f64_negative w \<longleftrightarrow> w \<noteq> f64_magnitude w"

definition f64_units :: "f64 \<Rightarrow> int" where
  "f64_units w =
     (let m = uint (f64_magnitude w); e = m div 4503599627370496; f = m mod 4503599627370496;
          n = (if e = 0 then f else (4503599627370496 + f) * 2 ^ nat (e - 1)) in
      if f64_negative w then - n else n)"

function excess_bits :: "int \<Rightarrow> int" where
  "excess_bits n = (if n < 9007199254740992 then 0 else 1 + excess_bits (n div 2))"
  by pat_completeness auto
termination
  by (relation "measure nat") auto

declare excess_bits.simps [simp del]

definition f64_of_units :: "int \<Rightarrow> f64" where
  "f64_of_units v =
     (let n = abs v; k = excess_bits n; q = n div 2 ^ nat k; r = 2 * (n mod 2 ^ nat k);
          up = (r > 2 ^ nat k \<or> r = 2 ^ nat k \<and> odd q);
          bits = k * 4503599627370496 + (if up then q + 1 else q);
          magnitude = (if bits \<ge> 0x7FF0000000000000 then 0x7FF0000000000000 else word_of_int bits) in
      if v < 0 then magnitude OR 0x8000000000000000 else magnitude)"

definition f64_sub :: "f64 \<Rightarrow> f64 \<Rightarrow> f64" where
  "f64_sub a b =
     (if f64_is_nan a \<or> f64_is_nan b then 0x7FF8000000000000
      else if f64_is_infinite a then (if a = b then 0x7FF8000000000000 else a)
      else if f64_is_infinite b then b XOR 0x8000000000000000
      else if f64_units a = f64_units b then (if f64_negative a \<and> \<not> f64_negative b then 0x8000000000000000 else 0)
      else f64_of_units (f64_units a - f64_units b))"

text \<open>The smallest numbers, the sign of a zero, and the tie \<open>2^53 + 1\<close> (in units), which goes to the even one.\<close>

lemma f64_sub_examples:
  "f64_sub 5 3 = 2" "f64_sub 3 5 = 0x8000000000000002"
  "f64_sub 0x8000000000000000 0 = 0x8000000000000000"
  "f64_sub 0x0020000000000000 0x8000000000000001 = 0x0020000000000000"
  by code_simp+

end
