(* ===== verification/Model.thy ===== *)
theory Model
  imports F64
begin

text \<open>
  The shared data model (src/model.rs): providers and statuses with their textual forms and
  orders, the session record the board shows, the observations it is projected from, and the
  predicates on sessions other components use. \<open>FleetSession\<close> (src/fleet.rs) is the cached row
  of another machine.
\<close>

section \<open>Providers\<close>

datatype provider = Codex | Claude | Opencode | Muse

definition provider_all :: "provider list" where
  "provider_all = [Codex, Claude, Opencode, Muse]"

fun provider_as_str :: "provider \<Rightarrow> string" where
  "provider_as_str Codex = ''codex''"
| "provider_as_str Claude = ''claude''"
| "provider_as_str Opencode = ''opencode''"
| "provider_as_str Muse = ''muse''"

definition provider_from_str :: "string \<Rightarrow> string + provider" where
  "provider_from_str v =
     (let s = to_ascii_lowercase v in
      if s = ''codex'' then Inr Codex
      else if s = ''claude'' then Inr Claude
      else if s = ''opencode'' \<or> s = ''oc'' then Inr Opencode
      else if s = ''muse'' then Inr Muse
      else Inl (''unknown provider: '' @ v))"

text \<open>The derived order is the order of declaration.\<close>

fun provider_index :: "provider \<Rightarrow> nat" where
  "provider_index Codex = 0"
| "provider_index Claude = 1"
| "provider_index Opencode = 2"
| "provider_index Muse = 3"

lemma provider_index_inj: "provider_index a = provider_index b \<longleftrightarrow> a = b"
  by (cases a; cases b) simp_all

instantiation provider :: linorder
begin

definition less_eq_provider :: "provider \<Rightarrow> provider \<Rightarrow> bool" where
  "less_eq_provider a b \<longleftrightarrow> provider_index a \<le> provider_index b"

definition less_provider :: "provider \<Rightarrow> provider \<Rightarrow> bool" where
  "less_provider a b \<longleftrightarrow> provider_index a < provider_index b"

instance
  by standard (auto simp: less_eq_provider_def less_provider_def provider_index_inj)

end

lemma provider_from_as_str [simp]: "provider_from_str (provider_as_str p) = Inr p"
  by (cases p) (simp_all add: provider_from_str_def to_ascii_lowercase_def ascii_lower_char_def)

lemma provider_as_str_inj: "provider_as_str a = provider_as_str b \<longleftrightarrow> a = b"
  by (cases a; cases b) simp_all

lemma provider_as_str_no_bar: "CHR ''|'' \<notin> set (provider_as_str p)"
  by (cases p) simp_all

lemma length_provider_as_str: "length (provider_as_str p) \<le> 8"
  by (cases p) simp_all

lemma provider_all_complete: "set provider_all = UNIV"
  unfolding provider_all_def using provider.exhaust by auto

section \<open>Statuses\<close>

datatype status =
  Starting | NeedsYou | OpenTwice | Working | Ready | Parked | Unbound | Error

fun status_as_str :: "status \<Rightarrow> string" where
  "status_as_str Starting = ''STARTING''"
| "status_as_str NeedsYou = ''NEEDS YOU''"
| "status_as_str OpenTwice = ''OPEN TWICE''"
| "status_as_str Working = ''WORKING''"
| "status_as_str Ready = ''READY''"
| "status_as_str Parked = ''PARKED''"
| "status_as_str Unbound = ''UNBOUND''"
| "status_as_str Error = ''ERROR''"

fun attention_order :: "status \<Rightarrow> nat" where
  "attention_order NeedsYou = 0"
| "attention_order OpenTwice = 1"
| "attention_order Error = 2"
| "attention_order Ready = 3"
| "attention_order Working = 4"
| "attention_order Starting = 5"
| "attention_order Parked = 6"
| "attention_order Unbound = 7"

definition status_from_str :: "string \<Rightarrow> string + status" where
  "status_from_str v =
     (if v = ''STARTING'' then Inr Starting
      else if v = ''NEEDS YOU'' then Inr NeedsYou
      else if v = ''OPEN TWICE'' then Inr OpenTwice
      else if v = ''WORKING'' then Inr Working
      else if v = ''READY'' then Inr Ready
      else if v = ''PARKED'' then Inr Parked
      else if v = ''UNBOUND'' then Inr Unbound
      else if v = ''ERROR'' then Inr Error
      else Inl (''unknown status: '' @ v))"

lemma status_from_as_str [simp]: "status_from_str (status_as_str s) = Inr s"
  by (cases s) (simp_all add: status_from_str_def)

lemma status_from_str_Inr: "status_from_str v = Inr s \<Longrightarrow> v = status_as_str s"
  by (auto simp: status_from_str_def split: if_splits)

lemma attention_order_inj: "attention_order a = attention_order b \<longleftrightarrow> a = b"
  by (cases a; cases b) simp_all

section \<open>Sessions\<close>

record session =
  s_provider :: provider
  s_session_id :: string
  s_name :: "string option"
  s_cwd :: "string option"
  s_branch :: "string option"
  s_transcript_path :: "string option"
  s_tmux_session :: "string option"
  s_tmux_pane :: "string option"
  s_root_pid :: "i64 option"
  s_status :: status
  s_unread :: bool
  s_model :: "string option"
  s_source :: string
  s_managed :: bool
  s_error :: "string option"
  s_attention_reason :: "string option"
  s_created_at :: f64
  s_updated_at :: f64
  s_last_event_at :: f64
  s_last_activity_at :: f64
  s_live :: bool
  s_attached :: bool
  s_home_state :: string
  s_cpu_percent :: "f64 option"
  s_rss_kb :: "i64 option"
  s_input_tokens :: "i64 option"
  s_output_tokens :: "i64 option"
  s_cached_input_tokens :: "i64 option"
  s_cache_write_tokens :: "i64 option"
  s_total_tokens :: "i64 option"
  s_estimated_cost_usd :: "f64 option"
  s_active_thread_id :: "string option"

definition display_name :: "session \<Rightarrow> string" where
  "display_name s =
     (case s_name s of
        Some n \<Rightarrow> n
      | None \<Rightarrow> provider_as_str (s_provider s) @ ''-'' @ char_prefix 8 (s_session_id s))"

definition provider_thread_id :: "session \<Rightarrow> string" where
  "provider_thread_id s =
     (case s_active_thread_id s of Some t \<Rightarrow> t | None \<Rightarrow> s_session_id s)"

definition needs_attention :: "session \<Rightarrow> bool" where
  "needs_attention s \<longleftrightarrow>
     s_status s = NeedsYou \<or> (s_unread s \<and> (s_status s = Error \<or> s_status s = OpenTwice))"

definition has_exact_home :: "session \<Rightarrow> bool" where
  "has_exact_home s \<longleftrightarrow> s_home_state s = ''exact'' \<or> s_home_state s = ''exact-live''"

text \<open>A session with every optional field empty, for concrete inputs.\<close>

definition bare_session :: "provider \<Rightarrow> string \<Rightarrow> status \<Rightarrow> bool \<Rightarrow> session" where
  "bare_session p i st u =
     \<lparr> s_provider = p, s_session_id = i, s_name = None, s_cwd = None, s_branch = None,
       s_transcript_path = None, s_tmux_session = None, s_tmux_pane = None, s_root_pid = None,
       s_status = st, s_unread = u, s_model = None, s_source = ''test'', s_managed = True,
       s_error = None, s_attention_reason = None, s_created_at = 0, s_updated_at = 0,
       s_last_event_at = 0, s_last_activity_at = 0, s_live = False, s_attached = False,
       s_home_state = ''missing'', s_cpu_percent = None, s_rss_kb = None, s_input_tokens = None,
       s_output_tokens = None, s_cached_input_tokens = None, s_cache_write_tokens = None,
       s_total_tokens = None, s_estimated_cost_usd = None, s_active_thread_id = None \<rparr>"

section \<open>Observations\<close>

datatype observation_kind = Lifecycle | Runtime | Safety

record status_observation =
  o_kind :: observation_kind
  o_status :: status
  o_unread :: bool
  o_attention_reason :: "string option"
  o_error :: "string option"
  o_observed_at :: f64
  o_source :: string

section \<open>Candidates found by a provider scan\<close>

record candidate =
  c_provider :: provider
  c_session_id :: string
  c_name :: "string option"
  c_cwd :: "string option"
  c_branch :: "string option"
  c_transcript_path :: "string option"
  c_model :: "string option"
  c_updated_at :: f64
  c_live :: bool
  c_pid :: "i64 option"
  c_source :: string
  c_parent_session_id :: "string option"
  c_created_at :: f64
  c_lifecycle_status :: "status option"

section \<open>Rows of other machines\<close>

record fleet_session =
  f_node_id :: string
  f_node_name :: string
  f_session :: session
  f_stale :: bool
  f_remote_error :: "string option"
  f_seen_at :: f64
  f_card_status :: "string option"
  f_card_detail :: "string option"
  f_expert_scope :: "string option"
  f_expert_current_work :: "string option"
  f_expert_topics :: "string list"
  f_watched :: bool
  f_availability :: "string option"
  f_scope_updated_at :: "f64 option"
  f_current_state_updated_at :: "f64 option"
  f_current_state_status :: "string option"

definition fleet_key :: "fleet_session \<Rightarrow> string \<times> provider \<times> string" where
  "fleet_key f = (f_node_id f, s_provider (f_session f), s_session_id (f_session f))"

definition qualified_name :: "fleet_session \<Rightarrow> string" where
  "qualified_name f = display_name (f_session f) @ ''@'' @ f_node_name f"

definition fleet_needs_attention :: "fleet_session \<Rightarrow> bool" where
  "fleet_needs_attention f \<longleftrightarrow> \<not> f_stale f \<and> needs_attention (f_session f)"

definition bare_fleet :: "string \<Rightarrow> session \<Rightarrow> bool \<Rightarrow> fleet_session" where
  "bare_fleet node s stale =
     \<lparr> f_node_id = node, f_node_name = node, f_session = s, f_stale = stale,
       f_remote_error = None, f_seen_at = 0, f_card_status = None, f_card_detail = None,
       f_expert_scope = None, f_expert_current_work = None, f_expert_topics = [],
       f_watched = True, f_availability = None, f_scope_updated_at = None,
       f_current_state_updated_at = None, f_current_state_status = None \<rparr>"

end
