(* ===== verification/Status_Projection.thy ===== *)
theory Status_Projection
  imports Model
begin

text \<open>
  The projection of stored observations to the status the board shows (src/status.rs): the
  newest observation of each kind, the precedence of safety over runtime over lifecycle, and
  the rule that names the branch taken.
\<close>

section \<open>The projection\<close>

record status_projection =
  p_status :: status
  p_unread :: bool
  p_attention_reason :: "string option"
  p_error :: "string option"
  p_observed_at :: f64
  p_source :: string
  p_kind :: string
  p_rule :: string

record projection_fallback =
  fb_status :: status
  fb_unread :: bool
  fb_attention_reason :: "string option"
  fb_error :: "string option"
  fb_observed_at :: f64

definition default_fallback :: projection_fallback where
  "default_fallback =
     \<lparr> fb_status = Parked, fb_unread = False, fb_attention_reason = None, fb_error = None,
       fb_observed_at = f64_zero \<rparr>"

fun kind_str :: "observation_kind \<Rightarrow> string" where
  "kind_str Lifecycle = ''lifecycle''"
| "kind_str Runtime = ''runtime''"
| "kind_str Safety = ''safety''"

definition from_observation :: "status_observation \<Rightarrow> status \<Rightarrow> bool \<Rightarrow> string \<Rightarrow> status_projection" where
  "from_observation item st unread rule =
     \<lparr> p_status = st, p_unread = unread, p_attention_reason = o_attention_reason item,
       p_error = o_error item, p_observed_at = o_observed_at item, p_source = o_source item,
       p_kind = kind_str (o_kind item), p_rule = rule \<rparr>"

definition normalized :: "status_observation \<Rightarrow> status \<Rightarrow> string \<Rightarrow> status_projection" where
  "normalized item st rule =
     (from_observation item st False rule)\<lparr> p_attention_reason := None, p_error := None \<rparr>"

definition synthetic ::
  "status \<Rightarrow> bool \<Rightarrow> f64 \<Rightarrow> string \<Rightarrow> string \<Rightarrow> string \<Rightarrow> status_projection" where
  "synthetic st unread observed_at source kind rule =
     \<lparr> p_status = st, p_unread = unread, p_attention_reason = None, p_error = None,
       p_observed_at = observed_at, p_source = source, p_kind = kind, p_rule = rule \<rparr>"

definition newest :: "observation_kind \<Rightarrow> status_observation list \<Rightarrow> status_observation option" where
  "newest kind observations =
     max_by (\<lambda>a b. f64_total_cmp (o_observed_at a) (o_observed_at b))
            (filter (\<lambda>item. o_kind item = kind) observations)"

text \<open>The \<open>match\<close> on the newest lifecycle observation; \<open>None\<close> falls through.\<close>

definition project_lifecycle :: "status_observation \<Rightarrow> bool \<Rightarrow> status_projection option" where
  "project_lifecycle item live =
     (case o_status item of
        NeedsYou \<Rightarrow> Some (from_observation item (o_status item) (o_unread item) ''lifecycle'')
      | Error \<Rightarrow> Some (from_observation item (o_status item) (o_unread item) ''lifecycle'')
      | OpenTwice \<Rightarrow> None
      | Working \<Rightarrow>
          if live then Some (from_observation item (o_status item) (o_unread item) ''lifecycle'')
          else Some (normalized item Parked ''working_process_gone'')
      | Ready \<Rightarrow>
          if live \<or> o_unread item
          then Some (from_observation item (o_status item) (o_unread item) ''lifecycle'')
          else Some (normalized item Parked ''completed_and_collected_process_gone'')
      | Parked \<Rightarrow> Some (from_observation item Parked False ''lifecycle'')
      | Starting \<Rightarrow> None
      | Unbound \<Rightarrow> None)"

definition project_without_evidence ::
  "bool \<Rightarrow> string \<Rightarrow> projection_fallback \<Rightarrow> status_projection" where
  "project_without_evidence live home_state fallback =
     (if home_state = ''unbound''
      then synthetic Unbound False (fb_observed_at fallback) ''ownership'' ''ownership''
             ''unbound_without_lifecycle''
      else if live
      then synthetic Ready False (fb_observed_at fallback) ''process'' ''runtime''
             ''live_without_turn_evidence''
      else if fb_status fallback \<in> {NeedsYou, Ready, Error}
      then \<lparr> p_status = fb_status fallback, p_unread = fb_unread fallback,
             p_attention_reason = fb_attention_reason fallback, p_error = fb_error fallback,
             p_observed_at = fb_observed_at fallback, p_source = ''legacy'', p_kind = ''legacy'',
             p_rule = ''legacy_observation'' \<rparr>
      else synthetic Parked False (fb_observed_at fallback) ''process'' ''runtime''
             ''no_live_process'')"

definition safety_failure :: "status_observation option \<Rightarrow> status_observation option" where
  "safety_failure v =
     (case v of
        None \<Rightarrow> None
      | Some item \<Rightarrow> if o_status item = OpenTwice \<or> o_status item = Error then Some item else None)"

definition project_status ::
  "status_observation list \<Rightarrow> bool \<Rightarrow> string \<Rightarrow> projection_fallback \<Rightarrow> status_projection" where
  "project_status observations live home_state fallback =
     (case safety_failure (newest Safety observations) of
        Some item \<Rightarrow> from_observation item (o_status item) (o_unread item) ''safety_precedence''
      | None \<Rightarrow>
          if home_state = ''open_twice''
          then synthetic OpenTwice True (fb_observed_at fallback) ''ownership'' ''safety''
                 ''duplicate_owner_without_safety_observation''
          else
            (case (if live then None else safety_failure (newest Runtime observations)) of
               Some item \<Rightarrow>
                 from_observation item (o_status item) (o_unread item)
                   ''runtime_failure_without_live_process''
             | None \<Rightarrow>
                 (case Option.bind (newest Lifecycle observations)
                         (\<lambda>item. project_lifecycle item live) of
                    Some projected \<Rightarrow> projected
                  | None \<Rightarrow> project_without_evidence live home_state fallback)))"

section \<open>The newest observation\<close>

lemma newest_Some:
  assumes "newest kind observations = Some item"
  shows "item \<in> set observations" and "o_kind item = kind"
    and "\<And>other. other \<in> set observations \<Longrightarrow> o_kind other = kind \<Longrightarrow>
           f64_total_cmp (o_observed_at other) (o_observed_at item) \<noteq> Greater"
proof -
  have order: "three_way (\<lambda>a b. f64_total_cmp (o_observed_at a) (o_observed_at b))"
    by (rule three_way_by_key [OF f64_order.three_way_axioms])
  show "item \<in> set observations" and "o_kind item = kind"
    using assms max_by_Some_in unfolding newest_def by fastforce+
  show "f64_total_cmp (o_observed_at other) (o_observed_at item) \<noteq> Greater"
    if "other \<in> set observations" "o_kind other = kind" for other
    using three_way.max_by_greatest [OF order] assms that unfolding newest_def by fastforce
qed

lemma newest_strict:
  assumes "item \<in> set observations" and "o_kind item = kind"
    and "\<And>other. other \<in> set observations \<Longrightarrow> o_kind other = kind \<Longrightarrow> other \<noteq> item \<Longrightarrow>
           f64_total_cmp (o_observed_at other) (o_observed_at item) = Less"
  shows "newest kind observations = Some item"
proof -
  have "filter (\<lambda>item. o_kind item = kind) observations \<noteq> []"
    using assms(1,2) by (auto simp: filter_empty_conv)
  then obtain found where found: "newest kind observations = Some found"
    unfolding newest_def by (metis max_by_None not_Some_eq)
  note in_obs = newest_Some(1,2) [OF found]
  have "f64_total_cmp (o_observed_at item) (o_observed_at found) \<noteq> Greater"
    by (rule newest_Some(3) [OF found assms(1,2)])
  then have "f64_total_cmp (o_observed_at found) (o_observed_at item) \<noteq> Less"
    using f64_order.cmp_swap by blast
  then have "found = item" using assms(3) in_obs by blast
  with found show ?thesis by simp
qed

lemma safety_failure_Some:
  "safety_failure v = Some item \<longleftrightarrow> v = Some item \<and> (o_status item = OpenTwice \<or> o_status item = Error)"
  by (auto simp: safety_failure_def split: option.splits)

lemma safety_failure_None:
  "safety_failure v = None \<longleftrightarrow> (\<forall>item. v = Some item \<longrightarrow> o_status item \<noteq> OpenTwice \<and> o_status item \<noteq> Error)"
  by (auto simp: safety_failure_def split: option.splits)

lemmas projection_defs =
  project_status_def project_without_evidence_def synthetic_def from_observation_def

lemma project_lifecycle_status:
  assumes "project_lifecycle item live = Some p"
  shows "p_status p \<noteq> Starting" "p_status p \<noteq> OpenTwice"
    and "p_status p = Working \<Longrightarrow> live \<and> o_status item = Working"
    and "p_unread p \<Longrightarrow> o_unread item \<and> p_status p = o_status item"
  using assms
  by (auto simp: project_lifecycle_def from_observation_def normalized_def
      split: status.splits if_splits)

lemma project_without_evidence_status:
  "p_status (project_without_evidence live home fb) \<notin> {Starting, OpenTwice, Working}"
  "p_unread (project_without_evidence live home fb) \<Longrightarrow>
     fb_unread fb \<and> p_status (project_without_evidence live home fb) = fb_status fb"
  by (auto simp: project_without_evidence_def synthetic_def split: if_splits)

lemma project_status_cases [consumes 0, case_names safety ownership runtime lifecycle fallback]:
  obtains
    item where "newest Safety obs = Some item" "o_status item = OpenTwice \<or> o_status item = Error"
      "project_status obs live home fb
       = from_observation item (o_status item) (o_unread item) ''safety_precedence''"
  | "safety_failure (newest Safety obs) = None" "home = ''open_twice''"
      "project_status obs live home fb
       = synthetic OpenTwice True (fb_observed_at fb) ''ownership'' ''safety''
           ''duplicate_owner_without_safety_observation''"
  | item where "safety_failure (newest Safety obs) = None" "home \<noteq> ''open_twice''" "\<not> live"
      "newest Runtime obs = Some item" "o_status item = OpenTwice \<or> o_status item = Error"
      "project_status obs live home fb
       = from_observation item (o_status item) (o_unread item) ''runtime_failure_without_live_process''"
  | item where "safety_failure (newest Safety obs) = None" "home \<noteq> ''open_twice''"
      "live \<or> safety_failure (newest Runtime obs) = None"
      "newest Lifecycle obs = Some item"
      "project_lifecycle item live = Some (project_status obs live home fb)"
  | "safety_failure (newest Safety obs) = None" "home \<noteq> ''open_twice''"
      "live \<or> safety_failure (newest Runtime obs) = None"
      "project_status obs live home fb = project_without_evidence live home fb"
proof (cases "safety_failure (newest Safety obs)")
  case (Some item)
  then have "newest Safety obs = Some item" "o_status item = OpenTwice \<or> o_status item = Error"
    by (simp_all add: safety_failure_Some)
  with Some show ?thesis by (intro that(1)) (simp_all add: project_status_def)
next
  case None
  note s = None
  show ?thesis
  proof (cases "home = ''open_twice''")
    case True
    with s that(2) show ?thesis by (simp add: project_status_def)
  next
    case False
    note h = False
    show ?thesis
    proof (cases "if live then None else safety_failure (newest Runtime obs)")
      case (Some item)
      then have "\<not> live" and r: "safety_failure (newest Runtime obs) = Some item"
        by (simp_all split: if_splits)
      moreover from r have "newest Runtime obs = Some item"
        "o_status item = OpenTwice \<or> o_status item = Error"
        by (simp_all add: safety_failure_Some)
      ultimately show ?thesis using s h by (intro that(3)) (simp_all add: project_status_def)
    next
      case None
      then have r: "live \<or> safety_failure (newest Runtime obs) = None" by (simp split: if_splits)
      show ?thesis
      proof (cases "Option.bind (newest Lifecycle obs) (\<lambda>item. project_lifecycle item live)")
        case (Some p)
        with s h None have "project_status obs live home fb = p" by (simp add: project_status_def)
        with Some that(4) s h r show ?thesis by (auto simp: bind_eq_Some_conv)
      next
        case no_lifecycle: None
        with s h None r that(5) show ?thesis by (simp add: project_status_def)
      qed
    qed
  qed
qed

section \<open>Properties\<close>

text \<open>
  (C36) Safety comes first: when the safety observation that is strictly the newest of its kind
  reports OPEN TWICE or ERROR, it is what the board shows, with its unread mark, reason and
  time, whatever runtime and lifecycle observations, liveness, home state and stored fallback say.
\<close>

theorem project_status_safety_first:
  assumes "item \<in> set observations" and "o_kind item = Safety"
    and "o_status item = OpenTwice \<or> o_status item = Error"
    and "\<And>other. other \<in> set observations \<Longrightarrow> o_kind other = Safety \<Longrightarrow> other \<noteq> item \<Longrightarrow>
           f64_total_cmp (o_observed_at other) (o_observed_at item) = Less"
  shows "project_status observations live home_state fallback
         = from_observation item (o_status item) (o_unread item) ''safety_precedence''"
proof -
  have "newest Safety observations = Some item"
    using assms(1,2,4) by (rule newest_strict)
  with assms(3) have "safety_failure (newest Safety observations) = Some item"
    by (simp add: safety_failure_Some)
  then show ?thesis by (simp add: project_status_def)
qed

theorem project_status_safety_first_witness:
  "let item = \<lparr> o_kind = Safety, o_status = Error, o_unread = True, o_attention_reason = None,
                o_error = Some ''lost'', o_observed_at = 2, o_source = ''reconcile'' \<rparr>;
       old = item\<lparr>o_status := OpenTwice, o_observed_at := 1\<rparr>;
       hook = item\<lparr>o_kind := Lifecycle, o_status := Working, o_observed_at := 9\<rparr>
   in project_status [old, item, hook] True ''open_twice'' default_fallback
      = from_observation item Error True ''safety_precedence''"
proof -
  define item where "item = \<lparr> o_kind = Safety, o_status = Error, o_unread = True,
    o_attention_reason = None, o_error = Some ''lost'', o_observed_at = 2, o_source = ''reconcile'' \<rparr>"
  define old where "old = item\<lparr>o_status := OpenTwice, o_observed_at := 1\<rparr>"
  define hook where "hook = item\<lparr>o_kind := Lifecycle, o_status := Working, o_observed_at := 9\<rparr>"
  have "f64_total_cmp 1 2 = Less"
    by (simp add: f64_total_cmp_def f64_total_key_def f64_total_bits_eq compare_of_def bit_iff_odd)
  then have strict: "f64_total_cmp (o_observed_at other) (o_observed_at item) = Less"
    if "other \<in> set [old, item, hook]" "o_kind other = Safety" "other \<noteq> item" for other
    using that by (auto simp: old_def hook_def item_def)
  have "project_status [old, item, hook] True ''open_twice'' default_fallback
        = from_observation item (o_status item) (o_unread item) ''safety_precedence''"
    by (rule project_status_safety_first [OF _ _ _ strict]) (auto simp: item_def)
  then show ?thesis
    unfolding Let_def item_def [symmetric] old_def [symmetric] hook_def [symmetric]
    by (simp add: item_def)
qed

text \<open>
  OPEN TWICE is a statement about process identity only: it is shown exactly when the newest
  safety observation says so, or that observation is not an ERROR and either ownership is found
  doubled or, with no live process, the newest runtime observation says so. A lifecycle
  observation or the stored fallback never produces it.
\<close>

theorem project_status_open_twice_iff:
  "p_status (project_status obs live home fb) = OpenTwice \<longleftrightarrow>
     map_option o_status (newest Safety obs) = Some OpenTwice
     \<or> (map_option o_status (newest Safety obs) \<noteq> Some Error
        \<and> (home = ''open_twice''
           \<or> (live = False \<and> map_option o_status (newest Runtime obs) = Some OpenTwice)))"
proof (cases rule: project_status_cases [of obs live home fb])
  case (safety item)
  then show ?thesis by (auto simp: from_observation_def)
next
  case ownership
  then show ?thesis by (auto simp: synthetic_def safety_failure_None)
next
  case (runtime item)
  then show ?thesis by (auto simp: from_observation_def safety_failure_None)
next
  case (lifecycle item)
  then show ?thesis
    using project_lifecycle_status(2) [OF lifecycle(5)] by (auto simp: safety_failure_None)
next
  case fallback
  then show ?thesis
    using project_without_evidence_status(1) [of live home fb] by (auto simp: safety_failure_None)
qed

text \<open>
  The board never shows an agent as WORKING without a live process and a newest lifecycle
  observation that says it is working, and it never shows STARTING.
\<close>

theorem project_status_working_is_live:
  assumes "p_status (project_status obs live home fb) \<in> {Working, Starting}"
  shows "live \<and> p_status (project_status obs live home fb) = Working
         \<and> map_option o_status (newest Lifecycle obs) = Some Working"
proof (cases rule: project_status_cases [of obs live home fb])
  case (lifecycle item)
  then show ?thesis using assms project_lifecycle_status [OF lifecycle(5)] by auto
qed (use assms project_without_evidence_status(1) [of live home fb] in
     \<open>auto simp: from_observation_def synthetic_def\<close>)

theorem project_status_working_is_live_witness:
  "(let item = \<lparr> o_kind = Lifecycle, o_status = Working, o_unread = False, o_attention_reason = None,
                 o_error = None, o_observed_at = 0x3FF0000000000000, o_source = ''hook'' \<rparr>
    in p_status (project_status [item] True ''exact'' default_fallback) = Working
       \<and> map_option o_status (newest Lifecycle [item]) = Some Working)"
proof -
  let ?item = "\<lparr> o_kind = Lifecycle, o_status = Working, o_unread = False, o_attention_reason = None,
                 o_error = None, o_observed_at = 0x3FF0000000000000, o_source = ''hook'' \<rparr>"
  have "p_status (project_status [?item] True ''exact'' default_fallback) \<in> {Working, Starting}"
    by (simp add: project_status_def newest_def safety_failure_def max_by_def project_lifecycle_def
        from_observation_def)
  from project_status_working_is_live [OF this] show ?thesis by (simp add: Let_def)
qed

text \<open>
  Unread marks are never invented: a projection that is unread repeats the status of some
  stored observation that is unread, or of the unread stored fallback, or reports a doubled
  owner.
\<close>

theorem project_status_unread_evidence:
  assumes "p_unread (project_status obs live home fb)"
  shows "home = ''open_twice''
         \<or> (\<exists>item\<in>set obs. o_unread item \<and> p_status (project_status obs live home fb) = o_status item)
         \<or> (fb_unread fb \<and> p_status (project_status obs live home fb) = fb_status fb)"
proof (cases rule: project_status_cases [of obs live home fb])
  case (safety item)
  with assms newest_Some(1) [OF safety(1)] show ?thesis by (auto simp: from_observation_def)
next
  case ownership
  then show ?thesis by simp
next
  case (runtime item)
  with assms newest_Some(1) [OF runtime(4)] show ?thesis by (auto simp: from_observation_def)
next
  case (lifecycle item)
  with assms newest_Some(1) [OF lifecycle(4)] project_lifecycle_status(4) [OF lifecycle(5)]
  show ?thesis by auto
next
  case fallback
  with assms project_without_evidence_status(2) [of live home fb] show ?thesis by auto
qed

theorem project_status_unread_evidence_witness:
  "p_unread (project_status [] False ''open_twice'' default_fallback)
   \<and> (''open_twice'' = ''open_twice''
      \<or> p_status (project_status [] False ''open_twice'' default_fallback) = Parked)"
proof -
  have "p_unread (project_status [] False ''open_twice'' default_fallback)"
    by (simp add: project_status_def newest_def safety_failure_def max_by_def synthetic_def)
  from this project_status_unread_evidence [OF this] show ?thesis by auto
qed

end
