(* ===== verification/Attention.thy ===== *)
theory Attention
  imports Model "HOL-Library.List_Lexorder" "HOL-Library.Char_ord"
begin

text \<open>
  The attention queue (src/attention.rs) and the conditions of \<open>pika wait\<close> (src/wait.rs).
  \<open>str::to_lowercase\<close> is the argument \<open>lower\<close> of the definitions that use it.
\<close>

datatype attention_target = Local session | Remote fleet_session

fun attention_key :: "(string \<Rightarrow> string) \<Rightarrow> attention_target \<Rightarrow> nat \<times> f64 \<times> string" where
  "attention_key lower (Local s) =
     (attention_order (s_status s), s_last_activity_at s, lower (display_name s))"
| "attention_key lower (Remote r) =
     (attention_order (s_status (f_session r)), s_last_activity_at (f_session r),
      lower (qualified_name r))"

definition attention_cmp ::
  "(string \<Rightarrow> string) \<Rightarrow> attention_target \<Rightarrow> attention_target \<Rightarrow> ordering" where
  "attention_cmp lower left right =
     then_with
       (then_with
         (compare_of (fst (attention_key lower left)) (fst (attention_key lower right)))
         (f64_total_cmp (fst (snd (attention_key lower left))) (fst (snd (attention_key lower right)))))
       (compare_of (snd (snd (attention_key lower left))) (snd (snd (attention_key lower right))))"

definition attention_candidates :: "session list \<Rightarrow> fleet_session list \<Rightarrow> attention_target list" where
  "attention_candidates locals remotes =
     map Local (filter needs_attention locals) @ map Remote (filter fleet_needs_attention remotes)"

definition choose_attention ::
  "(string \<Rightarrow> string) \<Rightarrow> session list \<Rightarrow> fleet_session list \<Rightarrow> attention_target option" where
  "choose_attention lower locals remotes =
     (case sort_by (attention_cmp lower) (attention_candidates locals remotes) of
        [] \<Rightarrow> None
      | target # _ \<Rightarrow> Some target)"

definition timeout_exit_code :: int where "timeout_exit_code = 124"

definition wait_matches :: "session \<Rightarrow> string \<Rightarrow> bool" where
  "wait_matches s condition =
     (if condition = ''needs-you'' then s_status s = NeedsYou
      else if condition = ''ready'' then s_status s = Ready \<and> s_unread s
      else if condition = ''error'' then s_unread s \<and> (s_status s = Error \<or> s_status s = OpenTwice)
      else if condition = ''any'' then needs_attention s \<or> (s_status s = Ready \<and> s_unread s)
      else False)"

section \<open>The order of the queue\<close>

lemma attention_cmp_three_way: "three_way (attention_cmp lower)"
  unfolding attention_cmp_def
  apply (rule three_way_then_with)
   apply (rule three_way_then_with)
    apply (rule three_way_by_key [OF compare_of.three_way_axioms, where key = "\<lambda>t. fst (attention_key lower t)"])
   apply (rule three_way_by_key [OF f64_order.three_way_axioms, where key = "\<lambda>t. fst (snd (attention_key lower t))"])
  apply (rule three_way_by_key [OF compare_of.three_way_axioms, where key = "\<lambda>t. snd (snd (attention_key lower t))"])
  done

interpretation queue_order: three_way "attention_cmp lower" for lower
  by (rule attention_cmp_three_way)

lemma choose_attention_Some:
  assumes "choose_attention lower locals remotes = Some t"
  shows "t \<in> set (attention_candidates locals remotes)"
    and "\<And>u. u \<in> set (attention_candidates locals remotes) \<Longrightarrow> attention_cmp lower t u \<noteq> Greater"
proof -
  let ?c = "attention_candidates locals remotes"
  from assms obtain ts where sorted: "sort_by (attention_cmp lower) ?c = t # ts"
    by (auto simp: choose_attention_def split: list.splits)
  then have "insert t (set ts) = set ?c" using set_sort_by [of "attention_cmp lower" ?c] by simp
  then show "t \<in> set ?c" by blast
  show "attention_cmp lower t u \<noteq> Greater" if "u \<in> set ?c" for u
    using sorted that by (rule queue_order.sort_by_hd_least)
qed

lemma choose_attention_None: "choose_attention lower locals remotes = None \<longleftrightarrow> attention_candidates locals remotes = []"
  by (auto simp: choose_attention_def split: list.splits)

lemma attention_cmp_order:
  "attention_cmp lower t u \<noteq> Greater \<Longrightarrow> fst (attention_key lower t) \<le> fst (attention_key lower u)"
  by (auto simp: attention_cmp_def then_with_def compare_of_def split: if_splits)

lemma attention_cmp_age:
  assumes "attention_cmp lower t u \<noteq> Greater"
    and "fst (attention_key lower t) = fst (attention_key lower u)"
  shows "f64_total_cmp (fst (snd (attention_key lower t))) (fst (snd (attention_key lower u))) \<noteq> Greater"
  using assms
  by (auto simp: attention_cmp_def then_with_def compare_of_def f64_order.cmp_refl split: if_splits)

fun target_session :: "attention_target \<Rightarrow> session" where
  "target_session (Local s) = s"
| "target_session (Remote r) = f_session r"

lemma attention_key_target:
  "fst (attention_key lower t) = attention_order (s_status (target_session t))"
  "fst (snd (attention_key lower t)) = s_last_activity_at (target_session t)"
  by (cases t; simp)+

lemma attention_candidates_iff:
  "t \<in> set (attention_candidates locals remotes) \<longleftrightarrow>
     (\<exists>s\<in>set locals. t = Local s \<and> needs_attention s)
     \<or> (\<exists>r\<in>set remotes. t = Remote r \<and> \<not> f_stale r \<and> needs_attention (f_session r))"
  by (auto simp: attention_candidates_def fleet_needs_attention_def)

section \<open>Properties\<close>

text \<open>
  The queue answers with an entry that really needs the user, never a stale remote row, and
  no other entry that needs the user comes before it: every one has a status of the same or a
  later attention class, and within the same class was not active earlier.
\<close>

theorem choose_attention_oldest_first:
  assumes "choose_attention lower locals remotes = Some t"
    and "u \<in> Local ` {s \<in> set locals. needs_attention s}
             \<union> Remote ` {r \<in> set remotes. \<not> f_stale r \<and> needs_attention (f_session r)}"
  shows "t \<in> Local ` {s \<in> set locals. needs_attention s}
             \<union> Remote ` {r \<in> set remotes. \<not> f_stale r \<and> needs_attention (f_session r)}
         \<and> attention_order (s_status (target_session t)) \<le> attention_order (s_status (target_session u))
         \<and> (s_status (target_session t) = s_status (target_session u) \<longrightarrow>
            f64_total_key (s_last_activity_at (target_session t))
            \<le> f64_total_key (s_last_activity_at (target_session u)))"
proof (intro conjI impI)
  note chosen = choose_attention_Some [OF assms(1)]
  have u: "u \<in> set (attention_candidates locals remotes)"
    using assms(2) unfolding attention_candidates_iff by auto
  note le = chosen(2) [OF u]
  show "t \<in> Local ` {s \<in> set locals. needs_attention s}
             \<union> Remote ` {r \<in> set remotes. \<not> f_stale r \<and> needs_attention (f_session r)}"
    using chosen(1) unfolding attention_candidates_iff by auto
  show "attention_order (s_status (target_session t)) \<le> attention_order (s_status (target_session u))"
    using attention_cmp_order [OF le] by (simp add: attention_key_target)
  show "f64_total_key (s_last_activity_at (target_session t))
         \<le> f64_total_key (s_last_activity_at (target_session u))"
    if "s_status (target_session t) = s_status (target_session u)"
    using attention_cmp_age [OF le] that by (simp add: attention_key_target f64_total_cmp_Greater)
qed

text \<open>A stale remote row loses to a fresh one although it was active earlier.\<close>

theorem choose_attention_oldest_first_witness:
  "let s = bare_session Codex ''a'' NeedsYou True;
       fresh = bare_fleet ''n1'' (s\<lparr>s_last_activity_at := 2\<rparr>) False;
       stale = bare_fleet ''n2'' (s\<lparr>s_last_activity_at := 1\<rparr>) True;
       waiting = s\<lparr>s_last_activity_at := 3\<rparr>
   in choose_attention id [waiting] [stale, fresh] = Some (Remote fresh)
      \<and> attention_order (s_status (f_session fresh)) \<le> attention_order (s_status waiting)
      \<and> f64_total_key (s_last_activity_at (f_session fresh)) \<le> f64_total_key (s_last_activity_at waiting)"
proof -
  define s where "s = bare_session Codex ''a'' NeedsYou True"
  define fresh where "fresh = bare_fleet ''n1'' (s\<lparr>s_last_activity_at := 2\<rparr>) False"
  define stale where "stale = bare_fleet ''n2'' (s\<lparr>s_last_activity_at := 1\<rparr>) True"
  define waiting where "waiting = s\<lparr>s_last_activity_at := 3\<rparr>"
  note defs = s_def fresh_def stale_def waiting_def bare_session_def bare_fleet_def
  have "f64_total_cmp 3 2 = Greater"
    by (simp add: f64_total_cmp_def f64_total_key_def f64_total_bits_eq compare_of_def bit_iff_odd)
  then have chosen: "choose_attention id [waiting] [stale, fresh] = Some (Remote fresh)"
    by (simp add: choose_attention_def attention_candidates_def fleet_needs_attention_def
        needs_attention_def attention_cmp_def then_with_def compare_of_def defs)
  have "Local waiting \<in> Local ` {s \<in> set [waiting]. needs_attention s}
          \<union> Remote ` {r \<in> set [stale, fresh]. \<not> f_stale r \<and> needs_attention (f_session r)}"
    by (simp add: needs_attention_def defs)
  from choose_attention_oldest_first [OF chosen this] chosen show ?thesis
    unfolding Let_def s_def [symmetric] fresh_def [symmetric] stale_def [symmetric]
      waiting_def [symmetric]
    by (simp add: defs)
qed

text \<open>
  The queue is empty exactly when nothing local needs the user and every remote row that
  would is stale.
\<close>

theorem choose_attention_empty:
  "choose_attention lower locals remotes = None \<longleftrightarrow>
     {s \<in> set locals. needs_attention s} = {}
     \<and> {r \<in> set remotes. needs_attention (f_session r)} \<subseteq> {r. f_stale r}"
  by (auto simp: choose_attention_None attention_candidates_def filter_empty_conv
      fleet_needs_attention_def)

text \<open>
  \<open>pika wait any\<close> returns for exactly the sessions one of the three specific conditions
  returns for, and an unknown condition never matches.
\<close>

theorem wait_any_is_union:
  "wait_matches s ''any'' \<longleftrightarrow>
     wait_matches s ''needs-you'' \<or> wait_matches s ''ready'' \<or> wait_matches s ''error''"
  by (auto simp: wait_matches_def needs_attention_def)

end
