(* ===== verification/Resolve.thy ===== *)
theory Resolve
  imports Model
begin

text \<open>
  Resolution of a daily name or an exact provider identity to saved conversations
  (src/resolve.rs). Conversations are the positions of a list of candidates, as in the code;
  \<open>str::to_lowercase\<close> is the argument \<open>lower\<close>. The \<open>expect\<close> in the code is the branch \<open>Panic\<close>,
  which is proved unreachable.
\<close>

section \<open>Data\<close>

datatype evidence_state = Available | Archived | Missing | Unknown

record selection_evidence =
  e_state :: evidence_state
  e_canonical_cwd :: "string option"
  e_provider_updated_at :: "f64 option"

record name_candidate =
  n_provider :: provider
  n_session_id :: string
  n_active_thread_id :: "string option"
  n_name :: "string option"
  n_live :: bool
  n_exact_home :: bool
  n_status :: status
  n_local :: bool
  n_evidence :: selection_evidence

datatype name_resolution_error = NotFound | SavedUnavailable | Panic

definition n_thread_id :: "name_candidate \<Rightarrow> string" where
  "n_thread_id c = (case n_active_thread_id c of Some t \<Rightarrow> t | None \<Rightarrow> n_session_id c)"

section \<open>Reduction of the matches\<close>

text \<open>
  One round of the loop over the matches: the state is the deduplicated list and the map from a
  native identity to its position in that list.
\<close>

type_synonym dedup_state = "nat list \<times> (provider \<times> string \<Rightarrow> nat option)"

definition dedup_replace :: "name_candidate \<Rightarrow> name_candidate \<Rightarrow> bool" where
  "dedup_replace item previous \<longleftrightarrow>
     (n_exact_home item \<and> \<not> n_exact_home previous)
     \<or> (n_exact_home item = n_exact_home previous
        \<and> n_active_thread_id item \<noteq> None \<and> n_active_thread_id previous = None)"

definition dedup_step :: "name_candidate list \<Rightarrow> nat \<Rightarrow> dedup_state \<Rightarrow> dedup_state" where
  "dedup_step choices index st =
     (let (deduped, native) = st; item = choices ! index in
      if \<not> n_local item then (deduped @ [index], native)
      else
        let key = (n_provider item, n_thread_id item) in
        case native key of
          Some position \<Rightarrow>
            if dedup_replace item (choices ! (deduped ! position))
            then (deduped[position := index], native)
            else (deduped, native)
        | None \<Rightarrow> (deduped @ [index], native(key \<mapsto> length deduped)))"

definition dedup :: "name_candidate list \<Rightarrow> nat list \<Rightarrow> nat list" where
  "dedup choices matched = fst (fold (dedup_step choices) matched ([], \<lambda>_. None))"

definition selectable :: "name_candidate \<Rightarrow> bool" where
  "selectable item \<longleftrightarrow>
     e_state (n_evidence item) \<noteq> Archived \<and> (e_state (n_evidence item) \<noteq> Missing \<or> n_live item)"

definition folded_name :: "(string \<Rightarrow> string) \<Rightarrow> name_candidate \<Rightarrow> string" where
  "folded_name lower c = lower (case n_name c of Some n \<Rightarrow> n | None \<Rightarrow> [])"

definition positive_time :: "f64 option \<Rightarrow> bool" where
  "positive_time t = (case t of None \<Rightarrow> False | Some v \<Rightarrow> f64_lt f64_zero v)"

text \<open>The last part of the reduction: all kept choices are one provider, name and directory.\<close>

definition pick_newest ::
  "name_candidate list \<Rightarrow> nat list \<Rightarrow> name_resolution_error + nat list" where
  "pick_newest choices kept =
     (if \<exists>index\<in>set kept. e_state (n_evidence (choices ! index)) \<noteq> Available
         \<or> \<not> positive_time (e_provider_updated_at (n_evidence (choices ! index)))
      then Inr kept
      else
        case max_by f64_total_cmp
               (List.map_filter (\<lambda>index. e_provider_updated_at (n_evidence (choices ! index))) kept) of
          None \<Rightarrow> Inl Panic
        | Some newest \<Rightarrow>
            let winners = filter (\<lambda>index.
                  case e_provider_updated_at (n_evidence (choices ! index)) of
                    None \<Rightarrow> False
                  | Some t \<Rightarrow> f64_eq t newest) kept
            in if length winners = 1 then Inr winners else Inr kept)"

definition reduce_equivalent ::
  "name_candidate list \<Rightarrow> nat list \<Rightarrow> name_resolution_error + nat list" where
  "reduce_equivalent choices kept =
     (let live = filter (\<lambda>index. n_live (choices ! index) \<or> n_exact_home (choices ! index)
                                 \<or> n_status (choices ! index) = OpenTwice) kept
      in if length live > 1 \<or> (\<exists>index\<in>set live. n_status (choices ! index) = OpenTwice)
         then Inr kept
         else if length live = 1
         then (if n_exact_home (choices ! (live ! 0)) then Inr live else Inr kept)
         else pick_newest choices kept)"

definition reduce_name_choices ::
  "(string \<Rightarrow> string) \<Rightarrow> name_candidate list \<Rightarrow> nat list \<Rightarrow> bool
   \<Rightarrow> name_resolution_error + nat list" where
  "reduce_name_choices lower choices matched exact_query =
     (let deduped = dedup choices matched in
      if exact_query then Inr deduped
      else
        let kept = filter (\<lambda>index. selectable (choices ! index)) deduped in
        if kept = [] \<and> deduped \<noteq> [] then Inl SavedUnavailable
        else if length kept < 2 \<or> (\<exists>index\<in>set kept. \<not> n_local (choices ! index)) then Inr kept
        else
          let first = choices ! (kept ! 0) in
          if \<exists>index\<in>set kept. n_provider (choices ! index) \<noteq> n_provider first
               \<or> folded_name lower (choices ! index) \<noteq> folded_name lower first
          then Inr kept
          else
            case e_canonical_cwd (n_evidence first) of
              None \<Rightarrow> Inr kept
            | Some first_cwd \<Rightarrow>
                if \<exists>index\<in>set kept.
                     e_canonical_cwd (n_evidence (choices ! index)) \<noteq> Some first_cwd
                then Inr kept
                else reduce_equivalent choices kept)"

section \<open>Matching\<close>

definition positions :: "(name_candidate \<Rightarrow> bool) \<Rightarrow> name_candidate list \<Rightarrow> nat list" where
  "positions p choices = filter (\<lambda>index. p (choices ! index)) [0..<length choices]"

definition exact_match :: "string \<Rightarrow> name_candidate \<Rightarrow> bool" where
  "exact_match query c \<longleftrightarrow> n_session_id c = query \<or> n_thread_id c = query"

definition name_match :: "(string \<Rightarrow> string) \<Rightarrow> string \<Rightarrow> name_candidate \<Rightarrow> bool" where
  "name_match lower query c =
     (case n_name c of None \<Rightarrow> False | Some n \<Rightarrow> lower n = lower query)"

definition prefix_match :: "string \<Rightarrow> name_candidate \<Rightarrow> bool" where
  "prefix_match query c \<longleftrightarrow> prefix query (n_session_id c) \<or> prefix query (n_thread_id c)"

definition resolve_name ::
  "(string \<Rightarrow> string) \<Rightarrow> string \<Rightarrow> name_candidate list \<Rightarrow> name_resolution_error + nat list" where
  "resolve_name lower query choices =
     (let exact = positions (exact_match query) choices in
      if exact \<noteq> [] then reduce_name_choices lower choices exact True
      else
        let named = positions (name_match lower query) choices in
        if named \<noteq> [] then reduce_name_choices lower choices named False
        else
          let prefixes = positions (prefix_match query) choices in
          if length prefixes = 1 then Inr prefixes else Inl NotFound)"

section \<open>The loop over the matches\<close>

abbreviation native_key :: "name_candidate list \<Rightarrow> nat \<Rightarrow> provider \<times> string" where
  "native_key choices index \<equiv> (n_provider (choices ! index), n_thread_id (choices ! index))"

text \<open>
  The state after the matches \<open>seen\<close>: what is kept was matched, the map and the list agree on
  the local entries, no local identity is lost, no remote entry is lost, and an entry with an
  exact home is never displaced by one without.
\<close>

definition dedup_inv :: "name_candidate list \<Rightarrow> nat list \<Rightarrow> dedup_state \<Rightarrow> bool" where
  "dedup_inv choices seen st \<longleftrightarrow>
     set (fst st) \<subseteq> set seen
     \<and> (\<forall>key p. snd st key = Some p \<longrightarrow>
           p < length (fst st) \<and> n_local (choices ! (fst st ! p)) \<and> native_key choices (fst st ! p) = key)
     \<and> (\<forall>p < length (fst st). n_local (choices ! (fst st ! p)) \<longrightarrow>
           snd st (native_key choices (fst st ! p)) = Some p)
     \<and> (\<forall>i\<in>set seen. if n_local (choices ! i)
           then (\<exists>p. snd st (native_key choices i) = Some p
                     \<and> (n_exact_home (choices ! i) \<longrightarrow> n_exact_home (choices ! (fst st ! p))))
           else i \<in> set (fst st))"

lemma dedup_inv_Nil: "dedup_inv choices [] ([], \<lambda>_. None)"
  by (simp add: dedup_inv_def)

lemma dedup_inv_remote:
  assumes "dedup_inv choices seen (d, m)" and "\<not> n_local (choices ! i)"
  shows "dedup_inv choices (seen @ [i]) (d @ [i], m)"
  using assms by (fastforce simp: dedup_inv_def nth_append split: if_splits)

lemma dedup_inv_fresh:
  assumes "dedup_inv choices seen (d, m)" and "n_local (choices ! i)"
    and "m (native_key choices i) = None"
  shows "dedup_inv choices (seen @ [i]) (d @ [i], m(native_key choices i \<mapsto> length d))"
  using assms by (fastforce simp: dedup_inv_def nth_append less_Suc_eq split: if_splits)

lemma dedup_inv_keep:
  assumes "dedup_inv choices seen (d, m)" and "n_local (choices ! i)"
    and "m (native_key choices i) = Some p" and "\<not> dedup_replace (choices ! i) (choices ! (d ! p))"
  shows "dedup_inv choices (seen @ [i]) (d, m)"
  using assms by (fastforce simp: dedup_inv_def dedup_replace_def split: if_splits)

lemma dedup_inv_replace:
  assumes inv: "dedup_inv choices seen (d, m)" and "n_local (choices ! i)"
    and p: "m (native_key choices i) = Some p" and "dedup_replace (choices ! i) (choices ! (d ! p))"
  shows "dedup_inv choices (seen @ [i]) (d[p := i], m)"
proof -
  have mapped: "q < length d \<and> n_local (choices ! (d ! q)) \<and> native_key choices (d ! q) = key"
    if "m key = Some q" for key q
    using inv that unfolding dedup_inv_def by (metis fst_conv snd_conv)
  have indexed: "q < length d \<Longrightarrow> n_local (choices ! (d ! q)) \<Longrightarrow> m (native_key choices (d ! q)) = Some q" for q
    using inv unfolding dedup_inv_def by simp
  have old: "p < length d" "n_local (choices ! (d ! p))" "native_key choices (d ! p) = native_key choices i"
    using mapped [OF p] by simp_all
  have remote: "j \<in> set (d[p := i])" if "j \<in> set seen" "\<not> n_local (choices ! j)" for j
  proof -
    from inv that have "j \<in> set d" unfolding dedup_inv_def by fastforce
    then obtain q where "q < length d" "d ! q = j" by (auto simp: in_set_conv_nth)
    moreover from this that(2) old(2) have "q \<noteq> p" by auto
    ultimately show ?thesis by (metis length_list_update nth_list_update_neq nth_mem)
  qed
  have rep: "\<exists>q. m (native_key choices j) = Some q
               \<and> (n_exact_home (choices ! j) \<longrightarrow> n_exact_home (choices ! (d[p := i] ! q)))"
    if "j \<in> set seen" "n_local (choices ! j)" for j
  proof -
    from inv that obtain q where q: "m (native_key choices j) = Some q"
      "n_exact_home (choices ! j) \<longrightarrow> n_exact_home (choices ! (d ! q))"
      unfolding dedup_inv_def by fastforce
    have "n_exact_home (choices ! (d ! p)) \<longrightarrow> n_exact_home (choices ! i)"
      using assms(4) by (auto simp: dedup_replace_def)
    with q old(1) show ?thesis by (cases "q = p") auto
  qed
  have sub: "set (d[p := i]) \<subseteq> set (seen @ [i])"
    using inv set_update_subset_insert [of d p i] unfolding dedup_inv_def by auto
  have fwd: "q < length (d[p := i]) \<and> n_local (choices ! (d[p := i] ! q))
      \<and> native_key choices (d[p := i] ! q) = key" if q: "m key = Some q" for key q
  proof (cases "q = p")
    case True
    then have "key = native_key choices i" using mapped [OF q] old by simp
    with True old(1) assms(2) show ?thesis by simp
  next
    case False
    with mapped [OF q] show ?thesis by simp
  qed
  have bwd: "m (native_key choices (d[p := i] ! q)) = Some q"
    if "q < length (d[p := i])" "n_local (choices ! (d[p := i] ! q))" for q
    using that p indexed [of q] by (cases "q = p") simp_all
  have self: "\<exists>q. m (native_key choices i) = Some q
               \<and> (n_exact_home (choices ! i) \<longrightarrow> n_exact_home (choices ! (d[p := i] ! q)))"
    using p old(1) by simp
  have all: "if n_local (choices ! j)
      then (\<exists>q. m (native_key choices j) = Some q
               \<and> (n_exact_home (choices ! j) \<longrightarrow> n_exact_home (choices ! (d[p := i] ! q))))
      else j \<in> set (d[p := i])" if "j \<in> set (seen @ [i])" for j
  proof (cases "j = i")
    case True
    with self assms(2) show ?thesis by simp
  next
    case False
    with that have "j \<in> set seen" by simp
    with rep [of j] remote [of j] show ?thesis by simp
  qed
  show ?thesis
    unfolding dedup_inv_def fst_conv snd_conv
    using sub fwd bwd all by blast
qed

lemma dedup_inv_step:
  assumes "dedup_inv choices seen st"
  shows "dedup_inv choices (seen @ [i]) (dedup_step choices i st)"
proof (cases st)
  case (Pair d m)
  then show ?thesis
    using assms dedup_inv_remote [of choices seen d m i] dedup_inv_fresh [of choices seen d m i]
      dedup_inv_keep [of choices seen d m i] dedup_inv_replace [of choices seen d m i]
    by (auto simp: dedup_step_def Let_def split: option.splits)
qed

lemma dedup_inv_fold:
  "dedup_inv choices seen st \<Longrightarrow> dedup_inv choices (seen @ xs) (fold (dedup_step choices) xs st)"
proof (induction xs arbitrary: seen st)
  case Nil
  then show ?case by simp
next
  case (Cons x xs)
  from Cons.IH [OF dedup_inv_step [OF Cons.prems]] show ?case by simp
qed

lemma dedup_inv_dedup:
  obtains m where "dedup_inv choices matched (dedup choices matched, m)"
  using dedup_inv_fold [OF dedup_inv_Nil, of choices matched] unfolding dedup_def
  by (metis append_Nil prod.collapse)

lemma dedup_subset: "set (dedup choices matched) \<subseteq> set matched"
  by (rule dedup_inv_dedup [of choices matched]) (simp add: dedup_inv_def)

lemma dedup_Nil_iff: "dedup choices matched = [] \<longleftrightarrow> matched = []"
proof
  assume empty: "dedup choices matched = []"
  obtain m where inv: "dedup_inv choices matched ([], m)"
    using dedup_inv_dedup [of choices matched] empty by metis
  have none: "m key = None" for key
    using inv unfolding dedup_inv_def by (cases key; cases "m key") auto
  have "i \<notin> set matched" for i
    using inv unfolding dedup_inv_def by (auto simp: none split: if_splits)
  then show "matched = []" by (cases matched) auto
qed (simp add: dedup_def)

section \<open>The reduction\<close>

lemma positions_iff: "i \<in> set (positions p choices) \<longleftrightarrow> i < length choices \<and> p (choices ! i)"
  by (auto simp: positions_def)

lemma f64_eq_positive: "f64_lt f64_zero b \<Longrightarrow> f64_eq a b \<Longrightarrow> a = b"
  by (auto simp: f64_eq_def f64_lt_def f64_zero_def f64_is_zero_def f64_magnitude_def)

definition settles :: "name_candidate list \<Rightarrow> nat \<Rightarrow> nat \<Rightarrow> bool" where
  "settles choices i j \<longleftrightarrow>
     i = j
     \<or> (n_exact_home (choices ! i) \<and> \<not> n_exact_home (choices ! j) \<and> \<not> n_live (choices ! j)
        \<and> n_status (choices ! j) \<noteq> OpenTwice)
     \<or> (\<exists>t u. e_provider_updated_at (n_evidence (choices ! i)) = Some t
            \<and> e_provider_updated_at (n_evidence (choices ! j)) = Some u
            \<and> f64_total_cmp u t = Less)"

lemma filter_single: "length (filter p xs) = 1 \<Longrightarrow> \<exists>x. filter p xs = [x] \<and> x \<in> set xs \<and> p x"
proof -
  assume "length (filter p xs) = 1"
  then obtain x where x: "filter p xs = [x]" by (auto simp: length_Suc_conv)
  then have "x \<in> set (filter p xs)" by (simp only: list.set_intros)
  with x show ?thesis by (metis mem_Collect_eq set_filter)
qed

lemma map_filter_iff: "y \<in> set (List.map_filter f xs) \<longleftrightarrow> (\<exists>x\<in>set xs. f x = Some y)"
  by (induction xs) (auto simp: List.map_filter_simps split: option.splits)

lemma pick_newest_result:
  assumes "kept \<noteq> []"
  shows "pick_newest choices kept = Inr kept
         \<or> (\<exists>i\<in>set kept. pick_newest choices kept = Inr [i] \<and> (\<forall>j\<in>set kept. settles choices i j))"
proof (cases "\<exists>index\<in>set kept. e_state (n_evidence (choices ! index)) \<noteq> Available
         \<or> \<not> positive_time (e_provider_updated_at (n_evidence (choices ! index)))")
  case True
  then show ?thesis by (simp add: pick_newest_def)
next
  case False
  let ?time = "\<lambda>index. e_provider_updated_at (n_evidence (choices ! index))"
  let ?times = "List.map_filter ?time kept"
  from False have pos: "\<exists>t. ?time j = Some t \<and> f64_lt f64_zero t" if "j \<in> set kept" for j
    using that by (auto simp: positive_time_def split: option.splits)
  have "?times \<noteq> []"
    using assms pos [of "hd kept"] map_filter_iff [of _ ?time kept] by fastforce
  then obtain newest where newest: "max_by f64_total_cmp ?times = Some newest"
    by (metis max_by_None not_Some_eq)
  let ?win = "filter (\<lambda>index. case ?time index of None \<Rightarrow> False | Some t \<Rightarrow> f64_eq t newest) kept"
  have result: "pick_newest choices kept = (if length ?win = 1 then Inr ?win else Inr kept)"
    using False newest by (simp add: pick_newest_def)
  show ?thesis
  proof (cases "length ?win = 1")
    case False
    with result show ?thesis by simp
  next
    case True
    then obtain i where i: "?win = [i]" "i \<in> set kept" and ti: "case ?time i of None \<Rightarrow> False | Some t \<Rightarrow> f64_eq t newest"
      using filter_single [OF True] by blast
    from max_by_Some_in [OF newest] obtain k where k: "k \<in> set kept" "?time k = Some newest"
      by (auto simp: map_filter_iff)
    with pos have new_pos: "f64_lt f64_zero newest" by fastforce
    have "?time i = Some newest"
      using ti f64_eq_positive [OF new_pos] by (auto split: option.splits)
    moreover have "settles choices i j" if j: "j \<in> set kept" for j
    proof (cases "j = i")
      case True
      then show ?thesis by (simp add: settles_def)
    next
      case False
      from pos j obtain u where u: "?time j = Some u" by blast
      from False i(1) j have "j \<notin> set ?win" by (metis list.set(1) list.set(2) singletonD)
      with j u have "\<not> f64_eq u newest" by simp
      moreover have "\<not> f64_is_nan newest" using new_pos by (simp add: f64_lt_def)
      ultimately have "u \<noteq> newest" by (auto simp: f64_eq_def)
      moreover have "f64_total_cmp u newest \<noteq> Greater"
        by (rule f64_order.max_by_greatest [OF newest]) (use j u in \<open>auto simp: map_filter_iff\<close>)
      ultimately have "f64_total_cmp u newest = Less"
        by (cases "f64_total_cmp u newest") auto
      with u \<open>?time i = Some newest\<close> show ?thesis by (simp add: settles_def)
    qed
    ultimately show ?thesis using result True i by auto
  qed
qed

lemma reduce_equivalent_result:
  assumes "kept \<noteq> []"
  shows "reduce_equivalent choices kept = Inr kept
         \<or> (\<exists>i\<in>set kept. reduce_equivalent choices kept = Inr [i] \<and> (\<forall>j\<in>set kept. settles choices i j))"
proof -
  let ?live = "filter (\<lambda>index. n_live (choices ! index) \<or> n_exact_home (choices ! index)
                                 \<or> n_status (choices ! index) = OpenTwice) kept"
  show ?thesis
  proof (cases "length ?live = 1 \<and> n_exact_home (choices ! (?live ! 0))
                \<and> \<not> (\<exists>index\<in>set ?live. n_status (choices ! index) = OpenTwice)")
    case True
    then obtain i where i: "?live = [i]" "i \<in> set kept" using filter_single by blast
    have "settles choices i j" if "j \<in> set kept" for j
    proof (cases "j = i")
      case False
      then have "j \<notin> set ?live" using i(1) by (metis list.set(1) list.set(2) singletonD)
      with that have "\<not> n_live (choices ! j)" "\<not> n_exact_home (choices ! j)"
        "n_status (choices ! j) \<noteq> OpenTwice"
        by (simp_all only: set_filter mem_Collect_eq) blast+
      with True i(1) show ?thesis by (simp add: settles_def)
    qed (simp add: settles_def)
    with True i show ?thesis by (auto simp: reduce_equivalent_def Let_def)
  next
    case False
    then show ?thesis
      using pick_newest_result [OF assms, of choices]
      by (auto simp: reduce_equivalent_def Let_def)
  qed
qed

definition equivalent_choices :: "(string \<Rightarrow> string) \<Rightarrow> name_candidate \<Rightarrow> name_candidate \<Rightarrow> bool" where
  "equivalent_choices lower a b \<longleftrightarrow>
     n_local a \<and> n_local b \<and> n_provider a = n_provider b
     \<and> folded_name lower a = folded_name lower b
     \<and> e_canonical_cwd (n_evidence a) \<noteq> None
     \<and> e_canonical_cwd (n_evidence a) = e_canonical_cwd (n_evidence b)"

abbreviation kept_choices :: "name_candidate list \<Rightarrow> nat list \<Rightarrow> nat list" where
  "kept_choices choices matched \<equiv> filter (\<lambda>index. selectable (choices ! index)) (dedup choices matched)"

lemma reduce_by_name:
  assumes "matched \<noteq> []"
  shows "(kept_choices choices matched = []
            \<and> reduce_name_choices lower choices matched False = Inl SavedUnavailable)
         \<or> (kept_choices choices matched \<noteq> []
            \<and> reduce_name_choices lower choices matched False = Inr (kept_choices choices matched))
         \<or> (\<exists>i\<in>set (kept_choices choices matched).
              reduce_name_choices lower choices matched False = Inr [i]
              \<and> (\<forall>j\<in>set (kept_choices choices matched).
                   equivalent_choices lower (choices ! i) (choices ! j) \<and> settles choices i j))"
proof -
  let ?kept = "kept_choices choices matched"
  let ?first = "choices ! (?kept ! 0)"
  have deduped: "dedup choices matched \<noteq> []" using assms by (simp add: dedup_Nil_iff)
  show ?thesis
  proof (cases "?kept = []")
    case True
    with deduped show ?thesis by (simp add: reduce_name_choices_def)
  next
    case nonempty: False
    show ?thesis
    proof (cases "reduce_name_choices lower choices matched False = Inr ?kept")
      case True
      with nonempty show ?thesis by blast
    next
      case False
      with nonempty have remote: "\<forall>i\<in>set ?kept. n_local (choices ! i)"
        and same: "\<forall>i\<in>set ?kept. n_provider (choices ! i) = n_provider ?first
                     \<and> folded_name lower (choices ! i) = folded_name lower ?first"
        by (auto simp: reduce_name_choices_def Let_def split: if_splits)
      with False nonempty obtain cwd where cwd: "e_canonical_cwd (n_evidence ?first) = Some cwd"
        by (fastforce simp: reduce_name_choices_def Let_def split: if_splits option.splits)
      with False nonempty remote same
      have cwds: "\<forall>i\<in>set ?kept. e_canonical_cwd (n_evidence (choices ! i)) = Some cwd"
        and eq: "reduce_name_choices lower choices matched False = reduce_equivalent choices ?kept"
        by (fastforce simp: reduce_name_choices_def Let_def split: if_splits option.splits)+
      have "equivalent_choices lower (choices ! i) (choices ! j)"
        if "i \<in> set ?kept" "j \<in> set ?kept" for i j
        using that remote same cwds by (simp add: equivalent_choices_def)
      with reduce_equivalent_result [OF nonempty, of choices] eq nonempty show ?thesis by auto
    qed
  qed
qed

section \<open>Properties\<close>

text \<open>
  A resolution that succeeds names at least one conversation, and every conversation it
  names matches the query: an exact identity if any candidate has that identity, otherwise the
  name regardless of case, otherwise the one candidate with that identity prefix. The panic of
  the code is unreachable.
\<close>

theorem resolve_name_sound:
  "case resolve_name lower query choices of
     Inl e \<Rightarrow> e \<noteq> Panic
   | Inr found \<Rightarrow>
       found \<noteq> []
       \<and> set found \<subseteq>
           (if positions (exact_match query) choices \<noteq> [] then set (positions (exact_match query) choices)
            else if positions (name_match lower query) choices \<noteq> []
            then set (positions (name_match lower query) choices)
            else set (positions (prefix_match query) choices))"
proof (cases "positions (exact_match query) choices = []")
  case False
  then have "resolve_name lower query choices
             = Inr (dedup choices (positions (exact_match query) choices))"
    by (simp add: resolve_name_def reduce_name_choices_def)
  with False dedup_subset [of choices] show ?thesis by (simp add: dedup_Nil_iff)
next
  case exact: True
  show ?thesis
  proof (cases "positions (name_match lower query) choices = []")
    case True
    with exact show ?thesis by (auto simp: resolve_name_def Let_def)
  next
    case False
    let ?m = "positions (name_match lower query) choices"
    have "set (kept_choices choices ?m) \<subseteq> set ?m" using dedup_subset [of choices ?m] by auto
    then show ?thesis
      using reduce_by_name [OF False, of choices lower] exact False
      by (auto simp: resolve_name_def)
  qed
qed

text \<open>
  (C37) No guessing: when a name matches, the answer is every selectable distinct conversation
  with that name, or a single one of them, and then only if all of them are local, belong to one
  provider, have the same name and the same proven directory, and the one chosen either is the
  only one with evidence of running and is exactly at home, or was updated by its provider
  strictly later than each other.
\<close>

theorem resolve_name_no_guess:
  assumes "positions (exact_match query) choices = []"
    and "positions (name_match lower query) choices \<noteq> []"
    and "resolve_name lower query choices = Inr found"
  shows "found = kept_choices choices (positions (name_match lower query) choices)
         \<or> (\<exists>i\<in>set (kept_choices choices (positions (name_match lower query) choices)).
              found = [i]
              \<and> (\<forall>j\<in>set (kept_choices choices (positions (name_match lower query) choices)).
                   equivalent_choices lower (choices ! i) (choices ! j) \<and> settles choices i j))"
  using assms reduce_by_name [OF assms(2), of choices lower] by (auto simp: resolve_name_def)

definition sample_choice :: "string \<Rightarrow> f64 \<Rightarrow> name_candidate" where
  "sample_choice i t =
     \<lparr> n_provider = Codex, n_session_id = i, n_active_thread_id = None, n_name = Some ''work'',
       n_live = False, n_exact_home = False, n_status = Parked, n_local = True,
       n_evidence = \<lparr> e_state = Available, e_canonical_cwd = Some ''/src'', e_provider_updated_at = Some t \<rparr> \<rparr>"

lemma sample_resolution:
  "positions (exact_match ''work'') [sample_choice ''a'' 1, sample_choice ''b'' 2] = []"
  "positions (name_match id ''work'') [sample_choice ''a'' 1, sample_choice ''b'' 2] = [0, 1]"
  "resolve_name id ''work'' [sample_choice ''a'' 1, sample_choice ''b'' 2] = Inr [1]"
proof -
  let ?cs = "[sample_choice ''a'' 1, sample_choice ''b'' 2]"
  have order: "f64_total_cmp 1 2 = Less" "f64_lt 0 1" "f64_lt 0 2" "\<not> f64_eq 1 2" "f64_eq 2 2"
    by (simp_all add: f64_total_cmp_def f64_total_key_def f64_total_bits_eq compare_of_def
        bit_iff_odd f64_lt_def f64_eq_def f64_is_nan_def f64_is_zero_def f64_magnitude_def)
  have two: "[0..<length ?cs] = [0, 1]" by (simp add: upt_rec)
  show exact: "positions (exact_match ''work'') ?cs = []"
    unfolding positions_def two by (simp add: sample_choice_def exact_match_def n_thread_id_def)
  show named: "positions (name_match id ''work'') ?cs = [0, 1]"
    unfolding positions_def two by (simp add: sample_choice_def name_match_def)
  have deduped: "dedup ?cs [0, 1] = [0, 1]"
    by (simp add: dedup_def dedup_step_def sample_choice_def n_thread_id_def)
  have times: "max_by f64_total_cmp [1, 2] = Some 2"
    using order by (simp add: max_by_def)
  have "reduce_name_choices id ?cs [0, 1] False = Inr [1]"
    unfolding reduce_name_choices_def deduped using order times
    by (simp add: sample_choice_def selectable_def folded_name_def reduce_equivalent_def
        pick_newest_def positive_time_def List.map_filter_def f64_zero_def)
  then show "resolve_name id ''work'' ?cs = Inr [1]"
    unfolding resolve_name_def exact named by simp
qed

theorem resolve_name_no_guess_witness:
  "\<exists>i\<in>set (kept_choices [sample_choice ''a'' 1, sample_choice ''b'' 2] [0, 1]).
     resolve_name id ''work'' [sample_choice ''a'' 1, sample_choice ''b'' 2] = Inr [i] \<and> i = 1"
proof -
  let ?cs = "[sample_choice ''a'' 1, sample_choice ''b'' 2]"
  note r = sample_resolution
  have kept: "kept_choices ?cs [0, 1] = [0, 1]"
    by (simp add: dedup_def dedup_step_def sample_choice_def n_thread_id_def selectable_def)
  from resolve_name_no_guess [of "''work''" ?cs id, unfolded r(1,2), OF refl _ r(3)] r(3)
  show ?thesis unfolding kept by auto
qed

text \<open>
  One answer per conversation: among the matches, every local identity is kept exactly once,
  and the entry kept has an exact home whenever any match of that identity has one; every remote
  match is kept as it is.
\<close>

theorem dedup_one_per_conversation:
  assumes "i \<in> set matched"
  shows "if n_local (choices ! i)
         then (\<exists>k. {p. p < length (dedup choices matched)
                      \<and> n_local (choices ! (dedup choices matched ! p))
                      \<and> native_key choices (dedup choices matched ! p) = native_key choices i} = {k}
                 \<and> (n_exact_home (choices ! i) \<longrightarrow> n_exact_home (choices ! (dedup choices matched ! k))))
         else i \<in> set (dedup choices matched)"
proof -
  let ?d = "dedup choices matched"
  obtain m where inv: "dedup_inv choices matched (?d, m)" by (rule dedup_inv_dedup)
  have fwd: "q < length ?d \<and> n_local (choices ! (?d ! q)) \<and> native_key choices (?d ! q) = key"
    if "m key = Some q" for key q
    using inv that unfolding dedup_inv_def by (metis fst_conv snd_conv)
  have bwd: "q < length ?d \<Longrightarrow> n_local (choices ! (?d ! q)) \<Longrightarrow> m (native_key choices (?d ! q)) = Some q" for q
    using inv unfolding dedup_inv_def by simp
  have seen: "if n_local (choices ! i)
      then \<exists>q. m (native_key choices i) = Some q
             \<and> (n_exact_home (choices ! i) \<longrightarrow> n_exact_home (choices ! (?d ! q)))
      else i \<in> set ?d"
    using inv assms unfolding dedup_inv_def fst_conv snd_conv by blast
  show ?thesis
  proof (cases "n_local (choices ! i)")
    case True
    with seen obtain q where q: "m (native_key choices i) = Some q"
      "n_exact_home (choices ! i) \<longrightarrow> n_exact_home (choices ! (?d ! q))" by auto
    have "{p. p < length ?d \<and> n_local (choices ! (?d ! p))
              \<and> native_key choices (?d ! p) = native_key choices i} = {q}"
    proof (intro equalityI subsetI)
      fix p assume "p \<in> {p. p < length ?d \<and> n_local (choices ! (?d ! p))
              \<and> native_key choices (?d ! p) = native_key choices i}"
      with bwd [of p] q(1) show "p \<in> {q}" by simp
    qed (use fwd [OF q(1)] in simp)
    with True q(2) show ?thesis by auto
  qed (use seen in simp)
qed

theorem dedup_one_per_conversation_witness:
  "\<exists>k. {p. p < length (dedup [sample_choice ''a'' 1, sample_choice ''a'' 2] [0, 1])
            \<and> n_local ([sample_choice ''a'' 1, sample_choice ''a'' 2]
                 ! (dedup [sample_choice ''a'' 1, sample_choice ''a'' 2] [0, 1] ! p))
            \<and> native_key [sample_choice ''a'' 1, sample_choice ''a'' 2]
                 (dedup [sample_choice ''a'' 1, sample_choice ''a'' 2] [0, 1] ! p) = (Codex, ''a'')} = {k}"
  using dedup_one_per_conversation [of 1 "[0, 1]" "[sample_choice ''a'' 1, sample_choice ''a'' 2]"]
  by (auto simp: sample_choice_def n_thread_id_def)

end
