(* ===== verification/Policy.thy ===== *)
theory Policy
  imports Prelude
begin

text \<open>
  The durable policy ledger of the assistant (src/assistant_policy.rs): every provider call is
  reserved here before it is dispatched and settled by a receipt afterwards, and every brokered
  action needs a grant and a single-use approval. The tables of the SQLite store are lists of
  rows; a method is a function from the store to an error or a result with the new store, the
  error leaving the store as it was because the method's transaction is rolled back. The checks
  of the schema (primary keys, foreign keys, \<open>CHECK (calls > 0)\<close>) and SQLite's refusal to
  overflow a sum are branches. What another database file holds (the native turns) and SHA-256
  are arguments. Lock waits and input/output errors of SQLite are not modelled.
\<close>

section \<open>Limits and times\<close>

definition no_call_limit :: u64 where "no_call_limit = nat i64_max"
definition until_revoked :: i64 where "until_revoked = i64_max"

datatype db_failure = Unique_violation | Foreign_key_violation | Check_violation | Integer_overflow
  | No_rows

datatype policy_error =
  Database db_failure | Denied string | UnknownReservation string | UnknownGrant string
  | UnknownApproval string

definition permission_expiry :: "i64 \<Rightarrow> u64 \<Rightarrow> policy_error + i64" where
  "permission_expiry now hours =
     (if now < 0 then Inl (Denied ''invalid approval time'')
      else if hours = 0 then Inr until_revoked
      else
        ok_or
          (Option.bind
            (Option.bind (Option.bind (u64_checked_mul hours 3600) i64_try_from) (i64_checked_add now))
            (\<lambda>expiry. if expiry < until_revoked then Some expiry else None))
          (Denied ''approval duration is too large''))"

text \<open>A \<open>Duration\<close> is its whole seconds and the nanoseconds below one second.\<close>

definition current_dispatch_time :: "i64 \<Rightarrow> u64 \<times> nat \<Rightarrow> i64" where
  "current_dispatch_time now elapsed =
     (let seconds = u64_saturating_add (fst elapsed) (if snd elapsed \<noteq> 0 then 1 else 0)
      in i64_saturating_add now (as_i64 (min seconds (nat i64_max))))"

section \<open>Tables\<close>

datatype reservation_state = Reserved | Dispatched | Completed | Failed | Unknown | Released

fun state_as_str :: "reservation_state \<Rightarrow> string" where
  "state_as_str Reserved = ''reserved''"
| "state_as_str Dispatched = ''dispatched''"
| "state_as_str Completed = ''completed''"
| "state_as_str Failed = ''failed''"
| "state_as_str Unknown = ''unknown''"
| "state_as_str Released = ''released''"

definition state_parse :: "string \<Rightarrow> reservation_state" where
  "state_parse v =
     (if v = ''dispatched'' then Dispatched
      else if v = ''completed'' then Completed
      else if v = ''failed'' then Failed
      else if v = ''unknown'' then Unknown
      else if v = ''released'' then Released
      else Reserved)"

datatype delivery_outcome = Delivery_completed | Delivery_failed | Delivery_unknown

fun outcome_as_str :: "delivery_outcome \<Rightarrow> string" where
  "outcome_as_str Delivery_completed = ''completed''"
| "outcome_as_str Delivery_failed = ''failed''"
| "outcome_as_str Delivery_unknown = ''unknown''"

record 'n policy_config =
  background_calls :: 'n
  max_concurrent :: 'n
  max_total_calls :: 'n
  default_deadline_seconds :: 'n

record reservation_row =
  r_id :: string
  r_root_id :: string
  r_parent_id :: "string option"
  r_calls :: i64
  r_deadline_at :: i64
  r_background :: bool
  r_state :: reservation_state
  r_created_at :: i64
  r_dispatched_at :: "i64 option"
  r_completed_at :: "i64 option"
  r_outcome :: "string option"

record grant_row =
  g_id :: string
  g_provider :: string
  g_scope :: string
  g_capability :: string
  g_expires_at :: i64
  g_revoked_at :: "i64 option"
  g_created_at :: i64

record approval_row =
  a_id :: string
  a_grant_id :: string
  a_provider :: string
  a_scope :: string
  a_capability :: string
  a_target :: string
  a_payload_hash :: string
  a_version :: string
  a_created_at :: i64
  a_used_at :: "i64 option"

record receipt_row =
  rc_reservation_id :: string
  rc_outcome :: string
  rc_recorded_at :: i64

record policy_db =
  db_config :: "i64 policy_config"
  db_reservations :: "reservation_row list"
  db_grants :: "grant_row list"
  db_approvals :: "approval_row list"
  db_receipts :: "receipt_row list"

text \<open>The store right after \<open>open\<close> creates it: the inserted configuration row has the column defaults.\<close>

definition fresh_policy_db :: policy_db where
  "fresh_policy_db =
     \<lparr> db_config = \<lparr> background_calls = 0, max_concurrent = 2, max_total_calls = 0,
                    default_deadline_seconds = 120 \<rparr>,
       db_reservations = [], db_grants = [], db_approvals = [], db_receipts = [] \<rparr>"

text \<open>What the interface returns for a row.\<close>

record reservation =
  res_id :: string
  res_root_id :: string
  res_parent_id :: "string option"
  res_calls :: u64
  res_deadline_at :: i64
  res_background :: bool
  res_state :: reservation_state

definition reservation_of_row :: "reservation_row \<Rightarrow> reservation" where
  "reservation_of_row r =
     \<lparr> res_id = r_id r, res_root_id = r_root_id r, res_parent_id = r_parent_id r,
       res_calls = as_u64 (r_calls r), res_deadline_at = r_deadline_at r,
       res_background = r_background r, res_state = r_state r \<rparr>"

definition reservation_lookup :: "policy_db \<Rightarrow> string \<Rightarrow> reservation option" where
  "reservation_lookup db i = map_option reservation_of_row (row_by r_id i (db_reservations db))"

definition default_policy_config :: "u64 policy_config" where
  "default_policy_config =
     \<lparr> background_calls = 0, max_concurrent = 2, max_total_calls = 0, default_deadline_seconds = 120 \<rparr>"

definition policy_config_of :: "policy_db \<Rightarrow> u64 policy_config" where
  "policy_config_of db =
     (let c = db_config db in
      \<lparr> background_calls = as_u64 (background_calls c), max_concurrent = as_u64 (max_concurrent c),
        max_total_calls = as_u64 (max_total_calls c),
        default_deadline_seconds = as_u64 (default_deadline_seconds c) \<rparr>)"

definition configure :: "u64 policy_config \<Rightarrow> policy_db \<Rightarrow> policy_error + policy_db" where
  "configure config db =
     rbind (ensure (\<forall>v\<in>set [background_calls config, max_concurrent config, max_total_calls config,
                            default_deadline_seconds config]. int v \<le> i64_max)
              (Denied ''policy limit exceeds SQLite integer range'')) (\<lambda>_.
     rbind (ensure (max_concurrent config \<noteq> 0 \<and> default_deadline_seconds config \<noteq> 0)
              (Denied ''concurrency and deadline limits must be positive'')) (\<lambda>_.
     Inr (db\<lparr>db_config :=
       \<lparr> background_calls = as_i64 (background_calls config),
         max_concurrent = as_i64 (max_concurrent config),
         max_total_calls = as_i64 (max_total_calls config),
         default_deadline_seconds = as_i64 (default_deadline_seconds config) \<rparr>\<rparr>)))"

section \<open>The checks of a reservation\<close>

definition charged :: "reservation_row \<Rightarrow> bool" where
  "charged r \<longleftrightarrow> r_parent_id r = None \<and> r_state r \<noteq> Released"

definition sum_calls :: "(reservation_row \<Rightarrow> bool) \<Rightarrow> policy_db \<Rightarrow> policy_error + i64" where
  "sum_calls p db = ok_or (sum_where p r_calls (db_reservations db)) (Database Integer_overflow)"

definition validate_reservation_calls :: "u64 \<Rightarrow> policy_error + unit" where
  "validate_reservation_calls calls =
     rbind (ensure (calls \<noteq> 0) (Denied ''reservation must contain at least one call'')) (\<lambda>_.
     ensure (int calls \<le> i64_max) (Denied ''reservation exceeds SQLite integer range''))"

definition validate_deadline :: "i64 option \<Rightarrow> i64 \<Rightarrow> u64 \<Rightarrow> policy_error + i64" where
  "validate_deadline deadline now default_seconds =
     (let d = (case deadline of Some t \<Rightarrow> t | None \<Rightarrow> i64_saturating_add now (as_i64 default_seconds))
      in if d \<le> now then Inl (Denied ''deadline is expired'') else Inr d)"

definition reject_duplicate_reservation :: "policy_db \<Rightarrow> string \<Rightarrow> policy_error + unit" where
  "reject_duplicate_reservation db i =
     ensure (row_by r_id i (db_reservations db) = None) (Denied ''reservation id already exists'')"

definition root_row :: "policy_db \<Rightarrow> string \<Rightarrow> reservation_row option" where
  "root_row db i = find (\<lambda>r. r_id r = i \<and> r_parent_id r = None) (db_reservations db)"

definition validate_child_budget ::
  "policy_db \<Rightarrow> string option \<Rightarrow> string \<Rightarrow> u64 \<Rightarrow> i64 \<Rightarrow> i64 \<Rightarrow> policy_error + unit" where
  "validate_child_budget db parent_id root_id calls now deadline =
     (case parent_id of
        None \<Rightarrow> Inr ()
      | Some parent \<Rightarrow>
          rbind (ok_or (root_row db parent) (UnknownReservation parent)) (\<lambda>p.
          rbind (ensure (\<not> (r_root_id p \<noteq> root_id \<or> r_state p \<noteq> Reserved
                           \<or> r_deadline_at p \<le> now \<or> deadline > r_deadline_at p))
                   (Denied ''parent reservation is expired or no longer active'')) (\<lambda>_.
          rbind (sum_calls (\<lambda>r. r_root_id r = root_id \<and> r_parent_id r \<noteq> None
                                \<and> r_state r \<noteq> Released) db) (\<lambda>children.
          ensure (\<not> i64_saturating_add children (as_i64 calls) > r_calls p)
            (Denied ''child reservations exceed the root budget'')))))"

definition validate_background_budget ::
  "policy_db \<Rightarrow> bool \<Rightarrow> u64 \<Rightarrow> u64 \<Rightarrow> policy_error + unit" where
  "validate_background_budget db background calls allowance =
     (if \<not> background then Inr ()
      else
        rbind (sum_calls (\<lambda>r. r_background r \<and> charged r) db) (\<lambda>used.
        ensure (\<not> i64_saturating_add used (as_i64 calls) > as_i64 allowance)
          (Denied ''background allowance exhausted (background is disabled by default)'')))"

definition validate_root_budgets ::
  "policy_db \<Rightarrow> u64 policy_config \<Rightarrow> string option \<Rightarrow> bool \<Rightarrow> u64 \<Rightarrow> policy_error + unit" where
  "validate_root_budgets db config parent_id background calls =
     (if parent_id \<noteq> None then Inr ()
      else
        rbind (validate_background_budget db background calls (background_calls config)) (\<lambda>_.
        rbind (sum_calls charged db) (\<lambda>total.
        ensure (\<not> (max_total_calls config = 0
                   \<or> i64_saturating_add total (as_i64 calls) > as_i64 (max_total_calls config)))
          (Denied ''total call allowance exhausted''))))"

definition active_leaves :: "policy_db \<Rightarrow> string option \<Rightarrow> nat" where
  "active_leaves db parent_id =
     count_where (\<lambda>r. (r_state r = Reserved \<or> r_state r = Dispatched)
                      \<and> (parent_id = None \<or> Some (r_id r) \<noteq> parent_id)
                      \<and> \<not> (\<exists>child\<in>set (db_reservations db). r_parent_id child = Some (r_id r)))
       (db_reservations db)"

text \<open>
  The runtime database next to the ledger as the ledger sees it: an error opening it, no file or no
  table of native turns, or the states of the native turns.
\<close>

type_synonym runtime_view = "policy_error + string list option"

definition native_occupancy :: "runtime_view \<Rightarrow> policy_error + i64" where
  "native_occupancy runtime =
     rbind runtime (\<lambda>turns. Inr (case turns of None \<Rightarrow> 0
       | Some states \<Rightarrow> int (count_where (\<lambda>st. st = ''intent'' \<or> st = ''dispatched'') states)))"

definition validate_concurrency ::
  "policy_db \<Rightarrow> string option \<Rightarrow> u64 \<Rightarrow> runtime_view \<Rightarrow> policy_error + unit" where
  "validate_concurrency db parent_id maximum runtime =
     rbind (native_occupancy runtime) (\<lambda>native.
     ensure (\<not> i64_saturating_add (int (active_leaves db parent_id)) native \<ge> as_i64 maximum)
       (Denied ''concurrent reservation limit reached''))"

definition new_reservation_row ::
  "string \<Rightarrow> string \<Rightarrow> string option \<Rightarrow> u64 \<Rightarrow> i64 \<Rightarrow> bool \<Rightarrow> i64 \<Rightarrow> reservation_row" where
  "new_reservation_row i root_id parent_id calls deadline background now =
     \<lparr> r_id = i, r_root_id = root_id, r_parent_id = parent_id, r_calls = as_i64 calls,
       r_deadline_at = deadline, r_background = background, r_state = Reserved,
       r_created_at = now, r_dispatched_at = None, r_completed_at = None, r_outcome = None \<rparr>"

definition insert_reservation :: "reservation_row \<Rightarrow> policy_db \<Rightarrow> policy_error + policy_db" where
  "insert_reservation r db =
     rbind (ensure (row_by r_id (r_id r) (db_reservations db) = None) (Database Unique_violation)) (\<lambda>_.
     rbind (ensure (r_calls r > 0) (Database Check_violation)) (\<lambda>_.
     Inr (db\<lparr>db_reservations := db_reservations db @ [r]\<rparr>)))"

definition reserve ::
  "string \<Rightarrow> string option \<Rightarrow> string \<Rightarrow> u64 \<Rightarrow> bool \<Rightarrow> i64 \<Rightarrow> i64 option \<Rightarrow> runtime_view
   \<Rightarrow> policy_db \<Rightarrow> policy_error + reservation \<times> policy_db" where
  "reserve i parent_id root_id calls background now deadline_at runtime db =
     rbind (validate_reservation_calls calls) (\<lambda>_.
     let cfg = policy_config_of db in
     rbind (validate_deadline deadline_at now (default_deadline_seconds cfg)) (\<lambda>deadline.
     rbind (reject_duplicate_reservation db i) (\<lambda>_.
     rbind (validate_child_budget db parent_id root_id calls now deadline) (\<lambda>_.
     rbind (validate_root_budgets db cfg parent_id background calls) (\<lambda>_.
     rbind (validate_concurrency db parent_id (max_concurrent cfg) runtime) (\<lambda>_.
     rbind (insert_reservation
              (new_reservation_row i root_id parent_id calls deadline background now) db) (\<lambda>db'.
     Inr (\<lparr> res_id = i, res_root_id = root_id, res_parent_id = parent_id, res_calls = calls,
            res_deadline_at = deadline, res_background = background, res_state = Reserved \<rparr>,
          db'))))))))"

definition reserve_root ::
  "string \<Rightarrow> u64 \<Rightarrow> bool \<Rightarrow> i64 \<Rightarrow> i64 option \<Rightarrow> runtime_view
   \<Rightarrow> policy_db \<Rightarrow> policy_error + reservation \<times> policy_db" where
  "reserve_root i calls background now deadline_at runtime db =
     reserve i None i calls background now deadline_at runtime db"

definition reserve_child ::
  "string \<Rightarrow> string \<Rightarrow> u64 \<Rightarrow> i64 \<Rightarrow> i64 option \<Rightarrow> runtime_view
   \<Rightarrow> policy_db \<Rightarrow> policy_error + reservation \<times> policy_db" where
  "reserve_child i parent_id calls now deadline_at runtime db =
     rbind (ok_or (reservation_lookup db parent_id) (UnknownReservation parent_id)) (\<lambda>parent.
     rbind (ensure (res_parent_id parent = None) (Denied ''nested delegation is disabled'')) (\<lambda>_.
     reserve i (Some parent_id) (res_root_id parent) calls (res_background parent) now
       (Some (case deadline_at of Some t \<Rightarrow> t | None \<Rightarrow> res_deadline_at parent))
       runtime db))"

section \<open>Extending a planning root\<close>

definition validate_completed_planning_child :: "policy_db \<Rightarrow> string \<Rightarrow> policy_error + unit" where
  "validate_completed_planning_child db i =
     (let invalid = count_where (\<lambda>r. r_parent_id r = Some i
                                   \<and> \<not> (r_state r = Completed \<or> r_state r = Released)) (db_reservations db);
          completed = count_where (\<lambda>r. r_parent_id r = Some i \<and> r_state r = Completed) (db_reservations db)
      in ensure (\<not> (invalid \<noteq> 0 \<or> completed \<noteq> 1))
           (Denied ''only a known completed planning child can extend its bounded active root once''))"

definition validate_root_extension ::
  "policy_db \<Rightarrow> string \<Rightarrow> u64 \<Rightarrow> i64 \<Rightarrow> policy_error + bool" where
  "validate_root_extension db i additional now =
     rbind (ok_or (root_row db i) (UnknownReservation i)) (\<lambda>root.
     rbind (ensure (\<not> (r_state root \<noteq> Reserved \<or> r_deadline_at root \<le> now \<or> r_calls root \<noteq> 1
                      \<or> i64_saturating_add (r_calls root) (as_i64 additional) > 4))
              (Denied ''only a bounded active planning root can be extended once'')) (\<lambda>_.
     rbind (validate_completed_planning_child db i) (\<lambda>_.
     Inr (r_background root))))"

definition extend_root :: "string \<Rightarrow> u64 \<Rightarrow> i64 \<Rightarrow> policy_db \<Rightarrow> policy_error + policy_db" where
  "extend_root i additional now db =
     rbind (validate_reservation_calls additional) (\<lambda>_.
     let config = policy_config_of db in
     rbind (validate_root_extension db i additional now) (\<lambda>background.
     rbind (validate_root_budgets db config None background additional) (\<lambda>_.
     Inr (db\<lparr>db_reservations :=
       update_where (\<lambda>r. r_id r = i) (\<lambda>r. r\<lparr>r_calls := r_calls r + as_i64 additional\<rparr>)
         (db_reservations db)\<rparr>))))"

section \<open>Transitions\<close>

definition validate_transition_state ::
  "reservation_state \<Rightarrow> i64 \<Rightarrow> bool \<Rightarrow> reservation_state \<Rightarrow> i64 \<Rightarrow> policy_error + unit" where
  "validate_transition_state state now receipt old deadline =
     (if state = Released \<and> old \<noteq> Reserved
      then Inl (Denied ''only an undispatched reservation can be released'')
      else if state = Dispatched \<and> old \<noteq> Reserved
      then Inl (Denied ''reservation was already dispatched or finalized'')
      else if state = Dispatched \<and> deadline \<le> now
      then Inl (Denied ''reservation deadline has expired'')
      else if receipt \<and> \<not> (old = Reserved \<or> old = Dispatched)
      then Inl (Denied ''reservation is already finalized'')
      else Inr ())"

definition validate_delegated_root_transition ::
  "policy_db \<Rightarrow> string \<Rightarrow> reservation_state \<Rightarrow> policy_error + unit" where
  "validate_delegated_root_transition db i state =
     (let children = count_where (\<lambda>r. r_parent_id r = Some i) (db_reservations db);
          unreleased = count_where (\<lambda>r. r_parent_id r = Some i \<and> r_state r \<noteq> Released) (db_reservations db)
      in ensure (\<not> (children > 0 \<and> (state = Dispatched \<or> (state = Released \<and> unreleased > 0))))
           (Denied ''a delegated root cannot dispatch or refund its children's allowance''))"

definition validate_parent_active :: "policy_db \<Rightarrow> string \<Rightarrow> i64 \<Rightarrow> policy_error + unit" where
  "validate_parent_active db i now =
     (let invalid = count_where (\<lambda>(child, parent). Some (r_id parent) = r_parent_id child \<and> r_id child = i
                       \<and> (r_state parent \<noteq> Reserved \<or> r_deadline_at parent \<le> now))
                     (List.product (db_reservations db) (db_reservations db))
      in ensure (\<not> invalid > 0) (Denied ''root is no longer active''))"

definition validate_dispatched_background_budget :: "policy_db \<Rightarrow> string \<Rightarrow> policy_error + unit" where
  "validate_dispatched_background_budget db i =
     rbind (ok_or (row_by r_id i (db_reservations db)) (Database No_rows)) (\<lambda>r.
     if \<not> r_background r then Inr ()
     else
       rbind (sum_calls (\<lambda>r. r_background r \<and> charged r) db) (\<lambda>used.
       ensure (\<not> (background_calls (db_config db) \<le> 0 \<or> used > background_calls (db_config db)))
         (Denied ''background allowance revoked or reduced'')))"

definition validate_dispatch_budget :: "policy_db \<Rightarrow> string \<Rightarrow> i64 \<Rightarrow> policy_error + unit" where
  "validate_dispatch_budget db i now =
     rbind (validate_parent_active db i now) (\<lambda>_.
     rbind (sum_calls charged db) (\<lambda>total.
     rbind (ensure (\<not> (max_total_calls (db_config db) = 0 \<or> total > max_total_calls (db_config db)))
              (Denied ''call allowance revoked or reduced'')) (\<lambda>_.
     validate_dispatched_background_budget db i)))"

definition settle_row :: "reservation_state \<Rightarrow> i64 \<Rightarrow> string option \<Rightarrow> reservation_row \<Rightarrow> reservation_row" where
  "settle_row state now outcome r =
     r\<lparr> r_state := state,
        r_dispatched_at := (if state = Dispatched then Some now else r_dispatched_at r),
        r_completed_at :=
          (if state = Completed \<or> state = Failed \<or> state = Unknown \<or> state = Released then Some now
           else r_completed_at r),
        r_outcome := (case outcome of Some v \<Rightarrow> Some v | None \<Rightarrow> r_outcome r) \<rparr>"

definition apply_transition ::
  "string \<Rightarrow> reservation_state \<Rightarrow> i64 \<Rightarrow> string option \<Rightarrow> policy_db \<Rightarrow> policy_error + policy_db" where
  "apply_transition i state now outcome db =
     (let db' = db\<lparr>db_reservations :=
                   update_where (\<lambda>r. r_id r = i) (settle_row state now outcome) (db_reservations db)\<rparr>
      in case outcome of
           None \<Rightarrow> Inr db'
         | Some v \<Rightarrow>
             rbind (ensure (row_by rc_reservation_id i (db_receipts db) = None)
                      (Database Unique_violation)) (\<lambda>_.
             rbind (ensure (row_by r_id i (db_reservations db) \<noteq> None)
                      (Database Foreign_key_violation)) (\<lambda>_.
             Inr (db'\<lparr>db_receipts := db_receipts db @
                    [\<lparr> rc_reservation_id = i, rc_outcome = v, rc_recorded_at = now \<rparr>]\<rparr>))))"

definition transition ::
  "string \<Rightarrow> reservation_state \<Rightarrow> i64 \<Rightarrow> string option \<Rightarrow> bool \<Rightarrow> policy_db \<Rightarrow> policy_error + policy_db" where
  "transition i state now outcome receipt db =
     rbind (ok_or (row_by r_id i (db_reservations db)) (UnknownReservation i)) (\<lambda>old.
     rbind (validate_delegated_root_transition db i state) (\<lambda>_.
     rbind (if state = Dispatched then validate_dispatch_budget db i now else Inr ()) (\<lambda>_.
     rbind (validate_transition_state state now receipt (r_state old) (r_deadline_at old)) (\<lambda>_.
     apply_transition i state now outcome db))))"

definition mark_dispatched :: "string \<Rightarrow> i64 \<Rightarrow> policy_db \<Rightarrow> policy_error + policy_db" where
  "mark_dispatched i now db = transition i Dispatched now None False db"

definition record_outcome ::
  "string \<Rightarrow> delivery_outcome \<Rightarrow> i64 \<Rightarrow> policy_db \<Rightarrow> policy_error + policy_db" where
  "record_outcome i outcome now db =
     transition i (state_parse (outcome_as_str outcome)) now (Some (outcome_as_str outcome)) True db"

definition release_before_dispatch :: "string \<Rightarrow> i64 \<Rightarrow> policy_db \<Rightarrow> policy_error + policy_db" where
  "release_before_dispatch i now db = transition i Released now None False db"

text \<open>Revalidation under the writer lock immediately before the external send; it writes nothing.\<close>

definition validate_actual_dispatch :: "policy_db \<Rightarrow> string \<Rightarrow> i64 \<Rightarrow> policy_error + unit" where
  "validate_actual_dispatch db i now =
     rbind (ok_or (reservation_lookup db i) (UnknownReservation i)) (\<lambda>child.
     rbind (ensure (\<not> (res_state child \<noteq> Dispatched \<or> res_deadline_at child \<le> now))
              (Denied ''delivery reservation is no longer dispatched and live'')) (\<lambda>_.
     rbind (case res_parent_id child of
              None \<Rightarrow> Inr ()
            | Some parent_id \<Rightarrow>
                rbind (ok_or (reservation_lookup db parent_id) (UnknownReservation parent_id)) (\<lambda>parent.
                ensure (\<not> (res_state parent \<noteq> Reserved \<or> res_deadline_at parent \<le> now))
                  (Denied ''delivery root is no longer active''))) (\<lambda>_.
     validate_dispatched_background_budget db i)))"

definition retry_allowed :: "policy_db \<Rightarrow> string \<Rightarrow> bool" where
  "retry_allowed db i =
     (case reservation_lookup db i of None \<Rightarrow> False | Some r \<Rightarrow> res_state r = Reserved)"

section \<open>Grants and approvals\<close>

record grant =
  gr_id :: string
  gr_provider :: string
  gr_scope :: string
  gr_capability :: string
  gr_expires_at :: i64
  gr_revoked_at :: "i64 option"

record action_approval =
  ap_id :: string
  ap_grant_id :: string
  ap_provider :: string
  ap_scope :: string
  ap_capability :: string
  ap_target :: string
  ap_payload_hash :: string
  ap_version :: string

definition grant_matches :: "grant_row \<Rightarrow> string \<Rightarrow> string \<Rightarrow> string \<Rightarrow> i64 \<Rightarrow> bool" where
  "grant_matches g provider scope capability now \<longleftrightarrow>
     g_provider g = provider \<and> g_scope g = scope \<and> g_capability g = capability
     \<and> g_revoked_at g = None \<and> now < g_expires_at g"

definition payload_hash :: "(string \<Rightarrow> string) \<Rightarrow> string \<Rightarrow> string" where
  "payload_hash sha256_hex payload = sha256_hex payload"

text \<open>The column \<open>created_at\<close> receives the grant's expiry, as the parameters of the statement say.\<close>

definition grant_insert :: "grant \<Rightarrow> policy_db \<Rightarrow> policy_error + policy_db" where
  "grant_insert g db =
     rbind (ensure (row_by g_id (gr_id g) (db_grants db) = None) (Database Unique_violation)) (\<lambda>_.
     Inr (db\<lparr>db_grants := db_grants db @
       [\<lparr> g_id = gr_id g, g_provider = gr_provider g, g_scope = gr_scope g,
          g_capability = gr_capability g, g_expires_at = gr_expires_at g,
          g_revoked_at = gr_revoked_at g, g_created_at = gr_expires_at g \<rparr>]\<rparr>))"

definition validate_grant ::
  "policy_db \<Rightarrow> string \<Rightarrow> string \<Rightarrow> string \<Rightarrow> string \<Rightarrow> i64 \<Rightarrow> policy_error + unit" where
  "validate_grant db i provider scope capability now =
     rbind (ok_or (row_by g_id i (db_grants db)) (UnknownGrant i)) (\<lambda>g.
     ensure (grant_matches g provider scope capability now)
       (Denied ''grant is expired, revoked, or does not match exact data destination''))"

definition revoke_grant :: "string \<Rightarrow> i64 \<Rightarrow> policy_db \<Rightarrow> policy_error + policy_db" where
  "revoke_grant i now db =
     (if count_where (\<lambda>g. g_id g = i \<and> g_revoked_at g = None) (db_grants db) = 0
      then Inl (UnknownGrant i)
      else Inr (db\<lparr>db_grants :=
        update_where (\<lambda>g. g_id g = i \<and> g_revoked_at g = None) (\<lambda>g. g\<lparr>g_revoked_at := Some now\<rparr>)
          (db_grants db)\<rparr>))"

definition approve_action :: "action_approval \<Rightarrow> i64 \<Rightarrow> policy_db \<Rightarrow> policy_error + policy_db" where
  "approve_action ap now db =
     rbind (ok_or (row_by g_id (ap_grant_id ap) (db_grants db)) (UnknownGrant (ap_grant_id ap))) (\<lambda>g.
     rbind (ensure (grant_matches g (ap_provider ap) (ap_scope ap) (ap_capability ap) now)
              (Denied ''grant is expired, revoked, or scope/provider/capability mismatches'')) (\<lambda>_.
     rbind (ensure (row_by a_id (ap_id ap) (db_approvals db) = None) (Database Unique_violation)) (\<lambda>_.
     Inr (db\<lparr>db_approvals := db_approvals db @
       [\<lparr> a_id = ap_id ap, a_grant_id = ap_grant_id ap, a_provider = ap_provider ap,
          a_scope = ap_scope ap, a_capability = ap_capability ap, a_target = ap_target ap,
          a_payload_hash = ap_payload_hash ap, a_version = ap_version ap, a_created_at = now,
          a_used_at = None \<rparr>]\<rparr>))))"

definition load_unused_approval :: "policy_db \<Rightarrow> string \<Rightarrow> policy_error + approval_row" where
  "load_unused_approval db i =
     ok_or (find (\<lambda>a. a_id a = i \<and> a_used_at a = None) (db_approvals db)) (UnknownApproval i)"

definition load_approval_grant :: "policy_db \<Rightarrow> string \<Rightarrow> policy_error + grant_row" where
  "load_approval_grant db i = ok_or (row_by g_id i (db_grants db)) (UnknownGrant i)"

definition validate_approval_match ::
  "(string \<Rightarrow> string) \<Rightarrow> approval_row \<Rightarrow> grant_row \<Rightarrow> string \<Rightarrow> string \<Rightarrow> string \<Rightarrow> string \<Rightarrow> string
   \<Rightarrow> string \<Rightarrow> i64 \<Rightarrow> policy_error + unit" where
  "validate_approval_match sha256_hex row g provider scope capability target payload version now =
     ensure (grant_matches g provider scope capability now
             \<and> a_provider row = provider \<and> a_scope row = scope \<and> a_capability row = capability
             \<and> a_target row = target \<and> a_version row = version
             \<and> a_payload_hash row = payload_hash sha256_hex payload)
       (Denied ''approval does not exactly match the current action'')"

definition consume_approval :: "string \<Rightarrow> i64 \<Rightarrow> policy_db \<Rightarrow> policy_error + policy_db" where
  "consume_approval i now db =
     rbind (ensure (count_where (\<lambda>a. a_id a = i \<and> a_used_at a = None) (db_approvals db) = 1)
              (Denied ''approval was concurrently consumed'')) (\<lambda>_.
     Inr (db\<lparr>db_approvals :=
       update_where (\<lambda>a. a_id a = i \<and> a_used_at a = None) (\<lambda>a. a\<lparr>a_used_at := Some now\<rparr>)
         (db_approvals db)\<rparr>))"

definition validate_action ::
  "(string \<Rightarrow> string) \<Rightarrow> string \<Rightarrow> string \<Rightarrow> string \<Rightarrow> string \<Rightarrow> string \<Rightarrow> string \<Rightarrow> string \<Rightarrow> i64
   \<Rightarrow> policy_db \<Rightarrow> policy_error + policy_db" where
  "validate_action sha256_hex approval_id provider scope capability target payload version now db =
     rbind (load_unused_approval db approval_id) (\<lambda>row.
     rbind (load_approval_grant db (a_grant_id row)) (\<lambda>g.
     rbind (validate_approval_match sha256_hex row g provider scope capability target payload version now) (\<lambda>_.
     consume_approval approval_id now db)))"

section \<open>The ledger as a state machine\<close>

datatype policy_op =
  Configure "u64 policy_config"
| ReserveRoot string u64 bool i64 "i64 option" runtime_view
| ReserveChild string string u64 i64 "i64 option" runtime_view
| ExtendRoot string u64 i64
| MarkDispatched string i64
| RecordOutcome string delivery_outcome i64
| ReleaseBeforeDispatch string i64
| InsertGrant grant
| RevokeGrant string i64
| ApproveAction action_approval i64
| ValidateAction string string string string string string string i64

fun policy_step :: "(string \<Rightarrow> string) \<Rightarrow> policy_op \<Rightarrow> policy_db \<Rightarrow> policy_error + policy_db" where
  "policy_step h (Configure c) db = configure c db"
| "policy_step h (ReserveRoot i calls bg now dl runtime) db =
     rbind (reserve_root i calls bg now dl runtime db) (\<lambda>(_, db'). Inr db')"
| "policy_step h (ReserveChild i p calls now dl runtime) db =
     rbind (reserve_child i p calls now dl runtime db) (\<lambda>(_, db'). Inr db')"
| "policy_step h (ExtendRoot i n now) db = extend_root i n now db"
| "policy_step h (MarkDispatched i now) db = mark_dispatched i now db"
| "policy_step h (RecordOutcome i out now) db = record_outcome i out now db"
| "policy_step h (ReleaseBeforeDispatch i now) db = release_before_dispatch i now db"
| "policy_step h (InsertGrant g) db = grant_insert g db"
| "policy_step h (RevokeGrant i now) db = revoke_grant i now db"
| "policy_step h (ApproveAction ap now) db = approve_action ap now db"
| "policy_step h (ValidateAction i provider scope cap target payload version now) db =
     validate_action h i provider scope cap target payload version now db"

end
