(* ===== verification/Policy_Ledger.thy ===== *)
theory Policy_Ledger
  imports Policy
begin

text \<open>
  What the policy ledger keeps. The first group of lemmas gives the effect of every successful
  operation; the second the invariant of the store, which every operation preserves, and the
  order along which the ledger only moves forward; the third the bounds on the allowance and on
  concurrency that hold as long as the configuration is not changed.
\<close>

section \<open>The effect of a successful operation\<close>

lemma validate_reservation_calls_Inr [simp]:
  "validate_reservation_calls calls = Inr u \<longleftrightarrow> 0 < calls \<and> int calls \<le> i64_max"
  by (auto simp: validate_reservation_calls_def result_simps)

lemma validate_deadline_Inr:
  "validate_deadline deadline now d = Inr t \<longleftrightarrow>
     t = (case deadline of Some t \<Rightarrow> t | None \<Rightarrow> i64_saturating_add now (as_i64 d)) \<and> now < t"
  by (auto simp: validate_deadline_def Let_def)

lemma sum_calls_Inr: "sum_calls p db = Inr t \<Longrightarrow> t = total_where p r_calls (db_reservations db)"
  by (auto simp: sum_calls_def dest: sum_where_Some)

lemma i64_saturating_add_not_greater:
  "\<not> i64_saturating_add a b > c \<Longrightarrow> min i64_max (a + b) \<le> c"
  by (auto simp: i64_saturating_add_def)

lemma root_row_iff:
  "unique_by r_id (db_reservations db) \<Longrightarrow>
   root_row db i = Some r \<longleftrightarrow> r \<in> set (db_reservations db) \<and> r_id r = i \<and> r_parent_id r = None"
  by (auto simp: root_row_def find_Some_iff in_set_conv_nth unique_by_def distinct_conv_nth)

lemma root_row_Some:
  "root_row db i = Some r \<Longrightarrow> r \<in> set (db_reservations db) \<and> r_id r = i \<and> r_parent_id r = None"
  using find_Some_in [of _ "db_reservations db" r] by (fastforce simp: root_row_def)

lemma validate_child_budget_Inr:
  assumes "validate_child_budget db (Some p) root_id calls now deadline = Inr u"
    and "int calls \<le> i64_max"
  obtains q where "root_row db p = Some q" "r_root_id q = root_id" "r_state q = Reserved"
    "now < r_deadline_at q" "deadline \<le> r_deadline_at q"
    "min i64_max (total_where (\<lambda>r. r_root_id r = root_id \<and> r_parent_id r \<noteq> None \<and> r_state r \<noteq> Released)
                    r_calls (db_reservations db) + int calls) \<le> r_calls q"
  using assms
  by (auto simp: validate_child_budget_def result_simps dest!: sum_calls_Inr i64_saturating_add_not_greater)

lemma validate_root_budgets_Inr:
  assumes "validate_root_budgets db config None bg calls = Inr u" and "int calls \<le> i64_max"
  shows "min i64_max (total_where charged r_calls (db_reservations db) + int calls)
           \<le> as_i64 (max_total_calls config)"
    and "max_total_calls config \<noteq> 0"
    and "bg \<Longrightarrow> min i64_max (total_where (\<lambda>r. r_background r \<and> charged r) r_calls (db_reservations db)
                  + int calls) \<le> as_i64 (background_calls config)"
  using assms
  by (auto simp: validate_root_budgets_def validate_background_budget_def result_simps
      dest!: sum_calls_Inr i64_saturating_add_not_greater split: if_splits)

lemma native_occupancy_nonneg: "native_occupancy runtime = Inr n \<Longrightarrow> 0 \<le> n"
  by (auto simp: native_occupancy_def result_simps split: option.splits)

lemma validate_concurrency_Inr:
  assumes "validate_concurrency db p maximum runtime = Inr u"
  shows "\<exists>n\<ge>0. i64_saturating_add (int (active_leaves db p)) n < as_i64 maximum"
  using assms native_occupancy_nonneg by (fastforce simp: validate_concurrency_def result_simps)

lemma insert_reservation_Inr:
  "insert_reservation r db = Inr db' \<longleftrightarrow>
     r_id r \<notin> r_id ` set (db_reservations db) \<and> 0 < r_calls r
     \<and> db' = db\<lparr>db_reservations := db_reservations db @ [r]\<rparr>"
  by (auto simp: insert_reservation_def result_simps row_by_None)

lemma reserve_Inr:
  assumes "reserve i p root_id calls bg now dl runtime db = Inr (res, db')"
  obtains deadline where
    "0 < calls" "int calls \<le> i64_max" "i \<notin> r_id ` set (db_reservations db)"
    "validate_deadline dl now (default_deadline_seconds (policy_config_of db)) = Inr deadline"
    "validate_child_budget db p root_id calls now deadline = Inr ()"
    "validate_root_budgets db (policy_config_of db) p bg calls = Inr ()"
    "validate_concurrency db p (max_concurrent (policy_config_of db)) runtime = Inr ()"
    "db' = db\<lparr>db_reservations :=
       db_reservations db @ [new_reservation_row i root_id p calls deadline bg now]\<rparr>"
    "res = \<lparr> res_id = i, res_root_id = root_id, res_parent_id = p, res_calls = calls,
            res_deadline_at = deadline, res_background = bg, res_state = Reserved \<rparr>"
  using assms
  by (auto simp: reserve_def result_simps Let_def insert_reservation_Inr new_reservation_row_def)

lemma reserve_child_Inr:
  assumes "reserve_child i p calls now dl runtime db = Inr (res, db')"
  obtains q where "row_by r_id p (db_reservations db) = Some q" "r_parent_id q = None"
    "reserve i (Some p) (r_root_id q) calls (r_background q) now
       (Some (case dl of Some t \<Rightarrow> t | None \<Rightarrow> r_deadline_at q)) runtime db = Inr (res, db')"
  using assms
  by (cases dl) (auto simp: reserve_child_def result_simps reservation_lookup_def reservation_of_row_def)

lemma extend_root_Inr:
  assumes "extend_root i n now db = Inr db'"
  obtains r where "root_row db i = Some r" "0 < n" "n \<le> 3" "r_state r = Reserved" "now < r_deadline_at r"
    "r_calls r = 1" "validate_completed_planning_child db i = Inr ()"
    "validate_root_budgets db (policy_config_of db) None (r_background r) n = Inr ()"
    "db' = db\<lparr>db_reservations :=
       update_where (\<lambda>r. r_id r = i) (\<lambda>r. r\<lparr>r_calls := r_calls r + int n\<rparr>) (db_reservations db)\<rparr>"
proof -
  from assms obtain r where r: "root_row db i = Some r" and n: "0 < n" "int n \<le> i64_max"
    and st: "r_state r = Reserved" "now < r_deadline_at r" "r_calls r = 1"
    and le: "\<not> i64_saturating_add (r_calls r) (as_i64 n) > 4"
    and rest: "validate_completed_planning_child db i = Inr ()"
      "validate_root_budgets db (policy_config_of db) None (r_background r) n = Inr ()"
      "db' = db\<lparr>db_reservations :=
       update_where (\<lambda>r. r_id r = i) (\<lambda>r. r\<lparr>r_calls := r_calls r + as_i64 n\<rparr>) (db_reservations db)\<rparr>"
    by (auto simp: extend_root_def result_simps Let_def validate_root_extension_def)
  from le st(3) n(2) have "n \<le> 3" by (auto simp: i64_saturating_add_def i64_max_def)
  with r n st rest that show ?thesis by simp
qed

lemma apply_transition_Inr:
  "apply_transition i state now outcome db = Inr db' \<longleftrightarrow>
     (case outcome of
        None \<Rightarrow> db' = db\<lparr>db_reservations :=
                   update_where (\<lambda>r. r_id r = i) (settle_row state now None) (db_reservations db)\<rparr>
      | Some v \<Rightarrow>
          i \<notin> rc_reservation_id ` set (db_receipts db) \<and> i \<in> r_id ` set (db_reservations db)
          \<and> db' = db\<lparr>db_reservations :=
               update_where (\<lambda>r. r_id r = i) (settle_row state now (Some v)) (db_reservations db),
             db_receipts := db_receipts db @
               [\<lparr> rc_reservation_id = i, rc_outcome = v, rc_recorded_at = now \<rparr>]\<rparr>)"
  by (cases outcome) (auto simp: apply_transition_def Let_def result_simps row_by_None
      dest: row_by_Some split: option.splits)

lemma transition_Inr:
  assumes "transition i state now outcome receipt db = Inr db'"
  obtains r where "row_by r_id i (db_reservations db) = Some r"
    "validate_delegated_root_transition db i state = Inr ()"
    "state = Dispatched \<Longrightarrow> validate_dispatch_budget db i now = Inr ()"
    "validate_transition_state state now receipt (r_state r) (r_deadline_at r) = Inr ()"
    "apply_transition i state now outcome db = Inr db'"
  using assms by (auto simp: transition_def result_simps split: if_splits)

lemma validate_delegated_root_Inr:
  "validate_delegated_root_transition db i state = Inr u \<longleftrightarrow>
     (state = Dispatched \<longrightarrow> (\<forall>r\<in>set (db_reservations db). r_parent_id r \<noteq> Some i))
     \<and> (state = Released \<longrightarrow>
          (\<forall>r\<in>set (db_reservations db). r_parent_id r = Some i \<longrightarrow> r_state r = Released))"
  by (auto simp: validate_delegated_root_transition_def Let_def count_where_zero_iff simp flip: neq0_conv)

lemma validate_completed_planning_child_Inr:
  "validate_completed_planning_child db i = Inr u \<longleftrightarrow>
     (\<forall>r\<in>set (db_reservations db). r_parent_id r = Some i \<longrightarrow> r_state r = Completed \<or> r_state r = Released)
     \<and> count_where (\<lambda>r. r_parent_id r = Some i \<and> r_state r = Completed) (db_reservations db) = 1"
  by (auto simp: validate_completed_planning_child_def Let_def count_where_zero_iff)

lemma outcome_state:
  "state_parse (outcome_as_str outcome) \<in> {Completed, Failed, Unknown}"
  "state_as_str (state_parse (outcome_as_str outcome)) = outcome_as_str outcome"
  by (cases outcome; simp add: state_parse_def)+

lemma state_parse_as_str [simp]: "state_parse (state_as_str s) = s"
  by (cases s) (simp_all add: state_parse_def)

text \<open>The three transitions in one form.\<close>

definition settled_as :: "policy_db \<Rightarrow> string \<Rightarrow> reservation_row \<Rightarrow> reservation_state \<Rightarrow> i64 \<Rightarrow> policy_db \<Rightarrow> bool" where
  "settled_as db i r state now db' \<longleftrightarrow>
     row_by r_id i (db_reservations db) = Some r
     \<and> db_config db' = db_config db \<and> db_grants db' = db_grants db \<and> db_approvals db' = db_approvals db
     \<and> (let outcome = (if state \<in> {Completed, Failed, Unknown} then Some (state_as_str state) else None) in
        db_reservations db' = update_where (\<lambda>r. r_id r = i) (settle_row state now outcome) (db_reservations db)
        \<and> db_receipts db' = db_receipts db @
            (case outcome of None \<Rightarrow> [] | Some v \<Rightarrow> [\<lparr> rc_reservation_id = i, rc_outcome = v, rc_recorded_at = now \<rparr>])
        \<and> (outcome \<noteq> None \<longrightarrow> i \<notin> rc_reservation_id ` set (db_receipts db)))"

lemma mark_dispatched_Inr:
  assumes "mark_dispatched i now db = Inr db'"
  obtains r where "settled_as db i r Dispatched now db'" "r_state r = Reserved" "now < r_deadline_at r"
    "\<forall>c\<in>set (db_reservations db). r_parent_id c \<noteq> Some i" "validate_dispatch_budget db i now = Inr ()"
  using assms unfolding mark_dispatched_def
  by (elim transition_Inr)
    (auto simp: settled_as_def Let_def apply_transition_Inr validate_delegated_root_Inr
      validate_transition_state_def split: if_splits)

lemma record_outcome_Inr:
  assumes "record_outcome i outcome now db = Inr db'"
  obtains r where "settled_as db i r (state_parse (outcome_as_str outcome)) now db'"
    "r_state r = Reserved \<or> r_state r = Dispatched"
proof -
  from assms obtain r where r: "row_by r_id i (db_reservations db) = Some r"
    and v: "validate_transition_state (state_parse (outcome_as_str outcome)) now True (r_state r) (r_deadline_at r)
              = Inr ()"
    and a: "apply_transition i (state_parse (outcome_as_str outcome)) now (Some (outcome_as_str outcome)) db
              = Inr db'"
    unfolding record_outcome_def by (elim transition_Inr)
  have "r_state r = Reserved \<or> r_state r = Dispatched"
    using v by (auto simp: validate_transition_state_def split: if_splits)
  moreover have "settled_as db i r (state_parse (outcome_as_str outcome)) now db'"
    using r a outcome_state [of outcome] by (auto simp: settled_as_def Let_def apply_transition_Inr)
  ultimately show ?thesis by (rule that [rotated])
qed

lemma release_before_dispatch_Inr:
  assumes "release_before_dispatch i now db = Inr db'"
  obtains r where "settled_as db i r Released now db'" "r_state r = Reserved"
    "\<forall>c\<in>set (db_reservations db). r_parent_id c = Some i \<longrightarrow> r_state c = Released"
  using assms unfolding release_before_dispatch_def
  by (elim transition_Inr)
    (auto simp: settled_as_def Let_def apply_transition_Inr validate_delegated_root_Inr
      validate_transition_state_def split: if_splits)

section \<open>The invariant of the store\<close>

definition row_ok :: "reservation_row \<Rightarrow> bool" where
  "row_ok r \<longleftrightarrow>
     0 < r_calls r \<and> r_calls r \<le> i64_max
     \<and> (r_state r = Dispatched \<longrightarrow> r_dispatched_at r \<noteq> None)
     \<and> (r_state r \<in> {Reserved, Released} \<longrightarrow> r_dispatched_at r = None)
     \<and> (r_completed_at r = None \<longleftrightarrow> r_state r \<in> {Reserved, Dispatched})
     \<and> r_outcome r = (if r_state r \<in> {Completed, Failed, Unknown} then Some (state_as_str (r_state r)) else None)"

text \<open>A child lies within its root, and there is only one level of delegation.\<close>

definition child_of :: "reservation_row \<Rightarrow> reservation_row \<Rightarrow> bool" where
  "child_of r q \<longleftrightarrow>
     r_parent_id r = Some (r_id q) \<and> r_parent_id q = None \<and> r_root_id r = r_id q
     \<and> r_background r = r_background q \<and> r_deadline_at r \<le> r_deadline_at q
     \<and> r_state q \<noteq> Dispatched \<and> (r_state q = Released \<longrightarrow> r_state r = Released)"

definition placed :: "reservation_row list \<Rightarrow> reservation_row \<Rightarrow> bool" where
  "placed rows r \<longleftrightarrow>
     (if r_parent_id r = None then r_root_id r = r_id r else \<exists>q\<in>set rows. child_of r q)"

definition delegated :: "string \<Rightarrow> reservation_row \<Rightarrow> bool" where
  "delegated root r \<longleftrightarrow> r_root_id r = root \<and> r_parent_id r \<noteq> None \<and> r_state r \<noteq> Released"

definition within_root :: "reservation_row list \<Rightarrow> reservation_row \<Rightarrow> bool" where
  "within_root rows q \<longleftrightarrow> min i64_max (total_where (delegated (r_id q)) r_calls rows) \<le> r_calls q"

definition receipts_match :: "reservation_row list \<Rightarrow> receipt_row list \<Rightarrow> bool" where
  "receipts_match rows receipts \<longleftrightarrow>
     unique_by rc_reservation_id receipts
     \<and> (\<forall>rc\<in>set receipts. \<exists>r\<in>set rows. r_id r = rc_reservation_id rc \<and> r_outcome r = Some (rc_outcome rc))
     \<and> (\<forall>r\<in>set rows. r_outcome r \<noteq> None \<longrightarrow> r_id r \<in> rc_reservation_id ` set receipts)"

definition config_ok :: "i64 policy_config \<Rightarrow> bool" where
  "config_ok c \<longleftrightarrow>
     0 \<le> background_calls c \<and> background_calls c \<le> i64_max
     \<and> 0 < max_concurrent c \<and> max_concurrent c \<le> i64_max
     \<and> 0 \<le> max_total_calls c \<and> max_total_calls c \<le> i64_max
     \<and> 0 < default_deadline_seconds c \<and> default_deadline_seconds c \<le> i64_max"

definition policy_inv :: "policy_db \<Rightarrow> bool" where
  "policy_inv db \<longleftrightarrow>
     (let rows = db_reservations db in
      config_ok (db_config db)
      \<and> unique_by r_id rows \<and> unique_by g_id (db_grants db) \<and> unique_by a_id (db_approvals db)
      \<and> (\<forall>r\<in>set rows. row_ok r \<and> placed rows r \<and> (r_parent_id r = None \<longrightarrow> within_root rows r))
      \<and> receipts_match rows (db_receipts db)
      \<and> (\<forall>a\<in>set (db_approvals db). a_grant_id a \<in> g_id ` set (db_grants db)))"

lemma policy_invD:
  assumes "policy_inv db"
  shows "unique_by r_id (db_reservations db)"
    and "unique_by g_id (db_grants db)"
    and "unique_by a_id (db_approvals db)"
    and "r \<in> set (db_reservations db) \<Longrightarrow> row_ok r"
    and "r \<in> set (db_reservations db) \<Longrightarrow> placed (db_reservations db) r"
    and "r \<in> set (db_reservations db) \<Longrightarrow> r_parent_id r = None \<Longrightarrow> within_root (db_reservations db) r"
    and "receipts_match (db_reservations db) (db_receipts db)"
    and "config_ok (db_config db)"
  using assms by (simp_all add: policy_inv_def Let_def)

lemma fresh_policy_inv: "policy_inv fresh_policy_db"
  by (simp add: policy_inv_def fresh_policy_db_def receipts_match_def config_ok_def i64_max_def)

lemma delegated_total_nonneg:
  "(\<And>r. r \<in> set rows \<Longrightarrow> row_ok r) \<Longrightarrow> 0 \<le> total_where p r_calls rows"
  by (rule total_where_nonneg) (fastforce simp: row_ok_def)

lemma parent_in_rows:
  assumes "policy_inv db" and "r \<in> set (db_reservations db)" and "r_parent_id r = Some p"
  shows "\<exists>q\<in>set (db_reservations db). r_id q = p \<and> child_of r q"
  using policy_invD(5) [OF assms(1,2)] assms(3) by (auto simp: placed_def child_of_def)

lemma no_child_of_fresh:
  assumes "policy_inv db" and "i \<notin> r_id ` set (db_reservations db)"
  shows "r \<in> set (db_reservations db) \<Longrightarrow> r_parent_id r \<noteq> Some i"
    and "r \<in> set (db_reservations db) \<Longrightarrow> r_parent_id r \<noteq> None \<Longrightarrow> r_root_id r \<noteq> i"
  using assms(2) parent_in_rows [OF assms(1), of r] by (fastforce simp: child_of_def)+

text \<open>Appending a new reserved row, a root or a child that fits into its root.\<close>

lemma policy_inv_append:
  assumes inv: "policy_inv db" and fresh: "r_id r \<notin> r_id ` set (db_reservations db)"
    and ok: "row_ok r" and reserved: "r_state r = Reserved"
    and place: "placed (db_reservations db) r"
    and fits: "\<And>q. q \<in> set (db_reservations db) \<Longrightarrow> child_of r q \<Longrightarrow>
      min i64_max (total_where (delegated (r_id q)) r_calls (db_reservations db) + r_calls r) \<le> r_calls q"
  shows "policy_inv (db\<lparr>db_reservations := db_reservations db @ [r]\<rparr>)"
proof -
  let ?rows = "db_reservations db"
  have no_outcome: "r_outcome r = None" using ok reserved by (simp add: row_ok_def)
  have placed: "placed (?rows @ [r]) x" if "x \<in> set ?rows \<or> x = r" for x
    using that place policy_invD(5) [OF inv, of x] by (auto simp: placed_def)
  have within_old: "within_root (?rows @ [r]) q" if q: "q \<in> set ?rows" "r_parent_id q = None" for q
  proof (cases "delegated (r_id q) r")
    case True
    then obtain q' where q': "q' \<in> set ?rows" "child_of r q'" using place by (auto simp: placed_def delegated_def)
    with True have "r_id q' = r_id q" by (simp add: child_of_def delegated_def)
    then have "q' = q" using q(1) q'(1) policy_invD(1) [OF inv] by (blast dest: unique_by_inj)
    with True fits [OF q'] show ?thesis by (simp add: within_root_def)
  next
    case False
    with policy_invD(6) [OF inv q] show ?thesis by (simp add: within_root_def)
  qed
  have within_new: "within_root (?rows @ [r]) r" if root: "r_parent_id r = None"
  proof -
    have "total_where (delegated (r_id r)) r_calls ?rows = total_where (\<lambda>_. False) r_calls ?rows"
      by (rule total_where_cong) (auto simp: delegated_def dest: no_child_of_fresh(2) [OF inv fresh])
    also have "\<dots> = 0" by (simp add: total_where_def)
    finally show ?thesis using root ok by (simp add: within_root_def delegated_def row_ok_def)
  qed
  have "receipts_match (?rows @ [r]) (db_receipts db)"
    using policy_invD(7) [OF inv] no_outcome by (auto simp: receipts_match_def)
  with inv fresh ok placed within_old within_new show ?thesis
    by (auto simp: policy_inv_def Let_def)
qed

text \<open>Changing the state or the size of one live row.\<close>

lemma policy_inv_update:
  assumes inv: "policy_inv db" and row: "row_by r_id i (db_reservations db) = Some r"
    and ids: "\<And>x. r_id (f x) = r_id x"
    and same: "r_root_id (f r) = r_root_id r" "r_parent_id (f r) = r_parent_id r"
      "r_background (f r) = r_background r" "r_deadline_at (f r) = r_deadline_at r"
    and ok: "row_ok (f r)"
    and live: "r_state r = Reserved \<or> r_state r = Dispatched"
    and calls: "r_calls r \<le> r_calls (f r)" "r_parent_id r \<noteq> None \<Longrightarrow> r_calls (f r) = r_calls r"
    and children: "\<And>c. c \<in> set (db_reservations db) \<Longrightarrow> r_parent_id c = Some i \<Longrightarrow>
      r_state (f r) \<noteq> Dispatched \<and> (r_state (f r) = Released \<longrightarrow> r_state c = Released)"
    and receipts: "receipts_match (update_where (\<lambda>r. r_id r = i) f (db_reservations db)) receipts"
  shows "policy_inv (db\<lparr>db_reservations := update_where (\<lambda>r. r_id r = i) f (db_reservations db),
                          db_receipts := receipts\<rparr>)"
proof -
  let ?rows = "db_reservations db" and ?rows' = "update_where (\<lambda>r. r_id r = i) f (db_reservations db)"
  note uniq = policy_invD(1) [OF inv]
  have r: "r \<in> set ?rows" "r_id r = i" using row_by_Some [OF row] by simp_all
  have mem: "x \<in> set ?rows' \<longleftrightarrow> x = f r \<or> (x \<in> set ?rows \<and> r_id x \<noteq> i)" for x
    by (rule update_where_by_key [OF uniq row])
  have child: "\<exists>q\<in>set ?rows'. child_of x q" if x: "x \<in> set ?rows" "r_parent_id x \<noteq> None" for x
  proof -
    obtain q where q: "q \<in> set ?rows" "child_of x q"
      using policy_invD(5) [OF inv x(1)] x(2) by (auto simp: placed_def)
    show ?thesis
    proof (cases "r_id q = i")
      case True
      with q(1) r uniq have "q = r" by (auto dest: unique_by_inj)
      with q children [OF x(1)] True have "child_of x (f r)" by (auto simp: child_of_def ids same)
      with mem show ?thesis by blast
    qed (use q mem in blast)
  qed
  have placed: "placed ?rows' x" if "x \<in> set ?rows'" for x
  proof (cases "x = f r")
    case True
    have "\<exists>q\<in>set ?rows'. child_of (f r) q" if "r_parent_id r \<noteq> None"
    proof -
      from child [OF r(1) that] obtain q where "q \<in> set ?rows'" "child_of r q" by blast
      with live same show ?thesis by (fastforce simp: child_of_def)
    qed
    with True policy_invD(5) [OF inv r(1)] show ?thesis by (auto simp: placed_def ids same)
  next
    case False
    with that mem have "x \<in> set ?rows" by blast
    with child policy_invD(5) [OF inv, of x] show ?thesis by (auto simp: placed_def)
  qed
  have total: "total_where (delegated root) r_calls ?rows' \<le> total_where (delegated root) r_calls ?rows" for root
    unfolding total_where_update_where
  proof (rule total_where_mono)
    fix x
    assume x: "x \<in> set ?rows"
    have "0 \<le> r_calls x" using policy_invD(4) [OF inv x] by (simp add: row_ok_def)
    moreover have "x = r" if "r_id x = i" using that x r uniq by (auto dest: unique_by_inj)
    ultimately show "(if delegated root (if r_id x = i then f x else x) then r_calls (if r_id x = i then f x else x) else 0)
        \<le> (if delegated root x then r_calls x else 0)"
      using live calls(2) by (auto simp: delegated_def ids same)
  qed
  have "within_root ?rows' q" if q: "q \<in> set ?rows'" "r_parent_id q = None" for q
  proof -
    obtain q0 where "q0 \<in> set ?rows" "r_id q0 = r_id q" "r_parent_id q0 = None" "r_calls q0 \<le> r_calls q"
      using q mem r ids same calls(1) by (cases "q = f r") auto
    with policy_invD(6) [OF inv, of q0] total [of "r_id q"] show ?thesis
      by (auto simp: within_root_def)
  qed
  moreover have "row_ok x" if "x \<in> set ?rows'" for x
    using that mem ok policy_invD(4) [OF inv] by auto
  ultimately show ?thesis
    using inv placed receipts by (simp add: policy_inv_def Let_def ids)
qed

lemma settle_row_simps [simp]:
  "r_id (settle_row state now outcome r) = r_id r"
  "r_root_id (settle_row state now outcome r) = r_root_id r"
  "r_parent_id (settle_row state now outcome r) = r_parent_id r"
  "r_background (settle_row state now outcome r) = r_background r"
  "r_deadline_at (settle_row state now outcome r) = r_deadline_at r"
  "r_calls (settle_row state now outcome r) = r_calls r"
  "r_state (settle_row state now outcome r) = state"
  "r_created_at (settle_row state now outcome r) = r_created_at r"
  by (simp_all add: settle_row_def)

lemma receipts_match_update:
  assumes "receipts_match rows receipts" and "unique_by r_id rows" and "row_by r_id i rows = Some r"
    and ids: "\<And>x. r_id (f x) = r_id x" and none: "r_outcome r = None"
    and out: "r_outcome (f r) = out"
  shows "receipts_match (update_where (\<lambda>r. r_id r = i) f rows)
           (receipts @ (case out of None \<Rightarrow> []
              | Some v \<Rightarrow> [\<lparr> rc_reservation_id = i, rc_outcome = v, rc_recorded_at = now \<rparr>]))"
proof -
  have mem: "x \<in> set (update_where (\<lambda>r. r_id r = i) f rows) \<longleftrightarrow> x = f r \<or> (x \<in> set rows \<and> r_id x \<noteq> i)" for x
    by (rule update_where_by_key [OF assms(2,3)])
  have r: "r \<in> set rows" "r_id r = i" using row_by_Some [OF assms(3)] by simp_all
  have new: "i \<notin> rc_reservation_id ` set receipts"
  proof
    assume "i \<in> rc_reservation_id ` set receipts"
    then obtain rc where rc: "rc \<in> set receipts" "rc_reservation_id rc = i" by auto
    then obtain x where x: "x \<in> set rows" "r_id x = i" "r_outcome x = Some (rc_outcome rc)"
      using assms(1) by (auto simp: receipts_match_def)
    then have "x = r" using r assms(2) by (auto dest: unique_by_inj)
    with x none show False by simp
  qed
  have old: "\<exists>x. (x = f r \<or> (x \<in> set rows \<and> r_id x \<noteq> i)) \<and> r_id x = rc_reservation_id rc
      \<and> r_outcome x = Some (rc_outcome rc)" if "rc \<in> set receipts" for rc
    using that assms(1) new by (fastforce simp: receipts_match_def)
  show ?thesis
    using assms(1) new old r ids out unfolding receipts_match_def Bex_def Ball_def mem
    by (cases out) auto
qed

lemma settled_inv:
  assumes inv: "policy_inv db" and settled: "settled_as db i r state now db'"
    and live: "r_state r = Reserved \<or> (r_state r = Dispatched \<and> state \<in> {Completed, Failed, Unknown})"
    and state: "state \<noteq> Reserved"
    and children: "\<And>c. c \<in> set (db_reservations db) \<Longrightarrow> r_parent_id c = Some i \<Longrightarrow>
      state \<noteq> Dispatched \<and> (state = Released \<longrightarrow> r_state c = Released)"
  shows "policy_inv db'"
proof -
  let ?out = "if state \<in> {Completed, Failed, Unknown} then Some (state_as_str state) else None"
  let ?f = "settle_row state now ?out"
  let ?receipts = "db_receipts db @ (case ?out of None \<Rightarrow> []
    | Some v \<Rightarrow> [\<lparr> rc_reservation_id = i, rc_outcome = v, rc_recorded_at = now \<rparr>])"
  have row: "row_by r_id i (db_reservations db) = Some r" using settled by (simp add: settled_as_def)
  have db': "db' = db\<lparr>db_reservations := update_where (\<lambda>r. r_id r = i) ?f (db_reservations db),
                      db_receipts := ?receipts\<rparr>"
    using settled by (simp add: settled_as_def Let_def)
  have r_ok: "row_ok r" using policy_invD(4) [OF inv] row_by_Some [OF row] by blast
  then have r_out: "r_outcome r = None" using live by (auto simp: row_ok_def)
  have out: "r_outcome (?f r) = ?out" using r_out by (simp add: settle_row_def)
  have "row_ok (?f r)"
    using r_ok live state out by (cases state) (auto simp: row_ok_def settle_row_def)
  moreover have "receipts_match (update_where (\<lambda>r. r_id r = i) ?f (db_reservations db)) ?receipts"
    by (rule receipts_match_update [where f = ?f, OF policy_invD(7,1) [OF inv] row _ r_out out]) simp
  ultimately show ?thesis
    unfolding db' using live children by (intro policy_inv_update [OF inv row]) auto
qed

lemma reserve_inv:
  assumes inv: "policy_inv db" and reserve: "reserve i p root_id calls bg now dl runtime db = Inr (res, db')"
    and p: "p = None \<Longrightarrow> root_id = i"
    and q: "\<And>x. p = Some x \<Longrightarrow> \<exists>q\<in>set (db_reservations db). r_id q = x \<and> r_parent_id q = None
              \<and> root_id = r_root_id q \<and> bg = r_background q"
  shows "policy_inv db'"
proof -
  from reserve obtain deadline where
    calls: "0 < calls" "int calls \<le> i64_max" and fresh: "i \<notin> r_id ` set (db_reservations db)"
    and budget: "validate_child_budget db p root_id calls now deadline = Inr ()"
    and db': "db' = db\<lparr>db_reservations :=
       db_reservations db @ [new_reservation_row i root_id p calls deadline bg now]\<rparr>"
    by (rule reserve_Inr)
  let ?new = "new_reservation_row i root_id p calls deadline bg now"
  have ok: "row_ok ?new" using calls by (simp add: row_ok_def new_reservation_row_def)
  have parent: "\<exists>q\<in>set (db_reservations db). child_of ?new q
      \<and> min i64_max (total_where (delegated (r_id q)) r_calls (db_reservations db) + int calls) \<le> r_calls q"
    if "p = Some x" for x
  proof -
    obtain q where q1: "q \<in> set (db_reservations db)" "r_id q = x" "r_parent_id q = None"
        "root_id = r_root_id q" "bg = r_background q" using q [OF \<open>p = Some x\<close>] by blast
    then have root: "r_root_id q = x" using policy_invD(5) [OF inv q1(1)] by (simp add: placed_def)
    from budget calls(2) obtain q2 where "root_row db x = Some q2"
      and q2: "r_state q2 = Reserved" "deadline \<le> r_deadline_at q2"
        "min i64_max (total_where (\<lambda>r. r_root_id r = root_id \<and> r_parent_id r \<noteq> None \<and> r_state r \<noteq> Released)
                    r_calls (db_reservations db) + int calls) \<le> r_calls q2"
      unfolding \<open>p = Some x\<close> by (rule validate_child_budget_Inr)
    then have "q2 = q" using q1 policy_invD(1) [OF inv] by (auto simp: root_row_iff dest: unique_by_inj)
    with q1 q2 root \<open>p = Some x\<close> show ?thesis
      unfolding delegated_def by (auto simp: child_of_def new_reservation_row_def)
  qed
  show ?thesis unfolding db'
  proof (rule policy_inv_append [OF inv])
    show "placed (db_reservations db) ?new"
      using p parent by (cases p) (auto simp: placed_def new_reservation_row_def)
    fix q
    assume q: "q \<in> set (db_reservations db)" "child_of ?new q"
    then have "p = Some (r_id q)" by (simp add: child_of_def new_reservation_row_def)
    from parent [OF this] obtain q' where q': "q' \<in> set (db_reservations db)" "child_of ?new q'"
      "min i64_max (total_where (delegated (r_id q')) r_calls (db_reservations db) + int calls) \<le> r_calls q'"
      by blast
    then have "q' = q" using q policy_invD(1) [OF inv]
      by (auto simp: child_of_def new_reservation_row_def dest: unique_by_inj)
    with q' calls show "min i64_max (total_where (delegated (r_id q)) r_calls (db_reservations db) + r_calls ?new)
        \<le> r_calls q" by (simp add: new_reservation_row_def)
  qed (use fresh ok in \<open>simp_all add: new_reservation_row_def\<close>)
qed

lemma reserve_root_inv:
  assumes "policy_inv db" and "reserve_root i calls bg now dl runtime db = Inr (res, db')"
  shows "policy_inv db'"
  using assms(2) unfolding reserve_root_def by (rule reserve_inv [OF assms(1)]) simp_all

lemma reserve_child_inv:
  assumes "policy_inv db" and "reserve_child i p calls now dl runtime db = Inr (res, db')"
  shows "policy_inv db'"
proof -
  from assms(2) obtain q where q: "row_by r_id p (db_reservations db) = Some q" "r_parent_id q = None"
    and res: "reserve i (Some p) (r_root_id q) calls (r_background q) now
       (Some (case dl of Some t \<Rightarrow> t | None \<Rightarrow> r_deadline_at q)) runtime db = Inr (res, db')"
    by (rule reserve_child_Inr)
  show ?thesis
    by (rule reserve_inv [OF assms(1) res]) (use q in \<open>auto dest: row_by_Some\<close>)
qed

lemma extend_root_inv:
  assumes inv: "policy_inv db" and "extend_root i n now db = Inr db'"
  shows "policy_inv db'"
proof -
  let ?f = "\<lambda>r. r\<lparr>r_calls := r_calls r + int n\<rparr>"
  from assms(2) obtain r where root: "root_row db i = Some r" and n: "0 < n" "n \<le> 3"
    and r: "r_state r = Reserved" "r_calls r = 1"
    and db': "db' = db\<lparr>db_reservations := update_where (\<lambda>r. r_id r = i) ?f (db_reservations db)\<rparr>"
    by (rule extend_root_Inr)
  have uniq: "unique_by r_id (db_reservations db)" by (rule policy_invD(1) [OF inv])
  have row: "row_by r_id i (db_reservations db) = Some r" and parent: "r_parent_id r = None"
    using root uniq by (auto simp: root_row_iff row_by_unique)
  have ok: "row_ok r" using policy_invD(4) [OF inv] row_by_Some [OF row] by blast
  then have none: "r_outcome r = None" using r by (simp add: row_ok_def)
  have receipts: "receipts_match (update_where (\<lambda>r. r_id r = i) ?f (db_reservations db)) (db_receipts db)"
    using receipts_match_update [OF policy_invD(7) [OF inv] uniq row _ none, of ?f None] none by simp
  have "policy_inv (db\<lparr>db_reservations := update_where (\<lambda>r. r_id r = i) ?f (db_reservations db),
                        db_receipts := db_receipts db\<rparr>)"
    by (rule policy_inv_update [OF inv row])
      (use ok r n parent receipts in \<open>simp_all add: row_ok_def i64_max_def\<close>)
  then show ?thesis by (simp add: db')
qed

lemma mark_dispatched_inv:
  assumes "policy_inv db" and "mark_dispatched i now db = Inr db'"
  shows "policy_inv db'"
  using assms(2) by (rule mark_dispatched_Inr) (rule settled_inv [OF assms(1)], auto)

lemma record_outcome_inv:
  assumes "policy_inv db" and "record_outcome i outcome now db = Inr db'"
  shows "policy_inv db'"
  using assms(2)
  by (rule record_outcome_Inr) (rule settled_inv [OF assms(1)], use outcome_state(1) [of outcome] in auto)

lemma release_before_dispatch_inv:
  assumes "policy_inv db" and "release_before_dispatch i now db = Inr db'"
  shows "policy_inv db'"
  using assms(2) by (rule release_before_dispatch_Inr) (rule settled_inv [OF assms(1)], auto)

lemma grants_and_approvals_inv:
  assumes "policy_inv db" and "db_config db' = db_config db" and "db_reservations db' = db_reservations db" "db_receipts db' = db_receipts db"
    and "unique_by g_id (db_grants db')" "unique_by a_id (db_approvals db')"
    and "\<forall>a\<in>set (db_approvals db'). a_grant_id a \<in> g_id ` set (db_grants db')"
  shows "policy_inv db'"
  using assms by (simp add: policy_inv_def Let_def)

lemma configure_Inr:
  "configure config db = Inr db' \<longleftrightarrow>
     int (background_calls config) \<le> i64_max \<and> int (max_concurrent config) \<le> i64_max
     \<and> int (max_total_calls config) \<le> i64_max \<and> int (default_deadline_seconds config) \<le> i64_max
     \<and> max_concurrent config \<noteq> 0 \<and> default_deadline_seconds config \<noteq> 0
     \<and> db' = db\<lparr>db_config :=
       \<lparr> background_calls = int (background_calls config), max_concurrent = int (max_concurrent config),
         max_total_calls = int (max_total_calls config),
         default_deadline_seconds = int (default_deadline_seconds config) \<rparr>\<rparr>"
  by (auto simp: configure_def result_simps)

lemma grant_insert_Inr:
  "grant_insert g db = Inr db' \<longleftrightarrow>
     gr_id g \<notin> g_id ` set (db_grants db)
     \<and> db' = db\<lparr>db_grants := db_grants db @
       [\<lparr> g_id = gr_id g, g_provider = gr_provider g, g_scope = gr_scope g,
          g_capability = gr_capability g, g_expires_at = gr_expires_at g,
          g_revoked_at = gr_revoked_at g, g_created_at = gr_expires_at g \<rparr>]\<rparr>"
  by (auto simp: grant_insert_def result_simps row_by_None)

lemma approve_action_Inr:
  "approve_action ap now db = Inr db' \<longleftrightarrow>
     (\<exists>g. row_by g_id (ap_grant_id ap) (db_grants db) = Some g
        \<and> grant_matches g (ap_provider ap) (ap_scope ap) (ap_capability ap) now)
     \<and> ap_id ap \<notin> a_id ` set (db_approvals db)
     \<and> db' = db\<lparr>db_approvals := db_approvals db @
       [\<lparr> a_id = ap_id ap, a_grant_id = ap_grant_id ap, a_provider = ap_provider ap,
          a_scope = ap_scope ap, a_capability = ap_capability ap, a_target = ap_target ap,
          a_payload_hash = ap_payload_hash ap, a_version = ap_version ap, a_created_at = now,
          a_used_at = None \<rparr>]\<rparr>"
  by (auto simp: approve_action_def result_simps row_by_None)

lemma validate_action_Inr:
  assumes "validate_action h i provider scope capability target payload version now db = Inr db'"
  obtains a g where "a \<in> set (db_approvals db)" "a_id a = i" "a_used_at a = None"
    "row_by g_id (a_grant_id a) (db_grants db) = Some g" "grant_matches g provider scope capability now"
    "a_provider a = provider" "a_scope a = scope" "a_capability a = capability" "a_target a = target"
    "a_version a = version" "a_payload_hash a = h payload"
    "db' = db\<lparr>db_approvals := update_where (\<lambda>a. a_id a = i \<and> a_used_at a = None)
              (\<lambda>a. a\<lparr>a_used_at := Some now\<rparr>) (db_approvals db)\<rparr>"
  using assms
  by (auto simp: validate_action_def load_unused_approval_def load_approval_grant_def
      validate_approval_match_def consume_approval_def payload_hash_def result_simps dest!: find_Some_in)

lemma revoke_grant_Inr:
  "revoke_grant i now db = Inr db' \<longleftrightarrow>
     (\<exists>g\<in>set (db_grants db). g_id g = i \<and> g_revoked_at g = None)
     \<and> db' = db\<lparr>db_grants := update_where (\<lambda>g. g_id g = i \<and> g_revoked_at g = None)
              (\<lambda>g. g\<lparr>g_revoked_at := Some now\<rparr>) (db_grants db)\<rparr>"
  by (auto simp: revoke_grant_def count_where_zero_iff)

lemma approvals_of_grants:
  "policy_inv db \<Longrightarrow> a \<in> set (db_approvals db) \<Longrightarrow> a_grant_id a \<in> g_id ` set (db_grants db)"
  by (simp add: policy_inv_def Let_def)

lemma grant_insert_inv:
  assumes inv: "policy_inv db" and "grant_insert g db = Inr db'"
  shows "policy_inv db'"
  by (rule grants_and_approvals_inv [OF inv])
    (use assms(2) approvals_of_grants [OF inv] policy_invD(2,3) [OF inv] in \<open>auto simp: grant_insert_Inr\<close>)

lemma revoke_grant_inv:
  assumes inv: "policy_inv db" and "revoke_grant i now db = Inr db'"
  shows "policy_inv db'"
proof -
  have db': "db' = db\<lparr>db_grants := update_where (\<lambda>g. g_id g = i \<and> g_revoked_at g = None)
              (\<lambda>g. g\<lparr>g_revoked_at := Some now\<rparr>) (db_grants db)\<rparr>"
    using assms(2) by (simp add: revoke_grant_Inr)
  have "g_id ` set (db_grants db') = g_id ` set (db_grants db)"
    by (simp add: db')
  with db' approvals_of_grants [OF inv] policy_invD(2,3) [OF inv] show ?thesis
    by (intro grants_and_approvals_inv [OF inv]) auto
qed

lemma approve_action_inv:
  assumes inv: "policy_inv db" and "approve_action ap now db = Inr db'"
  shows "policy_inv db'"
proof (rule grants_and_approvals_inv [OF inv])
  show "\<forall>a\<in>set (db_approvals db'). a_grant_id a \<in> g_id ` set (db_grants db')"
    using assms(2) approvals_of_grants [OF inv]
    by (auto simp: approve_action_Inr dest: row_by_Some_key)
qed (use assms(2) policy_invD(2,3) [OF inv] in \<open>auto simp: approve_action_Inr\<close>)

lemma validate_action_inv:
  assumes inv: "policy_inv db"
    and "validate_action h i provider scope cap target payload version now db = Inr db'"
  shows "policy_inv db'"
proof -
  have db': "db' = db\<lparr>db_approvals := update_where (\<lambda>a. a_id a = i \<and> a_used_at a = None)
              (\<lambda>a. a\<lparr>a_used_at := Some now\<rparr>) (db_approvals db)\<rparr>"
    using assms(2) by (rule validate_action_Inr)
  have "a_grant_id a \<in> g_id ` set (db_grants db)" if "a \<in> set (db_approvals db')" for a
    using that approvals_of_grants [OF inv] by (auto simp: db' set_update_where)
  with db' policy_invD(2,3) [OF inv] show ?thesis
    by (intro grants_and_approvals_inv [OF inv]) auto
qed

lemma configure_inv: "policy_inv db \<Longrightarrow> configure c db = Inr db' \<Longrightarrow> policy_inv db'"
  by (auto simp: configure_Inr policy_inv_def Let_def config_ok_def)

lemma policy_step_inv:
  assumes "policy_inv db" and "policy_step h op db = Inr db'"
  shows "policy_inv db'"
proof (cases op)
  case (ReserveRoot i calls bg now dl runtime)
  with assms show ?thesis by (auto simp: rbind_Inr_iff dest: reserve_root_inv)
next
  case (ReserveChild i p calls now dl runtime)
  with assms show ?thesis by (auto simp: rbind_Inr_iff dest: reserve_child_inv)
qed (use assms in \<open>auto dest: configure_inv extend_root_inv mark_dispatched_inv record_outcome_inv
    release_before_dispatch_inv grant_insert_inv revoke_grant_inv approve_action_inv validate_action_inv\<close>)

section \<open>The ledger only moves forward\<close>

definition state_ahead :: "reservation_state \<Rightarrow> reservation_state \<Rightarrow> bool" where
  "state_ahead a b \<longleftrightarrow> a = b \<or> a = Reserved \<or> (a = Dispatched \<and> b \<in> {Completed, Failed, Unknown})"

definition row_ahead :: "reservation_row \<Rightarrow> reservation_row \<Rightarrow> bool" where
  "row_ahead r r' \<longleftrightarrow>
     r_id r' = r_id r \<and> r_root_id r' = r_root_id r \<and> r_parent_id r' = r_parent_id r
     \<and> r_deadline_at r' = r_deadline_at r \<and> r_background r' = r_background r
     \<and> r_created_at r' = r_created_at r \<and> r_calls r \<le> r_calls r'
     \<and> state_ahead (r_state r) (r_state r')
     \<and> (r_state r \<noteq> Reserved \<longrightarrow> r_calls r' = r_calls r \<and> r_dispatched_at r' = r_dispatched_at r)"

definition grant_ahead :: "grant_row \<Rightarrow> grant_row \<Rightarrow> bool" where
  "grant_ahead g g' \<longleftrightarrow>
     (\<exists>t. g' = g\<lparr>g_revoked_at := t\<rparr>) \<and> (g_revoked_at g \<noteq> None \<longrightarrow> g' = g)"

definition approval_ahead :: "approval_row \<Rightarrow> approval_row \<Rightarrow> bool" where
  "approval_ahead a a' \<longleftrightarrow>
     (\<exists>t. a' = a\<lparr>a_used_at := t\<rparr>) \<and> (a_used_at a \<noteq> None \<longrightarrow> a' = a)"

definition ledger_ahead :: "policy_db \<Rightarrow> policy_db \<Rightarrow> bool" where
  "ledger_ahead db db' \<longleftrightarrow>
     persists row_ahead (db_reservations db) (db_reservations db')
     \<and> persists grant_ahead (db_grants db) (db_grants db')
     \<and> persists approval_ahead (db_approvals db) (db_approvals db')
     \<and> persists (=) (db_receipts db) (db_receipts db')"

lemma row_ahead_refl: "row_ahead r r"
  by (simp add: row_ahead_def state_ahead_def)

lemma row_ahead_trans: "transp row_ahead"
  by (rule transpI) (auto simp: row_ahead_def state_ahead_def)

lemma grant_ahead_refl: "grant_ahead g g"
  by (auto simp: grant_ahead_def intro: exI [of _ "g_revoked_at g"])

lemma grant_ahead_trans: "transp grant_ahead"
  by (rule transpI) (auto simp: grant_ahead_def)

lemma approval_ahead_refl: "approval_ahead a a"
  by (auto simp: approval_ahead_def intro: exI [of _ "a_used_at a"])

lemma approval_ahead_trans: "transp approval_ahead"
  by (rule transpI) (auto simp: approval_ahead_def)

lemmas ahead_refls = row_ahead_refl grant_ahead_refl approval_ahead_refl refl

lemma ledger_ahead_refl: "ledger_ahead db db"
  by (simp add: ledger_ahead_def persists_refl ahead_refls)

lemma ledger_ahead_trans:
  assumes "ledger_ahead a b" and "ledger_ahead b c"
  shows "ledger_ahead a c"
  using assms unfolding ledger_ahead_def
  by (auto intro: persists_trans [OF row_ahead_trans] persists_trans [OF grant_ahead_trans]
      persists_trans [OF approval_ahead_trans] persists_trans [OF transp_on_equality])

lemma settled_ahead:
  assumes "policy_inv db" and "settled_as db i r state now db'" and "state_ahead (r_state r) state"
    and "r_state r = Reserved \<or> state \<noteq> Dispatched"
  shows "ledger_ahead db db'"
proof -
  let ?f = "settle_row state now (if state \<in> {Completed, Failed, Unknown} then Some (state_as_str state) else None)"
  have "x = r" if "x \<in> set (db_reservations db)" "r_id x = i" for x
    using assms(2) that row_by_unique [OF policy_invD(1) [OF assms(1)]]
    by (auto simp: settled_as_def intro: unique_by_inj [OF policy_invD(1) [OF assms(1)]])
  then have "persists row_ahead (db_reservations db) (update_where (\<lambda>r. r_id r = i) ?f (db_reservations db))"
    using assms(3,4)
    by (intro persists_update_where row_ahead_refl) (auto simp: row_ahead_def settle_row_def)
  with assms(2) show ?thesis
    by (auto simp: settled_as_def Let_def ledger_ahead_def ahead_refls persists_refl persists_append)
qed

lemma ledger_ahead_tables:
  "db_reservations db' = db_reservations db \<Longrightarrow> db_receipts db' = db_receipts db \<Longrightarrow>
   persists grant_ahead (db_grants db) (db_grants db') \<Longrightarrow>
   persists approval_ahead (db_approvals db) (db_approvals db') \<Longrightarrow> ledger_ahead db db'"
  by (simp add: ledger_ahead_def persists_refl ahead_refls)

lemma reserve_ahead:
  "reserve i p root_id calls bg now dl runtime db = Inr (res, db') \<Longrightarrow> ledger_ahead db db'"
  by (erule reserve_Inr) (simp add: ledger_ahead_def persists_refl persists_append ahead_refls)

lemma extend_root_ahead:
  assumes inv: "policy_inv db" and "extend_root i n now db = Inr db'"
  shows "ledger_ahead db db'"
proof -
  from assms(2) obtain r where root: "root_row db i = Some r" and r: "r_state r = Reserved"
    and db': "db' = db\<lparr>db_reservations :=
      update_where (\<lambda>r. r_id r = i) (\<lambda>r. r\<lparr>r_calls := r_calls r + int n\<rparr>) (db_reservations db)\<rparr>"
    by (rule extend_root_Inr)
  have "x = r" if "x \<in> set (db_reservations db)" "r_id x = i" for x
    using root_row_Some [OF root] that unique_by_inj [OF policy_invD(1) [OF inv]] by simp
  with r have "persists row_ahead (db_reservations db)
      (update_where (\<lambda>r. r_id r = i) (\<lambda>r. r\<lparr>r_calls := r_calls r + int n\<rparr>) (db_reservations db))"
    by (intro persists_update_where row_ahead_refl) (auto simp: row_ahead_def state_ahead_def)
  then show ?thesis by (simp add: db' ledger_ahead_def persists_refl ahead_refls)
qed

lemma revoke_grant_ahead: "revoke_grant i now db = Inr db' \<Longrightarrow> ledger_ahead db db'"
  by (rule ledger_ahead_tables)
    (auto simp: revoke_grant_Inr persists_refl ahead_refls grant_ahead_def intro!: persists_update_where)

lemma validate_action_ahead:
  assumes "validate_action h i provider scope cap target payload version now db = Inr db'"
  shows "ledger_ahead db db'"
proof -
  have "db' = db\<lparr>db_approvals := update_where (\<lambda>a. a_id a = i \<and> a_used_at a = None)
              (\<lambda>a. a\<lparr>a_used_at := Some now\<rparr>) (db_approvals db)\<rparr>"
    using assms by (rule validate_action_Inr)
  then show ?thesis
    by (intro ledger_ahead_tables)
      (auto simp: persists_refl ahead_refls approval_ahead_def intro!: persists_update_where)
qed

lemma policy_step_ahead:
  assumes inv: "policy_inv db" and "policy_step h op db = Inr db'"
  shows "ledger_ahead db db'"
proof (cases op)
  case (Configure c)
  with assms(2) show ?thesis
    by (auto simp: configure_Inr intro!: ledger_ahead_tables persists_refl ahead_refls)
next
  case (ReserveRoot i calls bg now dl runtime)
  with assms(2) show ?thesis by (auto simp: rbind_Inr_iff reserve_root_def dest: reserve_ahead)
next
  case (ReserveChild i p calls now dl runtime)
  with assms(2) show ?thesis by (auto simp: rbind_Inr_iff elim!: reserve_child_Inr dest: reserve_ahead)
next
  case (ExtendRoot i n now)
  with assms show ?thesis by (auto dest: extend_root_ahead)
next
  case (MarkDispatched i now)
  with assms(2) show ?thesis
    by (auto elim!: mark_dispatched_Inr intro!: settled_ahead [OF inv] simp: state_ahead_def)
next
  case (RecordOutcome i outcome now)
  with assms(2) outcome_state(1) [of outcome] show ?thesis
    by (auto elim!: record_outcome_Inr intro!: settled_ahead [OF inv] simp: state_ahead_def)
next
  case (ReleaseBeforeDispatch i now)
  with assms(2) show ?thesis
    by (auto elim!: release_before_dispatch_Inr intro!: settled_ahead [OF inv] simp: state_ahead_def)
next
  case (InsertGrant g)
  with assms(2) show ?thesis
    by (auto simp: grant_insert_Inr persists_refl persists_append ahead_refls intro!: ledger_ahead_tables)
next
  case (ApproveAction ap now)
  with assms(2) show ?thesis
    by (auto simp: approve_action_Inr persists_refl persists_append ahead_refls intro!: ledger_ahead_tables)
qed (use assms in \<open>auto dest: revoke_grant_ahead validate_action_ahead\<close>)

text \<open>The ledger is a guarded machine that only moves forward.\<close>

interpretation ledger: monotone_machine "policy_step h" policy_inv ledger_ahead for h
proof
  fix a b c
  show "ledger_ahead a a" by (rule ledger_ahead_refl)
  show "ledger_ahead a b \<Longrightarrow> ledger_ahead b c \<Longrightarrow> ledger_ahead a c" by (rule ledger_ahead_trans)
qed (fact policy_step_inv, fact policy_step_ahead)

section \<open>The allowance\<close>

definition background_charged :: "reservation_row \<Rightarrow> bool" where
  "background_charged r \<longleftrightarrow> r_background r \<and> charged r"

definition live_leaf :: "reservation_row list \<Rightarrow> reservation_row \<Rightarrow> bool" where
  "live_leaf rows r \<longleftrightarrow>
     (r_state r = Reserved \<or> r_state r = Dispatched) \<and> \<not> (\<exists>c\<in>set rows. r_parent_id c = Some (r_id r))"

text \<open>
  What the configuration bounds: the calls of all charged roots, of the background ones, and
  the number of live leaves. Totals above the largest integer count as the largest integer,
  as the saturating sums of the checks do.
\<close>

definition within_allowance :: "policy_db \<Rightarrow> bool" where
  "within_allowance db \<longleftrightarrow>
     (let rows = db_reservations db; c = db_config db in
      min i64_max (total_where charged r_calls rows) \<le> max_total_calls c
      \<and> min i64_max (total_where background_charged r_calls rows) \<le> background_calls c
      \<and> int (count_where (live_leaf rows) rows) \<le> max_concurrent c)"

fun within_configuration :: "policy_op \<Rightarrow> bool" where
  "within_configuration (Configure _) = False"
| "within_configuration _ = True"

lemma as_i64_as_u64: "0 \<le> n \<Longrightarrow> n \<le> i64_max \<Longrightarrow> as_i64 (as_u64 n) = n"
  by simp

lemma policy_config_of_simps:
  assumes "policy_inv db"
  shows "as_i64 (max_total_calls (policy_config_of db)) = max_total_calls (db_config db)"
    and "as_i64 (background_calls (policy_config_of db)) = background_calls (db_config db)"
    and "as_i64 (max_concurrent (policy_config_of db)) = max_concurrent (db_config db)"
  using policy_invD(8) [OF assms] by (simp_all add: policy_config_of_def Let_def config_ok_def)

lemma active_leaves_live_leaf:
  "active_leaves db p
   = count_where (\<lambda>r. live_leaf (db_reservations db) r \<and> (p = None \<or> Some (r_id r) \<noteq> p)) (db_reservations db)"
  unfolding active_leaves_def by (rule count_where_cong) (auto simp: live_leaf_def)

lemma reserve_within:
  assumes inv: "policy_inv db" and within: "within_allowance db"
    and reserve: "reserve i p root_id calls bg now dl runtime db = Inr (res, db')"
  shows "within_allowance db'"
proof -
  let ?rows = "db_reservations db"
  from reserve obtain deadline where calls: "int calls \<le> i64_max" and fresh: "i \<notin> r_id ` set ?rows"
    and budgets: "validate_root_budgets db (policy_config_of db) p bg calls = Inr ()"
    and conc: "validate_concurrency db p (max_concurrent (policy_config_of db)) runtime = Inr ()"
    and db': "db' = db\<lparr>db_reservations := ?rows @ [new_reservation_row i root_id p calls deadline bg now]\<rparr>"
    by (rule reserve_Inr)
  obtain new where new_row: "new = new_reservation_row i root_id p calls deadline bg now" by simp
  have new: "r_id new = i" "r_parent_id new = p" "r_calls new = int calls" "r_background new = bg"
      "r_state new = Reserved" using calls by (simp_all add: new_row new_reservation_row_def)
  note old = within [unfolded within_allowance_def Let_def]
  have totals: "min i64_max (total_where charged r_calls (?rows @ [new])) \<le> max_total_calls (db_config db)
      \<and> min i64_max (total_where background_charged r_calls (?rows @ [new])) \<le> background_calls (db_config db)"
  proof (cases p)
    case None
    note b = validate_root_budgets_Inr [OF budgets [unfolded None] calls]
    have "charged new \<longleftrightarrow> p = None" and "background_charged new \<longleftrightarrow> bg \<and> p = None"
      by (auto simp add: charged_def background_charged_def new)
    then have "charged new" and "background_charged new \<longleftrightarrow> bg"
      using \<open>p = None\<close> by blast+
    moreover have "bg \<Longrightarrow> min i64_max (total_where background_charged r_calls ?rows + int calls)
        \<le> background_calls (db_config db)"
      using b(3) policy_config_of_simps [OF inv] unfolding background_charged_def by simp
    ultimately show ?thesis using b(1) old policy_config_of_simps [OF inv] new(3) by simp
  next
    case (Some x)
    with old show ?thesis by (simp add: charged_def background_charged_def new)
  qed
  have "count_where (live_leaf (?rows @ [new])) ?rows
      \<le> count_where (\<lambda>r. live_leaf ?rows r \<and> (p = None \<or> Some (r_id r) \<noteq> p)) ?rows"
    by (rule count_where_mono) (auto simp: live_leaf_def new)
  then have leaves: "count_where (live_leaf (?rows @ [new])) (?rows @ [new]) \<le> active_leaves db p + 1"
    by (simp add: active_leaves_live_leaf)
  obtain n where n: "0 \<le> n" and less: "i64_saturating_add (int (active_leaves db p)) n < max_concurrent (db_config db)"
    using validate_concurrency_Inr [OF conc] policy_config_of_simps [OF inv] by auto
  have "max_concurrent (db_config db) \<le> i64_max" using policy_invD(8) [OF inv] by (simp add: config_ok_def)
  with less have "int (active_leaves db p) + n < max_concurrent (db_config db)"
    by (auto simp: i64_saturating_add_def split: if_splits)
  with n leaves have "int (count_where (live_leaf (?rows @ [new])) (?rows @ [new]))
      \<le> max_concurrent (db_config db)" by linarith
  with totals show ?thesis by (simp add: db' within_allowance_def Let_def flip: new_row)
qed

text \<open>An update of one row that keeps its place in the tree changes only its own contribution.\<close>

lemma live_leaf_update:
  assumes ids: "\<And>x. r_id (f x) = r_id x" and parents: "\<And>x. r_parent_id (f x) = r_parent_id x"
    and live: "\<And>x. x \<in> set rows \<Longrightarrow> p x \<Longrightarrow> r_state (f x) \<in> {Reserved, Dispatched} \<Longrightarrow>
      r_state x \<in> {Reserved, Dispatched}"
  shows "count_where (live_leaf (update_where p f rows)) (update_where p f rows) \<le> count_where (live_leaf rows) rows"
proof -
  have "r_parent_id ` set (update_where p f rows) = r_parent_id ` set rows"
    by (simp only: image_update_where parents)
  then have "(\<exists>c\<in>set (update_where p f rows). r_parent_id c = k) \<longleftrightarrow> (\<exists>c\<in>set rows. r_parent_id c = k)" for k
    unfolding set_eq_iff image_iff by metis
  then show ?thesis
    unfolding count_where_update_where
    by (intro count_where_mono) (use live in \<open>auto simp: live_leaf_def ids split: if_splits\<close>)
qed

lemma settled_within:
  assumes inv: "policy_inv db" and within: "within_allowance db" and settled: "settled_as db i r state now db'"
    and live: "r_state r = Reserved \<or> r_state r = Dispatched"
  shows "within_allowance db'"
proof -
  let ?rows = "db_reservations db"
  let ?f = "settle_row state now (if state \<in> {Completed, Failed, Unknown} then Some (state_as_str state) else None)"
  have db': "db_reservations db' = update_where (\<lambda>r. r_id r = i) ?f ?rows" "db_config db' = db_config db"
    and row: "row_by r_id i ?rows = Some r"
    using settled by (simp_all add: settled_as_def Let_def)
  have only: "x = r" if "x \<in> set ?rows" "r_id x = i" for x
    using that row_by_Some [OF row] unique_by_inj [OF policy_invD(1) [OF inv]] by simp
  have pos: "0 \<le> r_calls x" if "x \<in> set ?rows" for x
    using policy_invD(4) [OF inv that] by (simp add: row_ok_def)
  have "total_where charged r_calls (db_reservations db') \<le> total_where charged r_calls ?rows"
    unfolding db'(1) total_where_update_where
    by (rule total_where_mono) (use only live pos in \<open>auto simp: charged_def\<close>)
  moreover have "total_where background_charged r_calls (db_reservations db')
      \<le> total_where background_charged r_calls ?rows"
    unfolding db'(1) total_where_update_where
    by (rule total_where_mono) (use only live pos in \<open>auto simp: background_charged_def charged_def\<close>)
  moreover have "count_where (live_leaf (db_reservations db')) (db_reservations db')
      \<le> count_where (live_leaf ?rows) ?rows"
    unfolding db'(1) by (rule live_leaf_update) (use only live in auto)
  ultimately show ?thesis using within db'(2) by (auto simp: within_allowance_def Let_def)
qed

lemma extend_root_within:
  assumes inv: "policy_inv db" and within: "within_allowance db" and "extend_root i n now db = Inr db'"
  shows "within_allowance db'"
proof -
  let ?rows = "db_reservations db" and ?f = "\<lambda>r. r\<lparr>r_calls := r_calls r + int n\<rparr>"
  from assms(3) obtain r where root: "root_row db i = Some r" and n: "n \<le> 3" and r: "r_state r = Reserved"
    and b: "validate_root_budgets db (policy_config_of db) None (r_background r) n = Inr ()"
    and db': "db' = db\<lparr>db_reservations := update_where (\<lambda>r. r_id r = i) ?f ?rows\<rparr>"
    by (rule extend_root_Inr)
  have parent: "r_parent_id r = None" and row: "row_by r_id i ?rows = Some r"
    using root policy_invD(1) [OF inv] by (auto simp: root_row_iff row_by_unique)
  have "int n \<le> i64_max" using n by (simp add: i64_max_def)
  note b = validate_root_budgets_Inr [OF b this]
  have sum: "total_where p r_calls (update_where (\<lambda>r. r_id r = i) ?f ?rows)
      = total_where p r_calls ?rows + (if p r then int n else 0)"
    if p: "\<And>x k. p (x\<lparr>r_calls := k\<rparr>) = p x" for p
    unfolding total_where_update_where
    by (subst total_where_one_row [OF policy_invD(1) [OF inv] row, of p r_calls])
      (use p row_by_Some [OF row] in auto)
  have "charged r" "background_charged r \<longleftrightarrow> r_background r"
    using parent r by (simp_all add: charged_def background_charged_def)
  moreover have "count_where (live_leaf (db_reservations db')) (db_reservations db')
      \<le> count_where (live_leaf ?rows) ?rows"
    unfolding db' by (simp, rule live_leaf_update) simp_all
  moreover have "r_background r \<Longrightarrow> min i64_max (total_where background_charged r_calls ?rows + int n)
      \<le> background_calls (db_config db)"
    using b(3) policy_config_of_simps [OF inv] unfolding background_charged_def by simp
  ultimately show ?thesis
    using within b(1) policy_config_of_simps [OF inv]
    by (auto simp: db' within_allowance_def Let_def sum charged_def background_charged_def)
qed

lemma within_allowance_tables:
  "within_allowance db \<Longrightarrow> db_reservations db' = db_reservations db \<Longrightarrow> db_config db' = db_config db \<Longrightarrow>
   within_allowance db'"
  by (simp add: within_allowance_def)

lemma policy_step_within:
  assumes inv: "policy_inv db" and within: "within_allowance db"
    and step: "policy_step h op db = Inr db'" and op: "within_configuration op"
  shows "within_allowance db'"
proof (cases op)
  case (ReserveRoot i calls bg now dl runtime)
  with step op show ?thesis
    by (auto simp: rbind_Inr_iff reserve_root_def intro: reserve_within [OF inv within])
next
  case (ReserveChild i p calls now dl runtime)
  with step op show ?thesis
    by (auto simp: rbind_Inr_iff elim!: reserve_child_Inr intro: reserve_within [OF inv within])
next
  case (ExtendRoot i n now)
  with step show ?thesis by (auto intro: extend_root_within [OF inv within])
next
  case (MarkDispatched i now)
  with step show ?thesis by (auto elim!: mark_dispatched_Inr intro: settled_within [OF inv within])
next
  case (RecordOutcome i outcome now)
  with step show ?thesis by (auto elim!: record_outcome_Inr intro: settled_within [OF inv within])
next
  case (ReleaseBeforeDispatch i now)
  with step show ?thesis by (auto elim!: release_before_dispatch_Inr intro: settled_within [OF inv within])
next
  case (ValidateAction i provider scope cap target payload version now)
  with step show ?thesis
    by (auto elim!: validate_action_Inr intro: within_allowance_tables [OF within])
qed (use step op in \<open>auto simp: grant_insert_Inr revoke_grant_Inr approve_action_Inr
    intro: within_allowance_tables [OF within]\<close>)

section \<open>Properties\<close>

text \<open>A ledger with an allowance, one planning root, its completed planner and an approved action.\<close>

definition allowance_example :: "u64 policy_config" where
  "allowance_example =
     \<lparr> background_calls = 2, max_concurrent = 3, max_total_calls = 5, default_deadline_seconds = 60 \<rparr>"

definition ledger_example :: policy_db where
  "ledger_example = run (policy_step id)
     [Configure allowance_example,
      ReserveRoot ''r'' 1 False 0 (Some 100) (Inr None), ReserveChild ''c'' ''r'' 1 1 None (Inr None),
      MarkDispatched ''c'' 2, RecordOutcome ''c'' Delivery_completed 3,
      ExtendRoot ''r'' 2 4, ReserveChild ''d'' ''r'' 1 4 None (Inr None),
      InsertGrant \<lparr> gr_id = ''g'', gr_provider = ''codex'', gr_scope = ''w'', gr_capability = ''send'',
                    gr_expires_at = 50, gr_revoked_at = None \<rparr>,
      ApproveAction \<lparr> ap_id = ''a'', ap_grant_id = ''g'', ap_provider = ''codex'', ap_scope = ''w'',
                      ap_capability = ''send'', ap_target = ''t'', ap_payload_hash = ''p'',
                      ap_version = ''1'' \<rparr> 5]
     fresh_policy_db"

definition planned_example :: policy_db where
  "planned_example = run (policy_step id)
     [Configure allowance_example,
      ReserveRoot ''r'' 1 False 0 (Some 100) (Inr None), ReserveChild ''c'' ''r'' 1 1 None (Inr None),
      MarkDispatched ''c'' 2, RecordOutcome ''c'' Delivery_completed 3] fresh_policy_db"

lemma ledger_example_inv: "policy_inv ledger_example" "policy_inv planned_example"
  unfolding ledger_example_def planned_example_def by (rule ledger.run_inv [OF fresh_policy_inv])+

lemma row_after:
  assumes "policy_inv db" and "row_by r_id i (db_reservations db) = Some r"
  obtains r' where "row_by r_id i (db_reservations (run (policy_step h) ops db)) = Some r'" "row_ahead r r'"
proof -
  have "ledger_ahead db (run (policy_step h) ops db)" by (rule ledger.run_ahead [OF assms(1)])
  then obtain r' where r': "r' \<in> set (db_reservations (run (policy_step h) ops db))" "row_ahead r r'"
    using row_by_Some [OF assms(2)] by (auto simp: ledger_ahead_def persists_def)
  then have "r_id r' = i" using row_by_Some [OF assms(2)] by (simp add: row_ahead_def)
  with r' policy_invD(1) [OF ledger.run_inv [OF assms(1)]] that show ?thesis
    by (metis row_by_unique)
qed

text \<open>
  (C19) Whatever operations the ledger is given, in whatever order and however many of them are
  refused, its store is consistent: identifiers are unique, every delegated reservation lies
  within a root that is itself not delegated (same background flag, deadline not later), the
  unreleased reservations of a root's children never add up to more than the root's own
  reservation, a root with children is never dispatched and never released before they are, a
  receipt exists exactly for the settled reservations and states their outcome, and every
  approval refers to an existing grant.
\<close>

theorem ledger_always_consistent: "policy_inv (run (policy_step h) ops fresh_policy_db)"
  by (rule ledger.run_inv [OF fresh_policy_inv])

text \<open>
  (C1) As long as the configuration is left alone, no sequence of operations gets past it: the
  calls of all roots that are not released stay within the total allowance, those of background
  roots within the background allowance, and the reservations that are live and not delegated
  within the concurrency limit.
\<close>

theorem allowance_never_exceeded:
  assumes "policy_inv db" and "within_allowance db" and "\<forall>op\<in>set ops. within_configuration op"
  shows "within_allowance (run (policy_step h) ops db)"
proof -
  have "policy_inv (run (policy_step h) ops db) \<and> within_allowance (run (policy_step h) ops db)"
    by (rule run_keeps [where P = "\<lambda>s. policy_inv s \<and> within_allowance s"])
      (use assms policy_step_inv policy_step_within in blast)+
  then show ?thesis by simp
qed

theorem allowance_never_exceeded_witness:
  "within_allowance (run (policy_step id) [ReserveRoot ''s'' 9 False 6 None (Inr None),
     ReserveRoot ''t'' 2 True 6 None (Inr None)] ledger_example)"
  by (rule allowance_never_exceeded [OF ledger_example_inv(1)]) code_simp+

text \<open>
  (C18) A dispatched call is never refunded and never sent again: once a reservation has been
  dispatched or settled, every later sequence of operations leaves it in the ledger, with the
  same number of calls, still charged if it was, in the same final state if it had one; it
  cannot be released or dispatched again, and no retry is allowed.
\<close>

theorem dispatched_never_refunded:
  assumes "policy_inv db" and "row_by r_id i (db_reservations db) = Some r"
    and "r_state r \<in> {Dispatched, Completed, Failed, Unknown}"
  shows "let db' = run (policy_step h) ops db in
    (\<exists>r'. row_by r_id i (db_reservations db') = Some r' \<and> r_calls r' = r_calls r
       \<and> r_state r' \<in> {Dispatched, Completed, Failed, Unknown}
       \<and> (r_state r = Dispatched \<or> r_state r' = r_state r) \<and> charged r' = charged r)
    \<and> \<not> is_ok (release_before_dispatch i now db') \<and> \<not> is_ok (mark_dispatched i now db')
    \<and> \<not> retry_allowed db' i"
proof -
  let ?db' = "run (policy_step h) ops db"
  obtain r' where r': "row_by r_id i (db_reservations ?db') = Some r'" "row_ahead r r'"
    by (rule row_after [OF assms(1,2)])
  have state: "r_state r' \<in> {Dispatched, Completed, Failed, Unknown}"
    and same: "r_state r = Dispatched \<or> r_state r' = r_state r"
    and calls: "r_calls r' = r_calls r" and charge: "charged r' = charged r"
    using r'(2) assms(3) by (auto simp: row_ahead_def state_ahead_def charged_def)
  have "\<not> is_ok (release_before_dispatch i now ?db')" and "\<not> is_ok (mark_dispatched i now ?db')"
    using state r'(1)
    by (auto simp: is_ok_iff settled_as_def elim!: release_before_dispatch_Inr mark_dispatched_Inr)
  moreover have "\<not> retry_allowed ?db' i"
    using state r'(1) by (auto simp: retry_allowed_def reservation_lookup_def reservation_of_row_def)
  ultimately show ?thesis using r'(1) state same calls charge by (simp add: Let_def)
qed

theorem dispatched_never_refunded_witness:
  "\<not> retry_allowed (run (policy_step id) [RecordOutcome ''c'' Delivery_failed 7] ledger_example) ''c''"
proof -
  have "map_option r_state (row_by r_id ''c'' (db_reservations ledger_example)) = Some Completed"
    by code_simp
  then obtain r where "row_by r_id ''c'' (db_reservations ledger_example) = Some r"
    "r_state r \<in> {Dispatched, Completed, Failed, Unknown}" by auto
  from dispatched_never_refunded [OF ledger_example_inv(1) this, of id] show ?thesis
    unfolding Let_def by blast
qed

text \<open>
  A receipt is accepted exactly for a known reservation that is reserved or dispatched;
  in particular the unique key and the foreign key of the receipts table never refuse one, so
  the outcome of a delivered call is never lost to a database error.
\<close>

theorem record_outcome_ok_iff:
  assumes "policy_inv db"
  shows "is_ok (record_outcome i outcome now db) \<longleftrightarrow>
    (\<exists>r. row_by r_id i (db_reservations db) = Some r \<and> r_state r \<in> {Reserved, Dispatched})"
proof
  assume "is_ok (record_outcome i outcome now db)"
  then show "\<exists>r. row_by r_id i (db_reservations db) = Some r \<and> r_state r \<in> {Reserved, Dispatched}"
    by (auto simp: is_ok_iff settled_as_def elim!: record_outcome_Inr)
next
  assume "\<exists>r. row_by r_id i (db_reservations db) = Some r \<and> r_state r \<in> {Reserved, Dispatched}"
  then obtain r where r: "row_by r_id i (db_reservations db) = Some r"
    and live: "r_state r = Reserved \<or> r_state r = Dispatched" by auto
  note mem = row_by_Some [OF r]
  have none: "r_outcome r = None" using policy_invD(4) [OF assms, of r] mem live by (auto simp: row_ok_def)
  have "rc_reservation_id rc \<noteq> i" if "rc \<in> set (db_receipts db)" for rc
  proof
    assume "rc_reservation_id rc = i"
    with that policy_invD(7) [OF assms] obtain x
      where x: "x \<in> set (db_reservations db)" "r_id x = i" "r_outcome x \<noteq> None"
      by (fastforce simp: receipts_match_def)
    then have "x = r" using mem by (auto intro: unique_by_inj [OF policy_invD(1) [OF assms]])
    with x none show False by simp
  qed
  then have "row_by rc_reservation_id i (db_receipts db) = None" by (auto simp: row_by_None)
  moreover have "validate_transition_state (state_parse (outcome_as_str outcome)) now True (r_state r)
      (r_deadline_at r) = Inr ()"
    using live outcome_state(1) [of outcome] by (auto simp: validate_transition_state_def)
  moreover have "validate_delegated_root_transition db i (state_parse (outcome_as_str outcome)) = Inr ()"
    using outcome_state(1) [of outcome] by (auto simp: validate_delegated_root_Inr)
  moreover have "state_parse (outcome_as_str outcome) \<noteq> Dispatched"
    using outcome_state(1) [of outcome] by auto
  ultimately show "is_ok (record_outcome i outcome now db)"
    using r by (simp add: record_outcome_def transition_def apply_transition_def Let_def)
qed

theorem record_outcome_ok_iff_witness:
  "is_ok (record_outcome ''d'' Delivery_unknown 9 ledger_example)
   \<and> \<not> is_ok (record_outcome ''c'' Delivery_unknown 9 ledger_example)"
proof -
  have "map_option r_state (row_by r_id ''c'' (db_reservations ledger_example)) = Some Completed"
    by code_simp
  moreover have "map_option r_state (row_by r_id ''d'' (db_reservations ledger_example)) = Some Reserved"
    by code_simp
  ultimately show ?thesis
    by (elim map_option_eq_Some [THEN iffD1, elim_format] exE conjE)
      (simp add: record_outcome_ok_iff [OF ledger_example_inv(1)])
qed

text \<open>
  What \<open>mark_dispatched\<close> accepts, the revalidation right before the external send accepts
  too when nothing happened in between: the reservation is dispatched, its deadline and that of
  its root have not passed, and the background allowance still covers it.
\<close>

lemma dispatched_background_unchanged:
  assumes inv: "policy_inv db" and settled: "settled_as db i r Dispatched now db'" and "r_state r = Reserved"
    and "validate_dispatched_background_budget db i = Inr ()"
  shows "validate_dispatched_background_budget db' i = Inr ()"
proof -
  let ?f = "settle_row Dispatched now None"
  have db': "db_reservations db' = update_where (\<lambda>r. r_id r = i) ?f (db_reservations db)"
    "db_config db' = db_config db" and row: "row_by r_id i (db_reservations db) = Some r"
    using settled by (simp_all add: settled_as_def Let_def)
  have "x = r" if "x \<in> set (db_reservations db)" "r_id x = i" for x
    using that row_by_Some [OF row] unique_by_inj [OF policy_invD(1) [OF inv]] by simp
  then have "sum_calls (\<lambda>r. r_background r \<and> charged r) db' = sum_calls (\<lambda>r. r_background r \<and> charged r) db"
    using assms(3) unfolding sum_calls_def db'(1)
    by (subst sum_where_update_where) (auto simp: charged_def)
  with assms(4) row show ?thesis
    by (simp add: validate_dispatched_background_budget_def db' row_by_update_where row_by_Some [OF row] split: if_splits)
qed

theorem dispatch_then_revalidate:
  assumes inv: "policy_inv db" and "mark_dispatched i now db = Inr db'"
  shows "validate_actual_dispatch db' i now = Inr ()"
proof -
  from assms(2) obtain r where settled: "settled_as db i r Dispatched now db'" and r: "r_state r = Reserved"
    "now < r_deadline_at r" and children: "\<forall>c\<in>set (db_reservations db). r_parent_id c \<noteq> Some i"
    and budget: "validate_dispatch_budget db i now = Inr ()"
    by (rule mark_dispatched_Inr)
  have db': "db_reservations db' = update_where (\<lambda>r. r_id r = i) (settle_row Dispatched now None) (db_reservations db)"
    and row: "row_by r_id i (db_reservations db) = Some r"
    using settled by (simp_all add: settled_as_def Let_def)
  have mem: "r \<in> set (db_reservations db)" "r_id r = i" using row_by_Some [OF row] by simp_all
  have child: "reservation_lookup db' i = Some (reservation_of_row (settle_row Dispatched now None r))"
    by (simp add: reservation_lookup_def db' row_by_update_where row mem)
  have parent: "\<exists>q. reservation_lookup db' p = Some (reservation_of_row q) \<and> r_state q = Reserved
      \<and> now < r_deadline_at q" if p: "r_parent_id r = Some p" for p
  proof -
    obtain q where q: "q \<in> set (db_reservations db)" "r_id q = p" using parent_in_rows [OF inv mem(1) p] by blast
    have "p \<noteq> i" using children mem p by auto
    moreover have "row_by r_id p (db_reservations db) = Some q"
      using q policy_invD(1) [OF inv] by (simp add: row_by_unique)
    moreover have "r_state q = Reserved \<and> now < r_deadline_at q"
    proof -
      have "\<forall>x\<in>set (db_reservations db). \<forall>y\<in>set (db_reservations db).
          Some (r_id y) = r_parent_id x \<and> r_id x = i \<longrightarrow> r_state y = Reserved \<and> \<not> r_deadline_at y \<le> now"
        using budget
        by (simp add: validate_dispatch_budget_def validate_parent_active_def rbind_Inr_iff count_where_zero_iff Let_def)
      with q mem p show ?thesis by (metis not_le)
    qed
    ultimately show ?thesis using q by (auto simp: reservation_lookup_def db' row_by_update_where)
  qed
  have "validate_dispatched_background_budget db i = Inr ()"
    using budget by (auto simp: validate_dispatch_budget_def result_simps)
  then have "validate_dispatched_background_budget db' i = Inr ()"
    by (rule dispatched_background_unchanged [OF inv settled r(1)])
  with child parent r(2) show ?thesis
    by (cases "r_parent_id r") (auto simp: validate_actual_dispatch_def reservation_of_row_def result_simps)
qed

theorem dispatch_then_revalidate_witness:
  "\<exists>db'. mark_dispatched ''d'' 8 ledger_example = Inr db' \<and> validate_actual_dispatch db' ''d'' 8 = Inr ()"
proof -
  have "is_ok (mark_dispatched ''d'' 8 ledger_example)" by code_simp
  then obtain db' where "mark_dispatched ''d'' 8 ledger_example = Inr db'" by (auto simp: is_ok_iff)
  with dispatch_then_revalidate [OF ledger_example_inv(1)] show ?thesis by blast
qed

text \<open>
  (C33) An approval authorises one action: after it was accepted once, no later sequence of
  operations makes any action pass under it again, whatever its target, payload or version.
\<close>

theorem approval_used_once:
  assumes inv: "policy_inv db"
    and used: "validate_action h i provider scope cap target payload version now db = Inr db'"
  shows "validate_action h' i provider' scope' cap' target' payload' version' now' (run (policy_step h'') ops db')
         = Inl (UnknownApproval i)"
proof -
  let ?db = "run (policy_step h'') ops db'"
  have inv': "policy_inv db'" by (rule validate_action_inv [OF inv used])
  from used obtain a where a: "a \<in> set (db_approvals db)" "a_id a = i" "a_used_at a = None"
    and db': "db' = db\<lparr>db_approvals := update_where (\<lambda>a. a_id a = i \<and> a_used_at a = None)
              (\<lambda>a. a\<lparr>a_used_at := Some now\<rparr>) (db_approvals db)\<rparr>"
    by (rule validate_action_Inr)
  then have "a\<lparr>a_used_at := Some now\<rparr> \<in> set (db_approvals db')"
    by (auto simp: set_update_where intro!: rev_image_eqI [of a])
  moreover have "ledger_ahead db' ?db" by (rule ledger.run_ahead [OF inv'])
  ultimately have mem: "a\<lparr>a_used_at := Some now\<rparr> \<in> set (db_approvals ?db)"
    by (fastforce simp: ledger_ahead_def persists_def approval_ahead_def)
  have "x = a\<lparr>a_used_at := Some now\<rparr>" if "x \<in> set (db_approvals ?db)" "a_id x = i" for x
    using that mem a(2) unique_by_inj [OF policy_invD(3) [OF ledger.run_inv [OF inv']]] by fastforce
  then have "find (\<lambda>a. a_id a = i \<and> a_used_at a = None) (db_approvals ?db) = None"
    unfolding find_None_iff by fastforce
  then show ?thesis by (simp add: validate_action_def load_unused_approval_def)
qed

theorem approval_used_once_witness:
  "\<exists>db'. validate_action id ''a'' ''codex'' ''w'' ''send'' ''t'' ''p'' ''1'' 6 ledger_example = Inr db'
     \<and> validate_action id ''a'' ''codex'' ''w'' ''send'' ''t'' ''p'' ''1'' 7 db' = Inl (UnknownApproval ''a'')"
proof -
  have "is_ok (validate_action id ''a'' ''codex'' ''w'' ''send'' ''t'' ''p'' ''1'' 6 ledger_example)" by code_simp
  then obtain db' where "validate_action id ''a'' ''codex'' ''w'' ''send'' ''t'' ''p'' ''1'' 6 ledger_example = Inr db'"
    by (auto simp: is_ok_iff)
  with approval_used_once [OF ledger_example_inv(1) this, of id _ _ _ _ _ _ _ id "[]"] show ?thesis by auto
qed

text \<open>
  (C8) Revoking a grant is final: from then on it validates nothing, no new approval can be
  made under it, and approvals made before no longer let an action pass.
\<close>

theorem revoked_grant_is_dead:
  assumes inv: "policy_inv db" and revoked: "revoke_grant i now db = Inr db'"
  shows "let db'' = run (policy_step h) ops db' in
    (\<exists>e. validate_grant db'' i provider scope cap t = Inl (Denied e))
    \<and> (ap_grant_id ap = i \<longrightarrow> \<not> is_ok (approve_action ap t db''))
    \<and> (\<forall>a\<in>set (db_approvals db''). a_grant_id a = i \<longrightarrow>
         \<not> is_ok (validate_action h (a_id a) provider scope cap target payload version t db''))"
proof -
  let ?db = "run (policy_step h) ops db'"
  have inv': "policy_inv db'" by (rule revoke_grant_inv [OF inv revoked])
  note inv'' = ledger.run_inv [OF inv', of h ops]
  obtain g where g: "g \<in> set (db_grants db)" "g_id g = i" "g_revoked_at g = None"
    and db': "db' = db\<lparr>db_grants := update_where (\<lambda>g. g_id g = i \<and> g_revoked_at g = None)
              (\<lambda>g. g\<lparr>g_revoked_at := Some now\<rparr>) (db_grants db)\<rparr>"
    using revoked by (auto simp: revoke_grant_Inr)
  then have "g\<lparr>g_revoked_at := Some now\<rparr> \<in> set (db_grants db')"
    by (auto simp: set_update_where intro!: rev_image_eqI [of g])
  moreover have "ledger_ahead db' ?db" by (rule ledger.run_ahead [OF inv'])
  ultimately have "g\<lparr>g_revoked_at := Some now\<rparr> \<in> set (db_grants ?db)"
    by (fastforce simp: ledger_ahead_def persists_def grant_ahead_def)
  then have row: "row_by g_id i (db_grants ?db) = Some (g\<lparr>g_revoked_at := Some now\<rparr>)"
    using g(2) policy_invD(2) [OF inv''] by (simp add: row_by_unique)
  have no_match: "\<not> grant_matches (g\<lparr>g_revoked_at := Some now\<rparr>) p s c x" for p s c x
    by (simp add: grant_matches_def)
  have "\<not> is_ok (validate_action h (a_id a) provider scope cap target payload version t ?db)"
    if a: "a \<in> set (db_approvals ?db)" "a_grant_id a = i" for a
  proof
    assume "is_ok (validate_action h (a_id a) provider scope cap target payload version t ?db)"
    then obtain b g' where b: "b \<in> set (db_approvals ?db)" "a_id b = a_id a"
      "row_by g_id (a_grant_id b) (db_grants ?db) = Some g'" "grant_matches g' provider scope cap t"
      by (auto simp: is_ok_iff elim!: validate_action_Inr)
    then have "b = a" using a(1) unique_by_inj [OF policy_invD(3) [OF inv'']] by blast
    with b a(2) row no_match show False by simp
  qed
  with row no_match show ?thesis
    by (auto simp: Let_def validate_grant_def is_ok_iff approve_action_Inr)
qed

theorem revoked_grant_is_dead_witness:
  "\<exists>db' e. revoke_grant ''g'' 6 ledger_example = Inr db'
     \<and> validate_grant db' ''g'' ''codex'' ''w'' ''send'' 7 = Inl (Denied e)"
proof -
  have "is_ok (revoke_grant ''g'' 6 ledger_example)" by code_simp
  then obtain db' where db': "revoke_grant ''g'' 6 ledger_example = Inr db'" by (auto simp: is_ok_iff)
  with revoked_grant_is_dead [OF ledger_example_inv(1) db', of id "[]"] show ?thesis
    by (auto simp: Let_def)
qed

text \<open>
  A planning root is extended at most once, by at most three calls, so it never holds more
  than four; whatever happens in between, a second extension is refused.
\<close>

theorem extended_at_most_once:
  assumes inv: "policy_inv db" and extended: "extend_root i n now db = Inr db'"
  shows "n \<le> 3 \<and> \<not> is_ok (extend_root i m later (run (policy_step h) ops db'))"
proof
  from extended obtain r where root: "root_row db i = Some r" and n: "0 < n" "n \<le> 3" and one: "r_calls r = 1"
    and db': "db' = db\<lparr>db_reservations :=
       update_where (\<lambda>r. r_id r = i) (\<lambda>r. r\<lparr>r_calls := r_calls r + int n\<rparr>) (db_reservations db)\<rparr>"
    by (rule extend_root_Inr)
  show "n \<le> 3" by (rule n(2))
  have inv': "policy_inv db'" by (rule extend_root_inv [OF inv extended])
  have row: "row_by r_id i (db_reservations db) = Some r"
    using root policy_invD(1) [OF inv] by (simp add: root_row_iff row_by_unique)
  then have "row_by r_id i (db_reservations db') = Some (r\<lparr>r_calls := r_calls r + int n\<rparr>)"
    using row_by_Some [OF row] by (simp add: db' row_by_update_where)
  then obtain r' where r': "row_by r_id i (db_reservations (run (policy_step h) ops db')) = Some r'"
    and "row_ahead (r\<lparr>r_calls := r_calls r + int n\<rparr>) r'"
    by (rule row_after [OF inv'])
  then have "1 < r_calls r'" using n one by (simp add: row_ahead_def)
  moreover have "r'' = r'" if "root_row (run (policy_step h) ops db') i = Some r''" for r''
    using that r' policy_invD(1) [OF ledger.run_inv [OF inv', of h ops]]
    by (auto simp: root_row_iff row_by_unique intro: unique_by_inj)
  ultimately show "\<not> is_ok (extend_root i m later (run (policy_step h) ops db'))"
    by (auto simp: is_ok_iff elim!: extend_root_Inr)
qed

theorem extended_at_most_once_witness:
  "\<exists>db'. extend_root ''r'' 3 4 planned_example = Inr db' \<and> \<not> is_ok (extend_root ''r'' 1 5 db')"
proof -
  have "is_ok (extend_root ''r'' 3 4 planned_example)" by code_simp
  then obtain db' where db': "extend_root ''r'' 3 4 planned_example = Inr db'" by (auto simp: is_ok_iff)
  with extended_at_most_once [OF ledger_example_inv(2) db', of 1 5 id "[]"] show ?thesis by auto
qed

text \<open>
  The expiry of a permission is exact: zero hours give the standing permission, any other
  duration the instant that many hours later, strictly below the standing one; everything else,
  including every overflow, is refused.
\<close>

theorem permission_expiry_exact:
  "permission_expiry now hours = Inr t \<longleftrightarrow>
     0 \<le> now \<and> (if hours = 0 then t = until_revoked
                 else t = now + 3600 * int hours \<and> t < until_revoked)"
proof -
  have "(if now < 0 then False else if hours = 0 then t = until_revoked
     else Option.bind (Option.bind (Option.bind (u64_checked_mul hours 3600) i64_try_from) (i64_checked_add now))
            (\<lambda>expiry. if expiry < until_revoked then Some expiry else None) = Some t)
    \<longleftrightarrow> 0 \<le> now \<and> (if hours = 0 then t = until_revoked else t = now + 3600 * int hours \<and> t < until_revoked)"
    by (auto simp: u64_checked_mul_def i64_try_from_def i64_checked_add_def until_revoked_def in_i64_def
        i64_max_def i64_min_def u64_max_def bind_eq_Some_conv split: if_splits)
  then show ?thesis by (auto simp: permission_expiry_def result_simps)
qed

end
