(* ===== verification/Once.thy ===== *)
theory Once
  imports Prelude
begin

text \<open>
  The abstract specification the durable ledgers of the assistant implement: work under a key is
  admitted once, sent at most once and only after it was admitted, and settled work stays settled.
  A ledger shows that it implements the specification by a simulation, the contract
  \<open>once_refinement\<close>; what the specification guarantees then holds of the ledger.
\<close>

datatype phase = Fresh | Queued | Sent | Settled

datatype 'k once_event = Admit 'k | Send 'k | Settle "'k set" | Stutter

fun once_step :: "'k once_event \<Rightarrow> ('k \<Rightarrow> phase) \<Rightarrow> ('k \<Rightarrow> phase) option" where
  "once_step (Admit k) m = (if m k = Fresh then Some (m(k := Queued)) else None)"
| "once_step (Send k) m = (if m k = Queued then Some (m(k := Sent)) else None)"
| "once_step (Settle ks) m =
     Some (\<lambda>k. if k \<in> ks \<and> (m k = Queued \<or> m k = Sent) then Settled else m k)"
| "once_step Stutter m = Some m"

fun once_run :: "'k once_event list \<Rightarrow> ('k \<Rightarrow> phase) \<Rightarrow> ('k \<Rightarrow> phase) option" where
  "once_run [] m = Some m"
| "once_run (e # es) m = Option.bind (once_step e m) (once_run es)"

fun spent_phase :: "phase \<Rightarrow> bool" where
  "spent_phase Fresh = False"
| "spent_phase Queued = False"
| "spent_phase Sent = True"
| "spent_phase Settled = True"

lemma spent_phase_stays: "once_step e m = Some m' \<Longrightarrow> spent_phase (m k) \<Longrightarrow> spent_phase (m' k)"
  by (cases e) (auto split: if_splits)

lemma no_send_when_spent: "once_run es m = Some m' \<Longrightarrow> spent_phase (m k) \<Longrightarrow> Send k \<notin> set es"
proof (induction es arbitrary: m)
  case (Cons e es)
  then obtain m1 where step: "once_step e m = Some m1" and run: "once_run es m1 = Some m'"
    by (auto simp: bind_eq_Some_conv)
  have "e \<noteq> Send k" using step Cons.prems(2) by (cases e) (auto split: if_splits)
  with Cons.IH [OF run spent_phase_stays [OF step Cons.prems(2)]] show ?case by simp
qed simp

lemma send_at_most_once: "once_run es m = Some m' \<Longrightarrow> count_where (\<lambda>e. e = Send k) es \<le> 1"
proof (induction es arbitrary: m)
  case (Cons e es)
  then obtain m1 where step: "once_step e m = Some m1" and run: "once_run es m1 = Some m'"
    by (auto simp: bind_eq_Some_conv)
  show ?case
  proof (cases "e = Send k")
    case True
    with step have "spent_phase (m1 k)" by (auto split: if_splits)
    from no_send_when_spent [OF run this] have "count_where (\<lambda>e. e = Send k) es = 0"
      by (auto simp: count_where_zero_iff)
    then show ?thesis by simp
  next
    case False
    with Cons.IH [OF run] show ?thesis by simp
  qed
qed simp

lemma send_after_admit:
  "once_run es m = Some m' \<Longrightarrow> m k = Fresh \<Longrightarrow> Send k \<in> set es \<Longrightarrow>
   \<exists>a b. es = a @ Admit k # b \<and> Send k \<notin> set a \<and> Send k \<in> set b"
proof (induction es arbitrary: m)
  case (Cons e es)
  then obtain m1 where step: "once_step e m = Some m1" and run: "once_run es m1 = Some m'"
    by (auto simp: bind_eq_Some_conv)
  have e: "e \<noteq> Send k" using step Cons.prems(2) by (auto split: if_splits)
  with Cons.prems(3) have sent: "Send k \<in> set es" by simp
  show ?case
  proof (cases "e = Admit k")
    case True
    with sent have "e # es = [] @ Admit k # es \<and> Send k \<notin> set [] \<and> Send k \<in> set es" by simp
    then show ?thesis by blast
  next
    case False
    with step e Cons.prems(2) have "m1 k = Fresh" by (cases e) (auto split: if_splits)
    from Cons.IH [OF run this sent] obtain a b where
      "es = a @ Admit k # b \<and> Send k \<notin> set a \<and> Send k \<in> set b" by blast
    with e have "e # es = (e # a) @ Admit k # b \<and> Send k \<notin> set (e # a) \<and> Send k \<in> set b" by simp
    then show ?thesis by blast
  qed
qed simp

text \<open>The events of the accepted operations of a run.\<close>

fun run_events :: "('op \<Rightarrow> 's \<Rightarrow> 'e + 's) \<Rightarrow> ('op \<Rightarrow> 's \<Rightarrow> 'k once_event) \<Rightarrow> 'op list \<Rightarrow> 's \<Rightarrow> 'k once_event list" where
  "run_events step event [] s = []"
| "run_events step event (op # ops) s =
     (case step op s of
        Inl _ \<Rightarrow> run_events step event ops s
      | Inr s' \<Rightarrow> event op s # run_events step event ops s')"

locale once_refinement = guarded_machine step inv
  for step :: "'op \<Rightarrow> 's \<Rightarrow> 'e + 's" and inv :: "'s \<Rightarrow> bool" +
  fixes abstraction :: "'s \<Rightarrow> 'k \<Rightarrow> phase" and event :: "'op \<Rightarrow> 's \<Rightarrow> 'k once_event"
  assumes simulation: "inv s \<Longrightarrow> step op s = Inr s' \<Longrightarrow>
    once_step (event op s) (abstraction s) = Some (abstraction s')"
begin

lemma run_refines:
  "inv s \<Longrightarrow> once_run (run_events step event ops s) (abstraction s) = Some (abstraction (run step ops s))"
proof (induction ops arbitrary: s)
  case (Cons op ops)
  show ?case
  proof (cases "step op s")
    case (Inr s')
    with Cons simulation [OF Cons.prems Inr] step_inv [OF Cons.prems Inr] show ?thesis by simp
  qed (use Cons in simp)
qed simp

lemma sent_at_most_once: "inv s \<Longrightarrow> count_where (\<lambda>e. e = Send k) (run_events step event ops s) \<le> 1"
  by (rule send_at_most_once [OF run_refines])

lemma sent_only_if_admitted:
  "inv s \<Longrightarrow> abstraction s k = Fresh \<Longrightarrow> Send k \<in> set (run_events step event ops s) \<Longrightarrow>
   \<exists>a b. run_events step event ops s = a @ Admit k # b \<and> Send k \<notin> set a \<and> Send k \<in> set b"
  by (rule send_after_admit [OF run_refines])

end

end
