(* ===== verification/Policy_Once.thy ===== *)
theory Policy_Once
  imports Policy_Ledger Once
begin

text \<open>
  The reservation ledger implements the same at-most-once specification as the background roots:
  a reservation is admitted once, dispatched at most once and only after it was admitted, and is
  settled for good by a receipt or a release.
\<close>

fun phase_of_state :: "reservation_state \<Rightarrow> phase" where
  "phase_of_state Reserved = Queued"
| "phase_of_state Dispatched = Sent"
| "phase_of_state Completed = Settled"
| "phase_of_state Failed = Settled"
| "phase_of_state Unknown = Settled"
| "phase_of_state Released = Settled"

definition ledger_phase :: "policy_db \<Rightarrow> string \<Rightarrow> phase" where
  "ledger_phase db i =
     (case row_by r_id i (db_reservations db) of None \<Rightarrow> Fresh | Some r \<Rightarrow> phase_of_state (r_state r))"

fun policy_event :: "policy_op \<Rightarrow> policy_db \<Rightarrow> string once_event" where
  "policy_event (ReserveRoot i _ _ _ _ _) _ = Admit i"
| "policy_event (ReserveChild i _ _ _ _ _) _ = Admit i"
| "policy_event (MarkDispatched i _) _ = Send i"
| "policy_event (RecordOutcome i _ _) _ = Settle {i}"
| "policy_event (ReleaseBeforeDispatch i _) _ = Settle {i}"
| "policy_event _ _ = Stutter"

lemma ledger_phase_same:
  "db_reservations db' = db_reservations db \<Longrightarrow> ledger_phase db' = ledger_phase db"
  by (simp add: ledger_phase_def fun_eq_iff)

lemma ledger_phase_reserve:
  assumes "reserve i p root_id calls bg now dl runtime db = Inr (res, db')"
  shows "once_step (Admit i) (ledger_phase db) = Some (ledger_phase db')"
  using assms
proof (rule reserve_Inr)
  fix deadline
  assume fresh: "i \<notin> r_id ` set (db_reservations db)"
    and db': "db' = db\<lparr>db_reservations := db_reservations db @ [new_reservation_row i root_id p calls deadline bg now]\<rparr>"
  from fresh have "row_by r_id i (db_reservations db) = None" by (simp add: row_by_None)
  then show ?thesis
    by (auto simp: ledger_phase_def db' fun_eq_iff row_by_append row_by_Cons new_reservation_row_def
        split: option.splits)
qed

lemma ledger_phase_settled:
  assumes "settled_as db i r state now db'"
  shows "ledger_phase db i = phase_of_state (r_state r)"
    and "ledger_phase db' = (ledger_phase db)(i := phase_of_state state)"
proof -
  from assms have row: "row_by r_id i (db_reservations db) = Some r" by (simp add: settled_as_def)
  then show "ledger_phase db i = phase_of_state (r_state r)" by (simp add: ledger_phase_def)
  show "ledger_phase db' = (ledger_phase db)(i := phase_of_state state)"
    by (rule ext) (use assms row_by_Some [OF row] in
      \<open>auto simp: settled_as_def Let_def ledger_phase_def row_by_update_where split: option.splits dest: row_by_Some\<close>)
qed

lemma policy_simulation:
  assumes "policy_step h op db = Inr db'"
  shows "once_step (policy_event op db) (ledger_phase db) = Some (ledger_phase db')"
proof (cases op)
  case (ReserveRoot i calls bg now dl runtime)
  with assms show ?thesis by (auto simp: rbind_Inr_iff reserve_root_def dest: ledger_phase_reserve simp del: once_step.simps)
next
  case (ReserveChild i p calls now dl runtime)
  with assms obtain res where "reserve_child i p calls now dl runtime db = Inr (res, db')" by (auto simp: rbind_Inr_iff)
  then have "once_step (Admit i) (ledger_phase db) = Some (ledger_phase db')"
    by (rule reserve_child_Inr) (rule ledger_phase_reserve)
  with ReserveChild show ?thesis by simp
next
  case (ExtendRoot i n now)
  with assms have "extend_root i n now db = Inr db'" by simp
  then show ?thesis
    by (rule extend_root_Inr)
      (use ExtendRoot in \<open>auto simp: ledger_phase_def fun_eq_iff row_by_update_where split: option.splits\<close>)
next
  case (MarkDispatched i now)
  with assms have "mark_dispatched i now db = Inr db'" by simp
  then obtain r where "settled_as db i r Dispatched now db'" "r_state r = Reserved" by (rule mark_dispatched_Inr)
  with ledger_phase_settled [OF this(1)] MarkDispatched show ?thesis by simp
next
  case (RecordOutcome i outcome now)
  with assms have "record_outcome i outcome now db = Inr db'" by simp
  then obtain r where s: "settled_as db i r (state_parse (outcome_as_str outcome)) now db'"
    and r: "r_state r = Reserved \<or> r_state r = Dispatched" by (rule record_outcome_Inr)
  have "phase_of_state (state_parse (outcome_as_str outcome)) = Settled"
    using outcome_state(1) [of outcome] by auto
  with ledger_phase_settled [OF s] r RecordOutcome show ?thesis by (auto simp: fun_eq_iff)
next
  case (ReleaseBeforeDispatch i now)
  with assms have "release_before_dispatch i now db = Inr db'" by simp
  then obtain r where "settled_as db i r Released now db'" "r_state r = Reserved" by (rule release_before_dispatch_Inr)
  with ledger_phase_settled [OF this(1)] ReleaseBeforeDispatch show ?thesis by (auto simp: fun_eq_iff)
next
  case (Configure c)
  with assms show ?thesis by (auto simp: configure_Inr intro!: ledger_phase_same [symmetric])
next
  case (InsertGrant g)
  with assms show ?thesis by (auto simp: grant_insert_Inr intro!: ledger_phase_same [symmetric])
next
  case (RevokeGrant i now)
  with assms show ?thesis by (auto simp: revoke_grant_Inr intro!: ledger_phase_same [symmetric])
next
  case (ApproveAction ap now)
  with assms show ?thesis by (auto simp: approve_action_Inr intro!: ledger_phase_same [symmetric])
next
  case (ValidateAction i provider scope cap target payload version now)
  with assms have "validate_action h i provider scope cap target payload version now db = Inr db'" by simp
  then show ?thesis by (rule validate_action_Inr) (use ValidateAction in \<open>auto intro!: ledger_phase_same [symmetric]\<close>)
qed

interpretation ledger_once: once_refinement "policy_step h" policy_inv ledger_phase policy_event for h
  by unfold_locales (rule policy_simulation)

text \<open>
  (C16) The ledger implements the at-most-once specification: whatever operations arrive on a new
  store, in any order, the accepted ones are a run of the abstract machine, on which a dispatch
  is possible only after the admission and only once; in particular every reservation is
  dispatched at most once.
\<close>

theorem ledger_refines_once:
  "let es = run_events (policy_step h) policy_event ops fresh_policy_db in
     once_run es (\<lambda>_. Fresh) = Some (ledger_phase (run (policy_step h) ops fresh_policy_db))
     \<and> count_where (\<lambda>e. e = Send i) es \<le> 1"
proof -
  have fresh: "ledger_phase fresh_policy_db = (\<lambda>_. Fresh)"
    by (simp add: ledger_phase_def fresh_policy_db_def fun_eq_iff)
  then show ?thesis
    using ledger_once.run_refines [OF fresh_policy_inv, of h ops]
      ledger_once.sent_at_most_once [OF fresh_policy_inv, of i h ops]
    unfolding Let_def by fastforce
qed

end
