(* ===== verification/Memory.thy ===== *)
theory Memory
  imports Prelude "HOL-Library.List_Lexorder" "HOL-Library.Char_ord"
begin

text \<open>
  The assistant's durable memory (src/assistant_memory.rs, with the recognizer of presentation
  preferences of src/assistant_preferences.rs). The tables are lists of rows, the key/value table
  \<open>memory_meta\<close> a partial function, and the triggers that number every change of a record are part
  of the insertion and the deletion. Code of other packages is an argument, gathered in
  \<open>memory_env\<close>: UUID parsing, the digest of a record, the grammar of preferences, JSON
  provenance, the Unicode class of letters and digits, full-text ranking, and sizes of serialized
  records. A freshly generated identifier is an argument of the operation that uses it.
\<close>

section \<open>Scopes\<close>

record scope =
  sc_node :: "string option"
  sc_project :: "string option"
  sc_provider :: "string option"
  sc_conversation :: "string option"

datatype memory_failure = Unique_id | Sequence_full | No_row | Publication_failed

datatype memory_error =
  Memory_database memory_failure | Invalid string | Worker_cannot_assume_user_authority
  | Not_found string | Serialization string

definition permits :: "scope \<Rightarrow> scope \<Rightarrow> bool" where
  "permits source destination \<longleftrightarrow>
     list_all (\<lambda>(s, t). s = None \<or> s = t)
       [(sc_node source, sc_node destination), (sc_project source, sc_project destination),
        (sc_provider source, sc_provider destination),
        (sc_conversation source, sc_conversation destination)]"

definition scope_validate :: "scope \<Rightarrow> memory_error + unit" where
  "scope_validate s =
     ensure (\<not> list_ex (\<lambda>v. case v of None \<Rightarrow> False | Some w \<Rightarrow> w = [] \<or> length w > 512)
               [sc_node s, sc_project s, sc_provider s, sc_conversation s])
       (Invalid ''scope values must be 1..512 bytes'')"

section \<open>Records\<close>

datatype origin = Human | Worker | System

datatype record_kind = Draft | User_instruction | Inferred_preference | Proposal | Decision | Finding
  | Briefing | Grasp_interaction | Correction

datatype decision_state = Proposed | Accepted | Rejected | Deferred | Unresolved | Superseded

record new_record =
  n_kind :: record_kind
  n_origin :: origin
  n_scope :: scope
  n_body :: string
  n_provenance :: string
  n_timestamp :: i64
  n_supersedes :: "string option"
  n_dependencies :: "string list"
  n_decision_state :: "decision_state option"
  n_protected_policy :: bool

record memory_record =
  m_id :: string
  m_profile_id :: string
  m_kind :: record_kind
  m_origin :: origin
  m_scope :: scope
  m_body :: string
  m_provenance :: string
  m_timestamp :: i64
  m_supersedes :: "string option"
  m_dependencies :: "string list"
  m_decision_state :: "decision_state option"
  m_protected_policy :: bool

record memory_receipt =
  mr_request_id :: string
  mr_payload_hash :: string
  mr_record_id :: "string option"
  mr_timestamp :: i64

record revision_row =
  v_revision :: u64
  v_record_id :: string

record memory_db =
  md_profile :: string
  md_meta :: "string \<Rightarrow> string option"
  md_has_node :: bool
  md_records :: "memory_record list"
  md_receipts :: "memory_receipt list"
  md_revisions :: "revision_row list"
  md_sequence :: u64

record record_page =
  rp_records :: "memory_record list"
  rp_limited :: bool
  rp_byte_limited :: bool

record revision_record =
  rr_revision :: u64
  rr_record :: memory_record

record revision_page =
  vp_records :: "revision_record list"
  vp_through :: u64
  vp_next :: u64
  vp_has_more :: bool

record record_lineage =
  l_id :: string
  l_kind :: record_kind
  l_origin :: origin
  l_scope :: scope
  l_supersedes :: "string option"
  l_provenance :: string

record memory_env =
  me_uuid_ok :: "string \<Rightarrow> bool"
  me_digest :: "new_record \<Rightarrow> string"
  me_grammar :: "string \<Rightarrow> (string \<times> string option) option"
  me_annotate :: "string \<Rightarrow> nat \<Rightarrow> memory_error + string"
  me_preference_key :: "string \<Rightarrow> string option"
  me_alphanumeric :: "string \<Rightarrow> bool"
  me_bm25 :: "string \<Rightarrow> memory_record \<Rightarrow> int option"
  me_json_size :: "memory_record \<Rightarrow> nat"

definition schema_version :: string where "schema_version = ''3''"
definition memory_search_index_version :: string where "memory_search_index_version = ''1''"
definition max_record_bytes :: nat where "max_record_bytes = 262144"
definition max_retrieval :: nat where "max_retrieval = 256"
definition max_search_query_bytes :: nat where "max_search_query_bytes = 4096"
definition max_search_terms :: nat where "max_search_terms = 32"
definition max_search_term_bytes :: nat where "max_search_term_bytes = 128"

section \<open>Opening the store\<close>

definition fresh_memory_db :: "memory_db" where
  "fresh_memory_db =
     \<lparr> md_profile = '''', md_meta = (\<lambda>_. None), md_has_node = False, md_records = [], md_receipts = [],
       md_revisions = [], md_sequence = 0 \<rparr>"

definition validate_schema_version :: "string option \<Rightarrow> memory_error + unit" where
  "validate_schema_version version =
     ensure (\<not> (case version of None \<Rightarrow> False
                | Some v \<Rightarrow> v \<noteq> ''1'' \<and> v \<noteq> ''2'' \<and> v \<noteq> schema_version))
       (Invalid ''unsupported assistant memory schema'')"

definition update_schema_version :: "string option \<Rightarrow> memory_db \<Rightarrow> memory_db" where
  "update_schema_version version db =
     (if version = Some ''1'' \<or> version = Some ''2''
      then db\<lparr>md_meta := (md_meta db)(''schema_version'' \<mapsto> schema_version)\<rparr> else db)"

definition load_or_create_profile ::
  "memory_env \<Rightarrow> string \<Rightarrow> memory_db \<Rightarrow> memory_error + string \<times> memory_db" where
  "load_or_create_profile env fresh db =
     (case md_meta db ''profile_id'' of
        Some value \<Rightarrow>
          rbind (ensure (me_uuid_ok env value) (Invalid ''stored profile identity is invalid'')) (\<lambda>_.
          Inr (value, db))
      | None \<Rightarrow>
          rbind (ensure (md_meta db ''schema_version'' = None) (Memory_database Unique_id)) (\<lambda>_.
          Inr (fresh, db\<lparr>md_meta := (md_meta db)(''schema_version'' \<mapsto> schema_version,
                                                 ''profile_id'' \<mapsto> fresh)\<rparr>)))"

definition migrate_memory_schema ::
  "memory_env \<Rightarrow> string \<Rightarrow> memory_db \<Rightarrow> memory_error + string \<times> memory_db" where
  "migrate_memory_schema env fresh db =
     (let version = md_meta db ''schema_version'' in
      rbind (validate_schema_version version) (\<lambda>_.
      load_or_create_profile env fresh (update_schema_version version (db\<lparr>md_has_node := True\<rparr>))))"

definition backfill_search_index_if_needed :: "memory_db \<Rightarrow> memory_db" where
  "backfill_search_index_if_needed db =
     (if md_meta db ''memory_search_index_version'' = Some memory_search_index_version then db
      else db\<lparr>md_meta := (md_meta db)(''memory_search_index_version'' \<mapsto> memory_search_index_version)\<rparr>)"

text \<open>The trigger after an insertion: the next number of the sequence.\<close>

definition add_revision :: "string \<Rightarrow> memory_db \<Rightarrow> memory_error + memory_db" where
  "add_revision i db =
     rbind (ensure (int (md_sequence db) < i64_max) (Memory_database Sequence_full)) (\<lambda>_.
     rbind (ensure (row_by v_record_id i (md_revisions db) = None) (Memory_database Unique_id)) (\<lambda>_.
     Inr (db\<lparr>md_sequence := md_sequence db + 1,
            md_revisions := md_revisions db @ [\<lparr> v_revision = md_sequence db + 1, v_record_id = i \<rparr>]\<rparr>)))"

fun number_records :: "memory_record list \<Rightarrow> memory_db \<Rightarrow> memory_error + memory_db" where
  "number_records [] db = Inr db"
| "number_records (r # rs) db =
     (if row_by v_record_id (m_id r) (md_revisions db) \<noteq> None then number_records rs db
      else rbind (add_revision (m_id r) db) (number_records rs))"

definition ensure_memory_revisions :: "memory_db \<Rightarrow> memory_error + memory_db" where
  "ensure_memory_revisions db =
     (if md_meta db ''memory_revision_index_version'' = Some ''1'' then Inr db
      else rbind (number_records (md_records db) db) (\<lambda>db'.
           Inr (db'\<lparr>md_meta := (md_meta db')(''memory_revision_index_version'' \<mapsto> ''1'')\<rparr>)))"

definition ensure_memory_search_index :: "memory_db \<Rightarrow> memory_error + memory_db" where
  "ensure_memory_search_index db = ensure_memory_revisions (backfill_search_index_if_needed db)"

definition memory_open :: "memory_env \<Rightarrow> string \<Rightarrow> memory_db \<Rightarrow> memory_error + memory_db" where
  "memory_open env fresh db =
     rbind (migrate_memory_schema env fresh db) (\<lambda>(profile, db').
     rbind (ensure_memory_search_index db') (\<lambda>db''. Inr (db''\<lparr>md_profile := profile\<rparr>)))"

definition memory_open_existing ::
  "memory_env \<Rightarrow> string \<Rightarrow> string \<Rightarrow> memory_db \<Rightarrow> memory_error + memory_db" where
  "memory_open_existing env expected_profile fresh db =
     rbind (ok_or (md_meta db ''profile_id'') (Memory_database No_row)) (\<lambda>actual.
     rbind (ensure (actual = expected_profile)
              (Invalid ''assistant profile changed; existing-authority attachment refused'')) (\<lambda>_.
     memory_open env fresh db))"

section \<open>Appending\<close>

definition validate_request_id :: "string \<Rightarrow> memory_error + unit" where
  "validate_request_id request_id =
     ensure (\<not> (request_id = [] \<or> length request_id > 256)) (Invalid ''invalid request id'')"

definition validate_input :: "memory_env \<Rightarrow> new_record \<Rightarrow> memory_error + unit" where
  "validate_input env input =
     rbind (scope_validate (n_scope input)) (\<lambda>_.
     rbind (ensure (\<not> (length (n_dependencies input) > 64
                       \<or> list_ex (\<lambda>i. \<not> me_uuid_ok env i) (n_dependencies input)
                       \<or> (case n_supersedes input of None \<Rightarrow> False | Some i \<Rightarrow> \<not> me_uuid_ok env i)))
              (Invalid ''bounded exact dependencies required'')) (\<lambda>_.
     rbind (ensure (\<not> (length (n_body input) > max_record_bytes \<or> length (n_provenance input) > max_record_bytes))
              (Invalid ''record exceeds bounded size'')) (\<lambda>_.
     rbind (ensure (\<not> (n_origin input \<noteq> Human
                       \<and> (n_kind input = User_instruction \<or> n_protected_policy input
                          \<or> n_supersedes input \<noteq> None
                          \<or> (case n_decision_state input of None \<Rightarrow> False | Some st \<Rightarrow> st \<noteq> Proposed))))
              Worker_cannot_assume_user_authority) (\<lambda>_.
     ensure (\<not> (n_kind input = Correction \<and> n_dependencies input = []))
       (Invalid ''corrections must name a dependency'')))))"

definition load_scope :: "memory_db \<Rightarrow> string \<Rightarrow> scope option" where
  "load_scope db i = map_option m_scope (row_by m_id i (md_records db))"

fun validate_dependencies :: "memory_db \<Rightarrow> scope \<Rightarrow> string list \<Rightarrow> memory_error + unit" where
  "validate_dependencies db s [] = Inr ()"
| "validate_dependencies db s (d # ds) =
     rbind (ok_or (load_scope db d) (Not_found d)) (\<lambda>existing.
     rbind (ensure (permits existing s) (Invalid ''derived records must retain every dependency scope'')) (\<lambda>_.
     validate_dependencies db s ds))"

definition validate_dependency_scopes :: "memory_db \<Rightarrow> new_record \<Rightarrow> memory_error + unit" where
  "validate_dependency_scopes db input =
     rbind (validate_dependencies db (n_scope input) (n_dependencies input)) (\<lambda>_.
     case n_supersedes input of
       None \<Rightarrow> Inr ()
     | Some parent \<Rightarrow>
         rbind (ok_or (load_scope db parent) (Not_found parent)) (\<lambda>existing.
         ensure (existing = n_scope input) (Invalid ''supersession cannot broaden scope'')))"

definition record_of_input :: "string \<Rightarrow> string \<Rightarrow> new_record \<Rightarrow> memory_record" where
  "record_of_input profile i input =
     \<lparr> m_id = i, m_profile_id = profile, m_kind = n_kind input, m_origin = n_origin input,
       m_scope = n_scope input, m_body = n_body input, m_provenance = n_provenance input,
       m_timestamp = n_timestamp input, m_supersedes = n_supersedes input,
       m_dependencies = n_dependencies input, m_decision_state = n_decision_state input,
       m_protected_policy = n_protected_policy input \<rparr>"

definition insert_record :: "string \<Rightarrow> new_record \<Rightarrow> memory_db \<Rightarrow> memory_error + memory_record \<times> memory_db" where
  "insert_record i input db =
     (let r = record_of_input (md_profile db) i input in
      rbind (ensure (row_by m_id i (md_records db) = None) (Memory_database Unique_id)) (\<lambda>_.
      rbind (add_revision i (db\<lparr>md_records := md_records db @ [r]\<rparr>)) (\<lambda>db'.
      Inr (r, db'))))"

definition append_in_tx ::
  "memory_env \<Rightarrow> string \<Rightarrow> new_record \<Rightarrow> memory_db \<Rightarrow> memory_error + memory_record \<times> memory_db" where
  "append_in_tx env i input db =
     rbind (validate_input env input) (\<lambda>_.
     rbind (validate_dependency_scopes db input) (\<lambda>_.
     insert_record i input db))"

definition memory_append ::
  "memory_env \<Rightarrow> string \<Rightarrow> new_record \<Rightarrow> memory_db \<Rightarrow> memory_error + memory_record \<times> memory_db" where
  "memory_append env i input db = append_in_tx env i input db"

definition append_user ::
  "memory_env \<Rightarrow> string \<Rightarrow> new_record \<Rightarrow> memory_db \<Rightarrow> memory_error + memory_record \<times> memory_db" where
  "append_user env i input db =
     rbind (ensure (n_origin input = Human) Worker_cannot_assume_user_authority) (\<lambda>_.
     memory_append env i input db)"

section \<open>The forgetting epoch\<close>

text \<open>The epoch is text in \<open>memory_meta\<close>; a store that was never forgotten from has none.\<close>

definition stored_epoch :: "string \<Rightarrow> memory_db \<Rightarrow> memory_error + u64" where
  "stored_epoch message db =
     (case md_meta db ''forget_epoch'' of
        None \<Rightarrow> Inr 0
      | Some v \<Rightarrow> ok_or (parse_usize v) (Invalid message))"

definition forget_epoch :: "memory_db \<Rightarrow> memory_error + u64" where
  "forget_epoch db = stored_epoch ''invalid forgetting generation'' db"

definition read_forget_epoch :: "memory_db \<Rightarrow> memory_error + u64" where
  "read_forget_epoch db = stored_epoch ''invalid forget generation'' db"

definition next_forget_epoch :: "memory_db \<Rightarrow> memory_error + u64" where
  "next_forget_epoch db =
     rbind (read_forget_epoch db) (\<lambda>epoch.
     ok_or (u64_checked_add epoch 1) (Invalid ''exhausted forget generation''))"

definition append_at_epoch ::
  "memory_env \<Rightarrow> string \<Rightarrow> new_record \<Rightarrow> u64 \<Rightarrow> memory_db \<Rightarrow> memory_error + memory_record \<times> memory_db" where
  "append_at_epoch env i input expected_epoch db =
     rbind (stored_epoch ''invalid forget epoch'' db) (\<lambda>epoch.
     rbind (ensure (epoch = expected_epoch)
              (Invalid ''memory changed through forgetting; worker output discarded'')) (\<lambda>_.
     append_in_tx env i input db))"

definition publish_at_epoch :: "u64 \<Rightarrow> memory_failure + 'a \<Rightarrow> memory_db \<Rightarrow> memory_error + 'a" where
  "publish_at_epoch expected_epoch publish db =
     rbind (stored_epoch ''invalid forget epoch'' db) (\<lambda>epoch.
     rbind (ensure (epoch = expected_epoch)
              (Invalid ''memory changed through forgetting; derived publication discarded'')) (\<lambda>_.
     case publish of Inl e \<Rightarrow> Inl (Memory_database e) | Inr x \<Rightarrow> Inr x))"

definition dispatch_at_epoch_checked :: "u64 \<Rightarrow> (memory_db \<Rightarrow> 'a) \<Rightarrow> memory_db \<Rightarrow> memory_error + 'a" where
  "dispatch_at_epoch_checked expected_epoch dispatch db =
     rbind (stored_epoch ''invalid forget epoch'' db) (\<lambda>epoch.
     rbind (ensure (epoch = expected_epoch)
              (Invalid ''memory was forgotten before provider dispatch; context requires recovery'')) (\<lambda>_.
     Inr (dispatch db)))"

definition dispatch_at_epoch :: "u64 \<Rightarrow> (unit \<Rightarrow> 'a) \<Rightarrow> memory_db \<Rightarrow> memory_error + 'a" where
  "dispatch_at_epoch expected_epoch dispatch db =
     dispatch_at_epoch_checked expected_epoch (\<lambda>_. dispatch ()) db"

section \<open>Idempotent requests\<close>

definition existing_idempotent_record ::
  "string \<Rightarrow> string \<Rightarrow> memory_db \<Rightarrow> memory_error + memory_record option" where
  "existing_idempotent_record request_id hash db =
     (case row_by mr_request_id request_id (md_receipts db) of
        None \<Rightarrow> Inr None
      | Some receipt \<Rightarrow>
          rbind (ensure (mr_payload_hash receipt = hash)
                   (Invalid ''request id was reused with different content'')) (\<lambda>_.
          rbind (ok_or (mr_record_id receipt) (Not_found request_id)) (\<lambda>i.
          rbind (ok_or (find (\<lambda>r. m_id r = i \<and> m_profile_id r = md_profile db) (md_records db))
                   (Not_found request_id)) (\<lambda>r.
          Inr (Some r)))))"

definition add_receipt ::
  "string \<Rightarrow> string \<Rightarrow> memory_record \<Rightarrow> memory_db \<Rightarrow> memory_error + memory_record \<times> memory_db" where
  "add_receipt request_id hash r db =
     rbind (ensure (row_by mr_request_id request_id (md_receipts db) = None) (Memory_database Unique_id)) (\<lambda>_.
     Inr (r, db\<lparr>md_receipts := md_receipts db @
       [\<lparr> mr_request_id = request_id, mr_payload_hash = hash, mr_record_id = Some (m_id r),
          mr_timestamp = m_timestamp r \<rparr>]\<rparr>))"

definition superseded :: "memory_db \<Rightarrow> string option \<Rightarrow> bool" where
  "superseded db i \<longleftrightarrow>
     i \<noteq> None \<and> list_ex (\<lambda>r. m_profile_id r = md_profile db \<and> m_supersedes r = i) (md_records db)"

definition append_idempotent_checked ::
  "memory_env \<Rightarrow> string \<Rightarrow> string \<Rightarrow> new_record \<Rightarrow> bool \<Rightarrow> memory_db
   \<Rightarrow> memory_error + memory_record \<times> memory_db" where
  "append_idempotent_checked env fresh request_id input require_active_predecessor db =
     rbind (validate_request_id request_id) (\<lambda>_.
     rbind (validate_input env input) (\<lambda>_.
     let hash = me_digest env input in
     rbind (existing_idempotent_record request_id hash db) (\<lambda>existing.
     case existing of
       Some r \<Rightarrow> Inr (r, db)
     | None \<Rightarrow>
         rbind (ensure (\<not> (require_active_predecessor \<and> superseded db (n_supersedes input)))
                  (Invalid ''record has a newer revision; inspect and use its current record ID'')) (\<lambda>_.
         rbind (append_in_tx env fresh input db) (\<lambda>(r, db').
         add_receipt request_id hash r db')))))"

definition append_idempotent ::
  "memory_env \<Rightarrow> string \<Rightarrow> string \<Rightarrow> new_record \<Rightarrow> memory_db \<Rightarrow> memory_error + memory_record \<times> memory_db" where
  "append_idempotent env fresh request_id input db =
     append_idempotent_checked env fresh request_id input False db"

definition append_revision_idempotent ::
  "memory_env \<Rightarrow> string \<Rightarrow> string \<Rightarrow> new_record \<Rightarrow> memory_db \<Rightarrow> memory_error + memory_record \<times> memory_db" where
  "append_revision_idempotent env fresh request_id input db =
     rbind (ensure (n_origin input = Human) Worker_cannot_assume_user_authority) (\<lambda>_.
     rbind (ensure (case n_supersedes input of None \<Rightarrow> False | Some i \<Rightarrow> i \<in> set (n_dependencies input))
              (Invalid ''revision must retain its exact predecessor as a dependency'')) (\<lambda>_.
     append_idempotent_checked env fresh request_id input True db))"

section \<open>Presentation preferences\<close>

record briefing_preference =
  bp_bullets :: nat

definition preference_key :: string where "preference_key = ''daily_brief_bullets_v1''"

definition parse_count :: "string \<Rightarrow> nat option" where
  "parse_count text =
     (let t = to_ascii_lowercase text in
      if t = ''one'' then Some 1 else if t = ''two'' then Some 2 else if t = ''three'' then Some 3
      else if t = ''four'' then Some 4 else if t = ''five'' then Some 5 else if t = ''six'' then Some 6
      else if t = ''seven'' then Some 7 else if t = ''eight'' then Some 8 else if t = ''nine'' then Some 9
      else if t = ''ten'' then Some 10
      else (case parse_usize text of None \<Rightarrow> None | Some n \<Rightarrow> if n \<le> 255 then Some n else None))"

definition trim :: "string \<Rightarrow> string" where
  "trim s = concat (rev (dropWhile blank (rev (dropWhile blank (utf8_chars s)))))"

definition recognize :: "(string \<Rightarrow> (string \<times> string option) option) \<Rightarrow> string \<Rightarrow> briefing_preference option" where
  "recognize grammar raw =
     (if length raw > 512 \<or> has_control raw then None
      else Option.bind (grammar (trim raw)) (\<lambda>(count, old).
           Option.bind (parse_count count) (\<lambda>bullets.
           if (case old of None \<Rightarrow> False | Some o' \<Rightarrow> parse_count o' = Some bullets) then None
           else Some \<lparr> bp_bullets = bullets \<rparr>)))"

definition validate_conversation_input ::
  "memory_env \<Rightarrow> new_record \<Rightarrow> briefing_preference option \<Rightarrow> memory_error + unit" where
  "validate_conversation_input env input preference =
     rbind (validate_input env input) (\<lambda>_.
     rbind (ensure (\<not> (n_origin input \<noteq> Human \<or> n_kind input \<noteq> Finding \<or> n_protected_policy input
                       \<or> n_supersedes input \<noteq> None \<or> n_dependencies input \<noteq> []
                       \<or> n_decision_state input \<noteq> None))
              (Invalid ''expected raw human conversation input'')) (\<lambda>_.
     ensure (preference = recognize (me_grammar env) (n_body input))
       (Invalid ''presentation preference must match exact human words'')))"

text \<open>\<open>ORDER BY timestamp DESC, id DESC\<close>.\<close>

definition newest_first :: "memory_record \<Rightarrow> memory_record \<Rightarrow> ordering" where
  "newest_first a b =
     then_with (compare_of (m_timestamp b) (m_timestamp a)) (compare_of (m_id b) (m_id a))"

definition is_preference :: "memory_env \<Rightarrow> memory_record \<Rightarrow> bool" where
  "is_preference env r \<longleftrightarrow>
     m_kind r = User_instruction \<and> m_origin r = Human
     \<and> me_preference_key env (m_provenance r) = Some preference_key"

definition current_preference :: "memory_env \<Rightarrow> memory_db \<Rightarrow> scope \<Rightarrow> string option" where
  "current_preference env db s =
     (case sort_by newest_first
             (filter (\<lambda>r. m_profile_id r = md_profile db \<and> m_scope r = s \<and> is_preference env r
                          \<and> \<not> m_protected_policy r \<and> \<not> superseded db (Some (m_id r))) (md_records db)) of
        [] \<Rightarrow> None
      | r # _ \<Rightarrow> Some (m_id r))"

definition apply_presentation_revision ::
  "memory_env \<Rightarrow> memory_db \<Rightarrow> new_record \<Rightarrow> briefing_preference \<Rightarrow> memory_error + new_record" where
  "apply_presentation_revision env db input preference =
     (let previous = current_preference env db (n_scope input) in
      rbind (me_annotate env (n_provenance input) (bp_bullets preference)) (\<lambda>provenance.
      Inr (input\<lparr> n_kind := User_instruction, n_provenance := provenance,
                  n_dependencies := (case previous of None \<Rightarrow> [] | Some i \<Rightarrow> [i]),
                  n_supersedes := previous \<rparr>)))"

definition append_conversation_input ::
  "memory_env \<Rightarrow> string \<Rightarrow> string \<Rightarrow> new_record \<Rightarrow> briefing_preference option \<Rightarrow> u64 \<Rightarrow> memory_db
   \<Rightarrow> memory_error + memory_record \<times> memory_db" where
  "append_conversation_input env fresh request_id input preference expected_epoch db =
     rbind (validate_request_id request_id) (\<lambda>_.
     rbind (validate_conversation_input env input preference) (\<lambda>_.
     let hash = me_digest env input in
     rbind (read_forget_epoch db) (\<lambda>epoch.
     rbind (ensure (epoch = expected_epoch)
              (Invalid ''memory changed through forgetting; input not saved'')) (\<lambda>_.
     rbind (existing_idempotent_record request_id hash db) (\<lambda>existing.
     case existing of
       Some r \<Rightarrow> Inr (r, db)
     | None \<Rightarrow>
         rbind (case preference of
                  None \<Rightarrow> Inr input
                | Some p \<Rightarrow> apply_presentation_revision env db input p) (\<lambda>input'.
         rbind (append_in_tx env fresh input' db) (\<lambda>(r, db').
         add_receipt request_id hash r db')))))))"

section \<open>Reading\<close>

text \<open>The scope predicate of every query: a column is unset or equals the requested value.\<close>

definition in_scope :: "memory_db \<Rightarrow> scope \<Rightarrow> memory_record \<Rightarrow> bool" where
  "in_scope db s r \<longleftrightarrow>
     m_profile_id r = md_profile db
     \<and> list_all (\<lambda>(c, v). c = None \<or> (v \<noteq> None \<and> c = v))
         [(sc_project (m_scope r), sc_project s), (sc_provider (m_scope r), sc_provider s),
          (sc_conversation (m_scope r), sc_conversation s), (sc_node (m_scope r), sc_node s)]"

definition is_active :: "memory_db \<Rightarrow> memory_record \<Rightarrow> bool" where
  "is_active db r \<longleftrightarrow> m_decision_state r \<noteq> Some Superseded \<and> \<not> superseded db (Some (m_id r))"

definition working_rank :: "memory_record \<Rightarrow> nat" where
  "working_rank r =
     (if m_kind r = User_instruction \<or> m_kind r = Correction then 0
      else if m_kind r = Decision then 1 else 2)"

definition working_order :: "memory_record \<Rightarrow> memory_record \<Rightarrow> ordering" where
  "working_order a b =
     then_with (compare_of (m_protected_policy b) (m_protected_policy a))
       (then_with (compare_of (working_rank a) (working_rank b)) (newest_first a b))"

definition record_cost :: "memory_record \<Rightarrow> nat" where
  "record_cost r = length (m_body r) + length (m_provenance r)"

text \<open>Rows that would exceed the byte budget are skipped, later ones may still fit.\<close>

fun take_within :: "nat \<Rightarrow> memory_record list \<Rightarrow> memory_record list" where
  "take_within bytes [] = []"
| "take_within bytes (r # rs) =
     (if bytes + record_cost r > max_record_bytes then take_within bytes rs
      else r # take_within (bytes + record_cost r) rs)"

definition memory_select :: "memory_db \<Rightarrow> scope \<Rightarrow> nat \<Rightarrow> bool \<Rightarrow> memory_error + memory_record list" where
  "memory_select db s limit active =
     rbind (scope_validate s) (\<lambda>_.
     let cap = min limit max_retrieval;
         rows = (if active
                 then sort_by working_order
                        (filter (\<lambda>r. in_scope db s r \<and> m_kind r \<noteq> Draft \<and> is_active db r) (md_records db))
                 else sort_by newest_first (filter (in_scope db s) (md_records db)))
     in Inr (take_within 0 (take cap rows)))"

definition retrieve :: "memory_db \<Rightarrow> scope \<Rightarrow> nat \<Rightarrow> memory_error + memory_record list" where
  "retrieve db s limit = memory_select db s limit False"

definition working_set :: "memory_db \<Rightarrow> scope \<Rightarrow> nat \<Rightarrow> memory_error + memory_record list" where
  "working_set db s limit = memory_select db s limit True"

definition recent :: "memory_db \<Rightarrow> scope \<Rightarrow> nat \<Rightarrow> memory_error + memory_record list" where
  "recent db s limit = retrieve db s limit"

definition memory_get :: "memory_db \<Rightarrow> string \<Rightarrow> memory_record option" where
  "memory_get db i = find (\<lambda>r. m_profile_id r = md_profile db \<and> m_id r = i) (md_records db)"

definition get_active :: "memory_db \<Rightarrow> string \<Rightarrow> memory_record option" where
  "get_active db i = (if superseded db (Some i) then None else memory_get db i)"

definition source_version :: "memory_db \<Rightarrow> string \<Rightarrow> u64 option" where
  "source_version db i =
     map_option v_revision
       (find (\<lambda>v. v_record_id v = i \<and> memory_get db i \<noteq> None) (md_revisions db))"

definition lineage :: "memory_db \<Rightarrow> string \<Rightarrow> record_lineage option" where
  "lineage db i =
     map_option (\<lambda>r. \<lparr> l_id = m_id r, l_kind = m_kind r, l_origin = m_origin r, l_scope = m_scope r,
                        l_supersedes = m_supersedes r, l_provenance = char_prefix 16384 (m_provenance r) \<rparr>)
       (memory_get db i)"

fun fill_page :: "nat \<Rightarrow> nat \<Rightarrow> record_page \<Rightarrow> memory_record list \<Rightarrow> record_page" where
  "fill_page cap bytes page [] = page"
| "fill_page cap bytes page (r # rs) =
     (if bytes + record_cost r > max_record_bytes
      then fill_page cap bytes (page\<lparr>rp_byte_limited := True, rp_limited := True\<rparr>) rs
      else if length (rp_records page) = cap then fill_page cap bytes (page\<lparr>rp_limited := True\<rparr>) rs
      else fill_page cap (bytes + record_cost r) (page\<lparr>rp_records := rp_records page @ [r]\<rparr>) rs)"

definition active_by_kind ::
  "memory_db \<Rightarrow> scope \<Rightarrow> record_kind \<Rightarrow> i64 option \<Rightarrow> nat \<Rightarrow> memory_error + record_page" where
  "active_by_kind db s kind since limit =
     rbind (scope_validate s) (\<lambda>_.
     let cap = min limit max_retrieval;
         rows = sort_by newest_first
                  (filter (\<lambda>r. in_scope db s r \<and> m_kind r = kind
                               \<and> (case since of None \<Rightarrow> True | Some t \<Rightarrow> m_timestamp r \<ge> t)
                               \<and> is_active db r) (md_records db))
     in Inr (fill_page cap 0 \<lparr> rp_records = [], rp_limited = False, rp_byte_limited = False \<rparr>
               (take (cap + 1) rows)))"

fun bound_page :: "nat \<Rightarrow> nat \<Rightarrow> revision_record list \<Rightarrow> revision_record list \<Rightarrow> u64 \<Rightarrow> revision_page" where
  "bound_page cap bytes acc [] through =
     \<lparr> vp_records = acc, vp_through = through, vp_next = through, vp_has_more = False \<rparr>"
| "bound_page cap bytes acc (e # es) through =
     (if length acc = cap \<or> bytes + record_cost (rr_record e) > 2 * max_record_bytes
      then \<lparr> vp_records = acc, vp_through = through,
             vp_next = (if acc = [] then 0 else rr_revision (last acc)), vp_has_more = True \<rparr>
      else bound_page cap (bytes + record_cost (rr_record e)) (acc @ [e]) es through)"

definition bound_revision_page :: "revision_record list \<Rightarrow> nat \<Rightarrow> u64 \<Rightarrow> revision_page" where
  "bound_revision_page records cap through = bound_page cap 0 [] records through"

definition revision_rows :: "memory_db \<Rightarrow> revision_record list" where
  "revision_rows db =
     List.map_filter (\<lambda>v. map_option (\<lambda>r. \<lparr> rr_revision = v_revision v, rr_record = r \<rparr>)
                            (row_by m_id (v_record_id v) (md_records db))) (md_revisions db)"

definition revision_page_of ::
  "memory_db \<Rightarrow> scope \<Rightarrow> u64 \<Rightarrow> u64 option \<Rightarrow> nat \<Rightarrow> bool \<Rightarrow> memory_error + revision_page" where
  "revision_page_of db s after through limit active_only =
     rbind (scope_validate s) (\<lambda>_.
     let maximum = md_sequence db;
         through' = (case through of None \<Rightarrow> maximum | Some t \<Rightarrow> t)
     in rbind (ensure (\<not> (after > through' \<or> through' > maximum \<or> limit = 0))
                 (Invalid ''invalid memory revision page'')) (\<lambda>_.
        let cap = min limit 64;
            rows = sort_by (\<lambda>a b. compare_of (rr_revision a) (rr_revision b))
                     (filter (\<lambda>e. after < rr_revision e \<and> rr_revision e \<le> through'
                                  \<and> in_scope db s (rr_record e)
                                  \<and> (\<not> active_only \<or> m_kind (rr_record e) \<noteq> Draft \<and> is_active db (rr_record e)))
                        (revision_rows db))
        in Inr (bound_revision_page (take (cap + 1) rows) cap through')))"

section \<open>Lexical search\<close>

text \<open>The terms of a query: a state of the scan is the bytes read, the open term and the terms so far.\<close>

definition flush_term :: "string \<Rightarrow> string list \<Rightarrow> string list" where
  "flush_term term terms =
     (if term = [] then terms
      else if length term \<le> max_search_term_bytes \<and> length terms < max_search_terms \<and> term \<notin> set terms
      then terms @ [term] else terms)"

fun scan_terms :: "(string \<Rightarrow> bool) \<Rightarrow> nat \<Rightarrow> string \<Rightarrow> string list \<Rightarrow> string list \<Rightarrow> string list" where
  "scan_terms alphanumeric scanned term terms [] = flush_term term terms"
| "scan_terms alphanumeric scanned term terms (c # cs) =
     (if scanned + length c > max_search_query_bytes then flush_term term terms
      else if alphanumeric c \<or> c = ''_''
      then scan_terms alphanumeric (scanned + length c) (term @ c) terms cs
      else scan_terms alphanumeric (scanned + length c) [] (flush_term term terms) cs)"

fun double_quotes :: "string \<Rightarrow> string" where
  "double_quotes [] = []"
| "double_quotes (c # cs) = (if c = CHR 0x22 then [CHR 0x22, CHR 0x22] else [c]) @ double_quotes cs"

definition quote_term :: "string \<Rightarrow> string" where
  "quote_term t = [CHR 0x22] @ double_quotes t @ [CHR 0x22]"

fun join_with :: "string \<Rightarrow> string list \<Rightarrow> string" where
  "join_with sep [] = []"
| "join_with sep [x] = x"
| "join_with sep (x # y # xs) = x @ sep @ join_with sep (y # xs)"

definition lexical_match_query :: "(string \<Rightarrow> bool) \<Rightarrow> string \<Rightarrow> string" where
  "lexical_match_query alphanumeric query =
     join_with '' OR '' (map quote_term (scan_terms alphanumeric 0 [] [] (utf8_chars query)))"

fun take_matches :: "memory_env \<Rightarrow> nat \<Rightarrow> nat \<Rightarrow> string set \<Rightarrow> nat \<Rightarrow> nat \<Rightarrow> memory_record list \<Rightarrow> memory_record list" where
  "take_matches env cap max_bytes excluded found bytes [] = []"
| "take_matches env cap max_bytes excluded found bytes (r # rs) =
     (if m_id r \<in> excluded then take_matches env cap max_bytes excluded found bytes rs
      else if me_json_size env r > max_bytes \<or> bytes + me_json_size env r > max_bytes
      then take_matches env cap max_bytes excluded found bytes rs
      else if found + 1 \<ge> cap then [r]
      else r # take_matches env cap max_bytes excluded (found + 1) (bytes + me_json_size env r) rs)"

definition search_bm25_filtered ::
  "memory_env \<Rightarrow> memory_db \<Rightarrow> scope \<Rightarrow> string \<Rightarrow> nat \<Rightarrow> nat \<Rightarrow> string set \<Rightarrow> bool
   \<Rightarrow> memory_error + memory_record list" where
  "search_bm25_filtered env db s query limit max_bytes excluded standing_only =
     rbind (scope_validate s) (\<lambda>_.
     let cap = min limit max_retrieval; match_query = lexical_match_query (me_alphanumeric env) query in
     if cap = 0 \<or> max_bytes = 0 then Inr []
     else if match_query = [] then Inr []
     else
       let rows = sort_by (\<lambda>a b. then_with (compare_of (the (me_bm25 env match_query a)) (the (me_bm25 env match_query b)))
                                   (newest_first a b))
                    (filter (\<lambda>r. me_bm25 env match_query r \<noteq> None \<and> in_scope db s r \<and> m_kind r \<noteq> Draft
                                 \<and> (\<not> standing_only \<or> m_protected_policy r
                                    \<or> m_kind r = User_instruction \<or> m_kind r = Correction)
                                 \<and> is_active db r) (md_records db))
       in Inr (take_matches env cap max_bytes excluded 0 0 (take max_retrieval rows)))"

definition search_bm25_with_budget ::
  "memory_env \<Rightarrow> memory_db \<Rightarrow> scope \<Rightarrow> string \<Rightarrow> nat \<Rightarrow> nat \<Rightarrow> string set \<Rightarrow> memory_error + memory_record list" where
  "search_bm25_with_budget env db s query limit max_bytes excluded =
     search_bm25_filtered env db s query limit max_bytes excluded False"

definition search_standing_bm25_with_budget ::
  "memory_env \<Rightarrow> memory_db \<Rightarrow> scope \<Rightarrow> string \<Rightarrow> nat \<Rightarrow> nat \<Rightarrow> string set \<Rightarrow> memory_error + memory_record list" where
  "search_standing_bm25_with_budget env db s query limit max_bytes excluded =
     search_bm25_filtered env db s query limit max_bytes excluded True"

definition search_bm25 :: "memory_env \<Rightarrow> memory_db \<Rightarrow> scope \<Rightarrow> string \<Rightarrow> nat \<Rightarrow> memory_error + memory_record list" where
  "search_bm25 env db s query limit = search_bm25_with_budget env db s query limit max_record_bytes {}"

section \<open>Forgetting\<close>

text \<open>
  The text of a JSON array of identifiers (UUID forms need no escapes), and
  \<open>LIKE '%' || needle || '%'\<close>, which ignores the case of ASCII letters.
\<close>

definition json_array_text :: "string list \<Rightarrow> string" where
  "json_array_text ds = ''['' @ join_with '','' (map (\<lambda>d. [CHR 0x22] @ d @ [CHR 0x22]) ds) @ '']''"

definition like_contains :: "string \<Rightarrow> string \<Rightarrow> bool" where
  "like_contains hay needle = sublist (to_ascii_lowercase needle) (to_ascii_lowercase hay)"

definition like_child :: "memory_db \<Rightarrow> string \<Rightarrow> memory_record \<Rightarrow> bool" where
  "like_child db target r \<longleftrightarrow>
     m_profile_id r = md_profile db
     \<and> (m_supersedes r = Some target \<or> like_contains (json_array_text (m_dependencies r)) target)"

definition exact_child :: "memory_db \<Rightarrow> string \<Rightarrow> memory_record \<Rightarrow> bool" where
  "exact_child db target r \<longleftrightarrow>
     m_profile_id r = md_profile db \<and> (m_supersedes r = Some target \<or> target \<in> set (m_dependencies r))"

definition delete_record :: "memory_db \<Rightarrow> string \<Rightarrow> memory_db" where
  "delete_record db target =
     (let gone = (\<lambda>r. m_id r = target \<and> m_profile_id r = md_profile db) in
      db\<lparr>md_records := delete_where gone (md_records db),
         md_revisions := delete_where (\<lambda>v. v_record_id v = target \<and> list_ex gone (md_records db)) (md_revisions db)\<rparr>)"

text \<open>
  The deletion loop over the stack of pending identifiers; it returns the number of rows deleted
  and the store. The children of a row are found while the row itself is still there.
\<close>

definition stack_rank :: "memory_db \<Rightarrow> string list \<Rightarrow> nat" where
  "stack_rank db pending =
     (case pending of
        [] \<Rightarrow> 0
      | t # _ \<Rightarrow> if list_ex (\<lambda>r. m_id r = t \<and> m_profile_id r = md_profile db) (md_records db) then 0
                  else length pending)"

function forget_loop ::
  "(memory_db \<Rightarrow> string \<Rightarrow> memory_record \<Rightarrow> bool) \<Rightarrow> string list \<Rightarrow> nat \<Rightarrow> memory_db \<Rightarrow> nat \<times> memory_db" where
  "forget_loop child [] removed db = (removed, db)"
| "forget_loop child (target # pending) removed db =
     (let children = map m_id (filter (\<lambda>r. m_profile_id r = md_profile db \<and> child db target r) (md_records db)) in
      forget_loop child (rev children @ pending)
        (removed + count_where (\<lambda>r. m_id r = target \<and> m_profile_id r = md_profile db) (md_records db))
        (delete_record db target))"
  by pat_completeness auto

definition present :: "memory_db \<Rightarrow> string \<Rightarrow> bool" where
  "present db i \<longleftrightarrow> list_ex (\<lambda>r. m_id r = i \<and> m_profile_id r = md_profile db) (md_records db)"

lemma delete_record_absent: "\<not> present db target \<Longrightarrow> delete_record db target = db"
proof -
  assume absent: "\<not> present db target"
  then have "delete_where (\<lambda>r. m_id r = target \<and> m_profile_id r = md_profile db) (md_records db) = md_records db"
    by (auto simp: delete_where_def present_def list_ex_iff filter_id_conv)
  moreover have "delete_where (\<lambda>v. v_record_id v = target
      \<and> list_ex (\<lambda>r. m_id r = target \<and> m_profile_id r = md_profile db) (md_records db)) (md_revisions db)
      = md_revisions db"
    using absent by (simp add: delete_where_def present_def)
  ultimately show ?thesis by (simp add: delete_record_def Let_def)
qed

lemma delete_record_present:
  "present db target \<Longrightarrow> length (md_records (delete_record db target)) < length (md_records db)"
  by (auto simp: present_def delete_record_def Let_def delete_where_def list_ex_iff intro: length_filter_less)

lemma stack_rank_absent: "\<not> present db t \<Longrightarrow> stack_rank db (t # ts) = Suc (length ts)"
  and stack_rank_present: "present db t \<Longrightarrow> stack_rank db (t # ts) = 0"
  and stack_rank_le: "stack_rank db ts \<le> length ts"
  by (auto simp: stack_rank_def present_def split: list.splits)

termination forget_loop
proof (relation "measures [\<lambda>(child, pending, removed, db). length (md_records db),
                           \<lambda>(child, pending, removed, db). stack_rank db pending]")
  fix child :: "memory_db \<Rightarrow> string \<Rightarrow> memory_record \<Rightarrow> bool"
  fix target pending removed db children
  assume children: "children = map m_id (filter (\<lambda>r. m_profile_id r = md_profile db \<and> child db target r) (md_records db))"
  let ?next = "rev children @ pending"
  have "length (md_records (delete_record db target)) < length (md_records db)
    \<or> delete_record db target = db \<and> stack_rank db ?next < stack_rank db (target # pending)"
  proof (cases "present db target")
    case True
    then show ?thesis by (simp add: delete_record_present)
  next
    case False
    have "stack_rank db ?next < Suc (length pending)"
    proof (cases "rev children")
      case Nil
      then show ?thesis using stack_rank_le [of db pending] by simp
    next
      case (Cons c cs)
      then have "c \<in> set children" by (metis list.set_intros(1) set_rev)
      then have "present db c" by (auto simp: children present_def list_ex_iff)
      with Cons show ?thesis by (simp add: stack_rank_present)
    qed
    with False show ?thesis by (simp add: delete_record_absent stack_rank_absent)
  qed
  then show "((child, ?next, removed + count_where (\<lambda>r. m_id r = target \<and> m_profile_id r = md_profile db) (md_records db),
        delete_record db target), child, target # pending, removed, db)
      \<in> measures [\<lambda>(child, pending, removed, db). length (md_records db),
                  \<lambda>(child, pending, removed, db). stack_rank db pending]"
    by auto
qed simp

text \<open>The first revision of the preference a record revises, as far as it is one and has its scope.\<close>

definition preference_parent :: "memory_env \<Rightarrow> memory_db \<Rightarrow> string \<Rightarrow> string option" where
  "preference_parent env db i =
     Option.bind (find (\<lambda>m. m_id m = i \<and> m_profile_id m = md_profile db) (md_records db)) (\<lambda>m.
       map_option m_id
         (find (\<lambda>p. m_supersedes m = Some (m_id p) \<and> m_profile_id p = m_profile_id m \<and> m_scope p = m_scope m
                    \<and> is_preference env m \<and> is_preference env p) (md_records db)))"

function presentation_preference_root ::
  "memory_env \<Rightarrow> memory_db \<Rightarrow> string list \<Rightarrow> string \<Rightarrow> memory_error + string" where
  "presentation_preference_root env db visited current =
     (if current \<in> set visited then Inl (Invalid ''cyclic preference lineage'')
      else case preference_parent env db current of
             None \<Rightarrow> Inr current
           | Some parent \<Rightarrow> presentation_preference_root env db (current # visited) parent)"
  by pat_completeness auto

termination presentation_preference_root
proof (relation "measure (\<lambda>(env, db, visited, current). length (filter (\<lambda>r. m_id r \<notin> set visited) (md_records db)))")
  fix env db visited current parent
  assume new: "current \<notin> set visited" and parent: "preference_parent env db current = Some parent"
  then obtain m where m: "m \<in> set (md_records db)" "m_id m = current"
    by (auto simp: preference_parent_def bind_eq_Some_conv dest!: find_Some_in)
  have "filter (\<lambda>r. m_id r \<notin> set (current # visited)) (md_records db)
      = filter (\<lambda>r. m_id r \<noteq> current) (filter (\<lambda>r. m_id r \<notin> set visited) (md_records db))"
    by (simp add: conj_commute)
  also have "length \<dots> < length (filter (\<lambda>r. m_id r \<notin> set visited) (md_records db))"
    by (rule length_filter_less [of m]) (use m new in auto)
  finally show "((env, db, current # visited, parent), env, db, visited, current)
    \<in> measure (\<lambda>(env, db, visited, current). length (filter (\<lambda>r. m_id r \<notin> set visited) (md_records db)))"
    by simp
qed simp

declare presentation_preference_root.simps [simp del] and forget_loop.simps [simp del]

definition write_epoch :: "u64 \<Rightarrow> memory_db \<Rightarrow> memory_db" where
  "write_epoch epoch db = db\<lparr>md_meta := (md_meta db)(''forget_epoch'' \<mapsto> decimal epoch)\<rparr>"

definition memory_forget :: "memory_env \<Rightarrow> string \<Rightarrow> memory_db \<Rightarrow> memory_error + nat \<times> memory_db" where
  "memory_forget env i db =
     rbind (next_forget_epoch db) (\<lambda>epoch.
     rbind (ensure (present db i) (Not_found i)) (\<lambda>_.
     rbind (presentation_preference_root env db [] i) (\<lambda>root.
     let (removed, db') = forget_loop like_child [root] 0 db
     in Inr (removed, write_epoch epoch db'))))"

definition forget_worker_scope :: "scope \<Rightarrow> memory_db \<Rightarrow> memory_error + nat \<times> memory_db" where
  "forget_worker_scope s db =
     rbind (ensure (\<not> (case sc_project s of None \<Rightarrow> True | Some name \<Rightarrow> blank name))
              (Invalid ''exact project scope is required for derived-memory revocation'')) (\<lambda>_.
     rbind (next_forget_epoch db) (\<lambda>epoch.
     let pending = map m_id (filter (\<lambda>r. m_profile_id r = md_profile db \<and> m_origin r = Worker \<and> m_scope r = s)
                               (md_records db));
         (removed, db') = forget_loop exact_child (rev pending) 0 db
     in Inr (removed, write_epoch epoch db')))"

section \<open>The memory as a state machine\<close>

datatype memory_op =
  Append string new_record
| Append_user string new_record
| Append_at_epoch string new_record u64
| Append_idempotent string string new_record
| Append_revision string string new_record
| Append_conversation string string new_record "briefing_preference option" u64
| Forget string
| Forget_worker_scope scope

fun memory_step :: "memory_env \<Rightarrow> memory_op \<Rightarrow> memory_db \<Rightarrow> memory_error + memory_db" where
  "memory_step env (Append i input) db = rbind (memory_append env i input db) (\<lambda>(_, db'). Inr db')"
| "memory_step env (Append_user i input) db = rbind (append_user env i input db) (\<lambda>(_, db'). Inr db')"
| "memory_step env (Append_at_epoch i input e) db =
     rbind (append_at_epoch env i input e db) (\<lambda>(_, db'). Inr db')"
| "memory_step env (Append_idempotent i request input) db =
     rbind (append_idempotent env i request input db) (\<lambda>(_, db'). Inr db')"
| "memory_step env (Append_revision i request input) db =
     rbind (append_revision_idempotent env i request input db) (\<lambda>(_, db'). Inr db')"
| "memory_step env (Append_conversation i request input preference e) db =
     rbind (append_conversation_input env i request input preference e db) (\<lambda>(_, db'). Inr db')"
| "memory_step env (Forget i) db = rbind (memory_forget env i db) (\<lambda>(_, db'). Inr db')"
| "memory_step env (Forget_worker_scope s) db = rbind (forget_worker_scope s db) (\<lambda>(_, db'). Inr db')"

end
