(* ===== verification/Memory_Laws.thy ===== *)
theory Memory_Laws
  imports Memory
begin

text \<open>
  What the assistant's memory keeps: the effect of a successful append, the meaning of the
  deletion loop (exactly the records that derive from a forgotten one), the invariant of the store
  and the order along which it moves, and the properties that rest on them.
\<close>

section \<open>The effect of an append\<close>

lemma add_revision_Inr:
  "add_revision i db = Inr db' \<longleftrightarrow>
     int (md_sequence db) < i64_max \<and> i \<notin> v_record_id ` set (md_revisions db)
     \<and> db' = db\<lparr>md_sequence := md_sequence db + 1,
            md_revisions := md_revisions db @ [\<lparr> v_revision = md_sequence db + 1, v_record_id = i \<rparr>]\<rparr>"
  by (auto simp: add_revision_def result_simps row_by_None)

lemma validate_dependencies_Inr:
  "validate_dependencies db s ds = Inr u \<longleftrightarrow>
     (\<forall>d\<in>set ds. \<exists>e. load_scope db d = Some e \<and> permits e s)"
  by (induction ds) (auto simp: result_simps)

lemma load_scope_Some: "load_scope db i = Some s \<Longrightarrow> \<exists>q\<in>set (md_records db). m_id q = i \<and> m_scope q = s"
  by (auto simp: load_scope_def dest!: row_by_Some)

definition refers_ok :: "memory_record list \<Rightarrow> memory_record \<Rightarrow> bool" where
  "refers_ok rows r \<longleftrightarrow>
     (\<forall>d\<in>set (m_dependencies r). \<exists>q\<in>set rows. m_id q = d \<and> permits (m_scope q) (m_scope r))
     \<and> (\<forall>p. m_supersedes r = Some p \<longrightarrow> (\<exists>q\<in>set rows. m_id q = p \<and> m_scope q = m_scope r))"

definition authority_ok :: "memory_record \<Rightarrow> bool" where
  "authority_ok r \<longleftrightarrow>
     m_origin r = Human
     \<or> (m_kind r \<noteq> User_instruction \<and> \<not> m_protected_policy r \<and> m_supersedes r = None
        \<and> (m_decision_state r = None \<or> m_decision_state r = Some Proposed))"

definition sizes_ok :: "memory_record \<Rightarrow> bool" where
  "sizes_ok r \<longleftrightarrow>
     length (m_body r) \<le> max_record_bytes \<and> length (m_provenance r) \<le> max_record_bytes
     \<and> length (m_dependencies r) \<le> 64 \<and> (m_kind r = Correction \<longrightarrow> m_dependencies r \<noteq> [])"

lemma validate_input_Inr:
  assumes "validate_input env input = Inr u"
  shows "authority_ok (record_of_input p i input)" and "sizes_ok (record_of_input p i input)"
  using assms
  by (auto simp: validate_input_def result_simps authority_ok_def sizes_ok_def record_of_input_def
      split: option.splits)

lemma append_in_tx_Inr:
  assumes "append_in_tx env i input db = Inr (r, db')"
  shows "r = record_of_input (md_profile db) i input"
    and "i \<notin> m_id ` set (md_records db)" and "i \<notin> v_record_id ` set (md_revisions db)"
    and "authority_ok r" and "sizes_ok r" and "refers_ok (md_records db) r"
    and "db' = db\<lparr>md_records := md_records db @ [r], md_sequence := md_sequence db + 1,
            md_revisions := md_revisions db @ [\<lparr> v_revision = md_sequence db + 1, v_record_id = i \<rparr>]\<rparr>"
proof -
  have v: "validate_input env input = Inr ()" and s: "validate_dependency_scopes db input = Inr ()"
    and n: "insert_record i input db = Inr (r, db')"
    using assms by (auto simp: append_in_tx_def result_simps)
  show r: "r = record_of_input (md_profile db) i input" and "i \<notin> m_id ` set (md_records db)"
    and "i \<notin> v_record_id ` set (md_revisions db)"
    and "db' = db\<lparr>md_records := md_records db @ [r], md_sequence := md_sequence db + 1,
            md_revisions := md_revisions db @ [\<lparr> v_revision = md_sequence db + 1, v_record_id = i \<rparr>]\<rparr>"
    using n by (auto simp: insert_record_def Let_def result_simps add_revision_Inr row_by_None)
  show "authority_ok r" and "sizes_ok r" unfolding r by (rule validate_input_Inr [OF v])+
  show "refers_ok (md_records db) r"
    using s unfolding r
    by (auto simp: refers_ok_def record_of_input_def validate_dependency_scopes_def result_simps
        validate_dependencies_Inr dest: load_scope_Some split: option.splits)
qed

lemma existing_idempotent_record_Inr:
  "existing_idempotent_record request hash db = Inr (Some r) \<Longrightarrow>
     r \<in> set (md_records db) \<and> (\<exists>rc. row_by mr_request_id request (md_receipts db) = Some rc
       \<and> mr_payload_hash rc = hash \<and> mr_record_id rc = Some (m_id r))"
  "existing_idempotent_record request hash db = Inr None \<Longrightarrow> row_by mr_request_id request (md_receipts db) = None"
  by (auto simp: existing_idempotent_record_def result_simps split: option.splits dest!: find_Some_in)

text \<open>Every append in one form: nothing, or one new record and possibly one receipt.\<close>

definition appended :: "memory_record \<Rightarrow> memory_db \<Rightarrow> memory_db \<Rightarrow> bool" where
  "appended r db db' \<longleftrightarrow>
     m_profile_id r = md_profile db
     \<and> m_id r \<notin> m_id ` set (md_records db) \<and> m_id r \<notin> v_record_id ` set (md_revisions db)
     \<and> authority_ok r \<and> sizes_ok r \<and> refers_ok (md_records db) r
     \<and> (\<exists>receipts. (unique_by mr_request_id (md_receipts db) \<longrightarrow> unique_by mr_request_id (md_receipts db @ receipts))
          \<and> db' = db\<lparr>md_records := md_records db @ [r], md_sequence := md_sequence db + 1,
              md_revisions := md_revisions db @ [\<lparr> v_revision = md_sequence db + 1, v_record_id = m_id r \<rparr>],
              md_receipts := md_receipts db @ receipts\<rparr>)"

lemma append_in_tx_appended: "append_in_tx env i input db = Inr (r, db') \<Longrightarrow> appended r db db'"
proof -
  assume a: "append_in_tx env i input db = Inr (r, db')"
  note f = append_in_tx_Inr [OF a]
  have "m_id r = i" "m_profile_id r = md_profile db" by (simp_all add: f(1) record_of_input_def)
  with f show ?thesis by (auto simp: appended_def intro!: exI [of _ "[]"])
qed

lemma append_with_receipt:
  assumes "append_in_tx env i input db = Inr (r, db1)" and "add_receipt request hash r db1 = Inr (r', db')"
  shows "r' = r \<and> appended r db db'"
proof -
  let ?rc = "\<lparr> mr_request_id = request, mr_payload_hash = hash, mr_record_id = Some (m_id r),
          mr_timestamp = m_timestamp r \<rparr>"
  have eq: "r' = r" "db' = db1\<lparr>md_receipts := md_receipts db1 @ [?rc]\<rparr>"
    and fresh: "request \<notin> mr_request_id ` set (md_receipts db1)"
    using assms(2) by (auto simp: add_receipt_def result_simps row_by_None)
  note f = append_in_tx_Inr [OF assms(1)]
  have "m_id r = i" "m_profile_id r = md_profile db" by (simp_all add: f(1) record_of_input_def)
  moreover have "md_receipts db1 = md_receipts db" by (simp add: f(7))
  ultimately show ?thesis using f eq fresh by (auto simp: appended_def intro!: exI [of _ "[?rc]"])
qed

lemma append_idempotent_checked_Inr:
  assumes "append_idempotent_checked env fresh request input active db = Inr (r, db')"
  obtains (retry) "db' = db" "existing_idempotent_record request (me_digest env input) db = Inr (Some r)"
  | (new) db1 where "existing_idempotent_record request (me_digest env input) db = Inr None"
      "active \<Longrightarrow> \<not> superseded db (n_supersedes input)"
      "append_in_tx env fresh input db = Inr (r, db1)"
      "add_receipt request (me_digest env input) r db1 = Inr (r, db')" "appended r db db'"
proof -
  from assms obtain e where e: "existing_idempotent_record request (me_digest env input) db = Inr e"
    and rest: "(case e of Some r \<Rightarrow> Inr (r, db)
     | None \<Rightarrow>
         rbind (ensure (\<not> (active \<and> superseded db (n_supersedes input)))
                  (Invalid ''record has a newer revision; inspect and use its current record ID'')) (\<lambda>_.
         rbind (append_in_tx env fresh input db) (\<lambda>(r, db').
         add_receipt request (me_digest env input) r db'))) = Inr (r, db')"
    unfolding append_idempotent_checked_def Let_def by (elim rbind_InrE)
  show ?thesis
  proof (cases e)
    case None
    with rest obtain r1 db1 where a: "append_in_tx env fresh input db = Inr (r1, db1)"
      and b: "add_receipt request (me_digest env input) r1 db1 = Inr (r, db')"
      and c: "active \<Longrightarrow> \<not> superseded db (n_supersedes input)"
      by (auto simp: rbind_Inr_iff)
    from append_with_receipt [OF a b] have "r1 = r" "appended r db db'" by simp_all
    with a b c e None new show ?thesis by blast
  next
    case (Some x)
    with rest e retry show ?thesis by simp
  qed
qed

lemma append_conversation_input_Inr:
  assumes "append_conversation_input env fresh request input preference epoch db = Inr (r, db')"
  shows "db' = db \<or> appended r db db'"
proof -
  from assms obtain e where "existing_idempotent_record request (me_digest env input) db = Inr e"
    and rest: "(case e of Some r \<Rightarrow> Inr (r, db)
     | None \<Rightarrow>
         rbind (case preference of None \<Rightarrow> Inr input
                | Some p \<Rightarrow> apply_presentation_revision env db input p) (\<lambda>input'.
         rbind (append_in_tx env fresh input' db) (\<lambda>(r, db').
         add_receipt request (me_digest env input) r db'))) = Inr (r, db')"
    unfolding append_conversation_input_def Let_def by (elim rbind_InrE)
  then show ?thesis
    by (cases e) (auto simp: rbind_Inr_iff dest: append_with_receipt)
qed

section \<open>The deletion loop\<close>

text \<open>An edge leads from a record to each record that refers to it.\<close>

definition child_edges ::
  "(memory_db \<Rightarrow> string \<Rightarrow> memory_record \<Rightarrow> bool) \<Rightarrow> memory_db \<Rightarrow> (string \<times> string) set" where
  "child_edges child db = {(t, m_id r) | t r. r \<in> set (md_records db) \<and> child db t r}"

definition doomed ::
  "(memory_db \<Rightarrow> string \<Rightarrow> memory_record \<Rightarrow> bool) \<Rightarrow> memory_db \<Rightarrow> string set \<Rightarrow> string set" where
  "doomed child db start = (child_edges child db)\<^sup>* `` start"

definition own_rows :: "memory_db \<Rightarrow> bool" where
  "own_rows db \<longleftrightarrow>
     (\<forall>r\<in>set (md_records db). m_profile_id r = md_profile db)
     \<and> (\<forall>v\<in>set (md_revisions db). v_record_id v \<in> m_id ` set (md_records db))"

definition without :: "string set \<Rightarrow> memory_db \<Rightarrow> memory_db" where
  "without gone db =
     db\<lparr>md_records := filter (\<lambda>r. m_id r \<notin> gone) (md_records db),
        md_revisions := filter (\<lambda>v. v_record_id v \<notin> gone) (md_revisions db)\<rparr>"

lemma delete_record_without:
  assumes "own_rows db"
  shows "delete_record db t = without {t} db"
proof -
  let ?gone = "\<lambda>r. m_id r = t \<and> m_profile_id r = md_profile db"
  have "filter (\<lambda>r. \<not> ?gone r) (md_records db) = filter (\<lambda>r. m_id r \<notin> {t}) (md_records db)"
    using assms by (intro filter_cong) (auto simp: own_rows_def)
  moreover have "filter (\<lambda>v. \<not> (v_record_id v = t \<and> list_ex ?gone (md_records db))) (md_revisions db)
      = filter (\<lambda>v. v_record_id v \<notin> {t}) (md_revisions db)"
    using assms by (intro filter_cong) (force simp: own_rows_def list_ex_iff)+
  ultimately show ?thesis by (simp add: delete_record_def Let_def without_def delete_where_def)
qed

lemma own_rows_without: "own_rows db \<Longrightarrow> own_rows (without gone db)"
  by (force simp: own_rows_def without_def)

lemma without_without: "without a (without b db) = without (a \<union> b) db"
  by (simp add: without_def conj_commute)

lemma rtrancl_from_removed:
  fixes E :: "('a \<times> 'a) set" and t :: 'a
  defines "E1 \<equiv> {(a, c) \<in> E. c \<noteq> t}"
  shows "E\<^sup>* `` (insert t P) = insert t (E1\<^sup>* `` (E `` {t} \<union> P))"
proof (intro equalityI subsetI)
  fix x
  assume "x \<in> E\<^sup>* `` (insert t P)"
  then obtain p where p: "p \<in> insert t P" and path: "(p, x) \<in> E\<^sup>*" by auto
  from path show "x \<in> insert t (E1\<^sup>* `` (E `` {t} \<union> P))"
  proof (induction rule: rtrancl_induct)
    case base
    with p show ?case by auto
  next
    case (step y z)
    show ?case
    proof (cases "z = t")
      case False
      with step.hyps(2) have "y \<noteq> t \<Longrightarrow> (y, z) \<in> E1" by (simp add: E1_def)
      with step show ?thesis by (auto intro: rtrancl_into_rtrancl)
    qed simp
  qed
next
  fix x
  assume "x \<in> insert t (E1\<^sup>* `` (E `` {t} \<union> P))"
  moreover have "E1\<^sup>* \<subseteq> E\<^sup>*" by (rule rtrancl_mono) (auto simp: E1_def)
  ultimately show "x \<in> E\<^sup>* `` (insert t P)" by (auto intro: converse_rtrancl_into_rtrancl)
qed

lemma doomed_step:
  assumes child: "\<And>a b. md_profile a = md_profile b \<Longrightarrow> child a = child b"
  shows "doomed child db (set (t # pending))
    = insert t (doomed child (without {t} db) (child_edges child db `` {t} \<union> set pending))"
proof -
  have "child_edges child (without {t} db) = {(a, c) \<in> child_edges child db. c \<noteq> t}"
    using child [of "without {t} db" db] by (auto simp: child_edges_def without_def)
  then show ?thesis
    unfolding doomed_def list.set by (simp only: rtrancl_from_removed)
qed

lemma forget_loop_result:
  assumes "own_rows db" and "\<And>a b. md_profile a = md_profile b \<Longrightarrow> child a = child b"
  shows "forget_loop child pending n db =
    (n + count_where (\<lambda>r. m_id r \<in> doomed child db (set pending)) (md_records db),
     without (doomed child db (set pending)) db)"
  using assms
proof (induction child pending n db rule: forget_loop.induct)
  case (1 child n db)
  show ?case by (simp add: forget_loop.simps doomed_def without_def count_where_def)
next
  case (2 child t pending n db)
  let ?children = "map m_id (filter (\<lambda>r. m_profile_id r = md_profile db \<and> child db t r) (md_records db))"
  let ?db1 = "without {t} db"
  let ?D1 = "doomed child ?db1 (set (rev ?children @ pending))"
  have children: "set (rev ?children @ pending) = child_edges child db `` {t} \<union> set pending"
    using 2(2) by (auto simp: own_rows_def child_edges_def)
  have D: "doomed child db (set (t # pending)) = insert t ?D1"
    unfolding children by (rule doomed_step [OF 2(3)])
  have "m_profile_id r = md_profile db" if "r \<in> set (md_records db)" for r
    using that 2(2) by (simp add: own_rows_def)
  then have mine: "count_where (\<lambda>r. m_id r = t \<and> m_profile_id r = md_profile db) (md_records db)
      = count_where (\<lambda>r. m_id r = t) (md_records db)"
    by (intro count_where_cong) simp
  have IH: "forget_loop child (rev ?children @ pending)
       (n + count_where (\<lambda>r. m_id r = t \<and> m_profile_id r = md_profile db) (md_records db)) (delete_record db t)
     = (n + count_where (\<lambda>r. m_id r = t) (md_records db) + count_where (\<lambda>r. m_id r \<in> ?D1) (md_records ?db1),
        without ?D1 ?db1)"
    using 2(1) [OF refl _ 2(3)] 2(2)
    by (simp add: delete_record_without own_rows_without mine)
  have "count_where (\<lambda>r. m_id r = t) (md_records db) + count_where (\<lambda>r. m_id r \<in> ?D1) (md_records ?db1)
      = count_where (\<lambda>r. m_id r \<in> insert t ?D1) (md_records db)"
    using count_where_split [of "\<lambda>r. m_id r = t" "md_records db" "\<lambda>r. m_id r \<in> ?D1"]
    by (simp add: without_def)
  with IH show ?case
    unfolding D by (simp add: forget_loop.simps Let_def without_without insert_is_Un [of t ?D1] Un_commute)
qed

lemma like_contains_member: "d \<in> set ds \<Longrightarrow> like_contains (json_array_text ds) d"
proof -
  have join: "x \<in> set xs \<Longrightarrow> \<exists>a b. join_with sep xs = a @ x @ b" for x sep :: string and xs
  proof (induction sep xs rule: join_with.induct)
    case (3 sep y z zs)
    show ?case
    proof (cases "x = y")
      case True
      then have "join_with sep (y # z # zs) = [] @ x @ (sep @ join_with sep (z # zs))" by simp
      then show ?thesis by blast
    next
      case False
      with 3 obtain a b where "join_with sep (z # zs) = a @ x @ b" by auto
      then have "join_with sep (y # z # zs) = (y @ sep @ a) @ x @ b" by simp
      then show ?thesis by blast
    qed
  qed (auto intro: exI [of _ "[]"])
  assume "d \<in> set ds"
  then obtain a b where "join_with '','' (map (\<lambda>d. [CHR 0x22] @ d @ [CHR 0x22]) ds)
      = a @ ([CHR 0x22] @ d @ [CHR 0x22]) @ b"
    using join [of "[CHR 0x22] @ d @ [CHR 0x22]"] by fastforce
  then have "json_array_text ds = (''['' @ a @ [CHR 0x22]) @ d @ ([CHR 0x22] @ b @ '']'')"
    by (simp add: json_array_text_def)
  then have "to_ascii_lowercase (json_array_text ds)
      = to_ascii_lowercase (''['' @ a @ [CHR 0x22]) @ to_ascii_lowercase d @ to_ascii_lowercase ([CHR 0x22] @ b @ '']'')"
    by (simp only: to_ascii_lowercase_def map_append)
  then show ?thesis unfolding like_contains_def sublist_def by blast
qed

text \<open>Both kinds of deletion follow at least the exact references.\<close>

lemma refers_to_child:
  assumes "m_profile_id r = md_profile db" and "t \<in> set (m_dependencies r) \<or> m_supersedes r = Some t"
  shows "like_child db t r" and "exact_child db t r"
  using assms like_contains_member by (auto simp: like_child_def exact_child_def)

section \<open>The invariant of the store\<close>

definition memory_inv :: "memory_db \<Rightarrow> bool" where
  "memory_inv db \<longleftrightarrow>
     unique_by m_id (md_records db)
     \<and> (\<forall>r\<in>set (md_records db). m_profile_id r = md_profile db \<and> authority_ok r \<and> sizes_ok r
          \<and> refers_ok (md_records db) r)
     \<and> unique_by mr_request_id (md_receipts db)
     \<and> v_record_id ` set (md_revisions db) = m_id ` set (md_records db)
     \<and> unique_by v_record_id (md_revisions db)
     \<and> sorted_wrt (\<lambda>v w. v_revision v < v_revision w) (md_revisions db)
     \<and> (\<forall>v\<in>set (md_revisions db). 0 < v_revision v \<and> v_revision v \<le> md_sequence db)
     \<and> (case md_meta db ''forget_epoch'' of None \<Rightarrow> True
          | Some v \<Rightarrow> (case parse_usize v of None \<Rightarrow> False | Some e \<Rightarrow> e \<le> u64_max))"

lemma memory_invD:
  assumes "memory_inv db"
  shows "unique_by m_id (md_records db)"
    and "r \<in> set (md_records db) \<Longrightarrow> m_profile_id r = md_profile db"
    and "r \<in> set (md_records db) \<Longrightarrow> authority_ok r"
    and "r \<in> set (md_records db) \<Longrightarrow> sizes_ok r"
    and "r \<in> set (md_records db) \<Longrightarrow> refers_ok (md_records db) r"
    and "unique_by mr_request_id (md_receipts db)"
    and "v_record_id ` set (md_revisions db) = m_id ` set (md_records db)"
    and "own_rows db"
  using assms by (auto simp: memory_inv_def own_rows_def)

lemma refers_ok_append: "refers_ok rows r \<Longrightarrow> refers_ok (rows @ ys) r"
  by (fastforce simp: refers_ok_def)

lemma appended_inv:
  assumes inv: "memory_inv db" and "appended r db db'"
  shows "memory_inv db'"
proof -
  from assms(2) obtain receipts where new: "m_profile_id r = md_profile db" "m_id r \<notin> m_id ` set (md_records db)"
      "m_id r \<notin> v_record_id ` set (md_revisions db)" "authority_ok r" "sizes_ok r" "refers_ok (md_records db) r"
    and receipts: "unique_by mr_request_id (md_receipts db @ receipts)"
    and db': "db' = db\<lparr>md_records := md_records db @ [r], md_sequence := md_sequence db + 1,
              md_revisions := md_revisions db @ [\<lparr> v_revision = md_sequence db + 1, v_record_id = m_id r \<rparr>],
              md_receipts := md_receipts db @ receipts\<rparr>"
    using memory_invD(6) [OF inv] by (auto simp: appended_def)
  have "refers_ok (md_records db') x" if "x \<in> set (md_records db')" for x
    using that new(6) memory_invD(5) [OF inv] by (auto simp: db' intro: refers_ok_append)
  moreover have "sorted_wrt (\<lambda>v w. v_revision v < v_revision w) (md_revisions db')"
    using inv by (auto simp: db' memory_inv_def sorted_wrt_append less_Suc_eq_le)
  ultimately show ?thesis
    using inv new receipts by (fastforce simp: db' memory_inv_def)
qed

lemma without_inv:
  assumes inv: "memory_inv db"
    and closed: "\<And>r t. r \<in> set (md_records db) \<Longrightarrow> t \<in> gone \<Longrightarrow>
      t \<in> set (m_dependencies r) \<or> m_supersedes r = Some t \<Longrightarrow> m_id r \<in> gone"
  shows "memory_inv (without gone db)"
proof -
  have refs: "refers_ok (md_records (without gone db)) r" if r: "r \<in> set (md_records (without gone db))" for r
  proof -
    have mem: "r \<in> set (md_records db)" "m_id r \<notin> gone" using r by (auto simp: without_def)
    then have stay: "t \<notin> gone" if "t \<in> set (m_dependencies r) \<or> m_supersedes r = Some t" for t
      using that closed by blast
    from memory_invD(5) [OF inv mem(1)] stay show ?thesis
      unfolding refers_ok_def without_def by fastforce
  qed
  have "v_record_id ` set (md_revisions (without gone db)) = m_id ` set (md_records (without gone db))"
  proof -
    have "v_record_id ` {v \<in> set (md_revisions db). v_record_id v \<notin> gone}
        = v_record_id ` set (md_revisions db) - gone"
      by auto
    also have "\<dots> = m_id ` {r \<in> set (md_records db). m_id r \<notin> gone}"
      unfolding memory_invD(7) [OF inv] by auto
    finally show ?thesis by (simp add: without_def)
  qed
  moreover have "unique_by m_id (md_records (without gone db))"
    "unique_by v_record_id (md_revisions (without gone db))"
    using inv by (simp_all add: memory_inv_def without_def unique_by_def distinct_map_filter)
  moreover have "sorted_wrt (\<lambda>v w. v_revision v < v_revision w) (md_revisions (without gone db))"
    using inv by (simp add: memory_inv_def without_def sorted_wrt_filter)
  ultimately show ?thesis
    using inv refs by (auto simp: memory_inv_def without_def)
qed

lemma doomed_closed:
  assumes inv: "memory_inv db"
    and child: "\<And>t r. r \<in> set (md_records db) \<Longrightarrow> t \<in> set (m_dependencies r) \<or> m_supersedes r = Some t \<Longrightarrow>
      child db t r"
    and "r \<in> set (md_records db)" "t \<in> doomed child db start"
      "t \<in> set (m_dependencies r) \<or> m_supersedes r = Some t"
  shows "m_id r \<in> doomed child db start"
proof -
  have "(t, m_id r) \<in> child_edges child db" using assms by (auto simp: child_edges_def)
  with assms(4) show ?thesis unfolding doomed_def by (auto intro: rtrancl_into_rtrancl)
qed

lemma write_epoch_inv: "memory_inv db \<Longrightarrow> e \<le> u64_max \<Longrightarrow> memory_inv (write_epoch e db)"
  by (simp add: memory_inv_def write_epoch_def parse_usize_decimal)

lemma next_forget_epoch_Inr:
  "next_forget_epoch db = Inr e \<longleftrightarrow> (\<exists>old. read_forget_epoch db = Inr old \<and> e = old + 1 \<and> e \<le> u64_max)"
  by (auto simp: next_forget_epoch_def result_simps u64_checked_add_def)

lemma like_child_profile: "md_profile a = md_profile b \<Longrightarrow> like_child a = like_child b"
  and exact_child_profile: "md_profile a = md_profile b \<Longrightarrow> exact_child a = exact_child b"
  by (auto simp: like_child_def exact_child_def fun_eq_iff)

lemma memory_forget_Inr:
  assumes inv: "memory_inv db" and "memory_forget env i db = Inr (n, db')"
  obtains old root where "read_forget_epoch db = Inr old" "old + 1 \<le> u64_max" "present db i"
    "presentation_preference_root env db [] i = Inr root"
    "n = count_where (\<lambda>r. m_id r \<in> doomed like_child db {root}) (md_records db)"
    "db' = write_epoch (old + 1) (without (doomed like_child db {root}) db)"
  using assms(2)
  by (auto simp: memory_forget_def result_simps next_forget_epoch_Inr
      forget_loop_result [OF memory_invD(8) [OF inv] like_child_profile])

definition worker_records :: "scope \<Rightarrow> memory_db \<Rightarrow> string set" where
  "worker_records s db = m_id ` {r \<in> set (md_records db). m_origin r = Worker \<and> m_scope r = s}"

lemma forget_worker_scope_Inr:
  assumes inv: "memory_inv db" and "forget_worker_scope s db = Inr (n, db')"
  obtains old where "read_forget_epoch db = Inr old" "old + 1 \<le> u64_max"
    "n = count_where (\<lambda>r. m_id r \<in> doomed exact_child db (worker_records s db)) (md_records db)"
    "db' = write_epoch (old + 1) (without (doomed exact_child db (worker_records s db)) db)"
proof -
  have "set (map m_id (filter (\<lambda>r. m_profile_id r = md_profile db \<and> m_origin r = Worker \<and> m_scope r = s)
      (md_records db))) = worker_records s db"
    using memory_invD(2) [OF inv] by (auto simp: worker_records_def)
  with assms(2) that show ?thesis
    by (auto simp: forget_worker_scope_def result_simps next_forget_epoch_Inr Let_def
        forget_loop_result [OF memory_invD(8) [OF inv] exact_child_profile])
qed

section \<open>The memory as a machine that only moves forward\<close>

definition epoch_of :: "memory_db \<Rightarrow> u64" where
  "epoch_of db = (case read_forget_epoch db of Inl _ \<Rightarrow> 0 | Inr e \<Rightarrow> e)"

text \<open>
  Epochs and revision numbers only grow, a number once given is not given again, receipts stay,
  and as long as the epoch is the same no record is lost.
\<close>

definition memory_ahead :: "memory_db \<Rightarrow> memory_db \<Rightarrow> bool" where
  "memory_ahead db db' \<longleftrightarrow>
     md_profile db' = md_profile db \<and> epoch_of db \<le> epoch_of db' \<and> md_sequence db \<le> md_sequence db'
     \<and> persists (=) (md_receipts db) (md_receipts db')
     \<and> (epoch_of db = epoch_of db' \<longrightarrow> set (md_records db) \<subseteq> set (md_records db'))
     \<and> (\<forall>v\<in>set (md_revisions db'). v_revision v \<le> md_sequence db \<longrightarrow> v \<in> set (md_revisions db))"

lemma memory_ahead_refl: "memory_ahead db db"
  by (simp add: memory_ahead_def persists_refl)

lemma memory_ahead_trans:
  assumes "memory_ahead a b" and "memory_ahead b c"
  shows "memory_ahead a c"
proof -
  have "persists (=) (md_receipts a) (md_receipts c)"
    using assms by (auto simp: memory_ahead_def intro: persists_trans [OF transp_on_equality])
  moreover have "epoch_of a = epoch_of c \<longrightarrow> set (md_records a) \<subseteq> set (md_records c)"
    using assms by (auto simp: memory_ahead_def)
  moreover have "\<forall>v\<in>set (md_revisions c). v_revision v \<le> md_sequence a \<longrightarrow> v \<in> set (md_revisions a)"
    using assms by (auto simp: memory_ahead_def)
  ultimately show ?thesis using assms by (simp add: memory_ahead_def)
qed

definition forgotten :: "string set \<Rightarrow> memory_db \<Rightarrow> memory_db \<Rightarrow> bool" where
  "forgotten gone db db' \<longleftrightarrow>
     (\<exists>old. read_forget_epoch db = Inr old \<and> old + 1 \<le> u64_max \<and> db' = write_epoch (old + 1) (without gone db))
     \<and> (\<forall>r\<in>set (md_records db). \<forall>t\<in>gone. t \<in> set (m_dependencies r) \<or> m_supersedes r = Some t \<longrightarrow> m_id r \<in> gone)"

lemma memory_forget_forgotten:
  assumes inv: "memory_inv db" and "memory_forget env i db = Inr (n, db')"
  shows "\<exists>gone. forgotten gone db db'"
proof -
  from assms(2) obtain old root where e: "read_forget_epoch db = Inr old" "old + 1 \<le> u64_max"
    "db' = write_epoch (old + 1) (without (doomed like_child db {root}) db)"
    by (rule memory_forget_Inr [OF inv])
  have "m_id r \<in> doomed like_child db {root}"
    if "r \<in> set (md_records db)" "t \<in> doomed like_child db {root}"
      "t \<in> set (m_dependencies r) \<or> m_supersedes r = Some t" for r t
    using that by (intro doomed_closed [OF inv _ that] refers_to_child(1) memory_invD(2) [OF inv])
  with e show ?thesis unfolding forgotten_def by blast
qed

lemma forget_worker_scope_forgotten:
  assumes inv: "memory_inv db" and "forget_worker_scope s db = Inr (n, db')"
  shows "\<exists>gone. forgotten gone db db'"
proof -
  let ?gone = "doomed exact_child db (worker_records s db)"
  from assms(2) obtain old where e: "read_forget_epoch db = Inr old" "old + 1 \<le> u64_max"
    "db' = write_epoch (old + 1) (without ?gone db)"
    by (rule forget_worker_scope_Inr [OF inv])
  have "m_id r \<in> ?gone"
    if "r \<in> set (md_records db)" "t \<in> ?gone"
      "t \<in> set (m_dependencies r) \<or> m_supersedes r = Some t" for r t
    using that by (intro doomed_closed [OF inv _ that] refers_to_child(2) memory_invD(2) [OF inv])
  with e show ?thesis unfolding forgotten_def by blast
qed

lemma memory_step_cases:
  assumes "memory_inv db" and "memory_step env op db = Inr db'"
  obtains "db' = db" | r where "appended r db db'" | gone where "forgotten gone db db'"
proof (cases op)
  case (Append_idempotent i request input)
  with assms(2) that show ?thesis
    by (auto simp: rbind_Inr_iff append_idempotent_def elim: append_idempotent_checked_Inr)
next
  case (Append_revision i request input)
  with assms(2) that show ?thesis
    by (auto simp: rbind_Inr_iff append_revision_idempotent_def elim: append_idempotent_checked_Inr)
next
  case (Append_conversation i request input preference e)
  with assms(2) that show ?thesis
    by (auto simp: rbind_Inr_iff dest: append_conversation_input_Inr)
next
  case (Forget i)
  with assms that show ?thesis by (auto simp: rbind_Inr_iff dest: memory_forget_forgotten)
next
  case (Forget_worker_scope s)
  with assms that show ?thesis by (auto simp: rbind_Inr_iff dest: forget_worker_scope_forgotten)
qed (use assms(2) that in \<open>auto simp: rbind_Inr_iff memory_append_def append_user_def
      append_at_epoch_def dest: append_in_tx_appended\<close>)

lemma forgotten_inv: "memory_inv db \<Longrightarrow> forgotten gone db db' \<Longrightarrow> memory_inv db'"
  by (auto simp: forgotten_def intro!: write_epoch_inv without_inv)

lemma memory_step_inv:
  assumes "memory_inv db" and "memory_step env op db = Inr db'"
  shows "memory_inv db'"
  using assms by (rule memory_step_cases) (use assms(1) appended_inv forgotten_inv in blast)+

lemma epoch_of_write: "e \<le> u64_max \<Longrightarrow> epoch_of (write_epoch e db) = e"
  by (simp add: epoch_of_def read_forget_epoch_def stored_epoch_def write_epoch_def parse_usize_decimal)

lemma epoch_of_meta: "md_meta db' = md_meta db \<Longrightarrow> epoch_of db' = epoch_of db"
  by (simp add: epoch_of_def read_forget_epoch_def stored_epoch_def)

lemma forgotten_epoch: "forgotten gone db db' \<Longrightarrow> epoch_of db' = epoch_of db + 1"
  by (auto simp: forgotten_def epoch_of_write simp del: One_nat_def) (simp add: epoch_of_def)

lemma appended_ahead:
  assumes "appended r db db'"
  shows "memory_ahead db db'"
proof -
  from assms obtain receipts where "db' = db\<lparr>md_records := md_records db @ [r], md_sequence := md_sequence db + 1,
              md_revisions := md_revisions db @ [\<lparr> v_revision = md_sequence db + 1, v_record_id = m_id r \<rparr>],
              md_receipts := md_receipts db @ receipts\<rparr>"
    unfolding appended_def by blast
  moreover from this have "epoch_of db' = epoch_of db" by (intro epoch_of_meta) simp
  ultimately show ?thesis by (auto simp: memory_ahead_def intro: persists_append)
qed

lemma forgotten_ahead:
  assumes "forgotten gone db db'"
  shows "memory_ahead db db'"
  using assms forgotten_epoch [OF assms]
  by (auto simp: forgotten_def memory_ahead_def write_epoch_def without_def persists_refl)

lemma memory_step_ahead:
  assumes "memory_inv db" and "memory_step env op db = Inr db'"
  shows "memory_ahead db db'"
  using assms
  by (rule memory_step_cases) (use memory_ahead_refl appended_ahead forgotten_ahead in blast)+

interpretation memory: monotone_machine "memory_step env" memory_inv memory_ahead for env
proof
  fix a b c
  show "memory_ahead a a" by (rule memory_ahead_refl)
  show "memory_ahead a b \<Longrightarrow> memory_ahead b c \<Longrightarrow> memory_ahead a c" by (rule memory_ahead_trans)
qed (fact memory_step_inv, fact memory_step_ahead)

section \<open>Identifiers and the text of dependencies\<close>

text \<open>The form of the identifiers the store generates: 36 lower case hexadecimal digits and hyphens.\<close>

definition uuid_text :: "string \<Rightarrow> bool" where
  "uuid_text s \<longleftrightarrow>
     length s = 36
     \<and> list_all (\<lambda>c. is_ascii_digit c \<or> c = CHR ''-''
                     \<or> ((97::nat) \<le> of_char c \<and> of_char c \<le> (102::nat))) s"

lemma uuid_text_lower: "uuid_text s \<Longrightarrow> to_ascii_lowercase s = s"
  by (auto simp: uuid_text_def list_all_iff to_ascii_lowercase_def ascii_lower_char_def is_ascii_digit_def
      intro!: map_idI)

lemma uuid_text_no_quote: "uuid_text s \<Longrightarrow> CHR 0x22 \<notin> set s"
  by (auto simp: uuid_text_def list_all_iff is_ascii_digit_def)

lemma prefix_first_piece: "prefix t s \<Longrightarrow> q \<notin> set t \<Longrightarrow> prefix t (hd (split_on q s))"
proof (induction s arbitrary: t)
  case (Cons c s)
  show ?case
  proof (cases t)
    case (Cons x xs)
    with Cons.prems have x: "x = c" "x \<noteq> q" and xs: "prefix xs s" "q \<notin> set xs" by auto
    from Cons.IH [OF xs] have "prefix xs (hd (split_on q s))" .
    with x Cons split_on_nonempty [of q s] show ?thesis by (cases "split_on q s") auto
  qed simp
qed simp

lemma sublist_piece: "sublist t s \<Longrightarrow> q \<notin> set t \<Longrightarrow> \<exists>p\<in>set (split_on q s). sublist t p"
proof (induction s)
  case (Cons c s)
  show ?case
  proof (cases "prefix t (c # s)")
    case True
    then have "prefix t (hd (split_on q (c # s)))" by (rule prefix_first_piece [OF _ Cons.prems(2)])
    moreover have "hd (split_on q (c # s)) \<in> set (split_on q (c # s))" by (rule hd_in_set [OF split_on_nonempty])
    ultimately show ?thesis using prefix_imp_sublist by blast
  next
    case False
    with Cons.prems(1) have "sublist t s" by (simp add: sublist_Cons_right)
    with Cons obtain p where p: "p \<in> set (split_on q s)" "sublist t p" by blast
    then show ?thesis
      by (cases "split_on q s") (auto simp: sublist_Cons_right)
  qed
qed (auto simp: sublist_def)

lemma json_array_pieces:
  assumes "\<And>d. d \<in> set ds \<Longrightarrow> CHR 0x22 \<notin> set d" and "p \<in> set (split_on (CHR 0x22) (json_array_text ds))"
  shows "p \<in> set ds \<or> length p \<le> 2"
proof -
  let ?join = "\<lambda>ds. join_with '','' (map (\<lambda>d. [CHR 0x22] @ d @ [CHR 0x22]) ds) @ '']''"
  have tail: "p \<in> set ds \<or> length p \<le> 2"
    if "p \<in> set (split_on (CHR 0x22) (?join ds))" "\<And>d. d \<in> set ds \<Longrightarrow> CHR 0x22 \<notin> set d" for ds
    using that
  proof (induction "'',''" "map (\<lambda>d. [CHR 0x22] @ d @ [CHR 0x22]) ds" arbitrary: ds rule: join_with.induct)
    case (2 x)
    then obtain d where "ds = [d]" by auto
    with 2 show ?case by (auto simp: split_on_append)
  next
    case (3 x y zs)
    then obtain d e es where ds: "ds = d # e # es" by (auto simp: map_eq_Cons_conv)
    with 3(2) have rest: "zs = map (\<lambda>d. [CHR 0x22] @ d @ [CHR 0x22]) es" "y = [CHR 0x22] @ e @ [CHR 0x22]" by auto
    have "p = [] \<or> p = d \<or> p \<in> set (split_on (CHR 0x22) ('','' @ ?join (e # es)))"
      using 3(3,4) ds by (auto simp: split_on_append)
    moreover obtain q qs where q: "split_on (CHR 0x22) (?join (e # es)) = q # qs" "q = []"
      by (cases es) auto
    moreover have "split_on (CHR 0x22) ('','' @ ?join (e # es)) = '','' # qs" using q by simp
    ultimately show ?case
      using 3(1) [of "e # es"] 3(4) ds rest by auto
  qed auto
  have "split_on (CHR 0x22) (json_array_text ds)
      = (''['' @ hd (split_on (CHR 0x22) (?join ds))) # tl (split_on (CHR 0x22) (?join ds))"
    using split_on_nonempty [of "CHR 0x22" "?join ds"]
    by (cases "split_on (CHR 0x22) (?join ds)") (auto simp: json_array_text_def)
  moreover have "length (hd (split_on (CHR 0x22) (?join ds))) \<le> 1"
    by (cases ds rule: remdups_adj.cases) auto
  ultimately show ?thesis
    using assms tail [of ds] split_on_nonempty [of "CHR 0x22" "?join ds"]
    by (auto dest: list.set_sel(2))
qed

lemma like_contains_uuid:
  assumes "uuid_text t" and "\<And>d. d \<in> set ds \<Longrightarrow> uuid_text d"
  shows "like_contains (json_array_text ds) t \<longleftrightarrow> t \<in> set ds"
proof
  have "c \<in> set (json_array_text ds) \<Longrightarrow> ascii_lower_char c = c" for c
  proof -
    have "c \<in> set (join_with sep xs) \<Longrightarrow> c \<in> set sep \<or> (\<exists>x\<in>set xs. c \<in> set x)" for sep xs
      by (induction sep xs rule: join_with.induct) auto
    moreover assume "c \<in> set (json_array_text ds)"
    ultimately consider "c \<in> {CHR ''['', CHR '']'', CHR '','', CHR 0x22}" | d where "d \<in> set ds" "c \<in> set d"
      by (fastforce simp: json_array_text_def)
    then show "ascii_lower_char c = c"
    proof cases
      case 2
      with uuid_text_lower [OF assms(2)] show ?thesis
        by (metis map_eq_conv to_ascii_lowercase_def list.map_ident)
    qed (auto simp: ascii_lower_char_def)
  qed
  then have lower: "to_ascii_lowercase (json_array_text ds) = json_array_text ds"
    unfolding to_ascii_lowercase_def by (intro map_idI)
  assume "like_contains (json_array_text ds) t"
  then have "sublist t (json_array_text ds)"
    by (simp add: like_contains_def lower uuid_text_lower [OF assms(1)])
  then obtain p where p: "p \<in> set (split_on (CHR 0x22) (json_array_text ds))" "sublist t p"
    using sublist_piece uuid_text_no_quote [OF assms(1)] by blast
  have "36 \<le> length p" using p(2) assms(1) by (metis sublist_length_le uuid_text_def)
  then have "p \<in> set ds" using json_array_pieces [OF uuid_text_no_quote [OF assms(2)] p(1)] by auto
  then have "length p = 36" using assms(2) by (simp add: uuid_text_def)
  then have "t = p" using p(2) assms(1) by (auto simp: sublist_def uuid_text_def)
  then show "t \<in> set ds" using \<open>p \<in> set ds\<close> by simp
next
  assume "t \<in> set ds"
  then show "like_contains (json_array_text ds) t" by (rule like_contains_member)
qed

lemma preference_parent_edge:
  assumes "own_rows db" and "preference_parent env db i = Some p"
  shows "(p, i) \<in> child_edges exact_child db \<and> p \<in> m_id ` set (md_records db)"
  using assms
  by (fastforce simp: preference_parent_def bind_eq_Some_conv child_edges_def exact_child_def own_rows_def
      dest!: find_Some_in)

lemma exact_refs_known:
  assumes "memory_inv db" and "r \<in> set (md_records db)"
  shows "d \<in> set (m_dependencies r) \<Longrightarrow> d \<in> m_id ` set (md_records db)"
    and "m_supersedes r = Some p \<Longrightarrow> p \<in> m_id ` set (md_records db)"
  using memory_invD(5) [OF assms] by (auto simp: refers_ok_def)

text \<open>With generated identifiers, the textual match deletes exactly what the references reach.\<close>

lemma doomed_like_exact:
  assumes inv: "memory_inv db" and uuid: "\<forall>r\<in>set (md_records db). uuid_text (m_id r)"
    and start: "start \<subseteq> m_id ` set (md_records db)"
  shows "doomed like_child db start = doomed exact_child db start"
proof -
  have edge: "(t, x) \<in> child_edges like_child db \<longleftrightarrow> (t, x) \<in> child_edges exact_child db"
    if "t \<in> m_id ` set (md_records db)" for t x
  proof -
    have "like_contains (json_array_text (m_dependencies r)) t \<longleftrightarrow> t \<in> set (m_dependencies r)"
      if "r \<in> set (md_records db)" for r
      using that \<open>t \<in> m_id ` set (md_records db)\<close> uuid exact_refs_known(1) [OF inv]
      by (intro like_contains_uuid) fastforce+
    then show ?thesis by (auto simp: child_edges_def like_child_def exact_child_def)
  qed
  have ids: "x \<in> m_id ` set (md_records db)" if "(t, x) \<in> child_edges child db" for t x child
    using that by (auto simp: child_edges_def)
  have "(t, x) \<in> (child_edges like_child db)\<^sup>* \<longleftrightarrow> (t, x) \<in> (child_edges exact_child db)\<^sup>*"
    if t: "t \<in> m_id ` set (md_records db)" for t x
  proof
    assume "(t, x) \<in> (child_edges like_child db)\<^sup>*"
    then have "(t, x) \<in> (child_edges exact_child db)\<^sup>* \<and> x \<in> m_id ` set (md_records db)"
      by (induction rule: rtrancl_induct) (use t edge ids in \<open>auto intro: rtrancl_into_rtrancl\<close>)
    then show "(t, x) \<in> (child_edges exact_child db)\<^sup>*" by simp
  next
    assume "(t, x) \<in> (child_edges exact_child db)\<^sup>*"
    then have "(t, x) \<in> (child_edges like_child db)\<^sup>* \<and> x \<in> m_id ` set (md_records db)"
      by (induction rule: rtrancl_induct) (use t edge ids in \<open>auto intro: rtrancl_into_rtrancl\<close>)
    then show "(t, x) \<in> (child_edges like_child db)\<^sup>*" by simp
  qed
  with start show ?thesis unfolding doomed_def set_eq_iff Image_iff by blast
qed

lemma preference_root_reaches:
  "presentation_preference_root env db visited i = Inr root \<Longrightarrow> own_rows db \<Longrightarrow>
   i \<in> m_id ` set (md_records db) \<Longrightarrow>
   (root, i) \<in> (child_edges exact_child db)\<^sup>* \<and> root \<in> m_id ` set (md_records db)"
proof (induction env db visited i rule: presentation_preference_root.induct)
  case (1 env db visited i)
  show ?case
  proof (cases "preference_parent env db i")
    case None
    with 1(2,4) show ?thesis by (simp add: presentation_preference_root.simps [of env db visited i] split: if_splits)
  next
    case (Some p)
    note edge = preference_parent_edge [OF 1(3) Some]
    from 1(2) Some have "i \<notin> set visited" "presentation_preference_root env db (i # visited) p = Inr root"
      by (simp_all add: presentation_preference_root.simps [of env db visited i] split: if_splits)
    with 1(1) [OF _ Some] 1(3) edge show ?thesis by (auto intro: rtrancl_into_rtrancl)
  qed
qed

section \<open>Properties\<close>

text \<open>A small environment and a store with a finding, a worker's note on it and a decision.\<close>

definition env_example :: memory_env where
  "env_example =
     \<lparr> me_uuid_ok = (\<lambda>_. True), me_digest = n_body, me_grammar = (\<lambda>_. None),
       me_annotate = (\<lambda>s _. Inr s), me_preference_key = (\<lambda>_. None),
       me_alphanumeric = (\<lambda>c. list_all is_ascii_alphanumeric c), me_bm25 = (\<lambda>_ _. Some 0),
       me_json_size = record_cost \<rparr>"

definition scope_example :: scope where
  "scope_example = \<lparr> sc_node = None, sc_project = Some ''p'', sc_provider = None, sc_conversation = None \<rparr>"

definition input_example :: "record_kind \<Rightarrow> origin \<Rightarrow> string \<Rightarrow> string list \<Rightarrow> string option \<Rightarrow> new_record" where
  "input_example kind origin body deps previous =
     \<lparr> n_kind = kind, n_origin = origin, n_scope = scope_example, n_body = body, n_provenance = [],
       n_timestamp = 1, n_supersedes = previous, n_dependencies = deps, n_decision_state = None,
       n_protected_policy = False \<rparr>"

definition uuid_example :: "char \<Rightarrow> string" where
  "uuid_example c = replicate 36 c"

definition memory_example :: memory_db where
  "memory_example =
     run (memory_step env_example)
       [Append_user (uuid_example CHR ''a'') (input_example Finding Human ''f'' [] None),
        Append_at_epoch (uuid_example CHR ''b'')
          (input_example Finding Worker ''w'' [uuid_example CHR ''a''] None) 0,
        Append (uuid_example CHR ''c'') (input_example Decision Human ''d'' [] None)]
       (fresh_memory_db\<lparr>md_profile := ''me''\<rparr>)"

lemmas memory_eval = memory_append_def append_user_def append_at_epoch_def append_in_tx_def validate_input_def
  scope_validate_def validate_dependency_scopes_def load_scope_def insert_record_def record_of_input_def
  add_revision_def stored_epoch_def row_by_Cons permits_def max_record_bytes_def i64_max_def Let_def

lemmas memory_examples = env_example_def input_example_def scope_example_def uuid_example_def

lemma memory_example_eq:
  "memory_example = \<lparr> md_profile = ''me'', md_meta = (\<lambda>_. None), md_has_node = False,
     md_records = [record_of_input ''me'' (uuid_example CHR ''a'') (input_example Finding Human ''f'' [] None),
       record_of_input ''me'' (uuid_example CHR ''b'') (input_example Finding Worker ''w'' [uuid_example CHR ''a''] None),
       record_of_input ''me'' (uuid_example CHR ''c'') (input_example Decision Human ''d'' [] None)],
     md_receipts = [], md_revisions = [\<lparr> v_revision = 1, v_record_id = uuid_example CHR ''a'' \<rparr>,
       \<lparr> v_revision = 2, v_record_id = uuid_example CHR ''b'' \<rparr>, \<lparr> v_revision = 3, v_record_id = uuid_example CHR ''c'' \<rparr>],
     md_sequence = 3 \<rparr>"
  by (simp add: memory_example_def fresh_memory_db_def memory_eval memory_examples)

lemma memory_example_uuid: "\<forall>r\<in>set (md_records memory_example). uuid_text (m_id r)"
  by (simp add: memory_example_eq record_of_input_def uuid_example_def uuid_text_def list_all_iff)

lemma fresh_memory_inv: "memory_inv (fresh_memory_db\<lparr>md_profile := p\<rparr>)"
  by (simp add: memory_inv_def fresh_memory_db_def)

lemma memory_example_inv: "memory_inv memory_example"
  unfolding memory_example_def by (rule memory.run_inv [OF fresh_memory_inv])

lemma memory_open_fresh:
  "\<exists>db. memory_open env p fresh_memory_db = Inr db \<and> memory_inv db \<and> md_profile db = p"
  by (simp add: memory_open_def migrate_memory_schema_def fresh_memory_db_def validate_schema_version_def
      update_schema_version_def load_or_create_profile_def ensure_memory_search_index_def Let_def
      backfill_search_index_if_needed_def ensure_memory_revisions_def memory_inv_def)

text \<open>
  (C32) Opening a new store succeeds, and whatever requests it then serves, in whatever order, the
  store is consistent: identifiers are unique, every dependency and every predecessor of a record
  is a record of the store, a dependency's scope permits the record's scope and a predecessor has
  exactly its scope, no record made by a worker or the system carries the user's authority, every
  record has its own revision number, numbers increase in the order of insertion, and sizes are
  bounded.
\<close>

theorem memory_always_consistent:
  "\<exists>db. memory_open env profile fresh_memory_db = Inr db \<and> memory_inv (run (memory_step env) ops db)"
  using memory_open_fresh [of env profile] memory.run_inv by blast

text \<open>
  (C14) Forgetting deletes exactly the records reachable, by naming a record as a dependency or revising
  it, from the root of the forgotten record, and nothing else. The root is the record itself or, when it
  is a presentation preference, the first revision of that preference: then its earlier revisions,
  which do not refer to it, go too, with everything that refers to them. The forgotten record is among
  those deleted, nothing that stays refers to anything deleted, the number reported is the number
  deleted, and the forgetting epoch moves on by one.
\<close>

theorem forget_exactly_dependents:
  assumes inv: "memory_inv db" and uuid: "\<forall>r\<in>set (md_records db). uuid_text (m_id r)"
    and "memory_forget env i db = Inr (n, db')"
  shows "\<exists>root. presentation_preference_root env db [] i = Inr root
    \<and> md_records db' = filter (\<lambda>r. m_id r \<notin> doomed exact_child db {root}) (md_records db)
    \<and> n = count_where (\<lambda>r. m_id r \<in> doomed exact_child db {root}) (md_records db)
    \<and> i \<in> doomed exact_child db {root} \<and> i \<notin> m_id ` set (md_records db')
    \<and> memory_inv db' \<and> epoch_of db' = epoch_of db + 1"
proof -
  from assms(3) obtain old root where e: "read_forget_epoch db = Inr old" "old + 1 \<le> u64_max"
    and i: "present db i" and root: "presentation_preference_root env db [] i = Inr root"
    and n: "n = count_where (\<lambda>r. m_id r \<in> doomed like_child db {root}) (md_records db)"
    and db': "db' = write_epoch (old + 1) (without (doomed like_child db {root}) db)"
    by (rule memory_forget_Inr [OF inv])
  from i have "i \<in> m_id ` set (md_records db)" by (auto simp: present_def list_ex_iff)
  from preference_root_reaches [OF root memory_invD(8) [OF inv] this]
  have reach: "(root, i) \<in> (child_edges exact_child db)\<^sup>*" and "root \<in> m_id ` set (md_records db)" by simp_all
  then have eq: "doomed like_child db {root} = doomed exact_child db {root}"
    by (intro doomed_like_exact [OF inv uuid]) simp
  have gone: "i \<in> doomed exact_child db {root}" using reach by (simp add: doomed_def)
  obtain g where "forgotten g db db'" using memory_forget_forgotten [OF inv assms(3)] by blast
  then have "memory_inv db'" "epoch_of db' = epoch_of db + 1"
    using forgotten_inv [OF inv] forgotten_epoch by blast+
  with root n gone show ?thesis unfolding db' eq by (auto simp: write_epoch_def without_def)
qed

theorem forget_exactly_dependents_witness:
  "\<exists>n db'. memory_forget env_example (uuid_example CHR ''a'') memory_example = Inr (n, db')
     \<and> uuid_example CHR ''a'' \<notin> m_id ` set (md_records db')"
proof -
  have "is_ok (memory_forget env_example (uuid_example CHR ''a'') memory_example)"
    by (simp add: memory_example_eq memory_forget_def next_forget_epoch_def read_forget_epoch_def present_def
        presentation_preference_root.simps preference_parent_def is_preference_def memory_eval memory_examples
        u64_checked_add_def u64_max_def case_prod_beta)
  then obtain n db' where f: "memory_forget env_example (uuid_example CHR ''a'') memory_example = Inr (n, db')"
    by (auto simp: is_ok_iff)
  from forget_exactly_dependents [OF memory_example_inv memory_example_uuid f] f show ?thesis by blast
qed

text \<open>
  (C26) Output of work that began before a forgetting is discarded: once a forgetting of either
  kind has succeeded, appending, publishing or dispatching with the epoch of before fails, now and
  after any later requests.
\<close>

theorem late_output_discarded:
  assumes inv: "memory_inv db" and op: "op = Forget i \<or> op = Forget_worker_scope s"
    and step: "memory_step env op db = Inr db1"
  shows "let db' = run (memory_step env) ops db1; e = epoch_of db in
    \<not> is_ok (append_at_epoch env j input e db') \<and> \<not> is_ok (publish_at_epoch e publish db')
    \<and> \<not> is_ok (dispatch_at_epoch_checked e dispatch db')"
proof -
  let ?db = "run (memory_step env) ops db1"
  have "(\<exists>n. memory_forget env i db = Inr (n, db1)) \<or> (\<exists>n. forget_worker_scope s db = Inr (n, db1))"
    using op step by (auto simp: rbind_Inr_iff)
  then obtain gone where "forgotten gone db db1"
    using memory_forget_forgotten [OF inv] forget_worker_scope_forgotten [OF inv] by blast
  then have "epoch_of db < epoch_of db1" and inv1: "memory_inv db1"
    using forgotten_epoch forgotten_inv [OF inv] by fastforce+
  moreover have "epoch_of db1 \<le> epoch_of ?db"
    using memory.run_ahead [OF inv1, of env ops] by (simp add: memory_ahead_def)
  ultimately have later: "epoch_of db < epoch_of ?db" by simp
  have "stored_epoch m ?db \<noteq> Inr (epoch_of db)" for m
    using later by (auto simp: epoch_of_def read_forget_epoch_def stored_epoch_def result_simps split: option.splits)
  then show ?thesis
    by (auto simp: Let_def is_ok_iff append_at_epoch_def publish_at_epoch_def dispatch_at_epoch_checked_def
        result_simps)
qed

theorem late_output_discarded_witness:
  "\<exists>db'. memory_step env_example (Forget (uuid_example CHR ''a'')) memory_example = Inr db'
     \<and> \<not> is_ok (append_at_epoch env_example (uuid_example CHR ''e'')
          (input_example Finding Worker ''late'' [] None) (epoch_of memory_example) db')"
proof -
  have "is_ok (memory_step env_example (Forget (uuid_example CHR ''a'')) memory_example)"
    by (simp add: memory_example_eq memory_forget_def next_forget_epoch_def read_forget_epoch_def present_def
        presentation_preference_root.simps preference_parent_def is_preference_def memory_eval memory_examples
        u64_checked_add_def u64_max_def case_prod_beta)
  then obtain db' where s: "memory_step env_example (Forget (uuid_example CHR ''a'')) memory_example = Inr db'"
    by (auto simp: is_ok_iff)
  from late_output_discarded [OF memory_example_inv disjI1 [OF refl] s, of "[]"] s show ?thesis
    unfolding Let_def run.simps by blast
qed

text \<open>
  A request is served once: after an accepted request with an identifier, repeating it with
  the same content, at any later time before something is forgotten, returns the same record and
  changes nothing, whatever happened in between; the same identifier with other content is refused.
\<close>

theorem idempotent_retry:
  assumes inv: "memory_inv db" and "append_idempotent env fresh request input db = Inr (r, db1)"
    and "db' = run (memory_step env) ops db1" and "epoch_of db' = epoch_of db1"
  shows "append_idempotent env fresh' request input db' = Inr (r, db')
    \<and> (me_digest env input' \<noteq> me_digest env input \<longrightarrow>
        \<not> is_ok (append_idempotent env fresh' request input' db'))"
proof -
  let ?h = "me_digest env input"
  have valid: "validate_request_id request = Inr ()" "validate_input env input = Inr ()"
    using assms(2) by (auto simp: append_idempotent_def append_idempotent_checked_def result_simps)
  have inv1: "memory_inv db1"
    using memory_step_inv [OF inv, of env "Append_idempotent fresh request input"] assms(2) by simp
  have known: "r \<in> set (md_records db1) \<and> (\<exists>rc. rc \<in> set (md_receipts db1) \<and> mr_request_id rc = request
      \<and> mr_payload_hash rc = ?h \<and> mr_record_id rc = Some (m_id r))"
    using assms(2) unfolding append_idempotent_def
  proof (cases rule: append_idempotent_checked_Inr)
    case retry
    then show ?thesis by (auto dest!: existing_idempotent_record_Inr(1) row_by_Some)
  next
    case (new db2)
    then show ?thesis
      by (auto simp: add_receipt_def result_simps dest: append_in_tx_Inr(7))
  qed
  have ahead: "memory_ahead db1 db'" unfolding assms(3) by (rule memory.run_ahead [OF inv1])
  have inv': "memory_inv db'" unfolding assms(3) by (rule memory.run_inv [OF inv1])
  have r: "r \<in> set (md_records db')" using ahead known assms(4) by (auto simp: memory_ahead_def)
  obtain rc where rc: "row_by mr_request_id request (md_receipts db') = Some rc"
    "mr_payload_hash rc = ?h" "mr_record_id rc = Some (m_id r)"
  proof -
    obtain rc where "rc \<in> set (md_receipts db1)" "mr_request_id rc = request"
      "mr_payload_hash rc = ?h" "mr_record_id rc = Some (m_id r)" using known by blast
    moreover from this(1) have "rc \<in> set (md_receipts db')"
      using ahead by (auto simp: memory_ahead_def persists_def)
    ultimately show ?thesis using that row_by_unique [OF memory_invD(6) [OF inv']] by blast
  qed
  have "find (\<lambda>x. m_id x = m_id r \<and> m_profile_id x = md_profile db') (md_records db') = Some r"
  proof (cases "find (\<lambda>x. m_id x = m_id r \<and> m_profile_id x = md_profile db') (md_records db')")
    case None
    with r memory_invD(2) [OF inv' r] show ?thesis by (auto simp: find_None_iff)
  next
    case (Some x)
    then have "x \<in> set (md_records db')" "m_id x = m_id r" by (auto dest!: find_Some_in)
    with r have "x = r" using unique_by_inj [OF memory_invD(1) [OF inv']] by blast
    with Some show ?thesis by simp
  qed
  with valid rc show ?thesis
    by (auto simp: append_idempotent_def append_idempotent_checked_def existing_idempotent_record_def
        Let_def is_ok_iff result_simps)
qed

theorem idempotent_retry_witness:
  "\<exists>r db1. append_idempotent env_example (uuid_example CHR ''e'') ''q''
       (input_example Finding Human ''x'' [] None) memory_example = Inr (r, db1)
     \<and> append_idempotent env_example (uuid_example CHR ''f'') ''q''
       (input_example Finding Human ''x'' [] None) db1 = Inr (r, db1)"
proof -
  have "is_ok (append_idempotent env_example (uuid_example CHR ''e'') ''q''
       (input_example Finding Human ''x'' [] None) memory_example)"
    by (simp add: memory_example_eq append_idempotent_def append_idempotent_checked_def validate_request_id_def
        existing_idempotent_record_def add_receipt_def memory_eval memory_examples)
  then obtain r db1 where a: "append_idempotent env_example (uuid_example CHR ''e'') ''q''
       (input_example Finding Human ''x'' [] None) memory_example = Inr (r, db1)"
    by (auto simp: is_ok_iff)
  from idempotent_retry [OF memory_example_inv a, of db1 "[]"] a show ?thesis by auto
qed

text \<open>
  (C9) Two clients cannot fork a decision: a revision that is accepted (and was not answered from
  its receipt) replaces a record that nothing had replaced before, it is then the only record that
  replaces it, the replaced one is no longer active, and any other revision of it is refused.
\<close>

theorem revision_no_fork:
  assumes inv: "memory_inv db" and "append_revision_idempotent env fresh request input db = Inr (r, db')"
    and new: "row_by mr_request_id request (md_receipts db) = None"
  shows "\<exists>p. n_supersedes input = Some p \<and> \<not> superseded db (Some p)
    \<and> (\<forall>x\<in>set (md_records db'). m_supersedes x = Some p \<longrightarrow> x = r) \<and> get_active db' p = None
    \<and> (n_supersedes other = Some p \<and> row_by mr_request_id request' (md_receipts db') = None \<longrightarrow>
        \<not> is_ok (append_revision_idempotent env fresh' request' other db'))"
proof -
  obtain p where p: "n_supersedes input = Some p"
    and c: "append_idempotent_checked env fresh request input True db = Inr (r, db')"
    using assms(2) by (auto simp: append_revision_idempotent_def result_simps split: option.splits)
  from c obtain db1 where no: "\<not> superseded db (Some p)" and a: "append_in_tx env fresh input db = Inr (r, db1)"
    and b: "add_receipt request (me_digest env input) r db1 = Inr (r, db')"
  proof (cases rule: append_idempotent_checked_Inr)
    case retry
    with new show ?thesis using existing_idempotent_record_Inr(1) by fastforce
  next
    case new
    with p that show ?thesis by simp
  qed
  note f = append_in_tx_Inr [OF a]
  have records: "md_records db' = md_records db @ [r]" and profile: "md_profile db' = md_profile db"
    using b f(7) by (auto simp: add_receipt_def result_simps)
  have r: "m_supersedes r = Some p" "m_profile_id r = md_profile db'" using f(1) p profile by (simp_all add: record_of_input_def)
  then have sup: "superseded db' (Some p)" using records by (auto simp: superseded_def)
  have "m_supersedes x \<noteq> Some p" if "x \<in> set (md_records db)" for x
    using no that memory_invD(2) [OF inv that] by (auto simp: superseded_def list_ex_iff)
  then have "\<forall>x\<in>set (md_records db'). m_supersedes x = Some p \<longrightarrow> x = r" by (auto simp: records)
  moreover have "\<not> is_ok (append_revision_idempotent env fresh' request' other db')"
    if "n_supersedes other = Some p" "row_by mr_request_id request' (md_receipts db') = None"
    using that sup
    by (auto simp: is_ok_iff append_revision_idempotent_def append_idempotent_checked_def
        existing_idempotent_record_def result_simps Let_def split: option.splits)
  ultimately show ?thesis using p no sup by (auto simp: get_active_def)
qed

theorem revision_no_fork_witness:
  "\<exists>r db'. append_revision_idempotent env_example (uuid_example CHR ''e'') ''q''
       (input_example Decision Human ''x'' [uuid_example CHR ''c''] (Some (uuid_example CHR ''c''))) memory_example
         = Inr (r, db')
     \<and> get_active db' (uuid_example CHR ''c'') = None"
proof -
  let ?input = "input_example Decision Human ''x'' [uuid_example CHR ''c''] (Some (uuid_example CHR ''c''))"
  have "is_ok (append_revision_idempotent env_example (uuid_example CHR ''e'') ''q'' ?input memory_example)"
    by (simp add: memory_example_eq append_revision_idempotent_def append_idempotent_checked_def validate_request_id_def
        existing_idempotent_record_def add_receipt_def superseded_def memory_eval memory_examples)
  then obtain r db' where a: "append_revision_idempotent env_example (uuid_example CHR ''e'') ''q'' ?input memory_example
      = Inr (r, db')"
    by (auto simp: is_ok_iff)
  have "row_by mr_request_id ''q'' (md_receipts memory_example) = None" by (simp add: memory_example_eq)
  from revision_no_fork [OF memory_example_inv a this] a show ?thesis by (auto simp: input_example_def)
qed

lemma take_within_bounded:
  "set (take_within bytes rs) \<subseteq> set rs \<and> length (take_within bytes rs) \<le> length rs
   \<and> (bytes \<le> max_record_bytes \<longrightarrow> bytes + sum_list (map record_cost (take_within bytes rs)) \<le> max_record_bytes)"
  by (induction bytes rs rule: take_within.induct) (auto simp: add.assoc)

lemma take_within_sorted: "sorted_wrt P rs \<Longrightarrow> sorted_wrt P (take_within bytes rs)"
proof (induction bytes rs rule: take_within.induct)
  case (2 bytes r rs)
  with take_within_bounded [of "bytes + record_cost r" rs] show ?case by auto
qed simp

lemma in_scope_permits: "in_scope db s r \<longleftrightarrow> m_profile_id r = md_profile db \<and> permits (m_scope r) s"
proof -
  have "c = None \<or> v \<noteq> None \<and> c = v \<longleftrightarrow> c = None \<or> c = v" for c v :: "string option"
    by (cases c) auto
  then show ?thesis by (auto simp: in_scope_def permits_def)
qed

lemma three_way_newest: "three_way newest_first"
  unfolding newest_first_def
proof (rule three_way_then_with)
  show "three_way (\<lambda>a b. compare_of (m_timestamp b) (m_timestamp a))"
    by unfold_locales (auto simp: compare_of_def split: if_splits)
  show "three_way (\<lambda>a b. compare_of (m_id b) (m_id a))"
    by unfold_locales (auto simp: compare_of_def split: if_splits)
qed

lemma three_way_working: "three_way working_order"
  unfolding working_order_def
proof (intro three_way_then_with three_way_newest)
  show "three_way (\<lambda>a b. compare_of (m_protected_policy b) (m_protected_policy a))"
    by unfold_locales (auto simp: compare_of_def split: if_splits)
  show "three_way (\<lambda>a b. compare_of (working_rank a) (working_rank b))"
    by (rule three_way_by_key [where key = working_rank]) (rule compare_of.three_way_axioms)
qed

text \<open>The order of every listing is a total preorder, so the sort of the listings is one.\<close>

interpretation newest: three_way newest_first
  by (rule three_way_newest)

interpretation working: three_way working_order
  by (rule three_way_working)

text \<open>
  What a worker is given to work with stays within what it may see and within its bounds:
  the working set holds only records of this store whose scope permits the requested scope, no
  drafts and nothing superseded, at most 256 of them and at most 256 KiB, protected policy first,
  then standing instructions and corrections, then decisions, newest first within each.
\<close>

theorem working_set_within_bounds:
  assumes "working_set db s limit = Inr rs"
  shows "(\<forall>r\<in>set rs. r \<in> set (md_records db) \<and> permits (m_scope r) s \<and> m_kind r \<noteq> Draft
            \<and> m_decision_state r \<noteq> Some Superseded \<and> \<not> superseded db (Some (m_id r)))
    \<and> length rs \<le> min limit 256 \<and> sum_list (map record_cost rs) \<le> max_record_bytes
    \<and> sorted_wrt (\<lambda>a b. working_order a b \<noteq> Greater) rs"
proof -
  let ?rows = "sort_by working_order (filter (\<lambda>r. in_scope db s r \<and> m_kind r \<noteq> Draft \<and> is_active db r) (md_records db))"
  let ?top = "take (min limit max_retrieval) ?rows"
  have rs: "rs = take_within 0 ?top"
    using assms by (auto simp: working_set_def memory_select_def result_simps Let_def)
  have "set ?top \<subseteq> set ?rows" by (rule set_take_subset)
  then have members: "\<forall>r\<in>set rs. in_scope db s r \<and> m_kind r \<noteq> Draft \<and> is_active db r \<and> r \<in> set (md_records db)"
    using take_within_bounded [of 0 ?top] unfolding rs by fastforce
  moreover have "length ?top \<le> min limit 256" unfolding length_take max_retrieval_def by (rule min.cobounded2)
  moreover have "sorted_wrt (\<lambda>a b. working_order a b \<noteq> Greater) ?top"
    by (rule sorted_wrt_take [OF working.sorted_sort_by])
  ultimately have "length rs \<le> min limit 256" and "sorted_wrt (\<lambda>a b. working_order a b \<noteq> Greater) rs"
    using take_within_bounded [of 0 ?top] take_within_sorted [of _ ?top] unfolding rs by (meson le_trans)+
  moreover have "sum_list (map record_cost rs) \<le> max_record_bytes"
    using take_within_bounded [of 0 ?top] unfolding rs by simp
  ultimately show ?thesis using members by (simp add: in_scope_permits is_active_def)
qed

theorem working_set_within_bounds_witness:
  "\<exists>rs. working_set memory_example scope_example 2 = Inr rs \<and> length rs \<le> 2"
proof -
  have "is_ok (working_set memory_example scope_example 2)"
    by (simp add: working_set_def memory_select_def scope_validate_def scope_example_def Let_def)
  then obtain rs where rs: "working_set memory_example scope_example 2 = Inr rs" by (auto simp: is_ok_iff)
  with working_set_within_bounds [OF rs] show ?thesis by simp
qed

text \<open>One page of the revision listing is the longest prefix that fits.\<close>

lemma bound_page_prefix:
  assumes "bound_page cap bytes acc es through = p"
  shows "\<exists>k \<le> length es. vp_records p = acc @ take k es
    \<and> (vp_has_more p \<longleftrightarrow> k < length es)
    \<and> vp_next p = (if vp_has_more p then (if vp_records p = [] then 0 else rr_revision (last (vp_records p))) else through)
    \<and> (length acc \<le> cap \<longrightarrow> length (vp_records p) \<le> cap) \<and> vp_through p = through
    \<and> (acc = [] \<and> 0 < cap \<and> es \<noteq> [] \<and> bytes + record_cost (rr_record (hd es)) \<le> 2 * max_record_bytes \<longrightarrow> 0 < k)"
  using assms
proof (induction cap bytes acc es through arbitrary: p rule: bound_page.induct)
  case (1 cap bytes acc through)
  then show ?case by auto
next
  case (2 cap bytes acc e es through)
  show ?case
  proof (cases "length acc = cap \<or> bytes + record_cost (rr_record e) > 2 * max_record_bytes")
    case True
    with 2(2) show ?thesis by (intro exI [of _ 0]) auto
  next
    case False
    with 2(2) have "bound_page cap (bytes + record_cost (rr_record e)) (acc @ [e]) es through = p" by simp
    from 2(1) [OF False this] obtain k where "k \<le> length es" "vp_records p = (acc @ [e]) @ take k es"
      "vp_has_more p \<longleftrightarrow> k < length es"
      "vp_next p = (if vp_has_more p then (if vp_records p = [] then 0 else rr_revision (last (vp_records p))) else through)"
      "length (acc @ [e]) \<le> cap \<longrightarrow> length (vp_records p) \<le> cap" "vp_through p = through"
      by blast
    with False show ?thesis by (intro exI [of _ "Suc k"]) auto
  qed
qed

lemma bound_page_start:
  assumes "bound_page cap 0 [] es through = p" and "0 < cap"
  obtains k where "k \<le> length es" "vp_records p = take k es" "vp_has_more p \<longleftrightarrow> k < length es"
    "vp_next p = (if vp_has_more p then (if vp_records p = [] then 0 else rr_revision (last (vp_records p))) else through)"
    "length (vp_records p) \<le> cap" "vp_through p = through"
    "es \<noteq> [] \<and> record_cost (rr_record (hd es)) \<le> 2 * max_record_bytes \<longrightarrow> 0 < k"
proof -
  from bound_page_prefix [OF assms(1)] show ?thesis
    by (elim exE conjE) (rule that, use assms(2) in simp_all)
qed

lemma sort_by_sorted: 
  "sorted_wrt (\<lambda>a b. cmp a b = Less) xs \<Longrightarrow> sort_by cmp xs = xs"
proof (induction xs)
  case (Cons x xs)
  then show ?case by (cases xs) auto
qed simp

lemma filter_up_to_nth:
  assumes "sorted_wrt (\<lambda>a b. f a < (f b :: nat)) xs" and "0 < k" "k \<le> length xs"
  shows "filter (\<lambda>x. f x \<le> f (last (take k xs))) xs = take k xs"
proof -
  have split: "sorted_wrt (\<lambda>a b. f a < f b) (take k xs @ drop k xs)" using assms(1) by simp
  have ne: "take k xs \<noteq> []" using assms(2,3) by auto
  have "f x \<le> f (last (take k xs))" if "x \<in> set (take k xs)" for x
  proof -
    have "take k xs = butlast (take k xs) @ [last (take k xs)]" using ne by simp
    then have "sorted_wrt (\<lambda>a b. f a < f b) (butlast (take k xs) @ [last (take k xs)])"
      using split by (simp add: sorted_wrt_append)
    moreover have "x \<in> set (butlast (take k xs) @ [last (take k xs)])" using that ne by simp
    ultimately show ?thesis unfolding sorted_wrt_append by auto
  qed
  moreover have "f (last (take k xs)) < f x" if "x \<in> set (drop k xs)" for x
    using split that last_in_set [OF ne] unfolding sorted_wrt_append by blast
  ultimately have "filter (\<lambda>x. f x \<le> f (last (take k xs))) (take k xs @ drop k xs) = take k xs"
    unfolding filter_append by (auto simp: filter_id_conv filter_empty_conv not_le)
  then show ?thesis by simp
qed

definition listed :: "memory_db \<Rightarrow> scope \<Rightarrow> bool \<Rightarrow> revision_record \<Rightarrow> bool" where
  "listed db s active_only e \<longleftrightarrow>
     in_scope db s (rr_record e)
     \<and> (\<not> active_only \<or> m_kind (rr_record e) \<noteq> Draft \<and> is_active db (rr_record e))"

lemma revision_rows_sorted:
  assumes "memory_inv db"
  shows "sorted_wrt (\<lambda>a b. rr_revision a < rr_revision b) (revision_rows db)"
    and "e \<in> set (revision_rows db) \<Longrightarrow> rr_record e \<in> set (md_records db)"
proof -
  have key: "sorted_wrt (\<lambda>a b. rr_revision a < rr_revision b)
      (List.map_filter (\<lambda>v. map_option (\<lambda>r. \<lparr> rr_revision = v_revision v, rr_record = r \<rparr>) (g v)) vs)"
    if "sorted_wrt (\<lambda>v w. v_revision v < v_revision w) vs" for g vs
    using that by (induction vs) (auto simp: List.map_filter_def split: option.splits)
  have "sorted_wrt (\<lambda>v w. v_revision v < v_revision w) (md_revisions db)"
    using assms by (simp add: memory_inv_def)
  then show "sorted_wrt (\<lambda>a b. rr_revision a < rr_revision b) (revision_rows db)"
    unfolding revision_rows_def by (rule key)
  show "rr_record e \<in> set (md_records db)" if "e \<in> set (revision_rows db)"
    using that by (fastforce simp: revision_rows_def List.map_filter_def dest: row_by_Some)
qed

text \<open>
  Paging through the revisions loses nothing and always gets further: a page holds exactly
  the matching records numbered after the given number up to the number it reports as next, in
  order and at most 64 of them; when it says there is more, it is not empty and next lies strictly
  beyond the given number, and when it does not, next is the end of the range.
\<close>

theorem revision_page_complete:
  assumes inv: "memory_inv db" and page: "revision_page_of db s after through limit active_only = Inr p"
  shows "vp_records p = filter (\<lambda>e. after < rr_revision e \<and> rr_revision e \<le> vp_next p \<and> listed db s active_only e)
           (revision_rows db)
    \<and> length (vp_records p) \<le> min limit 64
    \<and> vp_through p = (case through of None \<Rightarrow> md_sequence db | Some t \<Rightarrow> t)
    \<and> (if vp_has_more p then after < vp_next p \<and> vp_next p \<le> vp_through p \<and> vp_records p \<noteq> []
       else vp_next p = vp_through p)"
proof -
  define t where "t = (case through of None \<Rightarrow> md_sequence db | Some t \<Rightarrow> t)"
  define cap where "cap = min limit 64"
  define rows where "rows = filter (\<lambda>e. after < rr_revision e \<and> rr_revision e \<le> t \<and> listed db s active_only e)
    (revision_rows db)"
  have sorted: "sorted_wrt (\<lambda>a b. rr_revision a < rr_revision b) rows"
    unfolding rows_def using revision_rows_sorted(1) [OF inv] by (rule sorted_wrt_filter)
  then have "sort_by (\<lambda>a b. compare_of (rr_revision a) (rr_revision b)) rows = rows"
    by (intro sort_by_sorted) (erule sorted_wrt_mono_rel [rotated], simp add: compare_of_def)
  with page have p: "bound_page cap 0 [] (take (cap + 1) rows) t = p" and cap: "0 < cap"
    by (auto simp: revision_page_of_def result_simps Let_def bound_revision_page_def rows_def t_def cap_def
        listed_def)
  let ?top = "take (cap + 1) rows"
  obtain k where k: "k \<le> length ?top" and recs: "vp_records p = take k ?top"
    and more: "vp_has_more p \<longleftrightarrow> k < length ?top"
    and nxt: "vp_next p = (if vp_has_more p then (if vp_records p = [] then 0 else rr_revision (last (vp_records p))) else t)"
    and len: "length (vp_records p) \<le> cap" and thr: "vp_through p = t"
    and pos: "?top \<noteq> [] \<and> record_cost (rr_record (hd ?top)) \<le> 2 * max_record_bytes \<longrightarrow> 0 < k"
    by (rule bound_page_start [OF p cap])
  have take_k: "vp_records p = take k rows" and kcap: "k \<le> cap"
    using recs k len by (simp_all add: min_def split: if_splits)
  have filter_next: "filter (\<lambda>e. after < rr_revision e \<and> rr_revision e \<le> vp_next p \<and> listed db s active_only e)
      (revision_rows db) = filter (\<lambda>e. rr_revision e \<le> vp_next p) rows" if "vp_next p \<le> t"
    using that unfolding rows_def filter_filter by (intro filter_cong) auto
  show ?thesis
  proof (cases "vp_has_more p")
    case False
    then have "vp_records p = rows" using more take_k k kcap by simp
    moreover have "\<forall>e\<in>set rows. rr_revision e \<le> t" by (simp add: rows_def)
    then have "filter (\<lambda>e. rr_revision e \<le> t) rows = rows" by (simp add: filter_id_conv)
    ultimately show ?thesis using False nxt filter_next len thr by (simp add: t_def cap_def)
  next
    case True
    have "record_cost (rr_record e) \<le> 2 * max_record_bytes" if "e \<in> set rows" for e
      using that revision_rows_sorted(2) [OF inv] memory_invD(4) [OF inv]
      by (fastforce simp: rows_def record_cost_def sizes_ok_def)
    moreover have "take (cap + 1) rows \<noteq> []" using True more by auto
    moreover from this have "hd (take (cap + 1) rows) \<in> set rows" by (meson hd_in_set in_set_takeD)
    ultimately have "0 < k" using pos by blast
    moreover have "k \<le> length rows" using k by simp
    moreover have "vp_records p \<noteq> []" using calculation take_k by auto
    moreover have "last (vp_records p) \<in> set rows" using take_k calculation(3) by (metis in_set_takeD last_in_set)
    ultimately show ?thesis
      using True nxt filter_next len thr take_k filter_up_to_nth [OF sorted, of k]
      by (auto simp: rows_def t_def cap_def)
  qed
qed

theorem revision_page_complete_witness:
  "\<exists>p. revision_page_of memory_example scope_example 1 None 1 True = Inr p \<and> length (vp_records p) \<le> 1"
proof -
  have "is_ok (revision_page_of memory_example scope_example 1 None 1 True)"
    by (simp add: revision_page_of_def scope_validate_def scope_example_def memory_example_eq Let_def)
  then obtain p where p: "revision_page_of memory_example scope_example 1 None 1 True = Inr p"
    by (auto simp: is_ok_iff)
  from revision_page_complete [OF memory_example_inv p] have "length (vp_records p) \<le> min 1 64" by blast
  with p show ?thesis by (intro exI [of _ p]) simp
qed

definition terms_ok :: "string list \<Rightarrow> bool" where
  "terms_ok ts \<longleftrightarrow>
     distinct ts \<and> length ts \<le> max_search_terms
     \<and> (\<forall>t\<in>set ts. t \<noteq> [] \<and> length t \<le> max_search_term_bytes \<and> CHR 0x22 \<notin> set t)"

lemma flush_term_ok:
  "terms_ok ts \<Longrightarrow> CHR 0x22 \<notin> set piece \<Longrightarrow> terms_ok (flush_term piece ts)"
  by (auto simp: flush_term_def terms_ok_def)

lemma flush_term_size:
  "sum_list (map length (flush_term piece ts)) \<le> sum_list (map length ts) + length piece"
  by (simp add: flush_term_def)

lemma scan_terms_ok:
  assumes "\<forall>c. alphanumeric c \<longrightarrow> CHR 0x22 \<notin> set c"
    and "terms_ok ts" and "CHR 0x22 \<notin> set piece" and "sum_list (map length ts) + length piece \<le> scanned"
    and "scanned \<le> max_search_query_bytes"
  shows "terms_ok (scan_terms alphanumeric scanned piece ts cs)
    \<and> sum_list (map length (scan_terms alphanumeric scanned piece ts cs)) \<le> max_search_query_bytes"
  using assms(2-)
proof (induction cs arbitrary: scanned piece ts)
  case Nil
  then show ?case using flush_term_size [of piece ts] by (simp add: flush_term_ok)
next
  case (Cons c cs)
  show ?case
  proof (cases "scanned + length c > max_search_query_bytes")
    case True
    with Cons.prems show ?thesis using flush_term_size [of piece ts] by (simp add: flush_term_ok)
  next
    case False
    show ?thesis
    proof (cases "alphanumeric c \<or> c = ''_''")
      case True
      then have "CHR 0x22 \<notin> set c" using assms(1) by auto
      with Cons.prems False True show ?thesis by (simp add: Cons.IH)
    next
      case no: False
      with Cons.prems False show ?thesis
        using flush_term_size [of piece ts] Cons.IH [of "flush_term piece ts" "[]" "scanned + length c"]
        by (simp add: flush_term_ok)
    qed
  qed
qed

lemma double_quotes_id: "CHR 0x22 \<notin> set t \<Longrightarrow> double_quotes t = t"
  by (induction t) auto

text \<open>
  Whatever text a prompt contains, the full-text query made of it is inert: at most 32
  distinct non-empty terms of at most 128 bytes, 4096 bytes in all, each between quotation marks
  and free of quotation marks itself, joined by OR. (A quotation mark is no letter or digit.)
\<close>

theorem lexical_query_inert:
  assumes "\<forall>c. alphanumeric c \<longrightarrow> CHR 0x22 \<notin> set c"
  shows "\<exists>ts. lexical_match_query alphanumeric query
      = join_with '' OR '' (map (\<lambda>t. [CHR 0x22] @ t @ [CHR 0x22]) ts)
    \<and> distinct ts \<and> length ts \<le> 32 \<and> sum_list (map length ts) \<le> 4096
    \<and> (\<forall>t\<in>set ts. t \<noteq> [] \<and> length t \<le> 128 \<and> CHR 0x22 \<notin> set t)"
proof -
  let ?ts = "scan_terms alphanumeric 0 [] [] (utf8_chars query)"
  have ok: "terms_ok ?ts \<and> sum_list (map length ?ts) \<le> max_search_query_bytes"
    by (rule scan_terms_ok [OF assms]) (simp_all add: terms_ok_def)
  then have eq: "map quote_term ?ts = map (\<lambda>t. [CHR 0x22] @ t @ [CHR 0x22]) ?ts"
    by (auto simp: quote_term_def double_quotes_id terms_ok_def)
  show ?thesis
    unfolding lexical_match_query_def eq using ok
    by (intro exI [of _ ?ts]) (simp add: terms_ok_def max_search_terms_def max_search_term_bytes_def
        max_search_query_bytes_def)
qed

theorem lexical_query_inert_witness:
  "\<exists>ts. lexical_match_query (me_alphanumeric env_example) ''drop (x) OR y*''
        = join_with '' OR '' (map (\<lambda>t. [CHR 0x22] @ t @ [CHR 0x22]) ts)
      \<and> distinct ts \<and> length ts \<le> 32"
proof -
  have "\<forall>c. me_alphanumeric env_example c \<longrightarrow> CHR 0x22 \<notin> set c"
    by (auto simp: env_example_def list_all_iff is_ascii_alphanumeric_def is_ascii_digit_def)
  from lexical_query_inert [OF this] show ?thesis by blast
qed

end
