(* ===== verification/Lifecycle.thy ===== *)
theory Lifecycle
  imports Memory
begin

text \<open>
  The opt-in background lifetime of the assistant (src/assistant_lifecycle.rs): a saved approval,
  the table of background reservations charged against it, and the gate that keeps the host alive.
  The saved approval is the structured value its JSON text decodes to. Every method is a function
  to an error or the new store.
\<close>

datatype lifecycle_error = Bail string | Storage string

record background_config =
  bc_scope :: scope
  bc_executable :: string
  bc_max_calls :: u64
  bc_expires_at :: i64
  bc_job_timeout_secs :: u64

record saved =
  sv_config :: "background_config option"
  sv_enabled :: bool
  sv_paused :: bool
  sv_revision :: u64

record lifecycle_status =
  ls_config :: "background_config option"
  ls_enabled :: bool
  ls_paused :: bool
  ls_state :: string
  ls_reserved_calls :: u64
  ls_remaining_calls :: u64

datatype root_outcome = Root_completed | Root_failed | Root_unknown

record background_root =
  br_id :: string
  br_calls :: u64
  br_deadline :: i64
  br_state :: string
  br_config_revision :: u64
  br_confirmed_calls :: "u64 option"

section \<open>The gate\<close>

record lifetime_gate =
  gt_expires :: i64
  gt_holds :: nat

definition closed_gate :: lifetime_gate where
  "closed_gate = \<lparr> gt_expires = 0, gt_holds = 0 \<rparr>"

definition keeps_alive :: "lifetime_gate \<Rightarrow> i64 \<Rightarrow> bool" where
  "keeps_alive g now \<longleftrightarrow> now \<ge> 0 \<and> (now < gt_expires g \<or> gt_holds g > 0)"

definition retain_cleanup :: "lifetime_gate \<Rightarrow> lifetime_gate" where
  "retain_cleanup g = g\<lparr>gt_holds := gt_holds g + 1\<rparr>"

definition drop_cleanup :: "lifetime_gate \<Rightarrow> lifetime_gate" where
  "drop_cleanup g = g\<lparr>gt_holds := gt_holds g - 1\<rparr>"

record lifecycle =
  lc_saved :: "saved option"
  lc_roots :: "background_root list"
  lc_gate :: lifetime_gate

definition load_saved :: "lifecycle \<Rightarrow> saved" where
  "load_saved lc =
     (case lc_saved lc of
        Some s \<Rightarrow> s
      | None \<Rightarrow> \<lparr> sv_config = None, sv_enabled = False, sv_paused = True, sv_revision = 0 \<rparr>)"

definition refresh_gate :: "saved \<Rightarrow> lifetime_gate \<Rightarrow> lifetime_gate" where
  "refresh_gate s g =
     g\<lparr>gt_expires := (case sv_config s of None \<Rightarrow> 0 | Some c \<Rightarrow> if sv_enabled s then bc_expires_at c else 0)\<rparr>"

section \<open>Opening\<close>

definition recover_root :: "background_root \<Rightarrow> background_root" where
  "recover_root r =
     (if br_state r = ''reserved'' then r\<lparr>br_state := ''abandoned''\<rparr>
      else if br_state r = ''dispatched'' then r\<lparr>br_state := ''unknown''\<rparr> else r)"

definition lifecycle_open :: "lifecycle \<Rightarrow> lifecycle" where
  "lifecycle_open lc =
     lc\<lparr>lc_roots := map recover_root (lc_roots lc), lc_gate := refresh_gate (load_saved lc) closed_gate\<rparr>"

definition lifecycle_attach :: "lifecycle \<Rightarrow> lifecycle" where
  "lifecycle_attach lc = lc\<lparr>lc_gate := refresh_gate (load_saved lc) closed_gate\<rparr>"

definition lifecycle_save :: "saved \<Rightarrow> bool \<Rightarrow> lifecycle \<Rightarrow> lifecycle" where
  "lifecycle_save s cancel_pending lc =
     lc\<lparr>lc_saved := Some s,
        lc_roots := (if cancel_pending
                     then update_where (\<lambda>r. br_state r = ''reserved'') (\<lambda>r. r\<lparr>br_state := ''cancelled''\<rparr>) (lc_roots lc)
                     else lc_roots lc),
        lc_gate := refresh_gate s (lc_gate lc)\<rparr>"

section \<open>Checks\<close>

definition human :: "origin \<Rightarrow> lifecycle_error + unit" where
  "human origin =
     ensure (origin = Human) (Bail ''Only explicit human input may change background approval or lifecycle'')"

definition lifecycle_validate_scope :: "scope \<Rightarrow> lifecycle_error + unit" where
  "lifecycle_validate_scope s =
     ensure (\<not> list_ex (\<lambda>v. case v of None \<Rightarrow> False
                           | Some w \<Rightarrow> w = [] \<or> length w > 512 \<or> has_control w)
               [sc_node s, sc_project s, sc_provider s, sc_conversation s])
       (Bail ''Background scope is invalid'')"

definition validate_reservation :: "string \<Rightarrow> u64 \<Rightarrow> lifecycle_error + unit" where
  "validate_reservation material_root calls =
     ensure (\<not> (material_root = [] \<or> length material_root > 256 \<or> has_control material_root
                \<or> calls = 0 \<or> int calls > i64_max))
       (Bail ''Background reservation requires a bounded exact material root and positive call count'')"

definition dispatch_config :: "saved \<Rightarrow> i64 \<Rightarrow> lifecycle_error + background_config" where
  "dispatch_config s now =
     rbind (ok_or (sv_config s) (Bail ''Background is not approved'')) (\<lambda>config.
     rbind (ensure (\<not> (\<not> sv_enabled s \<or> sv_paused s \<or> now < 0 \<or> now \<ge> bc_expires_at config))
              (Bail ''Background is disabled, paused, or expired'')) (\<lambda>_. Inr config))"

definition root_cost :: "background_root \<Rightarrow> int" where
  "root_cost r = (case br_confirmed_calls r of Some n \<Rightarrow> int n | None \<Rightarrow> int (br_calls r))"

definition spent :: "lifecycle \<Rightarrow> lifecycle_error + u64" where
  "spent lc =
     rbind (ok_or (sum_where (\<lambda>_. True) root_cost (lc_roots lc)) (Storage ''integer overflow'')) (\<lambda>total.
     ok_or (u64_try_from total) (Bail ''Invalid background accounting''))"

definition get_reservation :: "lifecycle \<Rightarrow> string \<Rightarrow> background_root option" where
  "get_reservation lc i = row_by br_id i (lc_roots lc)"

text \<open>Paths are compared by their components, as \<open>std::path::Path\<close> compares them.\<close>

definition is_absolute :: "string \<Rightarrow> bool" where
  "is_absolute p \<longleftrightarrow> p \<noteq> [] \<and> hd p = CHR ''/''"

definition path_components :: "string \<Rightarrow> bool \<times> string list" where
  "path_components p =
     (let parts = filter (\<lambda>c. c \<noteq> []) (split_on (CHR ''/'') p) in
      (is_absolute p,
       if is_absolute p then filter (\<lambda>c. c \<noteq> ''.'') parts
       else (case parts of [] \<Rightarrow> [] | c # cs \<Rightarrow> c # filter (\<lambda>c. c \<noteq> ''.'') cs)))"

section \<open>Operations\<close>

definition approve ::
  "origin \<Rightarrow> background_config \<Rightarrow> scope \<Rightarrow> string \<Rightarrow> u64 \<Rightarrow> i64 \<Rightarrow> lifecycle \<Rightarrow> lifecycle_error + lifecycle" where
  "approve origin config foreground_scope foreground_executable foreground_lifetime_calls now lc =
     rbind (human origin) (\<lambda>_.
     rbind (ensure
              (\<not> (bc_scope config \<noteq> foreground_scope
                 \<or> path_components (bc_executable config) \<noteq> path_components foreground_executable
                 \<or> bc_max_calls config = 0
                 \<or> bc_max_calls config > foreground_lifetime_calls
                 \<or> int (bc_max_calls config) > i64_max
                 \<or> bc_expires_at config \<le> now
                 \<or> now < 0
                 \<or> \<not> (1 \<le> bc_job_timeout_secs config \<and> bc_job_timeout_secs config \<le> 3600)
                 \<or> \<not> is_absolute (bc_executable config)
                 \<or> (case sc_project (bc_scope config) of None \<Rightarrow> True | Some s \<Rightarrow> blank s)))
              (Bail ''Background approval must match the exact foreground scope/binary, fit its lifetime allowance, and have a future expiry and 1-3600 second job deadline'')) (\<lambda>_.
     rbind (lifecycle_validate_scope (bc_scope config)) (\<lambda>_.
     rbind (ok_or (u64_checked_add (sv_revision (load_saved lc)) 1)
              (Bail ''Background approval revision exhausted'')) (\<lambda>revision.
     Inr (lifecycle_save
            \<lparr> sv_config = Some config, sv_enabled = True, sv_paused = False, sv_revision = revision \<rparr>
            True lc)))))"

definition pause :: "origin \<Rightarrow> lifecycle \<Rightarrow> lifecycle_error + lifecycle" where
  "pause origin lc =
     rbind (human origin) (\<lambda>_. Inr (lifecycle_save ((load_saved lc)\<lparr>sv_paused := True\<rparr>) True lc))"

definition resume :: "origin \<Rightarrow> i64 \<Rightarrow> lifecycle \<Rightarrow> lifecycle_error + lifecycle" where
  "resume origin now lc =
     rbind (human origin) (\<lambda>_.
     let s = load_saved lc in
     rbind (ensure (\<not> (\<not> sv_enabled s
                       \<or> (case sv_config s of None \<Rightarrow> True | Some c \<Rightarrow> now < 0 \<or> bc_expires_at c \<le> now)))
              (Bail ''Background approval is absent, disabled, or expired; explicit approval is required'')) (\<lambda>_.
     Inr (lifecycle_save (s\<lparr>sv_paused := False\<rparr>) False lc)))"

definition disable :: "origin \<Rightarrow> lifecycle \<Rightarrow> lifecycle_error + lifecycle" where
  "disable origin lc =
     rbind (human origin) (\<lambda>_.
     Inr (lifecycle_save ((load_saved lc)\<lparr>sv_enabled := False, sv_paused := True\<rparr>) True lc))"

definition snapshot :: "lifecycle \<Rightarrow> i64 \<Rightarrow> lifecycle_error + lifecycle_status" where
  "snapshot lc now =
     (let s = load_saved lc in
      rbind (spent lc) (\<lambda>reserved.
      let remaining = (case sv_config s of None \<Rightarrow> 0 | Some c \<Rightarrow> u64_saturating_sub (bc_max_calls c) reserved);
          state = (if \<not> sv_enabled s then ''off''
                   else if (case sv_config s of None \<Rightarrow> True | Some c \<Rightarrow> now < 0 \<or> bc_expires_at c \<le> now)
                   then ''expired''
                   else if sv_paused s then ''paused''
                   else if remaining = 0 then ''exhausted''
                   else ''enabled'')
      in Inr \<lparr> ls_config = sv_config s, ls_enabled = sv_enabled s, ls_paused = sv_paused s, ls_state = state,
               ls_reserved_calls = reserved, ls_remaining_calls = remaining \<rparr>))"

definition background_reserve ::
  "string \<Rightarrow> u64 \<Rightarrow> i64 \<Rightarrow> lifecycle \<Rightarrow> lifecycle_error + background_root \<times> lifecycle" where
  "background_reserve material_root calls now lc =
     rbind (validate_reservation material_root calls) (\<lambda>_.
     let s = load_saved lc in
     rbind (dispatch_config s now) (\<lambda>config.
     rbind (ok_or (i64_checked_add now (as_i64 (bc_job_timeout_secs config)))
              (Bail ''Background deadline overflow'')) (\<lambda>limit.
     let deadline = min limit (bc_expires_at config) in
     rbind (spent lc) (\<lambda>used.
     rbind (ensure (\<not> calls > u64_saturating_sub (bc_max_calls config) used)
              (Bail ''Background call allowance exhausted'')) (\<lambda>_.
     rbind (ensure (get_reservation lc material_root = None)
              (Bail ''Material revision was already reserved; no automatic replay'')) (\<lambda>_.
     rbind (ensure (int (sv_revision s) \<le> i64_max) (Storage ''revision out of range'')) (\<lambda>_.
     let r = \<lparr> br_id = material_root, br_calls = calls, br_deadline = deadline, br_state = ''reserved'',
               br_config_revision = sv_revision s, br_confirmed_calls = None \<rparr>
     in Inr (r, lc\<lparr>lc_roots := lc_roots lc @ [r]\<rparr>))))))))"

definition begin_dispatch ::
  "string \<Rightarrow> i64 \<Rightarrow> lifecycle \<Rightarrow> lifecycle_error + background_root \<times> lifecycle" where
  "begin_dispatch i now lc =
     (let s = load_saved lc in
      rbind (dispatch_config s now) (\<lambda>_.
      rbind (ok_or (get_reservation lc i) (Bail ''Background reservation not found'')) (\<lambda>r.
      rbind (ensure (\<not> (br_state r \<noteq> ''reserved'' \<or> br_config_revision r \<noteq> sv_revision s \<or> now \<ge> br_deadline r))
               (Bail ''Background reservation is no longer dispatchable; no automatic retry'')) (\<lambda>_.
      Inr (r\<lparr>br_state := ''dispatched''\<rparr>,
           lc\<lparr>lc_roots := update_where (\<lambda>r. br_id r = i) (\<lambda>r. r\<lparr>br_state := ''dispatched''\<rparr>) (lc_roots lc)\<rparr>)))))"

fun outcome_state_of :: "root_outcome \<Rightarrow> string" where
  "outcome_state_of Root_completed = ''completed''"
| "outcome_state_of Root_failed = ''failed''"
| "outcome_state_of Root_unknown = ''unknown''"

definition finish_measured ::
  "string \<Rightarrow> root_outcome \<Rightarrow> u64 option \<Rightarrow> lifecycle \<Rightarrow> lifecycle_error + lifecycle" where
  "finish_measured i outcome confirmed_calls lc =
     (let state = outcome_state_of outcome in
      rbind (ok_or (get_reservation lc i) (Bail ''Background reservation not found'')) (\<lambda>current.
      let measured = (if outcome = Root_completed then confirmed_calls else None) in
      rbind (ensure (\<not> (case measured of None \<Rightarrow> False | Some calls \<Rightarrow> calls > br_calls current))
               (Bail ''Confirmed background calls exceed the original reservation'')) (\<lambda>_.
      rbind (ensure (\<not> (br_confirmed_calls current \<noteq> None \<and> measured \<noteq> None
                        \<and> br_confirmed_calls current \<noteq> measured))
               (Bail ''A completed background measurement cannot be rewritten'')) (\<lambda>_.
      rbind (ensure (\<not> (br_state current \<noteq> ''dispatched'' \<and> br_state current \<noteq> state))
               (Bail ''Only the exact dispatched background root can receive an outcome'')) (\<lambda>_.
      Inr (lc\<lparr>lc_roots := update_where (\<lambda>r. br_id r = i)
             (\<lambda>r. r\<lparr>br_state := state,
                     br_confirmed_calls := (case br_confirmed_calls r of Some n \<Rightarrow> Some n | None \<Rightarrow> measured)\<rparr>)
             (lc_roots lc)\<rparr>))))))"

definition finish :: "string \<Rightarrow> root_outcome \<Rightarrow> lifecycle \<Rightarrow> lifecycle_error + lifecycle" where
  "finish i outcome lc = finish_measured i outcome None lc"

section \<open>The lifetime as a state machine\<close>

datatype lifecycle_op =
  Approve origin background_config scope string u64 i64
| Pause origin
| Resume origin i64
| Disable origin
| Reserve string u64 i64
| Begin_dispatch string i64
| Finish string root_outcome "u64 option"
| Reopen
| Retain_cleanup
| Drop_cleanup

fun lifecycle_step :: "lifecycle_op \<Rightarrow> lifecycle \<Rightarrow> lifecycle_error + lifecycle" where
  "lifecycle_step (Approve origin c s e n now) lc = approve origin c s e n now lc"
| "lifecycle_step (Pause origin) lc = pause origin lc"
| "lifecycle_step (Resume origin now) lc = resume origin now lc"
| "lifecycle_step (Disable origin) lc = disable origin lc"
| "lifecycle_step (Reserve i n now) lc = rbind (background_reserve i n now lc) (\<lambda>(_, lc'). Inr lc')"
| "lifecycle_step (Begin_dispatch i now) lc = rbind (begin_dispatch i now lc) (\<lambda>(_, lc'). Inr lc')"
| "lifecycle_step (Finish i outcome measured) lc = finish_measured i outcome measured lc"
| "lifecycle_step Reopen lc = Inr (lifecycle_open lc)"
| "lifecycle_step Retain_cleanup lc = Inr (lc\<lparr>lc_gate := retain_cleanup (lc_gate lc)\<rparr>)"
| "lifecycle_step Drop_cleanup lc = Inr (lc\<lparr>lc_gate := drop_cleanup (lc_gate lc)\<rparr>)"

definition fresh_lifecycle :: lifecycle where
  "fresh_lifecycle = \<lparr> lc_saved = None, lc_roots = [], lc_gate = closed_gate \<rparr>"

end
