(* ===== verification/Lifecycle_Laws.thy ===== *)
theory Lifecycle_Laws
  imports Lifecycle Once
begin

text \<open>
  What the background lifetime keeps: the effect of each operation on the table of roots, the
  invariant and the order along which roots move, and the properties of the allowance, of replay
  and of pausing.
\<close>

section \<open>Effects\<close>

definition root_ok :: "background_root \<Rightarrow> bool" where
  "root_ok r \<longleftrightarrow>
     0 < br_calls r \<and> int (br_calls r) \<le> i64_max
     \<and> (case br_confirmed_calls r of None \<Rightarrow> True | Some n \<Rightarrow> n \<le> br_calls r \<and> br_state r = ''completed'')"

text \<open>Queued work exists only under the present, enabled and running approval.\<close>

definition queued_ok :: "saved \<Rightarrow> background_root \<Rightarrow> bool" where
  "queued_ok s r \<longleftrightarrow>
     (br_state r = ''reserved'' \<longrightarrow> sv_enabled s \<and> \<not> sv_paused s \<and> br_config_revision r = sv_revision s)"

definition lifecycle_inv :: "lifecycle \<Rightarrow> bool" where
  "lifecycle_inv lc \<longleftrightarrow>
     unique_by br_id (lc_roots lc)
     \<and> (\<forall>r\<in>set (lc_roots lc). root_ok r \<and> queued_ok (load_saved lc) r)
     \<and> gt_expires (lc_gate lc) = gt_expires (refresh_gate (load_saved lc) (lc_gate lc))"

definition total_cost :: "lifecycle \<Rightarrow> int" where
  "total_cost lc = total_where (\<lambda>_. True) root_cost (lc_roots lc)"

definition within_approval :: "lifecycle \<Rightarrow> bool" where
  "within_approval lc \<longleftrightarrow>
     (case sv_config (load_saved lc) of None \<Rightarrow> True | Some c \<Rightarrow> total_cost lc \<le> int (bc_max_calls c))"

definition root_state_ahead :: "string \<Rightarrow> string \<Rightarrow> bool" where
  "root_state_ahead a b \<longleftrightarrow>
     a = b \<or> a = ''reserved'' \<or> (a = ''dispatched'' \<and> b \<in> {''completed'', ''failed'', ''unknown''})"

definition root_ahead :: "background_root \<Rightarrow> background_root \<Rightarrow> bool" where
  "root_ahead r r' \<longleftrightarrow>
     br_id r' = br_id r \<and> br_calls r' = br_calls r \<and> br_deadline r' = br_deadline r
     \<and> br_config_revision r' = br_config_revision r \<and> root_state_ahead (br_state r) (br_state r')
     \<and> (br_confirmed_calls r \<noteq> None \<longrightarrow> br_confirmed_calls r' = br_confirmed_calls r)"

definition lifecycle_ahead :: "lifecycle \<Rightarrow> lifecycle \<Rightarrow> bool" where
  "lifecycle_ahead a b \<longleftrightarrow>
     persists root_ahead (lc_roots a) (lc_roots b)
     \<and> sv_revision (load_saved a) \<le> sv_revision (load_saved b)"

lemma root_ahead_refl: "root_ahead r r"
  by (simp add: root_ahead_def root_state_ahead_def)

lemma root_ahead_trans: "transp root_ahead"
  by (rule transpI) (auto simp: root_ahead_def root_state_ahead_def)

lemma lifecycle_ahead_refl: "lifecycle_ahead a a"
  by (simp add: lifecycle_ahead_def persists_refl root_ahead_refl)

lemma lifecycle_ahead_trans: "lifecycle_ahead a b \<Longrightarrow> lifecycle_ahead b c \<Longrightarrow> lifecycle_ahead a c"
  by (auto simp: lifecycle_ahead_def intro: persists_trans [OF root_ahead_trans])

lemma lifecycle_invD:
  assumes "lifecycle_inv lc"
  shows "unique_by br_id (lc_roots lc)"
    and "r \<in> set (lc_roots lc) \<Longrightarrow> root_ok r"
    and "r \<in> set (lc_roots lc) \<Longrightarrow> queued_ok (load_saved lc) r"
  using assms by (simp_all add: lifecycle_inv_def)

lemma load_saved_simps [simp]:
  "load_saved (lifecycle_save s cancel lc) = s"
  "load_saved (lc\<lparr>lc_roots := rows\<rparr>) = load_saved lc"
  "load_saved (lc\<lparr>lc_gate := g\<rparr>) = load_saved lc"
  "load_saved (lifecycle_open lc) = load_saved lc"
  by (simp_all add: load_saved_def lifecycle_save_def lifecycle_open_def)

lemma root_cost_state [simp]: "root_cost (r\<lparr>br_state := st\<rparr>) = root_cost r"
  by (simp add: root_cost_def split: option.splits)

lemma fresh_lifecycle_inv: "lifecycle_inv fresh_lifecycle"
  by (simp add: lifecycle_inv_def fresh_lifecycle_def load_saved_def refresh_gate_def closed_gate_def)

lemma root_cost_pos: "root_ok r \<Longrightarrow> 0 \<le> root_cost r \<and> root_cost r \<le> int (br_calls r)"
  by (auto simp: root_ok_def root_cost_def split: option.splits)

lemma spent_Inr:
  assumes "spent lc = Inr n"
  shows "int n = total_cost lc"
  using assms by (auto simp: spent_def result_simps u64_try_from_def total_cost_def dest!: sum_where_Some
      split: if_splits)

lemma dispatch_config_Inr:
  "dispatch_config s now = Inr c \<longleftrightarrow>
     sv_config s = Some c \<and> sv_enabled s \<and> \<not> sv_paused s \<and> 0 \<le> now \<and> now < bc_expires_at c"
  by (auto simp: dispatch_config_def result_simps)

lemma approve_Inr:
  assumes "approve origin c s e n now lc = Inr lc'"
  obtains "origin = Human" "bc_scope c = s" "0 < bc_max_calls c" "bc_max_calls c \<le> n"
    "int (bc_max_calls c) \<le> i64_max" "now < bc_expires_at c" "0 \<le> now"
    "path_components (bc_executable c) = path_components e" "is_absolute (bc_executable c)"
    "lc' = lifecycle_save \<lparr> sv_config = Some c, sv_enabled = True, sv_paused = False,
                            sv_revision = sv_revision (load_saved lc) + 1 \<rparr> True lc"
  using assms
  by (auto simp: approve_def human_def result_simps u64_checked_add_def split: if_splits)

lemma resume_Inr:
  assumes "resume origin now lc = Inr lc'"
  shows "origin = Human \<and> sv_enabled (load_saved lc)
    \<and> (\<exists>c. sv_config (load_saved lc) = Some c \<and> 0 \<le> now \<and> now < bc_expires_at c)
    \<and> lc' = lifecycle_save ((load_saved lc)\<lparr>sv_paused := False\<rparr>) False lc"
  using assms by (auto simp: resume_def human_def result_simps Let_def split: option.splits)

lemma background_reserve_Inr:
  assumes "background_reserve i calls now lc = Inr (r, lc')"
  obtains c where "0 < calls" "int calls \<le> i64_max" "dispatch_config (load_saved lc) now = Inr c"
    "total_cost lc + int calls \<le> int (bc_max_calls c)" "i \<notin> br_id ` set (lc_roots lc)"
    "br_id r = i" "br_calls r = calls" "br_deadline r \<le> bc_expires_at c" "br_state r = ''reserved''"
    "br_config_revision r = sv_revision (load_saved lc)" "br_confirmed_calls r = None"
    "lc' = lc\<lparr>lc_roots := lc_roots lc @ [r]\<rparr>"
proof -
  from assms obtain c used limit where *: "0 < calls" "int calls \<le> i64_max"
    "dispatch_config (load_saved lc) now = Inr c" "spent lc = Inr used"
    "calls \<le> bc_max_calls c - used" "get_reservation lc i = None"
    "r = \<lparr> br_id = i, br_calls = calls, br_deadline = min limit (bc_expires_at c), br_state = ''reserved'',
           br_config_revision = sv_revision (load_saved lc), br_confirmed_calls = None \<rparr>"
    "lc' = lc\<lparr>lc_roots := lc_roots lc @ [r]\<rparr>"
    by (auto simp: background_reserve_def validate_reservation_def rbind_Inr_iff Let_def u64_saturating_sub_def not_less)
  from * spent_Inr [OF *(4)] show ?thesis
    by (intro that [of c]) (auto simp: get_reservation_def row_by_None)
qed

lemma begin_dispatch_Inr:
  assumes "begin_dispatch i now lc = Inr (r', lc')"
  obtains c r where "dispatch_config (load_saved lc) now = Inr c" "row_by br_id i (lc_roots lc) = Some r"
    "br_state r = ''reserved''" "br_config_revision r = sv_revision (load_saved lc)" "now < br_deadline r"
    "lc' = lc\<lparr>lc_roots := update_where (\<lambda>r. br_id r = i) (\<lambda>r. r\<lparr>br_state := ''dispatched''\<rparr>) (lc_roots lc)\<rparr>"
  using assms by (auto simp: begin_dispatch_def rbind_Inr_iff Let_def get_reservation_def)

lemma finish_measured_Inr:
  assumes "finish_measured i outcome measured lc = Inr lc'"
  obtains r m where "row_by br_id i (lc_roots lc) = Some r"
    "m = (if outcome = Root_completed then measured else None)"
    "\<forall>n. m = Some n \<longrightarrow> n \<le> br_calls r"
    "br_confirmed_calls r \<noteq> None \<longrightarrow> m \<noteq> None \<longrightarrow> br_confirmed_calls r = m"
    "br_state r = ''dispatched'' \<or> br_state r = outcome_state_of outcome"
    "lc' = lc\<lparr>lc_roots := update_where (\<lambda>r. br_id r = i)
             (\<lambda>r. r\<lparr>br_state := outcome_state_of outcome,
                     br_confirmed_calls := (case br_confirmed_calls r of Some n \<Rightarrow> Some n | None \<Rightarrow> m)\<rparr>)
             (lc_roots lc)\<rparr>"
proof -
  from assms obtain r where row: "row_by br_id i (lc_roots lc) = Some r"
    and le: "\<not> (case (if outcome = Root_completed then measured else None) of None \<Rightarrow> False | Some n \<Rightarrow> n > br_calls r)"
    and same: "\<not> (br_confirmed_calls r \<noteq> None \<and> (if outcome = Root_completed then measured else None) \<noteq> None
                 \<and> br_confirmed_calls r \<noteq> (if outcome = Root_completed then measured else None))"
    and state: "\<not> (br_state r \<noteq> ''dispatched'' \<and> br_state r \<noteq> outcome_state_of outcome)"
    and lc': "lc' = lc\<lparr>lc_roots := update_where (\<lambda>r. br_id r = i)
             (\<lambda>r. r\<lparr>br_state := outcome_state_of outcome,
                     br_confirmed_calls := (case br_confirmed_calls r of Some n \<Rightarrow> Some n
                       | None \<Rightarrow> if outcome = Root_completed then measured else None)\<rparr>)
             (lc_roots lc)\<rparr>"
    unfolding finish_measured_def Let_def get_reservation_def by (auto simp only: rbind_Inr_iff ensure_Inr_iff ok_or_Inr_iff sum.inject)
  show ?thesis
    by (rule that [OF row refl _ _ _ lc']) (use le same state in \<open>auto split: if_splits\<close>)
qed

section \<open>The invariant and the order\<close>

text \<open>Changing the state of some roots while their identity stays.\<close>

lemma update_state_ahead:
  assumes "\<And>r. r \<in> set rows \<Longrightarrow> p r \<Longrightarrow> root_ahead r (f r)"
  shows "persists root_ahead rows (update_where p f rows)"
  using assms by (intro persists_update_where root_ahead_refl)

lemma lifecycle_save_inv:
  assumes inv: "lifecycle_inv lc"
    and cancel: "cancel \<or> (sv_enabled s \<and> \<not> sv_paused s \<and> sv_revision s = sv_revision (load_saved lc))"
  shows "lifecycle_inv (lifecycle_save s cancel lc)"
proof -
  let ?f = "\<lambda>r. r\<lparr>br_state := ''cancelled''\<rparr>"
  let ?rows = "if cancel then update_where (\<lambda>r. br_state r = ''reserved'') ?f (lc_roots lc) else lc_roots lc"
  have "root_ok r \<and> queued_ok s r" if "r \<in> set ?rows" for r
  proof (cases cancel)
    case True
    with that obtain q where "q \<in> set (lc_roots lc)"
      and r: "(q = r \<and> br_state r \<noteq> ''reserved'') \<or> r = ?f q \<and> br_state q = ''reserved''"
      by (auto simp: set_update_where split: if_splits)
    from lifecycle_invD(2) [OF inv this(1)] r show ?thesis
      by (auto simp: root_ok_def queued_ok_def split: option.splits)
  next
    case False
    with that cancel lifecycle_invD(2,3) [OF inv, of r] show ?thesis by (simp add: queued_ok_def)
  qed
  then show ?thesis
    using inv by (simp add: lifecycle_inv_def lifecycle_save_def load_saved_def refresh_gate_def)
qed

lemma lifecycle_save_ahead:
  "sv_revision (load_saved lc) \<le> sv_revision s \<Longrightarrow> lifecycle_ahead lc (lifecycle_save s cancel lc)"
  by (auto simp: lifecycle_ahead_def lifecycle_save_def load_saved_def persists_refl root_ahead_refl
      root_ahead_def root_state_ahead_def intro!: update_state_ahead)

lemma lifecycle_open_inv:
  assumes "lifecycle_inv lc"
  shows "lifecycle_inv (lifecycle_open lc)"
proof -
  have "br_id (recover_root r) = br_id r" for r by (simp add: recover_root_def)
  then have "unique_by br_id (map recover_root (lc_roots lc))"
    using assms by (simp add: lifecycle_inv_def unique_by_def comp_def)
  moreover have "root_ok (recover_root r) \<and> queued_ok s (recover_root r)" if "root_ok r" for r s
    using that by (auto simp: recover_root_def root_ok_def queued_ok_def split: option.splits)
  ultimately show ?thesis
    using assms by (simp add: lifecycle_inv_def lifecycle_open_def load_saved_def refresh_gate_def)
qed

lemma lifecycle_open_ahead: "lifecycle_ahead lc (lifecycle_open lc)"
proof -
  have "root_ahead r (recover_root r)" for r
    by (simp add: recover_root_def root_ahead_def root_state_ahead_def)
  then show ?thesis by (auto simp: lifecycle_ahead_def lifecycle_open_def load_saved_def persists_def)
qed

lemma update_root_inv:
  assumes inv: "lifecycle_inv lc" and row: "row_by br_id i (lc_roots lc) = Some r"
    and ids: "\<And>x. br_id (f x) = br_id x" and "root_ok (f r)" and "br_state (f r) \<noteq> ''reserved''"
  shows "lifecycle_inv (lc\<lparr>lc_roots := update_where (\<lambda>r. br_id r = i) f (lc_roots lc)\<rparr>)"
  using assms update_where_by_key [OF lifecycle_invD(1) [OF inv] row, of _ f]
  by (auto simp: lifecycle_inv_def queued_ok_def load_saved_def refresh_gate_def)

lemma update_root_ahead:
  assumes inv: "lifecycle_inv lc" and row: "row_by br_id i (lc_roots lc) = Some r" and "root_ahead r (f r)"
  shows "lifecycle_ahead lc (lc\<lparr>lc_roots := update_where (\<lambda>r. br_id r = i) f (lc_roots lc)\<rparr>)"
proof -
  have "x = r" if "x \<in> set (lc_roots lc)" "br_id x = i" for x
    using that row_by_Some [OF row] unique_by_inj [OF lifecycle_invD(1) [OF inv]] by simp
  with assms(3) show ?thesis
    by (auto simp: lifecycle_ahead_def load_saved_def intro!: update_state_ahead)
qed

lemma background_reserve_keeps:
  assumes inv: "lifecycle_inv lc" and "background_reserve i n now lc = Inr (r, lc')"
  shows "lifecycle_inv lc' \<and> lifecycle_ahead lc lc'"
  using assms(2)
  by (rule background_reserve_Inr)
    (use inv in \<open>auto simp: lifecycle_inv_def lifecycle_ahead_def root_ok_def queued_ok_def dispatch_config_Inr
      load_saved_def persists_append root_ahead_refl\<close>)

lemma begin_dispatch_keeps:
  assumes inv: "lifecycle_inv lc" and "begin_dispatch i now lc = Inr (r', lc')"
  shows "lifecycle_inv lc' \<and> lifecycle_ahead lc lc'"
proof -
  from assms(2) obtain r where row: "row_by br_id i (lc_roots lc) = Some r" and r: "br_state r = ''reserved''"
    and lc': "lc' = lc\<lparr>lc_roots := update_where (\<lambda>r. br_id r = i) (\<lambda>r. r\<lparr>br_state := ''dispatched''\<rparr>) (lc_roots lc)\<rparr>"
    by (rule begin_dispatch_Inr)
  have "root_ok r" using lifecycle_invD(2) [OF inv] row_by_Some [OF row] by blast
  with r show ?thesis unfolding lc'
    by (auto intro!: update_root_inv [OF inv row] update_root_ahead [OF inv row]
        simp: root_ok_def root_ahead_def root_state_ahead_def split: option.splits)
qed

lemma finish_measured_keeps:
  assumes inv: "lifecycle_inv lc" and "finish_measured i outcome measured lc = Inr lc'"
  shows "lifecycle_inv lc' \<and> lifecycle_ahead lc lc'"
proof -
  from assms(2) obtain r m where row: "row_by br_id i (lc_roots lc) = Some r"
    and m: "m = (if outcome = Root_completed then measured else None)" "\<forall>n. m = Some n \<longrightarrow> n \<le> br_calls r"
    and state: "br_state r = ''dispatched'' \<or> br_state r = outcome_state_of outcome"
    and lc': "lc' = lc\<lparr>lc_roots := update_where (\<lambda>r. br_id r = i)
             (\<lambda>r. r\<lparr>br_state := outcome_state_of outcome,
                     br_confirmed_calls := (case br_confirmed_calls r of Some n \<Rightarrow> Some n | None \<Rightarrow> m)\<rparr>)
             (lc_roots lc)\<rparr>"
    by (rule finish_measured_Inr) blast
  have ok: "root_ok r" using lifecycle_invD(2) [OF inv] row_by_Some [OF row] by blast
  show ?thesis unfolding lc'
  proof (intro conjI update_root_inv [OF inv row] update_root_ahead [OF inv row])
    show "root_ok (r\<lparr>br_state := outcome_state_of outcome,
        br_confirmed_calls := (case br_confirmed_calls r of Some n \<Rightarrow> Some n | None \<Rightarrow> m)\<rparr>)"
      using ok m state by (cases outcome) (auto simp: root_ok_def split: option.splits)
    show "root_ahead r (r\<lparr>br_state := outcome_state_of outcome,
        br_confirmed_calls := (case br_confirmed_calls r of Some n \<Rightarrow> Some n | None \<Rightarrow> m)\<rparr>)"
      using state by (cases outcome) (auto simp: root_ahead_def root_state_ahead_def)
  qed (cases outcome; simp)+
qed

lemma gate_keeps:
  assumes "lifecycle_inv lc" and "gt_expires g = gt_expires (lc_gate lc)"
  shows "lifecycle_inv (lc\<lparr>lc_gate := g\<rparr>) \<and> lifecycle_ahead lc (lc\<lparr>lc_gate := g\<rparr>)"
  using assms
  by (simp add: lifecycle_inv_def lifecycle_ahead_def load_saved_def refresh_gate_def persists_refl root_ahead_refl)

lemma lifecycle_step_keeps:
  assumes inv: "lifecycle_inv lc" and step: "lifecycle_step op lc = Inr lc'"
  shows "lifecycle_inv lc' \<and> lifecycle_ahead lc lc'"
proof (cases op)
  case (Approve origin c s e n now)
  with step show ?thesis
    by (auto elim!: approve_Inr intro!: lifecycle_save_inv [OF inv] lifecycle_save_ahead)
next
  case (Pause origin)
  with step show ?thesis
    by (auto simp: pause_def human_def result_simps intro!: lifecycle_save_inv [OF inv] lifecycle_save_ahead)
next
  case (Resume origin now)
  with step show ?thesis
    by (auto dest!: resume_Inr intro!: lifecycle_save_inv [OF inv] lifecycle_save_ahead)
next
  case (Disable origin)
  with step show ?thesis
    by (auto simp: disable_def human_def result_simps intro!: lifecycle_save_inv [OF inv] lifecycle_save_ahead)
next
  case (Reserve i n now)
  with step show ?thesis by (auto simp: rbind_Inr_iff dest: background_reserve_keeps [OF inv])
next
  case (Begin_dispatch i now)
  with step show ?thesis by (auto simp: rbind_Inr_iff dest: begin_dispatch_keeps [OF inv])
next
  case (Finish i outcome measured)
  with step show ?thesis by (auto dest: finish_measured_keeps [OF inv])
next
  case Reopen
  with step show ?thesis using lifecycle_open_inv [OF inv] lifecycle_open_ahead by auto
qed (use step gate_keeps [OF inv] in \<open>auto simp: retain_cleanup_def drop_cleanup_def\<close>)

interpretation lifetime: monotone_machine lifecycle_step lifecycle_inv lifecycle_ahead
  by unfold_locales
    (use lifecycle_step_keeps lifecycle_ahead_refl lifecycle_ahead_trans in blast)+

section \<open>The lifetime implements the at-most-once specification\<close>

definition root_phase :: "lifecycle \<Rightarrow> string \<Rightarrow> phase" where
  "root_phase lc i =
     (case row_by br_id i (lc_roots lc) of
        None \<Rightarrow> Fresh
      | Some r \<Rightarrow> if br_state r = ''reserved'' then Queued
                  else if br_state r = ''dispatched'' then Sent else Settled)"

fun lifecycle_event :: "lifecycle_op \<Rightarrow> lifecycle \<Rightarrow> string once_event" where
  "lifecycle_event (Reserve i _ _) _ = Admit i"
| "lifecycle_event (Begin_dispatch i _) _ = Send i"
| "lifecycle_event (Finish i _ _) _ = Settle {i}"
| "lifecycle_event Reopen _ = Settle UNIV"
| "lifecycle_event (Approve _ _ _ _ _ _) lc = Settle {i. root_phase lc i = Queued}"
| "lifecycle_event (Pause _) lc = Settle {i. root_phase lc i = Queued}"
| "lifecycle_event (Disable _) lc = Settle {i. root_phase lc i = Queued}"
| "lifecycle_event _ _ = Stutter"

lemma root_phase_save:
  "root_phase (lifecycle_save s True lc)
   = (\<lambda>i. if root_phase lc i = Queued then Settled else root_phase lc i)"
  by (rule ext)
    (auto simp: root_phase_def lifecycle_save_def row_by_update_where split: option.splits)

lemma root_phase_save_keep: "root_phase (lifecycle_save s False lc) = root_phase lc"
  by (simp add: root_phase_def [abs_def] lifecycle_save_def)

lemma root_phase_open:
  "root_phase (lifecycle_open lc)
   = (\<lambda>i. if root_phase lc i = Queued \<or> root_phase lc i = Sent then Settled else root_phase lc i)"
proof
  fix i
  have ids: "br_id (recover_root r) = br_id r" for r by (simp add: recover_root_def)
  have "row_by br_id i (map recover_root rows) = map_option recover_root (row_by br_id i rows)" for rows
    by (induction rows) (simp_all add: row_by_Cons ids)
  then show "root_phase (lifecycle_open lc) i
      = (if root_phase lc i = Queued \<or> root_phase lc i = Sent then Settled else root_phase lc i)"
    by (auto simp: root_phase_def lifecycle_open_def recover_root_def split: option.splits)
qed

lemma root_phase_update:
  assumes "row_by br_id i (lc_roots lc) = Some r" and "\<And>x. br_id (f x) = br_id x"
  shows "root_phase (lc\<lparr>lc_roots := update_where (\<lambda>r. br_id r = i) f (lc_roots lc)\<rparr>)
    = (root_phase lc)(i := if br_state (f r) = ''reserved'' then Queued
         else if br_state (f r) = ''dispatched'' then Sent else Settled)"
  by (rule ext) (use assms row_by_Some [OF assms(1)] in
    \<open>auto simp: root_phase_def row_by_update_where split: option.splits dest: row_by_Some\<close>)

lemma lifecycle_simulation:
  assumes inv: "lifecycle_inv lc" and step: "lifecycle_step op lc = Inr lc'"
  shows "once_step (lifecycle_event op lc) (root_phase lc) = Some (root_phase lc')"
proof (cases op)
  case (Approve origin c s e n now)
  with step show ?thesis by (auto elim!: approve_Inr simp: root_phase_save)
next
  case (Pause origin)
  with step show ?thesis by (auto simp: pause_def human_def result_simps root_phase_save)
next
  case (Resume origin now)
  with step show ?thesis by (auto dest!: resume_Inr simp: root_phase_save_keep)
next
  case (Disable origin)
  with step show ?thesis by (auto simp: disable_def human_def result_simps root_phase_save)
next
  case (Reserve i n now)
  with step obtain r where "background_reserve i n now lc = Inr (r, lc')" by (auto simp: rbind_Inr_iff)
  then have fresh: "row_by br_id i (lc_roots lc) = None" and r: "br_id r = i" "br_state r = ''reserved''"
    and lc': "lc_roots lc' = lc_roots lc @ [r]"
    by (auto elim!: background_reserve_Inr simp: row_by_None)
  have "root_phase lc' = (root_phase lc)(i := Queued)"
    by (rule ext) (auto simp: root_phase_def lc' row_by_append row_by_Cons fresh r split: option.splits)
  with fresh Reserve show ?thesis by (simp add: root_phase_def)
next
  case (Begin_dispatch i now)
  with step obtain r' where "begin_dispatch i now lc = Inr (r', lc')" by (auto simp: rbind_Inr_iff)
  then obtain r where row: "row_by br_id i (lc_roots lc) = Some r" "br_state r = ''reserved''"
    and lc': "lc' = lc\<lparr>lc_roots := update_where (\<lambda>r. br_id r = i) (\<lambda>r. r\<lparr>br_state := ''dispatched''\<rparr>) (lc_roots lc)\<rparr>"
    by (rule begin_dispatch_Inr)
  have "root_phase lc i = Queued" using row by (simp add: root_phase_def)
  with Begin_dispatch show ?thesis unfolding lc' by (simp add: root_phase_update [OF row(1)])
next
  case (Finish i outcome measured)
  with step have "finish_measured i outcome measured lc = Inr lc'" by simp
  then obtain r m where row: "row_by br_id i (lc_roots lc) = Some r"
    and state: "br_state r = ''dispatched'' \<or> br_state r = outcome_state_of outcome"
    and lc': "lc' = lc\<lparr>lc_roots := update_where (\<lambda>r. br_id r = i)
             (\<lambda>r. r\<lparr>br_state := outcome_state_of outcome,
                     br_confirmed_calls := (case br_confirmed_calls r of Some n \<Rightarrow> Some n | None \<Rightarrow> m)\<rparr>)
             (lc_roots lc)\<rparr>"
    by (rule finish_measured_Inr) blast
  have "root_phase lc i = (if br_state r = ''dispatched'' then Sent else Settled)"
    using row state by (cases outcome) (auto simp: root_phase_def)
  moreover have "root_phase lc' = (root_phase lc)(i := Settled)"
    unfolding lc' by (subst root_phase_update [OF row]) (cases outcome; simp)+
  ultimately show ?thesis using Finish by (auto simp: fun_eq_iff)
next
  case Reopen
  with step show ?thesis by (auto simp: root_phase_open)
qed (use step in \<open>auto simp: root_phase_def [abs_def]\<close>)

interpretation lifetime_once: once_refinement lifecycle_step lifecycle_inv root_phase lifecycle_event
  by unfold_locales (rule lifecycle_simulation)
lemma lifecycle_run_keeps:
  assumes "lifecycle_inv lc"
  shows "lifecycle_inv (run lifecycle_step ops lc)" and "lifecycle_ahead lc (run lifecycle_step ops lc)"
  using lifetime.run_inv [OF assms] lifetime.run_ahead [OF assms] by blast+

lemma root_after:
  assumes inv: "lifecycle_inv lc" and row: "row_by br_id i (lc_roots lc) = Some r"
  obtains r' where "row_by br_id i (lc_roots (run lifecycle_step ops lc)) = Some r'" "root_ahead r r'"
    "root_ok r'"
proof -
  let ?lc' = "run lifecycle_step ops lc"
  from row have r: "r \<in> set (lc_roots lc)" "br_id r = i" by (auto dest: row_by_Some)
  then obtain r' where r': "r' \<in> set (lc_roots ?lc')" "root_ahead r r'"
    using lifecycle_run_keeps(2) [OF inv, of ops] by (auto simp: lifecycle_ahead_def persists_def)
  moreover have "row_by br_id i (lc_roots ?lc') = Some r'"
    using r' r(2) by (simp add: root_ahead_def row_by_unique [OF lifecycle_invD(1) [OF lifecycle_run_keeps(1) [OF inv]]])
  moreover have "root_ok r'" by (rule lifecycle_invD(2) [OF lifecycle_run_keeps(1) [OF inv] r'(1)])
  ultimately show ?thesis by (intro that)
qed

section \<open>Properties\<close>

text \<open>An approval under which work was completed, is in flight and waits.\<close>

definition approval_example :: background_config where
  "approval_example =
     \<lparr> bc_scope = \<lparr> sc_node = None, sc_project = Some ''p'', sc_provider = None, sc_conversation = None \<rparr>,
       bc_executable = ''/b'', bc_max_calls = 9, bc_expires_at = 100, bc_job_timeout_secs = 60 \<rparr>"

definition lifetime_ops :: "lifecycle_op list" where
  "lifetime_ops =
     [Approve Human approval_example (bc_scope approval_example) ''/b'' 20 1,
      Reserve ''a'' 3 2, Begin_dispatch ''a'' 3, Finish ''a'' Root_completed (Some 1),
      Reserve ''b'' 4 4, Begin_dispatch ''b'' 5, Reserve ''c'' 2 6]"

definition lifetime_example :: lifecycle where
  "lifetime_example = run lifecycle_step lifetime_ops fresh_lifecycle"

lemmas lifecycle_eval =
  approve_def human_def result_simps lifecycle_validate_scope_def path_components_def is_absolute_def
  not_blank_plain u64_checked_add_def u64_max_def i64_max_def lifecycle_save_def load_saved_def refresh_gate_def
  background_reserve_def validate_reservation_def dispatch_config_def i64_checked_add_def in_i64_def i64_min_def
  as_i64_small spent_def sum_where_def u64_try_from_def u64_saturating_sub_def get_reservation_def table_simps
  update_where_def begin_dispatch_def finish_measured_def root_cost_def Let_def

lemma lifetime_example_eq:
  "lifetime_example =
     \<lparr> lc_saved = Some \<lparr> sv_config = Some approval_example, sv_enabled = True, sv_paused = False, sv_revision = 1 \<rparr>,
       lc_roots =
         [\<lparr> br_id = ''a'', br_calls = 3, br_deadline = 62, br_state = ''completed'', br_config_revision = 1,
            br_confirmed_calls = Some 1 \<rparr>,
          \<lparr> br_id = ''b'', br_calls = 4, br_deadline = 64, br_state = ''dispatched'', br_config_revision = 1,
            br_confirmed_calls = None \<rparr>,
          \<lparr> br_id = ''c'', br_calls = 2, br_deadline = 66, br_state = ''reserved'', br_config_revision = 1,
            br_confirmed_calls = None \<rparr>],
       lc_gate = \<lparr> gt_expires = 100, gt_holds = 0 \<rparr> \<rparr>"
  by (simp add: lifetime_example_def lifetime_ops_def approval_example_def fresh_lifecycle_def closed_gate_def
      lifecycle_eval)

lemma lifetime_example_inv: "lifecycle_inv lifetime_example"
  unfolding lifetime_example_def by (rule lifetime.run_inv [OF fresh_lifecycle_inv])

lemma root_phase_fresh: "root_phase fresh_lifecycle = (\<lambda>_. Fresh)"
  by (simp add: root_phase_def fresh_lifecycle_def fun_eq_iff)

lemma once_event_send_iff: "lifecycle_event op lc = Send i \<longleftrightarrow> (\<exists>now. op = Begin_dispatch i now)"
  by (cases op) auto

text \<open>
  The store of background roots implements the at-most-once specification: whatever requests
  arrive from a new store on, in any order and with restarts between them, the accepted ones are a
  run of the abstract machine on which a root is admitted once, sent at most once and only after it
  was admitted, and settled for good by an outcome, a cancellation or a restart.
\<close>

theorem background_roots_refine_once:
  "once_run (run_events lifecycle_step lifecycle_event ops fresh_lifecycle) (\<lambda>_. Fresh)
     = Some (root_phase (run lifecycle_step ops fresh_lifecycle))
   \<and> count_where (\<lambda>e. e = Send i) (run_events lifecycle_step lifecycle_event ops fresh_lifecycle) \<le> 1"
  using lifetime_once.run_refines [OF fresh_lifecycle_inv, of ops]
    lifetime_once.sent_at_most_once [OF fresh_lifecycle_inv]
  by (simp add: root_phase_fresh)

lemma total_cost_update:
  assumes "lifecycle_inv lc" and "row_by br_id i (lc_roots lc) = Some r" and "root_cost (f r) \<le> root_cost r"
  shows "total_cost (lc\<lparr>lc_roots := update_where (\<lambda>r. br_id r = i) f (lc_roots lc)\<rparr>) \<le> total_cost lc"
proof -
  have "x = r" if "x \<in> set (lc_roots lc)" "br_id x = i" for x
    using that row_by_Some [OF assms(2)] unique_by_inj [OF lifecycle_invD(1) [OF assms(1)]] by simp
  then show ?thesis using assms
    by (auto simp: total_cost_def total_where_update_where root_ok_def root_cost_def
        dest: lifecycle_invD(2) intro!: total_where_mono split: option.splits)
qed

lemma total_cost_save: "total_cost (lifecycle_save s cancel lc) = total_cost lc"
  by (auto simp: total_cost_def lifecycle_save_def total_where_update_where intro!: total_where_cong)

lemma root_cost_recover: "root_cost (recover_root r) = root_cost r"
  by (simp add: recover_root_def)

lemma total_cost_open: "total_cost (lifecycle_open lc) = total_cost lc"
  by (simp add: total_cost_def lifecycle_open_def total_where_def comp_def root_cost_recover)

fun new_approval :: "lifecycle_op \<Rightarrow> bool" where
  "new_approval (Approve _ _ _ _ _ _) = True"
| "new_approval _ = False"

lemma finish_measured_cost:
  assumes inv: "lifecycle_inv lc" and fin: "finish_measured i outcome measured lc = Inr lc'"
  shows "total_cost lc' \<le> total_cost lc"
proof -
  from fin obtain r m where row: "row_by br_id i (lc_roots lc) = Some r"
    and m: "\<forall>n. m = Some n \<longrightarrow> n \<le> br_calls r"
    and lc': "lc' = lc\<lparr>lc_roots := update_where (\<lambda>r. br_id r = i)
             (\<lambda>r. r\<lparr>br_state := outcome_state_of outcome,
                     br_confirmed_calls := (case br_confirmed_calls r of Some n \<Rightarrow> Some n | None \<Rightarrow> m)\<rparr>)
             (lc_roots lc)\<rparr>"
    by (rule finish_measured_Inr) blast
  show ?thesis unfolding lc'
    by (rule total_cost_update [OF inv row]) (use m in \<open>auto simp: root_cost_def split: option.splits\<close>)
qed

lemma within_approval_step:
  assumes inv: "lifecycle_inv lc" and within: "within_approval lc" and op: "\<not> new_approval op"
    and step: "lifecycle_step op lc = Inr lc'"
  shows "within_approval lc'"
proof (cases op)
  case (Pause origin)
  with step within show ?thesis
    by (auto simp: pause_def human_def result_simps within_approval_def total_cost_save split: option.splits)
next
  case (Resume origin now)
  with step within show ?thesis
    by (auto dest!: resume_Inr simp: within_approval_def total_cost_save split: option.splits)
next
  case (Disable origin)
  with step within show ?thesis
    by (auto simp: disable_def human_def result_simps within_approval_def total_cost_save split: option.splits)
next
  case (Reserve i n now)
  with step obtain r where "background_reserve i n now lc = Inr (r, lc')" by (auto simp: rbind_Inr_iff)
  then show ?thesis
    by (rule background_reserve_Inr)
      (auto simp: within_approval_def dispatch_config_Inr total_cost_def root_cost_def)
next
  case (Begin_dispatch i now)
  with step obtain r' where "begin_dispatch i now lc = Inr (r', lc')" by (auto simp: rbind_Inr_iff)
  then obtain r where row: "row_by br_id i (lc_roots lc) = Some r"
    and lc': "lc' = lc\<lparr>lc_roots := update_where (\<lambda>r. br_id r = i) (\<lambda>r. r\<lparr>br_state := ''dispatched''\<rparr>) (lc_roots lc)\<rparr>"
    by (rule begin_dispatch_Inr)
  have "total_cost lc' \<le> total_cost lc" unfolding lc'
    by (rule total_cost_update [OF inv row]) simp
  then show ?thesis using within by (auto simp: within_approval_def lc' split: option.splits)
next
  case (Finish i outcome measured)
  with step have fin: "finish_measured i outcome measured lc = Inr lc'" by simp
  then have "load_saved lc' = load_saved lc"
    by (rule finish_measured_Inr) simp
  with finish_measured_cost [OF inv fin] within show ?thesis
    by (auto simp: within_approval_def split: option.splits)
next
  case Reopen
  with step within show ?thesis by (auto simp: within_approval_def total_cost_open split: option.splits)
qed (use step within op in \<open>auto simp: within_approval_def total_cost_def split: option.splits\<close>)

text \<open>
  (C28) The background allowance is a real ceiling: as long as no new approval is given, no
  sequence of requests makes the calls charged to background work exceed the approved number, and
  what a snapshot reports as reserved is exactly that charge.
\<close>

theorem background_allowance_holds:
  assumes "lifecycle_inv lc" and "within_approval lc" and "\<forall>op\<in>set ops. \<not> new_approval op"
  shows "let lc' = run lifecycle_step ops lc in
    within_approval lc' \<and> (\<forall>now st. snapshot lc' now = Inr st \<longrightarrow> int (ls_reserved_calls st) = total_cost lc')"
proof -
  let ?lc' = "run lifecycle_step ops lc"
  have "lifecycle_inv ?lc' \<and> within_approval ?lc'"
    by (rule run_keeps [where P = "\<lambda>s. lifecycle_inv s \<and> within_approval s"])
      (use assms lifecycle_step_keeps within_approval_step in blast)+
  moreover have "int (ls_reserved_calls st) = total_cost ?lc'" if "snapshot ?lc' now = Inr st" for now st
    using that by (auto simp: snapshot_def result_simps Let_def dest: spent_Inr)
  ultimately show ?thesis by (simp add: Let_def)
qed

theorem background_allowance_holds_witness:
  "within_approval (run lifecycle_step [Reserve ''d'' 3 7, Reserve ''e'' 2 8] lifetime_example)"
proof -
  have "within_approval lifetime_example"
    by (simp add: within_approval_def lifetime_example_eq load_saved_def approval_example_def total_cost_def
        table_simps root_cost_def)
  from background_allowance_holds [OF lifetime_example_inv this, of "[Reserve ''d'' 3 7, Reserve ''e'' 2 8]"]
  show ?thesis by (simp add: Let_def)
qed

text \<open>
  Only a known completion with confirmed calls ever settles a reservation, at no more than
  it reserved; failed, interrupted, unknown and unmeasured work stays charged in full, a
  measurement is never rewritten, and no later request, restart or approval lets the same material
  be reserved again.
\<close>

theorem uncertain_work_stays_charged:
  assumes "lifecycle_inv lc" and "row_by br_id i (lc_roots lc) = Some r"
  shows "let lc' = run lifecycle_step ops lc in
    (\<exists>r'. row_by br_id i (lc_roots lc') = Some r' \<and> br_calls r' = br_calls r \<and> root_cost r' \<le> int (br_calls r)
      \<and> (br_state r' \<noteq> ''completed'' \<longrightarrow> root_cost r' = int (br_calls r))
      \<and> (br_confirmed_calls r \<noteq> None \<longrightarrow> root_cost r' = root_cost r))
    \<and> \<not> is_ok (background_reserve i calls now lc')"
proof -
  obtain r' where r': "row_by br_id i (lc_roots (run lifecycle_step ops lc)) = Some r'"
    "root_ahead r r'" "root_ok r'"
    by (rule root_after [OF assms])
  then have "br_calls r' = br_calls r \<and> root_cost r' \<le> int (br_calls r)
      \<and> (br_state r' \<noteq> ''completed'' \<longrightarrow> root_cost r' = int (br_calls r))
      \<and> (br_confirmed_calls r \<noteq> None \<longrightarrow> root_cost r' = root_cost r)"
    by (auto simp: root_ahead_def root_ok_def root_cost_def split: option.splits)
  moreover have "\<not> is_ok (background_reserve i calls now (run lifecycle_step ops lc))"
    using r'(1) by (auto simp: is_ok_iff elim!: background_reserve_Inr dest: row_by_Some_key)
  ultimately show ?thesis using r'(1) unfolding Let_def by blast
qed

theorem uncertain_work_stays_charged_witness:
  "\<not> is_ok (background_reserve ''b'' 4 9
      (run lifecycle_step [Reopen, Approve Human approval_example (bc_scope approval_example) ''/b'' 20 8]
         lifetime_example))"
proof -
  have "row_by br_id ''b'' (lc_roots lifetime_example) \<noteq> None"
    by (simp add: lifetime_example_eq table_simps)
  then obtain r where "row_by br_id ''b'' (lc_roots lifetime_example) = Some r" by blast
  from uncertain_work_stays_charged [OF lifetime_example_inv this] show ?thesis unfolding Let_def by blast
qed

text \<open>What ends a pause: a resume or an approval, and only a human's.\<close>

fun reasoning_restored :: "lifecycle_op \<Rightarrow> bool" where
  "reasoning_restored (Approve origin _ _ _ _ _) \<longleftrightarrow> origin = Human"
| "reasoning_restored (Resume origin _) \<longleftrightarrow> origin = Human"
| "reasoning_restored _ = False"

definition stopped :: "lifecycle \<Rightarrow> bool" where
  "stopped lc \<longleftrightarrow> sv_paused (load_saved lc)"

lemma stopped_step:
  assumes "stopped lc" and "\<not> reasoning_restored op" and "lifecycle_step op lc = Inr lc'"
  shows "stopped lc'"
proof -
  have "sv_paused (load_saved lc') \<or> load_saved lc' = load_saved lc"
  proof (cases op)
    case (Reserve i n now)
    with assms(3) obtain r where "background_reserve i n now lc = Inr (r, lc')" by (auto simp: rbind_Inr_iff)
    then show ?thesis by (rule background_reserve_Inr) simp
  next
    case (Begin_dispatch i now)
    with assms(3) obtain r where "begin_dispatch i now lc = Inr (r, lc')" by (auto simp: rbind_Inr_iff)
    then show ?thesis by (rule begin_dispatch_Inr) simp
  next
    case (Finish i outcome measured)
    with assms(3) have "finish_measured i outcome measured lc = Inr lc'" by simp
    then show ?thesis by (rule finish_measured_Inr) simp
  next
    case Reopen
    with assms(3) show ?thesis by auto
  qed (use assms in \<open>auto simp: approve_def resume_def pause_def disable_def human_def result_simps\<close>)
  with assms(1) show ?thesis by (auto simp: stopped_def)
qed

text \<open>
  (C27) Pausing and switching off take effect at once and for good: after either, whatever is asked for,
  a resume or an approval by anything but a human included, no root is reserved or dispatched until a
  human resumes or approves again; and the work that was waiting at that moment is cancelled, so that
  not even a later resume or approval dispatches it.
\<close>

theorem pause_stops_background_work:
  assumes "lifecycle_inv lc" and "pause origin lc = Inr lc1 \<or> disable origin lc = Inr lc1"
  shows "let lc' = run lifecycle_step ops lc1 in
    ((\<forall>op\<in>set ops. \<not> reasoning_restored op) \<longrightarrow>
       \<not> is_ok (begin_dispatch i now lc') \<and> \<not> is_ok (background_reserve i calls now lc'))
    \<and> (root_phase lc i = Queued \<longrightarrow> \<not> is_ok (begin_dispatch i now lc'))"
proof -
  let ?lc' = "run lifecycle_step ops lc1"
  have inv: "lifecycle_inv lc1"
    using assms(2)
    by (elim disjE) (simp_all add: lifecycle_step_keeps [OF assms(1), of "Pause origin" lc1]
        lifecycle_step_keeps [OF assms(1), of "Disable origin" lc1])
  have saved: "\<exists>s. lc1 = lifecycle_save s True lc \<and> sv_paused s"
    using assms(2) by (auto simp: pause_def disable_def human_def result_simps)
  have "\<not> is_ok (begin_dispatch i now ?lc') \<and> \<not> is_ok (background_reserve i calls now ?lc')"
    if "\<forall>op\<in>set ops. \<not> reasoning_restored op"
  proof -
    have "stopped lc1" using saved by (auto simp: stopped_def)
    then have "stopped ?lc'"
      by (rule run_keeps [where P = stopped, rotated]) (use that stopped_step in blast)
    then show ?thesis
      by (auto simp: is_ok_iff stopped_def dispatch_config_Inr elim!: begin_dispatch_Inr background_reserve_Inr)
  qed
  moreover have "\<not> is_ok (begin_dispatch i now ?lc')" if "root_phase lc i = Queued"
  proof -
    have "root_phase lc1 i = Settled" using saved that by (auto simp: root_phase_save)
    then obtain r where "row_by br_id i (lc_roots lc1) = Some r" and r: "br_state r \<notin> {''reserved'', ''dispatched''}"
      by (auto simp: root_phase_def split: option.splits if_splits)
    from root_after [OF inv this(1), of ops] obtain r' where
      "row_by br_id i (lc_roots ?lc') = Some r'" "root_ahead r r'" by blast
    with r show ?thesis
      by (auto simp: is_ok_iff root_ahead_def root_state_ahead_def elim!: begin_dispatch_Inr)
  qed
  ultimately show ?thesis unfolding Let_def by blast
qed

theorem pause_stops_background_work_witness:
  "\<not> is_ok (begin_dispatch ''c'' 8
     (run lifecycle_step [Resume Human 7] (lifecycle_save ((load_saved lifetime_example)\<lparr>sv_paused := True\<rparr>) True lifetime_example)))"
proof -
  have "pause Human lifetime_example
      = Inr (lifecycle_save ((load_saved lifetime_example)\<lparr>sv_paused := True\<rparr>) True lifetime_example)"
    by (simp add: pause_def human_def)
  moreover have "root_phase lifetime_example ''c'' = Queued"
    by (simp add: root_phase_def lifetime_example_eq table_simps)
  ultimately show ?thesis
    using pause_stops_background_work [OF lifetime_example_inv, where origin = Human and i = "''c''" and ops = "[Resume Human 7]" and now = 8]
    unfolding Let_def by blast
qed

end
