(* ===== verification/Text.thy ===== *)
theory Text
  imports Prelude
begin

text \<open>
  String operations of the standard library over UTF-8 bytes, as the wire formats and labels use
  them: validity, characters, trimming, splitting, prefixes and substring search, with the facts
  that make encodings invertible.
\<close>

section \<open>Characters\<close>

text \<open>The encoded form of one character, as \<open>str::from_utf8\<close> accepts it.\<close>

definition utf8_char_ok :: "string \<Rightarrow> bool" where
  "utf8_char_ok c =
     (case map of_char c :: nat list of
        [a] \<Rightarrow> a < 128
      | [a, b] \<Rightarrow> 194 \<le> a \<and> a \<le> 223 \<and> 128 \<le> b \<and> b \<le> 191
      | [a, b, d] \<Rightarrow> 224 \<le> a \<and> a \<le> 239 \<and> (if a = 224 then 160 else 128) \<le> b
          \<and> b \<le> (if a = 237 then 159 else 191) \<and> 128 \<le> d \<and> d \<le> 191
      | [a, b, d, e] \<Rightarrow> 240 \<le> a \<and> a \<le> 244 \<and> (if a = 240 then 144 else 128) \<le> b
          \<and> b \<le> (if a = 244 then 143 else 191) \<and> 128 \<le> d \<and> d \<le> 191 \<and> 128 \<le> e \<and> e \<le> 191
      | _ \<Rightarrow> False)"

definition utf8_valid :: "string \<Rightarrow> bool" where
  "utf8_valid s \<longleftrightarrow> list_all utf8_char_ok (utf8_chars s)"

text \<open>
  A list of pieces cut exactly where \<open>utf8_chars\<close> cuts their concatenation: every piece is a
  byte and its continuation bytes, and no piece but the first starts with a continuation byte.
\<close>

definition piece_ok :: "string \<Rightarrow> bool" where
  "piece_ok p \<longleftrightarrow> p \<noteq> [] \<and> list_all utf8_continuation (tl p)"

definition pieces_ok :: "string list \<Rightarrow> bool" where
  "pieces_ok ps \<longleftrightarrow>
     (\<forall>p\<in>set ps. piece_ok p) \<and> sorted_wrt (\<lambda>_ q. \<not> utf8_continuation (hd q)) ps"

lemma pieces_ok_simps [simp]:
  "pieces_ok []"
  "pieces_ok (p # ps) \<longleftrightarrow> piece_ok p \<and> pieces_ok ps \<and> (\<forall>q\<in>set ps. \<not> utf8_continuation (hd q))"
  by (auto simp: pieces_ok_def)

lemma pieces_ok_utf8_chars: "pieces_ok (utf8_chars s)"
proof (induction s)
  case (Cons c s)
  then show ?case
    by (cases "hd (utf8_chars s)") (auto simp: piece_ok_def split: list.splits)
qed simp

lemma pieces_ok_filter: "pieces_ok ps \<Longrightarrow> pieces_ok (filter f ps)"
  by (induction ps) auto

lemma pieces_ok_append: "pieces_ok (ps @ qs) \<Longrightarrow> pieces_ok ps \<and> pieces_ok qs"
  by (induction ps) auto

lemma utf8_chars_piece: "list_all utf8_continuation ds \<Longrightarrow> utf8_chars (c # ds) = [c # ds]"
  by (induction ds arbitrary: c) auto

lemma utf8_chars_Cons_cases: "utf8_chars (c # s) \<noteq> [] \<and> hd (hd (utf8_chars (c # s))) = c \<and> hd (utf8_chars (c # s)) \<noteq> []"
  by (auto split: list.splits)

lemma utf8_chars_append:
  assumes "s = [] \<or> \<not> utf8_continuation (hd s)"
  shows "utf8_chars (p @ s) = utf8_chars p @ utf8_chars s"
proof (induction p)
  case (Cons c p)
  show ?case
  proof (cases "utf8_chars p")
    case Nil
    then have p: "p = []" using utf8_chars_Cons_cases by (cases p) blast+
    show ?thesis
    proof (cases s)
      case (Cons d t)
      then show ?thesis using assms utf8_chars_Cons_cases [of d t] p by (auto split: list.splits)
    qed (simp add: p)
  qed (use Cons in simp)
qed simp

lemma utf8_chars_concat: "pieces_ok ps \<Longrightarrow> utf8_chars (concat ps) = ps"
proof (induction ps)
  case (Cons p ps)
  have "concat ps = [] \<or> \<not> utf8_continuation (hd (concat ps))"
    using Cons.prems by (cases ps) (auto simp: piece_ok_def)
  then have "utf8_chars (p @ concat ps) = utf8_chars p @ ps"
    using Cons by (simp add: utf8_chars_append)
  moreover have "utf8_chars p = [p]"
    using Cons.prems utf8_chars_piece by (cases p) (auto simp: piece_ok_def)
  ultimately show ?case by simp
qed simp

lemma utf8_valid_append:
  "s = [] \<or> \<not> utf8_continuation (hd s) \<Longrightarrow> utf8_valid (p @ s) \<longleftrightarrow> utf8_valid p \<and> utf8_valid s"
  by (simp add: utf8_valid_def utf8_chars_append)

definition ascii_char :: "char \<Rightarrow> bool" where
  "ascii_char c \<longleftrightarrow> of_char c < (128::nat)"

lemma utf8_chars_ascii: "list_all ascii_char s \<Longrightarrow> utf8_chars s = map (\<lambda>c. [c]) s"
  by (induction s) (auto simp: ascii_char_def utf8_continuation_def split: list.splits)

lemma utf8_valid_ascii: "list_all ascii_char s \<Longrightarrow> utf8_valid s"
  by (simp add: utf8_valid_def utf8_chars_ascii list_all_iff utf8_char_ok_def ascii_char_def)

lemma is_ascii_alphanumeric_ascii: "is_ascii_alphanumeric c \<Longrightarrow> ascii_char c"
  by (auto simp: is_ascii_alphanumeric_def is_ascii_digit_def ascii_char_def)

section \<open>Trimming, searching and splitting\<close>

text \<open>\<open>str::trim\<close>: the characters with the property White_Space go at both ends.\<close>

definition white_char :: "string \<Rightarrow> bool" where
  "white_char c \<longleftrightarrow> white_prefix c \<noteq> 0"

definition trim_pieces :: "string list \<Rightarrow> string list" where
  "trim_pieces ps = rev (dropWhile white_char (rev (dropWhile white_char ps)))"

definition trim :: "string \<Rightarrow> string" where
  "trim s = concat (trim_pieces (utf8_chars s))"

lemma trim_pieces_split: "\<exists>a b. ps = a @ trim_pieces ps @ b"
proof -
  let ?q = "dropWhile white_char ps"
  have "rev ?q = takeWhile white_char (rev ?q) @ dropWhile white_char (rev ?q)" by simp
  then have "?q = rev (dropWhile white_char (rev ?q)) @ rev (takeWhile white_char (rev ?q))"
    by (metis rev_append rev_rev_ident)
  moreover have "ps = takeWhile white_char ps @ ?q" by simp
  ultimately show ?thesis unfolding trim_pieces_def by metis
qed

lemma trim_pieces_idem: "trim_pieces (trim_pieces ps) = trim_pieces ps"
proof -
  let ?q = "dropWhile white_char ps"
  let ?t = "dropWhile white_char (rev ?q)"
  have "dropWhile white_char (rev ?t) = rev ?t"
  proof (cases "rev ?t")
    case Nil
    then show ?thesis by (simp only: dropWhile.simps)
  next
    case (Cons x xs)
    have "rev ?q = takeWhile white_char (rev ?q) @ ?t" by simp
    then have "?q = rev ?t @ rev (takeWhile white_char (rev ?q))" by (metis rev_append rev_rev_ident)
    with Cons have q: "?q = x # (xs @ rev (takeWhile white_char (rev ?q)))" by simp
    then have "\<not> white_char x" by (simp add: dropWhile_eq_Cons_conv)
    with Cons show ?thesis by simp
  qed
  moreover have "dropWhile white_char ?t = ?t" by (simp add: dropWhile_idem)
  ultimately show ?thesis by (simp add: trim_pieces_def)
qed

text \<open>\<open>str::contains\<close>, \<open>strip_prefix\<close>, \<open>split_once\<close> and \<open>splitn\<close> on a one-byte pattern.\<close>

definition starts_with :: "string \<Rightarrow> string \<Rightarrow> bool" where
  "starts_with p s \<longleftrightarrow> take (length p) s = p"

fun contains_str :: "string \<Rightarrow> string \<Rightarrow> bool" where
  "contains_str needle [] = (needle = [])"
| "contains_str needle (c # cs) = (starts_with needle (c # cs) \<or> contains_str needle cs)"

definition strip_prefix :: "string \<Rightarrow> string \<Rightarrow> string option" where
  "strip_prefix p s = (if starts_with p s then Some (drop (length p) s) else None)"

fun split_once :: "char \<Rightarrow> string \<Rightarrow> (string \<times> string) option" where
  "split_once sep [] = None"
| "split_once sep (c # cs) =
     (if c = sep then Some ([], cs)
      else (case split_once sep cs of None \<Rightarrow> None | Some (a, b) \<Rightarrow> Some (c # a, b)))"

fun splitn :: "nat \<Rightarrow> char \<Rightarrow> string \<Rightarrow> string list" where
  "splitn 0 sep s = []"
| "splitn (Suc n) sep s =
     (if n = 0 then [s]
      else (case split_once sep s of None \<Rightarrow> [s] | Some (a, b) \<Rightarrow> a # splitn n sep b))"

lemma strip_prefix_append [simp]: "strip_prefix p (p @ s) = Some s"
  by (simp add: strip_prefix_def starts_with_def)

lemma strip_prefix_Some: "strip_prefix p s = Some r \<longleftrightarrow> s = p @ r"
proof
  assume "strip_prefix p s = Some r"
  then have "take (length p) s = p" "drop (length p) s = r"
    by (simp_all add: strip_prefix_def starts_with_def split: if_splits)
  then show "s = p @ r" by (metis append_take_drop_id)
qed simp

lemma split_once_append: "sep \<notin> set a \<Longrightarrow> split_once sep (a @ sep # b) = Some (a, b)"
  by (induction a) auto

fun join_by :: "char \<Rightarrow> string list \<Rightarrow> string" where
  "join_by sep [] = []"
| "join_by sep [p] = p"
| "join_by sep (p # q # ps) = p @ sep # join_by sep (q # ps)"

lemma split_on_join_by:
  "ps \<noteq> [] \<Longrightarrow> \<forall>p\<in>set ps. sep \<notin> set p \<Longrightarrow> split_on sep (join_by sep ps) = ps"
  by (induction sep ps rule: join_by.induct) (auto simp: split_on_append split_on_no_sep)

end
