(* ===== verification/Feed.thy ===== *)
theory Feed
  imports Model Text "HOL-Library.List_Lexorder" "HOL-Library.Char_ord" "HOL-Library.Option_ord"
begin

text \<open>
  The shared activity feed (src/activity_feed.rs): the board rows and their summary, the wire
  frames of summaries and return statuses, the receiving end, the published state with its
  subscriptions and return interests, and the texts handed to tmux. \<open>BoardItem\<close> and the colours
  are those of src/monitor.rs. The classes and tables of Unicode, the environment variable
  NO_COLOR and the clock are arguments.
\<close>

record feed_env =
  fe_lower :: "string \<Rightarrow> string"
  fe_alphanumeric :: "string \<Rightarrow> bool"
  fe_no_color :: bool
  fe_width :: "string \<Rightarrow> nat"
  fe_char_width :: "string \<Rightarrow> nat"

datatype feed_error = Feed_bail string | Feed_parse_int | Feed_utf8

section \<open>Rows\<close>

record expert_annotation =
  ea_scope :: "string option"
  ea_current_work :: "string option"
  ea_topics :: "string list"
  ea_freshness :: "string option"
  ea_scope_freshness :: "string option"
  ea_current_work_freshness :: "string option"

record board_item =
  bi_session :: session
  bi_node_id :: "string option"
  bi_node_name :: "string option"
  bi_stale :: bool
  bi_pending_token :: "string option"
  bi_expert :: "expert_annotation option"

definition board_local :: "session \<Rightarrow> board_item" where
  "board_local s =
     \<lparr> bi_session = s, bi_node_id = None, bi_node_name = None, bi_stale = False,
       bi_pending_token = None, bi_expert = None \<rparr>"

definition is_pika_session :: "string \<Rightarrow> bool" where
  "is_pika_session n \<longleftrightarrow>
     starts_with ''pika-c-'' n \<or> starts_with ''pika-a-'' n \<or> starts_with ''pika-o-'' n \<or> starts_with ''pika-m-'' n"

definition known_local_home :: "board_item \<Rightarrow> bool" where
  "known_local_home item \<longleftrightarrow>
     bi_node_id item = None
     \<and> s_managed (bi_session item)
     \<and> (case s_tmux_session (bi_session item) of None \<Rightarrow> False | Some n \<Rightarrow> is_pika_session n)
     \<and> (case s_tmux_pane (bi_session item) of
          None \<Rightarrow> False
        | Some pane \<Rightarrow> (case strip_prefix ''%'' pane of
                          None \<Rightarrow> False
                        | Some i \<Rightarrow> i \<noteq> [] \<and> list_all is_ascii_digit i))"

section \<open>Return statuses\<close>

definition max_frame_bytes :: nat where "max_frame_bytes = 512"
definition max_return_interests :: nat where "max_return_interests = 64"
definition max_return_session_id :: nat where "max_return_session_id = 96"

record return_interest =
  ri_node_id :: "string option"
  ri_provider :: provider
  ri_session_id :: string

record return_status =
  rs_provider :: provider
  rs_session_id :: string
  rs_status :: "status option"
  rs_colors :: bool

definition valid_return_session_id :: "string \<Rightarrow> bool" where
  "valid_return_session_id v \<longleftrightarrow>
     v \<noteq> [] \<and> length v \<le> max_return_session_id
     \<and> list_all (\<lambda>b. is_ascii_alphanumeric b \<or> b \<in> set ''-_.:'') v"

fun status_wire :: "status option \<Rightarrow> string" where
  "status_wire None = ''unknown''"
| "status_wire (Some Starting) = ''starting''"
| "status_wire (Some NeedsYou) = ''needs-you''"
| "status_wire (Some OpenTwice) = ''open-twice''"
| "status_wire (Some Working) = ''working''"
| "status_wire (Some Ready) = ''ready''"
| "status_wire (Some Parked) = ''parked''"
| "status_wire (Some Unbound) = ''unbound''"
| "status_wire (Some Error) = ''error''"

definition parse_status_wire :: "string \<Rightarrow> status option option" where
  "parse_status_wire v =
     (if v = ''unknown'' then Some None
      else if v = ''starting'' then Some (Some Starting)
      else if v = ''needs-you'' then Some (Some NeedsYou)
      else if v = ''open-twice'' then Some (Some OpenTwice)
      else if v = ''working'' then Some (Some Working)
      else if v = ''ready'' then Some (Some Ready)
      else if v = ''parked'' then Some (Some Parked)
      else if v = ''unbound'' then Some (Some Unbound)
      else if v = ''error'' then Some (Some Error)
      else None)"

definition bit_text :: "bool \<Rightarrow> string" where
  "bit_text b = decimal (if b then 1 else 0)"

definition return_encode :: "return_status \<Rightarrow> string" where
  "return_encode r =
     ''s1|'' @ provider_as_str (rs_provider r) @ ''|'' @ rs_session_id r @ ''|''
     @ status_wire (rs_status r) @ ''|'' @ bit_text (rs_colors r)"

text \<open>\<open>field n fields\<close> is the \<open>n\<close>-th call of \<open>next\<close> on the iterator over the fields.\<close>

definition field :: "nat \<Rightarrow> string list \<Rightarrow> string option" where
  "field n fs = (if n < length fs then Some (fs ! n) else None)"

definition return_decode :: "string \<Rightarrow> feed_error + return_status" where
  "return_decode v =
     rbind (ensure (\<not> length v > max_frame_bytes) (Feed_bail ''Invalid return status frame'')) (\<lambda>_.
     let fields = split_on (CHR ''|'') v in
     rbind (ensure (field 0 fields = Some ''s1'') (Feed_bail ''Invalid return status frame'')) (\<lambda>_.
     rbind (ok_or (field 1 fields) (Feed_bail ''Missing return status provider'')) (\<lambda>p.
     rbind (case provider_from_str p of Inl _ \<Rightarrow> Inl (Feed_bail ''Invalid return status provider'') | Inr q \<Rightarrow> Inr q) (\<lambda>provider.
     rbind (ok_or (field 2 fields) (Feed_bail ''Missing return status identity'')) (\<lambda>session_id.
     rbind (ensure (valid_return_session_id session_id) (Feed_bail ''Invalid return status identity'')) (\<lambda>_.
     rbind (ok_or (field 3 fields) (Feed_bail ''Missing return status value'')) (\<lambda>w.
     rbind (ok_or (parse_status_wire w) (Feed_bail ''Invalid return status value'')) (\<lambda>status.
     rbind (if field 4 fields = Some ''0'' then Inr False
            else if field 4 fields = Some ''1'' then Inr True
            else Inl (Feed_bail ''Invalid return status colors'')) (\<lambda>colors.
     rbind (ensure (field 5 fields = None) (Feed_bail ''Invalid return status frame'')) (\<lambda>_.
     Inr \<lparr> rs_provider = provider, rs_session_id = session_id, rs_status = status, rs_colors = colors \<rparr>))))))))))"
section \<open>Summaries\<close>

datatype attention_kind = Kind_open_twice | Kind_error | Kind_unbound | Kind_ready

fun kind_label :: "attention_kind \<Rightarrow> string" where
  "kind_label Kind_open_twice = ''open twice''"
| "kind_label Kind_error = ''error''"
| "kind_label Kind_unbound = ''outside Pika''"
| "kind_label Kind_ready = ''ready''"

fun kind_wire :: "attention_kind \<Rightarrow> string" where
  "kind_wire Kind_open_twice = ''open-twice''"
| "kind_wire Kind_error = ''error''"
| "kind_wire Kind_unbound = ''unbound''"
| "kind_wire Kind_ready = ''ready''"

record summary =
  sm_needs :: nat
  sm_working :: nat
  sm_ready :: nat
  sm_parked :: nat
  sm_colors :: bool
  sm_latest :: "string option"
  sm_attention :: "attention_kind option"

definition feed_matches_filter :: "feed_env \<Rightarrow> board_item \<Rightarrow> string \<Rightarrow> bool" where
  "feed_matches_filter env item needle \<longleftrightarrow>
     (let s = bi_session item in
      needle = []
      \<or> contains_str needle (fe_lower env (display_name s))
      \<or> contains_str needle (provider_as_str (s_provider s))
      \<or> (case s_cwd s of None \<Rightarrow> False | Some v \<Rightarrow> contains_str needle (fe_lower env v))
      \<or> (case (case bi_node_name item of Some n \<Rightarrow> Some n | None \<Rightarrow> bi_node_id item) of
           None \<Rightarrow> False | Some v \<Rightarrow> contains_str needle (fe_lower env v)))"

fun status_group :: "status \<Rightarrow> string" where
  "status_group NeedsYou = ''NEEDS YOU''"
| "status_group Error = ''NEEDS YOU''"
| "status_group OpenTwice = ''NEEDS YOU''"
| "status_group Unbound = ''NEEDS YOU''"
| "status_group Working = ''WORKING''"
| "status_group Starting = ''WORKING''"
| "status_group Ready = ''READY''"
| "status_group Parked = ''PARKED''"

definition group :: "status \<Rightarrow> bool \<Rightarrow> string" where
  "group st stale = (if stale then ''PARKED'' else status_group st)"

definition allowed_label_char :: "feed_env \<Rightarrow> string \<Rightarrow> bool" where
  "allowed_label_char env c \<longleftrightarrow> fe_alphanumeric env c \<or> (\<exists>b\<in>set '' _-./@()''. c = [b])"

fun fit_pieces :: "nat \<Rightarrow> nat \<Rightarrow> string list \<Rightarrow> string list" where
  "fit_pieces limit used [] = []"
| "fit_pieces limit used (c # cs) =
     (if used + length c > limit then [] else c # fit_pieces limit (used + length c) cs)"

definition safe_label :: "feed_env \<Rightarrow> string \<Rightarrow> string" where
  "safe_label env v = trim (concat (fit_pieces 160 0 (filter (allowed_label_char env) (utf8_chars v))))"

definition event_time :: "board_item \<Rightarrow> f64" where
  "event_time item =
     (let v = s_last_event_at (bi_session item) in
      if f64_magnitude v < 0x7FF0000000000000 \<and> f64_lt f64_zero v then v else f64_zero)"

definition latest_cmp :: "board_item \<Rightarrow> board_item \<Rightarrow> ordering" where
  "latest_cmp a b =
     then_with (then_with (then_with
       (f64_total_cmp (event_time a) (event_time b))
       (compare_of (bi_node_id a) (bi_node_id b)))
       (compare_of (provider_as_str (s_provider (bi_session a))) (provider_as_str (s_provider (bi_session b)))))
       (compare_of (s_session_id (bi_session a)) (s_session_id (bi_session b)))"

definition latest_in :: "feed_env \<Rightarrow> board_item list \<Rightarrow> string \<Rightarrow> string \<Rightarrow> board_item option" where
  "latest_in env items needle category =
     max_by latest_cmp
       (filter (\<lambda>item. \<not> bi_stale item \<and> bi_pending_token item = None
                       \<and> group (s_status (bi_session item)) False = category
                       \<and> feed_matches_filter env item needle) items)"

fun warning_of :: "status \<Rightarrow> attention_kind option" where
  "warning_of OpenTwice = Some Kind_open_twice"
| "warning_of Error = Some Kind_error"
| "warning_of Unbound = Some Kind_unbound"
| "warning_of Starting = None"
| "warning_of NeedsYou = None"
| "warning_of Working = None"
| "warning_of Ready = None"
| "warning_of Parked = None"

definition latest_attention ::
  "feed_env \<Rightarrow> board_item list \<Rightarrow> string \<Rightarrow> (string \<times> attention_kind option) option" where
  "latest_attention env items needle =
     (case (case latest_in env items needle ''NEEDS YOU'' of
              Some item \<Rightarrow> Some (item, None)
            | None \<Rightarrow> map_option (\<lambda>item. (item, Some Kind_ready)) (latest_in env items needle ''READY'')) of
        None \<Rightarrow> None
      | Some (latest, mark) \<Rightarrow>
          let machine = (case bi_node_name latest of Some n \<Rightarrow> Some n | None \<Rightarrow> bi_node_id latest);
              label = safe_label env (display_name (bi_session latest)
                        @ (case machine of None \<Rightarrow> [] | Some m \<Rightarrow> '' @'' @ m));
              warning = (case mark of Some k \<Rightarrow> Some k | None \<Rightarrow> warning_of (s_status (bi_session latest)))
          in if label = [] then None else Some (label, warning))"

definition summarize :: "feed_env \<Rightarrow> board_item list \<Rightarrow> string \<Rightarrow> summary" where
  "summarize env items flt =
     (let needle = fe_lower env flt;
          count = (\<lambda>category. count_where (\<lambda>item. feed_matches_filter env item needle
                      \<and> group (s_status (bi_session item)) (bi_stale item) = category) items);
          latest = latest_attention env items needle
      in \<lparr> sm_needs = count ''NEEDS YOU'', sm_working = count ''WORKING'', sm_ready = count ''READY'',
           sm_parked = count ''PARKED'', sm_colors = \<not> fe_no_color env,
           sm_latest = map_option fst latest,
           sm_attention = (case latest of None \<Rightarrow> None | Some (_, warning) \<Rightarrow> warning) \<rparr>)"

section \<open>Summary frames\<close>

definition or_default :: "string option \<Rightarrow> string" where
  "or_default v = (case v of None \<Rightarrow> [] | Some s \<Rightarrow> s)"

definition summary_encode :: "summary \<Rightarrow> string" where
  "summary_encode s =
     join_by (CHR '','') [decimal (sm_needs s), decimal (sm_working s), decimal (sm_ready s), decimal (sm_parked s),
       bit_text (sm_colors s)]"

definition encode_extended :: "summary \<Rightarrow> string" where
  "encode_extended s =
     ''v2|'' @ summary_encode s @ ''|'' @ (if sm_attention s = None then or_default (sm_latest s) else [])"

definition attention_word :: "attention_kind option \<Rightarrow> string" where
  "attention_word k = (case k of None \<Rightarrow> ''request'' | Some k \<Rightarrow> kind_wire k)"

definition encode_attention :: "summary \<Rightarrow> string" where
  "encode_attention s =
     (let (kind, label) = (if sm_attention s = Some Kind_ready then (''request'', [])
                           else (attention_word (sm_attention s), or_default (sm_latest s)))
      in ''v3|'' @ summary_encode s @ ''|'' @ kind @ ''|'' @ label)"

definition encode_attention_v4 :: "summary \<Rightarrow> string" where
  "encode_attention_v4 s =
     ''v4|'' @ summary_encode s @ ''|'' @ attention_word (sm_attention s) @ ''|'' @ or_default (sm_latest s)"

definition kind_v3 :: "string \<Rightarrow> attention_kind option option" where
  "kind_v3 w =
     (if w = ''request'' then Some None
      else if w = ''open-twice'' then Some (Some Kind_open_twice)
      else if w = ''error'' then Some (Some Kind_error)
      else if w = ''unbound'' then Some (Some Kind_unbound)
      else None)"

definition kind_v4 :: "string \<Rightarrow> attention_kind option option" where
  "kind_v4 w =
     (if w = ''request'' then Some None
      else if w = ''open-twice'' then Some (Some Kind_open_twice)
      else if w = ''error'' then Some (Some Kind_error)
      else if w = ''unbound'' then Some (Some Kind_unbound)
      else if w = ''ready'' then Some (Some Kind_ready)
      else None)"

definition decode_kinded ::
  "(string \<Rightarrow> attention_kind option option) \<Rightarrow> string \<Rightarrow> feed_error + string \<times> attention_kind option" where
  "decode_kinded known v =
     (let parts = splitn 3 (CHR ''|'') v; counts = or_default (field 0 parts) in
      rbind (ok_or (case field 1 parts of None \<Rightarrow> None | Some k \<Rightarrow> known k)
               (Feed_bail ''Invalid board attention kind'')) (\<lambda>warning.
      rbind (ok_or (field 2 parts) (Feed_bail ''Missing board attention label'')) (\<lambda>label.
      Inr (''v2|'' @ counts @ ''|'' @ label, warning))))"

definition decode_label :: "feed_env \<Rightarrow> string \<Rightarrow> feed_error + string \<times> string option" where
  "decode_label env v =
     (case strip_prefix ''v2|'' v of
        None \<Rightarrow> Inr (v, None)
      | Some w \<Rightarrow>
          rbind (ok_or (split_once (CHR ''|'') w) (Feed_bail ''Invalid board summary'')) (\<lambda>(counts, label).
          rbind (ensure (label = safe_label env label) (Feed_bail ''Invalid board request label'')) (\<lambda>_.
          Inr (counts, if label = [] then None else Some label))))"

fun parse_all :: "string list \<Rightarrow> feed_error + nat list" where
  "parse_all [] = Inr []"
| "parse_all (v # vs) =
     rbind (ok_or (parse_usize v) Feed_parse_int) (\<lambda>n. rbind (parse_all vs) (\<lambda>ns. Inr (n # ns)))"

definition summary_decode :: "feed_env \<Rightarrow> string \<Rightarrow> feed_error + summary" where
  "summary_decode env v =
     rbind (ensure (\<not> length v > max_frame_bytes) (Feed_bail ''Invalid board summary'')) (\<lambda>_.
     rbind (case strip_prefix ''v4|'' v of
              Some w \<Rightarrow> decode_kinded kind_v4 w
            | None \<Rightarrow> (case strip_prefix ''v3|'' v of
                        Some w \<Rightarrow> decode_kinded kind_v3 w
                      | None \<Rightarrow> Inr (v, None))) (\<lambda>(value, warning).
     rbind (decode_label env value) (\<lambda>(value, latest).
     rbind (ensure (\<not> length value > 40) (Feed_bail ''Invalid board summary'')) (\<lambda>_.
     rbind (parse_all (split_on (CHR '','') value)) (\<lambda>values.
     case values of
       [a, b, c, d, colors] \<Rightarrow>
         rbind (ensure (\<not> (list_ex (\<lambda>n. n > 1000000) [a, b, c, d] \<or> colors > 1))
                  (Feed_bail ''Invalid board summary'')) (\<lambda>_.
         rbind (ensure (\<not> (a = 0 \<and> latest \<noteq> None \<and> warning \<noteq> Some Kind_ready))
                  (Feed_bail ''Request label without an attention count'')) (\<lambda>_.
         rbind (ensure (\<not> (warning = Some Kind_ready \<and> c = 0))
                  (Feed_bail ''Ready label without a ready count'')) (\<lambda>_.
         rbind (ensure (\<not> (warning \<noteq> None \<and> latest = None))
                  (Feed_bail ''Warning without an attention label'')) (\<lambda>_.
         Inr \<lparr> sm_needs = a, sm_working = b, sm_ready = c, sm_parked = d, sm_colors = (colors = 1),
               sm_latest = latest, sm_attention = warning \<rparr>))))
     | _ \<Rightarrow> Inl (Feed_bail ''Invalid board summary''))))))"
section \<open>Texts for tmux\<close>

datatype color = Red | Cyan | Green | Magenta | DarkGrey

fun status_color :: "status \<Rightarrow> color" where
  "status_color NeedsYou = Red"
| "status_color Error = Red"
| "status_color OpenTwice = Red"
| "status_color Working = Cyan"
| "status_color Starting = Cyan"
| "status_color Ready = Green"
| "status_color Unbound = Magenta"
| "status_color Parked = DarkGrey"

definition group_color :: "string \<Rightarrow> color" where
  "group_color v =
     (if v = ''NEEDS YOU'' then Red else if v = ''WORKING'' then Cyan else if v = ''READY'' then Green else DarkGrey)"

definition summary_parts :: "nat \<Rightarrow> nat \<Rightarrow> nat \<Rightarrow> nat \<Rightarrow> (string \<times> color) list" where
  "summary_parts needs working ready parked =
     [(decimal needs @ '' need you'', group_color ''NEEDS YOU''),
      (decimal working @ '' working'', group_color ''WORKING''),
      (decimal ready @ '' ready'', group_color ''READY''),
      (decimal parked @ '' parked'', group_color ''PARKED'')]"

fun return_bar_color_of :: "color \<Rightarrow> string" where
  "return_bar_color_of Red = ''red''"
| "return_bar_color_of Cyan = ''cyan''"
| "return_bar_color_of Green = ''green''"
| "return_bar_color_of Magenta = ''magenta''"
| "return_bar_color_of DarkGrey = ''brightblack''"

definition return_bar_color :: "status \<Rightarrow> string" where
  "return_bar_color st = return_bar_color_of (status_color st)"

fun part_color :: "color \<Rightarrow> string" where
  "part_color Red = ''red''"
| "part_color Cyan = ''cyan''"
| "part_color Green = ''green''"
| "part_color DarkGrey = ''brightblack''"
| "part_color Magenta = ''default''"

text \<open>The separator, the marks and the ellipsis, in UTF-8.\<close>

definition dot_text :: string where "dot_text = [CHR '' '', CHR 0xC2, CHR 0xB7, CHR '' '']"
definition check_mark :: string where "check_mark = [CHR 0xE2, CHR 0x9C, CHR 0x93]"
definition warning_sign :: string where "warning_sign = [CHR 0xE2, CHR 0x9A, CHR 0xA0]"
definition up_arrow :: string where "up_arrow = [CHR 0xE2, CHR 0x86, CHR 0x91]"
definition ellipsis :: string where "ellipsis = [CHR 0xE2, CHR 0x80, CHR 0xA6]"

fun fit_cells :: "feed_env \<Rightarrow> nat \<Rightarrow> nat \<Rightarrow> string list \<Rightarrow> string list" where
  "fit_cells env width cells [] = []"
| "fit_cells env width cells (c # cs) =
     (if cells + fe_char_width env c \<ge> width then []
      else c # fit_cells env width (cells + fe_char_width env c) cs)"

definition shorten_label :: "feed_env \<Rightarrow> string \<Rightarrow> nat \<Rightarrow> string" where
  "shorten_label env v width =
     (if fe_width env v \<le> width then v
      else concat (fit_cells env width 0 (utf8_chars v)) @ ellipsis)"

fun join_text :: "string \<Rightarrow> string list \<Rightarrow> string" where
  "join_text sep [] = []"
| "join_text sep [p] = p"
| "join_text sep (p # q # ps) = p @ sep @ join_text sep (q # ps)"

definition tmux_counts :: "bool \<Rightarrow> summary \<Rightarrow> string" where
  "tmux_counts colors s =
     join_text dot_text
       (map (\<lambda>(text, color). if \<not> colors then text
                             else ''#[fg='' @ part_color color @ '']'' @ text @ ''#[fg=default]'')
            (summary_parts (sm_needs s) (sm_working s) (sm_ready s) (sm_parked s)))"

definition label_branch :: "feed_env \<Rightarrow> summary \<Rightarrow> string \<Rightarrow> string \<Rightarrow> nat \<Rightarrow> string" where
  "label_branch env s label suffixed width =
     (let plain = tmux_counts False s;
          ready = (sm_attention s = Some Kind_ready);
          marker = (if ready then check_mark else if sm_attention s \<noteq> None then warning_sign else up_arrow);
          marker_color = (if ready then ''green'' else ''red'');
          reason = (case sm_attention s of None \<Rightarrow> [] | Some k \<Rightarrow> dot_text @ kind_label k);
          short = shorten_label env label width;
          minimum = fe_width env plain + 20 + fe_width env short + fe_width env reason;
          body = (if sm_colors s
                  then dot_text @ ''#[fg='' @ marker_color @ '']'' @ marker @ '' '' @ short @ reason @ ''#[fg=default]''
                  else dot_text @ marker @ '' '' @ short @ reason);
          condition = ''#{e|>=:#{client_width},'' @ decimal minimum @ ''}''
      in ''#{?'' @ condition @ '','' @ body @ '','' @ suffixed @ ''}'')"

definition tmux_text :: "feed_env \<Rightarrow> summary \<Rightarrow> string" where
  "tmux_text env s =
     tmux_counts (sm_colors s) s
     @ (case sm_latest s of
          None \<Rightarrow> []
        | Some l \<Rightarrow> fold (\<lambda>width acc. label_branch env s (safe_label env l) acc width) [8, 20, 48] [])"

definition feed_token :: "string \<Rightarrow> feed_error + string" where
  "feed_token v =
     rbind (ensure (\<not> (length v \<noteq> 32
                       \<or> \<not> list_all (\<lambda>b. is_ascii_digit b \<or> (97::nat) \<le> of_char b \<and> of_char b \<le> (102::nat)) v))
              (Feed_bail ''Invalid board feed identity'')) (\<lambda>_. Inr v)"

definition hex_digit :: "nat \<Rightarrow> char" where
  "hex_digit n = (if n < 10 then char_of (48 + n) else char_of (87 + n))"

definition hex_bytes :: "string \<Rightarrow> string" where
  "hex_bytes s = concat (map (\<lambda>b. [hex_digit (of_char b div 16), hex_digit (of_char b mod 16)]) s)"

definition return_option_name :: "string \<Rightarrow> provider \<Rightarrow> string \<Rightarrow> string option" where
  "return_option_name token_value p session_id =
     (case feed_token token_value of
        Inl _ \<Rightarrow> None
      | Inr _ \<Rightarrow>
          if \<not> valid_return_session_id session_id then None
          else Some (''@pika_return_'' @ token_value @ ''_'' @ provider_as_str p @ ''_'' @ hex_bytes session_id))"

section \<open>The published state\<close>

record feed =
  fd_items :: "board_item list"
  fd_filter :: string
  fd_summary :: "summary option"
  fd_health :: "string list"
  fd_revision :: u64
  fd_observed_at :: "f64 option"
  fd_interests :: "return_interest list"
  fd_stopped :: bool

definition empty_feed :: feed where
  "empty_feed =
     \<lparr> fd_items = [], fd_filter = [], fd_summary = None, fd_health = [], fd_revision = 0,
       fd_observed_at = None, fd_interests = [], fd_stopped = False \<rparr>"

definition next_revision :: "feed \<Rightarrow> u64" where
  "next_revision fd = u64_saturating_add (fd_revision fd) 1"

definition feed_health :: "string list \<Rightarrow> feed \<Rightarrow> feed" where
  "feed_health health fd =
     (if fd_stopped fd then fd else fd\<lparr>fd_health := health, fd_revision := next_revision fd\<rparr>)"

text \<open>A fresh sample is also projected to the assistant, which is outside this model.\<close>

definition publish_sample :: "feed_env \<Rightarrow> board_item list \<Rightarrow> string list \<Rightarrow> f64 option \<Rightarrow> feed \<Rightarrow> feed" where
  "publish_sample env items health fresh fd =
     (if fd_stopped fd then fd
      else fd\<lparr>fd_summary := Some (summarize env items (fd_filter fd)),
              fd_observed_at := (case fresh of Some now \<Rightarrow> Some now | None \<Rightarrow> fd_observed_at fd),
              fd_items := items, fd_health := health, fd_revision := next_revision fd\<rparr>)"

definition feed_publish :: "feed_env \<Rightarrow> board_item list \<Rightarrow> string list \<Rightarrow> feed \<Rightarrow> feed" where
  "feed_publish env items health fd = publish_sample env items health None fd"

definition feed_publish_observed :: "feed_env \<Rightarrow> board_item list \<Rightarrow> string list \<Rightarrow> f64 \<Rightarrow> feed \<Rightarrow> feed" where
  "feed_publish_observed env items health now fd = publish_sample env items health (Some now) fd"

definition feed_filter :: "feed_env \<Rightarrow> string \<Rightarrow> feed \<Rightarrow> feed" where
  "feed_filter env flt fd =
     (if fd_filter fd \<noteq> flt \<or> fd_summary fd = None
      then fd\<lparr>fd_filter := flt, fd_summary := Some (summarize env (fd_items fd) flt),
              fd_revision := next_revision fd\<rparr>
      else fd)"

text \<open>The derived order of \<open>ReturnInterest\<close>; a \<open>BTreeSet\<close> is its list in this order.\<close>

definition interest_cmp :: "return_interest \<Rightarrow> return_interest \<Rightarrow> ordering" where
  "interest_cmp a b =
     then_with (then_with
       (compare_of (ri_node_id a) (ri_node_id b))
       (compare_of (ri_provider a) (ri_provider b)))
       (compare_of (ri_session_id a) (ri_session_id b))"

definition interest_insert :: "return_interest \<Rightarrow> return_interest list \<Rightarrow> return_interest list" where
  "interest_insert x xs = (if x \<in> set xs then xs else insert_by interest_cmp x xs)"

definition register_return_interest ::
  "string option \<Rightarrow> provider \<Rightarrow> string \<Rightarrow> feed \<Rightarrow> bool \<times> feed" where
  "register_return_interest node p session_id fd =
     (if (case node of None \<Rightarrow> False | Some v \<Rightarrow> \<not> valid_return_session_id v) \<or> \<not> valid_return_session_id session_id
      then (False, fd)
      else
        let interest = \<lparr> ri_node_id = node, ri_provider = p, ri_session_id = session_id \<rparr> in
        if interest \<in> set (fd_interests fd) then (True, fd)
        else if length (fd_interests fd) \<ge> max_return_interests then (False, fd)
        else (True, fd\<lparr>fd_interests := interest_insert interest (fd_interests fd),
                       fd_revision := next_revision fd\<rparr>))"

fun add_known_homes :: "return_interest list \<Rightarrow> board_item list \<Rightarrow> return_interest list" where
  "add_known_homes interests [] = interests"
| "add_known_homes interests (item # items) =
     (if length interests \<ge> max_return_interests then interests
      else add_known_homes
             (if known_local_home item \<and> bi_pending_token item = None
                 \<and> valid_return_session_id (s_session_id (bi_session item))
              then interest_insert
                     \<lparr> ri_node_id = None, ri_provider = s_provider (bi_session item),
                       ri_session_id = s_session_id (bi_session item) \<rparr> interests
              else interests)
             items)"

definition current_row :: "board_item list \<Rightarrow> string option \<Rightarrow> return_interest \<Rightarrow> board_item option" where
  "current_row items node interest =
     find (\<lambda>item. bi_node_id item = node
                  \<and> s_provider (bi_session item) = ri_provider interest
                  \<and> s_session_id (bi_session item) = ri_session_id interest
                  \<and> \<not> bi_stale item \<and> bi_pending_token item = None
                  \<and> (s_live (bi_session item) \<or> known_local_home item)) items"

definition return_statuses :: "feed \<Rightarrow> string option \<Rightarrow> return_status list" where
  "return_statuses fd node =
     map (\<lambda>interest.
            \<lparr> rs_provider = ri_provider interest, rs_session_id = ri_session_id interest,
              rs_status = map_option (\<lambda>item. s_status (bi_session item)) (current_row (fd_items fd) node interest),
              rs_colors = (case fd_summary fd of None \<Rightarrow> False | Some s \<Rightarrow> sm_colors s) \<rparr>)
       (filter (\<lambda>interest. ri_node_id interest = node) (add_known_homes (fd_interests fd) (fd_items fd)))"

record feed_snapshot =
  sn_items :: "board_item list"
  sn_filter :: string
  sn_summary :: summary
  sn_health :: "string list"
  sn_revision :: u64
  sn_observed_at :: "f64 option"

definition feed_snapshot_of :: "feed \<Rightarrow> feed_snapshot option" where
  "feed_snapshot_of fd =
     (case fd_summary fd of
        None \<Rightarrow> None
      | Some s \<Rightarrow> Some \<lparr> sn_items = fd_items fd, sn_filter = fd_filter fd, sn_summary = s,
                        sn_health = fd_health fd, sn_revision = fd_revision fd,
                        sn_observed_at = fd_observed_at fd \<rparr>)"

definition subscription_take :: "u64 option \<Rightarrow> feed \<Rightarrow> feed_snapshot option \<times> u64 option" where
  "subscription_take seen fd =
     (if seen = Some (fd_revision fd) then (None, seen)
      else (case feed_snapshot_of fd of
              None \<Rightarrow> (None, seen)
            | Some snap \<Rightarrow> (Some snap, Some (sn_revision snap))))"

text \<open>Whether the worker of a sink writes on this turn; the time is in milliseconds.\<close>

definition sink_due :: "summary option \<Rightarrow> u64 option \<Rightarrow> nat \<Rightarrow> feed \<Rightarrow> bool" where
  "sink_due previous previous_revision elapsed fd \<longleftrightarrow>
     fd_summary fd \<noteq> None
     \<and> (fd_summary fd \<noteq> previous \<or> Some (fd_revision fd) \<noteq> previous_revision \<or> elapsed \<ge> 5000)"

definition remote_frame :: "string list \<Rightarrow> summary \<Rightarrow> string" where
  "remote_frame capabilities s =
     (if ''board-feed-v4'' \<in> set capabilities then encode_attention_v4 s
      else if ''board-feed-v3'' \<in> set capabilities then encode_attention s
      else if ''board-feed-v2'' \<in> set capabilities then encode_extended s
      else summary_encode s)"

definition remote_lines :: "string list \<Rightarrow> string \<Rightarrow> summary \<Rightarrow> feed \<Rightarrow> string list" where
  "remote_lines capabilities node s fd =
     remote_frame capabilities s
     # (if ''return-bar-status-v1'' \<in> set capabilities then map return_encode (return_statuses fd (Some node)) else [])"

datatype feed_op =
  Publish "board_item list" "string list"
| Publish_observed "board_item list" "string list" f64
| Health "string list"
| Set_filter string
| Register "string option" provider string
| Stop

fun feed_step :: "feed_env \<Rightarrow> feed_op \<Rightarrow> feed \<Rightarrow> unit + feed" where
  "feed_step env (Publish items health) fd = Inr (feed_publish env items health fd)"
| "feed_step env (Publish_observed items health now) fd = Inr (feed_publish_observed env items health now fd)"
| "feed_step env (Health health) fd = Inr (feed_health health fd)"
| "feed_step env (Set_filter flt) fd = Inr (feed_filter env flt fd)"
| "feed_step env (Register node p session_id) fd = Inr (snd (register_return_interest node p session_id fd))"
| "feed_step env Stop fd = Inr (fd\<lparr>fd_stopped := True\<rparr>)"

section \<open>The receiving end\<close>

text \<open>
  The loop of \<open>receive\<close> as a function of what each turn finds: the time since the last frame in
  nanoseconds and, if the descriptor is ready, the bytes one read returned (none at end of file).
  It yields the publications in order, the last of which clears the feed when the loop ends.
\<close>

datatype publication = Summary_published summary | Status_published return_status | Cleared

datatype receive_end = Running string | Closed | Failed feed_error

definition decode_frame :: "feed_env \<Rightarrow> string \<Rightarrow> feed_error + publication" where
  "decode_frame env pending =
     rbind (ensure (utf8_valid pending) Feed_utf8) (\<lambda>_.
     if starts_with ''s1|'' pending
     then rbind (return_decode pending) (\<lambda>status. Inr (Status_published status))
     else rbind (summary_decode env pending) (\<lambda>s. Inr (Summary_published s)))"

fun receive_bytes :: "feed_env \<Rightarrow> string \<Rightarrow> string \<Rightarrow> publication list \<times> (feed_error + string)" where
  "receive_bytes env pending [] = ([], Inr pending)"
| "receive_bytes env pending (b # bs) =
     (if b = CHR 0x0A
      then (case decode_frame env pending of
              Inl e \<Rightarrow> ([], Inl e)
            | Inr p \<Rightarrow> (let (ps, r) = receive_bytes env [] bs in (p # ps, r)))
      else if length pending \<ge> max_frame_bytes then ([], Inl (Feed_bail ''Board feed frame too large''))
      else receive_bytes env (pending @ [b]) bs)"

fun receive :: "feed_env \<Rightarrow> string \<Rightarrow> (nat \<times> string option) list \<Rightarrow> publication list \<times> receive_end" where
  "receive env pending [] = ([], Running pending)"
| "receive env pending ((elapsed, ready) # turns) =
     (if elapsed > 15000000000 then ([Cleared], Failed (Feed_bail ''Board feed disconnected''))
      else (case ready of
              None \<Rightarrow> receive env pending turns
            | Some bytes \<Rightarrow>
                if bytes = []
                then ([Cleared], if pending \<noteq> [] then Failed (Feed_bail ''Incomplete board feed frame'') else Closed)
                else (case receive_bytes env pending bytes of
                        (ps, Inl e) \<Rightarrow> (ps @ [Cleared], Failed e)
                      | (ps, Inr rest) \<Rightarrow>
                          (let (qs, r) = receive env rest turns in (ps @ qs, r)))))"

end
