(* ===== verification/Feed_Laws.thy ===== *)
theory Feed_Laws
  imports Feed
begin

text \<open>
  What the activity feed guarantees: labels are inert and stable, frames survive the wire in
  every version, the receiver publishes exactly what the sender wrote however the bytes are cut,
  and no subscriber misses a change.
\<close>

section \<open>Labels\<close>

text \<open>
  What the code relies on of \<open>char::is_alphanumeric\<close>: it is a predicate on characters, and on the
  ASCII ones it is \<open>is_ascii_alphanumeric\<close>.
\<close>

definition alphanumeric_law :: "(string \<Rightarrow> bool) \<Rightarrow> bool" where
  "alphanumeric_law p \<longleftrightarrow>
     (\<forall>c. p c \<longrightarrow> utf8_char_ok c) \<and> (\<forall>b. ascii_char b \<longrightarrow> p [b] = is_ascii_alphanumeric b)"

definition inert_byte :: "char \<Rightarrow> bool" where
  "inert_byte b \<longleftrightarrow> ascii_char b \<longrightarrow> is_ascii_alphanumeric b \<or> b \<in> set '' _-./@()''"

lemma utf8_char_ok_shape:
  assumes "utf8_char_ok c"
  shows "(\<exists>a. c = [a] \<and> ascii_char a)
    \<or> (\<exists>a ds. c = a # ds \<and> (194::nat) \<le> of_char a \<and> (\<forall>d\<in>set ds. utf8_continuation d))"
proof -
  have cont: "(128::nat) \<le> of_char d \<Longrightarrow> (of_char d :: nat) \<le> 191 \<Longrightarrow> utf8_continuation d" for d
    by (simp add: utf8_continuation_def)
  consider a where "c = [a]" | a b where "c = [a, b]" | a b d where "c = [a, b, d]"
    | a b d e where "c = [a, b, d, e]" | "c = [] \<or> length c > 4"
    by (cases c; cases "tl c"; cases "tl (tl c)"; cases "tl (tl (tl c))"; cases "tl (tl (tl (tl c)))") auto
  then show ?thesis
  proof cases
    case 5
    with assms show ?thesis
      by (cases c; cases "tl c"; cases "tl (tl c)"; cases "tl (tl (tl c))"; cases "tl (tl (tl (tl c)))")
        (simp_all add: utf8_char_ok_def)
  qed (use assms in \<open>auto simp: utf8_char_ok_def ascii_char_def intro!: cont split: if_splits\<close>)
qed

lemma utf8_char_ok_cases: "utf8_char_ok c \<Longrightarrow> (\<exists>b. c = [b] \<and> ascii_char b) \<or> (\<forall>b\<in>set c. \<not> ascii_char b)"
  using utf8_char_ok_shape [of c] by (force simp: ascii_char_def utf8_continuation_def)

lemma utf8_char_ok_piece: "utf8_char_ok c \<Longrightarrow> piece_ok c \<and> \<not> utf8_continuation (hd c)"
  using utf8_char_ok_shape [of c]
  by (force simp: ascii_char_def utf8_continuation_def piece_ok_def list_all_iff)

lemma label_punctuation: "\<forall>b\<in>set '' _-./@()''. utf8_char_ok [b] \<and> inert_byte b"
  by code_simp

lemma allowed_label_char_ok:
  assumes "alphanumeric_law (fe_alphanumeric env)" and "allowed_label_char env c"
  shows "utf8_char_ok c \<and> (\<forall>b\<in>set c. inert_byte b)"
  using assms utf8_char_ok_cases [of c] label_punctuation
  by (auto simp: allowed_label_char_def alphanumeric_law_def inert_byte_def)

lemma fit_pieces_prefix: "\<exists>b. cs = fit_pieces limit used cs @ b"
  by (induction limit used cs rule: fit_pieces.induct) auto

lemma fit_pieces_length:
  "used \<le> limit \<Longrightarrow> used + length (concat (fit_pieces limit used cs)) \<le> limit"
  by (induction limit used cs rule: fit_pieces.induct) auto

lemma fit_pieces_all: "used + length (concat cs) \<le> limit \<Longrightarrow> fit_pieces limit used cs = cs"
  by (induction limit used cs rule: fit_pieces.induct) auto

lemma safe_label_pieces:
  obtains ps where "safe_label env v = concat ps" "pieces_ok ps" "\<forall>p\<in>set ps. allowed_label_char env p"
    "length (concat ps) \<le> 160" "trim_pieces ps = ps"
proof -
  let ?f = "filter (allowed_label_char env) (utf8_chars v)"
  let ?q = "fit_pieces 160 0 ?f"
  let ?ps = "trim_pieces ?q"
  obtain d where d: "?f = ?q @ d" using fit_pieces_prefix by metis
  obtain a b where ab: "?q = a @ ?ps @ b" using trim_pieces_split by metis
  have f: "pieces_ok ?f" by (rule pieces_ok_filter [OF pieces_ok_utf8_chars])
  then have q: "pieces_ok ?q" using d pieces_ok_append by metis
  then have ps: "pieces_ok ?ps" using ab pieces_ok_append by metis
  have "safe_label env v = concat ?ps"
    by (simp add: safe_label_def trim_def utf8_chars_concat [OF q])
  moreover have "set ?ps \<subseteq> set ?q" by (subst ab) auto
  moreover have "set ?q \<subseteq> set ?f" by (subst (2) d) auto
  moreover have "length (concat ?ps) \<le> length (concat ?q)" by (subst (2) ab) simp
  moreover have "length (concat ?q) \<le> 160" using fit_pieces_length [of 0 160 ?f] by simp
  ultimately show ?thesis by (intro that [of ?ps] ps) (auto simp: trim_pieces_idem)
qed

lemma safe_label_idem [simp]: "safe_label env (safe_label env v) = safe_label env v"
proof -
  obtain ps where eq: "safe_label env v = concat ps" and ps: "pieces_ok ps"
    "\<forall>p\<in>set ps. allowed_label_char env p" "length (concat ps) \<le> 160" "trim_pieces ps = ps"
    by (rule safe_label_pieces)
  from ps(2) have "filter (allowed_label_char env) ps = ps" by (simp add: filter_id_conv)
  then show ?thesis unfolding eq
    by (simp add: safe_label_def trim_def utf8_chars_concat [OF ps(1)] fit_pieces_all ps(3,4))
qed

lemma safe_label_length: "length (safe_label env v) \<le> 160"
  by (rule safe_label_pieces [of env v]) simp

lemma safe_label_bytes:
  assumes "alphanumeric_law (fe_alphanumeric env)"
  shows "\<forall>b\<in>set (safe_label env v). inert_byte b"
    and "utf8_valid (safe_label env v)"
    and "safe_label env v = [] \<or> \<not> utf8_continuation (hd (safe_label env v))"
proof -
  obtain ps where eq: "safe_label env v = concat ps" and ps: "pieces_ok ps"
    "\<forall>p\<in>set ps. allowed_label_char env p"
    by (rule safe_label_pieces)
  have ok: "\<forall>p\<in>set ps. utf8_char_ok p \<and> (\<forall>b\<in>set p. inert_byte b)"
    using allowed_label_char_ok [OF assms] ps(2) by blast
  then show "\<forall>b\<in>set (safe_label env v). inert_byte b" by (auto simp: eq)
  show "utf8_valid (safe_label env v)"
    using ok by (simp add: eq utf8_valid_def utf8_chars_concat [OF ps(1)] list_all_iff)
  show "safe_label env v = [] \<or> \<not> utf8_continuation (hd (safe_label env v))"
    using ok utf8_char_ok_piece by (cases ps) (auto simp: eq piece_ok_def)
qed

lemma inert_byte_not_special:
  "inert_byte b \<Longrightarrow> b \<noteq> CHR ''|'' \<and> b \<noteq> CHR '','' \<and> b \<noteq> CHR 0x0A"
  by (auto simp: inert_byte_def ascii_char_def is_ascii_alphanumeric_def is_ascii_digit_def)

section \<open>Return statuses on the wire\<close>

lemma parse_status_wire_round [simp]: "parse_status_wire (status_wire st) = Some st"
  by (cases st rule: status_wire.cases) (simp_all add: parse_status_wire_def)

lemma status_wire_no_bar: "CHR ''|'' \<notin> set (status_wire st) \<and> length (status_wire st) \<le> 10"
  by (cases st rule: status_wire.cases) simp_all

lemma status_wire_ascii: "list_all ascii_char (status_wire st)"
  by (cases st rule: status_wire.cases) (simp_all add: ascii_char_def)

lemma provider_as_str_ascii: "list_all ascii_char (provider_as_str p)"
  by (cases p) (simp_all add: ascii_char_def)

lemma decimal_bit: "decimal 0 = ''0''" "decimal (Suc 0) = ''1''"
  by code_simp+

lemma bit_text_eq: "bit_text b = (if b then ''1'' else ''0'')"
  by (simp add: bit_text_def decimal_bit)

definition session_id_byte :: "char \<Rightarrow> bool" where
  "session_id_byte b \<longleftrightarrow> is_ascii_alphanumeric b \<or> b \<in> set ''-_.:''"

lemma valid_return_session_id_bytes:
  "valid_return_session_id v \<longleftrightarrow> v \<noteq> [] \<and> length v \<le> 96 \<and> list_all session_id_byte v"
  by (simp add: valid_return_session_id_def max_return_session_id_def session_id_byte_def [abs_def])

lemma session_id_byte_plain: "session_id_byte b \<Longrightarrow> ascii_char b \<and> b \<noteq> CHR ''|'' \<and> b \<noteq> CHR 0x0A"
  by (auto simp: session_id_byte_def ascii_char_def is_ascii_alphanumeric_def is_ascii_digit_def)

lemma return_encode_fields:
  "return_encode r =
     join_by (CHR ''|'') [''s1'', provider_as_str (rs_provider r), rs_session_id r, status_wire (rs_status r),
       bit_text (rs_colors r)]"
  by (simp add: return_encode_def)

lemma return_encode_split:
  assumes "valid_return_session_id (rs_session_id r)"
  shows "split_on (CHR ''|'') (return_encode r)
    = [''s1'', provider_as_str (rs_provider r), rs_session_id r, status_wire (rs_status r), bit_text (rs_colors r)]"
  unfolding return_encode_fields
  by (rule split_on_join_by)
    (use assms session_id_byte_plain in \<open>auto simp: valid_return_session_id_bytes list_all_iff
      provider_as_str_no_bar status_wire_no_bar bit_text_eq\<close>)

lemma return_encode_length:
  assumes "valid_return_session_id (rs_session_id r)"
  shows "length (return_encode r) \<le> 121"
proof -
  have "length (provider_as_str (rs_provider r)) \<le> 8" by (rule length_provider_as_str)
  moreover have "length (status_wire (rs_status r)) \<le> 10" using status_wire_no_bar by blast
  moreover have "length (rs_session_id r) \<le> 96" using assms by (simp add: valid_return_session_id_bytes)
  ultimately show ?thesis by (simp add: return_encode_def bit_text_eq)
qed

lemma return_decode_encode:
  assumes "valid_return_session_id (rs_session_id r)"
  shows "return_decode (return_encode r) = Inr r"
  using assms return_encode_length [OF assms]
  by (simp add: return_decode_def return_encode_split [OF assms] field_def max_frame_bytes_def bit_text_eq Let_def)
section \<open>Summaries on the wire\<close>

text \<open>The summaries a frame can carry.\<close>

definition summary_wire_ok :: "feed_env \<Rightarrow> summary \<Rightarrow> bool" where
  "summary_wire_ok env s \<longleftrightarrow>
     sm_needs s \<le> 1000000 \<and> sm_working s \<le> 1000000 \<and> sm_ready s \<le> 1000000 \<and> sm_parked s \<le> 1000000
     \<and> (case sm_latest s of
          None \<Rightarrow> sm_attention s = None
        | Some l \<Rightarrow> l \<noteq> [] \<and> l = safe_label env l
            \<and> (if sm_attention s = Some Kind_ready then 0 < sm_ready s else 0 < sm_needs s))"

lemma count_where_le_length: "count_where p rows \<le> length rows"
  by (simp add: count_where_def)

lemma latest_in_Some:
  assumes "latest_in env items needle category = Some item"
  shows "0 < count_where (\<lambda>item. feed_matches_filter env item needle
           \<and> group (s_status (bi_session item)) (bi_stale item) = category) items"
proof -
  from assms have "item \<in> set items \<and> \<not> bi_stale item \<and> feed_matches_filter env item needle
      \<and> group (s_status (bi_session item)) False = category"
    by (auto simp: latest_in_def dest: max_by_Some_in)
  then show ?thesis by (auto simp: neq0_conv [symmetric] count_where_zero_iff group_def simp del: neq0_conv)
qed

lemma warning_of_not_ready: "warning_of st \<noteq> Some Kind_ready"
  by (cases st) simp_all

lemma latest_attention_Some:
  assumes "latest_attention env items needle = Some (l, w)"
  shows "l \<noteq> [] \<and> l = safe_label env l
    \<and> 0 < count_where (\<lambda>item. feed_matches_filter env item needle
           \<and> group (s_status (bi_session item)) (bi_stale item)
             = (if w = Some Kind_ready then ''READY'' else ''NEEDS YOU'')) items"
proof (cases "latest_in env items needle ''NEEDS YOU''")
  case None
  with assms obtain item where "latest_in env items needle ''READY'' = Some item"
    by (auto simp: latest_attention_def split: option.splits)
  with None assms latest_in_Some [OF this] show ?thesis
    by (auto simp: latest_attention_def Let_def split: if_splits)
next
  case (Some item)
  with assms latest_in_Some [OF this] warning_of_not_ready show ?thesis
    by (auto simp: latest_attention_def Let_def split: if_splits)
qed

lemma summarize_wire_ok:
  assumes "length items \<le> 1000000"
  shows "summary_wire_ok env (summarize env items flt)"
proof -
  have "count_where p items \<le> 1000000" for p
    using count_where_le_length [of p items] assms by (rule le_trans)
  then show ?thesis
    by (auto simp: summary_wire_ok_def summarize_def Let_def split: option.splits
        dest!: latest_attention_Some)
qed

lemma summary_encode_split:
  "split_on (CHR '','') (summary_encode s)
   = [decimal (sm_needs s), decimal (sm_working s), decimal (sm_ready s), decimal (sm_parked s), bit_text (sm_colors s)]"
proof -
  have "CHR '','' \<notin> set (decimal n)" for n
    using decimal_digits [of "CHR '',''" n] by (auto simp: is_ascii_digit_def)
  then show ?thesis
    unfolding summary_encode_def by (intro split_on_join_by) (auto simp: bit_text_def)
qed

lemma summary_encode_bytes: "c \<in> set (summary_encode s) \<Longrightarrow> is_ascii_digit c \<or> c = CHR '',''"
  by (auto simp: summary_encode_def bit_text_def dest: decimal_digits)

lemma summary_encode_no_bar: "CHR ''|'' \<notin> set (summary_encode s)"
  by (auto dest!: summary_encode_bytes simp: is_ascii_digit_def)

lemma summary_encode_not_tagged: "strip_prefix (CHR ''v'' # p) (summary_encode s) = None"
proof -
  have "hd (summary_encode s) \<in> set (summary_encode s)" by (simp add: summary_encode_def)
  then have "hd (summary_encode s) \<noteq> CHR ''v''" by (auto dest!: summary_encode_bytes simp: is_ascii_digit_def)
  then show ?thesis
    by (cases "summary_encode s") (auto simp: strip_prefix_def starts_with_def)
qed

lemma decimal_count_length: "n \<le> 1000000 \<Longrightarrow> length (decimal n) \<le> 7"
  by (rule length_decimal) simp_all

lemma summary_encode_length: "summary_wire_ok env s \<Longrightarrow> length (summary_encode s) \<le> 33"
  using decimal_count_length [of "sm_needs s"] decimal_count_length [of "sm_working s"]
    decimal_count_length [of "sm_ready s"] decimal_count_length [of "sm_parked s"]
  by (simp add: summary_encode_def summary_wire_ok_def bit_text_eq)

lemma summary_encode_parse:
  assumes "summary_wire_ok env s"
  shows "parse_all (split_on (CHR '','') (summary_encode s))
    = Inr [sm_needs s, sm_working s, sm_ready s, sm_parked s, if sm_colors s then 1 else 0]"
  using assms
  by (simp add: summary_encode_split bit_text_def parse_usize_decimal summary_wire_ok_def u64_max_def)

lemma decode_label_encoded:
  "l = safe_label env l \<Longrightarrow>
   decode_label env (''v2|'' @ summary_encode s @ ''|'' @ l) = Inr (summary_encode s, if l = [] then None else Some l)"
proof -
  assume l: "l = safe_label env l"
  have "strip_prefix ''v2|'' (''v2|'' @ summary_encode s @ ''|'' @ l) = Some (summary_encode s @ ''|'' @ l)"
    by (rule strip_prefix_append)
  moreover have "split_once (CHR ''|'') (summary_encode s @ ''|'' @ l) = Some (summary_encode s, l)"
    using split_once_append [OF summary_encode_no_bar] by simp
  ultimately show ?thesis using l [symmetric] by (simp add: decode_label_def)
qed

lemma decode_kinded_encoded:
  assumes "known w = Some k" "CHR ''|'' \<notin> set w"
  shows "decode_kinded known (summary_encode s @ ''|'' @ w @ ''|'' @ l) = Inr (''v2|'' @ summary_encode s @ ''|'' @ l, k)"
proof -
  have "splitn 3 (CHR ''|'') (summary_encode s @ ''|'' @ w @ ''|'' @ l) = [summary_encode s, w, l]"
    using split_once_append [OF summary_encode_no_bar] split_once_append [OF assms(2)]
    by (simp add: numeral_3_eq_3)
  with assms(1) show ?thesis by (simp add: decode_kinded_def field_def or_default_def)
qed

text \<open>What decoding checks after the tag has been read.\<close>

lemma summary_decode_body:
  assumes ok: "summary_wire_ok env t" and len: "length v \<le> 512"
    and tag: "(case strip_prefix ''v4|'' v of
                 Some w \<Rightarrow> decode_kinded kind_v4 w
               | None \<Rightarrow> (case strip_prefix ''v3|'' v of
                           Some w \<Rightarrow> decode_kinded kind_v3 w
                         | None \<Rightarrow> Inr (v, None))) = Inr (u, sm_attention t)"
    and label: "decode_label env u = Inr (summary_encode t, sm_latest t)"
  shows "summary_decode env v = Inr t"
proof -
  have "length (summary_encode t) \<le> 40" using summary_encode_length [OF ok] by simp
  then show ?thesis
    using ok len
    by (auto simp: summary_decode_def tag label summary_encode_parse [OF ok] max_frame_bytes_def
        summary_wire_ok_def split: option.splits if_splits)
qed
lemma attention_word_kind:
  "kind_v4 (attention_word k) = Some k"
  "k \<noteq> Some Kind_ready \<Longrightarrow> kind_v3 (attention_word k) = Some k"
  "CHR ''|'' \<notin> set (attention_word k)" "length (attention_word k) \<le> 10"
  by (cases k; cases "the k"; simp add: attention_word_def kind_v4_def kind_v3_def)+

definition without_label :: "summary \<Rightarrow> summary" where
  "without_label s = s\<lparr>sm_latest := None, sm_attention := None\<rparr>"

lemma without_label_simps [simp]:
  "summary_encode (without_label s) = summary_encode s"
  "sm_latest (without_label s) = None" "sm_attention (without_label s) = None"
  by (simp_all add: without_label_def summary_encode_def)

lemma without_label_ok: "summary_wire_ok env s \<Longrightarrow> summary_wire_ok env (without_label s)"
  by (simp add: summary_wire_ok_def without_label_def)

lemma wire_label:
  assumes "summary_wire_ok env s"
  shows "or_default (sm_latest s) = safe_label env (or_default (sm_latest s))"
    and "(if or_default (sm_latest s) = [] then None else Some (or_default (sm_latest s))) = sm_latest s"
    and "length (or_default (sm_latest s)) \<le> 160"
proof -
  have empty: "safe_label env [] = []" by (simp add: safe_label_def trim_def trim_pieces_def)
  show "or_default (sm_latest s) = safe_label env (or_default (sm_latest s))"
    using assms empty by (auto simp: summary_wire_ok_def or_default_def split: option.splits)
  then show "length (or_default (sm_latest s)) \<le> 160" using safe_label_length by metis
  show "(if or_default (sm_latest s) = [] then None else Some (or_default (sm_latest s))) = sm_latest s"
    using assms by (auto simp: summary_wire_ok_def or_default_def split: option.splits)
qed

lemma summary_decode_v4:
  assumes ok: "summary_wire_ok env s"
  shows "summary_decode env (encode_attention_v4 s) = Inr s" and "length (encode_attention_v4 s) \<le> 512"
proof -
  let ?rest = "summary_encode s @ ''|'' @ attention_word (sm_attention s) @ ''|'' @ or_default (sm_latest s)"
  have frame: "encode_attention_v4 s = ''v4|'' @ ?rest" by (simp add: encode_attention_v4_def)
  show len: "length (encode_attention_v4 s) \<le> 512"
    using summary_encode_length [OF ok] wire_label(3) [OF ok] attention_word_kind(4) [of "sm_attention s"]
    by (simp add: encode_attention_v4_def)
  have "decode_kinded kind_v4 ?rest
      = Inr (''v2|'' @ summary_encode s @ ''|'' @ or_default (sm_latest s), sm_attention s)"
    by (rule decode_kinded_encoded) (rule attention_word_kind)+
  then show "summary_decode env (encode_attention_v4 s) = Inr s"
    by (intro summary_decode_body [OF ok len])
      (simp only: frame strip_prefix_append option.case, simp only: decode_label_encoded [OF wire_label(1) [OF ok]] wire_label(2) [OF ok])
qed

lemma summary_decode_v3:
  assumes ok: "summary_wire_ok env s"
  shows "summary_decode env (encode_attention s)
    = Inr (if sm_attention s = Some Kind_ready then without_label s else s)"
proof -
  let ?t = "if sm_attention s = Some Kind_ready then without_label s else s"
  let ?rest = "summary_encode ?t @ ''|'' @ attention_word (sm_attention ?t) @ ''|'' @ or_default (sm_latest ?t)"
  have ok_t: "summary_wire_ok env ?t" using ok without_label_ok by simp
  have frame: "encode_attention s = ''v3|'' @ ?rest"
    by (simp add: encode_attention_def or_default_def attention_word_def)
  have len: "length (encode_attention s) \<le> 512"
    unfolding frame
    using summary_encode_length [OF ok_t] wire_label(3) [OF ok_t] attention_word_kind(4) [of "sm_attention ?t"]
    by (simp split del: if_split)
  have v4: "strip_prefix ''v4|'' (''v3|'' @ r) = None" for r by (simp add: strip_prefix_def starts_with_def)
  have "decode_kinded kind_v3 ?rest
      = Inr (''v2|'' @ summary_encode ?t @ ''|'' @ or_default (sm_latest ?t), sm_attention ?t)"
    by (rule decode_kinded_encoded) (rule attention_word_kind, simp, rule attention_word_kind)
  then show ?thesis
    by (intro summary_decode_body [OF ok_t len])
      (simp only: frame v4 strip_prefix_append option.case,
       simp only: decode_label_encoded [OF wire_label(1) [OF ok_t]] wire_label(2) [OF ok_t])
qed

lemma summary_decode_v2:
  assumes ok: "summary_wire_ok env s"
  shows "summary_decode env (encode_extended s) = Inr (if sm_attention s = None then s else without_label s)"
proof -
  let ?t = "if sm_attention s = None then s else without_label s"
  have ok_t: "summary_wire_ok env ?t" using ok without_label_ok by simp
  have frame: "encode_extended s = ''v2|'' @ summary_encode ?t @ ''|'' @ or_default (sm_latest ?t)"
    by (simp add: encode_extended_def or_default_def)
  have len: "length (encode_extended s) \<le> 512"
    unfolding frame using summary_encode_length [OF ok_t] wire_label(3) [OF ok_t] by (simp split del: if_split)
  have tag: "strip_prefix ''v4|'' (''v2|'' @ r) = None" "strip_prefix ''v3|'' (''v2|'' @ r) = None" for r
    by (simp_all add: strip_prefix_def starts_with_def)
  have none: "sm_attention ?t = None" by simp
  show ?thesis
    by (intro summary_decode_body [OF ok_t len])
      (simp only: frame tag option.case none,
       simp only: decode_label_encoded [OF wire_label(1) [OF ok_t]] wire_label(2) [OF ok_t])
qed

lemma summary_decode_v1:
  assumes ok: "summary_wire_ok env s"
  shows "summary_decode env (summary_encode s) = Inr (without_label s)"
proof (rule summary_decode_body [OF without_label_ok [OF ok]])
  show "length (summary_encode s) \<le> 512" using summary_encode_length [OF ok] by simp
next
  have tag: "strip_prefix ''v2|'' (summary_encode s) = None" "strip_prefix ''v3|'' (summary_encode s) = None"
    "strip_prefix ''v4|'' (summary_encode s) = None"
    by (rule summary_encode_not_tagged)+
  show "decode_label env (summary_encode s) = Inr (summary_encode (without_label s), sm_latest (without_label s))"
    by (simp only: decode_label_def tag option.case without_label_simps)
  show "(case strip_prefix ''v4|'' (summary_encode s) of
      Some w \<Rightarrow> decode_kinded kind_v4 w
    | None \<Rightarrow> (case strip_prefix ''v3|'' (summary_encode s) of
        Some w \<Rightarrow> decode_kinded kind_v3 w
      | None \<Rightarrow> Inr (summary_encode s, None))) = Inr (summary_encode s, sm_attention (without_label s))"
    by (simp only: tag option.case without_label_simps)
qed

text \<open>A feed environment for concrete inputs: ASCII letters, one column for every byte.\<close>

definition ascii_env :: feed_env where
  "ascii_env =
     \<lparr> fe_lower = to_ascii_lowercase, fe_alphanumeric = (\<lambda>c. length c = 1 \<and> list_all is_ascii_alphanumeric c),
       fe_no_color = False, fe_width = length, fe_char_width = length \<rparr>"

lemma ascii_env_law: "alphanumeric_law (fe_alphanumeric ascii_env)"
proof -
  have "utf8_char_ok c" if "length c = 1" "list_all is_ascii_alphanumeric c" for c
    using that by (auto simp: length_Suc_conv utf8_char_ok_def dest!: is_ascii_alphanumeric_ascii simp: ascii_char_def)
  then show ?thesis by (auto simp: alphanumeric_law_def ascii_env_def)
qed

text \<open>A board with a request of another machine and a finished local conversation.\<close>

definition feed_items_example :: "board_item list" where
  "feed_items_example =
     [(board_local (bare_session Codex ''c1'' NeedsYou True))
        \<lparr>bi_node_id := Some ''n1'', bi_node_name := Some ''box#1''\<rparr>,
      board_local (bare_session Claude ''c2'' Ready True)]"

text \<open>
  Every summary of a board of at most a million rows survives the wire: the current frame
  decodes to exactly the summary, and the three older frames to the summary without what their
  receivers cannot show, never to another label or count.
\<close>

theorem board_summary_round_trip:
  assumes "length items \<le> 1000000"
  shows "let s = summarize env items flt in
    summary_decode env (encode_attention_v4 s) = Inr s
    \<and> summary_decode env (encode_attention s) = Inr (if sm_attention s = Some Kind_ready then without_label s else s)
    \<and> summary_decode env (encode_extended s) = Inr (if sm_attention s = None then s else without_label s)
    \<and> summary_decode env (summary_encode s) = Inr (without_label s)"
  using summary_decode_v4(1) summary_decode_v3 summary_decode_v2 summary_decode_v1
    summarize_wire_ok [OF assms, of env flt]
  by (simp add: Let_def)

theorem board_summary_round_trip_witness:
  "encode_attention_v4 (summarize ascii_env feed_items_example []) = ''v4|1,0,1,0,1|request|codex-c1 @box1''
   \<and> summary_decode ascii_env ''v4|1,0,1,0,1|request|codex-c1 @box1'' = Inr (summarize ascii_env feed_items_example [])"
proof -
  have "encode_attention_v4 (summarize ascii_env feed_items_example []) = ''v4|1,0,1,0,1|request|codex-c1 @box1''"
    by code_simp
  moreover have "length feed_items_example \<le> 1000000" by (simp add: feed_items_example_def)
  from board_summary_round_trip [OF this, of ascii_env "[]"]
  have "summary_decode ascii_env (encode_attention_v4 (summarize ascii_env feed_items_example []))
      = Inr (summarize ascii_env feed_items_example [])" by (simp only: Let_def)
  ultimately show ?thesis by simp
qed
text \<open>
  A return status with an identity the program admits fits a frame and decodes to itself; and
  whatever text arrives, a frame that is accepted is at most 512 bytes long and its identity is
  admissible, so that it can be sent on and names an option of tmux.
\<close>

theorem return_status_round_trip:
  assumes "valid_return_session_id (rs_session_id r)"
  shows "return_decode (return_encode r) = Inr r \<and> length (return_encode r) \<le> 512
    \<and> (return_decode v = Inr q \<longrightarrow>
         length v \<le> 512 \<and> valid_return_session_id (rs_session_id q) \<and> return_decode (return_encode q) = Inr q)"
proof -
  have "length v \<le> 512 \<and> valid_return_session_id (rs_session_id q)" if "return_decode v = Inr q"
    using that by (auto simp: return_decode_def result_simps max_frame_bytes_def Let_def)
  then show ?thesis
    using return_decode_encode return_encode_length [OF assms] assms by simp
qed

theorem return_status_round_trip_witness:
  "return_decode ''s1|opencode|a.b-1|working|1''
     = Inr \<lparr> rs_provider = Opencode, rs_session_id = ''a.b-1'', rs_status = Some Working, rs_colors = True \<rparr>"
proof -
  let ?r = "\<lparr> rs_provider = Opencode, rs_session_id = ''a.b-1'', rs_status = Some Working, rs_colors = True \<rparr>"
  have "valid_return_session_id (rs_session_id ?r)" by code_simp
  from return_status_round_trip [OF this]
  have "return_decode (return_encode ?r) = Inr ?r" by blast
  moreover have "return_encode ?r = ''s1|opencode|a.b-1|working|1''" by code_simp
  ultimately show ?thesis by simp
qed

section \<open>Inert labels\<close>

lemma case_five:
  "(case xs of [a, b, c, d, e] \<Rightarrow> f a b c d e | _ \<Rightarrow> Inl z) = Inr s
   \<longleftrightarrow> (\<exists>a b c d e. xs = [a, b, c, d, e] \<and> f a b c d e = Inr s)"
  by (cases xs; cases "tl xs"; cases "tl (tl xs)"; cases "tl (tl (tl xs))"; cases "tl (tl (tl (tl xs)))";
      cases "tl (tl (tl (tl (tl xs))))") auto

lemma fit_cells_prefix: "\<exists>b. cs = fit_cells env width cells cs @ b"
  by (induction env width cells cs rule: fit_cells.induct) auto

text \<open>
  A label is inert in every text handed to tmux: whatever name a provider or another machine
  gives, what is shown at any width consists of letters, digits, the punctuation " _-./@()", other
  non-ASCII letters and the ellipsis, so that it never opens a format, a style or a command; it is
  bounded, and a summary whose label is not already in this form is refused on receipt.
\<close>

theorem label_is_inert:
  assumes "alphanumeric_law (fe_alphanumeric env)"
  shows "(\<forall>b\<in>set (shorten_label env (safe_label env name) width). inert_byte b \<and> b \<notin> set ''#{}[]%,;$`|'')
    \<and> length (safe_label env name) \<le> 160
    \<and> (summary_decode env v = Inr s \<longrightarrow> (\<forall>l. sm_latest s = Some l \<longrightarrow> l \<noteq> [] \<and> l = safe_label env l))"
proof -
  have special: "inert_byte b \<Longrightarrow> b \<notin> set ''#{}[]%,;$`|''" for b
    by (auto simp: inert_byte_def ascii_char_def is_ascii_alphanumeric_def is_ascii_digit_def)
  have "set (shorten_label env l width) \<subseteq> set l \<union> set ellipsis" for l
  proof -
    obtain d where "utf8_chars l = fit_cells env width 0 (utf8_chars l) @ d" using fit_cells_prefix by metis
    then have "l = concat (fit_cells env width 0 (utf8_chars l)) @ concat d"
      using concat_utf8_chars [of l] by (metis concat_append)
    then have "set (concat (fit_cells env width 0 (utf8_chars l))) \<subseteq> set l" by (metis Un_upper1 set_append)
    then show ?thesis by (auto simp: shorten_label_def)
  qed
  moreover have "\<forall>b\<in>set ellipsis. inert_byte b" by (simp add: ellipsis_def inert_byte_def ascii_char_def)
  moreover have "\<forall>l. sm_latest s = Some l \<longrightarrow> l \<noteq> [] \<and> l = safe_label env l" if "summary_decode env v = Inr s"
  proof -
    from that obtain u w latest where "decode_label env u = Inr (w, latest)" "sm_latest s = latest"
      by (auto simp: summary_decode_def rbind_Inr_iff case_five)
    then show ?thesis by (auto simp: decode_label_def result_simps split: option.splits if_splits)
  qed
  ultimately show ?thesis
    using safe_label_bytes(1) [OF assms] safe_label_length special by blast
qed

theorem label_is_inert_witness:
  "list_all (\<lambda>b. b \<notin> set ''#{}[]%,;$`|'') (shorten_label ascii_env (safe_label ascii_env ''#(rm -rf) #[fg=red]{x}'') 12)"
  unfolding list_all_iff using label_is_inert [OF ascii_env_law] by blast

section \<open>The published state\<close>

definition interest_ok :: "return_interest \<Rightarrow> bool" where
  "interest_ok i \<longleftrightarrow>
     valid_return_session_id (ri_session_id i) \<and> (case ri_node_id i of None \<Rightarrow> True | Some n \<Rightarrow> valid_return_session_id n)"

definition interests_ok :: "return_interest list \<Rightarrow> bool" where
  "interests_ok xs \<longleftrightarrow> distinct xs \<and> length xs \<le> 64 \<and> list_all interest_ok xs"

definition feed_inv :: "feed_env \<Rightarrow> feed \<Rightarrow> bool" where
  "feed_inv env fd \<longleftrightarrow>
     interests_ok (fd_interests fd)
     \<and> (fd_summary fd = None \<or> fd_summary fd = Some (summarize env (fd_items fd) (fd_filter fd)))
     \<and> fd_revision fd \<le> u64_max"

definition same_view :: "feed \<Rightarrow> feed \<Rightarrow> bool" where
  "same_view a b \<longleftrightarrow> a\<lparr>fd_stopped := True\<rparr> = b\<lparr>fd_stopped := True\<rparr>"

definition feed_ahead :: "feed \<Rightarrow> feed \<Rightarrow> bool" where
  "feed_ahead a b \<longleftrightarrow>
     fd_revision a \<le> fd_revision b
     \<and> (fd_summary a \<noteq> None \<longrightarrow> fd_summary b \<noteq> None)
     \<and> (fd_revision b < u64_max \<and> fd_revision a = fd_revision b \<longrightarrow> same_view a b)"

lemma same_view_snapshot: "same_view a b \<Longrightarrow> feed_snapshot_of a = feed_snapshot_of b"
proof -
  have "feed_snapshot_of (fd\<lparr>fd_stopped := x\<rparr>) = feed_snapshot_of fd" for fd x
    by (simp add: feed_snapshot_of_def split: option.splits)
  then show "same_view a b \<Longrightarrow> feed_snapshot_of a = feed_snapshot_of b" unfolding same_view_def by metis
qed

lemma length_insert_by: "length (insert_by cmp x xs) = Suc (length xs)"
  by (induction xs) auto

lemma distinct_insert_by: "distinct (insert_by cmp x xs) \<longleftrightarrow> x \<notin> set xs \<and> distinct xs"
  by (induction xs) auto

lemma interest_insert_ok:
  "interests_ok xs \<Longrightarrow> interest_ok x \<Longrightarrow> length xs < 64 \<or> x \<in> set xs \<Longrightarrow> interests_ok (interest_insert x xs)"
  by (auto simp: interests_ok_def interest_insert_def length_insert_by distinct_insert_by list_all_iff)

lemma add_known_homes_ok: "interests_ok xs \<Longrightarrow> interests_ok (add_known_homes xs items)"
proof (induction xs items rule: add_known_homes.induct)
  case (2 interests item items)
  let ?new = "\<lparr> ri_node_id = None, ri_provider = s_provider (bi_session item),
    ri_session_id = s_session_id (bi_session item) \<rparr>"
  show ?case
  proof (cases "length interests \<ge> max_return_interests")
    case False
    then have "valid_return_session_id (s_session_id (bi_session item)) \<Longrightarrow> interests_ok (interest_insert ?new interests)"
      by (intro interest_insert_ok [OF 2(2)]) (auto simp: interest_ok_def max_return_interests_def)
    then show ?thesis using 2 False by simp
  qed (use 2 in simp)
qed simp

lemma register_ok:
  "interests_ok (fd_interests fd) \<Longrightarrow> interests_ok (fd_interests (snd (register_return_interest n p i fd)))"
  by (auto simp: register_return_interest_def Let_def max_return_interests_def interest_ok_def
      intro!: interest_insert_ok split: option.splits)

lemma next_revision_bounds:
  "fd_revision fd \<le> u64_max \<Longrightarrow>
     fd_revision fd \<le> next_revision fd \<and> next_revision fd \<le> u64_max
     \<and> (next_revision fd < u64_max \<longrightarrow> fd_revision fd < next_revision fd)"
  by (auto simp: next_revision_def u64_saturating_add_def)

lemma register_view:
  "snd (register_return_interest n p i fd) = fd
   \<or> (\<exists>xs. snd (register_return_interest n p i fd) = fd\<lparr>fd_interests := xs, fd_revision := next_revision fd\<rparr>)"
  by (auto simp: register_return_interest_def Let_def)

text \<open>Every operation leaves the feed as it is, stops it, or gives it a new revision.\<close>

lemma new_revision_ahead:
  assumes "fd_revision fd \<le> u64_max" and "fd_revision fd' = next_revision fd"
    and "fd_summary fd \<noteq> None \<Longrightarrow> fd_summary fd' \<noteq> None"
  shows "feed_ahead fd fd' \<and> fd_revision fd' \<le> u64_max"
  using next_revision_bounds [OF assms(1)] assms(2,3) unfolding feed_ahead_def by auto

lemma feed_step_cases:
  assumes inv: "feed_inv env fd" and step: "feed_step env op fd = Inr fd'"
  shows "fd' = fd \<or> fd' = fd\<lparr>fd_stopped := True\<rparr>
    \<or> (fd_revision fd' = next_revision fd \<and> (fd_summary fd \<noteq> None \<longrightarrow> fd_summary fd' \<noteq> None)
        \<and> interests_ok (fd_interests fd')
        \<and> (fd_summary fd' = None \<or> fd_summary fd' = Some (summarize env (fd_items fd') (fd_filter fd'))))"
proof (cases op)
  case (Register n p i)
  with step have fd': "fd' = snd (register_return_interest n p i fd)" by simp
  have "interests_ok (fd_interests fd')"
    using inv unfolding fd' by (intro register_ok) (simp add: feed_inv_def)
  with register_view [of n p i fd] inv show ?thesis
    by (auto simp: fd' [symmetric] feed_inv_def)
qed (use inv step in \<open>auto simp: feed_inv_def feed_publish_def feed_publish_observed_def publish_sample_def
    feed_health_def feed_filter_def split: if_splits\<close>)

lemma feed_step_keeps:
  assumes inv: "feed_inv env fd" and step: "feed_step env op fd = Inr fd'"
  shows "feed_inv env fd' \<and> feed_ahead fd fd'"
proof -
  have rev: "fd_revision fd \<le> u64_max" using inv by (simp add: feed_inv_def)
  from feed_step_cases [OF inv step] show ?thesis
  proof (elim disjE conjE)
    assume "fd' = fd\<lparr>fd_stopped := True\<rparr>"
    with inv show ?thesis by (simp add: feed_inv_def feed_ahead_def same_view_def)
  qed (use inv new_revision_ahead [OF rev, of fd'] in \<open>simp_all add: feed_inv_def feed_ahead_def same_view_def\<close>)
qed

lemma feed_ahead_refl: "feed_ahead a a"
  by (simp add: feed_ahead_def same_view_def)

lemma feed_ahead_trans: "feed_ahead a b \<Longrightarrow> feed_ahead b c \<Longrightarrow> feed_ahead a c"
  by (auto simp: feed_ahead_def same_view_def)

interpretation feed: monotone_machine "feed_step env" "feed_inv env" feed_ahead for env
  by unfold_locales (use feed_step_keeps feed_ahead_refl feed_ahead_trans in blast)+

lemma empty_feed_inv: "feed_inv env empty_feed"
  by (simp add: feed_inv_def empty_feed_def interests_ok_def)

text \<open>
  (C34) No subscriber misses a change: below the last revision, a consumer that took a snapshot
  and looks again after any activity is given the present snapshot, unless nothing it shows has
  changed; and what it is given carries the counts of exactly the rows it carries.
\<close>

theorem subscription_sees_every_change:
  assumes "subscription_take before (run (feed_step env) ops empty_feed) = (Some snap, seen)"
    and "fd_revision (run (feed_step env) (ops @ later) empty_feed) < u64_max"
  shows "let fd' = run (feed_step env) (ops @ later) empty_feed in
    (case subscription_take seen fd' of
      (Some now_shown, _) \<Rightarrow> feed_snapshot_of fd' = Some now_shown
        \<and> sn_summary now_shown = summarize env (sn_items now_shown) (sn_filter now_shown)
    | (None, _) \<Rightarrow> feed_snapshot_of fd' = Some snap)"
proof -
  let ?fd = "run (feed_step env) ops empty_feed" and ?fd' = "run (feed_step env) (ops @ later) empty_feed"
  have inv: "feed_inv env ?fd" "feed_inv env ?fd'" by (rule feed.run_inv [OF empty_feed_inv])+
  have ahead: "feed_ahead ?fd ?fd'" unfolding run_append by (rule feed.run_ahead [OF inv(1)])
  have snap: "feed_snapshot_of ?fd = Some snap" and seen: "seen = Some (fd_revision ?fd)"
    using assms(1) by (auto simp: subscription_take_def feed_snapshot_of_def split: if_splits option.splits)
  show ?thesis
  proof (cases "fd_revision ?fd = fd_revision ?fd'")
    case True
    with ahead assms(2) have "feed_snapshot_of ?fd = feed_snapshot_of ?fd'"
      by (simp add: feed_ahead_def same_view_snapshot)
    with True snap seen show ?thesis by (simp add: subscription_take_def)
  next
    case False
    have "fd_summary ?fd' \<noteq> None"
      using ahead snap by (auto simp: feed_ahead_def feed_snapshot_of_def split: option.splits)
    with False seen inv(2) show ?thesis
      by (auto simp: subscription_take_def feed_snapshot_of_def feed_inv_def)
  qed
qed
section \<open>From the sender to the receiver\<close>

lemma receive_bytes_append:
  "receive_bytes env pending (xs @ ys) =
     (case receive_bytes env pending xs of
        (ps, Inl e) \<Rightarrow> (ps, Inl e)
      | (ps, Inr rest) \<Rightarrow> (let (qs, r) = receive_bytes env rest ys in (ps @ qs, r)))"
  by (induction env pending xs rule: receive_bytes.induct)
    (auto simp: Let_def split: prod.splits sum.splits)

lemma receive_bytes_frame:
  "CHR 0x0A \<notin> set f \<Longrightarrow> length pending + length f \<le> 512 \<Longrightarrow>
   receive_bytes env pending f = ([], Inr (pending @ f))"
  by (induction f arbitrary: pending) (auto simp: max_frame_bytes_def)

definition frame_of :: "feed_env \<Rightarrow> string \<Rightarrow> publication \<Rightarrow> bool" where
  "frame_of env f p \<longleftrightarrow> CHR 0x0A \<notin> set f \<and> length f \<le> 512 \<and> decode_frame env f = Inr p"

lemma receive_bytes_frames:
  "list_all2 (frame_of env) fs ps \<Longrightarrow> receive_bytes env [] (concat (map (\<lambda>f. f @ [CHR 0x0A]) fs)) = (ps, Inr [])"
proof (induction fs ps rule: list_all2_induct)
  case (Cons f fs p ps)
  then show ?case
    by (simp add: frame_of_def receive_bytes_append receive_bytes_frame)
qed simp

text \<open>However the bytes are cut into reads, and with whatever pauses below the timeout.\<close>

lemma receive_turns:
  assumes "\<forall>(elapsed, ready)\<in>set turns. elapsed \<le> 15000000000 \<and> ready \<noteq> Some []"
    and "receive_bytes env pending (concat (map (\<lambda>(_, ready). or_default ready) turns)) = (ps, Inr rest)"
  shows "receive env pending (turns @ more_turns) =
    (let (qs, r) = receive env rest more_turns in (ps @ qs, r))"
  using assms
proof (induction turns arbitrary: pending ps)
  case (Cons t turns)
  obtain elapsed ready where t: "t = (elapsed, ready)" by force
  show ?case
  proof (cases ready)
    case None
    with Cons t show ?thesis by (simp add: or_default_def)
  next
    case (Some bytes)
    with Cons.prems t have "bytes \<noteq> []" "elapsed \<le> 15000000000" by auto
    moreover obtain ps1 r1 where first: "receive_bytes env pending bytes = (ps1, Inr r1)"
      using Cons.prems(2) by (auto simp: t Some or_default_def receive_bytes_append split: prod.splits sum.splits)
    moreover obtain ps2 where second: "receive_bytes env r1 (concat (map (\<lambda>(_, ready). or_default ready) turns)) = (ps2, Inr rest)"
      and ps: "ps = ps1 @ ps2"
      using Cons.prems(2) first by (auto simp: t Some or_default_def receive_bytes_append split: prod.splits)
    ultimately show ?thesis
      using Cons.IH [OF _ second] Cons.prems(1) by (auto simp: t Some ps Let_def split: prod.splits)
  qed
qed (simp add: Let_def)

lemma ascii_no_continuation: "s = [] \<or> ascii_char (hd s) \<Longrightarrow> s = [] \<or> \<not> utf8_continuation (hd s)"
  by (auto simp: ascii_char_def utf8_continuation_def)

lemma return_frame_of:
  assumes "valid_return_session_id (rs_session_id r)"
  shows "frame_of env (return_encode r) (Status_published r)"
proof -
  have "list_all ascii_char (return_encode r) \<and> CHR 0x0A \<notin> set (return_encode r)"
    using assms session_id_byte_plain provider_as_str_ascii [of "rs_provider r"] status_wire_ascii [of "rs_status r"]
    by (cases "rs_provider r"; cases "rs_status r" rule: status_wire.cases)
      (auto simp: return_encode_def valid_return_session_id_bytes bit_text_eq ascii_char_def list_all_iff)
  then show ?thesis
    using return_encode_length [OF assms] return_decode_encode [OF assms]
    by (simp add: frame_of_def decode_frame_def utf8_valid_ascii starts_with_def return_encode_def)
qed

text \<open>What a receiver of these capabilities is shown of a summary: the frames before the fourth cannot mark a
  finished conversation, those before the third no warning, and the first has no label.\<close>

definition shown_to :: "string list \<Rightarrow> summary \<Rightarrow> summary" where
  "shown_to capabilities s =
     (if ''board-feed-v4'' \<in> set capabilities then s
      else if ''board-feed-v3'' \<in> set capabilities then (if sm_attention s = Some Kind_ready then without_label s else s)
      else if ''board-feed-v2'' \<in> set capabilities then (if sm_attention s = None then s else without_label s)
      else without_label s)"

lemma labelled_frame_of:
  assumes law: "alphanumeric_law (fe_alphanumeric env)"
    and head: "list_all ascii_char h \<and> CHR 0x0A \<notin> set h" and label: "l = safe_label env l"
    and len: "length h + length l \<le> 512" and tag: "\<not> starts_with ''s1|'' (h @ l)"
    and decode: "summary_decode env (h @ l) = Inr t"
  shows "frame_of env (h @ l) (Summary_published t)"
proof -
  have "utf8_valid (h @ l)"
    using safe_label_bytes(2,3) [OF law, of l] head
    by (subst utf8_valid_append) (auto simp: label [symmetric] utf8_valid_ascii)
  moreover have "CHR 0x0A \<notin> set l"
    using safe_label_bytes(1) [OF law, of l] inert_byte_not_special by (auto simp: label [symmetric])
  ultimately show ?thesis using head len tag decode by (simp add: frame_of_def decode_frame_def)
qed

lemma summary_head:
  "list_all ascii_char (summary_encode s) \<and> CHR 0x0A \<notin> set (summary_encode s)"
  "list_all ascii_char (attention_word k) \<and> CHR 0x0A \<notin> set (attention_word k)"
  "\<not> starts_with ''s1|'' (summary_encode s @ r)"
proof -
  have "ascii_char c \<and> c \<noteq> CHR 0x0A" if "c \<in> set (summary_encode s)" for c
    using summary_encode_bytes [OF that] by (auto simp: is_ascii_digit_def ascii_char_def)
  then show "list_all ascii_char (summary_encode s) \<and> CHR 0x0A \<notin> set (summary_encode s)" by (auto simp: list_all_iff)
  show "list_all ascii_char (attention_word k) \<and> CHR 0x0A \<notin> set (attention_word k)"
    by (cases k; cases "the k"; simp add: attention_word_def ascii_char_def)
  obtain c rest where enc: "summary_encode s = c # rest" by (cases "summary_encode s") (simp_all add: summary_encode_def)
  have "c \<noteq> CHR ''s''" using summary_encode_bytes [of c s] by (auto simp: enc is_ascii_digit_def)
  then show "\<not> starts_with ''s1|'' (summary_encode s @ r)" by (simp add: enc starts_with_def)
qed

text \<open>The frame of every version reaches the other end as what that version can show.\<close>

lemma summary_frame_of:
  assumes law: "alphanumeric_law (fe_alphanumeric env)" and ok: "summary_wire_ok env s"
  shows "frame_of env (remote_frame capabilities s) (Summary_published (shown_to capabilities s))"
proof -
  have enc: "length (summary_encode s) \<le> 33" by (rule summary_encode_length [OF ok])
  have empty: "[] = safe_label env []" by (simp add: safe_label_def trim_def trim_pieces_def)
  note label = wire_label(1) [OF ok] and short = wire_label(3) [OF ok]
  note words = attention_word_kind(4) [of "sm_attention s"] attention_word_kind(4) [of None]
  have v4: "frame_of env (encode_attention_v4 s) (Summary_published s)"
    using labelled_frame_of [OF law _ label, of "''v4|'' @ summary_encode s @ ''|'' @ attention_word (sm_attention s) @ ''|''" s]
      summary_head enc short words summary_decode_v4(1) [OF ok]
    by (simp add: encode_attention_v4_def ascii_char_def starts_with_def)
  let ?t3 = "if sm_attention s = Some Kind_ready then without_label s else s"
  let ?l3 = "if sm_attention s = Some Kind_ready then [] else or_default (sm_latest s)"
  let ?w3 = "attention_word (if sm_attention s = Some Kind_ready then None else sm_attention s)"
  have frame3: "encode_attention s = (''v3|'' @ summary_encode s @ ''|'' @ ?w3 @ ''|'') @ ?l3"
    by (simp add: encode_attention_def attention_word_def)
  have v3: "frame_of env (encode_attention s) (Summary_published ?t3)"
    unfolding frame3
    by (rule labelled_frame_of [OF law _ _ _ _ summary_decode_v3 [OF ok, unfolded frame3]])
      (use summary_head enc short words label empty in \<open>auto simp: ascii_char_def starts_with_def\<close>)
  let ?t2 = "if sm_attention s = None then s else without_label s"
  let ?l2 = "if sm_attention s = None then or_default (sm_latest s) else []"
  have frame2: "encode_extended s = (''v2|'' @ summary_encode s @ ''|'') @ ?l2" by (simp add: encode_extended_def)
  have v2: "frame_of env (encode_extended s) (Summary_published ?t2)"
    unfolding frame2
    by (rule labelled_frame_of [OF law _ _ _ _ summary_decode_v2 [OF ok, unfolded frame2]])
      (use summary_head enc short label empty in \<open>auto simp: ascii_char_def starts_with_def\<close>)
  have v1: "frame_of env (summary_encode s) (Summary_published (without_label s))"
    using labelled_frame_of [OF law _ empty, of "summary_encode s"] summary_head(1) summary_head(3) [of s "[]"] enc
      summary_decode_v1 [OF ok] by simp
  show ?thesis using v4 v3 v2 v1 by (simp add: remote_frame_def shown_to_def)
qed

lemma return_statuses_valid:
  assumes "feed_inv env fd" and "r \<in> set (return_statuses fd node)"
  shows "valid_return_session_id (rs_session_id r)"
  using assms add_known_homes_ok [of "fd_interests fd" "fd_items fd"]
  by (auto simp: return_statuses_def feed_inv_def interests_ok_def list_all_iff interest_ok_def)

text \<open>
  (C15) What a board writes to another machine is what that machine publishes, whatever feed versions and
  status frames the machine can read: for any state of the feed reached by any activity, with any
  identities registered, the bytes of one turn of the remote sink, cut into reads in any way and with
  pauses of up to fifteen seconds, make the receiver publish exactly the summary, as far as its
  version can show it, then the return statuses when it reads them, in this order, and clear the feed
  when the stream ends; nothing is refused, lost or run together.
\<close>

theorem feed_stream_received:
  assumes "alphanumeric_law (fe_alphanumeric env)"
    and "length (fd_items (run (feed_step env) ops empty_feed)) \<le> 1000000"
    and "fd_summary (run (feed_step env) ops empty_feed) = Some s"
    and "\<forall>(elapsed, ready)\<in>set turns. elapsed \<le> 15000000000 \<and> ready \<noteq> Some []"
    and "concat (map (\<lambda>(_, ready). or_default ready) turns)
       = concat (map (\<lambda>l. l @ [CHR 0x0A]) (remote_lines capabilities node s (run (feed_step env) ops empty_feed)))"
  shows "receive env [] (turns @ [(0, Some [])]) =
    (Summary_published (shown_to capabilities s)
       # (if ''return-bar-status-v1'' \<in> set capabilities
          then map Status_published (return_statuses (run (feed_step env) ops empty_feed) (Some node)) else [])
       @ [Cleared], Closed)"
proof -
  let ?fd = "run (feed_step env) ops empty_feed"
  let ?statuses = "if ''return-bar-status-v1'' \<in> set capabilities then return_statuses ?fd (Some node) else []"
  have inv: "feed_inv env ?fd" by (rule feed.run_inv [OF empty_feed_inv])
  with assms(2,3) have "summary_wire_ok env s"
    by (auto simp: feed_inv_def summarize_wire_ok)
  then have "frame_of env (remote_frame capabilities s) (Summary_published (shown_to capabilities s))"
    by (rule summary_frame_of [OF assms(1)])
  moreover have "list_all2 (frame_of env) (map return_encode ?statuses) (map Status_published ?statuses)"
    using return_statuses_valid [OF inv]
    by (auto simp: list_all2_map1 list_all2_map2 list_all2_same return_frame_of)
  ultimately have "list_all2 (frame_of env) (remote_lines capabilities node s ?fd)
      (Summary_published (shown_to capabilities s) # map Status_published ?statuses)"
    by (simp add: remote_lines_def split: if_splits)
  from receive_turns [OF assms(4), of env "[]" _ "[]" "[(0, Some [])]"] receive_bytes_frames [OF this]
  show ?thesis by (simp add: assms(5))
qed

definition feed_ops_example :: "feed_op list" where
  "feed_ops_example = [Publish feed_items_example [], Register (Some ''n1'') Codex ''c1'', Register None Claude ''c2'']"

definition feed_example :: feed where
  "feed_example =
     \<lparr> fd_items = feed_items_example, fd_filter = [], fd_summary = Some (summarize ascii_env feed_items_example []),
       fd_health = [], fd_revision = 3, fd_observed_at = None,
       fd_interests = [\<lparr> ri_node_id = None, ri_provider = Claude, ri_session_id = ''c2'' \<rparr>,
                       \<lparr> ri_node_id = Some ''n1'', ri_provider = Codex, ri_session_id = ''c1'' \<rparr>],
       fd_stopped = False \<rparr>"

lemma feed_example_run: "run (feed_step ascii_env) feed_ops_example empty_feed = feed_example"
proof -
  have "valid_return_session_id ''c1'' \<and> valid_return_session_id ''c2'' \<and> valid_return_session_id ''n1''" by code_simp
  then show ?thesis
    by (simp add: feed_ops_example_def feed_example_def empty_feed_def feed_publish_def publish_sample_def
        register_return_interest_def max_return_interests_def interest_insert_def interest_cmp_def then_with_def
        compare_of_def next_revision_def u64_saturating_add_def u64_max_def)
qed

theorem feed_stream_received_witness:
  "receive ascii_env [] ([(0, Some ''v4|1,0,1,0,1|request''), (4, None),
      (7, Some (''|codex-c1 @box1'' @ [CHR 0x0A] @ ''s1|codex|c1|unknown|1'' @ [CHR 0x0A]))] @ [(0, Some [])])
   = ([Summary_published (summarize ascii_env feed_items_example []),
       Status_published \<lparr> rs_provider = Codex, rs_session_id = ''c1'', rs_status = None, rs_colors = True \<rparr>, Cleared],
      Closed)"
proof -
  let ?s = "summarize ascii_env feed_items_example []"
  let ?caps = "[''board-feed-v1'', ''board-feed-v2'', ''board-feed-v3'', ''board-feed-v4'', ''return-bar-status-v1'']"
  let ?turns = "[(0, Some ''v4|1,0,1,0,1|request''), (4, None),
      (7, Some (''|codex-c1 @box1'' @ [CHR 0x0A] @ ''s1|codex|c1|unknown|1'' @ [CHR 0x0A]))]"
  have items: "length (fd_items feed_example) \<le> 1000000" and summary: "fd_summary feed_example = Some ?s"
    by (simp_all add: feed_example_def feed_items_example_def)
  have statuses: "return_statuses feed_example (Some ''n1'')
      = [\<lparr> rs_provider = Codex, rs_session_id = ''c1'', rs_status = None, rs_colors = True \<rparr>]"
    by code_simp
  have bytes: "concat (map (\<lambda>(_, ready). or_default ready) ?turns)
      = concat (map (\<lambda>l. l @ [CHR 0x0A]) (remote_lines ?caps ''n1'' ?s feed_example))"
    by code_simp
  show ?thesis
    using feed_stream_received [OF ascii_env_law, of feed_ops_example ?s ?turns ?caps "''n1''"] items summary statuses bytes
    by (simp add: feed_example_run shown_to_def)
qed

theorem subscription_sees_every_change_witness:
  "case subscription_take (Some 3) (run (feed_step ascii_env) (feed_ops_example @ [Publish [] []]) empty_feed) of
      (Some now_shown, _) \<Rightarrow> feed_snapshot_of (run (feed_step ascii_env) (feed_ops_example @ [Publish [] []]) empty_feed)
          = Some now_shown
        \<and> sn_summary now_shown = summarize ascii_env (sn_items now_shown) (sn_filter now_shown)
    | (None, _) \<Rightarrow> feed_snapshot_of (run (feed_step ascii_env) (feed_ops_example @ [Publish [] []]) empty_feed)
          = feed_snapshot_of feed_example"
proof -
  obtain snap where snap: "feed_snapshot_of feed_example = Some snap" by (simp add: feed_snapshot_of_def feed_example_def)
  then have first: "subscription_take None (run (feed_step ascii_env) feed_ops_example empty_feed) = (Some snap, Some 3)"
    by (auto simp: feed_example_run subscription_take_def feed_snapshot_of_def feed_example_def)
  have "fd_revision (run (feed_step ascii_env) (feed_ops_example @ [Publish [] []]) empty_feed) < u64_max"
    by (simp add: run_append feed_example_run feed_example_def feed_publish_def publish_sample_def next_revision_def
        u64_saturating_add_def u64_max_def)
  from subscription_sees_every_change [OF first this] show ?thesis
    unfolding Let_def snap .
qed

end
