(* ===== verification/Store.thy ===== *)
theory Store
  imports Model Text "HOL-Library.List_Lexorder" "HOL-Library.Char_ord"
begin

text \<open>
  The session store (src/store.rs), first part: the tables that carry conversations, their status
  evidence, events and interruptions, the tracking choices, and the operations on them. A
  transaction is a function of the store; \<open>now\<close> is an argument of the operations that read the
  clock. A \<open>REAL NOT NULL\<close> column refuses a NaN, which SQLite stores as NULL. The tables of usage,
  experts and other machines are not part of the model, the JSON and SQL texts the tables hold are
  made by the functions of \<open>store_env\<close>.
\<close>

record store_env =
  se_lower :: "string \<Rightarrow> string"
  se_json_pair :: "string \<Rightarrow> string \<Rightarrow> string"
  se_json_array :: "string \<Rightarrow> string \<Rightarrow> string"
  se_parse_pair :: "string \<Rightarrow> (string \<times> string) option"

datatype store_error = Constraint | Adoption_refused string | Bad_limit

section \<open>Numbers\<close>

definition f64_le :: "f64 \<Rightarrow> f64 \<Rightarrow> bool" where
  "f64_le a b \<longleftrightarrow> f64_lt a b \<or> f64_eq a b"

text \<open>The scalar \<open>MAX\<close> of SQLite, whose first argument wins a tie.\<close>

definition f64_max :: "f64 \<Rightarrow> f64 \<Rightarrow> f64" where
  "f64_max a b = (if f64_lt a b then b else a)"

definition nonzero_or :: "f64 \<Rightarrow> f64 \<Rightarrow> f64" where
  "nonzero_or v fallback = (if f64_is_zero v then fallback else v)"

definition not_null_real :: "f64 \<Rightarrow> store_error + unit" where
  "not_null_real t = ensure (\<not> f64_is_nan t) Constraint"

definition or_else :: "'a option \<Rightarrow> 'a option \<Rightarrow> 'a option" where
  "or_else a b = (case a of None \<Rightarrow> b | Some v \<Rightarrow> Some v)"

section \<open>Tables\<close>

record launch_binding =
  lb_token :: string
  lb_provider :: provider
  lb_session_id :: string
  lb_created_at :: f64

record pending_launch =
  pl_token :: string
  pl_provider :: provider
  pl_name :: string
  pl_cwd :: string
  pl_tmux_session :: "string option"
  pl_tmux_pane :: "string option"
  pl_expected_session_id :: "string option"
  pl_root_pid :: "i64 option"
  pl_root_pid_start :: "i64 option"
  pl_preexisting :: "string list option"
  pl_candidate_session_id :: "string option"
  pl_candidate_observed_at :: "f64 option"
  pl_created_at :: f64

record launch_reservation =
  lr_provider :: provider
  lr_session_id :: string
  lr_token :: string
  lr_owner_pid :: "i64 option"
  lr_owner_start_time :: "i64 option"
  lr_created_at :: f64

record live_owner =
  lo_provider :: provider
  lo_session_id :: string
  lo_pid :: i64
  lo_start_time :: "i64 option"
  lo_owner_token :: string
  lo_last_seen :: f64

record recovery_owner =
  ro_provider :: provider
  ro_session_id :: string
  ro_pid :: i64
  ro_start_time :: i64
  ro_launch_token :: string
  ro_created_at :: f64

record untracked_row =
  ut_provider :: provider
  ut_session_id :: string
  ut_untracked_at :: f64

record session_event =
  ev_id :: i64
  ev_provider :: provider
  ev_session_id :: string
  ev_at :: f64
  ev_status :: status
  ev_attention_reason :: "string option"
  ev_error :: "string option"

record observation_row =
  ob_provider :: provider
  ob_session_id :: string
  ob_observation :: status_observation

record identity_interruption =
  ii_provider :: provider
  ii_session_id :: string
  ii_status :: status
  ii_unread :: bool
  ii_attention_reason :: "string option"
  ii_error :: "string option"
  ii_last_event_at :: f64

record hook_observation =
  ho_provider :: provider
  ho_fingerprint :: string
  ho_event_name :: string
  ho_session_id :: string
  ho_observed_at :: f64
  ho_source :: "string option"
  ho_managed :: bool

record store_db =
  st_sessions :: "session list"
  st_pending :: "pending_launch list"
  st_reservations :: "launch_reservation list"
  st_bindings :: "launch_binding list"
  st_live_owners :: "live_owner list"
  st_recovery_owners :: "recovery_owner list"
  st_untracked :: "untracked_row list"
  st_events :: "session_event list"
  st_last_event_id :: i64
  st_observations :: "observation_row list"
  st_interruptions :: "identity_interruption list"
  st_hooks :: "hook_observation list"
  st_meta :: "string \<Rightarrow> string option"

definition empty_store :: store_db where
  "empty_store =
     \<lparr> st_sessions = [], st_pending = [], st_reservations = [], st_bindings = [], st_live_owners = [],
       st_recovery_owners = [], st_untracked = [], st_events = [], st_last_event_id = 0, st_observations = [],
       st_interruptions = [], st_hooks = [], st_meta = (\<lambda>_. None) \<rparr>"

text \<open>The columns of the primary keys.\<close>

definition s_identity :: "session \<Rightarrow> provider \<times> string" where
  "s_identity s = (s_provider s, s_session_id s)"

definition lr_identity :: "launch_reservation \<Rightarrow> provider \<times> string" where
  "lr_identity r = (lr_provider r, lr_session_id r)"

definition lb_identity :: "launch_binding \<Rightarrow> provider \<times> string" where
  "lb_identity r = (lb_provider r, lb_session_id r)"

definition lo_identity :: "live_owner \<Rightarrow> provider \<times> string" where
  "lo_identity r = (lo_provider r, lo_session_id r)"

definition lo_key :: "live_owner \<Rightarrow> provider \<times> string \<times> i64 \<times> string" where
  "lo_key r = (lo_provider r, lo_session_id r, lo_pid r, lo_owner_token r)"

definition ro_identity :: "recovery_owner \<Rightarrow> provider \<times> string" where
  "ro_identity r = (ro_provider r, ro_session_id r)"

definition ut_identity :: "untracked_row \<Rightarrow> provider \<times> string" where
  "ut_identity r = (ut_provider r, ut_session_id r)"

definition ev_identity :: "session_event \<Rightarrow> provider \<times> string" where
  "ev_identity r = (ev_provider r, ev_session_id r)"

definition ob_identity :: "observation_row \<Rightarrow> provider \<times> string" where
  "ob_identity r = (ob_provider r, ob_session_id r)"

definition ob_key :: "observation_row \<Rightarrow> provider \<times> string \<times> observation_kind" where
  "ob_key r = (ob_provider r, ob_session_id r, o_kind (ob_observation r))"

definition ii_identity :: "identity_interruption \<Rightarrow> provider \<times> string" where
  "ii_identity r = (ii_provider r, ii_session_id r)"

text \<open>\<open>INSERT .. ON CONFLICT(key) DO UPDATE\<close> and \<open>INSERT OR IGNORE\<close>.\<close>

definition upsert_row :: "('r \<Rightarrow> 'k) \<Rightarrow> 'r \<Rightarrow> ('r \<Rightarrow> 'r) \<Rightarrow> 'r list \<Rightarrow> 'r list" where
  "upsert_row key new merge rows =
     (if key new \<in> key ` set rows then update_where (\<lambda>r. key r = key new) merge rows else rows @ [new])"

definition insert_or_ignore :: "('r \<Rightarrow> 'k) \<Rightarrow> 'r \<Rightarrow> 'r list \<Rightarrow> 'r list" where
  "insert_or_ignore key new rows = (if key new \<in> key ` set rows then rows else rows @ [new])"

section \<open>Keys of the table meta\<close>

definition provider_hidden_key :: "provider \<Rightarrow> string \<Rightarrow> string" where
  "provider_hidden_key p i = ''provider-hidden:'' @ provider_as_str p @ '':'' @ i"

definition tracking_choice_key :: "provider \<Rightarrow> string \<Rightarrow> string" where
  "tracking_choice_key p i = ''tracking-choice:'' @ provider_as_str p @ '':'' @ i"

definition set_meta :: "string \<Rightarrow> string \<Rightarrow> store_db \<Rightarrow> store_db" where
  "set_meta key value db = db\<lparr>st_meta := (st_meta db)(key := Some value)\<rparr>"

definition delete_meta :: "string \<Rightarrow> store_db \<Rightarrow> store_db" where
  "delete_meta key db = db\<lparr>st_meta := (st_meta db)(key := None)\<rparr>"

definition get_meta :: "store_db \<Rightarrow> string \<Rightarrow> string option" where
  "get_meta db key = st_meta db key"

section \<open>Reading conversations\<close>

definition get_session :: "store_db \<Rightarrow> provider \<Rightarrow> string \<Rightarrow> session option" where
  "get_session db p i = row_by s_identity (p, i) (st_sessions db)"

text \<open>An exact identity wins; among several rows with the same active thread SQLite may return any, here the first.\<close>

definition get_session_by_thread :: "store_db \<Rightarrow> provider \<Rightarrow> string \<Rightarrow> session option" where
  "get_session_by_thread db p thread =
     (case get_session db p thread of
        Some s \<Rightarrow> Some s
      | None \<Rightarrow> find (\<lambda>s. s_provider s = p \<and> s_active_thread_id s = Some thread) (st_sessions db))"

definition is_untracked :: "store_db \<Rightarrow> provider \<Rightarrow> string \<Rightarrow> bool" where
  "is_untracked db p i \<longleftrightarrow> (p, i) \<in> ut_identity ` set (st_untracked db)"

definition watch_evidence :: "store_env \<Rightarrow> store_db \<Rightarrow> session \<Rightarrow> bool" where
  "watch_evidence env db s \<longleftrightarrow>
     s_managed s
     \<or> st_meta db (tracking_choice_key (s_provider s) (s_session_id s)) \<noteq> None
     \<or> s_identity s \<in> lb_identity ` set (st_bindings db)
     \<or> (let attached = Some (se_json_array env (provider_as_str (s_provider s)) (s_session_id s)) in
        st_meta db ''last_attached'' = attached \<or> st_meta db ''previous_attached'' = attached)"

definition is_watched :: "store_env \<Rightarrow> store_db \<Rightarrow> provider \<Rightarrow> string \<Rightarrow> bool" where
  "is_watched env db p i \<longleftrightarrow>
     list_ex (\<lambda>s. s_identity s = (p, i) \<and> watch_evidence env db s) (st_sessions db) \<and> \<not> is_untracked db p i"

definition board_order :: "store_env \<Rightarrow> session \<Rightarrow> session \<Rightarrow> ordering" where
  "board_order env a b =
     then_with (then_with
       (compare_of (attention_order (s_status a)) (attention_order (s_status b)))
       (f64_total_cmp (s_last_event_at b) (s_last_event_at a)))
       (compare_of (se_lower env (display_name a)) (se_lower env (display_name b)))"

definition list_sessions_query :: "store_env \<Rightarrow> bool \<Rightarrow> bool \<Rightarrow> store_db \<Rightarrow> session list" where
  "list_sessions_query env untracked unconfirmed db =
     sort_by (board_order env)
       (filter (\<lambda>s. if untracked then is_untracked db (s_provider s) (s_session_id s)
                    else \<not> is_untracked db (s_provider s) (s_session_id s)
                         \<and> (watch_evidence env db s \<noteq> unconfirmed))
          (st_sessions db))"

definition list_sessions :: "store_env \<Rightarrow> store_db \<Rightarrow> session list" where
  "list_sessions env db = list_sessions_query env False False db"

definition list_untracked_sessions :: "store_env \<Rightarrow> store_db \<Rightarrow> session list" where
  "list_untracked_sessions env db = list_sessions_query env True False db"

definition list_unconfirmed_sessions :: "store_env \<Rightarrow> store_db \<Rightarrow> session list" where
  "list_unconfirmed_sessions env db = list_sessions_query env False True db"

definition list_provider_hidden_sessions :: "store_db \<Rightarrow> session list" where
  "list_provider_hidden_sessions db =
     filter (\<lambda>s. st_meta db (provider_hidden_key (s_provider s) (s_session_id s)) \<noteq> None) (st_sessions db)"

definition eq_ignore_ascii_case :: "string \<Rightarrow> string \<Rightarrow> bool" where
  "eq_ignore_ascii_case a b \<longleftrightarrow> to_ascii_lowercase a = to_ascii_lowercase b"

definition find_named :: "store_env \<Rightarrow> store_db \<Rightarrow> string \<Rightarrow> session list" where
  "find_named env db name =
     filter (\<lambda>s. (case s_name s of None \<Rightarrow> False | Some n \<Rightarrow> eq_ignore_ascii_case n name)
                 \<or> eq_ignore_ascii_case (s_session_id s) name
                 \<or> (case s_active_thread_id s of None \<Rightarrow> False | Some t \<Rightarrow> eq_ignore_ascii_case t name))
       (list_sessions env db)"

definition status_observations :: "store_db \<Rightarrow> provider \<Rightarrow> string \<Rightarrow> status_observation list" where
  "status_observations db p i =
     (let rows = map ob_observation (filter (\<lambda>r. ob_identity r = (p, i)) (st_observations db)) in
      concat (map (\<lambda>k. filter (\<lambda>ob. o_kind ob = k) rows) [Lifecycle, Runtime, Safety]))"

section \<open>Writing conversations\<close>

text \<open>The columns of a stored row; the figures a scan adds are not stored and read back as these defaults.\<close>

definition stored_session :: "session \<Rightarrow> session" where
  "stored_session s =
     s\<lparr> s_live := False, s_attached := False, s_home_state := ''unknown'', s_cpu_percent := None,
        s_rss_kb := None, s_input_tokens := None, s_output_tokens := None, s_cached_input_tokens := None,
        s_cache_write_tokens := None, s_total_tokens := None, s_estimated_cost_usd := None \<rparr>"

definition merge_session :: "session \<Rightarrow> session \<Rightarrow> session" where
  "merge_session new old =
     old\<lparr> s_active_thread_id := or_else (s_active_thread_id new) (s_active_thread_id old),
          s_name := or_else (s_name new) (s_name old),
          s_cwd := or_else (s_cwd new) (s_cwd old),
          s_branch := or_else (s_branch new) (s_branch old),
          s_transcript_path := or_else (s_transcript_path new) (s_transcript_path old),
          s_tmux_session := or_else (s_tmux_session new) (s_tmux_session old),
          s_tmux_pane := or_else (s_tmux_pane new) (s_tmux_pane old),
          s_root_pid := or_else (s_root_pid new) (s_root_pid old),
          s_status := s_status new, s_unread := s_unread new,
          s_model := or_else (s_model new) (s_model old),
          s_source := s_source new, s_managed := (s_managed old \<or> s_managed new),
          s_error := s_error new, s_attention_reason := s_attention_reason new,
          s_updated_at := s_updated_at new,
          s_last_event_at := f64_max (s_last_event_at old) (s_last_event_at new),
          s_last_activity_at := f64_max (s_last_activity_at old) (s_last_activity_at new) \<rparr>"

definition identity_collision :: "session \<Rightarrow> bool" where
  "identity_collision s \<longleftrightarrow>
     (s_status s = Error \<or> s_status s = OpenTwice) \<and> s_attention_reason s = Some ''identity''"

definition initial_observation_kind :: "session \<Rightarrow> observation_kind" where
  "initial_observation_kind s =
     (if identity_collision s then Safety
      else if s_status s = Error \<and> s_attention_reason s = Some ''exited'' then Runtime
      else Lifecycle)"

definition became_actionable :: "session option \<Rightarrow> session \<Rightarrow> bool" where
  "became_actionable existing s \<longleftrightarrow>
     s_unread s \<and> s_status s \<in> {NeedsYou, Ready, Error, OpenTwice}
     \<and> (case existing of
          None \<Rightarrow> True
        | Some row \<Rightarrow> \<not> (s_unread row \<and> s_status row = s_status s
                       \<and> s_attention_reason row = s_attention_reason s \<and> s_error row = s_error s))"

text \<open>
  \<open>INSERT OR IGNORE\<close> under \<open>UNIQUE (provider, session_id, event_at, status)\<close>. SQLite may skip an
  event id when the insert is ignored; the model does not.
\<close>

definition same_event :: "session_event \<Rightarrow> session_event \<Rightarrow> bool" where
  "same_event a b \<longleftrightarrow> ev_identity a = ev_identity b \<and> f64_eq (ev_at a) (ev_at b) \<and> ev_status a = ev_status b"

definition insert_session_event :: "session \<Rightarrow> f64 \<Rightarrow> store_db \<Rightarrow> store_db" where
  "insert_session_event s event_at db =
     (let e = \<lparr> ev_id = st_last_event_id db + 1, ev_provider = s_provider s, ev_session_id = s_session_id s,
                ev_at = event_at, ev_status = s_status s, ev_attention_reason = s_attention_reason s,
                ev_error = s_error s \<rparr> in
      if list_ex (same_event e) (st_events db) then db
      else db\<lparr>st_events := st_events db @ [e], st_last_event_id := st_last_event_id db + 1\<rparr>)"

definition refresh_interruption :: "session \<Rightarrow> f64 \<Rightarrow> store_db \<Rightarrow> store_db" where
  "refresh_interruption s event_at db =
     (if identity_collision s then db
      else db\<lparr>st_interruptions :=
             update_where (\<lambda>r. ii_identity r = s_identity s)
               (\<lambda>r. r\<lparr> ii_status := s_status s, ii_unread := s_unread s,
                       ii_attention_reason := s_attention_reason s, ii_error := s_error s,
                       ii_last_event_at := event_at \<rparr>)
               (st_interruptions db)\<rparr>)"

definition initial_observation :: "session \<Rightarrow> f64 \<Rightarrow> observation_row" where
  "initial_observation s event_at =
     \<lparr> ob_provider = s_provider s, ob_session_id = s_session_id s,
       ob_observation =
         \<lparr> o_kind = initial_observation_kind s, o_status = s_status s, o_unread = s_unread s,
           o_attention_reason = s_attention_reason s, o_error = s_error s, o_observed_at = event_at,
           o_source = ''initial'' \<rparr> \<rparr>"

definition kept_name :: "session option \<Rightarrow> session \<Rightarrow> bool \<Rightarrow> string option" where
  "kept_name existing s preserve_name =
     (if preserve_name
      then (case Option.bind existing s_name of
              Some n \<Rightarrow> if n \<noteq> [] then Some n else s_name s
            | None \<Rightarrow> s_name s)
      else s_name s)"

definition upsert_session :: "f64 \<Rightarrow> session \<Rightarrow> bool \<Rightarrow> store_db \<Rightarrow> store_error + bool \<times> store_db" where
  "upsert_session now s preserve_name db =
     (if is_untracked db (s_provider s) (s_session_id s) then Inr (False, db)
      else
        let existing = get_session db (s_provider s) (s_session_id s);
            created = nonzero_or (s_created_at s) now;
            activity = nonzero_or (s_last_activity_at s) (nonzero_or (s_updated_at s) now);
            event = nonzero_or (s_last_event_at s) now;
            new = (stored_session s)\<lparr> s_name := kept_name existing s preserve_name, s_created_at := created,
                    s_updated_at := now, s_last_event_at := event, s_last_activity_at := activity \<rparr>;
            db1 = refresh_interruption s event db;
            db2 = db1\<lparr>st_sessions := upsert_row s_identity new (merge_session new) (st_sessions db1)\<rparr>;
            db3 = db2\<lparr>st_observations :=
                         insert_or_ignore ob_key (initial_observation s event) (st_observations db2)\<rparr>
        in rbind (ensure (\<not> f64_is_nan created \<and> \<not> f64_is_nan event \<and> \<not> f64_is_nan activity) Constraint)
             (\<lambda>_. Inr (True, if became_actionable existing s then insert_session_event s event db3 else db3)))"

definition update_session :: "provider \<Rightarrow> string \<Rightarrow> (session \<Rightarrow> session) \<Rightarrow> store_db \<Rightarrow> store_db" where
  "update_session p i f db = db\<lparr>st_sessions := update_where (\<lambda>s. s_identity s = (p, i)) f (st_sessions db)\<rparr>"

definition clear_session_runtime :: "provider \<Rightarrow> string \<Rightarrow> f64 \<Rightarrow> store_db \<Rightarrow> store_error + bool \<times> store_db" where
  "clear_session_runtime p i observed_at db =
     (if get_session db p i = None then Inr (False, db)
      else rbind (not_null_real observed_at)
        (\<lambda>_. Inr (True, update_session p i (\<lambda>s. s\<lparr>s_root_pid := None, s_updated_at := observed_at\<rparr>) db)))"

definition clear_shared_root_pid :: "provider \<Rightarrow> string \<Rightarrow> i64 \<Rightarrow> store_db \<Rightarrow> bool \<times> store_db" where
  "clear_shared_root_pid p i shared_pid db =
     (case get_session db p i of
        None \<Rightarrow> (False, db)
      | Some s \<Rightarrow>
          if s_root_pid s = Some shared_pid
          then (True, update_session p i (\<lambda>s. s\<lparr>s_root_pid := None\<rparr>) db) else (False, db))"

definition clear_session_home :: "provider \<Rightarrow> string \<Rightarrow> f64 \<Rightarrow> store_db \<Rightarrow> store_error + bool \<times> store_db" where
  "clear_session_home p i observed_at db =
     (if get_session db p i = None then Inr (False, db)
      else rbind (not_null_real observed_at)
        (\<lambda>_. Inr (True, update_session p i
                (\<lambda>s. s\<lparr>s_tmux_session := None, s_tmux_pane := None, s_root_pid := None,
                       s_updated_at := observed_at\<rparr>) db)))"

section \<open>Tracking choices\<close>

definition delete_evidence :: "provider \<Rightarrow> string \<Rightarrow> store_db \<Rightarrow> store_db" where
  "delete_evidence p i db =
     db\<lparr> st_events := delete_where (\<lambda>r. ev_identity r = (p, i)) (st_events db),
         st_observations := delete_where (\<lambda>r. ob_identity r = (p, i)) (st_observations db),
         st_interruptions := delete_where (\<lambda>r. ii_identity r = (p, i)) (st_interruptions db),
         st_recovery_owners := delete_where (\<lambda>r. ro_identity r = (p, i)) (st_recovery_owners db),
         st_reservations := delete_where (\<lambda>r. lr_identity r = (p, i)) (st_reservations db),
         st_bindings := delete_where (\<lambda>r. lb_identity r = (p, i)) (st_bindings db) \<rparr>"

definition delete_live_owner_rows :: "provider \<Rightarrow> string \<Rightarrow> store_db \<Rightarrow> store_db" where
  "delete_live_owner_rows p i db =
     db\<lparr>st_live_owners := delete_where (\<lambda>r. lo_identity r = (p, i)) (st_live_owners db)\<rparr>"

definition put_untracked :: "f64 \<Rightarrow> provider \<Rightarrow> string \<Rightarrow> store_db \<Rightarrow> store_db" where
  "put_untracked now p i db =
     db\<lparr>st_untracked :=
          upsert_row ut_identity \<lparr> ut_provider = p, ut_session_id = i, ut_untracked_at = now \<rparr>
            (\<lambda>r. r\<lparr>ut_untracked_at := now\<rparr>) (st_untracked db)\<rparr>"

definition drop_untracked :: "provider \<Rightarrow> string \<Rightarrow> store_db \<Rightarrow> store_db" where
  "drop_untracked p i db = db\<lparr>st_untracked := delete_where (\<lambda>r. ut_identity r = (p, i)) (st_untracked db)\<rparr>"

definition park_session :: "f64 \<Rightarrow> session \<Rightarrow> session" where
  "park_session now s =
     s\<lparr> s_tmux_session := None, s_tmux_pane := None, s_root_pid := None, s_status := Parked,
        s_unread := False, s_error := None, s_attention_reason := None, s_updated_at := now \<rparr>"

definition untrack_session :: "f64 \<Rightarrow> provider \<Rightarrow> string \<Rightarrow> store_db \<Rightarrow> store_db" where
  "untrack_session now p i db =
     update_session p i (park_session now)
       (delete_live_owner_rows p i
         (delete_evidence p i
           (delete_meta (provider_hidden_key p i) (put_untracked now p i db))))"

definition restore_tracking :: "provider \<Rightarrow> string \<Rightarrow> store_db \<Rightarrow> bool \<times> store_db" where
  "restore_tracking p i db =
     (is_untracked db p i,
      set_meta (tracking_choice_key p i) ''explicit-selection''
        (delete_meta (provider_hidden_key p i) (drop_untracked p i db)))"

definition hide_provider_session :: "f64 \<Rightarrow> provider \<Rightarrow> string \<Rightarrow> string \<Rightarrow> store_db \<Rightarrow> store_db" where
  "hide_provider_session now p i state db =
     update_session p i (park_session now)
       (delete_live_owner_rows p i
         (delete_evidence p i
           (set_meta (provider_hidden_key p i) state (put_untracked now p i db))))"

definition restore_provider_session :: "provider \<Rightarrow> string \<Rightarrow> store_db \<Rightarrow> bool \<times> store_db" where
  "restore_provider_session p i db =
     (if st_meta db (provider_hidden_key p i) = None then (False, db)
      else (True, drop_untracked p i (delete_meta (provider_hidden_key p i) db)))"

definition adopted_metadata :: "session \<Rightarrow> session \<Rightarrow> session" where
  "adopted_metadata c s =
     s\<lparr> s_name := or_else (s_name c) (s_name s), s_cwd := or_else (s_cwd c) (s_cwd s),
        s_branch := or_else (s_branch c) (s_branch s),
        s_transcript_path := or_else (s_transcript_path c) (s_transcript_path s),
        s_model := or_else (s_model c) (s_model s) \<rparr>"

definition adoption_refusal :: "session \<Rightarrow> string" where
  "adoption_refusal row =
     ''This conversation belongs to saved workstream '' @ display_name row @ '' ('' @ s_session_id row
     @ ''). Select that workstream instead; nothing was added.''"

definition adopt_session :: "f64 \<Rightarrow> session \<Rightarrow> store_db \<Rightarrow> store_error + bool \<times> store_db" where
  "adopt_session now c db =
     (let p = s_provider c; i = s_session_id c;
          existing = get_session_by_thread db p i;
          db1 = set_meta (tracking_choice_key p i) ''explicit-selection''
                  (delete_meta (provider_hidden_key p i) (drop_untracked p i db)) in
      case existing of
        Some row \<Rightarrow>
          if s_session_id row \<noteq> i then Inl (Adoption_refused (adoption_refusal row))
          else Inr (True, update_session p i (adopted_metadata c) db1)
      | None \<Rightarrow> upsert_session now c False db1)"

definition watch_named_session :: "store_env \<Rightarrow> f64 \<Rightarrow> session \<Rightarrow> store_db \<Rightarrow> store_error + bool \<times> store_db" where
  "watch_named_session env now c db =
     (let p = s_provider c; i = s_session_id c; choice = tracking_choice_key p i in
      if is_untracked db p i \<or> st_meta db (provider_hidden_key p i) \<noteq> None then Inr (False, db)
      else if (case get_session_by_thread db p i of None \<Rightarrow> False | Some row \<Rightarrow> s_session_id row \<noteq> i)
      then Inr (False, db)
      else rbind
        (if get_session db p i = None
         then rbind (upsert_session now (c\<lparr>s_source := ''external'', s_managed := False\<rparr>) False db)
                (\<lambda>r. Inr (snd r))
         else Inr db)
        (\<lambda>db1. Inr (\<not> is_watched env db p i,
           if st_meta db1 choice = None then set_meta choice ''provider-explicit-name'' db1 else db1)))"

definition delete_session :: "provider \<Rightarrow> string \<Rightarrow> bool \<Rightarrow> store_db \<Rightarrow> bool \<times> store_db" where
  "delete_session p i preserve_live_owners db =
     (let db1 = delete_evidence p i db;
          db2 = (if preserve_live_owners then db1 else delete_live_owner_rows p i db1) in
      (get_session db p i \<noteq> None,
       db2\<lparr>st_sessions := delete_where (\<lambda>s. s_identity s = (p, i)) (st_sessions db2)\<rparr>))"

section \<open>Status evidence\<close>

definition same_observation :: "provider \<Rightarrow> string \<Rightarrow> observation_kind \<Rightarrow> observation_row \<Rightarrow> bool" where
  "same_observation p i k r \<longleftrightarrow> ob_key r = (p, i, k)"

definition record_status_observation ::
  "provider \<Rightarrow> string \<Rightarrow> status_observation \<Rightarrow> store_db \<Rightarrow> store_error + bool \<times> store_db" where
  "record_status_observation p i ob db =
     rbind (not_null_real (o_observed_at ob))
       (\<lambda>_. let row = \<lparr> ob_provider = p, ob_session_id = i, ob_observation = ob \<rparr> in
         case row_by ob_key (ob_key row) (st_observations db) of
           None \<Rightarrow> Inr (True, db\<lparr>st_observations := st_observations db @ [row]\<rparr>)
         | Some old \<Rightarrow>
             if f64_le (o_observed_at (ob_observation old)) (o_observed_at ob)
             then Inr (True, db\<lparr>st_observations :=
                    update_where (\<lambda>r. ob_key r = ob_key row) (\<lambda>_. row) (st_observations db)\<rparr>)
             else Inr (False, db))"

definition clear_status_observation :: "provider \<Rightarrow> string \<Rightarrow> observation_kind \<Rightarrow> store_db \<Rightarrow> bool \<times> store_db" where
  "clear_status_observation p i k db =
     (list_ex (same_observation p i k) (st_observations db),
      db\<lparr>st_observations := delete_where (same_observation p i k) (st_observations db)\<rparr>)"

definition clear_status_observation_observed_through ::
  "provider \<Rightarrow> string \<Rightarrow> observation_kind \<Rightarrow> f64 \<Rightarrow> store_db \<Rightarrow> bool \<times> store_db" where
  "clear_status_observation_observed_through p i k observed_at db =
     (let hit = (\<lambda>r. same_observation p i k r \<and> f64_le (o_observed_at (ob_observation r)) observed_at) in
      (list_ex hit (st_observations db), db\<lparr>st_observations := delete_where hit (st_observations db)\<rparr>))"

definition read_observations :: "(observation_row \<Rightarrow> bool) \<Rightarrow> store_db \<Rightarrow> store_db" where
  "read_observations hit db =
     db\<lparr>st_observations :=
          update_where hit (\<lambda>r. r\<lparr>ob_observation := (ob_observation r)\<lparr>o_unread := False\<rparr>\<rparr>) (st_observations db)\<rparr>"

definition acknowledge_attention ::
  "f64 \<Rightarrow> provider \<Rightarrow> string \<Rightarrow> f64 \<Rightarrow> bool \<Rightarrow> store_db \<Rightarrow> bool \<times> store_db" where
  "acknowledge_attention now p i expected attaching db =
     (case get_session db p i of
        None \<Rightarrow> (False, db)
      | Some s \<Rightarrow>
          if s_unread s \<and> f64_eq (s_last_event_at s) expected
             \<and> s_status s \<in> (if attaching then {Ready, Error} else {Ready})
          then (True,
                read_observations
                  (\<lambda>r. ob_identity r = (p, i) \<and> o_unread (ob_observation r)
                       \<and> f64_eq (o_observed_at (ob_observation r)) expected
                       \<and> o_status (ob_observation r) = s_status s)
                  (update_session p i (\<lambda>s. s\<lparr>s_unread := False, s_updated_at := now\<rparr>) db))
          else (False, db))"

definition collect_result :: "f64 \<Rightarrow> provider \<Rightarrow> string \<Rightarrow> f64 \<Rightarrow> store_db \<Rightarrow> nat option \<times> store_db" where
  "collect_result now p i expected db =
     (case get_session db p i of
        None \<Rightarrow> (None, db)
      | Some s \<Rightarrow>
          if s_status s = Ready \<and> s_unread s \<and> f64_eq (s_last_event_at s) expected
          then (let db1 = read_observations
                  (\<lambda>r. ob_identity r = (p, i) \<and> o_status (ob_observation r) = Ready
                       \<and> f64_eq (o_observed_at (ob_observation r)) expected)
                  (update_session p i (\<lambda>s. s\<lparr>s_unread := False, s_updated_at := now\<rparr>) db) in
                (Some (count_where (\<lambda>s. s_status s = Ready \<and> s_unread s) (st_sessions db1)), db1))
          else (None, db))"

section \<open>Activity\<close>

record activity_event =
  ae_event_id :: i64
  ae_provider :: provider
  ae_session_id :: string
  ae_name :: "string option"
  ae_status :: status
  ae_attention_reason :: "string option"
  ae_error :: "string option"
  ae_event_at :: f64

definition activity_of :: "store_db \<Rightarrow> session_event \<Rightarrow> activity_event" where
  "activity_of db e =
     \<lparr> ae_event_id = ev_id e, ae_provider = ev_provider e, ae_session_id = ev_session_id e,
       ae_name = Option.bind (get_session db (ev_provider e) (ev_session_id e)) s_name,
       ae_status = ev_status e, ae_attention_reason = ev_attention_reason e, ae_error = ev_error e,
       ae_event_at = ev_at e \<rparr>"

definition list_activity_events :: "store_db \<Rightarrow> nat \<Rightarrow> store_error + activity_event list" where
  "list_activity_events db limit =
     rbind (ensure (1 \<le> limit \<and> limit \<le> 500) Bad_limit)
       (\<lambda>_. Inr (take limit (map (activity_of db) (sort_by (\<lambda>a b. compare_of (ev_id b) (ev_id a)) (st_events db)))))"

definition attention_event_counts :: "store_db \<Rightarrow> f64 \<Rightarrow> f64 \<Rightarrow> (string \<times> nat) list" where
  "attention_event_counts db since until =
     (let hits = (\<lambda>st. count_where (\<lambda>e. f64_lt since (ev_at e) \<and> f64_le (ev_at e) until \<and> ev_status e = st)
                        (st_events db)) in
      map (\<lambda>st. (status_as_str st, hits st))
        (filter (\<lambda>st. 0 < hits st) [Error, NeedsYou, OpenTwice, Parked, Ready, Starting, Unbound, Working]))"

section \<open>Interruptions, attachments and hooks\<close>

definition capture_identity_interruption :: "provider \<Rightarrow> string \<Rightarrow> store_db \<Rightarrow> store_db" where
  "capture_identity_interruption p i db =
     (case get_session db p i of
        None \<Rightarrow> db
      | Some s \<Rightarrow>
          db\<lparr> st_interruptions :=
                insert_or_ignore ii_identity
                  \<lparr> ii_provider = p, ii_session_id = i, ii_status = s_status s, ii_unread = s_unread s,
                    ii_attention_reason = s_attention_reason s, ii_error = s_error s,
                    ii_last_event_at = s_last_event_at s \<rparr> (st_interruptions db),
              st_observations :=
                insert_or_ignore ob_key
                  \<lparr> ob_provider = p, ob_session_id = i,
                    ob_observation =
                      \<lparr> o_kind = Lifecycle, o_status = s_status s, o_unread = s_unread s,
                        o_attention_reason = s_attention_reason s, o_error = s_error s,
                        o_observed_at = s_last_event_at s, o_source = ''identity-interruption'' \<rparr> \<rparr>
                  (st_observations db) \<rparr>)"

definition get_identity_interruption :: "store_db \<Rightarrow> provider \<Rightarrow> string \<Rightarrow> identity_interruption option" where
  "get_identity_interruption db p i = row_by ii_identity (p, i) (st_interruptions db)"

definition clear_identity_interruption :: "provider \<Rightarrow> string \<Rightarrow> store_db \<Rightarrow> bool \<times> store_db" where
  "clear_identity_interruption p i db =
     (get_identity_interruption db p i \<noteq> None,
      db\<lparr>st_interruptions := delete_where (\<lambda>r. ii_identity r = (p, i)) (st_interruptions db)\<rparr>)"

definition legacy_attach :: "store_env \<Rightarrow> string option \<Rightarrow> store_db \<Rightarrow> store_db" where
  "legacy_attach env encoded db =
     (case Option.bind encoded (se_parse_pair env) of
        None \<Rightarrow> db
      | Some (name, i) \<Rightarrow>
          (case provider_from_str name of
             Inl _ \<Rightarrow> db
           | Inr p \<Rightarrow> set_meta (tracking_choice_key p i) ''legacy-exact-attach'' db))"

definition record_attach :: "store_env \<Rightarrow> provider \<Rightarrow> string \<Rightarrow> store_db \<Rightarrow> store_db" where
  "record_attach env p i db =
     (let db1 = legacy_attach env (st_meta db ''previous_attached'')
                  (legacy_attach env (st_meta db ''last_attached'') db);
          db2 = set_meta (tracking_choice_key p i) ''exact-attach'' db1;
          current = se_json_pair env (provider_as_str p) i;
          previous = st_meta db2 ''last_attached'';
          db3 = (case previous of
                   Some v \<Rightarrow> if v \<noteq> current then set_meta ''previous_attached'' v db2 else db2
                 | None \<Rightarrow> db2)
      in set_meta ''last_attached'' current db3)"

definition record_hook_observation :: "hook_observation \<Rightarrow> store_db \<Rightarrow> store_error + store_db" where
  "record_hook_observation ob db =
     rbind (not_null_real (ho_observed_at ob))
       (\<lambda>_. case row_by ho_provider (ho_provider ob) (st_hooks db) of
          None \<Rightarrow> Inr (db\<lparr>st_hooks := st_hooks db @ [ob]\<rparr>)
        | Some old \<Rightarrow>
            if f64_le (ho_observed_at old) (ho_observed_at ob)
            then Inr (db\<lparr>st_hooks := update_where (\<lambda>r. ho_provider r = ho_provider ob) (\<lambda>_. ob) (st_hooks db)\<rparr>)
            else Inr db)"

end
