(* ===== verification/Launches.thy ===== *)
theory Launches
  imports Store
begin

text \<open>
  The session store (src/store.rs), second part: pending launches with their phases, wrapper
  owners, exit receipts and bindings; the reservation one resume holds; the processes that own a
  conversation and the proof of a certified launch. \<open>launch_env\<close> carries the JSON codecs of the
  two records kept in the table \<open>meta\<close> and the archive text of a retired launch.
\<close>

definition f64_is_finite :: "f64 \<Rightarrow> bool" where
  "f64_is_finite w \<longleftrightarrow> f64_magnitude w < 0x7FF0000000000000"

text \<open>A NaN bound to a nullable column is stored as NULL.\<close>

definition nullable_real :: "f64 \<Rightarrow> f64 option" where
  "nullable_real t = (if f64_is_nan t then None else Some t)"

definition f64_sql_cmp :: "f64 \<Rightarrow> f64 \<Rightarrow> ordering" where
  "f64_sql_cmp a b = (if f64_lt a b then Less else if f64_lt b a then Greater else Equal)"

datatype launch_phase = Reserved | Pane_allocated | Pane_prepared | Provider_starting | Provider_observed

fun launch_phase_as_str :: "launch_phase \<Rightarrow> string" where
  "launch_phase_as_str Reserved = ''reserved''"
| "launch_phase_as_str Pane_allocated = ''pane_allocated''"
| "launch_phase_as_str Pane_prepared = ''pane_prepared''"
| "launch_phase_as_str Provider_starting = ''provider_starting''"
| "launch_phase_as_str Provider_observed = ''provider_observed''"

definition launch_phase_parse :: "string \<Rightarrow> launch_phase option" where
  "launch_phase_parse v =
     (if v = ''reserved'' then Some Reserved
      else if v = ''pane_allocated'' then Some Pane_allocated
      else if v = ''pane_prepared'' then Some Pane_prepared
      else if v = ''provider_starting'' then Some Provider_starting
      else if v = ''provider_observed'' then Some Provider_observed
      else None)"

record pending_exit =
  px_provider :: provider
  px_pending_created_at :: f64
  px_code :: int
  px_observed_at :: f64

record wrapper_owner =
  wo_provider :: provider
  wo_pending_created_at :: f64
  wo_owner_token :: string

type_synonym binding = "provider \<times> string"

record retirement_snapshot =
  rs_pending :: pending_launch
  rs_phase :: "string option"
  rs_exit_raw :: "string option"
  rs_wrapper_owner :: "string option"
  rs_binding :: "binding option"
  rs_authenticated_exit :: "pending_exit option"

record launch_env =
  le_exit_json :: "pending_exit \<Rightarrow> string"
  le_parse_exit :: "string \<Rightarrow> pending_exit option"
  le_owner_json :: "wrapper_owner \<Rightarrow> string"
  le_parse_owner :: "string \<Rightarrow> wrapper_owner option"
  le_archive :: "retirement_snapshot \<Rightarrow> string \<Rightarrow> f64 \<Rightarrow> string"

definition launch_phase_key :: "string \<Rightarrow> string" where
  "launch_phase_key token = ''launch_phase:'' @ token"

definition pending_launch_exit_key :: "string \<Rightarrow> string" where
  "pending_launch_exit_key token = ''pending_launch_exit:'' @ token"

definition pending_launch_wrapper_owner_key :: "string \<Rightarrow> string" where
  "pending_launch_wrapper_owner_key token = ''pending_launch_wrapper_owner:'' @ token"

definition retired_pending_key :: "string \<Rightarrow> string" where
  "retired_pending_key token = ''retired_pending_launch:'' @ token"

definition hidden_launch_key :: "string \<Rightarrow> string" where
  "hidden_launch_key token = ''hidden_launch:'' @ token"

section \<open>Pending launches\<close>

definition get_pending :: "store_db \<Rightarrow> string \<Rightarrow> pending_launch option" where
  "get_pending db token = row_by pl_token token (st_pending db)"

definition competing_launch :: "pending_launch \<Rightarrow> pending_launch \<Rightarrow> bool" where
  "competing_launch a b \<longleftrightarrow>
     pl_provider b = pl_provider a \<and> eq_ignore_ascii_case (pl_name b) (pl_name a) \<and> pl_token b \<noteq> pl_token a"

definition merge_pending :: "pending_launch \<Rightarrow> pending_launch \<Rightarrow> pending_launch" where
  "merge_pending new old =
     old\<lparr> pl_tmux_session := or_else (pl_tmux_session new) (pl_tmux_session old),
          pl_tmux_pane := or_else (pl_tmux_pane new) (pl_tmux_pane old),
          pl_expected_session_id := or_else (pl_expected_session_id new) (pl_expected_session_id old),
          pl_root_pid := or_else (pl_root_pid new) (pl_root_pid old),
          pl_root_pid_start := or_else (pl_root_pid_start new) (pl_root_pid_start old),
          pl_preexisting := or_else (pl_preexisting new) (pl_preexisting old) \<rparr>"

definition drop_receipts :: "string \<Rightarrow> store_db \<Rightarrow> store_db" where
  "drop_receipts token db =
     delete_meta (pending_launch_wrapper_owner_key token) (delete_meta (pending_launch_exit_key token) db)"

definition drop_launch_meta :: "string \<Rightarrow> store_db \<Rightarrow> store_db" where
  "drop_launch_meta token db = drop_receipts token (delete_meta (launch_phase_key token) db)"

definition put_phase :: "string \<Rightarrow> launch_phase \<Rightarrow> store_db \<Rightarrow> store_db" where
  "put_phase token phase db = set_meta (launch_phase_key token) (launch_phase_as_str phase) db"

definition add_pending :: "f64 \<Rightarrow> pending_launch \<Rightarrow> store_db \<Rightarrow> store_error + bool \<times> store_db" where
  "add_pending now p db =
     (if list_ex (competing_launch p) (st_pending db) then Inr (False, db)
      else
        let created = nonzero_or (pl_created_at p) now;
            new = p\<lparr> pl_candidate_observed_at := Option.bind (pl_candidate_observed_at p) nullable_real,
                     pl_created_at := created \<rparr>
        in rbind (not_null_real created)
             (\<lambda>_. Inr (True, drop_receipts (pl_token p) (put_phase (pl_token p) Reserved
                    (db\<lparr>st_pending := upsert_row pl_token new (merge_pending new) (st_pending db)\<rparr>)))))"

definition list_pending :: "store_db \<Rightarrow> pending_launch list" where
  "list_pending db = sort_by (\<lambda>a b. f64_sql_cmp (pl_created_at a) (pl_created_at b)) (st_pending db)"

definition list_visible_pending :: "store_db \<Rightarrow> pending_launch list" where
  "list_visible_pending db =
     sort_by (\<lambda>a b. f64_sql_cmp (pl_created_at a) (pl_created_at b))
       (filter (\<lambda>p. st_meta db (hidden_launch_key (pl_token p)) = None) (st_pending db))"

definition hide_pending :: "string \<Rightarrow> provider \<Rightarrow> f64 \<Rightarrow> store_db \<Rightarrow> bool \<times> store_db" where
  "hide_pending token p created_at db =
     (case get_pending db token of
        None \<Rightarrow> (False, db)
      | Some pl \<Rightarrow>
          if pl_provider pl \<noteq> p \<or> \<not> f64_eq (pl_created_at pl) created_at then (False, db)
          else (True, set_meta (hidden_launch_key token) ''1'' db))"

definition remove_pending :: "string \<Rightarrow> store_db \<Rightarrow> store_db" where
  "remove_pending token db = db\<lparr>st_pending := delete_where (\<lambda>p. pl_token p = token) (st_pending db)\<rparr>"

definition delete_pending :: "string \<Rightarrow> store_db \<Rightarrow> bool \<times> store_db" where
  "delete_pending token db = (get_pending db token \<noteq> None, drop_launch_meta token (remove_pending token db))"

definition created_exactly :: "store_db \<Rightarrow> string \<Rightarrow> f64 \<Rightarrow> bool" where
  "created_exactly db token created_at \<longleftrightarrow>
     (case get_pending db token of None \<Rightarrow> False | Some p \<Rightarrow> f64_eq (pl_created_at p) created_at)"

definition delete_pending_if_created :: "string \<Rightarrow> f64 \<Rightarrow> store_db \<Rightarrow> bool \<times> store_db" where
  "delete_pending_if_created token created_at db =
     (if created_exactly db token created_at
      then (True, drop_launch_meta token (remove_pending token db)) else (False, db))"

definition find_pending_for_pane :: "store_db \<Rightarrow> string \<Rightarrow> pending_launch option" where
  "find_pending_for_pane db pane =
     (case sort_by (\<lambda>a b. f64_sql_cmp (pl_created_at b) (pl_created_at a))
             (filter (\<lambda>p. pl_tmux_pane p = Some pane) (st_pending db)) of
        [] \<Rightarrow> None
      | p # _ \<Rightarrow> Some p)"

definition update_pending :: "string \<Rightarrow> (pending_launch \<Rightarrow> pending_launch) \<Rightarrow> store_db \<Rightarrow> store_db" where
  "update_pending token f db = db\<lparr>st_pending := update_where (\<lambda>p. pl_token p = token) f (st_pending db)\<rparr>"

definition observe_pending_candidate ::
  "string \<Rightarrow> string \<Rightarrow> f64 \<Rightarrow> store_db \<Rightarrow> f64 option \<times> store_db" where
  "observe_pending_candidate token i observed_at db =
     (case get_pending db token of
        None \<Rightarrow> (None, db)
      | Some p \<Rightarrow>
          if pl_candidate_session_id p = Some i then (pl_candidate_observed_at p, db)
          else (None, update_pending token
                  (\<lambda>p. p\<lparr>pl_candidate_session_id := Some i,
                         pl_candidate_observed_at := nullable_real observed_at\<rparr>) db))"

definition launch_binding_of :: "store_db \<Rightarrow> string \<Rightarrow> binding option" where
  "launch_binding_of db token = map_option lb_identity (row_by lb_token token (st_bindings db))"

definition finalize_pending_pane ::
  "string \<Rightarrow> string \<Rightarrow> string \<Rightarrow> i64 option \<Rightarrow> i64 option \<Rightarrow> store_db \<Rightarrow> binding option \<times> store_db" where
  "finalize_pending_pane token tmux_session tmux_pane pid start db =
     (launch_binding_of db token,
      put_phase token Pane_allocated
        (update_pending token
           (\<lambda>p. p\<lparr>pl_tmux_session := Some tmux_session, pl_tmux_pane := Some tmux_pane,
                  pl_root_pid := pid, pl_root_pid_start := start\<rparr>) db))"

definition set_launch_phase :: "string \<Rightarrow> launch_phase \<Rightarrow> store_db \<Rightarrow> bool \<times> store_db" where
  "set_launch_phase token phase db =
     (if get_pending db token \<noteq> None then (True, put_phase token phase db) else (False, db))"

definition observe_launched_generation :: "string \<Rightarrow> i64 \<Rightarrow> i64 \<Rightarrow> store_db \<Rightarrow> bool \<times> store_db" where
  "observe_launched_generation token pid start db =
     (if get_pending db token \<noteq> None
      then (True, put_phase token Provider_observed
              (update_pending token (\<lambda>p. p\<lparr>pl_root_pid := Some pid, pl_root_pid_start := Some start\<rparr>) db))
      else (False, db))"

definition get_launch_phase :: "store_db \<Rightarrow> string \<Rightarrow> launch_phase option" where
  "get_launch_phase db token = Option.bind (st_meta db (launch_phase_key token)) launch_phase_parse"

definition prune_pending :: "f64 \<Rightarrow> f64 \<Rightarrow> store_db \<Rightarrow> nat \<times> store_db" where
  "prune_pending pending_before binding_before db =
     (let stale = filter (\<lambda>p. f64_lt (pl_created_at p) pending_before) (st_pending db);
          db1 = db\<lparr>st_pending := delete_where (\<lambda>p. f64_lt (pl_created_at p) pending_before) (st_pending db)\<rparr>;
          db2 = fold (\<lambda>p. drop_launch_meta (pl_token p)) stale db1 in
      (length stale,
       db2\<lparr>st_bindings := delete_where (\<lambda>b. f64_lt (lb_created_at b) binding_before) (st_bindings db2)\<rparr>))"

section \<open>Exit receipts\<close>

definition phase_started :: "string option \<Rightarrow> bool" where
  "phase_started phase \<longleftrightarrow> phase = Some ''provider_starting'' \<or> phase = Some ''provider_observed''"

definition contains_nul :: "string \<Rightarrow> bool" where
  "contains_nul s \<longleftrightarrow> CHR 0x00 \<in> set s"

definition register_pending_wrapper_owner :: "launch_env \<Rightarrow> string \<Rightarrow> string \<Rightarrow> store_db \<Rightarrow> bool \<times> store_db" where
  "register_pending_wrapper_owner env token owner_token db =
     (case get_pending db token of
        None \<Rightarrow> (False, db)
      | Some pending \<Rightarrow>
          let phase = st_meta db (launch_phase_key token); key = pending_launch_wrapper_owner_key token in
          if owner_token = [] \<or> length owner_token > 512 \<or> contains_nul owner_token
             \<or> \<not> (phase = Some ''reserved'' \<or> phase = Some ''pane_prepared'')
          then (False, db)
          else (case st_meta db key of
            Some raw \<Rightarrow>
              (case le_parse_owner env raw of
                 None \<Rightarrow> (False, db)
               | Some o' \<Rightarrow>
                   (wo_provider o' = pl_provider pending \<and> f64_eq (wo_pending_created_at o') (pl_created_at pending)
                    \<and> wo_owner_token o' = owner_token, db))
          | None \<Rightarrow>
              (True, set_meta key
                 (le_owner_json env
                    \<lparr> wo_provider = pl_provider pending, wo_pending_created_at = pl_created_at pending,
                      wo_owner_token = owner_token \<rparr>) db)))"

definition pending_exit_request_matches ::
  "store_db \<Rightarrow> string \<Rightarrow> pending_launch \<Rightarrow> provider \<Rightarrow> string option \<Rightarrow> f64 \<Rightarrow> bool" where
  "pending_exit_request_matches db token pending p reported observed_at \<longleftrightarrow>
     pl_provider pending = p
     \<and> (reported = None \<or> pl_expected_session_id pending = reported)
     \<and> f64_is_finite observed_at \<and> f64_le (pl_created_at pending) observed_at
     \<and> phase_started (st_meta db (launch_phase_key token))"

definition pending_exit_owner_matches ::
  "wrapper_owner \<Rightarrow> pending_launch \<Rightarrow> provider \<Rightarrow> string option \<Rightarrow> bool" where
  "pending_exit_owner_matches owner pending p owner_token \<longleftrightarrow>
     wo_provider owner = p \<and> f64_eq (wo_pending_created_at owner) (pl_created_at pending)
     \<and> owner_token = Some (wo_owner_token owner)"

definition pending_exit_binding_matches ::
  "pending_launch \<Rightarrow> provider \<Rightarrow> string option \<Rightarrow> binding option \<Rightarrow> bool" where
  "pending_exit_binding_matches pending p reported b \<longleftrightarrow>
     (case b of
        None \<Rightarrow> pl_expected_session_id pending = None \<and> reported = None
      | Some (bound, i) \<Rightarrow>
          bound = p
          \<and> (pl_expected_session_id pending = None \<or> pl_expected_session_id pending = Some i)
          \<and> (reported = None \<or> reported = Some i))"

definition pending_exit_identity_is_available :: "store_db \<Rightarrow> provider \<Rightarrow> pending_launch \<Rightarrow> binding option \<Rightarrow> bool" where
  "pending_exit_identity_is_available db p pending b =
     (case or_else (map_option snd b) (pl_expected_session_id pending) of
        None \<Rightarrow> True
      | Some i \<Rightarrow> \<not> is_untracked db p i \<and> get_session db p i = None)"

definition pending_exit_replay_matches ::
  "launch_env \<Rightarrow> store_db \<Rightarrow> string \<Rightarrow> provider \<Rightarrow> f64 \<Rightarrow> int \<Rightarrow> f64 \<Rightarrow> bool option" where
  "pending_exit_replay_matches env db token p created_at code observed_at =
     (case st_meta db (pending_launch_exit_key token) of
        None \<Rightarrow> None
      | Some raw \<Rightarrow>
          (case le_parse_exit env raw of
             None \<Rightarrow> Some False
           | Some e \<Rightarrow>
               Some (px_provider e = p \<and> f64_eq (px_pending_created_at e) created_at \<and> px_code e = code
                     \<and> f64_le (px_observed_at e) observed_at)))"

definition record_pending_launch_exit ::
  "launch_env \<Rightarrow> string \<Rightarrow> provider \<Rightarrow> string option \<Rightarrow> string option \<Rightarrow> int \<Rightarrow> f64 \<Rightarrow> store_db \<Rightarrow> bool \<times> store_db" where
  "record_pending_launch_exit env token p reported owner_token code observed_at db =
     (case get_pending db token of
        None \<Rightarrow> (False, db)
      | Some pending \<Rightarrow>
          if \<not> pending_exit_request_matches db token pending p reported observed_at then (False, db)
          else (case Option.bind (st_meta db (pending_launch_wrapper_owner_key token)) (le_parse_owner env) of
            None \<Rightarrow> (False, db)
          | Some owner \<Rightarrow>
              if \<not> pending_exit_owner_matches owner pending p owner_token then (False, db)
              else let b = launch_binding_of db token in
              if \<not> pending_exit_binding_matches pending p reported b then (False, db)
              else if \<not> pending_exit_identity_is_available db p pending b then (False, db)
              else (case pending_exit_replay_matches env db token p (pl_created_at pending) code observed_at of
                Some replayed \<Rightarrow> (replayed, db)
              | None \<Rightarrow>
                  (True, set_meta (pending_launch_exit_key token)
                     (le_exit_json env
                        \<lparr> px_provider = p, px_pending_created_at = pl_created_at pending, px_code = code,
                          px_observed_at = observed_at \<rparr>) db))))"

definition receipt_current :: "pending_launch \<Rightarrow> pending_exit \<Rightarrow> bool" where
  "receipt_current pending e \<longleftrightarrow>
     px_provider e = pl_provider pending \<and> f64_eq (px_pending_created_at e) (pl_created_at pending)
     \<and> f64_is_finite (px_observed_at e) \<and> f64_le (pl_created_at pending) (px_observed_at e)"

definition get_pending_exit :: "launch_env \<Rightarrow> store_db \<Rightarrow> string \<Rightarrow> pending_exit option" where
  "get_pending_exit env db token =
     (case get_pending db token of
        None \<Rightarrow> None
      | Some pending \<Rightarrow>
          (case Option.bind (st_meta db (pending_launch_exit_key token)) (le_parse_exit env) of
             None \<Rightarrow> None
           | Some e \<Rightarrow> if receipt_current pending e then Some e else None))"

definition authenticated_pending_exit ::
  "launch_env \<Rightarrow> pending_launch \<Rightarrow> string option \<Rightarrow> string option \<Rightarrow> string option \<Rightarrow> binding option
   \<Rightarrow> pending_exit option" where
  "authenticated_pending_exit env pending phase exit_raw owner_raw b =
     (if \<not> phase_started phase then None
      else (case (Option.bind exit_raw (le_parse_exit env), Option.bind owner_raw (le_parse_owner env)) of
        (Some e, Some owner) \<Rightarrow>
          if \<not> pending_exit_owner_matches owner pending (pl_provider pending) (Some (wo_owner_token owner))
             \<or> \<not> pending_exit_binding_matches pending (pl_provider pending) None b
             \<or> \<not> receipt_current pending e
          then None else Some e
      | _ \<Rightarrow> None))"

definition pending_retirement_state :: "launch_env \<Rightarrow> store_db \<Rightarrow> string \<Rightarrow> retirement_snapshot option" where
  "pending_retirement_state env db token =
     (case get_pending db token of
        None \<Rightarrow> None
      | Some pending \<Rightarrow>
          let phase = st_meta db (launch_phase_key token);
              exit_raw = st_meta db (pending_launch_exit_key token);
              owner_raw = st_meta db (pending_launch_wrapper_owner_key token);
              b = launch_binding_of db token in
          Some \<lparr> rs_pending = pending, rs_phase = phase, rs_exit_raw = exit_raw, rs_wrapper_owner = owner_raw,
                 rs_binding = b,
                 rs_authenticated_exit = authenticated_pending_exit env pending phase exit_raw owner_raw b \<rparr>)"

text \<open>The derived equality of rows compares times with \<open>==\<close>.\<close>

definition same_time :: "f64 option \<Rightarrow> f64 option \<Rightarrow> bool" where
  "same_time a b = (case (a, b) of (None, None) \<Rightarrow> True | (Some x, Some y) \<Rightarrow> f64_eq x y | _ \<Rightarrow> False)"

definition same_pending :: "pending_launch \<Rightarrow> pending_launch \<Rightarrow> bool" where
  "same_pending a b \<longleftrightarrow>
     f64_eq (pl_created_at a) (pl_created_at b)
     \<and> same_time (pl_candidate_observed_at a) (pl_candidate_observed_at b)
     \<and> a\<lparr>pl_created_at := 0, pl_candidate_observed_at := None\<rparr>
       = b\<lparr>pl_created_at := 0, pl_candidate_observed_at := None\<rparr>"

definition same_exit :: "pending_exit option \<Rightarrow> pending_exit option \<Rightarrow> bool" where
  "same_exit a b =
     (case (a, b) of
        (None, None) \<Rightarrow> True
      | (Some x, Some y) \<Rightarrow>
          px_provider x = px_provider y \<and> f64_eq (px_pending_created_at x) (px_pending_created_at y)
          \<and> px_code x = px_code y \<and> f64_eq (px_observed_at x) (px_observed_at y)
      | _ \<Rightarrow> False)"

definition same_snapshot :: "retirement_snapshot \<Rightarrow> retirement_snapshot \<Rightarrow> bool" where
  "same_snapshot a b \<longleftrightarrow>
     same_pending (rs_pending a) (rs_pending b) \<and> rs_phase a = rs_phase b \<and> rs_exit_raw a = rs_exit_raw b
     \<and> rs_wrapper_owner a = rs_wrapper_owner b \<and> rs_binding a = rs_binding b
     \<and> same_exit (rs_authenticated_exit a) (rs_authenticated_exit b)"

definition retire_pending_if_unchanged ::
  "launch_env \<Rightarrow> f64 \<Rightarrow> retirement_snapshot \<Rightarrow> string \<Rightarrow> store_db \<Rightarrow> bool \<times> store_db" where
  "retire_pending_if_unchanged env now snapshot reason db =
     (let token = pl_token (rs_pending snapshot) in
      case pending_retirement_state env db token of
        None \<Rightarrow> (False, db)
      | Some current \<Rightarrow>
          if \<not> same_snapshot current snapshot then (False, db)
          else (let db1 = set_meta (retired_pending_key token) (le_archive env snapshot reason now) db in
                if created_exactly db1 token (pl_created_at (rs_pending snapshot))
                then (True, drop_launch_meta token (remove_pending token db1)) else (False, db1)))"

section \<open>Bindings and certification\<close>

definition bind_launch :: "f64 \<Rightarrow> string \<Rightarrow> provider \<Rightarrow> string \<Rightarrow> store_db \<Rightarrow> bool \<times> store_db" where
  "bind_launch now token p i db =
     (case launch_binding_of db token of
        Some existing \<Rightarrow> (existing = (p, i), db)
      | None \<Rightarrow>
          (True, db\<lparr>st_bindings := st_bindings db @
                     [\<lparr> lb_token = token, lb_provider = p, lb_session_id = i, lb_created_at = now \<rparr>]\<rparr>))"

definition delete_launch_binding :: "string \<Rightarrow> store_db \<Rightarrow> bool \<times> store_db" where
  "delete_launch_binding token db =
     (launch_binding_of db token \<noteq> None,
      db\<lparr>st_bindings := delete_where (\<lambda>b. lb_token b = token) (st_bindings db)\<rparr>)"

definition delete_launch_binding_if :: "string \<Rightarrow> provider \<Rightarrow> string \<Rightarrow> store_db \<Rightarrow> bool \<times> store_db" where
  "delete_launch_binding_if token p i db =
     (launch_binding_of db token = Some (p, i),
      db\<lparr>st_bindings := delete_where (\<lambda>b. lb_token b = token \<and> lb_identity b = (p, i)) (st_bindings db)\<rparr>)"

definition get_recovery_owner :: "store_db \<Rightarrow> provider \<Rightarrow> string \<Rightarrow> recovery_owner option" where
  "get_recovery_owner db p i = row_by ro_identity (p, i) (st_recovery_owners db)"

definition put_recovery_owner :: "recovery_owner \<Rightarrow> store_db \<Rightarrow> store_db" where
  "put_recovery_owner owner db =
     db\<lparr>st_recovery_owners := upsert_row ro_identity owner (\<lambda>_. owner) (st_recovery_owners db)\<rparr>"

definition set_recovery_owner :: "recovery_owner \<Rightarrow> store_db \<Rightarrow> store_error + store_db" where
  "set_recovery_owner owner db =
     rbind (not_null_real (ro_created_at owner)) (\<lambda>_. Inr (put_recovery_owner owner db))"

definition delete_recovery_owner :: "provider \<Rightarrow> string \<Rightarrow> store_db \<Rightarrow> bool \<times> store_db" where
  "delete_recovery_owner p i db =
     (get_recovery_owner db p i \<noteq> None,
      db\<lparr>st_recovery_owners := delete_where (\<lambda>r. ro_identity r = (p, i)) (st_recovery_owners db)\<rparr>)"

definition generation_matches :: "pending_launch \<Rightarrow> provider \<Rightarrow> i64 \<Rightarrow> i64 \<Rightarrow> bool" where
  "generation_matches pending p pid start \<longleftrightarrow>
     pl_provider pending = p \<and> pl_root_pid pending = Some pid \<and> pl_root_pid_start pending = Some start"

definition certify_launch ::
  "f64 \<Rightarrow> string \<Rightarrow> provider \<Rightarrow> string \<Rightarrow> i64 \<Rightarrow> i64 \<Rightarrow> store_db \<Rightarrow> bool \<times> store_db" where
  "certify_launch now token p i pid start db =
     (if launch_binding_of db token \<noteq> Some (p, i) then (False, db)
      else if (case get_pending db token of None \<Rightarrow> False | Some pending \<Rightarrow> \<not> generation_matches pending p pid start)
      then (False, db)
      else (True, drop_launch_meta token (remove_pending token
             (put_recovery_owner
                \<lparr> ro_provider = p, ro_session_id = i, ro_pid = pid, ro_start_time = start,
                  ro_launch_token = token, ro_created_at = now \<rparr> db))))"

definition recover_confirmed_launch ::
  "f64 \<Rightarrow> string \<Rightarrow> session \<Rightarrow> i64 \<Rightarrow> i64 \<Rightarrow> store_db \<Rightarrow> bool \<times> store_db" where
  "recover_confirmed_launch now token s pid start db =
     (case get_pending db token of
        None \<Rightarrow> (False, db)
      | Some pending \<Rightarrow>
          if pl_provider pending \<noteq> s_provider s
             \<or> pl_expected_session_id pending \<noteq> Some (s_session_id s)
             \<or> pl_tmux_pane pending \<noteq> s_tmux_pane s
             \<or> pl_tmux_session pending \<noteq> s_tmux_session s
             \<or> is_untracked db (s_provider s) (s_session_id s)
             \<or> launch_binding_of db token \<noteq> Some (s_provider s, s_session_id s)
          then (False, db)
          else if \<not> phase_started (st_meta db (launch_phase_key token)) then (False, db)
          else certify_launch now token (s_provider s) (s_session_id s) pid start
                 (update_pending token (\<lambda>p. p\<lparr>pl_root_pid := Some pid, pl_root_pid_start := Some start\<rparr>) db))"

definition owner_is :: "recovery_owner \<Rightarrow> i64 \<Rightarrow> i64 \<Rightarrow> string \<Rightarrow> bool" where
  "owner_is r pid start token \<longleftrightarrow> ro_pid r = pid \<and> ro_start_time r = start \<and> ro_launch_token r = token"

definition switch_launch_binding ::
  "f64 \<Rightarrow> string \<Rightarrow> provider \<Rightarrow> string \<Rightarrow> string \<Rightarrow> i64 \<Rightarrow> i64 \<Rightarrow> store_db \<Rightarrow> bool \<times> store_db" where
  "switch_launch_binding now token p from_id to_id pid start db =
     (let competing = (case get_recovery_owner db p to_id of None \<Rightarrow> False | Some r \<Rightarrow> \<not> owner_is r pid start token);
          proven = (case get_recovery_owner db p from_id of None \<Rightarrow> False | Some r \<Rightarrow> owner_is r pid start token) in
      if launch_binding_of db token \<noteq> Some (p, from_id) \<or> \<not> proven \<or> competing then (False, db)
      else
        (let db1 = db\<lparr>st_bindings :=
                update_where (\<lambda>b. lb_token b = token \<and> lb_identity b = (p, from_id))
                  (\<lambda>b. b\<lparr>lb_session_id := to_id, lb_created_at := now\<rparr>) (st_bindings db)\<rparr>;
             db2 = snd (delete_recovery_owner p from_id db1) in
         (True, put_recovery_owner
            \<lparr> ro_provider = p, ro_session_id = to_id, ro_pid = pid, ro_start_time = start,
              ro_launch_token = token, ro_created_at = now \<rparr> db2)))"

section \<open>Resume reservations\<close>

definition get_resume_reservation :: "store_db \<Rightarrow> provider \<Rightarrow> string \<Rightarrow> launch_reservation option" where
  "get_resume_reservation db p i = row_by lr_identity (p, i) (st_reservations db)"

definition new_reservation :: "f64 \<Rightarrow> provider \<Rightarrow> string \<Rightarrow> string \<Rightarrow> i64 \<Rightarrow> i64 \<Rightarrow> launch_reservation" where
  "new_reservation now p i token pid start =
     \<lparr> lr_provider = p, lr_session_id = i, lr_token = token, lr_owner_pid = Some pid,
       lr_owner_start_time = Some start, lr_created_at = now \<rparr>"

definition reserve_resume ::
  "f64 \<Rightarrow> provider \<Rightarrow> string \<Rightarrow> string \<Rightarrow> i64 \<Rightarrow> i64 \<Rightarrow> store_db \<Rightarrow> bool \<times> store_db" where
  "reserve_resume now p i token pid start db =
     (get_resume_reservation db p i = None,
      db\<lparr>st_reservations :=
           insert_or_ignore lr_identity (new_reservation now p i token pid start) (st_reservations db)\<rparr>)"

text \<open>
  Both reclaims delete the row they name and insert the new one; the insert that is ignored rolls
  the deletion back.
\<close>

definition replace_reservation ::
  "(launch_reservation \<Rightarrow> bool) \<Rightarrow> launch_reservation \<Rightarrow> store_db \<Rightarrow> bool \<times> store_db" where
  "replace_reservation hit new db =
     (if list_ex hit (st_reservations db)
      then (let kept = delete_where hit (st_reservations db) in
            if lr_identity new \<in> lr_identity ` set kept then (False, db)
            else (True, db\<lparr>st_reservations := kept @ [new]\<rparr>))
      else (False, db))"

definition reclaim_resume ::
  "f64 \<Rightarrow> provider \<Rightarrow> string \<Rightarrow> i64 \<Rightarrow> i64 \<Rightarrow> string \<Rightarrow> i64 \<Rightarrow> i64 \<Rightarrow> store_db \<Rightarrow> bool \<times> store_db" where
  "reclaim_resume now p i stale_pid stale_start token pid start db =
     replace_reservation
       (\<lambda>r. lr_identity r = (p, i) \<and> lr_owner_pid r = Some stale_pid \<and> lr_owner_start_time r = Some stale_start)
       (new_reservation now p i token pid start) db"

definition same_reservation :: "launch_reservation \<Rightarrow> launch_reservation \<Rightarrow> bool" where
  "same_reservation a r \<longleftrightarrow>
     lr_identity r = lr_identity a \<and> lr_token r = lr_token a \<and> lr_owner_pid r = lr_owner_pid a
     \<and> lr_owner_start_time r = lr_owner_start_time a \<and> f64_eq (lr_created_at r) (lr_created_at a)"

definition reclaim_resume_if_generation ::
  "f64 \<Rightarrow> launch_reservation \<Rightarrow> string \<Rightarrow> i64 \<Rightarrow> i64 \<Rightarrow> store_db \<Rightarrow> bool \<times> store_db" where
  "reclaim_resume_if_generation now observed token pid start db =
     replace_reservation (same_reservation observed)
       (new_reservation now (lr_provider observed) (lr_session_id observed) token pid start) db"

definition list_resume_reservations :: "store_db \<Rightarrow> launch_reservation list" where
  "list_resume_reservations db =
     sort_by (\<lambda>a b. f64_sql_cmp (lr_created_at a) (lr_created_at b)) (st_reservations db)"

definition release_resume_if_generation :: "launch_reservation \<Rightarrow> store_db \<Rightarrow> bool \<times> store_db" where
  "release_resume_if_generation observed db =
     (list_ex (same_reservation observed) (st_reservations db),
      db\<lparr>st_reservations := delete_where (same_reservation observed) (st_reservations db)\<rparr>)"

definition release_resume :: "provider \<Rightarrow> string \<Rightarrow> string \<Rightarrow> store_db \<Rightarrow> bool \<times> store_db" where
  "release_resume p i token db =
     (let hit = (\<lambda>r. lr_identity r = (p, i) \<and> lr_token r = token) in
      (list_ex hit (st_reservations db), db\<lparr>st_reservations := delete_where hit (st_reservations db)\<rparr>))"

section \<open>Live owners\<close>

definition set_live_owner :: "live_owner \<Rightarrow> store_db \<Rightarrow> store_error + bool \<times> store_db" where
  "set_live_owner owner db =
     (if is_untracked db (lo_provider owner) (lo_session_id owner) then Inr (False, db)
      else rbind (not_null_real (lo_last_seen owner))
        (\<lambda>_. case row_by lo_key (lo_key owner) (st_live_owners db) of
           None \<Rightarrow> Inr (True, db\<lparr>st_live_owners := st_live_owners db @ [owner]\<rparr>)
         | Some old \<Rightarrow>
             if f64_le (lo_last_seen old) (lo_last_seen owner)
             then Inr (True, db\<lparr>st_live_owners :=
                    update_where (\<lambda>r. lo_key r = lo_key owner)
                      (\<lambda>r. r\<lparr>lo_start_time := lo_start_time owner, lo_last_seen := lo_last_seen owner\<rparr>)
                      (st_live_owners db)\<rparr>)
             else Inr (False, db)))"

definition owner_order :: "live_owner \<Rightarrow> live_owner \<Rightarrow> ordering" where
  "owner_order a b = then_with (compare_of (lo_pid a) (lo_pid b)) (compare_of (lo_owner_token a) (lo_owner_token b))"

definition live_owners :: "store_db \<Rightarrow> provider \<Rightarrow> string \<Rightarrow> live_owner list" where
  "live_owners db p i = sort_by owner_order (filter (\<lambda>r. lo_identity r = (p, i)) (st_live_owners db))"

definition same_owner :: "live_owner \<Rightarrow> live_owner \<Rightarrow> bool" where
  "same_owner a b \<longleftrightarrow>
     lo_key a = lo_key b \<and> lo_start_time a = lo_start_time b \<and> f64_eq (lo_last_seen a) (lo_last_seen b)"

text \<open>The loop that deletes the confirmed rows one by one; \<open>None\<close> rolls the transaction back.\<close>

fun revoke_each :: "live_owner list \<Rightarrow> live_owner list \<Rightarrow> live_owner list option" where
  "revoke_each [] rows = Some rows"
| "revoke_each (x # xs) rows =
     (if count_where (same_owner x) rows \<noteq> 1 then None else revoke_each xs (delete_where (same_owner x) rows))"

definition revoke_live_owners_if_exact ::
  "provider \<Rightarrow> string \<Rightarrow> live_owner list \<Rightarrow> store_db \<Rightarrow> bool \<times> store_db" where
  "revoke_live_owners_if_exact p i expected db =
     (if \<not> list_all2 same_owner (live_owners db p i) expected then (False, db)
      else if expected = [] then (False, db)
      else (case revoke_each expected (st_live_owners db) of
        None \<Rightarrow> (False, db)
      | Some rows \<Rightarrow> (True, db\<lparr>st_live_owners := rows\<rparr>)))"

definition remove_live_owners :: "(live_owner \<Rightarrow> bool) \<Rightarrow> store_db \<Rightarrow> nat \<times> store_db" where
  "remove_live_owners hit db =
     (count_where hit (st_live_owners db), db\<lparr>st_live_owners := delete_where hit (st_live_owners db)\<rparr>)"

definition owner_selected :: "provider \<Rightarrow> string \<Rightarrow> i64 option \<Rightarrow> string option \<Rightarrow> live_owner \<Rightarrow> bool" where
  "owner_selected p i pid token r \<longleftrightarrow>
     lo_identity r = (p, i)
     \<and> (case pid of None \<Rightarrow> True | Some n \<Rightarrow> lo_pid r = n)
     \<and> (case token of None \<Rightarrow> True | Some t \<Rightarrow> lo_owner_token r = t)"

definition delete_live_owners ::
  "provider \<Rightarrow> string \<Rightarrow> i64 option \<Rightarrow> string option \<Rightarrow> store_db \<Rightarrow> nat \<times> store_db" where
  "delete_live_owners p i pid token db = remove_live_owners (owner_selected p i pid token) db"

definition delete_live_owners_observed_through ::
  "provider \<Rightarrow> string \<Rightarrow> i64 option \<Rightarrow> string option \<Rightarrow> f64 \<Rightarrow> store_db \<Rightarrow> nat \<times> store_db" where
  "delete_live_owners_observed_through p i pid token observed_at db =
     remove_live_owners (\<lambda>r. owner_selected p i pid token r \<and> f64_le (lo_last_seen r) observed_at) db"

definition delete_other_live_owner_sessions :: "provider \<Rightarrow> i64 \<Rightarrow> string \<Rightarrow> store_db \<Rightarrow> nat \<times> store_db" where
  "delete_other_live_owner_sessions p pid keep db =
     remove_live_owners (\<lambda>r. lo_provider r = p \<and> lo_pid r = pid \<and> lo_session_id r \<noteq> keep) db"

definition delete_live_owner_generation :: "live_owner \<Rightarrow> store_db \<Rightarrow> nat \<times> store_db" where
  "delete_live_owner_generation owner db =
     remove_live_owners (\<lambda>r. lo_key r = lo_key owner \<and> lo_start_time r = lo_start_time owner) db"

end
