(* ===== verification/Store_Machine.thy ===== *)
theory Store_Machine
  imports Launches
begin

text \<open>
  The session store as one state machine: every writing operation of Store and Launches as a step,
  the well-formedness of the tables (primary keys, one pending launch per name) and the silence of
  untracked conversations, and the proof that every step keeps them.
\<close>

section \<open>Operations\<close>

datatype session_op =
  Upsert f64 session bool
| Clear_runtime provider string f64
| Clear_shared_pid provider string i64
| Clear_home provider string f64
| Untrack f64 provider string
| Restore_tracking provider string
| Hide_provider f64 provider string string
| Restore_provider provider string
| Adopt f64 session
| Watch_named f64 session
| Delete_session provider string bool

datatype evidence_op =
  Record_observation provider string status_observation
| Clear_observation provider string observation_kind
| Clear_observation_through provider string observation_kind f64
| Acknowledge f64 provider string f64 bool
| Collect f64 provider string f64
| Capture_interruption provider string
| Clear_interruption provider string
| Attach provider string
| Hook hook_observation

datatype launch_op =
  Add_pending f64 pending_launch
| Hide_pending string provider f64
| Delete_pending string
| Delete_pending_if_created string f64
| Observe_candidate string string f64
| Finalize_pane string string string "i64 option" "i64 option"
| Set_phase string launch_phase
| Observe_generation string i64 i64
| Prune f64 f64
| Register_wrapper string string
| Record_exit string provider "string option" "string option" int f64
| Retire f64 retirement_snapshot string

datatype binding_op =
  Bind f64 string provider string
| Delete_binding string
| Delete_binding_if string provider string
| Set_recovery recovery_owner
| Delete_recovery provider string
| Certify f64 string provider string i64 i64
| Recover_confirmed f64 string session i64 i64
| Switch_binding f64 string provider string string i64 i64

datatype owner_op =
  Reserve_resume f64 provider string string i64 i64
| Reclaim f64 provider string i64 i64 string i64 i64
| Reclaim_generation f64 launch_reservation string i64 i64
| Release_generation launch_reservation
| Release provider string string
| Own live_owner
| Revoke_exact provider string "live_owner list"
| Delete_owners provider string "i64 option" "string option"
| Delete_owners_through provider string "i64 option" "string option" f64
| Delete_other_owners provider i64 string
| Delete_owner_generation live_owner

datatype store_op =
  Session_op session_op
| Evidence_op evidence_op
| Launch_op launch_op
| Binding_op binding_op
| Owner_op owner_op

definition committed :: "'a \<times> store_db \<Rightarrow> store_error + store_db" where
  "committed r = Inr (snd r)"

definition checked :: "store_error + 'a \<times> store_db \<Rightarrow> store_error + store_db" where
  "checked r = rbind r committed"

fun session_step :: "store_env \<Rightarrow> session_op \<Rightarrow> store_db \<Rightarrow> store_error + store_db" where
  "session_step se (Upsert now s keep) db = checked (upsert_session now s keep db)"
| "session_step se (Clear_runtime p i t) db = checked (clear_session_runtime p i t db)"
| "session_step se (Clear_shared_pid p i n) db = committed (clear_shared_root_pid p i n db)"
| "session_step se (Clear_home p i t) db = checked (clear_session_home p i t db)"
| "session_step se (Untrack now p i) db = Inr (untrack_session now p i db)"
| "session_step se (Restore_tracking p i) db = committed (restore_tracking p i db)"
| "session_step se (Hide_provider now p i state) db = Inr (hide_provider_session now p i state db)"
| "session_step se (Restore_provider p i) db = committed (restore_provider_session p i db)"
| "session_step se (Adopt now c) db = checked (adopt_session now c db)"
| "session_step se (Watch_named now c) db = checked (watch_named_session se now c db)"
| "session_step se (Delete_session p i keep) db = committed (delete_session p i keep db)"

fun evidence_step :: "store_env \<Rightarrow> evidence_op \<Rightarrow> store_db \<Rightarrow> store_error + store_db" where
  "evidence_step se (Record_observation p i ob) db = checked (record_status_observation p i ob db)"
| "evidence_step se (Clear_observation p i k) db = committed (clear_status_observation p i k db)"
| "evidence_step se (Clear_observation_through p i k t) db =
     committed (clear_status_observation_observed_through p i k t db)"
| "evidence_step se (Acknowledge now p i t attaching) db = committed (acknowledge_attention now p i t attaching db)"
| "evidence_step se (Collect now p i t) db = committed (collect_result now p i t db)"
| "evidence_step se (Capture_interruption p i) db = Inr (capture_identity_interruption p i db)"
| "evidence_step se (Clear_interruption p i) db = committed (clear_identity_interruption p i db)"
| "evidence_step se (Attach p i) db = Inr (record_attach se p i db)"
| "evidence_step se (Hook ob) db = record_hook_observation ob db"

fun launch_step :: "launch_env \<Rightarrow> launch_op \<Rightarrow> store_db \<Rightarrow> store_error + store_db" where
  "launch_step le (Add_pending now p) db = checked (add_pending now p db)"
| "launch_step le (Hide_pending token p t) db = committed (hide_pending token p t db)"
| "launch_step le (Delete_pending token) db = committed (delete_pending token db)"
| "launch_step le (Delete_pending_if_created token t) db = committed (delete_pending_if_created token t db)"
| "launch_step le (Observe_candidate token i t) db = committed (observe_pending_candidate token i t db)"
| "launch_step le (Finalize_pane token ts tp pid start) db =
     committed (finalize_pending_pane token ts tp pid start db)"
| "launch_step le (Set_phase token phase) db = committed (set_launch_phase token phase db)"
| "launch_step le (Observe_generation token pid start) db = committed (observe_launched_generation token pid start db)"
| "launch_step le (Prune a b) db = committed (prune_pending a b db)"
| "launch_step le (Register_wrapper token owner) db = committed (register_pending_wrapper_owner le token owner db)"
| "launch_step le (Record_exit token p reported owner code t) db =
     committed (record_pending_launch_exit le token p reported owner code t db)"
| "launch_step le (Retire now snapshot reason) db = committed (retire_pending_if_unchanged le now snapshot reason db)"

fun binding_step :: "binding_op \<Rightarrow> store_db \<Rightarrow> store_error + store_db" where
  "binding_step (Bind now token p i) db = committed (bind_launch now token p i db)"
| "binding_step (Delete_binding token) db = committed (delete_launch_binding token db)"
| "binding_step (Delete_binding_if token p i) db = committed (delete_launch_binding_if token p i db)"
| "binding_step (Set_recovery r) db = set_recovery_owner r db"
| "binding_step (Delete_recovery p i) db = committed (delete_recovery_owner p i db)"
| "binding_step (Certify now token p i pid start) db = committed (certify_launch now token p i pid start db)"
| "binding_step (Recover_confirmed now token s pid start) db =
     committed (recover_confirmed_launch now token s pid start db)"
| "binding_step (Switch_binding now token p a b pid start) db =
     committed (switch_launch_binding now token p a b pid start db)"

fun owner_step :: "owner_op \<Rightarrow> store_db \<Rightarrow> store_error + store_db" where
  "owner_step (Reserve_resume now p i token pid start) db = committed (reserve_resume now p i token pid start db)"
| "owner_step (Reclaim now p i spid sstart token pid start) db =
     committed (reclaim_resume now p i spid sstart token pid start db)"
| "owner_step (Reclaim_generation now r token pid start) db =
     committed (reclaim_resume_if_generation now r token pid start db)"
| "owner_step (Release_generation r) db = committed (release_resume_if_generation r db)"
| "owner_step (Release p i token) db = committed (release_resume p i token db)"
| "owner_step (Own owner) db = checked (set_live_owner owner db)"
| "owner_step (Revoke_exact p i expected) db = committed (revoke_live_owners_if_exact p i expected db)"
| "owner_step (Delete_owners p i pid token) db = committed (delete_live_owners p i pid token db)"
| "owner_step (Delete_owners_through p i pid token t) db =
     committed (delete_live_owners_observed_through p i pid token t db)"
| "owner_step (Delete_other_owners p pid keep) db = committed (delete_other_live_owner_sessions p pid keep db)"
| "owner_step (Delete_owner_generation owner) db = committed (delete_live_owner_generation owner db)"

fun store_step :: "store_env \<Rightarrow> launch_env \<Rightarrow> store_op \<Rightarrow> store_db \<Rightarrow> store_error + store_db" where
  "store_step se le (Session_op op) db = session_step se op db"
| "store_step se le (Evidence_op op) db = evidence_step se op db"
| "store_step se le (Launch_op op) db = launch_step le op db"
| "store_step se le (Binding_op op) db = binding_step op db"
| "store_step se le (Owner_op op) db = owner_step op db"

lemma committed_Inr [simp]: "committed r = Inr db \<longleftrightarrow> db = snd r"
  by (auto simp: committed_def)

lemma committed_case [simp]: "committed (case v of None \<Rightarrow> a | Some x \<Rightarrow> f x)
    = (case v of None \<Rightarrow> committed a | Some x \<Rightarrow> committed (f x))"
  by (cases v) simp_all

lemma checked_Inr: "checked r = Inr db \<longleftrightarrow> (\<exists>b. r = Inr (b, db))"
  by (cases r) (auto simp: checked_def committed_def)

section \<open>Tables under the statements\<close>

lemma key_upsert_row:
  assumes "\<And>r. key (merge r) = key r"
  shows "key ` set (upsert_row key new merge rows) = insert (key new) (key ` set rows)"
proof -
  have "key ` set (update_where q merge rows) = key ` set rows" for q
    unfolding set_update_where image_image by (rule image_cong) (simp_all add: assms)
  then show ?thesis by (simp add: upsert_row_def insert_absorb)
qed

lemma unique_by_upsert_row:
  assumes "\<And>r. key (merge r) = key r"
  shows "unique_by key rows \<Longrightarrow> unique_by key (upsert_row key new merge rows)"
  by (simp add: upsert_row_def assms)

lemma unique_by_replace_row:
  "unique_by key rows \<Longrightarrow> unique_by key (update_where (\<lambda>r. key r = key new) (\<lambda>_. new) rows)"
proof -
  assume "unique_by key rows"
  moreover have "map key (update_where (\<lambda>r. key r = key new) (\<lambda>_. new) rows) = map key rows"
    by (simp add: update_where_def)
  ultimately show ?thesis by (simp add: unique_by_def)
qed

lemma unique_by_upsert_const:
  "unique_by key rows \<Longrightarrow> unique_by key (upsert_row key new (\<lambda>_. new) rows)"
  by (simp add: upsert_row_def unique_by_replace_row)

lemma unique_by_insert_or_ignore: "unique_by key rows \<Longrightarrow> unique_by key (insert_or_ignore key new rows)"
  by (simp add: insert_or_ignore_def)

lemma set_insert_or_ignore:
  "set (insert_or_ignore key new rows) \<subseteq> insert new (set rows)"
  by (auto simp: insert_or_ignore_def)

section \<open>Well-formed stores\<close>

definition keys_ok :: "store_db \<Rightarrow> bool" where
  "keys_ok db \<longleftrightarrow>
     unique_by s_identity (st_sessions db) \<and> unique_by pl_token (st_pending db)
     \<and> unique_by lr_identity (st_reservations db) \<and> unique_by lb_token (st_bindings db)
     \<and> unique_by lo_key (st_live_owners db) \<and> unique_by ro_identity (st_recovery_owners db)
     \<and> unique_by ut_identity (st_untracked db) \<and> unique_by ev_id (st_events db)
     \<and> list_all (\<lambda>e. ev_id e \<le> st_last_event_id db) (st_events db)
     \<and> unique_by ob_key (st_observations db) \<and> unique_by ii_identity (st_interruptions db)
     \<and> unique_by ho_provider (st_hooks db)"

definition pending_name :: "pending_launch \<Rightarrow> provider \<times> string" where
  "pending_name p = (pl_provider p, to_ascii_lowercase (pl_name p))"

definition names_ok :: "store_db \<Rightarrow> bool" where
  "names_ok db \<longleftrightarrow> unique_by pending_name (st_pending db)"

definition quiet_session :: "session \<Rightarrow> bool" where
  "quiet_session s \<longleftrightarrow> s_status s = Parked \<and> \<not> s_unread s"

definition silent :: "store_db \<Rightarrow> provider \<times> string \<Rightarrow> bool" where
  "silent db k \<longleftrightarrow>
     (\<forall>s\<in>set (st_sessions db). s_identity s = k \<longrightarrow> quiet_session s)
     \<and> k \<notin> ev_identity ` set (st_events db) \<and> k \<notin> lo_identity ` set (st_live_owners db)"

definition untracked_silent :: "store_db \<Rightarrow> bool" where
  "untracked_silent db \<longleftrightarrow> (\<forall>r\<in>set (st_untracked db). silent db (ut_identity r))"

definition store_inv :: "store_db \<Rightarrow> bool" where
  "store_inv db \<longleftrightarrow> keys_ok db \<and> names_ok db \<and> untracked_silent db"

lemmas inv_defs = store_inv_def keys_ok_def names_ok_def untracked_silent_def silent_def

lemma store_inv_empty [simp]: "store_inv empty_store"
  by (simp add: inv_defs empty_store_def)
section \<open>Single statements keep a store well-formed\<close>

lemma inv_meta [simp]:
  "store_inv (db\<lparr>st_meta := m\<rparr>) = store_inv db"
  "store_inv (set_meta k v db) = store_inv db" "store_inv (delete_meta k db) = store_inv db"
  "store_inv (drop_receipts t db) = store_inv db" "store_inv (drop_launch_meta t db) = store_inv db"
  "store_inv (put_phase t ph db) = store_inv db"
  by (simp_all add: inv_defs set_meta_def delete_meta_def drop_receipts_def drop_launch_meta_def put_phase_def)

lemma inv_update_session:
  assumes "store_inv db" and "\<And>s. s_identity (f s) = s_identity s"
    and "\<And>s. quiet_session s \<Longrightarrow> quiet_session (f s)"
  shows "store_inv (update_session p i f db)"
  using assms by (auto simp: inv_defs update_session_def set_update_where)

lemma inv_observations:
  "store_inv db \<Longrightarrow> unique_by ob_key obs \<Longrightarrow> store_inv (db\<lparr>st_observations := obs\<rparr>)"
  by (simp add: inv_defs)

lemma inv_interruptions:
  "store_inv db \<Longrightarrow> unique_by ii_identity rows \<Longrightarrow> store_inv (db\<lparr>st_interruptions := rows\<rparr>)"
  by (simp add: inv_defs)

lemma inv_hooks: "store_inv db \<Longrightarrow> unique_by ho_provider rows \<Longrightarrow> store_inv (db\<lparr>st_hooks := rows\<rparr>)"
  by (simp add: inv_defs)

lemma inv_pending:
  "store_inv db \<Longrightarrow> unique_by pl_token rows \<Longrightarrow> unique_by pending_name rows \<Longrightarrow> store_inv (db\<lparr>st_pending := rows\<rparr>)"
  by (simp add: inv_defs)

lemma inv_reservations:
  "store_inv db \<Longrightarrow> unique_by lr_identity rows \<Longrightarrow> store_inv (db\<lparr>st_reservations := rows\<rparr>)"
  by (simp add: inv_defs)

lemma inv_bindings: "store_inv db \<Longrightarrow> unique_by lb_token rows \<Longrightarrow> store_inv (db\<lparr>st_bindings := rows\<rparr>)"
  by (simp add: inv_defs)

lemma inv_recovery:
  "store_inv db \<Longrightarrow> unique_by ro_identity rows \<Longrightarrow> store_inv (db\<lparr>st_recovery_owners := rows\<rparr>)"
  by (simp add: inv_defs)

lemma inv_remove_live_owners: "store_inv db \<Longrightarrow> store_inv (snd (remove_live_owners hit db))"
  by (auto simp: inv_defs remove_live_owners_def unique_by_delete_where)

lemma inv_unique:
  assumes "store_inv db"
  shows "unique_by s_identity (st_sessions db)" "unique_by pl_token (st_pending db)"
    "unique_by pending_name (st_pending db)" "unique_by lr_identity (st_reservations db)"
    "unique_by lb_token (st_bindings db)" "unique_by lo_key (st_live_owners db)"
    "unique_by ro_identity (st_recovery_owners db)" "unique_by ob_key (st_observations db)"
    "unique_by ii_identity (st_interruptions db)" "unique_by ho_provider (st_hooks db)"
    "unique_by ut_identity (st_untracked db)" "unique_by ev_id (st_events db)"
  using assms by (simp_all add: inv_defs)

lemma inv_drop_untracked: "store_inv db \<Longrightarrow> store_inv (drop_untracked p i db)"
  by (auto simp: inv_defs drop_untracked_def unique_by_delete_where)

lemma inv_delete_evidence: "store_inv db \<Longrightarrow> store_inv (delete_evidence p i db)"
  by (auto simp: inv_defs delete_evidence_def unique_by_delete_where list_all_iff)

lemma inv_delete_live_owner_rows: "store_inv db \<Longrightarrow> store_inv (delete_live_owner_rows p i db)"
  by (auto simp: inv_defs delete_live_owner_rows_def unique_by_delete_where)

lemma inv_remove_pending: "store_inv db \<Longrightarrow> store_inv (remove_pending token db)"
  unfolding remove_pending_def by (rule inv_pending) (simp_all add: unique_by_delete_where inv_unique)

lemma inv_update_pending:
  assumes "store_inv db" "\<And>p. pl_token (f p) = pl_token p" "\<And>p. pending_name (f p) = pending_name p"
  shows "store_inv (update_pending token f db)"
  unfolding update_pending_def using assms by (intro inv_pending) (simp_all add: inv_unique)

lemma inv_put_recovery_owner: "store_inv db \<Longrightarrow> store_inv (put_recovery_owner r db)"
  unfolding put_recovery_owner_def by (rule inv_recovery) (simp_all add: unique_by_upsert_const inv_unique)

lemma inv_read_observations: "store_inv db \<Longrightarrow> store_inv (read_observations hit db)"
  unfolding read_observations_def by (rule inv_observations) (simp_all add: inv_unique ob_key_def)

text \<open>Untracking silences the conversation; the order of its statements does not matter.\<close>

definition clean_session :: "f64 \<Rightarrow> provider \<Rightarrow> string \<Rightarrow> store_db \<Rightarrow> store_db" where
  "clean_session now p i db =
     update_session p i (park_session now) (delete_live_owner_rows p i (delete_evidence p i db))"

lemma untrack_session_eq:
  "untrack_session now p i db = put_untracked now p i (delete_meta (provider_hidden_key p i) (clean_session now p i db))"
  by (simp add: untrack_session_def put_untracked_def delete_meta_def clean_session_def update_session_def
      delete_live_owner_rows_def delete_evidence_def)

lemma hide_provider_session_eq:
  "hide_provider_session now p i state db
   = put_untracked now p i (set_meta (provider_hidden_key p i) state (clean_session now p i db))"
  by (simp add: hide_provider_session_def put_untracked_def set_meta_def clean_session_def update_session_def
      delete_live_owner_rows_def delete_evidence_def)

lemma inv_clean_session: "store_inv db \<Longrightarrow> store_inv (clean_session now p i db)"
  unfolding clean_session_def
  by (intro inv_update_session inv_delete_live_owner_rows inv_delete_evidence)
    (simp_all add: park_session_def s_identity_def quiet_session_def)

lemma clean_session_tables:
  "st_sessions (clean_session now p i db) =
     update_where (\<lambda>s. s_identity s = (p, i)) (park_session now) (st_sessions db)"
  "st_events (clean_session now p i db) = delete_where (\<lambda>r. ev_identity r = (p, i)) (st_events db)"
  "st_live_owners (clean_session now p i db) = delete_where (\<lambda>r. lo_identity r = (p, i)) (st_live_owners db)"
  by (simp_all add: clean_session_def update_session_def delete_live_owner_rows_def delete_evidence_def)

lemma park_session_quiet [simp]:
  "quiet_session (park_session now s)" "s_identity (park_session now s) = s_identity s"
  by (simp_all add: quiet_session_def park_session_def s_identity_def)

lemma silent_clean_session: "silent (clean_session now p i db) (p, i)"
  unfolding silent_def clean_session_tables set_update_where set_delete_where by auto

lemma ut_ids_put_untracked:
  "ut_identity ` set (st_untracked (put_untracked now p i db)) = insert (p, i) (ut_identity ` set (st_untracked db))"
proof -
  have "ut_identity (r\<lparr>ut_untracked_at := now\<rparr>) = ut_identity r" for r by (simp add: ut_identity_def)
  then show ?thesis by (simp add: put_untracked_def key_upsert_row) (simp add: ut_identity_def)
qed

lemma inv_put_untracked:
  assumes "store_inv db" and "silent db (p, i)"
  shows "store_inv (put_untracked now p i db)"
proof -
  have "silent (put_untracked now p i db) k" if "k \<in> ut_identity ` set (st_untracked (put_untracked now p i db))" for k
    using that assms unfolding ut_ids_put_untracked
    by (auto simp: store_inv_def untracked_silent_def silent_def put_untracked_def)
  moreover have "keys_ok (put_untracked now p i db)" "names_ok (put_untracked now p i db)"
    using assms by (simp_all add: inv_defs put_untracked_def unique_by_upsert_row ut_identity_def)
  ultimately show ?thesis by (auto simp: store_inv_def untracked_silent_def)
qed

lemma silent_meta [simp]:
  "silent (set_meta k v db) = silent db" "silent (delete_meta k db) = silent db"
  by (simp_all add: silent_def set_meta_def delete_meta_def fun_eq_iff)

lemma inv_untrack_session: "store_inv db \<Longrightarrow> store_inv (untrack_session now p i db)"
  by (simp add: untrack_session_eq inv_put_untracked inv_clean_session silent_clean_session)

lemma inv_hide_provider_session: "store_inv db \<Longrightarrow> store_inv (hide_provider_session now p i state db)"
  by (simp add: hide_provider_session_eq inv_put_untracked inv_clean_session silent_clean_session)
section \<open>Writing a conversation\<close>

lemma is_untracked_iff: "is_untracked db (fst k) (snd k) \<longleftrightarrow> k \<in> ut_identity ` set (st_untracked db)"
  by (simp add: is_untracked_def)

lemma untracked_silentI:
  "(\<And>k. k \<in> ut_identity ` set (st_untracked db) \<Longrightarrow> silent db k) \<Longrightarrow> untracked_silent db"
  by (auto simp: untracked_silent_def)

lemma untracked_silentD:
  "store_inv db \<Longrightarrow> k \<in> ut_identity ` set (st_untracked db) \<Longrightarrow> silent db k"
  by (auto simp: store_inv_def untracked_silent_def)

lemma merge_session_identity [simp]: "s_identity (merge_session new old) = s_identity old"
  by (simp add: s_identity_def merge_session_def)

lemma inv_upsert_session_row:
  assumes inv: "store_inv db" and new: "s_identity new \<notin> ut_identity ` set (st_untracked db)"
    and merge: "\<And>s. s_identity (merge s) = s_identity s"
  shows "store_inv (db\<lparr>st_sessions := upsert_row s_identity new merge (st_sessions db)\<rparr>)" (is "store_inv ?db")
proof -
  have "silent ?db k" if "k \<in> ut_identity ` set (st_untracked ?db)" for k
  proof -
    have k: "k \<in> ut_identity ` set (st_untracked db)" using that by simp
    then have "k \<noteq> s_identity new" using new by blast
    then show ?thesis using untracked_silentD [OF inv k]
      by (auto simp: silent_def upsert_row_def set_update_where merge split: if_splits)
  qed
  moreover have "keys_ok ?db" "names_ok ?db"
    using inv by (simp_all add: inv_defs unique_by_upsert_row merge)
  ultimately show ?thesis by (metis store_inv_def untracked_silentI)
qed

lemma inv_insert_session_event:
  assumes inv: "store_inv db" and new: "s_identity s \<notin> ut_identity ` set (st_untracked db)"
  shows "store_inv (insert_session_event s t db)" (is "store_inv ?db")
proof -
  have "silent ?db k" if k: "k \<in> ut_identity ` set (st_untracked db)" for k
  proof -
    from k new have "k \<noteq> s_identity s" by blast
    then show ?thesis using untracked_silentD [OF inv k]
      by (auto simp: silent_def insert_session_event_def Let_def ev_identity_def s_identity_def)
  qed
  moreover have "st_untracked ?db = st_untracked db" by (simp add: insert_session_event_def Let_def)
  moreover have "names_ok ?db" using inv by (simp add: inv_defs insert_session_event_def Let_def)
  moreover have "keys_ok ?db"
    using inv by (fastforce simp: inv_defs insert_session_event_def Let_def list_all_iff)
  ultimately show ?thesis by (metis store_inv_def untracked_silentI)
qed

lemma refresh_interruption_tables [simp]:
  "st_sessions (refresh_interruption s t db) = st_sessions db"
  "st_untracked (refresh_interruption s t db) = st_untracked db"
  "st_events (refresh_interruption s t db) = st_events db"
  "st_observations (refresh_interruption s t db) = st_observations db"
  by (simp_all add: refresh_interruption_def)

lemma inv_refresh_interruption: "store_inv db \<Longrightarrow> store_inv (refresh_interruption s t db)"
  by (auto simp: refresh_interruption_def ii_identity_def inv_unique intro!: inv_interruptions)

text \<open>What a successful write of a tracked conversation is made of.\<close>

definition written_row :: "f64 \<Rightarrow> session \<Rightarrow> bool \<Rightarrow> store_db \<Rightarrow> session" where
  "written_row now s keep db =
     (stored_session s)\<lparr> s_name := kept_name (get_session db (s_provider s) (s_session_id s)) s keep,
        s_created_at := nonzero_or (s_created_at s) now, s_updated_at := now,
        s_last_event_at := nonzero_or (s_last_event_at s) now,
        s_last_activity_at := nonzero_or (s_last_activity_at s) (nonzero_or (s_updated_at s) now) \<rparr>"

definition written_store :: "f64 \<Rightarrow> session \<Rightarrow> bool \<Rightarrow> store_db \<Rightarrow> store_db" where
  "written_store now s keep db =
     (let event = nonzero_or (s_last_event_at s) now; db1 = refresh_interruption s event db;
          db2 = db1\<lparr>st_sessions := upsert_row s_identity (written_row now s keep db)
                     (merge_session (written_row now s keep db)) (st_sessions db1)\<rparr> in
      db2\<lparr>st_observations := insert_or_ignore ob_key (initial_observation s event) (st_observations db2)\<rparr>)"

lemma written_row_identity [simp]: "s_identity (written_row now s keep db) = s_identity s"
  by (simp add: written_row_def s_identity_def stored_session_def)

lemma upsert_session_Inr:
  "upsert_session now s keep db = Inr (b, db') \<longleftrightarrow>
     (if is_untracked db (s_provider s) (s_session_id s) then \<not> b \<and> db' = db
      else b \<and> \<not> f64_is_nan (nonzero_or (s_created_at s) now) \<and> \<not> f64_is_nan (nonzero_or (s_last_event_at s) now)
           \<and> \<not> f64_is_nan (nonzero_or (s_last_activity_at s) (nonzero_or (s_updated_at s) now))
           \<and> db' = (if became_actionable (get_session db (s_provider s) (s_session_id s)) s
                     then insert_session_event s (nonzero_or (s_last_event_at s) now) (written_store now s keep db)
                     else written_store now s keep db))"
  by (auto simp: upsert_session_def Let_def rbind_Inr_iff written_store_def written_row_def)

lemma inv_written_store:
  assumes "store_inv db" and "\<not> is_untracked db (s_provider s) (s_session_id s)"
  shows "store_inv (written_store now s keep db)"
proof -
  have new: "s_identity s \<notin> ut_identity ` set (st_untracked db)"
    using assms(2) by (simp add: is_untracked_def s_identity_def)
  let ?db1 = "refresh_interruption s (nonzero_or (s_last_event_at s) now) db"
  let ?row = "written_row now s keep db"
  have "store_inv (?db1\<lparr>st_sessions := upsert_row s_identity ?row (merge_session ?row) (st_sessions ?db1)\<rparr>)"
    by (rule inv_upsert_session_row) (simp_all add: inv_refresh_interruption assms(1) new)
  then show ?thesis unfolding written_store_def Let_def
    by (intro inv_observations unique_by_insert_or_ignore) (auto dest: inv_unique)
qed

lemma st_untracked_written_store [simp]: "st_untracked (written_store now s keep db) = st_untracked db"
  by (simp add: written_store_def Let_def)

lemma inv_upsert_session:
  "store_inv db \<Longrightarrow> upsert_session now s keep db = Inr (b, db') \<Longrightarrow> store_inv db'"
  by (auto simp: upsert_session_Inr is_untracked_def s_identity_def inv_written_store
      intro!: inv_insert_session_event split: if_splits)

section \<open>Every operation keeps a store well-formed\<close>

lemma inv_session_step:
  assumes "store_inv db" and "session_step se op db = Inr db'"
  shows "store_inv db'"
proof (cases op)
  case (Upsert now s keep)
  with assms show ?thesis by (auto simp: checked_Inr intro: inv_upsert_session)
next
  case (Clear_runtime p i t)
  with assms show ?thesis
    by (auto simp: checked_Inr clear_session_runtime_def rbind_Inr_iff s_identity_def quiet_session_def
        intro!: inv_update_session split: if_splits)
next
  case (Clear_shared_pid p i n)
  with assms show ?thesis
    by (auto simp: clear_shared_root_pid_def s_identity_def quiet_session_def
        intro!: inv_update_session split: option.splits)
next
  case (Clear_home p i t)
  with assms show ?thesis
    by (auto simp: checked_Inr clear_session_home_def rbind_Inr_iff s_identity_def quiet_session_def
        intro!: inv_update_session split: if_splits)
next
  case (Untrack now p i)
  with assms show ?thesis by (auto simp: inv_untrack_session)
next
  case (Restore_tracking p i)
  with assms show ?thesis by (auto simp: restore_tracking_def inv_drop_untracked)
next
  case (Hide_provider now p i state)
  with assms show ?thesis by (auto simp: inv_hide_provider_session)
next
  case (Restore_provider p i)
  with assms show ?thesis by (auto simp: restore_provider_session_def inv_drop_untracked)
next
  case (Adopt now c)
  let ?p = "s_provider c" and ?i = "s_session_id c"
  let ?db = "set_meta (tracking_choice_key ?p ?i) ''explicit-selection''
    (delete_meta (provider_hidden_key ?p ?i) (drop_untracked ?p ?i db))"
  have db: "store_inv ?db" using assms(1) by (simp add: inv_drop_untracked)
  have "adopt_session now c db = Inr (b, db') \<Longrightarrow> store_inv db'" for b
    using inv_upsert_session [OF db, of now c False b db'] inv_update_session [OF db, of "adopted_metadata c" ?p ?i]
    by (auto simp: adopt_session_def Let_def adopted_metadata_def s_identity_def quiet_session_def
        simp del: inv_meta split: option.splits if_splits)
  with assms(2) Adopt show ?thesis by (auto simp: checked_Inr)
next
  case (Watch_named now c)
  with assms show ?thesis
    by (auto simp: checked_Inr watch_named_session_def Let_def rbind_Inr_iff intro: inv_upsert_session
        split: if_splits)
next
  case (Delete_session p i keep)
  let ?db = "if keep then delete_evidence p i db else delete_live_owner_rows p i (delete_evidence p i db)"
  have "store_inv ?db" using assms by (simp add: inv_delete_evidence inv_delete_live_owner_rows)
  then have "store_inv (?db\<lparr>st_sessions := delete_where (\<lambda>s. s_identity s = (p, i)) (st_sessions ?db)\<rparr>)"
    unfolding inv_defs by (auto simp: unique_by_delete_where)
  with assms Delete_session show ?thesis by (auto simp: delete_session_def Let_def)
qed
lemma ob_key_read [simp]: "ob_key (r\<lparr>ob_observation := (ob_observation r)\<lparr>o_unread := False\<rparr>\<rparr>) = ob_key r"
  by (simp add: ob_key_def)

lemma inv_read_session:
  "store_inv db \<Longrightarrow> store_inv (update_session p i (\<lambda>s. s\<lparr>s_unread := False, s_updated_at := now\<rparr>) db)"
  by (rule inv_update_session) (simp_all add: s_identity_def quiet_session_def)

lemma inv_record_status_observation:
  assumes "store_inv db" and "record_status_observation p i ob db = Inr (b, db')"
  shows "store_inv db'"
proof -
  let ?row = "\<lparr> ob_provider = p, ob_session_id = i, ob_observation = ob \<rparr>"
  have "db' = db \<or> db' = db\<lparr>st_observations := st_observations db @ [?row]\<rparr> \<and> ob_key ?row \<notin> ob_key ` set (st_observations db)
        \<or> db' = db\<lparr>st_observations := update_where (\<lambda>r. ob_key r = ob_key ?row) (\<lambda>_. ?row) (st_observations db)\<rparr>"
    using assms(2) by (auto simp: record_status_observation_def Let_def rbind_Inr_iff row_by_None split: option.splits if_splits)
  then show ?thesis
    using assms(1) inv_observations [OF assms(1)] inv_unique(8) [OF assms(1)]
      unique_by_replace_row [of ob_key "st_observations db" ?row]
    by (elim disjE conjE) simp_all
qed

lemma inv_legacy_attach: "store_inv db \<Longrightarrow> store_inv (legacy_attach env encoded db)"
  by (simp add: legacy_attach_def split: option.splits prod.splits sum.splits)

lemma inv_record_attach: "store_inv db \<Longrightarrow> store_inv (record_attach env p i db)"
  by (simp add: record_attach_def Let_def inv_legacy_attach split: option.splits)

lemma inv_record_hook:
  assumes "store_inv db" and "record_hook_observation ob db = Inr db'"
  shows "store_inv db'"
proof -
  have "db' = db \<or> db' = db\<lparr>st_hooks := st_hooks db @ [ob]\<rparr> \<and> ho_provider ob \<notin> ho_provider ` set (st_hooks db)
        \<or> db' = db\<lparr>st_hooks := update_where (\<lambda>r. ho_provider r = ho_provider ob) (\<lambda>_. ob) (st_hooks db)\<rparr>"
    using assms(2) by (auto simp: record_hook_observation_def rbind_Inr_iff row_by_None split: option.splits if_splits)
  then show ?thesis
    using assms(1) inv_hooks [OF assms(1)] inv_unique(10) [OF assms(1)]
      unique_by_replace_row [of ho_provider "st_hooks db" ob]
    by (elim disjE conjE) simp_all
qed

lemma inv_capture_interruption: "store_inv db \<Longrightarrow> store_inv (capture_identity_interruption p i db)"
  by (auto simp: capture_identity_interruption_def inv_defs unique_by_insert_or_ignore split: option.splits)

lemma inv_acknowledge: "store_inv db \<Longrightarrow> store_inv (snd (acknowledge_attention now p i t attaching db))"
  by (simp add: acknowledge_attention_def inv_read_observations inv_read_session split: option.splits)

lemma inv_collect: "store_inv db \<Longrightarrow> store_inv (snd (collect_result now p i t db))"
  by (simp add: collect_result_def Let_def inv_read_observations inv_read_session split: option.splits)

lemma inv_clear_observation: "store_inv db \<Longrightarrow> store_inv (db\<lparr>st_observations := delete_where hit (st_observations db)\<rparr>)"
  by (intro inv_observations) (simp_all add: unique_by_delete_where inv_unique)

lemma inv_evidence_step:
  assumes "store_inv db" and "evidence_step se op db = Inr db'"
  shows "store_inv db'"
  using assms
  by (cases op)
    (auto simp: checked_Inr clear_status_observation_def clear_status_observation_observed_through_def Let_def
      clear_identity_interruption_def inv_clear_observation inv_acknowledge inv_collect inv_capture_interruption
      inv_record_attach unique_by_delete_where inv_unique
      intro: inv_record_status_observation inv_record_hook intro!: inv_interruptions)

section \<open>Launches\<close>

lemma pending_name_competing:
  "pending_name a = pending_name b \<longleftrightarrow>
     pl_provider b = pl_provider a \<and> eq_ignore_ascii_case (pl_name b) (pl_name a)"
  by (auto simp: pending_name_def eq_ignore_ascii_case_def)

lemma merge_pending_keys [simp]:
  "pl_token (merge_pending new old) = pl_token old" "pending_name (merge_pending new old) = pending_name old"
  by (simp_all add: merge_pending_def pending_name_def)

lemma inv_add_pending:
  assumes inv: "store_inv db" and step: "add_pending now p db = Inr (b, db')"
  shows "store_inv db'"
proof (cases "list_ex (competing_launch p) (st_pending db)")
  case True
  with inv step show ?thesis by (simp add: add_pending_def)
next
  case False
  define new where "new = p\<lparr> pl_candidate_observed_at := Option.bind (pl_candidate_observed_at p) nullable_real,
                             pl_created_at := nonzero_or (pl_created_at p) now \<rparr>"
  let ?rows = "upsert_row pl_token new (merge_pending new) (st_pending db)"
  have tokens: "unique_by pl_token ?rows" by (simp add: unique_by_upsert_row inv_unique inv)
  have free: "pending_name r \<noteq> pending_name new" if "r \<in> set (st_pending db)" "pl_token r \<noteq> pl_token new" for r
    using False that by (auto simp: new_def list_ex_iff competing_launch_def pending_name_def eq_ignore_ascii_case_def)
  have names: "unique_by pending_name ?rows"
  proof (cases "pl_token new \<in> pl_token ` set (st_pending db)")
    case True
    then show ?thesis by (simp add: upsert_row_def inv_unique inv)
  next
    case nofree: False
    have "pending_name new \<notin> pending_name ` set (st_pending db)"
    proof
      assume "pending_name new \<in> pending_name ` set (st_pending db)"
      then obtain r where "r \<in> set (st_pending db)" "pending_name r = pending_name new" by force
      moreover from nofree this(1) have "pl_token r \<noteq> pl_token new" by (metis imageI)
      ultimately show False using free by blast
    qed
    with nofree show ?thesis by (simp add: upsert_row_def inv_unique inv)
  qed
  from step False have "db' = drop_receipts (pl_token p) (put_phase (pl_token p) Reserved (db\<lparr>st_pending := ?rows\<rparr>))"
    by (auto simp: add_pending_def Let_def rbind_Inr_iff new_def)
  with inv_pending [OF inv tokens names] show ?thesis by simp
qed

lemma inv_prune_pending:
  assumes "store_inv db"
  shows "store_inv (snd (prune_pending a b db))"
proof -
  have fold: "store_inv d \<Longrightarrow> store_inv (fold (\<lambda>p. drop_launch_meta (pl_token p)) ps d)" for ps d
    by (induction ps arbitrary: d) simp_all
  have "store_inv (db\<lparr>st_pending := delete_where (\<lambda>p. f64_lt (pl_created_at p) a) (st_pending db)\<rparr>)"
    using assms by (intro inv_pending) (simp_all add: unique_by_delete_where inv_unique)
  then have "store_inv (fold (\<lambda>p. drop_launch_meta (pl_token p)) (filter (\<lambda>p. f64_lt (pl_created_at p) a) (st_pending db))
      (db\<lparr>st_pending := delete_where (\<lambda>p. f64_lt (pl_created_at p) a) (st_pending db)\<rparr>))" by (rule fold)
  then show ?thesis by (simp add: prune_pending_def Let_def inv_bindings unique_by_delete_where inv_unique)
qed

lemma inv_launch_step:
  assumes "store_inv db" and "launch_step le op db = Inr db'"
  shows "store_inv db'"
proof (cases op)
  case (Add_pending now p)
  with assms show ?thesis by (auto simp: checked_Inr intro: inv_add_pending)
next
  case (Prune a b)
  with assms show ?thesis by (simp add: inv_prune_pending)
next
  case (Retire now snapshot reason)
  with assms show ?thesis
    by (auto simp: retire_pending_if_unchanged_def Let_def inv_remove_pending split: option.splits)
next
  case (Record_exit token p reported owner code t)
  with assms show ?thesis by (auto simp: record_pending_launch_exit_def Let_def split: option.splits if_splits)
next
  case (Register_wrapper token owner)
  with assms show ?thesis by (auto simp: register_pending_wrapper_owner_def Let_def split: option.splits if_splits)
qed (use assms in \<open>auto simp: hide_pending_def delete_pending_def delete_pending_if_created_def
      observe_pending_candidate_def finalize_pending_pane_def set_launch_phase_def observe_launched_generation_def
      inv_remove_pending pending_name_def intro!: inv_update_pending split: option.splits if_splits\<close>)
section \<open>Bindings, reservations and owners\<close>

lemma launch_binding_of_None: "launch_binding_of db token = None \<longleftrightarrow> token \<notin> lb_token ` set (st_bindings db)"
  by (simp add: launch_binding_of_def row_by_None)

lemma inv_certify: "store_inv db \<Longrightarrow> store_inv (snd (certify_launch now token p i pid start db))"
  by (simp add: certify_launch_def inv_remove_pending inv_put_recovery_owner split: option.splits)

lemma inv_delete_recovery: "store_inv db \<Longrightarrow> store_inv (snd (delete_recovery_owner p i db))"
  by (simp add: delete_recovery_owner_def inv_recovery unique_by_delete_where inv_unique)

lemma inv_binding_step:
  assumes "store_inv db" and "binding_step op db = Inr db'"
  shows "store_inv db'"
proof (cases op)
  case (Recover_confirmed now token s pid start)
  have "store_inv (update_pending token (\<lambda>p. p\<lparr>pl_root_pid := Some pid, pl_root_pid_start := Some start\<rparr>) db)"
    using assms(1) by (rule inv_update_pending) (simp_all add: pending_name_def)
  with assms Recover_confirmed show ?thesis
    by (auto simp: recover_confirmed_launch_def inv_certify split: option.splits)
next
  case (Switch_binding now token p a b pid start)
  have "store_inv (db\<lparr>st_bindings := update_where (\<lambda>r. lb_token r = token \<and> lb_identity r = (p, a))
          (\<lambda>r. r\<lparr>lb_session_id := b, lb_created_at := now\<rparr>) (st_bindings db)\<rparr>)"
    using assms(1) by (intro inv_bindings) (simp_all add: inv_unique)
  with assms Switch_binding show ?thesis
    by (auto simp: switch_launch_binding_def Let_def inv_put_recovery_owner inv_delete_recovery)
next
  case (Bind now token p i)
  with assms show ?thesis
    by (auto simp: bind_launch_def launch_binding_of_None inv_unique intro!: inv_bindings split: option.splits)
next
  case (Set_recovery r)
  with assms show ?thesis by (auto simp: set_recovery_owner_def rbind_Inr_iff inv_put_recovery_owner)
qed (use assms in \<open>auto simp: delete_launch_binding_def delete_launch_binding_if_def inv_certify
      inv_delete_recovery unique_by_delete_where inv_unique intro!: inv_bindings\<close>)

lemma inv_replace_reservation: "store_inv db \<Longrightarrow> store_inv (snd (replace_reservation hit new db))"
  by (auto simp: replace_reservation_def Let_def unique_by_delete_where inv_unique intro!: inv_reservations)

lemma revoke_each_subset: "revoke_each xs rows = Some kept \<Longrightarrow> \<exists>p. kept = delete_where p rows"
proof (induction xs arbitrary: rows)
  case Nil
  then have "kept = delete_where (\<lambda>_. False) rows" by (simp add: delete_where_def)
  then show ?case by blast
next
  case (Cons x xs)
  then obtain p where "kept = delete_where p (delete_where (same_owner x) rows)"
    by (auto split: if_splits)
  then have "kept = delete_where (\<lambda>r. same_owner x r \<or> p r) rows" by (simp add: delete_where_def)
  then show ?case by blast
qed

lemma inv_delete_live_owners_where:
  "store_inv db \<Longrightarrow> store_inv (db\<lparr>st_live_owners := delete_where hit (st_live_owners db)\<rparr>)"
  using inv_remove_live_owners [of db hit] by (simp add: remove_live_owners_def)

lemma inv_revoke: "store_inv db \<Longrightarrow> store_inv (snd (revoke_live_owners_if_exact p i expected db))"
  by (auto simp: revoke_live_owners_if_exact_def inv_delete_live_owners_where
      dest!: revoke_each_subset split: option.splits)

lemma inv_set_live_owner:
  assumes inv: "store_inv db" and step: "set_live_owner owner db = Inr (b, db')"
  shows "store_inv db'"
proof (cases "db' = db")
  case True
  with inv show ?thesis by simp
next
  case False
  define rows where "rows = st_live_owners db'"
  have new: "lo_identity owner \<notin> ut_identity ` set (st_untracked db)"
    using step False by (auto simp: set_live_owner_def is_untracked_def lo_identity_def split: if_splits)
  have rows: "db' = db\<lparr>st_live_owners := rows\<rparr>" "unique_by lo_key rows"
      "lo_identity ` set rows \<subseteq> insert (lo_identity owner) (lo_identity ` set (st_live_owners db))"
    using step False inv_unique(6) [OF inv]
    by (auto simp: set_live_owner_def rbind_Inr_iff rows_def row_by_None set_update_where lo_identity_def lo_key_def
        split: if_splits option.splits)
  have "silent db' k" if k: "k \<in> ut_identity ` set (st_untracked db)" for k
  proof -
    from k new have "k \<noteq> lo_identity owner" by blast
    with untracked_silentD [OF inv k] rows show ?thesis by (auto simp: silent_def)
  qed
  moreover have "keys_ok db'" "names_ok db'" using inv rows by (simp_all add: inv_defs)
  moreover have "st_untracked db' = st_untracked db" using rows(1) by simp
  ultimately show ?thesis by (metis store_inv_def untracked_silentI)
qed

lemma inv_owner_step:
  assumes "store_inv db" and "owner_step op db = Inr db'"
  shows "store_inv db'"
  using assms
  by (cases op)
    (auto simp: checked_Inr reserve_resume_def reclaim_resume_def reclaim_resume_if_generation_def
      release_resume_if_generation_def release_resume_def delete_live_owners_def
      delete_live_owners_observed_through_def delete_other_live_owner_sessions_def delete_live_owner_generation_def
      inv_replace_reservation inv_remove_live_owners inv_revoke Let_def
      unique_by_insert_or_ignore unique_by_delete_where inv_unique
      intro: inv_set_live_owner intro!: inv_reservations)

lemma inv_store_step:
  assumes "store_inv db" and "store_step se le op db = Inr db'"
  shows "store_inv db'"
  using assms by (cases op)
    (auto intro: inv_session_step inv_evidence_step inv_launch_step inv_binding_step inv_owner_step)

interpretation store: guarded_machine "store_step se le" store_inv for se le
  by unfold_locales (rule inv_store_step)

end
