(* ===== verification/Store_Laws.thy ===== *)
theory Store_Laws
  imports Store_Machine
begin

text \<open>
  What the session store promises: its tables stay well-formed, an untracked conversation stays
  untracked and silent until it is selected again, a reserved resume excludes every other, the
  binding of a launch and its exit receipt do not change behind the caller, an acknowledgement
  never clears a newer result, and a write of a conversation forgets nothing that is known.
\<close>

section \<open>Which tables a step touches\<close>

lemma meta_frame [simp]:
  "st_sessions (set_meta k v db) = st_sessions db" "st_sessions (delete_meta k db) = st_sessions db"
  "st_untracked (set_meta k v db) = st_untracked db" "st_untracked (delete_meta k db) = st_untracked db"
  "st_reservations (set_meta k v db) = st_reservations db" "st_reservations (delete_meta k db) = st_reservations db"
  "st_bindings (set_meta k v db) = st_bindings db" "st_bindings (delete_meta k db) = st_bindings db"
  "st_pending (set_meta k v db) = st_pending db" "st_pending (delete_meta k db) = st_pending db"
  by (simp_all add: set_meta_def delete_meta_def)

lemma launch_meta_frame [simp]:
  "st_untracked (drop_receipts t db) = st_untracked db" "st_untracked (drop_launch_meta t db) = st_untracked db"
  "st_untracked (put_phase t ph db) = st_untracked db"
  "st_reservations (drop_receipts t db) = st_reservations db" "st_reservations (drop_launch_meta t db) = st_reservations db"
  "st_reservations (put_phase t ph db) = st_reservations db"
  "st_bindings (drop_receipts t db) = st_bindings db" "st_bindings (drop_launch_meta t db) = st_bindings db"
  "st_bindings (put_phase t ph db) = st_bindings db"
  "st_pending (drop_receipts t db) = st_pending db" "st_pending (drop_launch_meta t db) = st_pending db"
  "st_pending (put_phase t ph db) = st_pending db"
  by (simp_all add: drop_receipts_def drop_launch_meta_def put_phase_def)

lemma block_frame [simp]:
  "st_untracked (update_session p i f db) = st_untracked db"
  "st_reservations (update_session p i f db) = st_reservations db"
  "st_bindings (update_session p i f db) = st_bindings db"
  "st_untracked (delete_live_owner_rows p i db) = st_untracked db"
  "st_reservations (delete_live_owner_rows p i db) = st_reservations db"
  "st_bindings (delete_live_owner_rows p i db) = st_bindings db"
  "st_untracked (delete_evidence p i db) = st_untracked db"
  "st_reservations (delete_evidence p i db) = delete_where (\<lambda>r. lr_identity r = (p, i)) (st_reservations db)"
  "st_bindings (delete_evidence p i db) = delete_where (\<lambda>r. lb_identity r = (p, i)) (st_bindings db)"
  "st_reservations (put_untracked now p i db) = st_reservations db"
  "st_bindings (put_untracked now p i db) = st_bindings db"
  "st_reservations (drop_untracked p i db) = st_reservations db"
  "st_bindings (drop_untracked p i db) = st_bindings db"
  "st_untracked (drop_untracked p i db) = delete_where (\<lambda>r. ut_identity r = (p, i)) (st_untracked db)"
  "st_untracked (read_observations h db) = st_untracked db"
  "st_reservations (read_observations h db) = st_reservations db"
  "st_bindings (read_observations h db) = st_bindings db"
  "st_untracked (insert_session_event s t db) = st_untracked db"
  "st_reservations (insert_session_event s t db) = st_reservations db"
  "st_bindings (insert_session_event s t db) = st_bindings db"
  "st_reservations (written_store now s keep db) = st_reservations db"
  "st_bindings (written_store now s keep db) = st_bindings db"
  "st_untracked (remove_pending tok db) = st_untracked db"
  "st_reservations (remove_pending tok db) = st_reservations db"
  "st_bindings (remove_pending tok db) = st_bindings db"
  "st_untracked (update_pending tok g db) = st_untracked db"
  "st_reservations (update_pending tok g db) = st_reservations db"
  "st_bindings (update_pending tok g db) = st_bindings db"
  "st_untracked (put_recovery_owner r db) = st_untracked db"
  "st_reservations (put_recovery_owner r db) = st_reservations db"
  "st_bindings (put_recovery_owner r db) = st_bindings db"
  "st_pending (put_recovery_owner r db) = st_pending db"
  by (simp_all add: update_session_def delete_live_owner_rows_def delete_evidence_def put_untracked_def
      drop_untracked_def read_observations_def insert_session_event_def written_store_def refresh_interruption_def
      remove_pending_def update_pending_def put_recovery_owner_def Let_def)

definition same_choices :: "store_db \<Rightarrow> store_db \<Rightarrow> bool" where
  "same_choices a b \<longleftrightarrow>
     st_untracked b = st_untracked a \<and> st_reservations b = st_reservations a \<and> st_bindings b = st_bindings a"

lemma same_choices_refl [simp]: "same_choices db db"
  by (simp add: same_choices_def)

lemma upsert_frame: "upsert_session now s keep db = Inr (b, db') \<Longrightarrow> same_choices db db'"
  by (auto simp: upsert_session_Inr same_choices_def split: if_splits)

lemma evidence_frame: "evidence_step se op db = Inr db' \<Longrightarrow> same_choices db db'"
  by (cases op)
    (auto simp: checked_Inr same_choices_def record_status_observation_def clear_status_observation_def
      clear_status_observation_observed_through_def acknowledge_attention_def collect_result_def
      capture_identity_interruption_def clear_identity_interruption_def record_attach_def legacy_attach_def
      record_hook_observation_def Let_def rbind_Inr_iff
      split: option.splits if_splits prod.splits sum.splits)
lemma fold_drop_frame:
  "st_untracked (fold (\<lambda>p. drop_launch_meta (pl_token p)) ps db) = st_untracked db"
  "st_reservations (fold (\<lambda>p. drop_launch_meta (pl_token p)) ps db) = st_reservations db"
  "st_bindings (fold (\<lambda>p. drop_launch_meta (pl_token p)) ps db) = st_bindings db"
  by (induction ps arbitrary: db) simp_all

lemma launch_frame:
  assumes "launch_step le op db = Inr db'"
  shows "st_untracked db' = st_untracked db \<and> st_reservations db' = st_reservations db
         \<and> ((\<forall>a b. op \<noteq> Prune a b) \<longrightarrow> st_bindings db' = st_bindings db)"
  using assms
  by (cases op)
    (auto simp: checked_Inr add_pending_def hide_pending_def delete_pending_def delete_pending_if_created_def
      observe_pending_candidate_def finalize_pending_pane_def set_launch_phase_def observe_launched_generation_def
      prune_pending_def fold_drop_frame register_pending_wrapper_owner_def record_pending_launch_exit_def
      retire_pending_if_unchanged_def Let_def rbind_Inr_iff
      split: option.splits if_splits)

lemma binding_frame:
  "binding_step op db = Inr db' \<Longrightarrow> st_untracked db' = st_untracked db \<and> st_reservations db' = st_reservations db"
  by (cases op)
    (auto simp: bind_launch_def delete_launch_binding_def delete_launch_binding_if_def set_recovery_owner_def
      delete_recovery_owner_def certify_launch_def recover_confirmed_launch_def switch_launch_binding_def
      Let_def rbind_Inr_iff split: option.splits if_splits)

lemma owner_frame:
  "owner_step op db = Inr db' \<Longrightarrow> st_untracked db' = st_untracked db \<and> st_bindings db' = st_bindings db"
  by (cases op)
    (auto simp: checked_Inr reserve_resume_def reclaim_resume_def reclaim_resume_if_generation_def
      replace_reservation_def release_resume_if_generation_def release_resume_def set_live_owner_def
      revoke_live_owners_if_exact_def delete_live_owners_def delete_live_owners_observed_through_def
      delete_other_live_owner_sessions_def delete_live_owner_generation_def remove_live_owners_def
      Let_def rbind_Inr_iff split: option.splits if_splits)

text \<open>Which session operations name a conversation in the tables of choices.\<close>

fun restores :: "provider \<times> string \<Rightarrow> store_op \<Rightarrow> bool" where
  "restores k (Session_op (Restore_tracking p i)) = (k = (p, i))"
| "restores k (Session_op (Restore_provider p i)) = (k = (p, i))"
| "restores k (Session_op (Adopt now c)) = (k = s_identity c)"
| "restores k _ = False"

fun forgets :: "provider \<times> string \<Rightarrow> store_op \<Rightarrow> bool" where
  "forgets k (Session_op (Untrack now p i)) = (k = (p, i))"
| "forgets k (Session_op (Hide_provider now p i state)) = (k = (p, i))"
| "forgets k (Session_op (Delete_session p i keep)) = (k = (p, i))"
| "forgets k _ = False"

lemma put_untracked_keeps: "set (map ut_identity (st_untracked db)) \<subseteq> set (map ut_identity (st_untracked (put_untracked now p i db)))"
  using ut_ids_put_untracked [of now p i db] by auto

lemma session_frame_same:
  assumes "session_step se op db = Inr db'"
    and "\<not> forgets k (Session_op op)"
  shows "(\<forall>now p i. op \<noteq> Untrack now p i) \<and> (\<forall>now p i st. op \<noteq> Hide_provider now p i st)
         \<and> (\<forall>p i keep. op \<noteq> Delete_session p i keep)
         \<longrightarrow> st_reservations db' = st_reservations db \<and> st_bindings db' = st_bindings db"
  using assms
  by (cases op)
    (auto simp: checked_Inr clear_session_runtime_def clear_shared_root_pid_def clear_session_home_def
      restore_tracking_def restore_provider_session_def adopt_session_def watch_named_session_def Let_def
      rbind_Inr_iff same_choices_def dest!: upsert_frame split: option.splits if_splits)

lemma untracked_step:
  assumes step: "store_step se le op db = Inr db'" and "\<not> restores k op"
    and here: "k \<in> ut_identity ` set (st_untracked db)"
  shows "k \<in> ut_identity ` set (st_untracked db')"
proof (cases op)
  case (Session_op sop)
  show ?thesis
  proof (cases sop)
    case (Untrack now p i)
    with assms Session_op show ?thesis
      using ut_ids_put_untracked [of now p i "delete_meta (provider_hidden_key p i) (clean_session now p i db)"]
      by (auto simp: untrack_session_eq clean_session_def)
  next
    case (Hide_provider now p i state)
    with assms Session_op show ?thesis
      using ut_ids_put_untracked [of now p i "set_meta (provider_hidden_key p i) state (clean_session now p i db)"]
      by (auto simp: hide_provider_session_eq clean_session_def)
  next
    case (Restore_tracking p i)
    with assms Session_op show ?thesis by (auto simp: restore_tracking_def)
  next
    case (Restore_provider p i)
    with assms Session_op show ?thesis by (auto simp: restore_provider_session_def split: if_splits)
  next
    case (Adopt now c)
    with assms Session_op show ?thesis
      by (auto simp: checked_Inr adopt_session_def Let_def s_identity_def same_choices_def
          dest!: upsert_frame split: option.splits if_splits)
  next
    case (Delete_session p i keep)
    with assms Session_op show ?thesis by (auto simp: delete_session_def Let_def)
  qed (use assms Session_op in \<open>auto simp: checked_Inr clear_session_runtime_def clear_shared_root_pid_def
      clear_session_home_def watch_named_session_def Let_def rbind_Inr_iff same_choices_def
      dest!: upsert_frame split: option.splits if_splits\<close>)
qed (use assms in \<open>auto simp: same_choices_def dest!: evidence_frame launch_frame binding_frame owner_frame\<close>)
section \<open>Rows that stay\<close>

lemma row_by_delete_where:
  "row_by key k rows = Some r \<Longrightarrow> \<not> p r \<Longrightarrow> row_by key k (delete_where p rows) = Some r"
  by (induction rows) (auto simp: row_by_Cons delete_where_def split: if_splits)

lemma row_by_snoc_other: "row_by key k rows = Some r \<Longrightarrow> row_by key k (rows @ rows') = Some r"
  by (simp add: row_by_append)

lemma row_by_update_other:
  "row_by key k rows = Some r \<Longrightarrow> (\<And>x. key (f x) = key x) \<Longrightarrow> \<not> p r \<Longrightarrow> row_by key k (update_where p f rows) = Some r"
  by (simp add: row_by_update_where)

fun frees :: "launch_reservation \<Rightarrow> store_op \<Rightarrow> bool" where
  "frees r (Owner_op (Release p i token)) = (lr_identity r = (p, i) \<and> lr_token r = token)"
| "frees r (Owner_op (Reclaim now p i spid sstart token pid start)) =
     (lr_identity r = (p, i) \<and> lr_owner_pid r = Some spid \<and> lr_owner_start_time r = Some sstart)"
| "frees r (Owner_op (Reclaim_generation now seen token pid start)) = same_reservation seen r"
| "frees r (Owner_op (Release_generation seen)) = same_reservation seen r"
| "frees r op = forgets (lr_identity r) op"

abbreviation reserved :: "store_db \<Rightarrow> launch_reservation \<Rightarrow> bool" where
  "reserved db r \<equiv> row_by lr_identity (lr_identity r) (st_reservations db) = Some r"

lemma reserved_replace:
  assumes "reserved db r" and "\<not> hit r"
  shows "reserved (snd (replace_reservation hit new db)) r"
  using assms row_by_delete_where [of lr_identity "lr_identity r" "st_reservations db" r hit]
  by (auto simp: replace_reservation_def Let_def row_by_append)

lemma reserved_step:
  assumes step: "store_step se le op db = Inr db'" and keep: "\<not> frees r op" and here: "reserved db r"
  shows "reserved db' r"
proof (cases op)
  case (Session_op sop)
  show ?thesis
  proof (cases sop)
    case (Untrack now p i)
    with assms Session_op show ?thesis by (auto simp: untrack_session_def intro!: row_by_delete_where)
  next
    case (Hide_provider now p i state)
    with assms Session_op show ?thesis by (auto simp: hide_provider_session_def intro!: row_by_delete_where)
  next
    case (Delete_session p i preserve)
    with assms Session_op show ?thesis by (auto simp: delete_session_def Let_def intro!: row_by_delete_where)
  qed (use assms Session_op session_frame_same [of se sop db db' "lr_identity r"] in auto)
next
  case (Owner_op oop)
  show ?thesis
  proof (cases oop)
    case (Reserve_resume now p i token pid start)
    with assms Owner_op show ?thesis
      by (auto simp: reserve_resume_def insert_or_ignore_def row_by_snoc_other)
  next
    case (Reclaim now p i spid sstart token pid start)
    with assms Owner_op show ?thesis by (auto simp: reclaim_resume_def intro!: reserved_replace)
  next
    case (Reclaim_generation now seen token pid start)
    with assms Owner_op show ?thesis by (auto simp: reclaim_resume_if_generation_def intro!: reserved_replace)
  next
    case (Release_generation seen)
    with assms Owner_op show ?thesis by (auto simp: release_resume_if_generation_def intro!: row_by_delete_where)
  next
    case (Release p i token)
    with assms Owner_op show ?thesis by (auto simp: release_resume_def Let_def intro!: row_by_delete_where)
  qed (use assms Owner_op in \<open>auto simp: checked_Inr set_live_owner_def revoke_live_owners_if_exact_def
      delete_live_owners_def delete_live_owners_observed_through_def delete_other_live_owner_sessions_def
      delete_live_owner_generation_def remove_live_owners_def rbind_Inr_iff split: option.splits if_splits\<close>)
qed (use assms in \<open>auto simp: same_choices_def dest!: evidence_frame launch_frame binding_frame\<close>)

fun unbinds :: "string \<Rightarrow> provider \<times> string \<Rightarrow> store_op \<Rightarrow> bool" where
  "unbinds token k (Binding_op (Delete_binding t)) = (t = token)"
| "unbinds token k (Binding_op (Delete_binding_if t p i)) = (t = token \<and> k = (p, i))"
| "unbinds token k (Binding_op (Switch_binding now t p a b pid start)) = (t = token \<and> k = (p, a))"
| "unbinds token k (Launch_op (Prune a b)) = True"
| "unbinds token k op = forgets k op"

lemma binding_row: "launch_binding_of db token = Some k \<longleftrightarrow>
    (\<exists>b. row_by lb_token token (st_bindings db) = Some b \<and> lb_identity b = k)"
  by (auto simp: launch_binding_of_def)

lemma binding_delete_where:
  assumes "launch_binding_of db token = Some k" and "\<And>b. lb_token b = token \<Longrightarrow> lb_identity b = k \<Longrightarrow> \<not> p b"
  shows "map_option lb_identity (row_by lb_token token (delete_where p (st_bindings db))) = Some k"
proof -
  from assms(1) obtain b where b: "row_by lb_token token (st_bindings db) = Some b" "lb_identity b = k"
    by (auto simp: binding_row)
  then have "\<not> p b" using assms(2) row_by_Some [OF b(1)] by blast
  then show ?thesis using row_by_delete_where [OF b(1)] b(2) by simp
qed

lemma binding_step_keeps:
  assumes step: "store_step se le op db = Inr db'" and keep: "\<not> unbinds token k op"
    and here: "launch_binding_of db token = Some k"
  shows "launch_binding_of db' token = Some k"
proof (cases op)
  case (Session_op sop)
  show ?thesis
  proof (cases sop)
    case (Untrack now p i)
    with assms Session_op show ?thesis
      using binding_delete_where [OF here, of "\<lambda>r. lb_identity r = (p, i)"]
      by (auto simp: untrack_session_def launch_binding_of_def)
  next
    case (Hide_provider now p i state)
    with assms Session_op show ?thesis
      using binding_delete_where [OF here, of "\<lambda>r. lb_identity r = (p, i)"]
      by (auto simp: hide_provider_session_def launch_binding_of_def)
  next
    case (Delete_session p i preserve)
    with assms Session_op show ?thesis
      using binding_delete_where [OF here, of "\<lambda>r. lb_identity r = (p, i)"]
      by (auto simp: delete_session_def Let_def launch_binding_of_def)
  qed (use assms Session_op session_frame_same [of se sop db db' k] in \<open>auto simp: launch_binding_of_def\<close>)
next
  case (Binding_op bop)
  show ?thesis
  proof (cases bop)
    case (Bind now t p i)
    with assms Binding_op show ?thesis
      by (auto simp: bind_launch_def launch_binding_of_def row_by_append split: option.splits)
  next
    case (Delete_binding t)
    with assms Binding_op show ?thesis
      using binding_delete_where [OF here, of "\<lambda>b. lb_token b = t"]
      by (auto simp: delete_launch_binding_def launch_binding_of_def)
  next
    case (Delete_binding_if t p i)
    with assms Binding_op show ?thesis
      using binding_delete_where [OF here, of "\<lambda>b. lb_token b = t \<and> lb_identity b = (p, i)"]
      by (auto simp: delete_launch_binding_if_def launch_binding_of_def)
  next
    case (Switch_binding now t p a b pid start)
    from here obtain r where r: "row_by lb_token token (st_bindings db) = Some r" "lb_identity r = k"
      by (auto simp: binding_row)
    then have "\<not> (lb_token r = t \<and> lb_identity r = (p, a))"
      using keep Binding_op Switch_binding row_by_Some [OF r(1)] by auto
    with assms Binding_op Switch_binding r show ?thesis
      using row_by_update_other [OF r(1), of "\<lambda>b'. b'\<lparr>lb_session_id := b, lb_created_at := now\<rparr>"
          "\<lambda>b'. lb_token b' = t \<and> lb_identity b' = (p, a)"]
      by (auto simp: switch_launch_binding_def Let_def delete_recovery_owner_def launch_binding_of_def)
  qed (use assms Binding_op in \<open>auto simp: launch_binding_of_def set_recovery_owner_def delete_recovery_owner_def
      certify_launch_def recover_confirmed_launch_def rbind_Inr_iff split: option.splits if_splits\<close>)
next
  case (Launch_op lop)
  with assms launch_frame [of le lop db db'] show ?thesis by (cases lop) (auto simp: launch_binding_of_def)
qed (use assms in \<open>auto simp: same_choices_def launch_binding_of_def dest!: evidence_frame owner_frame\<close>)
section \<open>Well-formedness and tracking\<close>

text \<open>(C40) Whatever operations a new store has served, in any order and with failures rolled back, its tables have
  unique primary keys, event ids never exceed the last one given, and no two pending launches of a
  provider share a name up to ASCII case.\<close>

theorem reachable_stores_are_well_formed:
  "keys_ok (run (store_step se le) ops empty_store) \<and> names_ok (run (store_step se le) ops empty_store)"
  using store.run_inv [OF store_inv_empty, of se le ops] by (simp add: store_inv_def)

lemma list_sessions_tracked: "s \<in> set (list_sessions se db) \<Longrightarrow> \<not> is_untracked db (s_provider s) (s_session_id s)"
  by (simp add: list_sessions_def list_sessions_query_def)

lemma not_listed: "is_untracked db p i \<Longrightarrow> (p, i) \<notin> s_identity ` set (list_sessions se db)"
  by (auto simp: s_identity_def dest: list_sessions_tracked)

text \<open>(C38) In every reachable store an untracked conversation is silent: its row, if any, is parked and read, no
  process owns it, no attention event names it and the board does not list it.\<close>

theorem untracked_conversations_are_silent:
  assumes "db = run (store_step se le) ops empty_store" and "is_untracked db p i"
  shows "(case get_session db p i of None \<Rightarrow> True | Some s \<Rightarrow> s_status s = Parked \<and> \<not> s_unread s)
         \<and> live_owners db p i = [] \<and> (p, i) \<notin> ev_identity ` set (st_events db)
         \<and> (p, i) \<notin> s_identity ` set (list_sessions se db)"
proof -
  have "store_inv db" using store.run_inv [OF store_inv_empty] assms(1) by simp
  then have quiet: "silent db (p, i)" using assms(2) by (simp add: untracked_silentD is_untracked_def)
  then have "live_owners db p i = []"
    by (auto simp: live_owners_def silent_def filter_empty_conv image_iff eq_commute [of "(p, i)"])
  moreover have "case get_session db p i of None \<Rightarrow> True | Some s \<Rightarrow> s_status s = Parked \<and> \<not> s_unread s"
    using quiet by (auto simp: silent_def quiet_session_def get_session_def dest!: row_by_Some split: option.splits)
  ultimately show ?thesis using quiet not_listed [OF assms(2)] by (simp add: silent_def)
qed

definition demo_env :: store_env where
  "demo_env = \<lparr> se_lower = to_ascii_lowercase, se_json_pair = (\<lambda>a b. a @ b), se_json_array = (\<lambda>a b. a @ b),
                se_parse_pair = (\<lambda>_. None) \<rparr>"

definition demo_launch_env :: launch_env where
  "demo_launch_env =
     \<lparr> le_exit_json = (\<lambda>_. ''exit''), le_parse_exit = (\<lambda>_. None), le_owner_json = (\<lambda>_. ''owner''),
       le_parse_owner = (\<lambda>_. None), le_archive = (\<lambda>_ _ _. ''archive'') \<rparr>"

definition demo_ops :: "store_op list" where
  "demo_ops =
     [Session_op (Upsert 5 ((bare_session Claude ''a'' Ready True)\<lparr>s_last_event_at := 3\<rparr>) True),
      Session_op (Untrack 6 Claude ''a''),
      Session_op (Upsert 7 ((bare_session Claude ''a'' Ready True)\<lparr>s_last_event_at := 4\<rparr>) True)]"

lemma demo_untracked: "is_untracked (run (store_step demo_env demo_launch_env) demo_ops empty_store) Claude ''a''"
  by code_simp

lemma untracked_conversations_are_silent_witness:
  "live_owners (run (store_step demo_env demo_launch_env) demo_ops empty_store) Claude ''a'' = []
   \<and> (Claude, ''a'') \<notin> s_identity ` set (list_sessions demo_env
        (run (store_step demo_env demo_launch_env) demo_ops empty_store))"
  using untracked_conversations_are_silent [OF refl demo_untracked] by simp

text \<open>An untracked conversation stays untracked, and off the board, through any operations of hooks,
  scans, launches and clean-ups; only selecting it again, adopting it or the provider's own
  restoration of it ends that.\<close>

theorem untracked_until_selected:
  assumes "is_untracked db p i" and "list_all (\<lambda>op. \<not> restores (p, i) op) ops"
  shows "is_untracked (run (store_step se le) ops db) p i
         \<and> \<not> is_watched se (run (store_step se le) ops db) p i"
proof -
  let ?P = "\<lambda>db. (p, i) \<in> ut_identity ` set (st_untracked db)"
  have "?P db" using assms(1) by (simp add: is_untracked_def)
  then have "?P (run (store_step se le) ops db)"
    by (rule run_keeps [rotated]) (use assms(2) untracked_step [of se le _ _ _ "(p, i)"] in \<open>auto simp: list_all_iff\<close>)
  then show ?thesis by (simp add: is_untracked_def is_watched_def)
qed

lemma untracked_until_selected_witness:
  "is_untracked (run (store_step demo_env demo_launch_env)
     [Session_op (Watch_named 8 (bare_session Claude ''a'' Ready True)), Evidence_op (Attach Claude ''a'')]
     (run (store_step demo_env demo_launch_env) demo_ops empty_store)) Claude ''a''"
  using untracked_until_selected [OF demo_untracked,
      of "[Session_op (Watch_named 8 (bare_session Claude ''a'' Ready True)), Evidence_op (Attach Claude ''a'')]"]
  by simp

text \<open>Every stored conversation is on exactly one of three lists: the board, the untracked ones, and the
  ones only observed and never chosen. Nothing else is on them.\<close>

theorem lists_partition_conversations:
  "set (list_sessions se db) \<union> set (list_untracked_sessions se db) \<union> set (list_unconfirmed_sessions se db)
     = set (st_sessions db)
   \<and> set (list_sessions se db) \<inter> set (list_untracked_sessions se db) = {}
   \<and> set (list_sessions se db) \<inter> set (list_unconfirmed_sessions se db) = {}
   \<and> set (list_untracked_sessions se db) \<inter> set (list_unconfirmed_sessions se db) = {}
   \<and> set (list_sessions se db)
     = {s. s \<in> set (st_sessions db) \<and> watch_evidence se db s
           \<and> \<not> is_untracked db (s_provider s) (s_session_id s)}"
  by (auto simp: list_sessions_def list_untracked_sessions_def list_unconfirmed_sessions_def list_sessions_query_def)

section \<open>Resume reservations\<close>

text \<open>(C39) After a resume of a conversation is reserved, no other reservation of it succeeds through any
  operations until this one is released by its token, released or reclaimed by naming its exact row or
  owner, or the conversation is untracked, hidden or deleted.\<close>

theorem reservation_is_exclusive:
  assumes "reserve_resume now p i token pid start db = (True, db1)"
    and "list_all (\<lambda>op. \<not> frees (new_reservation now p i token pid start) op) ops"
    and "db2 = run (store_step se le) ops db1"
  shows "get_resume_reservation db2 p i = Some (new_reservation now p i token pid start)
         \<and> reserve_resume now' p i token' pid' start' db2 = (False, db2)"
proof -
  let ?r = "new_reservation now p i token pid start"
  have id: "lr_identity ?r = (p, i)" by (simp add: lr_identity_def new_reservation_def)
  have "reserved db1 ?r"
    using assms(1) by (auto simp: reserve_resume_def get_resume_reservation_def row_by_None insert_or_ignore_def id
        row_by_append row_by_Cons split: option.splits) (auto simp: row_by_None dest: row_by_Some_key)
  then have "reserved db2 ?r" unfolding assms(3)
    by (rule run_keeps [rotated]) (use assms(2) reserved_step in \<open>auto simp: list_all_iff\<close>)
  then have row: "get_resume_reservation db2 p i = Some ?r" by (simp add: get_resume_reservation_def id)
  then have "(p, i) \<in> lr_identity ` set (st_reservations db2)"
    unfolding get_resume_reservation_def by (rule row_by_Some_key)
  with row show ?thesis
    by (auto simp: reserve_resume_def insert_or_ignore_def lr_identity_def new_reservation_def)
qed

lemma reservation_is_exclusive_witness:
  "reserve_resume 9 Codex ''s'' ''tok2'' 8 2
     (run (store_step demo_env demo_launch_env)
        [Owner_op (Release Codex ''s'' ''tok2''), Owner_op (Reclaim 7 Codex ''s'' 5 1 ''tok3'' 9 9)]
        (snd (reserve_resume 5 Codex ''s'' ''tok'' 7 1 empty_store)))
   = (False, run (store_step demo_env demo_launch_env)
        [Owner_op (Release Codex ''s'' ''tok2''), Owner_op (Reclaim 7 Codex ''s'' 5 1 ''tok3'' 9 9)]
        (snd (reserve_resume 5 Codex ''s'' ''tok'' 7 1 empty_store)))"
  using reservation_is_exclusive [of 5 Codex "''s''" "''tok''" 7 1 empty_store
      "snd (reserve_resume 5 Codex ''s'' ''tok'' 7 1 empty_store)"
      "[Owner_op (Release Codex ''s'' ''tok2''), Owner_op (Reclaim 7 Codex ''s'' 5 1 ''tok3'' 9 9)]"
      _ demo_env demo_launch_env, OF _ _ refl]
  by (simp add: reserve_resume_def get_resume_reservation_def empty_store_def new_reservation_def lr_identity_def
      same_reservation_def)
section \<open>Writing and reading conversations\<close>

lemma get_session_update:
  assumes "\<And>s. s_identity (f s) = s_identity s"
  shows "get_session (update_session p i f db) q j
         = (if (q, j) = (p, i) then map_option f (get_session db q j) else get_session db q j)"
proof -
  have "map_option (\<lambda>r. if s_identity r = (p, i) then f r else r) (row_by s_identity (q, j) (st_sessions db))
        = (if (q, j) = (p, i) then map_option f (row_by s_identity (q, j) (st_sessions db))
           else row_by s_identity (q, j) (st_sessions db))"
    by (cases "row_by s_identity (q, j) (st_sessions db)") (auto dest: row_by_Some)
  then show ?thesis by (simp add: get_session_def update_session_def row_by_update_where assms)
qed

lemma get_session_read_observations [simp]: "get_session (read_observations h db) = get_session db"
  by (simp add: get_session_def read_observations_def fun_eq_iff)

lemma get_session_insert_event [simp]: "get_session (insert_session_event s t db) = get_session db"
  by (simp add: get_session_def insert_session_event_def Let_def fun_eq_iff)

lemma row_by_upsert_row:
  assumes "\<And>r. key (merge r) = key r"
  shows "row_by key k (upsert_row key new merge rows)
         = (if k = key new then Some (case row_by key k rows of None \<Rightarrow> new | Some old \<Rightarrow> merge old)
            else row_by key k rows)"
proof (cases "key new \<in> key ` set rows")
  case True
  then have "row_by key (key new) rows \<noteq> None" by (simp add: row_by_None)
  then show ?thesis
    using True by (cases "row_by key k rows") (auto simp: upsert_row_def row_by_update_where assms dest: row_by_Some)
next
  case False
  then have "row_by key (key new) rows = None" by (simp add: row_by_None)
  with False show ?thesis
    by (auto simp: upsert_row_def row_by_append row_by_Cons split: option.splits)
qed

lemma get_session_written:
  "get_session (written_store now s keep db) q j
   = (if (q, j) = s_identity s
      then Some (case get_session db q j of None \<Rightarrow> written_row now s keep db
                 | Some old \<Rightarrow> merge_session (written_row now s keep db) old)
      else get_session db q j)"
proof -
  have "st_sessions (written_store now s keep db)
      = upsert_row s_identity (written_row now s keep db) (merge_session (written_row now s keep db)) (st_sessions db)"
    by (simp add: written_store_def Let_def)
  then show ?thesis by (simp add: get_session_def row_by_upsert_row)
qed

lemma get_session_upsert:
  assumes "upsert_session now s keep db = Inr (True, db')"
  shows "get_session db' = get_session (written_store now s keep db)"
  using assms by (auto simp: upsert_session_Inr split: if_splits)

lemma f64_max_not_lt: "\<not> f64_lt (f64_max a b) a"
  by (auto simp: f64_max_def f64_lt_def)

lemma f64_max_newer: "f64_lt a b \<Longrightarrow> f64_max a b = b"
  by (simp add: f64_max_def)

lemma f64_lt_not_eq: "f64_lt a b \<Longrightarrow> \<not> f64_eq b a"
  by (auto simp: f64_lt_def f64_eq_def)

text \<open>Writing a conversation that is already known updates what was observed and forgets nothing: an absent
  field keeps its stored value, a managed conversation stays managed, the creation time is kept, the
  event and activity times never go back, and every other conversation is untouched.\<close>

theorem write_forgets_nothing:
  assumes "upsert_session now s keep db = Inr (True, db')"
    and "get_session db (s_provider s) (s_session_id s) = Some old"
    and "get_session db' (s_provider s) (s_session_id s) = row"
  shows "(\<exists>new. row = Some new
      \<and> s_status new = s_status s \<and> s_unread new = s_unread s
      \<and> s_managed new = (s_managed old \<or> s_managed s) \<and> s_created_at new = s_created_at old
      \<and> s_tmux_pane new = or_else (s_tmux_pane s) (s_tmux_pane old)
      \<and> s_root_pid new = or_else (s_root_pid s) (s_root_pid old)
      \<and> s_transcript_path new = or_else (s_transcript_path s) (s_transcript_path old)
      \<and> (s_name old \<noteq> None \<longrightarrow> s_name new \<noteq> None)
      \<and> (keep \<longrightarrow> s_name old \<noteq> None \<longrightarrow> s_name old \<noteq> Some [] \<longrightarrow> s_name new = s_name old)
      \<and> \<not> f64_lt (s_last_event_at new) (s_last_event_at old)
      \<and> \<not> f64_lt (s_last_activity_at new) (s_last_activity_at old))
      \<and> ((q, j) \<noteq> s_identity s \<longrightarrow> get_session db' q j = get_session db q j)"
proof (rule conjI)
  let ?new = "merge_session (written_row now s keep db) old"
  have "row = Some ?new"
    using get_session_upsert [OF assms(1)] assms(2,3) by (simp add: get_session_written s_identity_def)
  then show "\<exists>new. row = Some new
      \<and> s_status new = s_status s \<and> s_unread new = s_unread s
      \<and> s_managed new = (s_managed old \<or> s_managed s) \<and> s_created_at new = s_created_at old
      \<and> s_tmux_pane new = or_else (s_tmux_pane s) (s_tmux_pane old)
      \<and> s_root_pid new = or_else (s_root_pid s) (s_root_pid old)
      \<and> s_transcript_path new = or_else (s_transcript_path s) (s_transcript_path old)
      \<and> (s_name old \<noteq> None \<longrightarrow> s_name new \<noteq> None)
      \<and> (keep \<longrightarrow> s_name old \<noteq> None \<longrightarrow> s_name old \<noteq> Some [] \<longrightarrow> s_name new = s_name old)
      \<and> \<not> f64_lt (s_last_event_at new) (s_last_event_at old)
      \<and> \<not> f64_lt (s_last_activity_at new) (s_last_activity_at old)"
    using assms(2)
    by (auto simp: merge_session_def written_row_def stored_session_def f64_max_not_lt or_else_def
        kept_name_def split: option.splits)
  show "(q, j) \<noteq> s_identity s \<longrightarrow> get_session db' q j = get_session db q j"
    using get_session_upsert [OF assms(1)] by (simp add: get_session_written)
qed

definition demo_row :: session where
  "demo_row = (bare_session Claude ''a'' Ready True)\<lparr>s_last_event_at := 3, s_created_at := 1,
     s_last_activity_at := 3, s_tmux_pane := Some ''%1''\<rparr>"

definition demo_store :: store_db where
  "demo_store = empty_store\<lparr>st_sessions := [demo_row]\<rparr>"

definition demo_write :: session where
  "demo_write = (bare_session Claude ''a'' NeedsYou True)\<lparr>s_last_event_at := 4\<rparr>"

lemma demo_old: "get_session demo_store Claude ''a'' = Some demo_row"
  by (simp add: get_session_def demo_store_def empty_store_def row_by_Cons demo_row_def bare_session_def s_identity_def)

lemma f64_small_not_nan: "\<not> f64_is_nan 0" "\<not> f64_is_nan 1" "\<not> f64_is_nan 3" "\<not> f64_is_nan 4" "\<not> f64_is_nan 9"
  by (simp_all add: f64_is_nan_def f64_magnitude_def)

lemma f64_small_zero: "f64_is_zero 0" "\<not> f64_is_zero 1" "\<not> f64_is_zero 3" "\<not> f64_is_zero 4" "\<not> f64_is_zero 9"
  by (simp_all add: f64_is_zero_def f64_magnitude_def)

lemma demo_write_ok: "\<exists>db'. upsert_session 9 demo_write True demo_store = Inr (True, db')"
  by (simp add: upsert_session_Inr is_untracked_def demo_store_def empty_store_def demo_write_def bare_session_def
      nonzero_or_def f64_small_not_nan f64_small_zero)

lemma write_forgets_nothing_witness:
  "\<exists>db' new. upsert_session 9 demo_write True demo_store = Inr (True, db')
     \<and> get_session db' Claude ''a'' = Some new \<and> s_tmux_pane new = Some ''%1'' \<and> s_status new = NeedsYou"
proof -
  obtain db' where db': "upsert_session 9 demo_write True demo_store = Inr (True, db')"
    using demo_write_ok by blast
  show ?thesis
    using write_forgets_nothing [OF db' _ refl, of demo_row] demo_old db'
    by (auto simp: demo_write_def demo_row_def bare_session_def or_else_def)
qed
section \<open>Acknowledgements\<close>

lemma written_event_time:
  "s_last_event_at (written_row now s keep db) = nonzero_or (s_last_event_at s) now"
  by (simp add: written_row_def)

text \<open>When a newer result of a conversation is stored between the look and the key press, the
  acknowledgement of the older one, and its collection, change nothing: the newer result stays
  unread.\<close>

theorem late_acknowledgement_keeps_newer_result:
  assumes "get_session db p i = Some old" and "s_identity s = (p, i)"
    and "upsert_session now s keep db = Inr (True, db1)"
    and "f64_lt (s_last_event_at old) (nonzero_or (s_last_event_at s) now)"
  shows "acknowledge_attention later p i (s_last_event_at old) attaching db1 = (False, db1)
         \<and> collect_result later p i (s_last_event_at old) db1 = (None, db1)
         \<and> map_option s_unread (get_session db1 p i) = Some (s_unread s)"
proof -
  let ?new = "merge_session (written_row now s keep db) old"
  have "get_session db1 p i = Some ?new"
    using get_session_upsert [OF assms(3)] assms(1,2) by (simp add: get_session_written)
  moreover have "s_last_event_at ?new = nonzero_or (s_last_event_at s) now"
    using f64_max_newer [OF assms(4)] by (simp add: merge_session_def written_event_time)
  then have "\<not> f64_eq (s_last_event_at ?new) (s_last_event_at old)"
    using f64_lt_not_eq [OF assms(4)] by simp
  moreover have "s_unread ?new = s_unread s" by (simp add: merge_session_def written_row_def stored_session_def)
  ultimately show ?thesis by (simp add: acknowledge_attention_def collect_result_def)
qed

lemma demo_lt: "f64_lt 3 4"
  by (simp add: f64_lt_def f64_small_not_nan f64_small_zero f64_total_key_def f64_total_bits_eq bit_iff_odd drop_bit_eq_div)

lemma late_acknowledgement_keeps_newer_result_witness:
  "\<exists>db1. upsert_session 9 demo_write True demo_store = Inr (True, db1)
     \<and> acknowledge_attention 9 Claude ''a'' 3 True db1 = (False, db1)"
proof -
  obtain db' where db': "upsert_session 9 demo_write True demo_store = Inr (True, db')"
    using demo_write_ok by blast
  have "s_identity demo_write = (Claude, ''a'')" by (simp add: demo_write_def bare_session_def s_identity_def)
  moreover have "f64_lt (s_last_event_at demo_row) (nonzero_or (s_last_event_at demo_write) 9)"
    using demo_lt by (simp add: demo_row_def demo_write_def nonzero_or_def f64_small_zero)
  ultimately have "acknowledge_attention 9 Claude ''a'' (s_last_event_at demo_row) True db' = (False, db')"
    using late_acknowledgement_keeps_newer_result [OF demo_old _ db', of 9 True] by blast
  with db' show ?thesis by (auto simp: demo_row_def)
qed

lemma count_ready_read:
  assumes "unique_by s_identity rows" and "s \<in> set rows" and "p s"
    and "\<And>r. s_identity (f r) = s_identity r" and "\<not> p (f s)"
  shows "Suc (count_where p (update_where (\<lambda>r. s_identity r = s_identity s) f rows)) = count_where p rows"
  using assms
proof (induction rows)
  case Nil
  then show ?case by simp
next
  case (Cons r rows)
  show ?case
  proof (cases "r = s")
    case True
    then have "\<forall>x\<in>set rows. s_identity x \<noteq> s_identity s"
      using Cons.prems(1) by (metis distinct.simps(2) imageI list.simps(9) list.set_map unique_by_def)
    then have "update_where (\<lambda>r. s_identity r = s_identity s) f rows = rows"
      by (intro update_where_id) auto
    with True Cons.prems show ?thesis by (simp add: update_where_def)
  next
    case False
    with Cons.prems have "s \<in> set rows" "s_identity r \<noteq> s_identity s" by (auto simp: unique_by_def)
    with Cons show ?thesis by (auto simp: update_where_def unique_by_def)
  qed
qed

text \<open>A result is collected exactly when it is ready, unread and the one that was looked at; then its row is
  read and nothing else of it changes, no other conversation changes, and the count returned is the
  number of unread results left, one less than before. Otherwise nothing changes.\<close>

theorem collect_result_exact:
  assumes "store_inv db" and "collect_result now p i expected db = (answer, db')"
  shows "case get_session db p i of
      None \<Rightarrow> answer = None \<and> db' = db
    | Some s \<Rightarrow>
        if s_status s = Ready \<and> s_unread s \<and> f64_eq (s_last_event_at s) expected
        then get_session db' p i = Some (s\<lparr>s_unread := False, s_updated_at := now\<rparr>)
             \<and> ((q, j) \<noteq> (p, i) \<longrightarrow> get_session db' q j = get_session db q j)
             \<and> map_option Suc answer = Some (count_where (\<lambda>s. s_status s = Ready \<and> s_unread s) (st_sessions db))
        else answer = None \<and> db' = db"
proof (cases "get_session db p i")
  case None
  with assms(2) show ?thesis by (simp add: collect_result_def)
next
  case (Some s)
  have s: "s \<in> set (st_sessions db)" "s_identity s = (p, i)"
    using row_by_Some [of s_identity "(p, i)" "st_sessions db" s] Some by (simp_all add: get_session_def)
  let ?f = "\<lambda>s. s\<lparr>s_unread := False, s_updated_at := now\<rparr>"
  let ?ready = "\<lambda>s. s_status s = Ready \<and> s_unread s"
  have f: "s_identity (?f r) = s_identity r" for r by (simp add: s_identity_def)
  show ?thesis
  proof (cases "s_status s = Ready \<and> s_unread s \<and> f64_eq (s_last_event_at s) expected")
    case True
    have "Suc (count_where ?ready (update_where (\<lambda>r. s_identity r = s_identity s) ?f (st_sessions db)))
          = count_where ?ready (st_sessions db)"
      by (rule count_ready_read) (use s True f inv_unique(1) [OF assms(1)] in simp_all)
    moreover have "st_sessions (read_observations h (update_session p i ?f db))
        = update_where (\<lambda>r. s_identity r = s_identity s) ?f (st_sessions db)" for h
      using s(2) by (simp add: read_observations_def update_session_def)
    ultimately show ?thesis
      using assms(2) Some True by (auto simp: collect_result_def Let_def get_session_update f)
  next
    case False
    with assms(2) Some show ?thesis by (auto simp: collect_result_def)
  qed
qed

lemma demo_store_inv: "store_inv demo_store"
  by (simp add: inv_defs demo_store_def empty_store_def unique_by_def)

lemma collect_result_exact_witness:
  "fst (collect_result 9 Claude ''a'' 3 demo_store) = Some 0"
proof -
  obtain answer db' where c: "collect_result 9 Claude ''a'' 3 demo_store = (answer, db')" by force
  have eq: "f64_eq 3 3" by (simp add: f64_eq_def f64_small_not_nan)
  show ?thesis
    using collect_result_exact [OF demo_store_inv c, of Claude "''a''"] demo_old eq c
    by (simp add: demo_row_def bare_session_def demo_store_def)
qed
section \<open>Launch bindings and certification\<close>

text \<open>Through any operations, a launch token stays bound to its conversation until the binding is switched
  under proof, deleted, pruned, or the conversation is untracked or deleted; meanwhile binding or
  certifying the token for any other conversation is refused without an effect.\<close>

theorem launch_binding_is_immutable:
  assumes "launch_binding_of db token = Some (p, i)"
    and "list_all (\<lambda>op. \<not> unbinds token (p, i) op) ops"
    and "db' = run (store_step se le) ops db" and "(q, j) \<noteq> (p, i)"
  shows "launch_binding_of db' token = Some (p, i)
         \<and> bind_launch now token q j db' = (False, db')
         \<and> certify_launch now token q j pid start db' = (False, db')
         \<and> switch_launch_binding now token q j k pid start db' = (False, db')"
proof -
  let ?P = "\<lambda>db. launch_binding_of db token = Some (p, i)"
  have "?P db'" unfolding assms(3)
    by (rule run_keeps [of ops ?P, OF _ assms(1)])
      (use assms(2) binding_step_keeps [of se le _ _ _ token "(p, i)"] in \<open>auto simp: list_all_iff\<close>)
  then show ?thesis using assms(4)
    by (auto simp: bind_launch_def certify_launch_def switch_launch_binding_def Let_def)
qed

lemma launch_binding_is_immutable_witness:
  "certify_launch 9 ''t'' Codex ''other'' 4 4
     (run (store_step demo_env demo_launch_env) [Binding_op (Bind 6 ''t'' Codex ''other'')]
        (snd (bind_launch 5 ''t'' Codex ''own'' empty_store)))
   = (False, run (store_step demo_env demo_launch_env) [Binding_op (Bind 6 ''t'' Codex ''other'')]
        (snd (bind_launch 5 ''t'' Codex ''own'' empty_store)))"
  using launch_binding_is_immutable [of "snd (bind_launch 5 ''t'' Codex ''own'' empty_store)" "''t''" Codex "''own''"
      "[Binding_op (Bind 6 ''t'' Codex ''other'')]" _ demo_env demo_launch_env Codex "''other''" 9 4 4, OF _ _ refl]
  by (simp add: bind_launch_def launch_binding_of_def empty_store_def row_by_Cons lb_identity_def)

lemma get_pending_removed [simp]: "get_pending (drop_launch_meta t db) t' = get_pending db t'"
  "get_pending (remove_pending t db) t = None"
  by (auto simp: get_pending_def remove_pending_def row_by_None)

lemma row_by_replace:
  "row_by key k (update_where (\<lambda>x. key x = key r) (\<lambda>_. r) rows)
   = (if k = key r \<and> k \<in> key ` set rows then Some r else row_by key k rows)"
proof (cases "k = key r")
  case True
  then show ?thesis by (induction rows) (auto simp: update_where_def row_by_Cons)
next
  case False
  then show ?thesis by (induction rows) (auto simp: update_where_def row_by_Cons)
qed

lemma row_by_upsert_const:
  "row_by key k (upsert_row key r (\<lambda>_. r) rows) = (if k = key r then Some r else row_by key k rows)"
proof (cases "key r \<in> key ` set rows")
  case True
  then show ?thesis by (simp add: upsert_row_def row_by_replace)
next
  case False
  then have "row_by key (key r) rows = None" by (simp add: row_by_None)
  then show ?thesis using False by (auto simp: upsert_row_def row_by_append row_by_Cons split: option.splits)
qed

lemma recovery_owner_put:
  "get_recovery_owner (put_recovery_owner r db) p i
   = (if (p, i) = ro_identity r then Some r else get_recovery_owner db p i)"
  by (simp add: get_recovery_owner_def put_recovery_owner_def row_by_upsert_const)

lemma recovery_owner_frame [simp]:
  "get_recovery_owner (drop_launch_meta t db) = get_recovery_owner db"
  "get_recovery_owner (remove_pending t db) = get_recovery_owner db"
  "launch_binding_of (drop_launch_meta t db) = launch_binding_of db"
  "launch_binding_of (remove_pending t db) = launch_binding_of db"
  "launch_binding_of (put_recovery_owner r db) = launch_binding_of db"
  by (simp_all add: get_recovery_owner_def drop_launch_meta_def drop_receipts_def delete_meta_def remove_pending_def
      launch_binding_of_def put_recovery_owner_def fun_eq_iff)

text \<open>A launch is certified exactly when its token is bound to that conversation and, while it is still
  pending, the process named is the very generation that was observed; then the conversation's recovery
  owner is that process, the launch is pending no more, and no other owner or binding changes. A
  refusal changes nothing.\<close>

theorem certification_is_exact:
  assumes "certify_launch now token p i pid start db = (ok, db')"
  shows "(ok \<longleftrightarrow> launch_binding_of db token = Some (p, i)
           \<and> (case get_pending db token of None \<Rightarrow> True
              | Some pending \<Rightarrow> pl_provider pending = p \<and> pl_root_pid pending = Some pid
                                \<and> pl_root_pid_start pending = Some start))
         \<and> (if ok
            then get_pending db' token = None \<and> launch_binding_of db' = launch_binding_of db
                 \<and> map_option (\<lambda>r. (ro_pid r, ro_start_time r, ro_launch_token r)) (get_recovery_owner db' p i)
                   = Some (pid, start, token)
                 \<and> ((q, j) \<noteq> (p, i) \<longrightarrow> get_recovery_owner db' q j = get_recovery_owner db q j)
            else db' = db)"
proof (cases "launch_binding_of db token = Some (p, i)
    \<and> (case get_pending db token of None \<Rightarrow> True | Some pending \<Rightarrow> generation_matches pending p pid start)")
  case True
  then have ok: "ok" and db': "db' = drop_launch_meta token (remove_pending token (put_recovery_owner
      \<lparr> ro_provider = p, ro_session_id = i, ro_pid = pid, ro_start_time = start,
        ro_launch_token = token, ro_created_at = now \<rparr> db))"
    using assms by (auto simp: certify_launch_def split: option.splits)
  show ?thesis using True ok
    by (auto simp: db' recovery_owner_put ro_identity_def generation_matches_def split: option.splits)
next
  case False
  then have "\<not> ok" "db' = db" using assms by (auto simp: certify_launch_def split: option.splits if_splits)
  with False show ?thesis by (auto simp: generation_matches_def split: option.splits)
qed

lemma certification_is_exact_witness:
  "fst (certify_launch 9 ''t'' Codex ''own'' 4 4 (snd (bind_launch 5 ''t'' Codex ''own'' empty_store)))"
proof -
  obtain ok db' where c:
    "certify_launch 9 ''t'' Codex ''own'' 4 4 (snd (bind_launch 5 ''t'' Codex ''own'' empty_store)) = (ok, db')"
    by force
  have "ok" using certification_is_exact [OF c, of Codex "''x''"]
    by (simp add: bind_launch_def launch_binding_of_def empty_store_def row_by_Cons lb_identity_def get_pending_def)
  with c show ?thesis by simp
qed

section \<open>Exit receipts\<close>

fun ends_launch :: "string \<Rightarrow> store_op \<Rightarrow> bool" where
  "ends_launch token (Launch_op (Add_pending now p)) = (pl_token p = token)"
| "ends_launch token (Launch_op (Delete_pending t)) = (t = token)"
| "ends_launch token (Launch_op (Delete_pending_if_created t c)) = (t = token)"
| "ends_launch token (Launch_op (Prune a b)) = True"
| "ends_launch token (Launch_op (Retire now snapshot reason)) = (pl_token (rs_pending snapshot) = token)"
| "ends_launch token (Binding_op (Certify now t p i pid start)) = (t = token)"
| "ends_launch token (Binding_op (Recover_confirmed now t s pid start)) = (t = token)"
| "ends_launch token _ = False"

definition receipt_kept :: "string \<Rightarrow> store_db \<Rightarrow> store_db \<Rightarrow> bool" where
  "receipt_kept token a b \<longleftrightarrow>
     st_meta b (pending_launch_exit_key token) = st_meta a (pending_launch_exit_key token)
     \<and> map_option (\<lambda>p. (pl_provider p, pl_created_at p)) (get_pending b token)
       = map_option (\<lambda>p. (pl_provider p, pl_created_at p)) (get_pending a token)"

lemma receipt_kept_refl [simp]: "receipt_kept token db db"
  by (simp add: receipt_kept_def)

lemma receipt_kept_meta [simp]:
  "k \<noteq> pending_launch_exit_key token \<Longrightarrow> receipt_kept token a (set_meta k v b) = receipt_kept token a b"
  "k \<noteq> pending_launch_exit_key token \<Longrightarrow> receipt_kept token a (delete_meta k b) = receipt_kept token a b"
  by (simp_all add: receipt_kept_def set_meta_def delete_meta_def get_pending_def)

lemma receipt_keys [simp]:
  "tracking_choice_key p i \<noteq> pending_launch_exit_key token" "provider_hidden_key p i \<noteq> pending_launch_exit_key token"
  "launch_phase_key t \<noteq> pending_launch_exit_key token" "hidden_launch_key t \<noteq> pending_launch_exit_key token"
  "pending_launch_wrapper_owner_key t \<noteq> pending_launch_exit_key token"
  "retired_pending_key t \<noteq> pending_launch_exit_key token"
  "''last_attached'' \<noteq> pending_launch_exit_key token" "''previous_attached'' \<noteq> pending_launch_exit_key token"
  "pending_launch_exit_key t = pending_launch_exit_key token \<longleftrightarrow> t = token"
  by (simp_all add: tracking_choice_key_def provider_hidden_key_def launch_phase_key_def hidden_launch_key_def
      pending_launch_wrapper_owner_key_def retired_pending_key_def pending_launch_exit_key_def)
lemma row_by_delete_other:
  "(\<And>r. key r = k \<Longrightarrow> \<not> p r) \<Longrightarrow> row_by key k (delete_where p rows) = row_by key k rows"
  by (induction rows) (auto simp: delete_where_def row_by_Cons)

lemma receipt_kept_tables [simp]:
  "receipt_kept token a (b\<lparr>st_sessions := ss\<rparr>) = receipt_kept token a b"
  "receipt_kept token a (b\<lparr>st_reservations := rs\<rparr>) = receipt_kept token a b"
  "receipt_kept token a (b\<lparr>st_bindings := bs\<rparr>) = receipt_kept token a b"
  "receipt_kept token a (b\<lparr>st_live_owners := los\<rparr>) = receipt_kept token a b"
  "receipt_kept token a (b\<lparr>st_recovery_owners := ros\<rparr>) = receipt_kept token a b"
  "receipt_kept token a (b\<lparr>st_untracked := us\<rparr>) = receipt_kept token a b"
  "receipt_kept token a (b\<lparr>st_observations := os\<rparr>) = receipt_kept token a b"
  "receipt_kept token a (b\<lparr>st_interruptions := is\<rparr>) = receipt_kept token a b"
  "receipt_kept token a (b\<lparr>st_hooks := hs\<rparr>) = receipt_kept token a b"
  "receipt_kept token a (b\<lparr>st_events := es, st_last_event_id := n\<rparr>) = receipt_kept token a b"
  by (simp_all add: receipt_kept_def get_pending_def)

lemma receipt_kept_blocks [simp]:
  "receipt_kept token a (update_session p i f db) = receipt_kept token a db"
  "receipt_kept token a (delete_evidence p i db) = receipt_kept token a db"
  "receipt_kept token a (delete_live_owner_rows p i db) = receipt_kept token a db"
  "receipt_kept token a (put_untracked now p i db) = receipt_kept token a db"
  "receipt_kept token a (drop_untracked p i db) = receipt_kept token a db"
  "receipt_kept token a (read_observations h db) = receipt_kept token a db"
  "receipt_kept token a (insert_session_event s t db) = receipt_kept token a db"
  "receipt_kept token a (written_store now s keep db) = receipt_kept token a db"
  "receipt_kept token a (put_recovery_owner r db) = receipt_kept token a db"
  "receipt_kept token a (put_phase tok phase db) = receipt_kept token a db"
  by (simp_all add: update_session_def delete_live_owner_rows_def put_untracked_def drop_untracked_def
      read_observations_def insert_session_event_def written_store_def refresh_interruption_def
      put_recovery_owner_def put_phase_def Let_def)
    (simp add: receipt_kept_def delete_evidence_def get_pending_def)

lemma receipt_kept_other:
  assumes "t \<noteq> token"
  shows "receipt_kept token a (drop_launch_meta t db) = receipt_kept token a db"
    "receipt_kept token a (drop_receipts t db) = receipt_kept token a db"
    "receipt_kept token a (remove_pending t db) = receipt_kept token a db"
proof -
  have "get_pending (remove_pending t db) token = get_pending db token"
    using assms by (simp add: get_pending_def remove_pending_def row_by_delete_other)
  then show "receipt_kept token a (remove_pending t db) = receipt_kept token a db"
    by (simp add: receipt_kept_def) (simp add: remove_pending_def)
qed (use assms in \<open>simp_all add: drop_launch_meta_def drop_receipts_def\<close>)

lemma receipt_kept_update_pending:
  assumes "\<And>p. pl_token (f p) = pl_token p" "\<And>p. pl_provider (f p) = pl_provider p" "\<And>p. pl_created_at (f p) = pl_created_at p"
  shows "receipt_kept token a (update_pending t f db) = receipt_kept token a db"
proof -
  have "map_option (\<lambda>p. (pl_provider p, pl_created_at p)) (get_pending (update_pending t f db) token)
      = map_option (\<lambda>p. (pl_provider p, pl_created_at p)) (get_pending db token)"
    by (cases "row_by pl_token token (st_pending db)")
      (simp_all add: get_pending_def update_pending_def row_by_update_where assms)
  then show ?thesis by (simp add: receipt_kept_def update_pending_def)
qed
lemma upsert_receipt: "upsert_session now s keep db = Inr (b, db') \<Longrightarrow> receipt_kept token a db' = receipt_kept token a db"
  by (auto simp: upsert_session_Inr split: if_splits)

lemma session_receipt: "session_step se op db = Inr db' \<Longrightarrow> receipt_kept token db db'"
  by (cases op)
    (auto simp: checked_Inr clear_session_runtime_def clear_shared_root_pid_def clear_session_home_def
      restore_tracking_def restore_provider_session_def adopt_session_def watch_named_session_def
      untrack_session_def hide_provider_session_def delete_session_def upsert_receipt Let_def rbind_Inr_iff
      split: option.splits if_splits)

lemma receipt_kept_capture [simp]:
  "receipt_kept token a (capture_identity_interruption p i db) = receipt_kept token a db"
  by (simp add: capture_identity_interruption_def receipt_kept_def get_pending_def split: option.splits)

lemma receipt_kept_legacy [simp]: "receipt_kept token a (legacy_attach se v db) = receipt_kept token a db"
  by (simp add: legacy_attach_def split: option.splits prod.splits sum.splits)

lemma evidence_receipt: "evidence_step se op db = Inr db' \<Longrightarrow> receipt_kept token db db'"
  by (cases op)
    (auto simp: checked_Inr record_status_observation_def clear_status_observation_def
      clear_status_observation_observed_through_def acknowledge_attention_def collect_result_def
      clear_identity_interruption_def record_attach_def record_hook_observation_def Let_def rbind_Inr_iff
      split: option.splits if_splits)

lemma receipt_kept_upsert_pending:
  "pl_token new \<noteq> token \<Longrightarrow>
   receipt_kept token a (db\<lparr>st_pending := upsert_row pl_token new (merge_pending new) (st_pending db)\<rparr>)
   = receipt_kept token a db"
  by (auto simp: receipt_kept_def get_pending_def row_by_upsert_row)

lemma launch_receipt:
  assumes "launch_step le op db = Inr db'" and "\<not> ends_launch token (Launch_op op)"
    and "st_meta db (pending_launch_exit_key token) \<noteq> None"
  shows "receipt_kept token db db'"
proof (cases op)
  case (Add_pending now p)
  with assms show ?thesis
    by (auto simp: checked_Inr add_pending_def Let_def rbind_Inr_iff receipt_kept_other receipt_kept_upsert_pending
        split: if_splits)
next
  case (Record_exit t p reported owner code at)
  with assms show ?thesis
    by (cases "t = token")
      (auto simp: record_pending_launch_exit_def Let_def pending_exit_replay_matches_def
        split: option.splits if_splits)
qed (use assms in \<open>auto simp: hide_pending_def delete_pending_def delete_pending_if_created_def
      observe_pending_candidate_def finalize_pending_pane_def set_launch_phase_def observe_launched_generation_def
      register_pending_wrapper_owner_def retire_pending_if_unchanged_def Let_def receipt_kept_other
      receipt_kept_update_pending split: option.splits if_splits\<close>)

lemma binding_receipt:
  "binding_step op db = Inr db' \<Longrightarrow> \<not> ends_launch token (Binding_op op) \<Longrightarrow> receipt_kept token db db'"
  by (cases op)
    (auto simp: bind_launch_def delete_launch_binding_def delete_launch_binding_if_def set_recovery_owner_def
      delete_recovery_owner_def certify_launch_def recover_confirmed_launch_def switch_launch_binding_def
      receipt_kept_other receipt_kept_update_pending Let_def rbind_Inr_iff split: option.splits if_splits)

lemma owner_receipt: "owner_step op db = Inr db' \<Longrightarrow> receipt_kept token db db'"
  by (cases op)
    (auto simp: checked_Inr reserve_resume_def reclaim_resume_def reclaim_resume_if_generation_def
      replace_reservation_def release_resume_if_generation_def release_resume_def set_live_owner_def
      revoke_live_owners_if_exact_def delete_live_owners_def delete_live_owners_observed_through_def
      delete_other_live_owner_sessions_def delete_live_owner_generation_def remove_live_owners_def
      Let_def rbind_Inr_iff split: option.splits if_splits)

lemma receipt_step:
  assumes "store_step se le op db = Inr db'" and "\<not> ends_launch token op"
    and "st_meta db (pending_launch_exit_key token) \<noteq> None"
  shows "receipt_kept token db db'"
  using assms
  by (cases op) (auto intro: session_receipt evidence_receipt launch_receipt binding_receipt owner_receipt)

lemma receipt_trans: "receipt_kept token a b \<Longrightarrow> receipt_kept token b c \<Longrightarrow> receipt_kept token a c"
  by (simp add: receipt_kept_def)

lemma receipt_run:
  assumes "list_all (\<lambda>op. \<not> ends_launch token op) ops" and "st_meta db (pending_launch_exit_key token) \<noteq> None"
  shows "receipt_kept token db (run (store_step se le) ops db)"
proof -
  have "receipt_kept token db db" by simp
  then show ?thesis
  proof (rule run_keeps [rotated])
    fix op s s'
    assume op: "op \<in> set ops" and s: "receipt_kept token db s" and step: "store_step se le op s = Inr s'"
    have "st_meta s (pending_launch_exit_key token) \<noteq> None" using s assms(2) by (simp add: receipt_kept_def)
    then have "receipt_kept token s s'"
      using receipt_step [OF step] op assms(1) by (simp add: list_all_iff)
    with s show "receipt_kept token db s'" by (rule receipt_trans)
  qed
qed

text \<open>The first exit receipt accepted for a launch is final: until the launch itself ends it is read back
  unchanged after any operations, and any later report changes nothing and is accepted only when it
  repeats the provider and the code.\<close>

theorem exit_receipt_is_final:
  assumes "record_pending_launch_exit le token p reported owner code t db = (True, db1)"
    and "st_meta db (pending_launch_exit_key token) = None"
    and "get_pending db token = Some pending"
    and "e = \<lparr> px_provider = p, px_pending_created_at = pl_created_at pending, px_code = code, px_observed_at = t \<rparr>"
    and "le_parse_exit le (le_exit_json le e) = Some e"
    and "list_all (\<lambda>op. \<not> ends_launch token op) ops" and "db2 = run (store_step se le) ops db1"
  shows "get_pending_exit le db2 token = Some e
         \<and> snd (record_pending_launch_exit le token q reported' owner' code' t' db2) = db2
         \<and> (fst (record_pending_launch_exit le token q reported' owner' code' t' db2) \<longrightarrow> q = p \<and> code' = code)"
proof -
  have ok: "pending_exit_request_matches db token pending p reported t"
    and db1: "db1 = set_meta (pending_launch_exit_key token) (le_exit_json le e) db"
    using assms(1-4)
    by (auto simp: record_pending_launch_exit_def Let_def pending_exit_replay_matches_def
        split: option.splits if_splits)
  have raw1: "st_meta db1 (pending_launch_exit_key token) = Some (le_exit_json le e)"
    by (simp add: db1 set_meta_def)
  have kept: "receipt_kept token db1 db2"
    unfolding assms(7) by (rule receipt_run [OF assms(6)]) (simp add: raw1)
  have "get_pending db1 token = Some pending" using assms(3) by (simp add: db1 get_pending_def)
  then obtain pending2 where pending2: "get_pending db2 token = Some pending2"
      "pl_provider pending2 = pl_provider pending" "pl_created_at pending2 = pl_created_at pending"
    using kept by (auto simp: receipt_kept_def)
  have raw2: "st_meta db2 (pending_launch_exit_key token) = Some (le_exit_json le e)"
    using kept raw1 by (simp add: receipt_kept_def)
  have "receipt_current pending2 e"
    using ok by (auto simp: receipt_current_def pending2 assms(4) pending_exit_request_matches_def f64_le_def f64_lt_def f64_eq_def)
  then have "get_pending_exit le db2 token = Some e"
    by (simp add: get_pending_exit_def pending2 raw2 assms(5))
  moreover have "snd (record_pending_launch_exit le token q reported' owner' code' t' db2) = db2
      \<and> (fst (record_pending_launch_exit le token q reported' owner' code' t' db2) \<longrightarrow> q = p \<and> code' = code)"
    by (auto simp: record_pending_launch_exit_def pending2 raw2 assms(4,5) Let_def pending_exit_replay_matches_def
        split: option.splits)
      (use assms(4,5) in \<open>auto\<close>)
  ultimately show ?thesis by simp
qed
definition demo_pending :: pending_launch where
  "demo_pending =
     \<lparr> pl_token = ''t'', pl_provider = Codex, pl_name = ''build'', pl_cwd = ''/'', pl_tmux_session = None,
       pl_tmux_pane = None, pl_expected_session_id = None, pl_root_pid = None, pl_root_pid_start = None,
       pl_preexisting = None, pl_candidate_session_id = None, pl_candidate_observed_at = None, pl_created_at = 3 \<rparr>"

definition demo_receipt :: pending_exit where
  "demo_receipt = \<lparr> px_provider = Codex, px_pending_created_at = 3, px_code = 1, px_observed_at = 4 \<rparr>"

definition receipt_env :: launch_env where
  "receipt_env = demo_launch_env\<lparr> le_parse_exit := (\<lambda>_. Some demo_receipt),
     le_parse_owner := (\<lambda>_. Some \<lparr> wo_provider = Codex, wo_pending_created_at = 3, wo_owner_token = ''o'' \<rparr>) \<rparr>"

definition receipt_db :: store_db where
  "receipt_db = empty_store\<lparr> st_pending := [demo_pending],
     st_meta := [launch_phase_key ''t'' \<mapsto> ''provider_observed'',
                 pending_launch_wrapper_owner_key ''t'' \<mapsto> ''owner''] \<rparr>"

lemma demo_receipt_recorded:
  "\<exists>db1. record_pending_launch_exit receipt_env ''t'' Codex None (Some ''o'') 1 4 receipt_db = (True, db1)"
  using demo_lt
  by (simp add: record_pending_launch_exit_def receipt_db_def empty_store_def get_pending_def row_by_Cons
      demo_pending_def pending_exit_request_matches_def f64_is_finite_def f64_magnitude_def f64_le_def phase_started_def
      receipt_env_def demo_launch_env_def pending_exit_owner_matches_def f64_eq_def f64_is_nan_def
      pending_exit_binding_matches_def launch_binding_of_def pending_exit_identity_is_available_def or_else_def
      pending_exit_replay_matches_def launch_phase_key_def pending_launch_wrapper_owner_key_def
      pending_launch_exit_key_def Let_def)

lemma exit_receipt_is_final_witness:
  "\<exists>db1. record_pending_launch_exit receipt_env ''t'' Codex None (Some ''o'') 1 4 receipt_db = (True, db1)
     \<and> get_pending_exit receipt_env
         (run (store_step demo_env receipt_env) [Launch_op (Record_exit ''t'' Codex None (Some ''o'') 2 9)] db1) ''t''
       = Some demo_receipt"
proof -
  obtain db1 where db1:
    "record_pending_launch_exit receipt_env ''t'' Codex None (Some ''o'') 1 4 receipt_db = (True, db1)"
    using demo_receipt_recorded by blast
  have "st_meta receipt_db (pending_launch_exit_key ''t'') = None"
    by (simp add: receipt_db_def launch_phase_key_def pending_launch_wrapper_owner_key_def pending_launch_exit_key_def)
  moreover have "get_pending receipt_db ''t'' = Some demo_pending"
    by (simp add: receipt_db_def get_pending_def row_by_Cons demo_pending_def)
  moreover have "demo_receipt = \<lparr> px_provider = Codex, px_pending_created_at = pl_created_at demo_pending,
      px_code = 1, px_observed_at = 4 \<rparr>" by (simp add: demo_receipt_def demo_pending_def)
  moreover have "le_parse_exit receipt_env (le_exit_json receipt_env demo_receipt) = Some demo_receipt"
    by (simp add: receipt_env_def)
  ultimately show ?thesis
    using exit_receipt_is_final [OF db1 _ _ _ _ _ refl, of demo_pending demo_receipt
        "[Launch_op (Record_exit ''t'' Codex None (Some ''o'') 2 9)]" demo_env] db1
    by auto
qed

end
