(* ===== verification/Json.thy ===== *)
theory Json
  imports Model Text "HOL-Library.List_Lexorder" "HOL-Library.Char_ord"
begin

text \<open>
  The values of serde_json the program computes with: \<open>number\<close> is \<open>serde_json::Number\<close> (an unsigned
  64-bit integer, a negative one, or a finite float), an object is its fields in the order of the
  sorted map that holds them. \<open>json_eq\<close> is \<open>==\<close>, under which the two float zeros are equal, and
  \<open>json_as_f64\<close> converts integers with the rounding of \<open>as f64\<close>.
\<close>

datatype number = Pos_int u64 | Neg_int i64 | Float f64

datatype json =
  J_null
| J_bool bool
| J_num number
| J_str string
| J_arr "json list"
| J_obj "(string \<times> json) list"

definition number_eq :: "number \<Rightarrow> number \<Rightarrow> bool" where
  "number_eq a b =
     (case (a, b) of
        (Pos_int m, Pos_int n) \<Rightarrow> m = n
      | (Neg_int m, Neg_int n) \<Rightarrow> m = n
      | (Float x, Float y) \<Rightarrow> f64_eq x y
      | _ \<Rightarrow> False)"

fun json_eq :: "json \<Rightarrow> json \<Rightarrow> bool"
  and json_list_eq :: "json list \<Rightarrow> json list \<Rightarrow> bool"
  and json_fields_eq :: "(string \<times> json) list \<Rightarrow> (string \<times> json) list \<Rightarrow> bool" where
  "json_eq J_null J_null = True"
| "json_eq (J_bool a) (J_bool b) = (a = b)"
| "json_eq (J_num a) (J_num b) = number_eq a b"
| "json_eq (J_str a) (J_str b) = (a = b)"
| "json_eq (J_arr a) (J_arr b) = json_list_eq a b"
| "json_eq (J_obj a) (J_obj b) = json_fields_eq a b"
| "json_eq _ _ = False"
| "json_list_eq [] [] = True"
| "json_list_eq (a # as) (b # bs) = (json_eq a b \<and> json_list_eq as bs)"
| "json_list_eq _ _ = False"
| "json_fields_eq [] [] = True"
| "json_fields_eq ((k, a) # as) ((l, b) # bs) = (k = l \<and> json_eq a b \<and> json_fields_eq as bs)"
| "json_fields_eq _ _ = False"

definition json_as_bool :: "json \<Rightarrow> bool option" where
  "json_as_bool v = (case v of J_bool b \<Rightarrow> Some b | _ \<Rightarrow> None)"

definition json_as_str :: "json \<Rightarrow> string option" where
  "json_as_str v = (case v of J_str s \<Rightarrow> Some s | _ \<Rightarrow> None)"

definition json_as_array :: "json \<Rightarrow> json list option" where
  "json_as_array v = (case v of J_arr vs \<Rightarrow> Some vs | _ \<Rightarrow> None)"

definition json_get :: "json \<Rightarrow> string \<Rightarrow> json option" where
  "json_get v key = (case v of J_obj kvs \<Rightarrow> map_of kvs key | _ \<Rightarrow> None)"

text \<open>
  \<open>n as f64\<close> of an unsigned integer: the 53 leading bits, rounded to the nearest and to the even one
  of two equally near; a carry out of the significand moves into the exponent.
\<close>

fun bit_width :: "nat \<Rightarrow> nat" where
  "bit_width n = (if n = 0 then 0 else Suc (bit_width (n div 2)))"

declare bit_width.simps [simp del]

definition f64_of_nat :: "nat \<Rightarrow> f64" where
  "f64_of_nat n =
     (if n = 0 then 0
      else let e = bit_width n - 1 in
      if e \<le> 52 then word_of_nat ((e + 1023) * 2 ^ 52 + (n * 2 ^ (52 - e) - 2 ^ 52))
      else let shift = e - 52; q = n div 2 ^ shift; r = n mod 2 ^ shift; half = 2 ^ (shift - 1);
               q' = (if r > half \<or> r = half \<and> odd q then q + 1 else q)
           in word_of_nat ((e + 1023) * 2 ^ 52 + (q' - 2 ^ 52)))"

definition number_as_f64 :: "number \<Rightarrow> f64" where
  "number_as_f64 n =
     (case n of
        Pos_int m \<Rightarrow> f64_of_nat m
      | Neg_int i \<Rightarrow> f64_of_nat (nat (- i)) OR 0x8000000000000000
      | Float x \<Rightarrow> x)"

definition json_as_f64 :: "json \<Rightarrow> f64 option" where
  "json_as_f64 v = (case v of J_num n \<Rightarrow> Some (number_as_f64 n) | _ \<Rightarrow> None)"

lemma f64_of_nat_examples:
  "f64_of_nat 1 = 0x3FF0000000000000"
  "f64_of_nat 3 = 0x4008000000000000"
  "f64_of_nat 9007199254740993 = 0x4340000000000000"
  "f64_of_nat 9007199254740995 = 0x4340000000000002"
  by (simp_all add: f64_of_nat_def bit_width.simps Let_def)

end
