(* ===== verification/Interpreter.thy ===== *)
theory Interpreter
  imports Json
begin

text \<open>
  The interpreter of self-made tools (src/assistant_evolution.rs, first half): the expression
  language, the validation of a definition, and the evaluation under a budget of fuel, charged
  memory and time. A run takes the budget and gives it back also when it fails, as the
  \<open>&mut Budget\<close> does. \<open>watch n\<close> is what the clock and the cancel flag say at the \<open>n\<close>-th check;
  the JSON encoder, the digest and the sizes of Rust's values are the functions of \<open>tool_env\<close>.
\<close>

datatype evolution_error =
  Invalid_definition string
| Limit string
| Not_found string
| Not_eligible string
| Approval_mismatch
| Evolution_database
| Evolution_serialization

section \<open>Scopes and definitions\<close>

type_synonym scope = "string list"

definition scope_union :: "scope list \<Rightarrow> scope" where
  "scope_union scopes = sort (remdups (concat scopes))"

definition scope_contains :: "scope \<Rightarrow> scope \<Rightarrow> bool" where
  "scope_contains s other \<longleftrightarrow> list_all (\<lambda>v. v \<in> set s) other"

datatype compare_op = Cmp_eq | Cmp_ne | Cmp_lt | Cmp_lte | Cmp_gt | Cmp_gte

datatype expr =
  E_input
| E_current
| E_field string
| E_current_field string
| E_literal json
| E_map expr expr
| E_filter expr expr
| E_compare compare_op expr expr
| E_and "expr list"
| E_or "expr list"
| E_not expr

record tool_definition =
  td_name :: string
  td_version :: u64
  td_input_scope :: scope
  td_expression :: expr

record scoped_input =
  si_value :: json
  si_scope :: scope

record tool_result =
  tr_value :: json
  tr_output_scope :: scope
  tr_tool_hash :: string
  tr_fuel_used :: u64
  tr_operations :: u64
  tr_provenance_warning :: "string option"

record tool_env =
  te_json :: "json \<Rightarrow> string"
  te_definition_json :: "tool_definition \<Rightarrow> string"
  te_sha256 :: "string \<Rightarrow> string"
  te_value_size :: nat
  te_field_size :: nat

definition max_definition_bytes :: nat where "max_definition_bytes = 262144"
definition max_ast_depth :: nat where "max_ast_depth = 32"
definition max_input_records :: nat where "max_input_records = 10000"
definition max_fuel :: nat where "max_fuel = 1000000"
definition max_charged_memory :: nat where "max_charged_memory = 33554432"
definition max_output_bytes :: nat where "max_output_bytes = 1048576"
definition max_value_depth :: nat where "max_value_depth = 64"

section \<open>Validation\<close>

definition u64_saturating_mul :: "u64 \<Rightarrow> u64 \<Rightarrow> u64" where
  "u64_saturating_mul a b = min u64_max (a * b)"

definition size_limit :: "nat \<Rightarrow> nat \<Rightarrow> evolution_error + nat" where
  "size_limit limit n = (if n > limit then Inl (Limit ''JSON value exceeds bounded memory'') else Inr n)"

fun measure_value :: "json \<Rightarrow> nat \<Rightarrow> nat \<Rightarrow> evolution_error + nat"
  and measure_items :: "json list \<Rightarrow> nat \<Rightarrow> nat \<Rightarrow> nat \<Rightarrow> evolution_error + nat"
  and measure_fields :: "(string \<times> json) list \<Rightarrow> nat \<Rightarrow> nat \<Rightarrow> nat \<Rightarrow> evolution_error + nat" where
  "measure_value v depth limit =
     rbind (ensure (depth \<le> max_value_depth) (Limit ''JSON value depth exceeded'')) (\<lambda>_.
     rbind
       (case v of
          J_null \<Rightarrow> Inr 4
        | J_bool b \<Rightarrow> Inr 5
        | J_num n \<Rightarrow> Inr 32
        | J_str s \<Rightarrow> Inr (case u64_checked_add (length s) 2 of None \<Rightarrow> limit + 1 | Some n \<Rightarrow> n)
        | J_arr vs \<Rightarrow> measure_items vs (depth + 1) limit 2
        | J_obj kvs \<Rightarrow> measure_fields kvs (depth + 1) limit 2)
       (size_limit limit))"
| "measure_items [] depth limit acc = Inr acc"
| "measure_items (v # vs) depth limit acc =
     rbind (measure_value v depth limit) (\<lambda>n.
       let acc' = u64_saturating_add acc n in
       if acc' > limit then Inr acc' else measure_items vs depth limit acc')"
| "measure_fields [] depth limit acc = Inr acc"
| "measure_fields ((k, v) # kvs) depth limit acc =
     rbind (measure_value v depth limit) (\<lambda>n.
       let acc' = u64_saturating_add (u64_saturating_add acc (length k)) n in
       if acc' > limit then Inr acc' else measure_fields kvs depth limit acc')"

fun ast_depth :: "expr \<Rightarrow> nat" where
  "ast_depth (E_map i e) = Suc (max (ast_depth i) (ast_depth e))"
| "ast_depth (E_filter i p) = Suc (max (ast_depth i) (ast_depth p))"
| "ast_depth (E_compare c l r) = Suc (max (ast_depth l) (ast_depth r))"
| "ast_depth (E_and items) = Suc (fold max (map ast_depth items) 0)"
| "ast_depth (E_or items) = Suc (fold max (map ast_depth items) 0)"
| "ast_depth (E_not i) = Suc (ast_depth i)"
| "ast_depth _ = 1"

fun validate_all :: "(evolution_error + unit) list \<Rightarrow> evolution_error + unit" where
  "validate_all [] = Inr ()"
| "validate_all (r # rs) = rbind r (\<lambda>_. validate_all rs)"

fun validate_expr :: "expr \<Rightarrow> nat \<Rightarrow> evolution_error + unit" where
  "validate_expr e depth =
     rbind (ensure (depth < max_ast_depth) (Limit ''AST depth exceeds 32'')) (\<lambda>_.
     case e of
       E_input \<Rightarrow> Inr ()
     | E_current \<Rightarrow> Inr ()
     | E_field path \<Rightarrow> ensure (length path \<le> max_definition_bytes) (Limit ''field path is too large'')
     | E_current_field path \<Rightarrow> ensure (length path \<le> max_definition_bytes) (Limit ''field path is too large'')
     | E_literal v \<Rightarrow> rbind (measure_value v depth max_definition_bytes) (\<lambda>_. Inr ())
     | E_map i e' \<Rightarrow> validate_all [validate_expr i (depth + 1), validate_expr e' (depth + 1)]
     | E_filter i p \<Rightarrow> validate_all [validate_expr i (depth + 1), validate_expr p (depth + 1)]
     | E_compare c l r \<Rightarrow> validate_all [validate_expr l (depth + 1), validate_expr r (depth + 1)]
     | E_and items \<Rightarrow> validate_all (map (\<lambda>x. validate_expr x (depth + 1)) items)
     | E_or items \<Rightarrow> validate_all (map (\<lambda>x. validate_expr x (depth + 1)) items)
     | E_not i \<Rightarrow> validate_expr i (depth + 1))"

declare measure_value.simps [simp del] validate_expr.simps [simp del]

definition bounded_json :: "string \<Rightarrow> nat \<Rightarrow> evolution_error + string" where
  "bounded_json encoded limit =
     (if length encoded \<le> limit then Inr encoded else Inl (Limit ''serialized JSON exceeds byte limit''))"

definition valid_tool_name :: "string \<Rightarrow> bool" where
  "valid_tool_name name \<longleftrightarrow>
     \<not> (blank name \<or> length name > 256 \<or> list_ex white_char (utf8_chars name) \<or> has_control name)"

definition validate_definition :: "tool_env \<Rightarrow> tool_definition \<Rightarrow> evolution_error + string" where
  "validate_definition env d =
     rbind (ensure (valid_tool_name (td_name d)) (Invalid_definition ''invalid name'')) (\<lambda>_.
     rbind (validate_expr (td_expression d) 0) (\<lambda>_.
     rbind (bounded_json (te_definition_json env d) max_definition_bytes) (\<lambda>encoded.
     rbind (ensure (length encoded \<le> max_definition_bytes) (Limit ''definition exceeds 256 KiB'')) (\<lambda>_.
     rbind (ensure (ast_depth (td_expression d) \<le> max_ast_depth) (Limit ''AST depth exceeds 32'')) (\<lambda>_.
     Inr (te_sha256 env encoded))))))"

section \<open>The budget\<close>

record budget =
  bg_fuel :: u64
  bg_memory :: nat
  bg_operations :: u64

datatype stop = Deadline | Cancelled

type_synonym watch = "nat \<Rightarrow> stop option"

type_synonym 'a run = "budget \<Rightarrow> (evolution_error + 'a) \<times> budget"

definition give :: "'a \<Rightarrow> 'a run" where
  "give x = (\<lambda>b. (Inr x, b))"

definition abort :: "evolution_error \<Rightarrow> 'a run" where
  "abort e = (\<lambda>b. (Inl e, b))"

definition and_then :: "'a run \<Rightarrow> ('a \<Rightarrow> 'b run) \<Rightarrow> 'b run" where
  "and_then m f = (\<lambda>b. case m b of (Inl e, b') \<Rightarrow> (Inl e, b') | (Inr x, b') \<Rightarrow> f x b')"

definition lifted :: "evolution_error + 'a \<Rightarrow> 'a run" where
  "lifted r = (\<lambda>b. (r, b))"

definition u64_checked_sub :: "u64 \<Rightarrow> u64 \<Rightarrow> u64 option" where
  "u64_checked_sub a b = (if b \<le> a then Some (a - b) else None)"

definition check_budget :: "watch \<Rightarrow> u64 \<Rightarrow> unit run" where
  "check_budget watch fuel b =
     (case u64_checked_add (bg_operations b) 1 of
        None \<Rightarrow> (Inl (Limit ''operation counter overflow''), b)
      | Some n \<Rightarrow>
          let b1 = b\<lparr>bg_operations := n\<rparr> in
          (case u64_checked_sub (bg_fuel b1) fuel of
             None \<Rightarrow> (Inl (Limit ''fuel exceeded''), b1)
           | Some left \<Rightarrow>
               let b2 = b1\<lparr>bg_fuel := left\<rparr> in
               (case watch n of
                  Some Deadline \<Rightarrow> (Inl (Limit ''execution deadline exceeded''), b2)
                | Some Cancelled \<Rightarrow> (Inl (Limit ''execution cancelled''), b2)
                | None \<Rightarrow> (Inr (), b2))))"

definition charge :: "nat \<Rightarrow> unit run" where
  "charge bytes b =
     (case u64_checked_add (bg_memory b) bytes of
        None \<Rightarrow> (Inl (Limit ''memory overflow''), b)
      | Some m \<Rightarrow>
          let b1 = b\<lparr>bg_memory := m\<rparr> in
          if m > max_charged_memory then (Inl (Limit ''charged memory exceeds 32 MiB''), b1) else (Inr (), b1))"

fun clone_value :: "tool_env \<Rightarrow> watch \<Rightarrow> json \<Rightarrow> nat \<Rightarrow> json run"
  and clone_items :: "tool_env \<Rightarrow> watch \<Rightarrow> json list \<Rightarrow> nat \<Rightarrow> json list run"
  and clone_fields :: "tool_env \<Rightarrow> watch \<Rightarrow> (string \<times> json) list \<Rightarrow> nat \<Rightarrow> (string \<times> json) list run" where
  "clone_value env watch v depth =
     and_then (check_budget watch 1) (\<lambda>_.
     and_then (lifted (measure_value v depth max_charged_memory)) (\<lambda>estimate.
     and_then (charge estimate) (\<lambda>_.
     case v of
       J_arr vs \<Rightarrow>
         and_then (charge (u64_saturating_mul (length vs) (te_value_size env))) (\<lambda>_.
         and_then (clone_items env watch vs (depth + 1)) (\<lambda>out. give (J_arr out)))
     | J_obj kvs \<Rightarrow>
         and_then (charge (u64_saturating_mul (length kvs) (te_field_size env))) (\<lambda>_.
         and_then (clone_fields env watch kvs (depth + 1)) (\<lambda>out. give (J_obj out)))
     | _ \<Rightarrow> give v)))"
| "clone_items env watch [] depth = give []"
| "clone_items env watch (v # vs) depth =
     and_then (clone_value env watch v depth) (\<lambda>x.
     and_then (clone_items env watch vs depth) (\<lambda>out. give (x # out)))"
| "clone_fields env watch [] depth = give []"
| "clone_fields env watch ((k, v) # kvs) depth =
     and_then (charge (length k)) (\<lambda>_.
     and_then (clone_value env watch v depth) (\<lambda>x.
     and_then (clone_fields env watch kvs depth) (\<lambda>out. give ((k, x) # out))))"

declare clone_value.simps [simp del]

section \<open>Evaluation\<close>

fun lookup_parts :: "json \<Rightarrow> string list \<Rightarrow> json option" where
  "lookup_parts v [] = Some v"
| "lookup_parts v (p # ps) = (case json_get v p of None \<Rightarrow> None | Some w \<Rightarrow> lookup_parts w ps)"

definition lookup :: "json \<Rightarrow> string \<Rightarrow> json option" where
  "lookup v path = (if path = [] then Some v else lookup_parts v (split_on (CHR ''.'') path))"

definition clone_lookup :: "tool_env \<Rightarrow> watch \<Rightarrow> json option \<Rightarrow> json run" where
  "clone_lookup env watch v = (case v of Some x \<Rightarrow> clone_value env watch x 0 | None \<Rightarrow> give J_null)"

definition order_of :: "json \<Rightarrow> json \<Rightarrow> ordering option" where
  "order_of l r =
     (case (json_as_f64 l, json_as_f64 r) of
        (Some a, Some b) \<Rightarrow> Some (f64_total_cmp a b)
      | _ \<Rightarrow>
          (case (json_as_str l, json_as_str r) of
             (Some a, Some b) \<Rightarrow> Some (compare_of a b)
           | _ \<Rightarrow> None))"

definition compare_values :: "compare_op \<Rightarrow> json \<Rightarrow> json \<Rightarrow> evolution_error + json" where
  "compare_values c l r =
     (if c = Cmp_eq then Inr (J_bool (json_eq l r))
      else if c = Cmp_ne then Inr (J_bool (\<not> json_eq l r))
      else rbind (ok_or (order_of l r) (Invalid_definition ''compare requires two numbers or strings'')) (\<lambda>ord.
        Inr (J_bool (case c of
          Cmp_lt \<Rightarrow> ord = Less
        | Cmp_lte \<Rightarrow> ord \<noteq> Greater
        | Cmp_gt \<Rightarrow> ord = Greater
        | _ \<Rightarrow> ord \<noteq> Less))))"

text \<open>The loops of map, filter, and, or: each runs the evaluation it is given on the elements in turn.\<close>

fun each :: "(json \<Rightarrow> json run) \<Rightarrow> json list \<Rightarrow> json list run" where
  "each f [] = give []"
| "each f (v # vs) = and_then (f v) (\<lambda>x. and_then (each f vs) (\<lambda>out. give (x # out)))"

fun keep :: "(json \<Rightarrow> json run) \<Rightarrow> (json \<Rightarrow> json run) \<Rightarrow> json list \<Rightarrow> json list run" where
  "keep f copy [] = give []"
| "keep f copy (v # vs) =
     and_then (f v) (\<lambda>t.
       if json_as_bool t = Some True
       then and_then (copy v) (\<lambda>x. and_then (keep f copy vs) (\<lambda>out. give (x # out)))
       else keep f copy vs)"

fun all_true :: "json run list \<Rightarrow> bool run" where
  "all_true [] = give True"
| "all_true (r # rs) = and_then r (\<lambda>v. if json_as_bool v = Some True then all_true rs else give False)"

fun any_true :: "json run list \<Rightarrow> bool run" where
  "any_true [] = give False"
| "any_true (r # rs) = and_then r (\<lambda>v. if json_as_bool v = Some True then give True else any_true rs)"

definition counted :: "watch \<Rightarrow> json run \<Rightarrow> json run" where
  "counted watch body =
     and_then (check_budget watch 1) (\<lambda>_. and_then body (\<lambda>v. and_then (charge 0) (\<lambda>_. give v)))"

definition need_current :: "string \<Rightarrow> json option \<Rightarrow> json run" where
  "need_current what current = lifted (ok_or current (Invalid_definition what))"

fun eval :: "tool_env \<Rightarrow> watch \<Rightarrow> expr \<Rightarrow> json \<Rightarrow> json option \<Rightarrow> json run" where
  "eval env watch E_input root current = counted watch (clone_value env watch root 0)"
| "eval env watch E_current root current =
     counted watch (and_then (need_current ''current used outside map/filter'' current)
       (\<lambda>v. clone_value env watch v 0))"
| "eval env watch (E_field path) root current = counted watch (clone_lookup env watch (lookup root path))"
| "eval env watch (E_current_field path) root current =
     counted watch (and_then (need_current ''current field outside map/filter'' current)
       (\<lambda>v. clone_lookup env watch (lookup v path)))"
| "eval env watch (E_literal v) root current = counted watch (clone_value env watch v 0)"
| "eval env watch (E_map i e) root current =
     counted watch
       (and_then (eval env watch i root current) (\<lambda>evaluated.
        and_then (lifted (ok_or (json_as_array evaluated) (Invalid_definition ''map input must be an array''))) (\<lambda>vs.
        and_then (charge (u64_saturating_mul (length vs) (te_value_size env))) (\<lambda>_.
        and_then (each (\<lambda>v. eval env watch e root (Some v)) vs) (\<lambda>out. give (J_arr out))))))"
| "eval env watch (E_filter i p) root current =
     counted watch
       (and_then (eval env watch i root current) (\<lambda>evaluated.
        and_then (lifted (ok_or (json_as_array evaluated) (Invalid_definition ''filter input must be an array''))) (\<lambda>vs.
        and_then (charge (u64_saturating_mul (length vs) (te_value_size env))) (\<lambda>_.
        and_then (keep (\<lambda>v. eval env watch p root (Some v)) (\<lambda>v. clone_value env watch v 0) vs)
          (\<lambda>out. give (J_arr out))))))"
| "eval env watch (E_compare c l r) root current =
     counted watch
       (and_then (eval env watch l root current) (\<lambda>a.
        and_then (eval env watch r root current) (\<lambda>b. lifted (compare_values c a b))))"
| "eval env watch (E_and items) root current =
     counted watch (and_then (all_true (map (\<lambda>e. eval env watch e root current) items)) (\<lambda>b. give (J_bool b)))"
| "eval env watch (E_or items) root current =
     counted watch (and_then (any_true (map (\<lambda>e. eval env watch e root current) items)) (\<lambda>b. give (J_bool b)))"
| "eval env watch (E_not i) root current =
     counted watch (and_then (eval env watch i root current)
       (\<lambda>v. give (J_bool (\<not> (json_as_bool v = Some True)))))"

fun charge_each :: "string list \<Rightarrow> unit run" where
  "charge_each [] = give ()"
| "charge_each (s # ss) = and_then (charge (length s)) (\<lambda>_. charge_each ss)"

fun load_inputs :: "tool_env \<Rightarrow> watch \<Rightarrow> scoped_input list \<Rightarrow> json list run" where
  "load_inputs env watch [] = give []"
| "load_inputs env watch (i # inputs) =
     and_then (charge_each (si_scope i)) (\<lambda>_.
     and_then (clone_value env watch (si_value i) 0) (\<lambda>v.
     and_then (load_inputs env watch inputs) (\<lambda>vs. give (v # vs))))"

definition fresh_budget :: budget where
  "fresh_budget = \<lparr> bg_fuel = max_fuel, bg_memory = 0, bg_operations = 0 \<rparr>"

definition execute_body :: "tool_env \<Rightarrow> watch \<Rightarrow> tool_definition \<Rightarrow> scoped_input list \<Rightarrow> json run" where
  "execute_body env watch d inputs =
     and_then (charge (u64_saturating_mul (length inputs) (te_value_size env))) (\<lambda>_.
     and_then (load_inputs env watch inputs) (\<lambda>values.
     and_then (eval env watch (td_expression d) (J_arr values) None) (\<lambda>v.
     and_then (lifted (measure_value v 0 max_output_bytes)) (\<lambda>output_bytes.
     and_then (lifted (ensure (output_bytes \<le> max_output_bytes) (Limit ''output exceeds 1 MiB''))) (\<lambda>_.
     and_then (charge output_bytes) (\<lambda>_.
     and_then (lifted (bounded_json (te_json env v) max_output_bytes)) (\<lambda>_. give v)))))))"

definition execute ::
  "tool_env \<Rightarrow> watch \<Rightarrow> tool_definition \<Rightarrow> scoped_input list \<Rightarrow> evolution_error + tool_result" where
  "execute env watch d inputs =
     rbind (validate_definition env d) (\<lambda>hash.
     rbind (ensure (length inputs \<le> max_input_records) (Limit ''input records exceed 10,000'')) (\<lambda>_.
     case execute_body env watch d inputs fresh_budget of
       (Inl e, b) \<Rightarrow> Inl e
     | (Inr v, b) \<Rightarrow>
         Inr \<lparr> tr_value = v, tr_output_scope = scope_union (map si_scope inputs), tr_tool_hash = hash,
               tr_fuel_used = max_fuel - bg_fuel b, tr_operations = bg_operations b, tr_provenance_warning = None \<rparr>))"

end
