(* ===== verification/Registry.thy ===== *)
theory Registry
  imports Interpreter Launches
begin

text \<open>
  The registry of self-made tools (src/assistant_evolution.rs, second half): candidates by content
  hash, protected suites and their evaluations, grants, activations, comparisons and what people and
  workers reported. The tables hold the values the code writes into their JSON columns. \<open>now\<close> is the
  clock an operation reads; \<open>case_watch\<close> is what the clock and the cancel flag say around one case.
  An activation reads and writes under three locks, an invocation under four: each takes the
  registry as it is at that moment.
\<close>

section \<open>Tables\<close>

record candidate_row =
  cr_hash :: string
  cr_name :: string
  cr_definition :: tool_definition
  cr_evidence :: string
  cr_created_at :: f64

record candidate_manifest =
  cm_definition :: tool_definition
  cm_authoring_evidence :: string

record evaluation_case =
  ec_inputs :: "scoped_input list"
  ec_expected :: json

record suite_row =
  ps_suite_id :: string
  ps_cases :: "evaluation_case list"
  ps_suite_hash :: string

record evaluation_report =
  er_tool_hash :: string
  er_passed :: bool
  er_cases :: nat
  er_failures :: "string list"

record evaluation_row =
  tv_hash :: string
  tv_suite_id :: string
  tv_report :: evaluation_report
  tv_passed :: bool
  tv_created_at :: f64

record grant_row =
  tg_grant_id :: string
  tg_hash :: string
  tg_scope :: scope
  tg_expires_at :: "f64 option"
  tg_revoked :: bool
  tg_created_at :: f64

record activation_row =
  ta_name :: string
  ta_hash :: string
  ta_grant_id :: string
  ta_active :: bool

record comparison_receipt =
  rc_candidate_hash :: string
  rc_baseline_hash :: "string option"
  rc_suite_id :: string
  rc_candidate_passed :: nat
  rc_baseline_passed :: "nat option"
  rc_candidate_fuel :: u64
  rc_baseline_fuel :: "u64 option"
  rc_candidate_operations :: u64
  rc_baseline_operations :: "u64 option"
  rc_verdict :: string

record report_row =
  rr_hash :: string
  rr_outcome :: string
  rr_evidence :: string
  rr_created_at :: f64

record registry =
  rg_candidates :: "candidate_row list"
  rg_suites :: "suite_row list"
  rg_required :: "(string \<times> string) list"
  rg_evaluations :: "evaluation_row list"
  rg_grants :: "grant_row list"
  rg_activations :: "activation_row list"
  rg_comparisons :: "(comparison_receipt \<times> scope) list"
  rg_assessments :: "report_row list"
  rg_retirements :: "(string \<times> f64) list"
  rg_observations :: "report_row list"
  rg_contract_failures :: "(string \<times> f64) list"

definition empty_registry :: registry where
  "empty_registry = \<lparr> rg_candidates = [], rg_suites = [], rg_required = [], rg_evaluations = [],
     rg_grants = [], rg_activations = [], rg_comparisons = [], rg_assessments = [], rg_retirements = [],
     rg_observations = [], rg_contract_failures = [] \<rparr>"

record approval_grant =
  ag_grant_id :: string
  ag_tool_hash :: string
  ag_scope :: scope

record case_watch =
  cw_before :: bool
  cw_run :: watch
  cw_after :: bool

record registry_env = tool_env +
  te_cases_json :: "evaluation_case list \<Rightarrow> string"

section \<open>Authoring\<close>

definition candidate :: "registry \<Rightarrow> string \<Rightarrow> candidate_row option" where
  "candidate s hash = row_by cr_hash hash (rg_candidates s)"

definition register :: "tool_env \<Rightarrow> candidate_manifest \<Rightarrow> f64 \<Rightarrow> registry \<Rightarrow> evolution_error + string \<times> registry" where
  "register env m now s =
     rbind (ensure (length (cm_authoring_evidence m) \<le> max_definition_bytes)
       (Limit ''authoring evidence exceeds 256 KiB'')) (\<lambda>_.
     rbind (validate_definition env (cm_definition m)) (\<lambda>hash.
     Inr (hash, s\<lparr>rg_candidates := insert_or_ignore cr_hash
       \<lparr> cr_hash = hash, cr_name = td_name (cm_definition m), cr_definition = cm_definition m,
         cr_evidence = cm_authoring_evidence m, cr_created_at = now \<rparr> (rg_candidates s)\<rparr>)))"

section \<open>Protected suites\<close>

definition check_case :: "evaluation_case \<Rightarrow> evolution_error + unit" where
  "check_case c =
     rbind (ensure (length (ec_inputs c) \<le> max_input_records)
       (Limit ''protected case has too many records'')) (\<lambda>_.
     validate_all (map (\<lambda>i.
       rbind (measure_value (si_value i) 0 max_definition_bytes) (\<lambda>_.
       rbind (ensure (sum_list (map length (si_scope i)) \<le> max_definition_bytes)
         (Limit ''protected scope is too large'')) (\<lambda>_.
       rbind (measure_value (ec_expected c) 0 max_output_bytes) (\<lambda>_. Inr ())))) (ec_inputs c)))"

definition protect_suite ::
  "registry_env \<Rightarrow> string \<Rightarrow> evaluation_case list \<Rightarrow> registry \<Rightarrow> evolution_error + registry" where
  "protect_suite env suite_id cases s =
     rbind (ensure (suite_id \<noteq> [] \<and> cases \<noteq> [])
       (Invalid_definition ''protected suite must be named and non-empty'')) (\<lambda>_.
     rbind (ensure (length cases \<le> max_input_records) (Limit ''protected suite has too many cases'')) (\<lambda>_.
     rbind (validate_all (map check_case cases)) (\<lambda>_.
     rbind (bounded_json (te_cases_json env cases) max_definition_bytes) (\<lambda>encoded.
     rbind (ensure (length encoded \<le> max_definition_bytes) (Limit ''protected suite exceeds 256 KiB'')) (\<lambda>_.
     let suite_hash = te_sha256 env encoded;
         existing = map_option ps_suite_hash (row_by ps_suite_id suite_id (rg_suites s)) in
     rbind (ensure (existing = None \<or> existing = Some suite_hash) Approval_mismatch) (\<lambda>_.
     Inr (if list_ex (\<lambda>r. ps_suite_id r = suite_id \<or> ps_suite_hash r = suite_hash) (rg_suites s) then s
          else s\<lparr>rg_suites := rg_suites s @
            [\<lparr> ps_suite_id = suite_id, ps_cases = cases, ps_suite_hash = suite_hash \<rparr>]\<rparr>)))))))"

definition required_suites :: "registry \<Rightarrow> string \<Rightarrow> string list" where
  "required_suites s hash = sort (map snd (filter (\<lambda>r. fst r = hash) (rg_required s)))"

fun missing_suite :: "registry \<Rightarrow> string list \<Rightarrow> string option" where
  "missing_suite s [] = None"
| "missing_suite s (w # ws) =
     (if list_ex (\<lambda>r. ps_suite_id r = w) (rg_suites s) then missing_suite s ws else Some w)"

definition designate_required :: "string \<Rightarrow> string list \<Rightarrow> registry \<Rightarrow> evolution_error + registry" where
  "designate_required hash suites s =
     rbind (ensure (suites \<noteq> []) (Not_eligible ''candidate has no protected evaluator suites'')) (\<lambda>_.
     rbind (ensure (list_ex (\<lambda>r. cr_hash r = hash) (rg_candidates s)) (Not_found hash)) (\<lambda>_.
     let existing = required_suites s hash; wanted = remdups_adj (sort suites) in
     if existing \<noteq> [] then
       (if existing = wanted then Inr s else Inl Approval_mismatch)
     else case missing_suite s wanted of
       Some w \<Rightarrow> Inl (Not_found w)
     | None \<Rightarrow> Inr (s\<lparr>rg_required := rg_required s @ map (\<lambda>w. (hash, w)) wanted\<rparr>)))"

section \<open>Evaluation\<close>

definition show_error :: "evolution_error \<Rightarrow> string" where
  "show_error e =
     (case e of
        Invalid_definition m \<Rightarrow> ''invalid tool definition: '' @ m
      | Limit m \<Rightarrow> ''tool resource limit exceeded: '' @ m
      | Not_found m \<Rightarrow> ''tool was not found: '' @ m
      | Not_eligible m \<Rightarrow> ''tool is not eligible for activation: '' @ m
      | Approval_mismatch \<Rightarrow> ''activation approval does not match the exact tool or scope''
      | Evolution_database \<Rightarrow> ''database error: ''
      | Evolution_serialization \<Rightarrow> ''serialization error: '')"

definition stopped_suite :: string where
  "stopped_suite = ''suite cancelled or deadline exceeded; remaining cases were not passed''"

fun evaluate_cases ::
  "tool_env \<Rightarrow> (nat \<Rightarrow> case_watch) \<Rightarrow> tool_definition \<Rightarrow> nat \<Rightarrow> evaluation_case list \<Rightarrow> string list" where
  "evaluate_cases env ws d index [] = []"
| "evaluate_cases env ws d index (c # cs) =
     (if cw_before (ws index) then [stopped_suite]
      else (case execute env (cw_run (ws index)) d (ec_inputs c) of
              Inr r \<Rightarrow> (if json_eq (tr_value r) (ec_expected c) then []
                         else [''case '' @ decimal index @ '': output mismatch''])
            | Inl e \<Rightarrow> [''case '' @ decimal index @ '': '' @ show_error e])
           @ evaluate_cases env ws d (index + 1) cs)"

definition evaluate_suite ::
  "tool_env \<Rightarrow> (nat \<Rightarrow> case_watch) \<Rightarrow> string \<Rightarrow> string \<Rightarrow> f64 \<Rightarrow> registry
    \<Rightarrow> evolution_error + evaluation_report \<times> registry" where
  "evaluate_suite env ws hash suite_id now s =
     rbind (ok_or (candidate s hash) (Not_found hash)) (\<lambda>c.
     rbind (ok_or (row_by ps_suite_id suite_id (rg_suites s)) (Not_found suite_id)) (\<lambda>suite.
     let failures = evaluate_cases env ws (cr_definition c) 0 (ps_cases suite);
         report = \<lparr> er_tool_hash = hash, er_passed = (failures = [] \<and> ps_cases suite \<noteq> []),
                    er_cases = length (ps_cases suite), er_failures = failures \<rparr> in
     Inr (report, s\<lparr>rg_evaluations := rg_evaluations s @
       [\<lparr> tv_hash = hash, tv_suite_id = suite_id, tv_report = report, tv_passed = er_passed report,
          tv_created_at = now \<rparr>]\<rparr>)))"

definition last_report :: "registry \<Rightarrow> string \<Rightarrow> string \<Rightarrow> evaluation_report option" where
  "last_report s suite hash =
     map_option tv_report (row_by (\<lambda>r. (tv_suite_id r, tv_hash r)) (suite, hash) (rev (rg_evaluations s)))"

fun aggregate_reports ::
  "registry \<Rightarrow> string \<Rightarrow> string list \<Rightarrow> evaluation_report option \<Rightarrow> string list
    \<Rightarrow> evaluation_report option \<times> string list" where
  "aggregate_reports s hash [] acc missing = (acc, missing)"
| "aggregate_reports s hash (suite # suites) acc missing =
     (case last_report s suite hash of
        None \<Rightarrow> aggregate_reports s hash suites acc (missing @ [suite @ '': required evaluation not completed''])
      | Some report \<Rightarrow>
          let current = (case acc of Some r \<Rightarrow> r
            | None \<Rightarrow> \<lparr> er_tool_hash = er_tool_hash report, er_passed = True, er_cases = 0, er_failures = [] \<rparr>) in
          aggregate_reports s hash suites
            (Some (current\<lparr> er_cases := er_cases current + er_cases report,
                            er_passed := er_passed current \<and> er_passed report,
                            er_failures := er_failures current
                              @ map (\<lambda>f. suite @ '': '' @ f) (er_failures report) \<rparr>)) missing)"

definition latest_evaluation :: "registry \<Rightarrow> string \<Rightarrow> string \<Rightarrow> evaluation_report option" where
  "latest_evaluation s suite_id hash =
     (let required = required_suites s hash;
          suites = (if required = [] then [suite_id] else required);
          (aggregate, missing) = aggregate_reports s hash suites None [] in
      map_option (\<lambda>r.
        let failures = er_failures r @ missing in
        r\<lparr> er_failures := failures, er_passed := er_passed r \<and> er_cases r \<noteq> 0 \<and> failures = [] \<rparr>) aggregate)"

section \<open>Comparison\<close>

fun run_comparison_cases ::
  "tool_env \<Rightarrow> (nat \<Rightarrow> case_watch) \<Rightarrow> tool_definition \<Rightarrow> nat \<Rightarrow> evaluation_case list
    \<Rightarrow> nat \<Rightarrow> u64 \<Rightarrow> u64 \<Rightarrow> evolution_error + nat \<times> u64 \<times> u64" where
  "run_comparison_cases env ws d index [] passed fuel operations = Inr (passed, fuel, operations)"
| "run_comparison_cases env ws d index (c # cs) passed fuel operations =
     (if cw_before (ws index) then Inl (Limit ''comparison cancelled or deadline exceeded'')
      else case execute env (cw_run (ws index)) d (ec_inputs c) of
        Inr r \<Rightarrow>
          if cw_after (ws index) then Inl (Limit ''comparison cancelled or deadline exceeded'')
          else run_comparison_cases env ws d (index + 1) cs
            (if json_eq (tr_value r) (ec_expected c) then passed + 1 else passed)
            (u64_saturating_add fuel (tr_fuel_used r)) (u64_saturating_add operations (tr_operations r))
      | Inl e \<Rightarrow>
          if cw_after (ws index) then Inl e
          else run_comparison_cases env ws d (index + 1) cs passed fuel operations)"

definition alive :: "f64 \<Rightarrow> f64 option \<Rightarrow> bool" where
  "alive now expires_at = (case expires_at of None \<Rightarrow> True | Some v \<Rightarrow> f64_lt now v)"

definition granted_activations :: "registry \<Rightarrow> (activation_row \<Rightarrow> bool) \<Rightarrow> (activation_row \<times> grant_row) list" where
  "granted_activations s p =
     concat (map (\<lambda>a. map (\<lambda>g. (a, g)) (filter (\<lambda>g. tg_grant_id g = ta_grant_id a) (rg_grants s)))
       (filter (\<lambda>a. p a \<and> ta_active a) (rg_activations s)))"

definition comparison_baseline_hash :: "registry \<Rightarrow> candidate_row \<Rightarrow> string \<Rightarrow> f64 \<Rightarrow> string option" where
  "comparison_baseline_hash s c candidate_hash now =
     map_option (ta_hash \<circ> fst) (find (\<lambda>(a, g).
       ta_hash a \<noteq> candidate_hash \<and> tg_scope g = td_input_scope (cr_definition c)
       \<and> \<not> tg_revoked g \<and> alive now (tg_expires_at g))
       (granted_activations s (\<lambda>a. ta_name a = td_name (cr_definition c))))"

definition active_baseline_hash :: "registry \<Rightarrow> string \<Rightarrow> scope \<Rightarrow> f64 \<Rightarrow> string option" where
  "active_baseline_hash s name scope now =
     map_option (ta_hash \<circ> fst) (find (\<lambda>(a, g).
       tg_scope g = scope \<and> \<not> tg_revoked g \<and> alive now (tg_expires_at g))
       (granted_activations s (\<lambda>a. ta_name a = name)))"

definition compare_baseline ::
  "tool_env \<Rightarrow> (nat \<Rightarrow> case_watch) \<Rightarrow> candidate_row option \<Rightarrow> candidate_row \<Rightarrow> evaluation_case list
    \<Rightarrow> evolution_error + nat option \<times> u64 option \<times> u64 option" where
  "compare_baseline env ws baseline c cases =
     (case baseline of
        Some record \<Rightarrow>
          if td_input_scope (cr_definition record) = td_input_scope (cr_definition c) then
            rbind (run_comparison_cases env ws (cr_definition record) 0 cases 0 0 0)
              (\<lambda>(passed, fuel, operations). Inr (Some passed, Some fuel, Some operations))
          else Inr (None, None, None)
      | None \<Rightarrow> Inr (None, None, None))"

definition comparison_verdict :: "nat option \<Rightarrow> nat \<Rightarrow> string" where
  "comparison_verdict baseline_passed candidate_passed =
     (case baseline_passed of
        None \<Rightarrow> ''first_candidate''
      | Some previous \<Rightarrow>
          if candidate_passed > previous then ''improvement''
          else if candidate_passed < previous then ''regression''
          else ''equivalent'')"

definition compare_candidate ::
  "tool_env \<Rightarrow> (nat \<Rightarrow> case_watch) \<Rightarrow> (nat \<Rightarrow> case_watch) \<Rightarrow> string \<Rightarrow> string \<Rightarrow> f64 \<Rightarrow> registry
    \<Rightarrow> evolution_error + comparison_receipt \<times> registry" where
  "compare_candidate env ws ws' suite_id candidate_hash now s =
     rbind (ok_or (candidate s candidate_hash) (Not_found candidate_hash)) (\<lambda>c.
     rbind (ok_or (row_by ps_suite_id suite_id (rg_suites s)) (Not_found suite_id)) (\<lambda>suite.
     rbind (run_comparison_cases env ws (cr_definition c) 0 (ps_cases suite) 0 0 0) (\<lambda>(passed, fuel, operations).
     let baseline_hash = comparison_baseline_hash s c candidate_hash now;
         baseline = Option.bind baseline_hash (candidate s) in
     rbind (compare_baseline env ws' baseline c (ps_cases suite)) (\<lambda>(b_passed, b_fuel, b_operations).
     let receipt = \<lparr> rc_candidate_hash = candidate_hash, rc_baseline_hash = baseline_hash,
           rc_suite_id = suite_id, rc_candidate_passed = passed, rc_baseline_passed = b_passed,
           rc_candidate_fuel = fuel, rc_baseline_fuel = b_fuel, rc_candidate_operations = operations,
           rc_baseline_operations = b_operations, rc_verdict = comparison_verdict b_passed passed \<rparr> in
     Inr (receipt, s\<lparr>rg_comparisons := rg_comparisons s @ [(receipt, td_input_scope (cr_definition c))]\<rparr>)))))"

definition latest_comparison :: "registry \<Rightarrow> string \<Rightarrow> string \<Rightarrow> comparison_receipt option" where
  "latest_comparison s suite_id candidate_hash =
     row_by (\<lambda>r. (rc_suite_id r, rc_candidate_hash r)) (suite_id, candidate_hash)
       (rev (map fst (rg_comparisons s)))"

section \<open>Grants\<close>

definition is_retired :: "registry \<Rightarrow> string \<Rightarrow> bool" where
  "is_retired s hash \<longleftrightarrow> list_ex (\<lambda>r. fst r = hash) (rg_retirements s)"

definition issue_grant ::
  "string \<Rightarrow> scope \<Rightarrow> f64 option \<Rightarrow> string \<Rightarrow> f64 \<Rightarrow> registry \<Rightarrow> evolution_error + approval_grant \<times> registry" where
  "issue_grant hash scope expires_at uuid now s =
     rbind (ensure (case expires_at of None \<Rightarrow> True | Some v \<Rightarrow> f64_is_finite v \<and> \<not> f64_le v now)
       Approval_mismatch) (\<lambda>_.
     rbind (ok_or (candidate s hash) (Not_found hash)) (\<lambda>c.
     rbind (ensure (scope_contains scope (td_input_scope (cr_definition c))) Approval_mismatch) (\<lambda>_.
     let grant_id = ''grant-'' @ uuid in
     rbind (ensure (\<not> is_retired s hash)
       (Not_eligible ''retired candidate cannot receive a new approval grant'')) (\<lambda>_.
     rbind (ensure (row_by tg_grant_id grant_id (rg_grants s) = None) Evolution_database) (\<lambda>_.
     Inr (\<lparr> ag_grant_id = grant_id, ag_tool_hash = hash, ag_scope = scope \<rparr>,
       s\<lparr>rg_grants := rg_grants s @
         [\<lparr> tg_grant_id = grant_id, tg_hash = hash, tg_scope = scope, tg_expires_at = expires_at,
            tg_revoked = False, tg_created_at = now \<rparr>]\<rparr>))))))"

definition revoke :: "string \<Rightarrow> registry \<Rightarrow> evolution_error + registry" where
  "revoke grant_id s =
     rbind (ensure (count_where (\<lambda>g. tg_grant_id g = grant_id) (rg_grants s) \<noteq> 0) (Not_found grant_id)) (\<lambda>_.
     Inr (s\<lparr>rg_grants := update_where (\<lambda>g. tg_grant_id g = grant_id) (tg_revoked_update (\<lambda>_. True)) (rg_grants s)\<rparr>))"

section \<open>Activation\<close>

definition validate_grant_activation ::
  "approval_grant \<Rightarrow> candidate_row \<Rightarrow> string \<Rightarrow> scope \<Rightarrow> f64 option \<Rightarrow> bool \<Rightarrow> f64 \<Rightarrow> evolution_error + unit" where
  "validate_grant_activation grant c stored_hash stored_scope expires_at revoked now =
     (let exact_grant = (stored_hash = ag_tool_hash grant \<and> stored_scope = ag_scope grant);
          valid_state = (\<not> revoked \<and> alive now expires_at);
          scope_is_sufficient = scope_contains stored_scope (td_input_scope (cr_definition c)) in
      ensure (exact_grant \<and> valid_state \<and> scope_is_sufficient) Approval_mismatch)"

definition read_grant :: "approval_grant \<Rightarrow> f64 \<Rightarrow> registry \<Rightarrow> evolution_error + candidate_row \<times> string" where
  "read_grant grant now s =
     rbind (ok_or (candidate s (ag_tool_hash grant)) (Not_found (ag_tool_hash grant))) (\<lambda>c.
     rbind (ok_or (row_by tg_grant_id (ag_grant_id grant) (rg_grants s)) Approval_mismatch) (\<lambda>g.
     rbind (validate_grant_activation grant c (tg_hash g) (tg_scope g) (tg_expires_at g) (tg_revoked g) now) (\<lambda>_.
     Inr (c, tg_hash g))))"

definition suite_passed :: "registry \<Rightarrow> string \<Rightarrow> string \<Rightarrow> bool" where
  "suite_passed s hash suite \<longleftrightarrow>
     list_ex (\<lambda>e. tv_hash e = hash \<and> tv_suite_id e = suite \<and> tv_passed e) (rg_evaluations s)"

definition suite_failed :: "registry \<Rightarrow> string \<Rightarrow> string \<Rightarrow> bool" where
  "suite_failed s hash suite \<longleftrightarrow>
     list_ex (\<lambda>e. tv_hash e = hash \<and> tv_suite_id e = suite \<and> \<not> tv_passed e) (rg_evaluations s)"

definition ensure_candidate_eligible :: "string \<Rightarrow> registry \<Rightarrow> evolution_error + unit" where
  "ensure_candidate_eligible hash s =
     rbind (ensure (\<not> is_retired s hash)
       (Not_eligible ''human-reported regression or retirement; create and evaluate a new version'')) (\<lambda>_.
     let required = count_where (\<lambda>r. fst r = hash) (rg_required s);
         passed = count_where (\<lambda>r. fst r = hash \<and> suite_passed s hash (snd r) \<and> \<not> suite_failed s hash (snd r))
           (rg_required s) in
     ensure (required \<noteq> 0 \<and> required = passed)
       (Not_eligible ''all mandatory protected evaluator suites must pass with no failure history''))"

definition store_activation ::
  "candidate_row \<Rightarrow> string \<Rightarrow> approval_grant \<Rightarrow> f64 \<Rightarrow> registry \<Rightarrow> evolution_error + registry" where
  "store_activation c hash grant now s =
     rbind (ensure
       (list_ex (\<lambda>g. tg_grant_id g = ag_grant_id grant \<and> tg_hash g = hash \<and> \<not> tg_revoked g
          \<and> alive now (tg_expires_at g) \<and> \<not> is_retired s hash) (rg_grants s)) Approval_mismatch) (\<lambda>_.
     let name = td_name (cr_definition c);
         existing = Option.bind (row_by ta_name name (rg_activations s)) (\<lambda>a. candidate s (ta_hash a)) in
     rbind (ensure (case existing of None \<Rightarrow> True
         | Some old \<Rightarrow> td_input_scope (cr_definition old) = td_input_scope (cr_definition c))
       (Not_eligible ''tool name belongs to a different scope; author a distinct name'')) (\<lambda>_.
     Inr (s\<lparr>rg_activations := upsert_row ta_name
       \<lparr> ta_name = name, ta_hash = hash, ta_grant_id = ag_grant_id grant, ta_active = True \<rparr>
       (\<lambda>a. a\<lparr> ta_hash := hash, ta_grant_id := ag_grant_id grant, ta_active := True \<rparr>) (rg_activations s)\<rparr>)))"

text \<open>Nobody writes between the three locks of \<open>activate_grant\<close> here; \<open>Desk\<close> lets others in between.\<close>

definition activate_grant :: "approval_grant \<Rightarrow> f64 \<Rightarrow> f64 \<Rightarrow> registry \<Rightarrow> evolution_error + registry" where
  "activate_grant grant now now' s =
     rbind (read_grant grant now s) (\<lambda>(c, hash).
     rbind (ensure_candidate_eligible hash s) (\<lambda>_. store_activation c hash grant now' s))"

definition rollback_grant :: "string \<Rightarrow> approval_grant \<Rightarrow> f64 \<Rightarrow> f64 \<Rightarrow> registry \<Rightarrow> evolution_error + registry" where
  "rollback_grant name approval now now' s =
     rbind (ok_or (candidate s (ag_tool_hash approval)) (Not_found (ag_tool_hash approval))) (\<lambda>c.
     rbind (ensure (td_name (cr_definition c) = name) Approval_mismatch) (\<lambda>_.
     activate_grant approval now now' s))"

section \<open>Invocation\<close>

definition active_tool_grant :: "string \<Rightarrow> registry \<Rightarrow> evolution_error + string \<times> string" where
  "active_tool_grant name s =
     (case find (\<lambda>a. ta_name a = name \<and> ta_active a) (rg_activations s) of
        Some a \<Rightarrow> Inr (ta_hash a, ta_grant_id a)
      | None \<Rightarrow> Inl (Not_found name))"

definition invocation_scope ::
  "string \<Rightarrow> scoped_input list \<Rightarrow> candidate_row \<Rightarrow> f64 \<Rightarrow> registry \<Rightarrow> evolution_error + scope" where
  "invocation_scope grant_id inputs c now s =
     rbind (ok_or (row_by tg_grant_id grant_id (rg_grants s)) Evolution_database) (\<lambda>g.
     let scope = tg_scope g; actual = scope_union (map si_scope inputs) in
     rbind (ensure (\<not> (tg_revoked g
         \<or> (case tg_expires_at g of None \<Rightarrow> False | Some v \<Rightarrow> f64_le v now)
         \<or> \<not> scope_contains scope actual
         \<or> \<not> scope_contains scope (td_input_scope (cr_definition c)))) Approval_mismatch) (\<lambda>_.
     Inr scope))"

definition ensure_grant_still_valid :: "string \<Rightarrow> f64 \<Rightarrow> registry \<Rightarrow> evolution_error + unit" where
  "ensure_grant_still_valid grant_id now s =
     rbind (ok_or (row_by tg_grant_id grant_id (rg_grants s)) Evolution_database) (\<lambda>g.
     ensure (\<not> tg_revoked g \<and> alive now (tg_expires_at g)) Approval_mismatch)"

text \<open>\<open>s1\<close> to \<open>s4\<close> are the registry at the four locks, \<open>now\<close> and \<open>now'\<close> the clock at the last two.\<close>

definition invoke ::
  "tool_env \<Rightarrow> watch \<Rightarrow> string \<Rightarrow> scoped_input list \<Rightarrow> f64 \<Rightarrow> f64
    \<Rightarrow> registry \<Rightarrow> registry \<Rightarrow> registry \<Rightarrow> registry \<Rightarrow> evolution_error + tool_result" where
  "invoke env w name inputs now now' s1 s2 s3 s4 =
     rbind (active_tool_grant name s1) (\<lambda>(hash, grant_id).
     rbind (ok_or (candidate s2 hash) (Not_found hash)) (\<lambda>c.
     rbind (invocation_scope grant_id inputs c now s3) (\<lambda>scope.
     rbind (execute env w (cr_definition c) inputs) (\<lambda>result.
     rbind (ensure (scope_contains scope (tr_output_scope result)) Approval_mismatch) (\<lambda>_.
     rbind (ensure_grant_still_valid grant_id now' s4) (\<lambda>_. Inr result))))))"

definition is_active_hash :: "registry \<Rightarrow> string \<Rightarrow> scope \<Rightarrow> f64 \<Rightarrow> bool" where
  "is_active_hash s hash requested_scope now \<longleftrightarrow>
     list_ex (\<lambda>(a, g). \<not> tg_revoked g \<and> alive now (tg_expires_at g) \<and> scope_contains (tg_scope g) requested_scope)
       (granted_activations s (\<lambda>a. ta_hash a = hash))"

section \<open>Reports\<close>

definition retire :: "string \<Rightarrow> f64 \<Rightarrow> registry \<Rightarrow> registry" where
  "retire hash now s =
     s\<lparr> rg_retirements := insert_or_ignore fst (hash, now) (rg_retirements s),
        rg_grants := update_where (\<lambda>g. tg_hash g = hash) (tg_revoked_update (\<lambda>_. True)) (rg_grants s),
        rg_activations := update_where (\<lambda>a. ta_hash a = hash) (ta_active_update (\<lambda>_. False)) (rg_activations s) \<rparr>"

definition outcome_ok :: "string \<Rightarrow> bool" where
  "outcome_ok outcome \<longleftrightarrow> outcome \<in> {''helped'', ''neutral'', ''regression'', ''retire''}"

definition report_ok :: "string \<Rightarrow> string \<Rightarrow> bool" where
  "report_ok outcome evidence \<longleftrightarrow> \<not> (\<not> outcome_ok outcome \<or> blank evidence \<or> length evidence > 4096)"

definition en_dash :: string where
  "en_dash = [CHR 0xE2, CHR 0x80, CHR 0x93]"

definition assess :: "string \<Rightarrow> scope \<Rightarrow> string \<Rightarrow> string \<Rightarrow> f64 \<Rightarrow> registry \<Rightarrow> evolution_error + registry" where
  "assess hash scope outcome evidence now s =
     rbind (ensure (report_ok outcome evidence) (Invalid_definition
       (''assessment needs helped/neutral/regression/retire and 1'' @ en_dash @ ''4096 bytes of human evidence''))) (\<lambda>_.
     rbind (ok_or (candidate s hash) (Not_found hash)) (\<lambda>c.
     rbind (ensure (td_input_scope (cr_definition c) = scope) Approval_mismatch) (\<lambda>_.
     let s1 = s\<lparr>rg_assessments := rg_assessments s @
       [\<lparr> rr_hash = hash, rr_outcome = outcome, rr_evidence = evidence, rr_created_at = now \<rparr>]\<rparr> in
     Inr (if outcome = ''regression'' \<or> outcome = ''retire'' then retire hash now s1 else s1))))"

definition observe :: "string \<Rightarrow> scope \<Rightarrow> string \<Rightarrow> string \<Rightarrow> f64 \<Rightarrow> registry \<Rightarrow> evolution_error + registry" where
  "observe hash scope outcome evidence now s =
     rbind (ensure (report_ok outcome evidence) (Invalid_definition
       (''observation needs helped/neutral/regression/retire and 1'' @ en_dash @ ''4096 bytes of worker evidence''))) (\<lambda>_.
     rbind (ok_or (candidate s hash) (Not_found hash)) (\<lambda>c.
     rbind (ensure (td_input_scope (cr_definition c) = scope) Approval_mismatch) (\<lambda>_.
     Inr (s\<lparr>rg_observations := rg_observations s @
       [\<lparr> rr_hash = hash, rr_outcome = outcome, rr_evidence = evidence, rr_created_at = now \<rparr>]\<rparr>))))"

definition reject_method_output :: "string \<Rightarrow> f64 \<Rightarrow> registry \<Rightarrow> registry" where
  "reject_method_output hash now s =
     retire hash now (s\<lparr>rg_contract_failures := insert_or_ignore fst (hash, now) (rg_contract_failures s)\<rparr>)"

section \<open>Every writer, and activations in flight\<close>

datatype author_op =
  Op_register candidate_manifest f64
| Op_protect string "evaluation_case list"
| Op_designate string "string list"
| Op_evaluate "nat \<Rightarrow> case_watch" string string f64
| Op_compare "nat \<Rightarrow> case_watch" "nat \<Rightarrow> case_watch" string string f64

datatype policy_op =
  Op_issue string scope "f64 option" string f64
| Op_revoke string
| Op_assess string scope string string f64
| Op_observe string scope string string f64
| Op_reject string f64

datatype desk_op =
  Author author_op
| Policy policy_op
| Begin_activation approval_grant f64
| Check_activation nat
| Commit_activation nat f64

record pending_activation =
  pa_candidate :: candidate_row
  pa_hash :: string
  pa_grant :: approval_grant
  pa_eligible :: bool

record desk =
  dk_registry :: registry
  dk_pending :: "pending_activation list"

fun author_step :: "registry_env \<Rightarrow> author_op \<Rightarrow> registry \<Rightarrow> evolution_error + registry" where
  "author_step env (Op_register m now) s = rbind (register (tool_env.truncate env) m now s) (\<lambda>(h, s'). Inr s')"
| "author_step env (Op_protect suite cases) s = protect_suite env suite cases s"
| "author_step env (Op_designate hash suites) s = designate_required hash suites s"
| "author_step env (Op_evaluate ws hash suite now) s =
     rbind (evaluate_suite (tool_env.truncate env) ws hash suite now s) (\<lambda>(r, s'). Inr s')"
| "author_step env (Op_compare ws ws' suite hash now) s =
     rbind (compare_candidate (tool_env.truncate env) ws ws' suite hash now s) (\<lambda>(r, s'). Inr s')"

fun grant_step :: "policy_op \<Rightarrow> registry \<Rightarrow> evolution_error + registry" where
  "grant_step (Op_issue hash scope expires_at uuid now) s =
     rbind (issue_grant hash scope expires_at uuid now s) (\<lambda>(g, s'). Inr s')"
| "grant_step (Op_revoke grant_id) s = revoke grant_id s"
| "grant_step (Op_assess hash scope outcome evidence now) s = assess hash scope outcome evidence now s"
| "grant_step (Op_observe hash scope outcome evidence now) s = observe hash scope outcome evidence now s"
| "grant_step (Op_reject hash now) s = Inr (reject_method_output hash now s)"

definition on_registry :: "desk \<Rightarrow> evolution_error + registry \<Rightarrow> evolution_error + desk" where
  "on_registry d r = rbind r (\<lambda>s. Inr (d\<lparr>dk_registry := s\<rparr>))"

fun desk_step :: "registry_env \<Rightarrow> desk_op \<Rightarrow> desk \<Rightarrow> evolution_error + desk" where
  "desk_step env (Author op) d = on_registry d (author_step env op (dk_registry d))"
| "desk_step env (Policy op) d = on_registry d (grant_step op (dk_registry d))"
| "desk_step env (Begin_activation grant now) d =
     rbind (read_grant grant now (dk_registry d)) (\<lambda>(c, hash).
     Inr (d\<lparr>dk_pending := dk_pending d @
       [\<lparr> pa_candidate = c, pa_hash = hash, pa_grant = grant, pa_eligible = False \<rparr>]\<rparr>))"
| "desk_step env (Check_activation i) d =
     (if i < length (dk_pending d) then
        rbind (ensure_candidate_eligible (pa_hash (dk_pending d ! i)) (dk_registry d)) (\<lambda>_.
        Inr (d\<lparr>dk_pending := (dk_pending d)[i := (dk_pending d ! i)\<lparr>pa_eligible := True\<rparr>]\<rparr>))
      else Inr d)"
| "desk_step env (Commit_activation i now) d =
     (if i < length (dk_pending d) \<and> pa_eligible (dk_pending d ! i) then
        on_registry d (store_activation (pa_candidate (dk_pending d ! i)) (pa_hash (dk_pending d ! i))
          (pa_grant (dk_pending d ! i)) now (dk_registry d))
      else Inr d)"

definition empty_desk :: desk where
  "empty_desk = \<lparr> dk_registry = empty_registry, dk_pending = [] \<rparr>"

end
