(* ===== verification/Interpreter_Laws.thy ===== *)
theory Interpreter_Laws
  imports Interpreter
begin

text \<open>
  The interpreter of self-made tools stops, stays within its limits and computes what its
  expressions mean: \<open>denote\<close> gives an expression its meaning with no budget at all and \<open>cost\<close> what
  that meaning has to pay, \<open>spends\<close> is the accounting every part of an evaluation keeps, \<open>agrees\<close>
  relates a run to a meaning and \<open>takes\<close> to a cost.
\<close>

section \<open>Accounting\<close>

definition spent :: "watch \<Rightarrow> budget \<Rightarrow> budget \<Rightarrow> bool" where
  "spent w b b' \<longleftrightarrow>
     bg_fuel b' + bg_operations b' = bg_fuel b + bg_operations b \<and> bg_operations b \<le> bg_operations b'
     \<and> (bg_memory b \<le> max_charged_memory \<longrightarrow> bg_memory b' \<le> max_charged_memory)
     \<and> (\<forall>k. bg_operations b < k \<and> k \<le> bg_operations b' \<longrightarrow> w k = None)"

lemma spent_refl [simp]: "spent w b b"
  by (auto simp: spent_def)

lemma spent_trans: "spent w a b \<Longrightarrow> spent w b c \<Longrightarrow> spent w a c"
  unfolding spent_def by (metis le_trans not_le)

definition overspent :: "watch \<Rightarrow> budget \<Rightarrow> budget \<Rightarrow> bool" where
  "overspent w b b' \<longleftrightarrow>
     bg_operations b' \<le> bg_fuel b + bg_operations b + 1 \<and> bg_operations b \<le> bg_operations b'
     \<and> (\<forall>k. bg_operations b < k \<and> k < bg_operations b' \<longrightarrow> w k = None)"

lemma overspent_after: "spent w a b \<Longrightarrow> overspent w b c \<Longrightarrow> overspent w a c"
  unfolding spent_def overspent_def by (metis le_trans not_le)

lemma overspent_refl [simp]: "overspent w b b"
  by (auto simp: overspent_def)

definition spends :: "watch \<Rightarrow> 'a run \<Rightarrow> bool" where
  "spends w r \<longleftrightarrow>
     (\<forall>b. bg_fuel b + bg_operations b \<le> max_fuel \<longrightarrow>
        (case r b of
           (Inl e, b') \<Rightarrow> overspent w b b'
         | (Inr x, b') \<Rightarrow> spent w b b'))"

named_theorems spending

lemma spends_give [spending]: "spends w (give x)"
  by (simp add: spends_def give_def)

lemma spends_lifted [spending]: "spends w (lifted r)"
  by (auto simp: spends_def lifted_def split: sum.splits)

lemma spends_and_then [spending]:
  assumes m: "spends w m" and f: "\<And>x. spends w (f x)"
  shows "spends w (and_then m f)"
  unfolding spends_def
proof (intro allI impI)
  fix b :: budget
  assume F: "bg_fuel b + bg_operations b \<le> max_fuel"
  show "case and_then m f b of
      (Inl e, b') \<Rightarrow> overspent w b b'
    | (Inr x, b') \<Rightarrow> spent w b b'"
  proof (cases "m b")
    case (Pair r b1)
    show ?thesis
    proof (cases r)
      case (Inl e)
      with m F Pair show ?thesis by (force simp: spends_def and_then_def)
    next
      case (Inr x)
      with m F Pair have 1: "spent w b b1" by (force simp: spends_def)
      then have "bg_fuel b1 + bg_operations b1 = bg_fuel b + bg_operations b" by (simp add: spent_def)
      moreover have "case f x b1 of
          (Inl e, b') \<Rightarrow> overspent w b1 b'
        | (Inr y, b') \<Rightarrow> spent w b1 b'"
        using f [of x, unfolded spends_def, THEN spec [of _ b1]] F calculation by simp
      ultimately show ?thesis
        using 1 Pair Inr
        by (auto simp: and_then_def intro: spent_trans overspent_after split: sum.splits prod.splits)
    qed
  qed
qed

lemma spends_check [spending]: "spends w (check_budget w 1)"
  by (auto simp: spends_def spent_def overspent_def check_budget_def Let_def u64_checked_add_def u64_checked_sub_def max_fuel_def
      le_Suc_eq split: option.splits stop.splits)

lemma spends_charge [spending]: "spends w (charge n)"
  by (auto simp: spends_def spent_def overspent_def charge_def Let_def split: option.splits)

lemma spends_clone [spending]:
  "spends w (clone_value env w v d)" "spends w (clone_items env w vs d)" "spends w (clone_fields env w kvs d)"
  by (induction env w v d and env w vs d and env w kvs d rule: clone_value_clone_items_clone_fields.induct)
    (subst clone_value.simps, auto simp del: One_nat_def intro!: spending split: json.splits)

lemma spends_clone_lookup [spending]: "spends w (clone_lookup env w v)"
  by (auto simp: clone_lookup_def intro!: spending split: option.splits)

lemma spends_each [spending]: "(\<And>v. spends w (f v)) \<Longrightarrow> spends w (each f vs)"
  by (induction vs) (auto intro!: spending)

lemma spends_keep [spending]:
  "(\<And>v. spends w (f v)) \<Longrightarrow> (\<And>v. spends w (copy v)) \<Longrightarrow> spends w (keep f copy vs)"
  by (induction vs) (auto intro!: spending)

lemma spends_all_true [spending]: "(\<And>r. r \<in> set rs \<Longrightarrow> spends w r) \<Longrightarrow> spends w (all_true rs)"
  by (induction rs) (auto intro!: spending)

lemma spends_any_true [spending]: "(\<And>r. r \<in> set rs \<Longrightarrow> spends w r) \<Longrightarrow> spends w (any_true rs)"
  by (induction rs) (auto intro!: spending)

lemma spends_counted [spending]: "spends w body \<Longrightarrow> spends w (counted w body)"
  unfolding counted_def by (intro spending)

lemma spends_eval [spending]: "spends w (eval env w e root current)"
  by (induction env w e root current rule: eval.induct) (auto simp: need_current_def intro!: spending)

lemma spends_charge_each [spending]: "spends w (charge_each ss)"
  by (induction ss) (auto intro!: spending)

lemma spends_load_inputs [spending]: "spends w (load_inputs env w inputs)"
  by (induction inputs) (auto intro!: spending)

lemma spends_execute_body: "spends w (execute_body env w d inputs)"
  unfolding execute_body_def by (intro spending)

section \<open>Meaning\<close>

fun den_all :: "json option list \<Rightarrow> bool option" where
  "den_all [] = Some True"
| "den_all (d # ds) = Option.bind d (\<lambda>v. if json_as_bool v = Some True then den_all ds else Some False)"

fun den_any :: "json option list \<Rightarrow> bool option" where
  "den_any [] = Some False"
| "den_any (d # ds) = Option.bind d (\<lambda>v. if json_as_bool v = Some True then Some True else den_any ds)"

definition den_compare :: "compare_op \<Rightarrow> json \<Rightarrow> json \<Rightarrow> bool option" where
  "den_compare c l r =
     (case c of
        Cmp_eq \<Rightarrow> Some (json_eq l r)
      | Cmp_ne \<Rightarrow> Some (\<not> json_eq l r)
      | Cmp_lt \<Rightarrow> map_option (\<lambda>ord. ord = Less) (order_of l r)
      | Cmp_lte \<Rightarrow> map_option (\<lambda>ord. ord \<noteq> Greater) (order_of l r)
      | Cmp_gt \<Rightarrow> map_option (\<lambda>ord. ord = Greater) (order_of l r)
      | Cmp_gte \<Rightarrow> map_option (\<lambda>ord. ord \<noteq> Less) (order_of l r))"

definition or_null :: "json option \<Rightarrow> json" where
  "or_null v = (case v of None \<Rightarrow> J_null | Some x \<Rightarrow> x)"

fun denote :: "expr \<Rightarrow> json \<Rightarrow> json option \<Rightarrow> json option" where
  "denote E_input root current = Some root"
| "denote E_current root current = current"
| "denote (E_field path) root current = Some (or_null (lookup root path))"
| "denote (E_current_field path) root current = map_option (\<lambda>v. or_null (lookup v path)) current"
| "denote (E_literal v) root current = Some v"
| "denote (E_map i e) root current =
     Option.bind (Option.bind (denote i root current) json_as_array) (\<lambda>vs.
       map_option J_arr (those (map (\<lambda>v. denote e root (Some v)) vs)))"
| "denote (E_filter i p) root current =
     Option.bind (Option.bind (denote i root current) json_as_array) (\<lambda>vs.
       map_option (\<lambda>ts. J_arr (map fst (filter (\<lambda>(v, t). json_as_bool t = Some True) (zip vs ts))))
         (those (map (\<lambda>v. denote p root (Some v)) vs)))"
| "denote (E_compare c l r) root current =
     Option.bind (denote l root current) (\<lambda>a.
     Option.bind (denote r root current) (\<lambda>b. map_option J_bool (den_compare c a b)))"
| "denote (E_and items) root current = map_option J_bool (den_all (map (\<lambda>e. denote e root current) items))"
| "denote (E_or items) root current = map_option J_bool (den_any (map (\<lambda>e. denote e root current) items))"
| "denote (E_not i) root current =
     map_option (\<lambda>v. J_bool (json_as_bool v \<noteq> Some True)) (denote i root current)"

definition agrees :: "'a run \<Rightarrow> 'a option \<Rightarrow> bool" where
  "agrees r d \<longleftrightarrow>
     (\<forall>b. case fst (r b) of
        Inr x \<Rightarrow> d = Some x
      | Inl (Limit _) \<Rightarrow> True
      | Inl (Invalid_definition _) \<Rightarrow> d = None
      | Inl _ \<Rightarrow> False)"

named_theorems agreeing

lemma agrees_give [agreeing]: "agrees (give x) (Some x)"
  by (simp add: agrees_def give_def)

lemma agrees_and_then:
  assumes "agrees m d" and "\<And>x. d = Some x \<Longrightarrow> agrees (f x) (g x)"
  shows "agrees (and_then m f) (Option.bind d g)"
  unfolding agrees_def
proof
  fix b
  from assms(1) have m: "case fst (m b) of Inr x \<Rightarrow> d = Some x | Inl (Limit _) \<Rightarrow> True
      | Inl (Invalid_definition _) \<Rightarrow> d = None | Inl _ \<Rightarrow> False" by (simp add: agrees_def)
  show "case fst (and_then m f b) of Inr x \<Rightarrow> Option.bind d g = Some x | Inl (Limit _) \<Rightarrow> True
      | Inl (Invalid_definition _) \<Rightarrow> Option.bind d g = None | Inl _ \<Rightarrow> False"
  proof (cases "m b")
    case (Pair r b1)
    show ?thesis
    proof (cases r)
      case (Inl e)
      with m Pair show ?thesis by (cases e) (simp_all add: and_then_def)
    next
      case (Inr x)
      with m Pair have d: "d = Some x" by simp
      then have g: "Option.bind d g = g x" by simp
      have "case fst (f x b1) of Inr y \<Rightarrow> g x = Some y | Inl (Limit _) \<Rightarrow> True
          | Inl (Invalid_definition _) \<Rightarrow> g x = None | Inl _ \<Rightarrow> False"
        using assms(2) [OF d] unfolding agrees_def by (rule spec)
      moreover have "and_then m f b = f x b1" by (simp add: and_then_def Pair Inr)
      ultimately show ?thesis unfolding g by simp
    qed
  qed
qed

lemma agrees_quiet:
  assumes "agrees m (Some x)" and "agrees (f x) d"
  shows "agrees (and_then m f) d"
  using agrees_and_then [of m "Some x" f "\<lambda>_. d"] assms by simp

lemma agrees_unit:
  assumes "agrees m (Some ())" and "agrees (f ()) d"
  shows "agrees (and_then m f) d"
  using assms by (rule agrees_quiet)

lemma agrees_check [agreeing]: "agrees (check_budget w n) (Some ())"
  by (simp add: agrees_def check_budget_def Let_def split: option.splits stop.splits)

lemma agrees_charge [agreeing]: "agrees (charge n) (Some ())"
  by (simp add: agrees_def charge_def Let_def split: option.splits)

lemma measure_limits:
  "measure_value v d l = Inl e \<Longrightarrow> \<exists>s. e = Limit s"
  "measure_items vs d l acc = Inl e \<Longrightarrow> \<exists>s. e = Limit s"
  "measure_fields kvs d l acc = Inl e \<Longrightarrow> \<exists>s. e = Limit s"
  by (induction v d l and vs d l acc and kvs d l acc rule: measure_value_measure_items_measure_fields.induct)
    (simp_all add: measure_value.simps, auto simp: rbind_Inl_iff size_limit_def Let_def split: json.splits if_splits)

text \<open>A measurement returns a number or a limit, whatever it is used for.\<close>

lemma agrees_measured:
  assumes "\<And>n. agrees (f n) d"
  shows "agrees (and_then (lifted (measure_value v k l)) f) d"
proof (cases "measure_value v k l")
  case (Inl e)
  then obtain s where "e = Limit s" using measure_limits(1) by blast
  with Inl show ?thesis by (simp add: agrees_def and_then_def lifted_def)
next
  case (Inr n)
  with assms [of n] show ?thesis by (simp add: agrees_def and_then_def lifted_def)
qed

lemma agrees_clone:
  "agrees (clone_value env w v d) (Some v)"
  "agrees (clone_items env w vs d) (Some vs)"
  "agrees (clone_fields env w kvs d) (Some kvs)"
proof (induction env w v d and env w vs d and env w kvs d rule: clone_value_clone_items_clone_fields.induct)
  case (1 env w v d)
  have "agrees (case v of
       J_arr vs \<Rightarrow>
         and_then (charge (u64_saturating_mul (length vs) (te_value_size env))) (\<lambda>_.
         and_then (clone_items env w vs (d + 1)) (\<lambda>out. give (J_arr out)))
     | J_obj kvs \<Rightarrow>
         and_then (charge (u64_saturating_mul (length kvs) (te_field_size env))) (\<lambda>_.
         and_then (clone_fields env w kvs (d + 1)) (\<lambda>out. give (J_obj out)))
     | _ \<Rightarrow> give v) (Some v)"
    using 1 by (cases v) (auto intro!: agrees_unit agrees_quiet agreeing simp del: One_nat_def)
  then show ?case unfolding clone_value.simps [of env w v d]
    by (intro agrees_unit agrees_check agrees_measured agrees_charge)
next
  case (3 env w v vs d)
  then show ?case by (auto intro!: agrees_quiet [of _ v] agrees_quiet [of _ vs] agreeing)
next
  case (5 env w k v kvs d)
  then show ?case by (auto intro!: agrees_unit agrees_quiet [of _ v] agrees_quiet [of _ kvs] agreeing)
qed (auto intro: agreeing)

lemma agrees_clone_lookup [agreeing]: "agrees (clone_lookup env w v) (Some (or_null v))"
  by (auto simp: clone_lookup_def or_null_def intro: agreeing agrees_clone split: option.splits)

lemma agrees_done: "agrees m d \<Longrightarrow> agrees (and_then m (\<lambda>x. give (h x))) (map_option h d)"
  using agrees_and_then [of m d "\<lambda>x. give (h x)" "\<lambda>x. Some (h x)"]
  by (simp add: agrees_give map_conv_bind_option comp_def)

lemma agrees_counted: "agrees body d \<Longrightarrow> agrees (counted w body) d"
proof -
  assume body: "agrees body d"
  have "agrees (and_then body (\<lambda>v. and_then (charge 0) (\<lambda>_. give v))) (Option.bind d Some)"
    by (intro agrees_and_then [OF body] agrees_unit agreeing)
  then show ?thesis unfolding counted_def by (intro agrees_unit agrees_check) simp
qed

lemma agrees_each:
  "(\<And>v. agrees (f v) (d v)) \<Longrightarrow> agrees (each f vs) (those (map d vs))"
proof (induction vs)
  case (Cons v vs)
  have "agrees (each f (v # vs)) (Option.bind (d v) (\<lambda>x. map_option (\<lambda>out. x # out) (those (map d vs))))"
    unfolding each.simps by (intro agrees_and_then agrees_done Cons)
  moreover have "Option.bind (d v) (\<lambda>x. map_option (\<lambda>out. x # out) (those (map d vs))) = those (map d (v # vs))"
    by (simp split: option.split)
  ultimately show ?case by simp
qed (simp add: agrees_give)

definition chosen :: "json list \<Rightarrow> json list \<Rightarrow> json list" where
  "chosen vs ts = map fst (filter (\<lambda>(v, t). json_as_bool t = Some True) (zip vs ts))"

lemma agrees_keep:
  assumes f: "\<And>v. agrees (f v) (d v)" and copy: "\<And>v. agrees (copy v) (Some v)"
  shows "agrees (keep f copy vs) (map_option (chosen vs) (those (map d vs)))"
proof (induction vs)
  case (Cons v vs)
  let ?g = "\<lambda>t. if json_as_bool t = Some True
    then map_option (\<lambda>out. v # out) (map_option (chosen vs) (those (map d vs)))
    else map_option (chosen vs) (those (map d vs))"
  have "agrees (keep f copy (v # vs)) (Option.bind (d v) ?g)"
    unfolding keep.simps
    by (intro agrees_and_then f) (auto intro!: agrees_quiet [OF copy] agrees_done Cons)
  moreover have "Option.bind (d v) ?g = map_option (chosen (v # vs)) (those (map d (v # vs)))"
    by (cases "d v"; cases "those (map d vs)") (simp_all add: chosen_def)
  ultimately show ?case by simp
qed (simp add: agrees_give chosen_def)

lemma agrees_all_true:
  "list_all2 agrees rs ds \<Longrightarrow> agrees (all_true rs) (den_all ds)"
  by (induction rs ds rule: list_all2_induct) (auto intro!: agrees_and_then agreeing)

lemma agrees_any_true:
  "list_all2 agrees rs ds \<Longrightarrow> agrees (any_true rs) (den_any ds)"
  by (induction rs ds rule: list_all2_induct) (auto intro!: agrees_and_then agreeing)

lemma agrees_compare: "agrees (lifted (compare_values c l r)) (map_option J_bool (den_compare c l r))"
  by (cases c) (auto simp: agrees_def lifted_def compare_values_def den_compare_def rbind_def ok_or_def split: option.splits)

lemma agrees_need: "agrees (lifted (ok_or v (Invalid_definition e))) v"
  by (simp add: agrees_def lifted_def ok_or_def split: option.splits)

lemma agrees_array:
  assumes "agrees m d" and "\<And>vs. agrees (f vs) (g vs)"
  shows "agrees (and_then m (\<lambda>v. and_then (lifted (ok_or (json_as_array v) (Invalid_definition e))) f))
    (Option.bind (Option.bind d json_as_array) g)"
  using agrees_and_then [OF assms(1) agrees_and_then [OF agrees_need assms(2)]]
  by simp

text \<open>A run with a budget means what the expression means without one.\<close>

lemma agrees_eval: "agrees (eval env w e root current) (denote e root current)"
proof (induction env w e root current rule: eval.induct)
  case (2 env w root current)
  have "agrees (and_then (need_current ''current used outside map/filter'' current) (\<lambda>v. clone_value env w v 0))
      (Option.bind current Some)"
    unfolding need_current_def by (intro agrees_and_then agrees_need agrees_clone)
  then show ?case by (auto intro: agrees_counted)
next
  case (4 env w path root current)
  have "agrees (and_then (need_current ''current field outside map/filter'' current)
        (\<lambda>v. clone_lookup env w (lookup v path)))
      (Option.bind current (\<lambda>v. Some (or_null (lookup v path))))"
    unfolding need_current_def by (intro agrees_and_then agrees_need agrees_clone_lookup)
  then show ?case by (auto simp: map_conv_bind_option comp_def intro: agrees_counted)
next
  case (6 env w i e root current)
  show ?case unfolding eval.simps denote.simps
    by (intro agrees_counted agrees_array 6 agrees_unit agrees_charge agrees_done agrees_each)
next
  case (7 env w i p root current)
  have "agrees (and_then (charge (u64_saturating_mul (length vs) (te_value_size env))) (\<lambda>_.
        and_then (keep (\<lambda>v. eval env w p root (Some v)) (\<lambda>v. clone_value env w v 0) vs) (\<lambda>out. give (J_arr out))))
      (map_option (\<lambda>ts. J_arr (chosen vs ts)) (those (map (\<lambda>v. denote p root (Some v)) vs)))" for vs
    using agrees_done [OF agrees_keep [of "\<lambda>v. eval env w p root (Some v)" "\<lambda>v. denote p root (Some v)"
          "\<lambda>v. clone_value env w v 0" vs, OF 7(2) agrees_clone(1)], of J_arr]
    by (intro agrees_unit agrees_charge) (simp add: option.map_comp comp_def)
  then show ?case unfolding eval.simps denote.simps chosen_def [symmetric]
    by (intro agrees_counted agrees_array 7)
next
  case (8 env w c l r root current)
  show ?case unfolding eval.simps denote.simps
    by (intro agrees_counted agrees_and_then 8 agrees_compare)
next
  case (9 env w items root current)
  have "list_all2 agrees (map (\<lambda>e. eval env w e root current) items) (map (\<lambda>e. denote e root current) items)"
    using 9 by (simp add: list_all2_map1 list_all2_map2 list_all2_same)
  then show ?case by (auto intro!: agrees_counted agrees_done agrees_all_true)
next
  case (10 env w items root current)
  have "list_all2 agrees (map (\<lambda>e. eval env w e root current) items) (map (\<lambda>e. denote e root current) items)"
    using 10 by (simp add: list_all2_map1 list_all2_map2 list_all2_same)
  then show ?case by (auto intro!: agrees_counted agrees_done agrees_any_true)
next
  case (11 env w i root current)
  then show ?case by (auto intro!: agrees_counted agrees_done)
qed (auto intro!: agrees_counted agreeing agrees_clone)

lemma agrees_charge_each: "agrees (charge_each ss) (Some ())"
  by (induction ss) (auto intro!: agrees_unit agreeing)

lemma agrees_load_inputs: "agrees (load_inputs env w inputs) (Some (map si_value inputs))"
proof (induction inputs)
  case (Cons i inputs)
  show ?case unfolding load_inputs.simps
    by (intro agrees_unit agrees_charge_each agrees_quiet [OF agrees_clone(1)] agrees_quiet [OF Cons])
      (simp add: agrees_give)
qed (simp add: agrees_give)

lemma agrees_limited: "agrees (f ()) d \<Longrightarrow> agrees (and_then (lifted (ensure c (Limit m))) f) d"
  by (simp add: agrees_def and_then_def lifted_def ensure_def)

lemma agrees_bounded: "(\<And>s. agrees (f s) d) \<Longrightarrow> agrees (and_then (lifted (bounded_json t n)) f) d"
  by (simp add: agrees_def and_then_def lifted_def bounded_json_def)

lemma agrees_execute_body:
  "agrees (execute_body env w d inputs) (denote (td_expression d) (J_arr (map si_value inputs)) None)"
proof -
  let ?d = "denote (td_expression d) (J_arr (map si_value inputs)) None"
  let ?f = "\<lambda>v. and_then (lifted (measure_value v 0 max_output_bytes)) (\<lambda>output_bytes.
     and_then (lifted (ensure (output_bytes \<le> max_output_bytes) (Limit ''output exceeds 1 MiB''))) (\<lambda>_.
     and_then (charge output_bytes) (\<lambda>_.
     and_then (lifted (bounded_json (te_json env v) max_output_bytes)) (\<lambda>_. give v))))"
  have "agrees (?f v) (Some v)" for v
    by (intro agrees_measured agrees_limited agrees_unit agrees_charge agrees_bounded agrees_give)
  then have "agrees (and_then (eval env w (td_expression d) (J_arr (map si_value inputs)) None) ?f)
      (Option.bind ?d Some)"
    by (intro agrees_and_then agrees_eval)
  then show ?thesis unfolding execute_body_def
    by (intro agrees_unit agrees_charge agrees_quiet [OF agrees_load_inputs]) simp
qed

section \<open>Cost\<close>

text \<open>
  What an evaluation has to pay, written beside its meaning and without a budget: one check for every
  expression evaluated and one for every value node copied. \<open>takes r n\<close> says that the run \<open>r\<close>, when it
  succeeds, has made exactly \<open>n\<close> checks.
\<close>

fun nodes :: "json \<Rightarrow> nat"
  and nodes_items :: "json list \<Rightarrow> nat"
  and nodes_fields :: "(string \<times> json) list \<Rightarrow> nat" where
  "nodes (J_arr vs) = 1 + nodes_items vs"
| "nodes (J_obj kvs) = 1 + nodes_fields kvs"
| "nodes _ = 1"
| "nodes_items [] = 0"
| "nodes_items (v # vs) = nodes v + nodes_items vs"
| "nodes_fields [] = 0"
| "nodes_fields ((k, v) # kvs) = nodes v + nodes_fields kvs"

definition nodes_found :: "json option \<Rightarrow> nat" where
  "nodes_found v = (case v of None \<Rightarrow> 0 | Some x \<Rightarrow> nodes x)"

definition holds_in :: "json option \<Rightarrow> bool" where
  "holds_in d \<longleftrightarrow> Option.bind d json_as_bool = Some True"

fun until :: "bool \<Rightarrow> (json option \<times> nat) list \<Rightarrow> nat" where
  "until verdict [] = 0"
| "until verdict ((d, n) # ds) = n + (if holds_in d = verdict then 0 else until verdict ds)"

fun cost :: "expr \<Rightarrow> json \<Rightarrow> json option \<Rightarrow> nat" where
  "cost E_input root current = 1 + nodes root"
| "cost E_current root current = 1 + nodes_found current"
| "cost (E_field path) root current = 1 + nodes_found (lookup root path)"
| "cost (E_current_field path) root current =
     1 + nodes_found (Option.bind current (\<lambda>v. lookup v path))"
| "cost (E_literal v) root current = 1 + nodes v"
| "cost (E_map i e) root current =
     1 + cost i root current +
     (case Option.bind (denote i root current) json_as_array of
        None \<Rightarrow> 0
      | Some vs \<Rightarrow> sum_list (map (\<lambda>v. cost e root (Some v)) vs))"
| "cost (E_filter i p) root current =
     1 + cost i root current +
     (case Option.bind (denote i root current) json_as_array of
        None \<Rightarrow> 0
      | Some vs \<Rightarrow> sum_list (map (\<lambda>v. cost p root (Some v)
          + (if holds_in (denote p root (Some v)) then nodes v else 0)) vs))"
| "cost (E_compare c l r) root current = 1 + cost l root current + cost r root current"
| "cost (E_and items) root current =
     1 + until False (map (\<lambda>e. (denote e root current, cost e root current)) items)"
| "cost (E_or items) root current =
     1 + until True (map (\<lambda>e. (denote e root current, cost e root current)) items)"
| "cost (E_not i) root current = 1 + cost i root current"

definition work :: "tool_definition \<Rightarrow> scoped_input list \<Rightarrow> nat" where
  "work d inputs = nodes_items (map si_value inputs)
     + cost (td_expression d) (J_arr (map si_value inputs)) None"

definition takes :: "'a run \<Rightarrow> nat \<Rightarrow> bool" where
  "takes r n \<longleftrightarrow> (\<forall>b x b'. r b = (Inr x, b') \<longrightarrow> bg_operations b' = bg_operations b + n)"

definition returns :: "'a run \<Rightarrow> 'a \<Rightarrow> bool" where
  "returns r x \<longleftrightarrow> (\<exists>b b'. r b = (Inr x, b'))"

lemma returns_agrees: "returns r x \<Longrightarrow> agrees r d \<Longrightarrow> d = Some x"
  unfolding returns_def agrees_def by (elim exE, drule_tac x = b in spec) simp

lemma takes_and_then:
  assumes "takes m k" and "\<And>x. returns m x \<Longrightarrow> takes (f x) n"
  shows "takes (and_then m f) (k + n)"
  unfolding takes_def
proof (intro allI impI)
  fix b y b'
  assume "and_then m f b = (Inr y, b')"
  then obtain x b1 where 1: "m b = (Inr x, b1)" "f x b1 = (Inr y, b')"
    by (auto simp: and_then_def split: prod.splits sum.splits)
  then have "takes (f x) n" by (intro assms(2)) (auto simp: returns_def)
  with 1 assms(1) show "bg_operations b' = bg_operations b + (k + n)" by (simp add: takes_def)
qed

lemma takes_free: "takes m 0 \<Longrightarrow> (\<And>x. returns m x \<Longrightarrow> takes (f x) n) \<Longrightarrow> takes (and_then m f) n"
  using takes_and_then [of m 0 f n] by simp

lemma takes_finish: "takes m n \<Longrightarrow> (\<And>x. takes (f x) 0) \<Longrightarrow> takes (and_then m f) n"
  using takes_and_then [of m n f 0] by simp

lemma takes_give: "takes (give x) 0"
  by (simp add: takes_def give_def)

lemma takes_lifted: "takes (lifted r) 0"
  by (simp add: takes_def lifted_def)

lemma returns_lifted: "returns (lifted r) x \<longleftrightarrow> r = Inr x"
  by (simp add: returns_def lifted_def)

lemma takes_charge: "takes (charge n) 0"
  by (simp add: takes_def charge_def Let_def split: option.splits)

lemma takes_both:
  "takes m k \<Longrightarrow> takes g n \<Longrightarrow> takes (and_then m (\<lambda>x. and_then g (\<lambda>out. give (h x out)))) (k + n)"
  by (intro takes_and_then takes_finish [of g] takes_give)

lemma takes_check: "takes (check_budget w n) 1"
  by (auto simp: takes_def check_budget_def u64_checked_add_def Let_def split: option.splits stop.splits if_splits)

lemma takes_clone:
  "takes (clone_value env w v d) (nodes v)"
  "takes (clone_items env w vs d) (nodes_items vs)"
  "takes (clone_fields env w kvs d) (nodes_fields kvs)"
proof (induction env w v d and env w vs d and env w kvs d rule: clone_value_clone_items_clone_fields.induct)
  case (1 env w v d)
  have "takes (case v of
       J_arr vs \<Rightarrow>
         and_then (charge (u64_saturating_mul (length vs) (te_value_size env))) (\<lambda>_.
         and_then (clone_items env w vs (d + 1)) (\<lambda>out. give (J_arr out)))
     | J_obj kvs \<Rightarrow>
         and_then (charge (u64_saturating_mul (length kvs) (te_field_size env))) (\<lambda>_.
         and_then (clone_fields env w kvs (d + 1)) (\<lambda>out. give (J_obj out)))
     | _ \<Rightarrow> give v) (nodes v - 1)"
    using 1 by (cases v) (auto intro!: takes_free [OF takes_charge] takes_finish takes_give)
  moreover have "nodes v = 1 + (nodes v - 1)" by (cases v) simp_all
  ultimately show ?case unfolding clone_value.simps [of env w v d]
    by (metis (no_types, lifting) takes_and_then [OF takes_check] takes_free [OF takes_lifted] takes_free [OF takes_charge])
next
  case (3 env w v vs d)
  then show ?case by (auto intro!: takes_both)
next
  case (5 env w k v kvs d)
  then show ?case by (auto intro!: takes_free [OF takes_charge] takes_both)
qed (simp_all add: takes_give)

lemma takes_clone_lookup: "takes (clone_lookup env w v) (nodes_found v)"
  by (simp add: clone_lookup_def nodes_found_def takes_clone takes_give split: option.split)

lemma takes_counted: "takes body n \<Longrightarrow> takes (counted w body) (1 + n)"
  unfolding counted_def by (intro takes_and_then [OF takes_check] takes_finish takes_charge takes_give)

lemma takes_each: "(\<And>v. takes (f v) (n v)) \<Longrightarrow> takes (each f vs) (sum_list (map n vs))"
  by (induction vs) (auto intro!: takes_give takes_both)

lemma takes_keep:
  assumes "\<And>v. takes (f v) (n v)" and "\<And>v. agrees (f v) (d v)" and "\<And>v. takes (copy v) (c v)"
  shows "takes (keep f copy vs) (sum_list (map (\<lambda>v. n v + (if holds_in (d v) then c v else 0)) vs))"
proof (induction vs)
  case (Cons v vs)
  let ?r = "sum_list (map (\<lambda>v. n v + (if holds_in (d v) then c v else 0)) vs)"
  have "takes (if json_as_bool t = Some True
      then and_then (copy v) (\<lambda>x. and_then (keep f copy vs) (\<lambda>out. give (x # out)))
      else keep f copy vs) ((if holds_in (d v) then c v else 0) + ?r)" if "returns (f v) t" for t
    using returns_agrees [OF that assms(2)] Cons.IH
    by (auto simp: holds_in_def intro!: takes_both assms(3))
  from takes_and_then [OF assms(1) this] show ?case by (simp add: add.assoc)
qed (simp add: takes_give)

lemma takes_all_true:
  "list_all2 (\<lambda>r (d, n). takes r n \<and> agrees r d) rs ds \<Longrightarrow> takes (all_true rs) (until False ds)"
proof (induction rs ds rule: list_all2_induct)
  case (Cons r rs dn ds)
  obtain d n where dn: "dn = (d, n)" by force
  with Cons have step: "takes (if json_as_bool v = Some True then all_true rs else give False)
      (if holds_in d = False then 0 else until False ds)" if "returns r v" for v
    using returns_agrees [OF that, of d] by (auto simp: holds_in_def takes_give)
  from Cons(1) dn have "takes r n" by simp
  then show ?case unfolding dn all_true.simps until.simps by (rule takes_and_then) (rule step)
qed (simp add: takes_give)

lemma takes_any_true:
  "list_all2 (\<lambda>r (d, n). takes r n \<and> agrees r d) rs ds \<Longrightarrow> takes (any_true rs) (until True ds)"
proof (induction rs ds rule: list_all2_induct)
  case (Cons r rs dn ds)
  obtain d n where dn: "dn = (d, n)" by force
  with Cons have step: "takes (if json_as_bool v = Some True then give True else any_true rs)
      (if holds_in d = True then 0 else until True ds)" if "returns r v" for v
    using returns_agrees [OF that, of d] by (auto simp: holds_in_def takes_give)
  from Cons(1) dn have "takes r n" by simp
  then show ?case unfolding dn any_true.simps until.simps by (rule takes_and_then) (rule step)
qed (simp add: takes_give)

lemma takes_array:
  assumes "takes (eval env w i root current) k"
    and "\<And>vs. takes (g vs) (n vs)"
  shows "takes (and_then (eval env w i root current) (\<lambda>x.
      and_then (lifted (ok_or (json_as_array x) e)) (\<lambda>vs. and_then (charge (m vs)) (\<lambda>_. g vs))))
    (k + (case Option.bind (denote i root current) json_as_array of None \<Rightarrow> 0 | Some vs \<Rightarrow> n vs))"
proof (rule takes_and_then [OF assms(1)])
  fix x assume "returns (eval env w i root current) x"
  then have "denote i root current = Some x" by (rule returns_agrees [OF _ agrees_eval])
  then show "takes (and_then (lifted (ok_or (json_as_array x) e)) (\<lambda>vs. and_then (charge (m vs)) (\<lambda>_. g vs)))
      (case Option.bind (denote i root current) json_as_array of None \<Rightarrow> 0 | Some vs \<Rightarrow> n vs)"
    by (auto simp: returns_lifted ok_or_def split: option.splits intro!: takes_free [OF takes_lifted]
        takes_free [OF takes_charge] assms(2))
qed

lemma takes_eval: "takes (eval env w e root current) (cost e root current)"
proof (induction env w e root current rule: eval.induct)
  case (2 env w root current)
  show ?case by (auto simp: need_current_def returns_lifted ok_or_def nodes_found_def split: option.splits
      intro!: takes_counted [unfolded plus_1_eq_Suc] takes_free [OF takes_lifted] takes_clone)
next
  case (4 env w path root current)
  show ?case by (auto simp: need_current_def returns_lifted ok_or_def split: option.splits
      intro!: takes_counted [unfolded plus_1_eq_Suc] takes_free [OF takes_lifted] takes_clone_lookup)
next
  case (6 env w i e root current)
  show ?case unfolding eval.simps cost.simps add.assoc
    by (intro takes_counted takes_array 6 takes_finish takes_each takes_give)
next
  case (7 env w i p root current)
  show ?case unfolding eval.simps cost.simps add.assoc
    by (intro takes_counted takes_array 7 takes_finish takes_keep takes_give takes_clone agrees_eval)
next
  case (8 env w c l r root current)
  show ?case unfolding eval.simps cost.simps add.assoc
    by (intro takes_counted takes_and_then [OF 8(1)] takes_finish [OF 8(2)] takes_lifted)
next
  case (9 env w items root current)
  have "list_all2 (\<lambda>r (d, n). takes r n \<and> agrees r d) (map (\<lambda>e. eval env w e root current) items)
      (map (\<lambda>e. (denote e root current, cost e root current)) items)"
    using 9 by (simp add: list_all2_map1 list_all2_map2 list_all2_same agrees_eval)
  then show ?case unfolding eval.simps cost.simps
    by (intro takes_counted takes_finish takes_all_true takes_give)
next
  case (10 env w items root current)
  have "list_all2 (\<lambda>r (d, n). takes r n \<and> agrees r d) (map (\<lambda>e. eval env w e root current) items)
      (map (\<lambda>e. (denote e root current, cost e root current)) items)"
    using 10 by (simp add: list_all2_map1 list_all2_map2 list_all2_same agrees_eval)
  then show ?case unfolding eval.simps cost.simps
    by (intro takes_counted takes_finish takes_any_true takes_give)
next
  case (11 env w i root current)
  then show ?case unfolding eval.simps cost.simps by (intro takes_counted takes_finish takes_give)
qed (simp_all add: takes_counted [unfolded plus_1_eq_Suc] takes_clone takes_clone_lookup)

lemma takes_charge_each: "takes (charge_each ss) 0"
  by (induction ss) (auto intro!: takes_give takes_free [OF takes_charge])

lemma takes_load_inputs: "takes (load_inputs env w inputs) (nodes_items (map si_value inputs))"
  by (induction inputs)
    (auto intro!: takes_give takes_free [OF takes_charge_each] takes_both takes_clone)

lemma takes_execute_body: "takes (execute_body env w d inputs) (work d inputs)"
proof -
  let ?e = "td_expression d"
  let ?f = "\<lambda>v. and_then (lifted (measure_value v 0 max_output_bytes)) (\<lambda>output_bytes.
     and_then (lifted (ensure (output_bytes \<le> max_output_bytes) (Limit ''output exceeds 1 MiB''))) (\<lambda>_.
     and_then (charge output_bytes) (\<lambda>_.
     and_then (lifted (bounded_json (te_json env v) max_output_bytes)) (\<lambda>_. give v))))"
  have "takes (and_then (eval env w ?e (J_arr vs) None) ?f) (cost ?e (J_arr (map si_value inputs)) None)"
    if "returns (load_inputs env w inputs) vs" for vs
  proof -
    have "vs = map si_value inputs" using returns_agrees [OF that agrees_load_inputs] by simp
    then show ?thesis
      by (simp add: takes_finish takes_eval takes_free [OF takes_lifted] takes_free [OF takes_charge] takes_give)
  qed
  then show ?thesis unfolding execute_body_def work_def
    by (intro takes_free [OF takes_charge] takes_and_then takes_load_inputs)
qed

section \<open>Results\<close>

lemma and_then_Inr:
  "and_then m f b = (Inr y, b') \<longleftrightarrow> (\<exists>x b1. m b = (Inr x, b1) \<and> f x b1 = (Inr y, b'))"
  by (auto simp: and_then_def split: prod.splits sum.splits)

lemma lifted_Inr: "lifted r b = (Inr y, b') \<longleftrightarrow> r = Inr y \<and> b' = b"
  by (auto simp: lifted_def)

lemma give_Inr: "give x b = (Inr y, b') \<longleftrightarrow> y = x \<and> b' = b"
  by (auto simp: give_def)

lemmas run_Inr = and_then_Inr lifted_Inr give_Inr

lemma execute_body_output:
  assumes "execute_body env w d inputs b = (Inr v, b')"
  shows "(\<exists>n \<le> max_output_bytes. measure_value v 0 max_output_bytes = Inr n)
    \<and> length (te_json env v) \<le> max_output_bytes"
  using assms unfolding execute_body_def
  by (auto simp: run_Inr ensure_def bounded_json_def split: if_splits)

lemma execute_Inr:
  "execute env w d inputs = Inr r \<longleftrightarrow>
     (\<exists>h v b. validate_definition env d = Inr h \<and> length inputs \<le> max_input_records
        \<and> execute_body env w d inputs fresh_budget = (Inr v, b)
        \<and> r = \<lparr> tr_value = v, tr_output_scope = scope_union (map si_scope inputs), tr_tool_hash = h,
                tr_fuel_used = max_fuel - bg_fuel b, tr_operations = bg_operations b, tr_provenance_warning = None \<rparr>)"
  by (cases "execute_body env w d inputs fresh_budget"; cases "fst (execute_body env w d inputs fresh_budget)")
    (auto simp: execute_def rbind_Inr_iff)

lemma fresh_total: "bg_fuel fresh_budget + bg_operations fresh_budget \<le> max_fuel"
  by (simp add: fresh_budget_def)

lemma execute_body_spent:
  "execute_body env w d inputs fresh_budget = (Inr v, b) \<Longrightarrow> spent w fresh_budget b"
  using spends_execute_body [of w env d inputs] fresh_total unfolding spends_def by fastforce

lemma execute_body_overspent:
  "execute_body env w d inputs fresh_budget = (Inl e, b) \<Longrightarrow> overspent w fresh_budget b"
  using spends_execute_body [of w env d inputs] fresh_total unfolding spends_def by fastforce

lemma validated_steps:
  "validate_definition env d = Inr h \<Longrightarrow> valid_tool_name (td_name d)
    \<and> validate_expr (td_expression d) 0 = Inr () \<and> ast_depth (td_expression d) \<le> max_ast_depth"
  by (auto simp: validate_definition_def rbind_Inr_iff ensure_def split: if_splits)

lemma tool_computes_meaning:
  assumes "validate_definition env d = Inr h"
  shows "case execute env w d inputs of
      Inr r \<Rightarrow> denote (td_expression d) (J_arr (map si_value inputs)) None = Some (tr_value r)
        \<and> tr_tool_hash r = h \<and> tr_output_scope r = scope_union (map si_scope inputs)
    | Inl (Limit _) \<Rightarrow> True
    | Inl (Invalid_definition _) \<Rightarrow> denote (td_expression d) (J_arr (map si_value inputs)) None = None
    | Inl _ \<Rightarrow> False"
proof (cases "length inputs \<le> max_input_records")
  case True
  obtain r b where b: "execute_body env w d inputs fresh_budget = (r, b)" by force
  have "case fst (execute_body env w d inputs fresh_budget) of
      Inr x \<Rightarrow> denote (td_expression d) (J_arr (map si_value inputs)) None = Some x
    | Inl (Limit _) \<Rightarrow> True
    | Inl (Invalid_definition _) \<Rightarrow> denote (td_expression d) (J_arr (map si_value inputs)) None = None
    | Inl _ \<Rightarrow> False"
    using agrees_execute_body [of env w d inputs] unfolding agrees_def by (rule spec)
  with True assms b show ?thesis
    by (cases r) (simp_all add: execute_def split: evolution_error.splits)
qed (simp add: execute_def assms ensure_def)

section \<open>The three promises\<close>

text \<open>(C2) The interpreter computes the meaning of the expression: for a valid definition, a result
  carries the value the expression denotes on the array of inputs, under the definition's own hash
  and with the union of the inputs' scopes; an expression is refused as invalid only where it has
  no meaning; every other failure is a limit.\<close>

theorem tool_computes_its_meaning:
  assumes "validate_definition env d = Inr h"
  shows "case execute env w d inputs of
      Inr r \<Rightarrow> denote (td_expression d) (J_arr (map si_value inputs)) None = Some (tr_value r)
        \<and> tr_tool_hash r = h \<and> tr_output_scope r = scope_union (map si_scope inputs)
    | Inl (Limit _) \<Rightarrow> True
    | Inl (Invalid_definition _) \<Rightarrow> denote (td_expression d) (J_arr (map si_value inputs)) None = None
    | Inl _ \<Rightarrow> False"
  using assms by (rule tool_computes_meaning)

text \<open>(C20) Every execution stops, and its metering is exact: a run that returns a value has made one
  check for every expression it evaluated and one for every value node it copied, the inputs included,
  no more than \<open>max_fuel\<close> in all, and paid one unit of fuel for each; a run that fails has
  made at most \<open>max_fuel\<close> checks and the one that failed. So a tool whose work exceeds
  \<open>max_fuel\<close> is always refused.\<close>

theorem execution_always_stops:
  "case execute_body env w d inputs fresh_budget of
     (Inr v, b) \<Rightarrow> bg_operations b = work d inputs \<and> bg_fuel b + work d inputs = max_fuel
   | (Inl e, b) \<Rightarrow> bg_operations b \<le> max_fuel + 1"
proof -
  obtain r b where b: "execute_body env w d inputs fresh_budget = (r, b)" by force
  show ?thesis
  proof (cases r)
    case (Inl e)
    with b have "overspent w fresh_budget b" using execute_body_overspent by blast
    with b Inl show ?thesis by (simp add: overspent_def fresh_budget_def)
  next
    case (Inr v)
    with b have "spent w fresh_budget b" using execute_body_spent by blast
    moreover have "bg_operations b = work d inputs"
      using takes_execute_body [of env w d inputs] b Inr by (simp add: takes_def fresh_budget_def)
    ultimately show ?thesis using b Inr by (simp add: spent_def fresh_budget_def)
  qed
qed

text \<open>A deadline or a cancellation takes effect at the very check that sees it: once the watch has
  something to say at the \<open>k\<close>-th check, no run makes a later check, and a run that made the
  \<open>k\<close>-th one fails.\<close>

theorem stop_is_prompt:
  assumes "0 < k" and "w k \<noteq> None"
  shows "bg_operations (snd (execute_body env w d inputs fresh_budget)) \<le> k
    \<and> (bg_operations (snd (execute_body env w d inputs fresh_budget)) = k
        \<longrightarrow> \<not> is_ok (fst (execute_body env w d inputs fresh_budget)))"
proof -
  obtain r b where b: "execute_body env w d inputs fresh_budget = (r, b)" by force
  show ?thesis
  proof (cases r)
    case (Inl e)
    with b have "overspent w fresh_budget b" using execute_body_overspent by blast
    with assms b Inl show ?thesis by (auto simp: overspent_def fresh_budget_def not_less [symmetric])
  next
    case (Inr v)
    with b have "spent w fresh_budget b" using execute_body_spent by blast
    with assms have "\<not> k \<le> bg_operations b" by (auto simp: spent_def fresh_budget_def)
    with b Inr show ?thesis by simp
  qed
qed

text \<open>(C35) What a tool returns is within every limit: it reports as fuel exactly the checks it made, no
  more than \<open>max_fuel\<close>, and its value measures and encodes to at most \<open>max_output_bytes\<close>.\<close>

theorem result_within_limits:
  assumes "execute env w d inputs = Inr r"
  shows "tr_fuel_used r = tr_operations r \<and> tr_operations r \<le> max_fuel
    \<and> length inputs \<le> max_input_records \<and> ast_depth (td_expression d) \<le> max_ast_depth
    \<and> (\<exists>n \<le> max_output_bytes. measure_value (tr_value r) 0 max_output_bytes = Inr n)
    \<and> length (te_json env (tr_value r)) \<le> max_output_bytes"
proof -
  from assms obtain h v b where h: "validate_definition env d = Inr h" and n: "length inputs \<le> max_input_records"
    and b: "execute_body env w d inputs fresh_budget = (Inr v, b)"
    and r: "tr_value r = v" "tr_fuel_used r = max_fuel - bg_fuel b" "tr_operations r = bg_operations b"
    unfolding execute_Inr by force
  have "bg_fuel b + bg_operations b = max_fuel"
    using execute_body_spent [OF b] by (simp add: spent_def fresh_budget_def)
  then have "max_fuel - bg_fuel b = bg_operations b" and "bg_operations b \<le> max_fuel" by linarith+
  with r n execute_body_output [OF b] validated_steps [OF h] show ?thesis by metis
qed

section \<open>Witnesses\<close>

lemmas measure_simps =
  measure_value.simps [of J_null] measure_value.simps [of "J_bool b" for b] measure_value.simps [of "J_num n" for n]
  measure_value.simps [of "J_str s" for s] measure_value.simps [of "J_arr vs" for vs]
  measure_value.simps [of "J_obj kvs" for kvs]

lemmas clone_simps =
  clone_value.simps [where v = J_null] clone_value.simps [where v = "J_bool b" for b]
  clone_value.simps [where v = "J_num n" for n] clone_value.simps [where v = "J_str s" for s]
  clone_value.simps [where v = "J_arr vs" for vs] clone_value.simps [where v = "J_obj kvs" for kvs]

lemmas validate_simps =
  validate_expr.simps [of E_input] validate_expr.simps [of E_current] validate_expr.simps [of "E_literal v" for v]
  validate_expr.simps [of "E_filter i p" for i p] validate_expr.simps [of "E_compare c l r" for c l r]

lemmas run_simps =
  and_then_def give_def lifted_def check_budget_def charge_def counted_def need_current_def
  u64_checked_add_def u64_checked_sub_def u64_saturating_mul_def u64_saturating_add_def u64_max_def
  max_fuel_def max_charged_memory_def max_output_bytes_def max_value_depth_def max_input_records_def
  max_definition_bytes_def max_ast_depth_def size_limit_def ensure_def bounded_json_def fresh_budget_def

definition sample_env :: tool_env where
  "sample_env = \<lparr> te_json = (\<lambda>_. ''[true]''), te_definition_json = td_name, te_sha256 = (\<lambda>s. s),
     te_value_size = 32, te_field_size = 56 \<rparr>"

definition sample_tool :: tool_definition where
  "sample_tool = \<lparr> td_name = ''t'', td_version = 1, td_input_scope = [''a''],
     td_expression = E_filter E_input (E_compare Cmp_ne E_current (E_literal J_null)) \<rparr>"

definition sample_inputs :: "scoped_input list" where
  "sample_inputs = [\<lparr> si_value = J_null, si_scope = [''a''] \<rparr>, \<lparr> si_value = J_bool True, si_scope = [''a''] \<rparr>]"

lemma sample_valid: "validate_definition sample_env sample_tool = Inr ''t''"
proof -
  have "valid_tool_name ''t''" by code_simp
  then show ?thesis
    by (simp add: validate_definition_def sample_tool_def sample_env_def validate_simps measure_simps
      max_definition_bytes_def max_ast_depth_def max_value_depth_def size_limit_def ensure_def bounded_json_def)
qed

lemma sample_body:
  "\<exists>m. execute_body sample_env (\<lambda>_. None) sample_tool sample_inputs fresh_budget =
     (Inr (J_arr [J_bool True]), \<lparr> bg_fuel = 999982, bg_memory = m, bg_operations = 18 \<rparr>)"
  by (simp add: execute_body_def sample_tool_def sample_inputs_def sample_env_def run_simps clone_simps measure_simps
      json_as_array_def json_as_bool_def compare_values_def)

lemma sample_run:
  "execute sample_env (\<lambda>_. None) sample_tool sample_inputs =
     Inr \<lparr> tr_value = J_arr [J_bool True], tr_output_scope = [''a''], tr_tool_hash = ''t'',
           tr_fuel_used = 18, tr_operations = 18, tr_provenance_warning = None \<rparr>"
proof -
  have "scope_union (map si_scope sample_inputs) = [''a'']"
    by (simp add: scope_union_def sample_inputs_def)
  moreover have "length sample_inputs \<le> max_input_records"
    by (simp add: sample_inputs_def max_input_records_def)
  moreover obtain m where "execute_body sample_env (\<lambda>_. None) sample_tool sample_inputs fresh_budget =
     (Inr (J_arr [J_bool True]), \<lparr> bg_fuel = 999982, bg_memory = m, bg_operations = 18 \<rparr>)"
    using sample_body by blast
  ultimately show ?thesis by (simp add: execute_def sample_valid max_fuel_def)
qed

theorem tool_computes_its_meaning_witness:
  "denote (E_filter E_input (E_compare Cmp_ne E_current (E_literal J_null)))
     (J_arr [J_null, J_bool True]) None = Some (J_arr [J_bool True])"
proof -
  have "map si_value sample_inputs = [J_null, J_bool True]" by (simp add: sample_inputs_def)
  with tool_computes_its_meaning [OF sample_valid, of sample_inputs "\<lambda>_. None"] sample_run
  show ?thesis by (simp add: sample_tool_def)
qed

theorem execution_always_stops_witness: "work sample_tool sample_inputs = 18"
  using execution_always_stops [where env = sample_env and w = "\<lambda>_. None" and d = sample_tool and inputs = sample_inputs] sample_body by auto

definition cancelled_third :: watch where
  "cancelled_third n = (if n = 3 then Some Cancelled else None)"

theorem stop_is_prompt_witness:
  "bg_operations (snd (execute_body sample_env cancelled_third sample_tool sample_inputs fresh_budget)) \<le> 3"
  using stop_is_prompt [of 3 cancelled_third sample_env sample_tool sample_inputs]
  by (simp add: cancelled_third_def)

theorem result_within_limits_witness:
  "ast_depth (td_expression sample_tool) \<le> max_ast_depth \<and> 18 \<le> max_fuel"
  using result_within_limits [OF sample_run] by simp

end
