(* ===== verification/Registry_Laws.thy ===== *)
theory Registry_Laws
  imports Registry Interpreter_Laws
begin

text \<open>
  What the registry of self-made tools promises: an invariant of all its tables under every
  interleaving of its writers, the order along which it moves (nothing registered, protected,
  required, evaluated or retired is ever taken back), and what an activation and an invocation need.
\<close>

section \<open>The invariant\<close>

definition required_set :: "registry \<Rightarrow> string \<Rightarrow> string set" where
  "required_set s h = {su. (h, su) \<in> set (rg_required s)}"

definition cleared :: "registry \<Rightarrow> string \<Rightarrow> bool" where
  "cleared s h \<longleftrightarrow> required_set s h \<noteq> {} \<and> (\<forall>su\<in>required_set s h. suite_passed s h su)"

definition covers :: "registry \<Rightarrow> string \<Rightarrow> scope \<Rightarrow> bool" where
  "covers s h scope \<longleftrightarrow>
     (\<exists>c. candidate s h = Some c \<and> scope_contains scope (td_input_scope (cr_definition c)))"

definition candidates_ok :: "tool_env \<Rightarrow> registry \<Rightarrow> bool" where
  "candidates_ok env s \<longleftrightarrow> unique_by cr_hash (rg_candidates s)
     \<and> (\<forall>c\<in>set (rg_candidates s). validate_definition env (cr_definition c) = Inr (cr_hash c)
          \<and> cr_name c = td_name (cr_definition c))"

definition suites_ok :: "registry \<Rightarrow> bool" where
  "suites_ok s \<longleftrightarrow> unique_by ps_suite_id (rg_suites s) \<and> unique_by ps_suite_hash (rg_suites s)
     \<and> (\<forall>su\<in>set (rg_suites s). ps_suite_id su \<noteq> [] \<and> ps_cases su \<noteq> [])"

definition required_ok :: "registry \<Rightarrow> bool" where
  "required_ok s \<longleftrightarrow> distinct (rg_required s)
     \<and> (\<forall>(h, su)\<in>set (rg_required s). candidate s h \<noteq> None \<and> su \<in> ps_suite_id ` set (rg_suites s))"

definition evaluations_ok :: "registry \<Rightarrow> bool" where
  "evaluations_ok s \<longleftrightarrow> (\<forall>e\<in>set (rg_evaluations s).
     candidate s (tv_hash e) \<noteq> None \<and> tv_suite_id e \<in> ps_suite_id ` set (rg_suites s)
     \<and> er_tool_hash (tv_report e) = tv_hash e
     \<and> tv_passed e = er_passed (tv_report e)
     \<and> er_passed (tv_report e) = (er_failures (tv_report e) = [])
     \<and> 0 < er_cases (tv_report e))"

definition grants_ok :: "registry \<Rightarrow> bool" where
  "grants_ok s \<longleftrightarrow> unique_by tg_grant_id (rg_grants s)
     \<and> (\<forall>g\<in>set (rg_grants s). covers s (tg_hash g) (tg_scope g)
          \<and> (is_retired s (tg_hash g) \<longrightarrow> tg_revoked g))"

definition backed :: "registry \<Rightarrow> string \<Rightarrow> string \<Rightarrow> bool" where
  "backed s h grant_id \<longleftrightarrow> (\<exists>g\<in>set (rg_grants s). tg_grant_id g = grant_id \<and> tg_hash g = h)"

definition activations_ok :: "registry \<Rightarrow> bool" where
  "activations_ok s \<longleftrightarrow> unique_by ta_name (rg_activations s)
     \<and> (\<forall>a\<in>set (rg_activations s).
          (\<exists>c. candidate s (ta_hash a) = Some c \<and> td_name (cr_definition c) = ta_name a)
          \<and> backed s (ta_hash a) (ta_grant_id a) \<and> cleared s (ta_hash a)
          \<and> (is_retired s (ta_hash a) \<longrightarrow> \<not> ta_active a))"

definition registry_inv :: "tool_env \<Rightarrow> registry \<Rightarrow> bool" where
  "registry_inv env s \<longleftrightarrow> candidates_ok env s \<and> suites_ok s \<and> required_ok s \<and> evaluations_ok s
     \<and> grants_ok s \<and> activations_ok s"

section \<open>The order\<close>

definition scope_at :: "registry \<Rightarrow> string \<Rightarrow> scope option" where
  "scope_at s h = map_option (\<lambda>c. td_input_scope (cr_definition c)) (candidate s h)"

definition grant_goes_on :: "grant_row \<Rightarrow> grant_row \<Rightarrow> bool" where
  "grant_goes_on g g' \<longleftrightarrow> tg_grant_id g' = tg_grant_id g \<and> tg_hash g' = tg_hash g \<and> tg_scope g' = tg_scope g
     \<and> tg_expires_at g' = tg_expires_at g \<and> (tg_revoked g \<longrightarrow> tg_revoked g')"

definition names_kept :: "registry \<Rightarrow> registry \<Rightarrow> bool" where
  "names_kept s s' \<longleftrightarrow> (\<forall>a\<in>set (rg_activations s). \<exists>a'\<in>set (rg_activations s').
     ta_name a' = ta_name a \<and> scope_at s' (ta_hash a') = scope_at s (ta_hash a))"

definition registry_ahead :: "registry \<Rightarrow> registry \<Rightarrow> bool" where
  "registry_ahead s s' \<longleftrightarrow> prefix (rg_candidates s) (rg_candidates s') \<and> prefix (rg_suites s) (rg_suites s')
     \<and> (\<forall>h. required_set s h \<noteq> {} \<longrightarrow> required_set s' h = required_set s h)
     \<and> prefix (rg_evaluations s) (rg_evaluations s') \<and> prefix (rg_retirements s) (rg_retirements s')
     \<and> persists grant_goes_on (rg_grants s) (rg_grants s') \<and> names_kept s s'"

lemma grant_goes_on_refl [simp]: "grant_goes_on g g"
  by (simp add: grant_goes_on_def)

lemma grant_goes_on_trans: "transp grant_goes_on"
  by (auto simp: grant_goes_on_def transp_def)

lemma names_kept_refl [simp]: "names_kept s s"
  by (auto simp: names_kept_def)

lemma names_kept_trans: "names_kept a b \<Longrightarrow> names_kept b c \<Longrightarrow> names_kept a c"
  unfolding names_kept_def by metis

lemma registry_ahead_refl: "registry_ahead s s"
  by (simp add: registry_ahead_def persists_refl)

lemma registry_ahead_trans:
  assumes "registry_ahead a b" and "registry_ahead b c"
  shows "registry_ahead a c"
proof -
  have "persists grant_goes_on (rg_grants a) (rg_grants c)"
    using assms persists_trans [OF grant_goes_on_trans] unfolding registry_ahead_def by blast
  moreover have "names_kept a c"
    using assms names_kept_trans unfolding registry_ahead_def by blast
  ultimately show ?thesis using assms unfolding registry_ahead_def
    by (auto intro: prefix_order.trans)
qed

section \<open>What lasts\<close>

lemma row_by_prefix: "prefix xs ys \<Longrightarrow> row_by key k xs = Some r \<Longrightarrow> row_by key k ys = Some r"
  by (auto simp: prefix_def row_by_append)

lemma list_ex_prefix: "prefix xs ys \<Longrightarrow> list_ex p xs \<Longrightarrow> list_ex p ys"
  by (auto simp: prefix_def)

lemma candidate_lasts: "registry_ahead s s' \<Longrightarrow> candidate s h = Some c \<Longrightarrow> candidate s' h = Some c"
  by (auto simp: registry_ahead_def candidate_def intro: row_by_prefix)

lemma covers_lasts: "registry_ahead s s' \<Longrightarrow> covers s h scope \<Longrightarrow> covers s' h scope"
  by (auto simp: covers_def dest: candidate_lasts)

lemma retired_lasts: "registry_ahead s s' \<Longrightarrow> is_retired s h \<Longrightarrow> is_retired s' h"
  by (auto simp: registry_ahead_def is_retired_def intro: list_ex_prefix)

lemma passed_lasts: "registry_ahead s s' \<Longrightarrow> suite_passed s h su \<Longrightarrow> suite_passed s' h su"
  by (auto simp: registry_ahead_def suite_passed_def intro: list_ex_prefix)

lemma cleared_lasts: "registry_ahead s s' \<Longrightarrow> cleared s h \<Longrightarrow> cleared s' h"
  unfolding cleared_def by (metis passed_lasts registry_ahead_def)

lemma backed_lasts: "registry_ahead s s' \<Longrightarrow> backed s h g \<Longrightarrow> backed s' h g"
  unfolding backed_def registry_ahead_def persists_def grant_goes_on_def by metis

lemma suite_lasts:
  "registry_ahead s s' \<Longrightarrow> su \<in> ps_suite_id ` set (rg_suites s) \<Longrightarrow> su \<in> ps_suite_id ` set (rg_suites s')"
  by (auto simp: registry_ahead_def prefix_def)

section \<open>Tables an operation leaves alone\<close>

lemma frame_candidates: "candidates_ok env s \<Longrightarrow> rg_candidates s' = rg_candidates s \<Longrightarrow> candidates_ok env s'"
  by (simp add: candidates_ok_def)

lemma frame_suites: "suites_ok s \<Longrightarrow> rg_suites s' = rg_suites s \<Longrightarrow> suites_ok s'"
  by (simp add: suites_ok_def)

lemma frame_required:
  assumes "registry_ahead s s'" and "required_ok s" and "rg_required s' = rg_required s"
  shows "required_ok s'"
  using assms(2, 3) candidate_lasts [OF assms(1)] suite_lasts [OF assms(1)]
  by (fastforce simp: required_ok_def)

lemma frame_evaluations:
  assumes "registry_ahead s s'" and "evaluations_ok s" and "rg_evaluations s' = rg_evaluations s"
  shows "evaluations_ok s'"
  using assms(2, 3) candidate_lasts [OF assms(1)] suite_lasts [OF assms(1)]
  unfolding evaluations_ok_def by fastforce

lemma frame_grants:
  assumes "registry_ahead s s'" and "grants_ok s" and "rg_grants s' = rg_grants s"
    and "rg_retirements s' = rg_retirements s"
  shows "grants_ok s'"
  using assms(2-4) covers_lasts [OF assms(1)] by (auto simp: grants_ok_def is_retired_def)

lemma activation_lasts:
  assumes "registry_ahead s s'" and "activations_ok s" and "a \<in> set (rg_activations s)"
  shows "(\<exists>c. candidate s' (ta_hash a) = Some c \<and> td_name (cr_definition c) = ta_name a)
    \<and> backed s' (ta_hash a) (ta_grant_id a) \<and> cleared s' (ta_hash a)"
  using assms(2, 3) candidate_lasts [OF assms(1)] backed_lasts [OF assms(1)] cleared_lasts [OF assms(1)]
  by (fastforce simp: activations_ok_def)

lemma frame_activations:
  assumes "registry_ahead s s'" and "activations_ok s" and "rg_activations s' = rg_activations s"
    and "rg_retirements s' = rg_retirements s"
  shows "activations_ok s'"
  using assms(2-4) activation_lasts [OF assms(1, 2)] by (auto simp: activations_ok_def is_retired_def)

lemma names_kept_same:
  assumes "activations_ok s" and "rg_activations s' = rg_activations s"
    and "prefix (rg_candidates s) (rg_candidates s')"
  shows "names_kept s s'"
  unfolding names_kept_def
proof
  fix a
  assume a: "a \<in> set (rg_activations s)"
  with assms(1) obtain c where "candidate s (ta_hash a) = Some c" by (auto simp: activations_ok_def)
  moreover from this have "candidate s' (ta_hash a) = Some c"
    unfolding candidate_def by (rule row_by_prefix [OF assms(3)])
  ultimately have "scope_at s' (ta_hash a) = scope_at s (ta_hash a)" by (simp add: scope_at_def)
  with a assms(2) show "\<exists>a'\<in>set (rg_activations s').
      ta_name a' = ta_name a \<and> scope_at s' (ta_hash a') = scope_at s (ta_hash a)" by auto
qed

text \<open>An operation that touches neither grants nor activations nor requirements.\<close>

lemma aheadI:
  assumes "activations_ok s" and "rg_activations s' = rg_activations s"
    and "prefix (rg_candidates s) (rg_candidates s')" and "prefix (rg_suites s) (rg_suites s')"
    and "\<forall>h. required_set s h \<noteq> {} \<longrightarrow> required_set s' h = required_set s h"
    and "prefix (rg_evaluations s) (rg_evaluations s')" and "prefix (rg_retirements s) (rg_retirements s')"
    and "persists grant_goes_on (rg_grants s) (rg_grants s')"
  shows "registry_ahead s s'"
  using assms names_kept_same [OF assms(1-3)] by (simp add: registry_ahead_def)

definition moves :: "tool_env \<Rightarrow> registry \<Rightarrow> registry \<Rightarrow> bool" where
  "moves env s s' \<longleftrightarrow> registry_ahead s s' \<and> registry_inv env s'"

lemma prefix_insert_or_ignore: "prefix rows (insert_or_ignore key r rows)"
  by (simp add: insert_or_ignore_def)

lemma movesI:
  assumes inv: "registry_inv env s" and ahead: "registry_ahead s s'"
    and "rg_candidates s' = rg_candidates s \<or> candidates_ok env s'"
    and "rg_suites s' = rg_suites s \<or> suites_ok s'"
    and "rg_required s' = rg_required s \<or> required_ok s'"
    and "rg_evaluations s' = rg_evaluations s \<or> evaluations_ok s'"
    and "rg_grants s' = rg_grants s \<and> rg_retirements s' = rg_retirements s \<or> grants_ok s'"
    and "rg_activations s' = rg_activations s \<and> rg_retirements s' = rg_retirements s \<or> activations_ok s'"
  shows "moves env s s'"
proof -
  have i: "candidates_ok env s" "suites_ok s" "required_ok s" "evaluations_ok s" "grants_ok s" "activations_ok s"
    using inv by (simp_all add: registry_inv_def)
  have "candidates_ok env s'" using assms(3) frame_candidates [OF i(1)] by metis
  moreover have "suites_ok s'" using assms(4) frame_suites [OF i(2)] by metis
  moreover have "required_ok s'" using assms(5) frame_required [OF ahead i(3)] by metis
  moreover have "evaluations_ok s'" using assms(6) frame_evaluations [OF ahead i(4)] by metis
  moreover have "grants_ok s'" using assms(7) frame_grants [OF ahead i(5)] by metis
  moreover have "activations_ok s'" using assms(8) frame_activations [OF ahead i(6)] by metis
  ultimately show ?thesis using ahead by (simp add: moves_def registry_inv_def)
qed

lemma moves_refl: "registry_inv env s \<Longrightarrow> moves env s s"
  by (simp add: moves_def registry_ahead_refl)

section \<open>Authors and evaluators\<close>

lemma register_moves:
  assumes inv: "registry_inv env s" and "register env m now s = Inr (h, s')"
  shows "moves env s s'"
proof -
  let ?row = "\<lparr> cr_hash = h, cr_name = td_name (cm_definition m), cr_definition = cm_definition m,
    cr_evidence = cm_authoring_evidence m, cr_created_at = now \<rparr>"
  from assms(2) have v: "validate_definition env (cm_definition m) = Inr h"
    and s': "s' = s\<lparr>rg_candidates := insert_or_ignore cr_hash ?row (rg_candidates s)\<rparr>"
    by (auto simp: register_def rbind_Inr_iff)
  have ahead: "registry_ahead s s'"
    using inv by (intro aheadI) (simp_all add: s' registry_inv_def required_set_def prefix_insert_or_ignore persists_refl)
  moreover have "candidates_ok env s'"
    using inv v by (auto simp: s' registry_inv_def candidates_ok_def insert_or_ignore_def)
  ultimately show ?thesis by (intro movesI [OF inv]) (simp_all add: s')
qed

lemma protect_moves:
  assumes inv: "registry_inv env s" and "protect_suite renv suite cases s = Inr s'"
  shows "moves env s s'"
proof -
  from assms(2) obtain suite_hash where n: "suite \<noteq> []" "cases \<noteq> []"
    and s': "s' = (if list_ex (\<lambda>r. ps_suite_id r = suite \<or> ps_suite_hash r = suite_hash) (rg_suites s) then s
      else s\<lparr>rg_suites := rg_suites s @ [\<lparr> ps_suite_id = suite, ps_cases = cases, ps_suite_hash = suite_hash \<rparr>]\<rparr>)"
    by (auto simp: protect_suite_def rbind_Inr_iff Let_def)
  show ?thesis
  proof (cases "list_ex (\<lambda>r. ps_suite_id r = suite \<or> ps_suite_hash r = suite_hash) (rg_suites s)")
    case True
    with inv s' show ?thesis by (simp add: moves_refl)
  next
    case False
    have ahead: "registry_ahead s s'"
      using inv False by (intro aheadI) (simp_all add: s' registry_inv_def required_set_def persists_refl)
    moreover have "suites_ok s'"
      using inv False n by (auto simp: s' registry_inv_def suites_ok_def list_ex_iff)
    ultimately show ?thesis by (intro movesI [OF inv]) (simp_all add: s')
  qed
qed

lemma missing_suite_None: "missing_suite s ws = None \<longleftrightarrow> set ws \<subseteq> ps_suite_id ` set (rg_suites s)"
  by (induction ws) (auto simp: list_ex_iff)

lemma required_suites_empty: "required_suites s h = [] \<longleftrightarrow> required_set s h = {}"
proof -
  have "required_suites s h = [] \<longleftrightarrow> set (required_suites s h) = {}" by simp
  then show ?thesis by (auto simp: required_suites_def required_set_def simp del: set_empty)
qed

lemma distinct_remdups_adj: "sorted xs \<Longrightarrow> distinct (remdups_adj xs)"
  by (induction xs rule: remdups_adj.induct) (auto simp: less_le)

lemma list_ex_candidate: "list_ex (\<lambda>r. cr_hash r = h) (rg_candidates s) \<longleftrightarrow> candidate s h \<noteq> None"
  by (auto simp: list_ex_iff candidate_def row_by_None)

lemma designate_moves:
  assumes inv: "registry_inv env s" and "designate_required h suites s = Inr s'"
  shows "moves env s s'"
proof (cases "required_suites s h = []")
  case False
  with assms show ?thesis
    by (auto simp: designate_required_def rbind_Inr_iff Let_def moves_refl split: if_splits)
next
  case True
  let ?wanted = "remdups_adj (sort suites)"
  from assms(2) True have c: "candidate s h \<noteq> None" and m: "missing_suite s ?wanted = None"
    and s': "s' = s\<lparr>rg_required := rg_required s @ map (\<lambda>w. (h, w)) ?wanted\<rparr>"
    by (auto simp: designate_required_def rbind_Inr_iff Let_def list_ex_candidate split: option.splits)
  have none: "required_set s h = {}" using True by (simp add: required_suites_empty)
  have ahead: "registry_ahead s s'"
    using inv none by (intro aheadI) (auto simp: s' registry_inv_def persists_refl required_set_def)
  have "distinct ?wanted" by (rule distinct_remdups_adj) simp
  moreover have "(h, w) \<notin> set (rg_required s)" for w
    using none by (auto simp: required_set_def)
  ultimately have "distinct (rg_required s')"
    using inv by (auto simp: s' registry_inv_def required_ok_def distinct_map inj_on_def)
  moreover have "\<forall>(h', su)\<in>set (rg_required s'). candidate s' h' \<noteq> None \<and> su \<in> ps_suite_id ` set (rg_suites s')"
    using inv c m by (auto simp: s' registry_inv_def required_ok_def missing_suite_None candidate_def)
  ultimately have "required_ok s'" by (simp add: required_ok_def)
  with ahead show ?thesis by (intro movesI [OF inv]) (simp_all add: s')
qed

lemma evaluate_moves:
  assumes inv: "registry_inv env s" and "evaluate_suite tenv ws h suite now s = Inr (r, s')"
  shows "moves env s s'"
proof -
  let ?row = "\<lparr> tv_hash = h, tv_suite_id = suite, tv_report = r, tv_passed = er_passed r, tv_created_at = now \<rparr>"
  from assms(2) obtain c su where c: "candidate s h = Some c" and su: "row_by ps_suite_id suite (rg_suites s) = Some su"
    and r: "er_tool_hash r = h" "er_cases r = length (ps_cases su)"
      "er_passed r = (er_failures r = [] \<and> ps_cases su \<noteq> [])"
    and s': "s' = s\<lparr>rg_evaluations := rg_evaluations s @ [?row]\<rparr>"
    by (auto simp: evaluate_suite_def rbind_Inr_iff Let_def)
  from su inv have "ps_cases su \<noteq> []" and "suite \<in> ps_suite_id ` set (rg_suites s)"
    by (auto simp: registry_inv_def suites_ok_def dest: row_by_Some)
  then have "evaluations_ok s'"
    using inv c r by (auto simp: s' registry_inv_def evaluations_ok_def candidate_def)
  moreover have "registry_ahead s s'"
    using inv by (intro aheadI) (simp_all add: s' registry_inv_def required_set_def persists_refl)
  ultimately show ?thesis by (intro movesI [OF inv]) (simp_all add: s')
qed

lemma compare_moves:
  assumes inv: "registry_inv env s" and "compare_candidate tenv ws ws' suite h now s = Inr (r, s')"
  shows "moves env s s'"
proof -
  from assms(2) obtain rows where s': "s' = s\<lparr>rg_comparisons := rows\<rparr>"
    by (auto simp: compare_candidate_def rbind_Inr_iff Let_def)
  have "registry_ahead s s'"
    using inv by (intro aheadI) (simp_all add: s' registry_inv_def required_set_def persists_refl)
  then show ?thesis by (intro movesI [OF inv]) (simp_all add: s')
qed

section \<open>Policy\<close>

lemma ball_update_where:
  "(\<forall>x\<in>set (update_where p f rows). P x) \<longleftrightarrow> (\<forall>x\<in>set rows. P (if p x then f x else x))"
  unfolding set_update_where by (rule ball_simps)

lemma issue_moves:
  assumes inv: "registry_inv env s" and "issue_grant h scope expires uuid now s = Inr (g, s')"
  shows "moves env s s'"
proof -
  let ?row = "\<lparr> tg_grant_id = ''grant-'' @ uuid, tg_hash = h, tg_scope = scope, tg_expires_at = expires,
    tg_revoked = False, tg_created_at = now \<rparr>"
  from assms(2) obtain c where c: "candidate s h = Some c" and sc: "scope_contains scope (td_input_scope (cr_definition c))"
    and nr: "\<not> is_retired s h" and f: "row_by tg_grant_id (''grant-'' @ uuid) (rg_grants s) = None"
    and s': "s' = s\<lparr>rg_grants := rg_grants s @ [?row]\<rparr>"
    by (auto simp: issue_grant_def rbind_Inr_iff Let_def)
  have "registry_ahead s s'"
    using inv by (intro aheadI) (simp_all add: s' registry_inv_def required_set_def persists_append)
  moreover have "covers s' (tg_hash g) (tg_scope g)" if "covers s (tg_hash g) (tg_scope g)" for g
    using that by (simp add: s' covers_def candidate_def)
  then have "grants_ok s'"
    using inv c sc nr f
    by (auto simp: s' registry_inv_def grants_ok_def covers_def candidate_def is_retired_def row_by_None)
  ultimately show ?thesis by (intro movesI [OF inv]) (simp_all add: s')
qed

lemma revoking_goes_on:
  "persists grant_goes_on (rg_grants s) (update_where p (tg_revoked_update (\<lambda>_. True)) (rg_grants s))"
  by (intro persists_update_where) (simp_all add: grant_goes_on_def)

lemma revoke_moves:
  assumes inv: "registry_inv env s" and "revoke grant_id s = Inr s'"
  shows "moves env s s'"
proof -
  from assms(2) have s': "s' = s\<lparr>rg_grants :=
      update_where (\<lambda>g. tg_grant_id g = grant_id) (tg_revoked_update (\<lambda>_. True)) (rg_grants s)\<rparr>"
    by (auto simp: revoke_def rbind_Inr_iff)
  have "registry_ahead s s'"
    using inv by (intro aheadI) (simp_all add: s' registry_inv_def required_set_def revoking_goes_on)
  moreover have "grants_ok s'"
    using inv by (auto simp: s' registry_inv_def grants_ok_def covers_def candidate_def is_retired_def set_update_where)
  ultimately show ?thesis by (intro movesI [OF inv]) (simp_all add: s')
qed

lemma retire_moves:
  assumes inv: "registry_inv env s"
  shows "moves env s (retire h now s)" (is "moves env s ?s'")
proof -
  let ?acts = "update_where (\<lambda>a. ta_hash a = h) (ta_active_update (\<lambda>_. False)) (rg_activations s)"
  have names: "names_kept s ?s'"
  proof -
    have "persists (\<lambda>a a'. ta_name a' = ta_name a \<and> ta_hash a' = ta_hash a) (rg_activations s) ?acts"
      by (intro persists_update_where) simp_all
    moreover have "rg_activations ?s' = ?acts" and "scope_at ?s' = scope_at s"
      by (auto simp: retire_def scope_at_def candidate_def)
    ultimately show ?thesis unfolding names_kept_def persists_def by metis
  qed
  have ahead: "registry_ahead s ?s'"
    using names by (simp add: registry_ahead_def retire_def required_set_def prefix_insert_or_ignore revoking_goes_on)
  have retired: "is_retired ?s' k \<longleftrightarrow> k = h \<or> is_retired s k" for k
    by (auto simp: is_retired_def retire_def insert_or_ignore_def list_ex_iff)
  let ?grants = "update_where (\<lambda>g. tg_hash g = h) (tg_revoked_update (\<lambda>_. True)) (rg_grants s)"
  have grants: "rg_grants ?s' = ?grants" and cov: "covers ?s' k sc = covers s k sc" for k sc
    by (simp_all add: retire_def covers_def candidate_def)
  have "grants_ok s" using inv by (simp add: registry_inv_def)
  then have "\<forall>g\<in>set ?grants. covers s (tg_hash g) (tg_scope g)
      \<and> (tg_hash g = h \<or> is_retired s (tg_hash g) \<longrightarrow> tg_revoked g)"
    unfolding ball_update_where by (auto simp: grants_ok_def)
  then have "grants_ok ?s'"
    using \<open>grants_ok s\<close> unfolding grants_ok_def grants cov retired by simp
  moreover have "activations_ok ?s'"
    unfolding activations_ok_def
  proof
    show "unique_by ta_name (rg_activations ?s')"
      using inv by (simp add: retire_def registry_inv_def activations_ok_def)
    show "\<forall>a\<in>set (rg_activations ?s').
        (\<exists>c. candidate ?s' (ta_hash a) = Some c \<and> td_name (cr_definition c) = ta_name a)
        \<and> backed ?s' (ta_hash a) (ta_grant_id a) \<and> cleared ?s' (ta_hash a)
        \<and> (is_retired ?s' (ta_hash a) \<longrightarrow> \<not> ta_active a)"
    proof
      fix a
      assume "a \<in> set (rg_activations ?s')"
      then obtain b where b: "b \<in> set (rg_activations s)" and a: "a = (if ta_hash b = h then b\<lparr>ta_active := False\<rparr> else b)"
        by (auto simp: retire_def set_update_where)
      have "activations_ok s" using inv by (simp add: registry_inv_def)
      from activation_lasts [OF ahead this b] \<open>activations_ok s\<close> a b retired
      show "(\<exists>c. candidate ?s' (ta_hash a) = Some c \<and> td_name (cr_definition c) = ta_name a)
        \<and> backed ?s' (ta_hash a) (ta_grant_id a) \<and> cleared ?s' (ta_hash a)
        \<and> (is_retired ?s' (ta_hash a) \<longrightarrow> \<not> ta_active a)"
        by (auto simp: activations_ok_def)
    qed
  qed
  ultimately show ?thesis using ahead by (intro movesI [OF inv]) (simp_all add: retire_def)
qed

lemma moves_trans:
  "moves env a b \<Longrightarrow> (registry_inv env b \<Longrightarrow> moves env b c) \<Longrightarrow> moves env a c"
  unfolding moves_def using registry_ahead_trans by blast

lemma unrelated_moves:
  assumes inv: "registry_inv env s"
    and "rg_candidates s' = rg_candidates s" "rg_suites s' = rg_suites s" "rg_required s' = rg_required s"
      "rg_evaluations s' = rg_evaluations s" "rg_grants s' = rg_grants s" "rg_activations s' = rg_activations s"
      "rg_retirements s' = rg_retirements s"
  shows "moves env s s'"
  using inv assms(2-) by (intro movesI [OF inv] aheadI) (simp_all add: registry_inv_def required_set_def persists_refl)

lemma assess_moves:
  assumes inv: "registry_inv env s" and "assess h scope outcome evidence now s = Inr s'"
  shows "moves env s s'"
proof -
  from assms(2) obtain rows where s': "s' = (if outcome = ''regression'' \<or> outcome = ''retire''
      then retire h now (s\<lparr>rg_assessments := rows\<rparr>) else s\<lparr>rg_assessments := rows\<rparr>)"
    by (auto simp: assess_def rbind_Inr_iff Let_def)
  have "moves env s (s\<lparr>rg_assessments := rows\<rparr>)" using inv by (rule unrelated_moves) simp_all
  then show ?thesis using retire_moves [of env "s\<lparr>rg_assessments := rows\<rparr>"] unfolding s' by (auto intro: moves_trans)
qed

lemma observe_moves:
  assumes inv: "registry_inv env s" and "observe h scope outcome evidence now s = Inr s'"
  shows "moves env s s'"
  using assms(2) by (intro unrelated_moves [OF inv]) (auto simp: observe_def rbind_Inr_iff)

lemma reject_moves:
  assumes inv: "registry_inv env s"
  shows "moves env s (reject_method_output h now s)"
proof -
  let ?s1 = "s\<lparr>rg_contract_failures := insert_or_ignore fst (h, now) (rg_contract_failures s)\<rparr>"
  have "moves env s ?s1" using inv by (rule unrelated_moves) simp_all
  then show ?thesis unfolding reject_method_output_def by (rule moves_trans) (rule retire_moves)
qed

lemma author_step_moves:
  "registry_inv (tool_env.truncate renv) s \<Longrightarrow> author_step renv op s = Inr s' \<Longrightarrow> moves (tool_env.truncate renv) s s'"
  by (cases op) (auto simp: rbind_Inr_iff intro: register_moves protect_moves designate_moves evaluate_moves compare_moves)

lemma grant_step_moves:
  "registry_inv env s \<Longrightarrow> grant_step op s = Inr s' \<Longrightarrow> moves env s s'"
  by (cases op) (auto simp: rbind_Inr_iff intro: issue_moves revoke_moves assess_moves observe_moves reject_moves)

section \<open>Activations in flight\<close>

lemma count_where_all:
  "count_where p rows = count_where (\<lambda>r. p r \<and> q r) rows \<Longrightarrow> r \<in> set rows \<Longrightarrow> p r \<Longrightarrow> q r"
proof (induction rows)
  case (Cons x rows)
  have "count_where (\<lambda>r. p r \<and> q r) rows \<le> count_where p rows" by (rule count_where_mono) simp
  with Cons show ?case by (auto split: if_splits)
qed simp

lemma eligible_cleared:
  assumes "ensure_candidate_eligible h s = Inr ()"
  shows "cleared s h \<and> \<not> is_retired s h \<and> (\<forall>su\<in>required_set s h. \<not> suite_failed s h su)"
proof -
  let ?p = "\<lambda>r. fst r = h" and ?q = "\<lambda>r. suite_passed s h (snd r) \<and> \<not> suite_failed s h (snd r)"
  from assms have nr: "\<not> is_retired s h" and n: "count_where ?p (rg_required s) \<noteq> 0"
    and eq: "count_where ?p (rg_required s) = count_where (\<lambda>r. ?p r \<and> ?q r) (rg_required s)"
    by (simp_all add: ensure_candidate_eligible_def rbind_Inr_iff Let_def)
  have "?q r" if "r \<in> set (rg_required s)" and "?p r" for r
    using count_where_all [OF eq that] .
  moreover from n obtain su where "(h, su) \<in> set (rg_required s)" by (auto simp: count_where_zero_iff)
  ultimately show ?thesis using nr by (force simp: cleared_def required_set_def)
qed

lemma store_activation_Inr:
  assumes "store_activation c h grant now s = Inr s'"
  shows "backed s h (ag_grant_id grant) \<and> \<not> is_retired s h
    \<and> (\<forall>a old. row_by ta_name (td_name (cr_definition c)) (rg_activations s) = Some a
        \<longrightarrow> candidate s (ta_hash a) = Some old
        \<longrightarrow> td_input_scope (cr_definition old) = td_input_scope (cr_definition c))
    \<and> s' = s\<lparr>rg_activations := upsert_row ta_name
       \<lparr> ta_name = td_name (cr_definition c), ta_hash = h, ta_grant_id = ag_grant_id grant, ta_active = True \<rparr>
       (\<lambda>a. a\<lparr> ta_hash := h, ta_grant_id := ag_grant_id grant, ta_active := True \<rparr>) (rg_activations s)\<rparr>"
  using assms
  by (simp add: store_activation_def rbind_Inr_iff Let_def list_ex_iff backed_def)
    (auto split: option.splits)

lemma store_moves:
  assumes inv: "registry_inv env s" and store: "store_activation c h grant now s = Inr s'"
    and c: "candidate s h = Some c" and cleared: "cleared s h"
  shows "moves env s s'"
proof -
  let ?name = "td_name (cr_definition c)"
  let ?new = "\<lparr> ta_name = ?name, ta_hash = h, ta_grant_id = ag_grant_id grant, ta_active = True \<rparr>"
  let ?f = "\<lambda>a. a\<lparr> ta_hash := h, ta_grant_id := ag_grant_id grant, ta_active := True \<rparr>"
  note facts = store_activation_Inr [OF store]
  have s': "s' = s\<lparr>rg_activations := upsert_row ta_name ?new ?f (rg_activations s)\<rparr>" using facts by blast
  have acts: "activations_ok s" using inv by (simp add: registry_inv_def)
  then have unique: "unique_by ta_name (rg_activations s)" by (simp add: activations_ok_def)
  have rows: "a \<in> set (rg_activations s') \<Longrightarrow>
      a \<in> set (rg_activations s) \<and> ta_name a \<noteq> ?name \<or> ta_name a = ?name \<and> ta_hash a = h
        \<and> ta_grant_id a = ag_grant_id grant" for a
    by (auto simp: s' upsert_row_def set_update_where split: if_splits) (metis imageI)+
  have scopes: "scope_at s' = scope_at s" by (simp add: s' scope_at_def candidate_def fun_eq_iff)
  have names: "names_kept s s'"
    unfolding names_kept_def scopes
  proof
    fix a
    assume a: "a \<in> set (rg_activations s)"
    show "\<exists>a'\<in>set (rg_activations s'). ta_name a' = ta_name a \<and> scope_at s (ta_hash a') = scope_at s (ta_hash a)"
    proof (cases "ta_name a = ?name")
      case False
      with a have "a \<in> set (rg_activations s')" by (auto simp: s' upsert_row_def set_update_where)
      then show ?thesis by blast
    next
      case True
      with a unique have "row_by ta_name ?name (rg_activations s) = Some a" by (simp add: row_by_unique)
      moreover from acts a obtain old where old: "candidate s (ta_hash a) = Some old" by (auto simp: activations_ok_def)
      ultimately have "td_input_scope (cr_definition old) = td_input_scope (cr_definition c)"
        using facts by blast
      then have "scope_at s h = scope_at s (ta_hash a)" using old c by (simp add: scope_at_def)
      moreover have "?f a \<in> set (rg_activations s')"
      proof -
        have "?name \<in> ta_name ` set (rg_activations s)" using a True by force
        then show ?thesis using a True by (simp add: s' upsert_row_def set_update_where)
      qed
      ultimately show ?thesis by (intro bexI [of _ "?f a"]) simp_all
    qed
  qed
  have ahead: "registry_ahead s s'"
    using names by (simp add: registry_ahead_def s' required_set_def persists_refl)
  have "unique_by ta_name (rg_activations s')"
    using unique by (auto simp: s' upsert_row_def)
  moreover have "(\<exists>c. candidate s' (ta_hash a) = Some c \<and> td_name (cr_definition c) = ta_name a)
      \<and> backed s' (ta_hash a) (ta_grant_id a) \<and> cleared s' (ta_hash a)
      \<and> (is_retired s' (ta_hash a) \<longrightarrow> \<not> ta_active a)" if "a \<in> set (rg_activations s')" for a
  proof (cases "ta_name a = ?name")
    case True
    with rows [OF that] have "ta_hash a = h" and "ta_grant_id a = ag_grant_id grant" by auto
    moreover have "\<not> is_retired s' h" using facts by (simp add: s' is_retired_def)
    ultimately show ?thesis
      using True candidate_lasts [OF ahead c] cleared_lasts [OF ahead cleared] backed_lasts [OF ahead] facts by simp
  next
    case False
    with rows [OF that] have "a \<in> set (rg_activations s)" by blast
    with activation_lasts [OF ahead acts this] acts show ?thesis
      by (auto simp: s' is_retired_def activations_ok_def)
  qed
  ultimately have "activations_ok s'" by (simp add: activations_ok_def)
  with ahead show ?thesis by (intro movesI [OF inv]) (simp_all add: s')
qed

definition pending_ok :: "registry \<Rightarrow> pending_activation \<Rightarrow> bool" where
  "pending_ok s p \<longleftrightarrow> candidate s (pa_hash p) = Some (pa_candidate p) \<and> (pa_eligible p \<longrightarrow> cleared s (pa_hash p))"

definition desk_inv :: "registry_env \<Rightarrow> desk \<Rightarrow> bool" where
  "desk_inv env d \<longleftrightarrow> registry_inv (tool_env.truncate env) (dk_registry d)
     \<and> (\<forall>p\<in>set (dk_pending d). pending_ok (dk_registry d) p)"

lemma pending_lasts: "registry_ahead s s' \<Longrightarrow> pending_ok s p \<Longrightarrow> pending_ok s' p"
  by (auto simp: pending_ok_def dest: candidate_lasts cleared_lasts)

lemma on_registry_moves:
  assumes "desk_inv env d" and "on_registry d r = Inr d'"
    and "\<And>s'. r = Inr s' \<Longrightarrow> moves (tool_env.truncate env) (dk_registry d) s'"
  shows "registry_ahead (dk_registry d) (dk_registry d') \<and> desk_inv env d'"
proof -
  from assms(2) obtain s' where r: "r = Inr s'" and d': "d' = d\<lparr>dk_registry := s'\<rparr>"
    by (auto simp: on_registry_def rbind_Inr_iff)
  with assms(3) [OF r] assms(1) show ?thesis by (auto simp: moves_def desk_inv_def intro: pending_lasts)
qed

lemma read_grant_Inr:
  "read_grant grant now s = Inr (c, h) \<Longrightarrow> candidate s h = Some c \<and> h = ag_tool_hash grant"
  by (auto simp: read_grant_def rbind_Inr_iff validate_grant_activation_def Let_def)

lemma desk_step_moves:
  assumes inv: "desk_inv env d" and "desk_step env op d = Inr d'"
  shows "registry_ahead (dk_registry d) (dk_registry d') \<and> desk_inv env d'"
proof (cases op)
  case (Author a)
  with assms show ?thesis
    by (intro on_registry_moves [OF inv]) (auto intro: author_step_moves simp: desk_inv_def)
next
  case (Policy a)
  with assms show ?thesis
    by (intro on_registry_moves [OF inv]) (auto intro: grant_step_moves simp: desk_inv_def)
next
  case (Begin_activation grant now)
  with assms show ?thesis
    by (auto simp: rbind_Inr_iff desk_inv_def registry_ahead_refl pending_ok_def read_grant_Inr)
next
  case (Check_activation i)
  with assms show ?thesis
    by (auto simp: rbind_Inr_iff desk_inv_def registry_ahead_refl pending_ok_def
        dest!: eligible_cleared set_update_subset_insert [THEN subsetD] split: if_splits)
next
  case (Commit_activation i now)
  show ?thesis
  proof (cases "i < length (dk_pending d) \<and> pa_eligible (dk_pending d ! i)")
    case True
    then have "pending_ok (dk_registry d) (dk_pending d ! i)" using inv by (simp add: desk_inv_def)
    with True assms Commit_activation show ?thesis
      by (intro on_registry_moves [OF inv])
        (auto simp: desk_inv_def pending_ok_def intro: store_moves)
  next
    case False
    with assms Commit_activation show ?thesis by (auto simp: registry_ahead_refl)
  qed
qed

interpretation desk: monotone_machine "desk_step env" "desk_inv env"
    "\<lambda>d d'. registry_ahead (dk_registry d) (dk_registry d')" for env
  by unfold_locales (use desk_step_moves registry_ahead_refl registry_ahead_trans in blast)+

lemma empty_desk_inv: "desk_inv env empty_desk"
  by (simp add: desk_inv_def empty_desk_def registry_inv_def empty_registry_def candidates_ok_def suites_ok_def
    required_ok_def evaluations_ok_def grants_ok_def activations_ok_def)

definition registry_after :: "registry_env \<Rightarrow> desk_op list \<Rightarrow> registry" where
  "registry_after env ops = dk_registry (run (desk_step env) ops empty_desk)"

lemma registry_after_inv: "registry_inv (tool_env.truncate env) (registry_after env ops)"
  using desk.run_inv [OF empty_desk_inv, of env ops] by (simp add: desk_inv_def registry_after_def)

lemma registry_after_ahead: "registry_ahead (registry_after env ops) (registry_after env (ops @ ops'))"
  using desk.run_ahead [OF desk.run_inv [OF empty_desk_inv], of env ops ops']
  by (simp add: registry_after_def run_append)

section \<open>Promises\<close>

lemma after_ahead: "registry_ahead (registry_after env ops) (registry_after env (ops @ ops'))"
  by (rule registry_after_ahead)

lemma granted_activations_in:
  "(a, g) \<in> set (granted_activations s p) \<longleftrightarrow>
     a \<in> set (rg_activations s) \<and> p a \<and> ta_active a \<and> g \<in> set (rg_grants s) \<and> tg_grant_id g = ta_grant_id a"
  by (auto simp: granted_activations_def)

text \<open>(C17) A retired tool stays dead, whatever is done afterwards and however the activations in flight
  interleave: its activations are off, its grants revoked, nobody can be granted it again, no commit
  of an activation goes through, and no scope sees it as active.\<close>

theorem retired_tool_is_dead:
  assumes "is_retired (registry_after env ops) h" and "s = registry_after env (ops @ ops')"
  shows "is_retired s h
    \<and> (\<forall>a\<in>set (rg_activations s). ta_hash a = h \<longrightarrow> \<not> ta_active a)
    \<and> (\<forall>g\<in>set (rg_grants s). tg_hash g = h \<longrightarrow> tg_revoked g)
    \<and> \<not> is_ok (issue_grant h scope expires uuid now s)
    \<and> \<not> is_ok (store_activation c h grant now s)
    \<and> \<not> is_active_hash s h scope now"
proof -
  have retired: "is_retired s h"
    using assms retired_lasts [OF after_ahead] by blast
  have inv: "registry_inv (tool_env.truncate env) s" unfolding assms(2) by (rule registry_after_inv)
  then have dead: "\<forall>a\<in>set (rg_activations s). ta_hash a = h \<longrightarrow> \<not> ta_active a"
    and revoked: "\<forall>g\<in>set (rg_grants s). tg_hash g = h \<longrightarrow> tg_revoked g"
    using retired by (auto simp: registry_inv_def activations_ok_def grants_ok_def)
  moreover have "\<not> is_ok (issue_grant h scope expires uuid now s)"
    using retired by (auto simp: is_ok_iff issue_grant_def rbind_Inr_iff Let_def)
  moreover have "\<not> is_ok (store_activation c h grant now s)"
    using retired by (auto simp: is_ok_iff dest: store_activation_Inr)
  moreover have "\<not> is_active_hash s h scope now"
    using dead by (auto simp: is_active_hash_def list_ex_iff granted_activations_in)
  ultimately show ?thesis using retired by blast
qed

text \<open>(C29) However authors, evaluators, people and activations in flight interleave, every activation
  names a registered tool whose required suites were designated and each have a passing evaluation on
  record, under a grant of exactly that tool whose scope contains the tool's own.\<close>

theorem activations_are_earned:
  assumes "a \<in> set (rg_activations (registry_after env ops))" and "s = registry_after env ops"
  shows "cleared s (ta_hash a)
    \<and> (\<exists>c g. candidate s (ta_hash a) = Some c \<and> td_name (cr_definition c) = ta_name a
        \<and> validate_definition (tool_env.truncate env) (cr_definition c) = Inr (ta_hash a)
        \<and> g \<in> set (rg_grants s) \<and> tg_grant_id g = ta_grant_id a \<and> tg_hash g = ta_hash a
        \<and> scope_contains (tg_scope g) (td_input_scope (cr_definition c)))"
proof -
  have inv: "registry_inv (tool_env.truncate env) s" unfolding assms(2) by (rule registry_after_inv)
  with assms obtain c where c: "candidate s (ta_hash a) = Some c" and n: "td_name (cr_definition c) = ta_name a"
    and b: "backed s (ta_hash a) (ta_grant_id a)" and cl: "cleared s (ta_hash a)"
    by (auto simp: registry_inv_def activations_ok_def)
  from b obtain g where g: "g \<in> set (rg_grants s)" "tg_grant_id g = ta_grant_id a" "tg_hash g = ta_hash a"
    by (auto simp: backed_def)
  with inv have "covers s (ta_hash a) (tg_scope g)" by (auto simp: registry_inv_def grants_ok_def)
  with c have "scope_contains (tg_scope g) (td_input_scope (cr_definition c))" by (simp add: covers_def)
  moreover from c inv have "validate_definition (tool_env.truncate env) (cr_definition c) = Inr (ta_hash a)"
    by (auto simp: registry_inv_def candidates_ok_def candidate_def dest: row_by_Some)
  ultimately show ?thesis using c n cl g by blast
qed

text \<open>The name of a tool never changes its scope: once activated, a name is only ever activated again
  for tools with the same input scope.\<close>

theorem names_keep_their_scope:
  assumes "a \<in> set (rg_activations (registry_after env ops))"
    and "a' \<in> set (rg_activations (registry_after env (ops @ ops')))" and "ta_name a' = ta_name a"
  shows "scope_at (registry_after env (ops @ ops')) (ta_hash a') = scope_at (registry_after env ops) (ta_hash a)"
proof -
  let ?s = "registry_after env ops" and ?s' = "registry_after env (ops @ ops')"
  have "names_kept ?s ?s'" using after_ahead unfolding registry_ahead_def by blast
  with assms(1) obtain b where b: "b \<in> set (rg_activations ?s')" "ta_name b = ta_name a"
    and sc: "scope_at ?s' (ta_hash b) = scope_at ?s (ta_hash a)" unfolding names_kept_def by blast
  have "unique_by ta_name (rg_activations ?s')"
    using registry_after_inv [of env "ops @ ops'"] by (simp add: registry_inv_def activations_ok_def)
  with b assms(2, 3) have "a' = b" by (metis unique_by_inj)
  with sc show ?thesis by simp
qed

text \<open>The record only grows: candidates, protected suites with their cases, evaluations and retirements
  are never changed or dropped, and the suites a candidate requires are fixed once designated.\<close>

theorem registry_is_append_only:
  assumes "s = registry_after env ops" and "s' = registry_after env (ops @ ops')"
  shows "prefix (rg_candidates s) (rg_candidates s') \<and> prefix (rg_suites s) (rg_suites s')
    \<and> prefix (rg_evaluations s) (rg_evaluations s') \<and> prefix (rg_retirements s) (rg_retirements s')
    \<and> (required_set s h = {} \<or> required_set s' h = required_set s h)"
  using after_ahead [of env ops ops'] assms by (auto simp: registry_ahead_def)

lemma grant_after:
  assumes "registry_ahead s s'" and "registry_inv env s" and "registry_inv env s'"
    and "row_by tg_grant_id i (rg_grants s) = Some g" and "row_by tg_grant_id i (rg_grants s') = Some g'"
  shows "grant_goes_on g g'"
proof -
  have "g \<in> set (rg_grants s)" and i: "tg_grant_id g = i" using row_by_Some [OF assms(4)] by auto
  then obtain k where k: "k \<in> set (rg_grants s')" "grant_goes_on g k"
    using assms(1) unfolding registry_ahead_def persists_def by blast
  moreover have "g' \<in> set (rg_grants s')" and "tg_grant_id g' = i" using row_by_Some [OF assms(5)] by auto
  moreover have "tg_grant_id k = i" using k(2) i by (simp add: grant_goes_on_def)
  moreover have "unique_by tg_grant_id (rg_grants s')" using assms(3) by (simp add: registry_inv_def grants_ok_def)
  ultimately have "k = g'" by (metis unique_by_inj)
  with k show ?thesis by simp
qed

lemma scope_contains_union: "scope_contains sc (scope_union ss) \<longleftrightarrow> list_all (scope_contains sc) ss"
  by (auto simp: scope_contains_def scope_union_def list_all_iff)

lemma after_ahead_from:
  "registry_ahead (registry_after env (xs @ ys)) (registry_after env (xs @ ys @ zs))"
  using after_ahead [of env "xs @ ys" zs] by simp

lemma invoke_Inr:
  assumes "invoke env w name inputs now now' s1 s2 s3 s4 = Inr r"
  obtains a c g g' where "a \<in> set (rg_activations s1)" "ta_name a = name" "ta_active a"
    "candidate s2 (ta_hash a) = Some c"
    "row_by tg_grant_id (ta_grant_id a) (rg_grants s3) = Some g"
    "scope_contains (tg_scope g) (scope_union (map si_scope inputs))"
    "execute env w (cr_definition c) inputs = Inr r"
    "row_by tg_grant_id (ta_grant_id a) (rg_grants s4) = Some g'" "\<not> tg_revoked g'" "alive now' (tg_expires_at g')"
proof -
  from assms obtain h i c g where act: "active_tool_grant name s1 = Inr (h, i)" and c: "candidate s2 h = Some c"
    and g: "invocation_scope i inputs c now s3 = Inr g" and ex: "execute env w (cr_definition c) inputs = Inr r"
    and last: "ensure_grant_still_valid i now' s4 = Inr ()"
    by (auto simp: invoke_def rbind_Inr_iff)
  from act obtain a where a: "find (\<lambda>a. ta_name a = name \<and> ta_active a) (rg_activations s1) = Some a"
    "h = ta_hash a" "i = ta_grant_id a" by (auto simp: active_tool_grant_def split: option.splits)
  from find_Some_in [OF a(1)] have "a \<in> set (rg_activations s1)" "ta_name a = name" "ta_active a" by auto
  then show ?thesis using that c g ex last a
    by (auto simp: invocation_scope_def ensure_grant_still_valid_def rbind_Inr_iff Let_def)
qed

text \<open>(C6) Whatever others do to the registry between the four moments an invocation reads it, a result is
  only returned for an active tool of that name that had passed its suites, and at the last look its
  grant stands for exactly that tool, is neither revoked nor expired, the tool is not retired, and the
  grant's scope contains the scope of every input; the value is what the tool's expression means.\<close>

theorem invocation_is_authorised:
  assumes s: "s1 = registry_after env o1" "s2 = registry_after env (o1 @ o2)"
      "s3 = registry_after env (o1 @ o2 @ o3)" "s4 = registry_after env (o1 @ o2 @ o3 @ o4)"
    and r: "invoke (tool_env.truncate env) w name inputs now now' s1 s2 s3 s4 = Inr r"
  shows "\<exists>c g. candidate s1 (tr_tool_hash r) = Some c \<and> td_name (cr_definition c) = name
    \<and> cleared s1 (tr_tool_hash r) \<and> \<not> is_retired s4 (tr_tool_hash r)
    \<and> g \<in> set (rg_grants s4) \<and> tg_hash g = tr_tool_hash r \<and> \<not> tg_revoked g \<and> alive now' (tg_expires_at g)
    \<and> list_all (\<lambda>i. scope_contains (tg_scope g) (si_scope i)) inputs
    \<and> denote (td_expression (cr_definition c)) (J_arr (map si_value inputs)) None = Some (tr_value r)"
proof -
  let ?env = "tool_env.truncate env"
  have inv: "registry_inv ?env s1" "registry_inv ?env s3" "registry_inv ?env s4"
    unfolding s by (rule registry_after_inv)+
  have a12: "registry_ahead s1 s2" and a34: "registry_ahead s3 s4" and a14: "registry_ahead s1 s4"
    unfolding s using after_ahead [of env o1] after_ahead_from [of env o1 o2] after_ahead [of env "o1 @ o2 @ o3" o4]
    by simp_all
  obtain a c g g' where a: "a \<in> set (rg_activations s1)" "ta_name a = name" "ta_active a"
    and c: "candidate s2 (ta_hash a) = Some c"
    and g: "row_by tg_grant_id (ta_grant_id a) (rg_grants s3) = Some g"
    and sc: "scope_contains (tg_scope g) (scope_union (map si_scope inputs))"
    and ex: "execute ?env w (cr_definition c) inputs = Inr r"
    and g': "row_by tg_grant_id (ta_grant_id a) (rg_grants s4) = Some g'" "\<not> tg_revoked g'" "alive now' (tg_expires_at g')"
    using r by (rule invoke_Inr)
  from inv(1) a obtain c1 where c1: "candidate s1 (ta_hash a) = Some c1" "td_name (cr_definition c1) = name"
    and cl: "cleared s1 (ta_hash a)" and b: "backed s1 (ta_hash a) (ta_grant_id a)"
    by (auto simp: registry_inv_def activations_ok_def)
  have "c1 = c" using candidate_lasts [OF a12 c1(1)] c by simp
  have valid: "validate_definition ?env (cr_definition c) = Inr (ta_hash a)"
    using c1 inv(1) \<open>c1 = c\<close> by (auto simp: registry_inv_def candidates_ok_def candidate_def dest: row_by_Some)
  have m: "denote (td_expression (cr_definition c)) (J_arr (map si_value inputs)) None = Some (tr_value r)
      \<and> tr_tool_hash r = ta_hash a"
    using tool_computes_meaning [OF valid, of inputs w] ex by simp
  from backed_lasts [OF a14 b] obtain k where "k \<in> set (rg_grants s4)" "tg_grant_id k = ta_grant_id a" "tg_hash k = ta_hash a"
    by (auto simp: backed_def)
  moreover have in4: "g' \<in> set (rg_grants s4)" "tg_grant_id g' = ta_grant_id a" using row_by_Some [OF g'(1)] by auto
  moreover have "unique_by tg_grant_id (rg_grants s4)" using inv(3) by (simp add: registry_inv_def grants_ok_def)
  ultimately have h: "tg_hash g' = ta_hash a" by (metis unique_by_inj)
  have "\<not> is_retired s4 (ta_hash a)"
    using inv(3) in4 g'(2) h by (auto simp: registry_inv_def grants_ok_def)
  moreover have "tg_scope g' = tg_scope g"
    using grant_after [OF a34 inv(2, 3) g g'(1)] by (simp add: grant_goes_on_def)
  then have "list_all (\<lambda>i. scope_contains (tg_scope g') (si_scope i)) inputs"
    using sc by (simp add: scope_contains_union list.pred_map comp_def)
  ultimately show ?thesis using c1 \<open>c1 = c\<close> cl in4 h g' m by (intro exI [of _ c] exI [of _ g']) simp
qed

lemma eligible_exact:
  "ensure_candidate_eligible h s = Inr () \<longleftrightarrow>
     \<not> is_retired s h \<and> cleared s h \<and> (\<forall>su\<in>required_set s h. \<not> suite_failed s h su)" (is "?l \<longleftrightarrow> ?r")
proof
  assume ?r
  let ?p = "\<lambda>r. fst r = h" and ?q = "\<lambda>r. suite_passed s h (snd r) \<and> \<not> suite_failed s h (snd r)"
  have "count_where ?p (rg_required s) = count_where (\<lambda>r. ?p r \<and> ?q r) (rg_required s)"
    using \<open>?r\<close> by (intro count_where_cong) (auto simp: cleared_def required_set_def)
  moreover obtain su where "(h, su) \<in> set (rg_required s)"
    using \<open>?r\<close> by (auto simp: cleared_def required_set_def)
  then have "count_where ?p (rg_required s) \<noteq> 0"
    unfolding count_where_zero_iff by (metis fst_conv)
  ultimately show ?l using \<open>?r\<close> by (simp add: ensure_candidate_eligible_def rbind_Inr_iff Let_def)
qed (use eligible_cleared in blast)

lemma store_exact:
  assumes "registry_inv env s" and "candidate s h = Some c"
    and g: "row_by tg_grant_id (ag_grant_id grant) (rg_grants s) = Some g" "tg_hash g = h"
  shows "is_ok (store_activation c h grant now s) \<longleftrightarrow>
    \<not> tg_revoked g \<and> alive now (tg_expires_at g) \<and> \<not> is_retired s h
    \<and> (\<forall>a\<in>set (rg_activations s). ta_name a = td_name (cr_definition c)
         \<longrightarrow> scope_at s (ta_hash a) = Some (td_input_scope (cr_definition c)))"
proof -
  let ?name = "td_name (cr_definition c)"
  let ?existing = "Option.bind (row_by ta_name ?name (rg_activations s)) (\<lambda>a. candidate s (ta_hash a))"
  have grants: "unique_by tg_grant_id (rg_grants s)" and acts: "unique_by ta_name (rg_activations s)"
    and cands: "\<forall>a\<in>set (rg_activations s). candidate s (ta_hash a) \<noteq> None"
    using assms(1) by (auto simp: registry_inv_def grants_ok_def activations_ok_def)
  have "list_ex (\<lambda>g. tg_grant_id g = ag_grant_id grant \<and> tg_hash g = h \<and> \<not> tg_revoked g
      \<and> alive now (tg_expires_at g) \<and> \<not> is_retired s h) (rg_grants s)
    \<longleftrightarrow> \<not> tg_revoked g \<and> alive now (tg_expires_at g) \<and> \<not> is_retired s h"
    using g row_by_unique [OF grants, of "ag_grant_id grant"] unfolding list_ex_iff by (metis option.inject)
  moreover have "(case ?existing of None \<Rightarrow> True
      | Some old \<Rightarrow> td_input_scope (cr_definition old) = td_input_scope (cr_definition c)) \<longleftrightarrow>
    (\<forall>a\<in>set (rg_activations s). ta_name a = ?name
       \<longrightarrow> scope_at s (ta_hash a) = Some (td_input_scope (cr_definition c)))"
  proof (cases "row_by ta_name ?name (rg_activations s)")
    case None
    then have "?name \<notin> ta_name ` set (rg_activations s)" by (simp add: row_by_None)
    then have "\<forall>a\<in>set (rg_activations s). ta_name a \<noteq> ?name" by (metis imageI)
    with None show ?thesis by simp
  next
    case (Some a)
    then have a: "a \<in> set (rg_activations s)" "ta_name a = ?name" using row_by_Some [OF Some] by simp_all
    have only: "b = a" if "b \<in> set (rg_activations s)" "ta_name b = ?name" for b
      using that a acts by (metis unique_by_inj)
    from cands a obtain old where "candidate s (ta_hash a) = Some old" by blast
    moreover have "(\<forall>b\<in>set (rg_activations s). ta_name b = ?name
        \<longrightarrow> scope_at s (ta_hash b) = Some (td_input_scope (cr_definition c)))
      \<longleftrightarrow> scope_at s (ta_hash a) = Some (td_input_scope (cr_definition c))"
      using a only by metis
    ultimately show ?thesis using Some by (simp add: scope_at_def)
  qed
  ultimately show ?thesis by (simp add: store_activation_def is_ok_iff rbind_Inr_iff Let_def)
qed

lemma activate_exact:
  assumes inv: "registry_inv env s"
  shows "is_ok (activate_grant grant now now' s) \<longleftrightarrow>
    (\<exists>c g. candidate s (ag_tool_hash grant) = Some c \<and> row_by tg_grant_id (ag_grant_id grant) (rg_grants s) = Some g
       \<and> tg_hash g = ag_tool_hash grant \<and> tg_scope g = ag_scope grant \<and> \<not> tg_revoked g
       \<and> alive now (tg_expires_at g) \<and> alive now' (tg_expires_at g)
       \<and> scope_contains (tg_scope g) (td_input_scope (cr_definition c))
       \<and> \<not> is_retired s (tg_hash g) \<and> cleared s (tg_hash g)
       \<and> (\<forall>su\<in>required_set s (tg_hash g). \<not> suite_failed s (tg_hash g) su)
       \<and> (\<forall>a\<in>set (rg_activations s). ta_name a = td_name (cr_definition c)
            \<longrightarrow> scope_at s (ta_hash a) = Some (td_input_scope (cr_definition c))))"
proof (cases "candidate s (ag_tool_hash grant)")
  case None
  then show ?thesis by (simp add: activate_grant_def read_grant_def)
next
  case c: (Some c)
  show ?thesis
  proof (cases "row_by tg_grant_id (ag_grant_id grant) (rg_grants s)")
    case None
    with c show ?thesis by (simp add: activate_grant_def read_grant_def)
  next
    case g: (Some g)
    show ?thesis
    proof (cases "validate_grant_activation grant c (tg_hash g) (tg_scope g) (tg_expires_at g) (tg_revoked g) now")
      case (Inl e)
      then have "\<not> (tg_hash g = ag_tool_hash grant \<and> tg_scope g = ag_scope grant \<and> \<not> tg_revoked g
          \<and> alive now (tg_expires_at g) \<and> scope_contains (tg_scope g) (td_input_scope (cr_definition c)))"
        by (auto simp: validate_grant_activation_def Let_def)
      with c g Inl show ?thesis by (auto simp: activate_grant_def read_grant_def)
    next
      case (Inr u)
      then have v: "tg_hash g = ag_tool_hash grant" "tg_scope g = ag_scope grant" "\<not> tg_revoked g"
          "alive now (tg_expires_at g)" "scope_contains (tg_scope g) (td_input_scope (cr_definition c))"
        by (auto simp: validate_grant_activation_def Let_def)
      have "is_ok (activate_grant grant now now' s) \<longleftrightarrow> ensure_candidate_eligible (tg_hash g) s = Inr ()
          \<and> is_ok (store_activation c (tg_hash g) grant now' s)"
        using c g Inr by (auto simp: activate_grant_def read_grant_def is_ok_iff rbind_Inr_iff)
      also have "\<dots> \<longleftrightarrow> \<not> is_retired s (tg_hash g) \<and> cleared s (tg_hash g)
          \<and> (\<forall>su\<in>required_set s (tg_hash g). \<not> suite_failed s (tg_hash g) su)
          \<and> alive now' (tg_expires_at g)
          \<and> (\<forall>a\<in>set (rg_activations s). ta_name a = td_name (cr_definition c)
               \<longrightarrow> scope_at s (ta_hash a) = Some (td_input_scope (cr_definition c)))"
        using store_exact [OF inv, of "tg_hash g" c grant g now'] c g v unfolding eligible_exact by auto
      finally show ?thesis using c g v by auto
    qed
  qed
qed


text \<open>An activation nobody interferes with succeeds exactly when the grant is the one issued for this
  tool and scope, unrevoked and unexpired at both looks, its scope contains the tool's, the tool is not
  retired, it has required suites, each with a passing and no failing evaluation, and the name is free
  or held by a tool of the same scope.\<close>

theorem activation_exact:
  assumes "s = registry_after env ops"
  shows "is_ok (activate_grant grant now now' s) \<longleftrightarrow>
    (\<exists>c g. candidate s (ag_tool_hash grant) = Some c \<and> row_by tg_grant_id (ag_grant_id grant) (rg_grants s) = Some g
       \<and> tg_hash g = ag_tool_hash grant \<and> tg_scope g = ag_scope grant \<and> \<not> tg_revoked g
       \<and> alive now (tg_expires_at g) \<and> alive now' (tg_expires_at g)
       \<and> scope_contains (tg_scope g) (td_input_scope (cr_definition c))
       \<and> \<not> is_retired s (tg_hash g) \<and> cleared s (tg_hash g)
       \<and> (\<forall>su\<in>required_set s (tg_hash g). \<not> suite_failed s (tg_hash g) su)
       \<and> (\<forall>a\<in>set (rg_activations s). ta_name a = td_name (cr_definition c)
            \<longrightarrow> scope_at s (ta_hash a) = Some (td_input_scope (cr_definition c))))"
  unfolding assms by (rule activate_exact [OF registry_after_inv])

section \<open>Evaluation\<close>

lemma evaluate_cases_Nil:
  "evaluate_cases env ws d i cases = [] \<longleftrightarrow>
     (\<forall>j < length cases. \<not> cw_before (ws (i + j))
        \<and> (\<exists>r. execute env (cw_run (ws (i + j))) d (ec_inputs (cases ! j)) = Inr r
             \<and> json_eq (tr_value r) (ec_expected (cases ! j))))"
proof (induction cases arbitrary: i)
  case (Cons c cs)
  show ?case
    unfolding All_less_Suc2 length_Cons evaluate_cases.simps
    by (auto simp: Cons split: sum.splits if_splits)
qed simp

text \<open>An evaluation passes exactly when the suite has cases, none was reached after a deadline or a
  cancellation, and on every one the tool ran to the expected value; what is recorded is that verdict,
  and nothing else in the registry changes.\<close>

theorem evaluation_exact:
  assumes "evaluate_suite env ws h suite now s = Inr (r, s')"
  shows "(\<exists>c su. candidate s h = Some c \<and> row_by ps_suite_id suite (rg_suites s) = Some su
      \<and> (er_passed r \<longleftrightarrow> ps_cases su \<noteq> []
           \<and> (\<forall>j < length (ps_cases su). \<not> cw_before (ws j)
               \<and> (\<exists>x. execute env (cw_run (ws j)) (cr_definition c) (ec_inputs (ps_cases su ! j)) = Inr x
                    \<and> json_eq (tr_value x) (ec_expected (ps_cases su ! j))))))
    \<and> s' = s\<lparr>rg_evaluations := rg_evaluations s @ [\<lparr> tv_hash = h, tv_suite_id = suite, tv_report = r,
        tv_passed = er_passed r, tv_created_at = now \<rparr>]\<rparr>"
  using assms
  by (auto simp: evaluate_suite_def rbind_Inr_iff Let_def evaluate_cases_Nil)

definition report_good :: "evaluation_report \<Rightarrow> bool" where
  "report_good r \<longleftrightarrow> er_passed r = (er_failures r = []) \<and> 0 < er_cases r"

lemma aggregate_missing:
  "snd (aggregate_reports s h suites acc missing) = [] \<longleftrightarrow>
     missing = [] \<and> (\<forall>su\<in>set suites. last_report s su h \<noteq> None)"
  by (induction suites arbitrary: acc missing) (auto simp: Let_def split: option.splits)

lemma aggregate_None:
  "fst (aggregate_reports s h suites acc missing) = None \<longleftrightarrow>
     acc = None \<and> (\<forall>su\<in>set suites. last_report s su h = None)"
  by (induction suites arbitrary: acc missing) (auto simp: Let_def split: option.splits)

definition merged :: "string \<Rightarrow> evaluation_report option \<Rightarrow> evaluation_report \<Rightarrow> evaluation_report" where
  "merged suite acc report =
     (let current = (case acc of Some r \<Rightarrow> r
        | None \<Rightarrow> \<lparr> er_tool_hash = er_tool_hash report, er_passed = True, er_cases = 0, er_failures = [] \<rparr>) in
      current\<lparr> er_cases := er_cases current + er_cases report,
               er_passed := er_passed current \<and> er_passed report,
               er_failures := er_failures current @ map (\<lambda>f. suite @ '': '' @ f) (er_failures report) \<rparr>)"

lemma merged_good:
  "(\<And>r. acc = Some r \<Longrightarrow> report_good r) \<Longrightarrow> report_good report \<Longrightarrow> report_good (merged su acc report)"
  by (cases acc) (auto simp: merged_def report_good_def)

lemma merged_passed: "er_passed (merged su acc report) \<longleftrightarrow> (\<forall>r. acc = Some r \<longrightarrow> er_passed r) \<and> er_passed report"
  by (cases acc) (auto simp: merged_def)

lemma aggregate_step:
  "last_report s su h = Some report \<Longrightarrow>
     aggregate_reports s h (su # suites) acc missing = aggregate_reports s h suites (Some (merged su acc report)) missing"
  by (simp add: merged_def Let_def)

lemma aggregate_Some:
  assumes "fst (aggregate_reports s h suites acc missing) = Some r'"
    and "\<And>su r. last_report s su h = Some r \<Longrightarrow> report_good r"
    and "\<And>r. acc = Some r \<Longrightarrow> report_good r"
  shows "report_good r' \<and> (er_passed r' \<longleftrightarrow> (\<forall>r. acc = Some r \<longrightarrow> er_passed r)
    \<and> (\<forall>su\<in>set suites. \<forall>r. last_report s su h = Some r \<longrightarrow> er_passed r))"
  using assms(1, 3)
proof (induction suites arbitrary: acc missing)
  case (Cons su suites)
  show ?case
  proof (cases "last_report s su h")
    case None
    with Cons.IH [of acc] Cons.prems show ?thesis by auto
  next
    case (Some report)
    have "report_good (merged su acc report)" using Cons.prems(2) assms(2) [OF Some] by (rule merged_good)
    with Cons.IH [of "Some (merged su acc report)" missing] Cons.prems(1) Some
    show ?thesis by (simp only: aggregate_step) (simp add: merged_passed)
  qed
qed auto

lemma last_report_good: "evaluations_ok s \<Longrightarrow> last_report s su h = Some r \<Longrightarrow> report_good r"
  by (auto simp: last_report_def evaluations_ok_def report_good_def dest!: row_by_Some)

text \<open>The verdict shown for a candidate is the strictest reading of its record: it passes exactly when
  every suite it requires (or the one asked for, when none is designated) has an evaluation, and the
  last one of each passed.\<close>

theorem latest_verdict_is_strict:
  assumes "s = registry_after env ops"
    and "suites = (if required_suites s h = [] then [suite] else required_suites s h)"
  shows "(case latest_evaluation s suite h of None \<Rightarrow> False | Some r \<Rightarrow> er_passed r) \<longleftrightarrow>
    list_all (\<lambda>su. case last_report s su h of None \<Rightarrow> False | Some r \<Rightarrow> er_passed r) suites"
proof -
  have ok: "evaluations_ok s" using registry_after_inv [of env ops] assms by (simp add: registry_inv_def)
  obtain acc missing where run: "aggregate_reports s h suites None [] = (acc, missing)" by force
  have latest: "latest_evaluation s suite h = map_option (\<lambda>r.
      let failures = er_failures r @ missing in
      r\<lparr> er_failures := failures, er_passed := er_passed r \<and> er_cases r \<noteq> 0 \<and> failures = [] \<rparr>) acc"
    using run assms(2) by (simp add: latest_evaluation_def Let_def)
  have missing: "missing = [] \<longleftrightarrow> (\<forall>su\<in>set suites. last_report s su h \<noteq> None)"
    using aggregate_missing [of s h suites None "[]"] run by simp
  have some: "suites \<noteq> []" using assms(2) by auto
  show ?thesis
  proof (cases acc)
    case None
    with aggregate_None [of s h suites None "[]"] run have "\<forall>su\<in>set suites. last_report s su h = None" by simp
    with some latest None show ?thesis by (cases suites) auto
  next
    case (Some r)
    with run have "fst (aggregate_reports s h suites None []) = Some r" by simp
    from aggregate_Some [OF this last_report_good [OF ok]]
    have good: "report_good r" and passed: "er_passed r \<longleftrightarrow> (\<forall>su\<in>set suites. \<forall>r. last_report s su h = Some r \<longrightarrow> er_passed r)"
      by auto
    have "(case latest_evaluation s suite h of None \<Rightarrow> False | Some r \<Rightarrow> er_passed r) \<longleftrightarrow> er_passed r \<and> missing = []"
      using latest Some good by (auto simp: report_good_def Let_def)
    also have "\<dots> \<longleftrightarrow> (\<forall>su\<in>set suites. case last_report s su h of None \<Rightarrow> False | Some r \<Rightarrow> er_passed r)"
      unfolding passed missing by (auto split: option.splits)
    finally show ?thesis by (simp add: list_all_iff)
  qed
qed

section \<open>A suite that is not stored\<close>

text \<open>Protecting a suite under a new name but with cases that are already protected under another reports
  success and stores nothing: the unique key on the cases' hash makes the insertion a no-op.\<close>

lemma protect_suite_may_store_nothing:
  assumes "protect_suite env a cases s = Inr s1" and "b \<noteq> []"
    and "list_all (\<lambda>r. ps_suite_id r \<noteq> b) (rg_suites s1)"
  shows "protect_suite env b cases s1 = Inr s1"
proof -
  let ?h = "te_sha256 env (te_cases_json env cases)"
  let ?known = "list_ex (\<lambda>r. ps_suite_id r = a \<or> ps_suite_hash r = ?h) (rg_suites s)"
  from assms(1) have old: "map_option ps_suite_hash (row_by ps_suite_id a (rg_suites s)) \<in> {None, Some ?h}"
    and s1: "s1 = (if ?known then s else s\<lparr>rg_suites := rg_suites s @
      [\<lparr> ps_suite_id = a, ps_cases = cases, ps_suite_hash = ?h \<rparr>]\<rparr>)"
    by (auto simp: protect_suite_def rbind_Inr_iff Let_def bounded_json_def split: if_splits)
  have "list_ex (\<lambda>r. ps_suite_hash r = ?h) (rg_suites s1)"
  proof (cases "row_by ps_suite_id a (rg_suites s)")
    case None
    then have "a \<notin> ps_suite_id ` set (rg_suites s)" by (simp add: row_by_None)
    then have "?known \<longleftrightarrow> list_ex (\<lambda>r. ps_suite_hash r = ?h) (rg_suites s)" by (auto simp: list_ex_iff)
    then show ?thesis by (simp add: s1)
  next
    case (Some r)
    with old have "r \<in> set (rg_suites s)" "ps_suite_id r = a" "ps_suite_hash r = ?h"
      using row_by_Some [OF Some] by simp_all
    then show ?thesis by (auto simp: s1 list_ex_iff)
  qed
  moreover from assms(3) have "row_by ps_suite_id b (rg_suites s1) = None"
    by (auto simp: row_by_None list_all_iff)
  ultimately show ?thesis using assms(1, 2)
    by (auto simp: protect_suite_def rbind_Inr_iff Let_def bounded_json_def list_ex_iff split: if_splits)
qed

section \<open>Witnesses\<close>

definition sample_renv :: registry_env where
  "sample_renv = tool_env.extend sample_env \<lparr> te_cases_json = (\<lambda>_. ''c'') \<rparr>"

lemma sample_renv_simps [simp]:
  "tool_env.truncate sample_renv = sample_env" "te_sha256 sample_renv = (\<lambda>s. s)"
  "te_cases_json sample_renv = (\<lambda>_. ''c'')"
  by (simp_all add: sample_renv_def sample_env_def tool_env.defs)

definition sample_case :: evaluation_case where
  "sample_case = \<lparr> ec_inputs = sample_inputs, ec_expected = J_arr [J_bool True] \<rparr>"

definition calm :: "nat \<Rightarrow> case_watch" where
  "calm = (\<lambda>_. \<lparr> cw_before = False, cw_run = (\<lambda>_. None), cw_after = False \<rparr>)"

definition sample_grant :: approval_grant where
  "sample_grant = \<lparr> ag_grant_id = ''grant-1'', ag_tool_hash = ''t'', ag_scope = [''a''] \<rparr>"

definition authored :: "desk_op list" where
  "authored = [
     Author (Op_register \<lparr> cm_definition = sample_tool, cm_authoring_evidence = [] \<rparr> 0),
     Author (Op_protect ''s'' [sample_case]),
     Author (Op_designate ''t'' [''s'']),
     Author (Op_evaluate calm ''t'' ''s'' 0)]"

definition activated :: "desk_op list" where
  "activated = authored @ [
     Policy (Op_issue ''t'' [''a''] None ''1'' 0),
     Begin_activation sample_grant 0, Check_activation 0, Commit_activation 0 0]"

definition sample_report :: evaluation_report where
  "sample_report = \<lparr> er_tool_hash = ''t'', er_passed = True, er_cases = 1, er_failures = [] \<rparr>"

definition sample_candidate :: candidate_row where
  "sample_candidate = \<lparr> cr_hash = ''t'', cr_name = ''t'', cr_definition = sample_tool, cr_evidence = [],
     cr_created_at = 0 \<rparr>"

definition sample_suite :: suite_row where
  "sample_suite = \<lparr> ps_suite_id = ''s'', ps_cases = [sample_case], ps_suite_hash = ''c'' \<rparr>"

definition sample_evaluation :: evaluation_row where
  "sample_evaluation = \<lparr> tv_hash = ''t'', tv_suite_id = ''s'', tv_report = sample_report, tv_passed = True,
     tv_created_at = 0 \<rparr>"

definition authored_registry :: registry where
  "authored_registry = empty_registry\<lparr> rg_candidates := [sample_candidate], rg_suites := [sample_suite],
     rg_required := [(''t'', ''s'')], rg_evaluations := [sample_evaluation] \<rparr>"

lemma sample_tool_scope: "td_input_scope sample_tool = [''a'']" "td_name sample_tool = ''t''"
  by (simp_all add: sample_tool_def)

lemma sample_inputs_scopes:
  "map si_scope sample_inputs = [[''a''], [''a'']]" "scope_union [[''a''], [''a'']] = [''a'']"
  by (simp_all add: sample_inputs_def scope_union_def)

lemma check_sample_case: "check_case sample_case = Inr ()"
  by (simp add: check_case_def sample_case_def sample_inputs_def measure_simps size_limit_def
    max_input_records_def max_definition_bytes_def max_output_bytes_def max_value_depth_def
    u64_saturating_add_def u64_max_def)

lemma registered: "register sample_env \<lparr> cm_definition = sample_tool, cm_authoring_evidence = [] \<rparr> 0 empty_registry
    = Inr (''t'', empty_registry\<lparr>rg_candidates := [sample_candidate]\<rparr>)"
  by (simp add: register_def sample_valid empty_registry_def insert_or_ignore_def sample_candidate_def sample_tool_scope)

lemma protected: "protect_suite sample_renv ''s'' [sample_case] (empty_registry\<lparr>rg_candidates := [sample_candidate]\<rparr>)
    = Inr (empty_registry\<lparr>rg_candidates := [sample_candidate], rg_suites := [sample_suite]\<rparr>)"
  by (simp add: protect_suite_def check_sample_case empty_registry_def sample_suite_def bounded_json_def
    max_definition_bytes_def max_input_records_def)

lemma designated: "designate_required ''t'' [''s'']
      (empty_registry\<lparr>rg_candidates := [sample_candidate], rg_suites := [sample_suite]\<rparr>)
    = Inr (authored_registry\<lparr>rg_evaluations := []\<rparr>)"
  by (simp add: designate_required_def authored_registry_def empty_registry_def sample_candidate_def
    sample_suite_def required_suites_def)

lemma evaluated: "evaluate_suite sample_env calm ''t'' ''s'' 0 (authored_registry\<lparr>rg_evaluations := []\<rparr>)
    = Inr (sample_report, authored_registry)"
  by (simp add: evaluate_suite_def authored_registry_def empty_registry_def sample_candidate_def sample_suite_def
    candidate_def row_by_def calm_def sample_case_def sample_run sample_report_def sample_evaluation_def Let_def)

lemma authored_desk:
  "run (desk_step sample_renv) authored empty_desk = \<lparr> dk_registry = authored_registry, dk_pending = [] \<rparr>"
  by (simp add: authored_def empty_desk_def on_registry_def registered protected designated evaluated)

definition activated_registry :: registry where
  "activated_registry = authored_registry\<lparr>
     rg_grants := [\<lparr> tg_grant_id = ''grant-1'', tg_hash = ''t'', tg_scope = [''a''], tg_expires_at = None,
       tg_revoked = False, tg_created_at = 0 \<rparr>],
     rg_activations := [\<lparr> ta_name = ''t'', ta_hash = ''t'', ta_grant_id = ''grant-1'', ta_active = True \<rparr>]\<rparr>"

lemma activated_after: "registry_after sample_renv activated = activated_registry"
  by (simp add: registry_after_def activated_def run_append authored_desk on_registry_def issue_grant_def
    authored_registry_def empty_registry_def activated_registry_def candidate_def row_by_def sample_candidate_def
    sample_tool_scope scope_contains_def is_retired_def sample_grant_def read_grant_def validate_grant_activation_def
    alive_def ensure_candidate_eligible_def suite_passed_def suite_failed_def sample_evaluation_def
    store_activation_def upsert_row_def Let_def)

lemma retired_after:
  "is_retired (registry_after sample_renv (activated @ [Policy (Op_reject ''t'' 0)])) ''t''"
proof -
  have "dk_registry (run (desk_step sample_renv) activated empty_desk) = activated_registry"
    using activated_after by (simp add: registry_after_def)
  then show ?thesis
    by (simp add: registry_after_def run_append on_registry_def reject_method_output_def retire_def is_retired_def
      insert_or_ignore_def activated_registry_def authored_registry_def empty_registry_def)
qed

theorem retired_tool_is_dead_witness:
  "\<not> is_ok (issue_grant ''t'' [''a''] None ''2'' 0
      (registry_after sample_renv ((activated @ [Policy (Op_reject ''t'' 0)]) @ [Begin_activation sample_grant 0])))"
  using retired_tool_is_dead [OF retired_after refl] by blast

theorem activations_are_earned_witness: "cleared activated_registry ''t''"
proof -
  have "\<lparr> ta_name = ''t'', ta_hash = ''t'', ta_grant_id = ''grant-1'', ta_active = True \<rparr>
      \<in> set (rg_activations (registry_after sample_renv activated))"
    by (simp add: activated_after activated_registry_def)
  from activations_are_earned [OF this refl] show ?thesis by (simp add: activated_after)
qed

theorem names_keep_their_scope_witness:
  "scope_at (registry_after sample_renv (activated @ [])) ''t'' = scope_at (registry_after sample_renv activated) ''t''"
proof -
  let ?a = "\<lparr> ta_name = ''t'', ta_hash = ''t'', ta_grant_id = ''grant-1'', ta_active = True \<rparr>"
  have a: "?a \<in> set (rg_activations (registry_after sample_renv activated))"
    and b: "?a \<in> set (rg_activations (registry_after sample_renv (activated @ [])))"
    by (simp_all add: activated_after activated_registry_def)
  from names_keep_their_scope [OF a b refl] show ?thesis by simp
qed

theorem registry_is_append_only_witness:
  "prefix (rg_suites activated_registry) (rg_suites (registry_after sample_renv (activated @ activated)))"
  using registry_is_append_only [OF activated_after [symmetric] refl] by blast

theorem invocation_is_authorised_witness:
  "\<exists>c g. candidate activated_registry ''t'' = Some c \<and> td_name (cr_definition c) = ''t''
    \<and> g \<in> set (rg_grants activated_registry) \<and> tg_hash g = ''t'' \<and> \<not> tg_revoked g"
proof -
  have s: "activated_registry = registry_after sample_renv activated"
    "activated_registry = registry_after sample_renv (activated @ [])"
    "activated_registry = registry_after sample_renv (activated @ [] @ [])"
    "activated_registry = registry_after sample_renv (activated @ [] @ [] @ [])"
    by (simp_all add: activated_after)
  have "invoke (tool_env.truncate sample_renv) (\<lambda>_. None) ''t'' sample_inputs 0 0 activated_registry activated_registry
      activated_registry activated_registry = Inr \<lparr> tr_value = J_arr [J_bool True], tr_output_scope = [''a''],
        tr_tool_hash = ''t'', tr_fuel_used = 18, tr_operations = 18, tr_provenance_warning = None \<rparr>"
    by (simp add: invoke_def active_tool_grant_def activated_registry_def authored_registry_def empty_registry_def
      candidate_def row_by_def sample_candidate_def invocation_scope_def scope_contains_union scope_contains_def
      sample_inputs_def [symmetric] sample_tool_scope ensure_grant_still_valid_def alive_def sample_run
      sample_inputs_scopes Let_def)
  from invocation_is_authorised [OF s this] show ?thesis by auto
qed

theorem activation_exact_witness:
  "is_ok (activate_grant sample_grant 0 0 activated_registry)"
  unfolding activation_exact [OF activated_after [symmetric]]
  by (simp add: activated_registry_def authored_registry_def empty_registry_def candidate_def row_by_def
    sample_candidate_def sample_grant_def alive_def sample_tool_scope scope_contains_def is_retired_def cleared_def
    required_set_def suite_passed_def suite_failed_def sample_evaluation_def scope_at_def)

theorem evaluation_exact_witness:
  "\<exists>c su. candidate (authored_registry\<lparr>rg_evaluations := []\<rparr>) ''t'' = Some c \<and> ps_cases su \<noteq> []
    \<and> row_by ps_suite_id ''s'' (rg_suites (authored_registry\<lparr>rg_evaluations := []\<rparr>)) = Some su"
proof -
  have "er_passed sample_report" by (simp add: sample_report_def)
  with evaluation_exact [OF evaluated] show ?thesis by metis
qed

theorem latest_verdict_is_strict_witness:
  "case latest_evaluation activated_registry ''u'' ''t'' of None \<Rightarrow> False | Some r \<Rightarrow> er_passed r"
proof -
  have "required_suites activated_registry ''t'' = [''s'']"
    by (simp add: required_suites_def activated_registry_def authored_registry_def)
  moreover have "last_report activated_registry ''s'' ''t'' = Some sample_report"
    by (simp add: last_report_def row_by_def activated_registry_def authored_registry_def sample_evaluation_def)
  ultimately show ?thesis
    using latest_verdict_is_strict [OF activated_after [symmetric] refl, of "''u''" "''t''"]
    by (simp add: sample_report_def)
qed

end
