(* ===== verification/Processes.thy ===== *)
theory Processes
  imports Store
begin

text \<open>
  The processes of the machine (src/process.rs): what one snapshot says of them, which of them are
  provider clients, the tree below a pane, and the proof that a process is the client of a
  conversation. \<open>BTreeMap<i64, ProcessRecord>\<close> is an association list in the order of its keys, a
  \<open>BTreeSet<i64>\<close> a set whose iteration is \<open>sorted_list_of_set\<close>; \<open>uuid\<close> says which texts
  \<open>Uuid::parse_str\<close> accepts. Paths are those of Unix.
\<close>

section \<open>Snapshots\<close>

record process_record =
  pr_pid :: i64
  pr_parent_pid :: "i64 option"
  pr_start_time :: u64
  pr_argv :: "string list"

record process_generation =
  pg_pid :: i64
  pg_start_time :: u64

type_synonym processes = "(i64 \<times> process_record) list"

datatype observation_state = Complete | Partial "string list" | Observation_error string

record process_observation =
  po_processes :: processes
  po_state :: observation_state

definition generation :: "process_record \<Rightarrow> process_generation" where
  "generation r = \<lparr> pg_pid = pr_pid r, pg_start_time = pr_start_time r \<rparr>"

definition semicolons :: "string list \<Rightarrow> string" where
  "semicolons issues = concat (case issues of [] \<Rightarrow> [] | first # rest \<Rightarrow> first # map (\<lambda>issue. ''; '' @ issue) rest)"

definition require_complete :: "string \<Rightarrow> process_observation \<Rightarrow> string + processes" where
  "require_complete operation ob =
     (case po_state ob of
        Complete \<Rightarrow> Inr (po_processes ob)
      | Partial issues \<Rightarrow> Inl (''Pika refused to '' @ operation @ '': process identity observation was partial (''
          @ semicolons issues @ ''). No provider was launched and no stored ownership was cleared.'')
      | Observation_error err \<Rightarrow> Inl (''Pika refused to '' @ operation @ '': process identity could not be observed (''
          @ err @ ''). No provider was launched and no stored ownership was cleared.''))"

text \<open>\<open>BTreeMap::insert\<close>\<close>

fun put_key :: "'k::linorder \<Rightarrow> 'v \<Rightarrow> ('k \<times> 'v) list \<Rightarrow> ('k \<times> 'v) list" where
  "put_key k v [] = [(k, v)]"
| "put_key k v ((j, w) # rest) =
     (if k < j then (k, v) # (j, w) # rest
      else if k = j then (k, v) # rest
      else (j, w) # put_key k v rest)"

fun collect_pids ::
  "(i64 \<Rightarrow> string + process_record option) \<Rightarrow> i64 list \<Rightarrow> processes \<Rightarrow> string list \<Rightarrow> processes \<times> string list" where
  "collect_pids read [] ps issues = (ps, issues)"
| "collect_pids read (pid # pids) ps issues =
     (case read pid of
        Inr (Some r) \<Rightarrow> collect_pids read pids (put_key pid r ps) issues
      | Inr None \<Rightarrow> collect_pids read pids ps issues
      | Inl err \<Rightarrow> collect_pids read pids ps (issues @ [''PID '' @ signed_decimal pid @ '': '' @ err]))"

definition collect_observation ::
  "string + i64 list \<Rightarrow> (i64 \<Rightarrow> string + process_record option) \<Rightarrow> process_observation" where
  "collect_observation pids read =
     (case pids of
        Inl err \<Rightarrow> \<lparr> po_processes = [], po_state = Observation_error err \<rparr>
      | Inr pids \<Rightarrow>
          (case collect_pids read pids [] [] of
             (ps, []) \<Rightarrow> \<lparr> po_processes = ps, po_state = Complete \<rparr>
           | (ps, issues) \<Rightarrow> \<lparr> po_processes = ps, po_state = Partial issues \<rparr>))"

section \<open>Which provider a command line runs\<close>

definition path_parts :: "string \<Rightarrow> string list" where
  "path_parts path = filter (\<lambda>part. part \<noteq> [] \<and> part \<noteq> ''.'') (split_on (CHR ''/'') path)"

definition last_part :: "string list \<Rightarrow> string option" where
  "last_part parts = (if parts = [] \<or> last parts = ''..'' then None else Some (last parts))"

definition file_name :: "string \<Rightarrow> string option" where
  "file_name path = last_part (path_parts path)"

definition all_digits :: "string \<Rightarrow> bool" where
  "all_digits s \<longleftrightarrow> s \<noteq> [] \<and> list_all is_ascii_digit s"

definition three_numbers :: "string \<Rightarrow> bool" where
  "three_numbers s \<longleftrightarrow> (let parts = split_on (CHR ''.'') s in length parts = 3 \<and> list_all all_digits parts)"

definition claude_version_executable :: "string \<Rightarrow> bool" where
  "claude_version_executable path \<longleftrightarrow>
     (let parts = path_parts path in
      starts_with ''/'' path
      \<and> (case last_part parts of None \<Rightarrow> False | Some version \<Rightarrow> three_numbers version)
      \<and> last_part (butlast parts) = Some ''versions''
      \<and> last_part (butlast (butlast parts)) = Some ''claude'')"

fun split_once_str :: "string \<Rightarrow> string \<Rightarrow> (string \<times> string) option" where
  "split_once_str pat [] = (if pat = [] then Some ([], []) else None)"
| "split_once_str pat (c # s) =
     (if starts_with pat (c # s) then Some ([], drop (length pat) (c # s))
      else map_option (\<lambda>(a, b). (c # a, b)) (split_once_str pat s))"

definition is_muse_native_name :: "string \<Rightarrow> bool" where
  "is_muse_native_name name \<longleftrightarrow>
     (case strip_prefix ''muse-bin-'' name of
        None \<Rightarrow> False
      | Some version \<Rightarrow>
          let (release, build) =
            (case split_once_str ''-R'' version of
               Some parts \<Rightarrow> parts
             | None \<Rightarrow> (case split_once_str ''-r'' version of Some parts \<Rightarrow> parts | None \<Rightarrow> ([], []))) in
          if \<not> three_numbers release then False
          else if list_all is_ascii_digit build then build \<noteq> []
          else (case split_once (CHR ''.'') build of
            None \<Rightarrow> False
          | Some (build_number, patch) \<Rightarrow> all_digits build_number \<and> all_digits patch))"

definition arg_name :: "string list \<Rightarrow> nat \<Rightarrow> string option" where
  "arg_name argv k = (if k < length argv then map_option to_ascii_lowercase (file_name (argv ! k)) else None)"

definition muse_executable_index :: "string list \<Rightarrow> nat option" where
  "muse_executable_index argv =
     (if arg_name argv 0 = Some ''muse''
         \<or> (case arg_name argv 0 of None \<Rightarrow> False | Some name \<Rightarrow> is_muse_native_name name) then Some 0
      else if arg_name argv 0 \<in> {Some ''sh'', Some ''bash'', Some ''zsh'', Some ''dash''} \<and> arg_name argv 1 = Some ''muse''
      then Some 1 else None)"

definition executable_kind :: "string \<Rightarrow> provider option" where
  "executable_kind arg =
     (let name = to_ascii_lowercase (case file_name arg of None \<Rightarrow> arg | Some name \<Rightarrow> name) in
      if name \<in> {''codex'', ''codex.js''} then Some Codex
      else if name \<in> {''claude'', ''claude-code''} then Some Claude
      else if name \<in> {''opencode'', ''opencode.js''} then Some Opencode
      else None)"

fun first_kind :: "string list \<Rightarrow> provider option" where
  "first_kind [] = None"
| "first_kind (arg # args) = (case executable_kind arg of Some p \<Rightarrow> Some p | None \<Rightarrow> first_kind args)"

definition is_pika :: "string list \<Rightarrow> bool" where
  "is_pika argv \<longleftrightarrow>
     argv \<noteq> [] \<and> (case file_name (hd argv) of
       None \<Rightarrow> False
     | Some name \<Rightarrow> eq_ignore_ascii_case name ''pika'' \<or> eq_ignore_ascii_case name ''pika.exe'')"

definition process_kind :: "string list \<Rightarrow> provider option" where
  "process_kind argv =
     (if is_pika argv then None
      else if muse_executable_index argv \<noteq> None then Some Muse
      else if argv \<noteq> [] \<and> claude_version_executable (hd argv) then Some Claude
      else first_kind (take 4 argv))"

definition pr_provider :: "process_record \<Rightarrow> provider option" where
  "pr_provider r = process_kind (pr_argv r)"

definition muse_value_flags :: "string list" where
  "muse_value_flags =
     [''--provider'', ''--preset'', ''--model'', ''--reasoning-effort'', ''--base-url'', ''--image'', ''--workspace'',
      ''--agents'', ''--worktree-base'', ''--worktree-existing'', ''--approval-mode'', ''--permission-profile'',
      ''--approval-judge'', ''--sandbox-network'', ''--echo-delay-ms'']"

definition muse_plain_flags :: "string list" where
  "muse_plain_flags =
     [''--parallel-tool-calls'', ''--no-parallel-tool-calls'', ''--subagent-worktree-isolation'', ''--yolo'',
      ''--trust-workspace'', ''--disable-approval'', ''--disable-sandbox'', ''--disable-write'', ''--disable-shell'',
      ''--enable-shell-tool'']"

fun muse_scan :: "string \<Rightarrow> bool \<Rightarrow> bool \<Rightarrow> string list \<Rightarrow> bool" where
  "muse_scan identity resumed matched [] = (resumed \<and> matched)"
| "muse_scan identity resumed matched (arg # args) =
     (if arg = ''resume'' \<and> \<not> resumed then muse_scan identity True matched args
      else if resumed \<and> \<not> matched \<and> arg = identity then muse_scan identity resumed True args
      else let (flag, inline) =
          (case split_once (CHR ''='') arg of None \<Rightarrow> (arg, None) | Some (k, v) \<Rightarrow> (k, Some v)) in
        if flag \<in> set muse_value_flags then
          (if inline \<noteq> None then muse_scan identity resumed matched args
           else (case args of [] \<Rightarrow> False | _ # args' \<Rightarrow> muse_scan identity resumed matched args'))
        else if flag \<in> set muse_plain_flags \<and> inline = None then muse_scan identity resumed matched args
        else False)"

definition muse_resume_identity :: "(string \<Rightarrow> bool) \<Rightarrow> string list \<Rightarrow> string \<Rightarrow> bool" where
  "muse_resume_identity uuid argv identity =
     (case muse_executable_index argv of
        None \<Rightarrow> False
      | Some executable \<Rightarrow> uuid identity \<and> muse_scan identity False False (drop (executable + 1) argv))"

definition muse_interactive_hook_owner :: "process_record \<Rightarrow> bool" where
  "muse_interactive_hook_owner r =
     (case muse_executable_index (pr_argv r) of
        None \<Rightarrow> False
      | Some executable \<Rightarrow>
          \<not> list_ex (\<lambda>arg. arg \<in> {''exec'', ''serve'', ''schema'', ''export'', ''trace'', ''config'', ''skills'', ''sandbox'',
              ''session-message'', ''mcp'', ''auth'', ''login'', ''logout'', ''init'', ''--help'', ''-h'', ''--version'', ''-V'',
              ''--no-session-log''}) (drop (executable + 1) (pr_argv r)))"

section \<open>Trees\<close>

definition children_of :: "processes \<Rightarrow> i64 \<Rightarrow> i64 list" where
  "children_of ps pid = map pr_pid (filter (\<lambda>r. pr_parent_pid r = Some pid) (map snd ps))"

text \<open>The processes of a snapshot a walk has not seen: what the loops below use up.\<close>

definition unseen :: "processes \<Rightarrow> i64 list \<Rightarrow> i64 set" where
  "unseen ps seen = set (map fst ps) - set seen"

lemma unseen_finite [simp]: "finite (unseen ps seen)"
  by (simp add: unseen_def)

lemma unseen_Cons_le: "card (unseen ps (pid # seen)) \<le> card (unseen ps seen)"
  by (rule card_mono) (auto simp: unseen_def)

lemma unseen_Cons_less: "pid \<notin> set seen \<Longrightarrow> map_of ps pid \<noteq> None \<Longrightarrow> card (unseen ps (pid # seen)) < card (unseen ps seen)"
  by (rule psubset_card_mono) (auto simp: unseen_def map_of_eq_None_iff)

function walk_tree :: "processes \<Rightarrow> i64 list \<Rightarrow> i64 list \<Rightarrow> i64 list" where
  "walk_tree ps seen [] = []"
| "walk_tree ps seen (pid # stack) =
     (if pid \<in> set seen then walk_tree ps seen stack
      else if map_of ps pid = None then walk_tree ps (pid # seen) stack
      else pid # walk_tree ps (pid # seen) (children_of ps pid @ stack))"
  by pat_completeness auto
termination
  by (relation "measures [\<lambda>(ps, seen, stack). card (unseen ps seen), \<lambda>(ps, seen, stack). length stack]")
    (auto simp: le_neq_implies_less unseen_Cons_le unseen_Cons_less)

definition process_tree :: "i64 \<Rightarrow> processes \<Rightarrow> i64 list" where
  "process_tree root ps = (if map_of ps root = None then [] else walk_tree ps [] [root])"

definition process_tree_generation :: "process_generation \<Rightarrow> processes \<Rightarrow> i64 list" where
  "process_tree_generation root ps =
     (if map_option generation (map_of ps (pg_pid root)) \<noteq> Some root then [] else process_tree (pg_pid root) ps)"

function ancestors_to ::
  "process_generation \<Rightarrow> process_generation \<Rightarrow> processes \<Rightarrow> i64 list \<Rightarrow> i64 \<Rightarrow> process_record list option" where
  "ancestors_to root descendant ps seen current =
     (if current \<in> set seen then None
      else (case map_of ps current of
        None \<Rightarrow> None
      | Some r \<Rightarrow>
          if current = pg_pid descendant \<and> generation r \<noteq> descendant then None
          else if current = pg_pid root then (if generation r = root then Some [r] else None)
          else (case pr_parent_pid r of
            None \<Rightarrow> None
          | Some parent \<Rightarrow> map_option ((#) r) (ancestors_to root descendant ps (current # seen) parent))))"
  by pat_completeness auto
termination
  by (relation "measure (\<lambda>(root, descendant, ps, seen, current). card (unseen ps seen))") (auto simp: unseen_Cons_less)

declare ancestors_to.simps [simp del]

definition ancestry_path ::
  "process_generation \<Rightarrow> process_generation \<Rightarrow> processes \<Rightarrow> process_record list option" where
  "ancestry_path root descendant ps = ancestors_to root descendant ps [] (pg_pid descendant)"

fun revalidate_path ::
  "process_generation \<Rightarrow> (i64 \<Rightarrow> process_record option) \<Rightarrow> process_record list \<Rightarrow> string + unit" where
  "revalidate_path root read [] = Inr ()"
| "revalidate_path root read (expected # path) =
     (case read (pr_pid expected) of
        None \<Rightarrow> Inl (''process '' @ signed_decimal (pr_pid expected) @ '' disappeared during ancestry proof'')
      | Some current \<Rightarrow>
          if pr_start_time current \<noteq> pr_start_time expected then
            Inl (''process '' @ signed_decimal (pr_pid expected) @ '' changed generation during ancestry proof'')
          else if pr_pid expected \<noteq> pg_pid root \<and> pr_parent_pid current \<noteq> pr_parent_pid expected then
            Inl (''process '' @ signed_decimal (pr_pid expected) @ '' changed parent during ancestry proof'')
          else revalidate_path root read path)"

definition revalidate_ancestry_with ::
  "process_generation \<Rightarrow> process_generation \<Rightarrow> processes \<Rightarrow> (i64 \<Rightarrow> process_record option) \<Rightarrow> string + unit" where
  "revalidate_ancestry_with root descendant ps read =
     rbind (ok_or (ancestry_path root descendant ps)
       ''the provider is no longer descended from the exact pane generation'') (revalidate_path root read)"

definition provider_at :: "processes \<Rightarrow> i64 \<Rightarrow> provider option" where
  "provider_at ps pid = Option.bind (map_of ps pid) pr_provider"

definition provider_process :: "i64 \<Rightarrow> provider option \<Rightarrow> processes \<Rightarrow> i64 option" where
  "provider_process root p ps =
     find (\<lambda>pid. case provider_at ps pid of None \<Rightarrow> False | Some q \<Rightarrow> p = None \<or> p = Some q)
       (rev (process_tree root ps))"

section \<open>Launchers, helpers and owners\<close>

definition runtime_launcher_generation :: "i64 \<Rightarrow> processes \<Rightarrow> process_generation option" where
  "runtime_launcher_generation pid ps =
     (case map_of ps pid of
        None \<Rightarrow> None
      | Some child \<Rightarrow>
          (case Option.bind (pr_parent_pid child) (map_of ps) of
             None \<Rightarrow> None
           | Some parent \<Rightarrow>
               if pr_argv parent \<noteq> []
                  \<and> file_name (hd (pr_argv parent)) \<in> {Some ''node'', Some ''nodejs'', Some ''bun''}
                  \<and> length (pr_argv parent) \<ge> 2 \<and> pr_provider child \<noteq> None \<and> pr_provider child = pr_provider parent
                  \<and> pr_start_time parent \<le> pr_start_time child \<and> drop 2 (pr_argv parent) = drop 1 (pr_argv child)
               then Some (generation parent) else None))"

function reaches :: "processes \<Rightarrow> i64 \<Rightarrow> i64 \<Rightarrow> i64 list \<Rightarrow> i64 \<Rightarrow> bool" where
  "reaches ps target root seen current =
     (if current \<in> set seen then False
      else if current = target then True
      else if current = root then False
      else (case Option.bind (map_of ps current) pr_parent_pid of
        None \<Rightarrow> False
      | Some parent \<Rightarrow> reaches ps target root (current # seen) parent))"
  by pat_completeness auto
termination
  by (relation "measure (\<lambda>(ps, target, root, seen, current). card (unseen ps seen))")
    (auto simp: unseen_Cons_less bind_eq_Some_conv)

declare reaches.simps [simp del]

definition is_provider_helper :: "(string \<Rightarrow> bool) \<Rightarrow> i64 \<Rightarrow> i64 \<Rightarrow> i64 \<Rightarrow> processes \<Rightarrow> bool" where
  "is_provider_helper uuid provider_pid owner_pid root ps \<longleftrightarrow>
     map_option pg_pid (runtime_launcher_generation owner_pid ps) = Some provider_pid
     \<or> (case map_of ps provider_pid of
          None \<Rightarrow> False
        | Some r \<Rightarrow> \<not> list_ex uuid (pr_argv r) \<and> reaches ps owner_pid root [] provider_pid)"

definition unverified_provider :: "(string \<Rightarrow> bool) \<Rightarrow> i64 \<Rightarrow> i64 \<Rightarrow> i64 \<Rightarrow> processes \<Rightarrow> bool" where
  "unverified_provider uuid pid owner root ps \<longleftrightarrow> pid \<noteq> owner \<and> \<not> is_provider_helper uuid pid owner root ps"

record pane =
  pn_session_name :: string
  pn_pane_id :: string
  pn_pane_pid :: i64
  pn_cwd :: string
  pn_current_command :: string
  pn_attached :: bool
  pn_dead :: bool
  pn_dead_status :: "i64 option"
  pn_activity :: f64
  pn_created :: f64
  pn_provider :: "provider option"
  pn_session_id :: "string option"
  pn_name :: "string option"
  pn_launch_token :: "string option"

record identity_pane_selection =
  ip_candidates :: "(pane \<times> i64) list"
  ip_ambiguous_provider :: bool
  ip_incomplete_root :: bool

definition provider_pids :: "provider \<Rightarrow> pane \<Rightarrow> processes \<Rightarrow> i64 set" where
  "provider_pids p pn ps = {pid \<in> set (process_tree (pn_pane_pid pn) ps). provider_at ps pid = Some p}"

definition proven_owner :: "i64 set \<Rightarrow> (i64 \<Rightarrow> pane \<Rightarrow> bool) \<Rightarrow> processes \<Rightarrow> pane \<Rightarrow> i64 option" where
  "proven_owner pids proves ps pn =
     find (\<lambda>pid. pid \<in> set (process_tree (pn_pane_pid pn) ps) \<and> proves pid pn) (sorted_list_of_set pids)"

definition select_pane ::
  "(string \<Rightarrow> bool) \<Rightarrow> provider \<Rightarrow> i64 set \<Rightarrow> processes \<Rightarrow> (i64 \<Rightarrow> pane \<Rightarrow> bool) \<Rightarrow> (i64 \<Rightarrow> i64 \<Rightarrow> bool)
    \<Rightarrow> pane \<Rightarrow> identity_pane_selection \<Rightarrow> identity_pane_selection" where
  "select_pane uuid p pids ps proves advisory pn sel =
     (if map_of ps (pn_pane_pid pn) = None then sel\<lparr>ip_incomplete_root := True\<rparr>
      else (case proven_owner pids proves ps pn of
        Some owner \<Rightarrow>
          (if \<exists>pid \<in> provider_pids p pn ps. \<not> advisory pid owner \<and> unverified_provider uuid pid owner (pn_pane_pid pn) ps
           then sel\<lparr>ip_ambiguous_provider := True\<rparr> else sel)
          \<lparr>ip_candidates := ip_candidates sel @ [(pn, owner)]\<rparr>
      | None \<Rightarrow> if provider_pids p pn ps \<noteq> {} then sel\<lparr>ip_ambiguous_provider := True\<rparr> else sel))"

definition identity_pane_candidates_with_advisory ::
  "(string \<Rightarrow> bool) \<Rightarrow> pane list \<Rightarrow> provider \<Rightarrow> i64 set \<Rightarrow> processes \<Rightarrow> (i64 \<Rightarrow> pane \<Rightarrow> bool) \<Rightarrow> (i64 \<Rightarrow> i64 \<Rightarrow> bool)
    \<Rightarrow> identity_pane_selection" where
  "identity_pane_candidates_with_advisory uuid panes p pids ps proves advisory =
     fold (select_pane uuid p pids ps proves advisory) panes
       \<lparr> ip_candidates = [], ip_ambiguous_provider = False, ip_incomplete_root = False \<rparr>"

function ancestor_running :: "provider \<Rightarrow> processes \<Rightarrow> i64 list \<Rightarrow> i64 option \<Rightarrow> i64 option" where
  "ancestor_running p ps seen None = None"
| "ancestor_running p ps seen (Some pid) =
     (if pid \<in> set seen then None
      else (case map_of ps pid of
        None \<Rightarrow> None
      | Some r \<Rightarrow> if pr_provider r = Some p then Some pid else ancestor_running p ps (pid # seen) (pr_parent_pid r)))"
  by pat_completeness auto
termination
  by (relation "measure (\<lambda>(p, ps, seen, current). card (unseen ps seen))") (auto simp: unseen_Cons_less)

definition provider_ancestor :: "i64 \<Rightarrow> provider \<Rightarrow> processes \<Rightarrow> i64 option" where
  "provider_ancestor start p ps = ancestor_running p ps [] (Some start)"

definition canonical_identity_pids :: "i64 set \<Rightarrow> processes \<Rightarrow> i64 set" where
  "canonical_identity_pids pids ps =
     pids - {l \<in> pids. \<exists>pid \<in> pids. map_option pg_pid (runtime_launcher_generation pid ps) = Some l}"

definition carries_identity :: "(string \<Rightarrow> bool) \<Rightarrow> string \<Rightarrow> provider \<Rightarrow> process_record \<Rightarrow> bool" where
  "carries_identity uuid identity p r \<longleftrightarrow>
     pr_provider r = Some p
     \<and> (if p = Muse then muse_resume_identity uuid (pr_argv r) identity else identity \<in> set (pr_argv r))"

definition find_session_processes :: "(string \<Rightarrow> bool) \<Rightarrow> string \<Rightarrow> provider \<Rightarrow> processes \<Rightarrow> i64 set" where
  "find_session_processes uuid identity p ps =
     canonical_identity_pids (pr_pid ` {r \<in> snd ` set ps. carries_identity uuid identity p r}) ps"

definition observed_idle_shell :: "process_record \<Rightarrow> processes \<Rightarrow> bool" where
  "observed_idle_shell root ps \<longleftrightarrow>
     (case pr_argv root of
        [] \<Rightarrow> False
      | executable # args \<Rightarrow>
          (args = [] \<or> args = [''-l''] \<or> args = [''--login''])
          \<and> (case file_name executable of
               None \<Rightarrow> False
             | Some name \<Rightarrow> dropWhile (\<lambda>c. c = CHR ''-'') name \<in> {''sh'', ''bash'', ''dash'', ''zsh'', ''ksh'', ''fish''})
          \<and> length (process_tree (pr_pid root) ps) = 1)"

definition shared_provider_process :: "process_record \<Rightarrow> provider \<Rightarrow> bool" where
  "shared_provider_process r p \<longleftrightarrow>
     pr_provider r = Some p
     \<and> (case p of Opencode \<Rightarrow> True | Codex \<Rightarrow> ''app-server'' \<in> set (pr_argv r) | Claude \<Rightarrow> False | Muse \<Rightarrow> False)"

end
