(* ===== verification/Hooks.thy ===== *)
theory Hooks
  imports Launches Status_Projection Json
begin

text \<open>
  Provider hooks and process exits (src/hooks.rs): what a provider reports about one of its
  conversations, checked, enriched from its transcript, admitted against the pending launches and
  projected to the status the board shows, in one transaction of the session store. \<open>hook_env\<close> holds
  what lies outside: the JSON parser, the files, the paths of the machine, the Debug form of a text;
  \<open>wall n\<close> is the \<open>n\<close>-th kind of clock reading of a transaction (binding, conflict, projection,
  certification).
\<close>

record hook_payload =
  hp_session_id :: string
  hp_hook_event_name :: string
  hp_cwd :: "string option"
  hp_transcript_path :: "string option"
  hp_tool_name :: "string option"
  hp_notification_type :: "string option"
  hp_error :: "string option"
  hp_source :: "string option"
  hp_originator :: "string option"
  hp_entrypoint :: "string option"
  hp_thread_source :: "string option"
  hp_parent_session_id :: "string option"
  hp_session_title :: "string option"
  hp_desired_name :: "string option"
  hp_native_name_error :: "string option"
  hp_model :: "string option"
  hp_deleted :: bool
  hp_background_tasks :: nat

record hook_context =
  hc_now :: f64
  hc_ephemeral :: bool
  hc_expected_provider :: "provider option"
  hc_expected_session_id :: "string option"
  hc_desired_name :: "string option"
  hc_launch_token :: "string option"
  hc_owner_token :: string
  hc_owner_pid :: "i64 option"
  hc_owner_start_time :: "i64 option"
  hc_codex_shared_owner :: bool
  hc_pane_id :: "string option"
  hc_pane_session :: "string option"
  hc_pane_attached :: bool
  hc_exact_home_verified :: bool
  hc_hook_fingerprint :: string
  hc_codex_worker_originators :: "string list"
  hc_opencode_worker_title_prefixes :: "string list"

definition hook_context_at :: "f64 \<Rightarrow> hook_context" where
  "hook_context_at now =
     \<lparr> hc_now = now, hc_ephemeral = False, hc_expected_provider = None, hc_expected_session_id = None,
       hc_desired_name = None, hc_launch_token = None, hc_owner_token = [], hc_owner_pid = None,
       hc_owner_start_time = None, hc_codex_shared_owner = False, hc_pane_id = None, hc_pane_session = None,
       hc_pane_attached = False, hc_exact_home_verified = False, hc_hook_fingerprint = ''native-v1'',
       hc_codex_worker_originators = [], hc_opencode_worker_title_prefixes = [] \<rparr>"

datatype hook_disposition = Ignored | Owner_only | Updated | Deleted

record hook_tag_request =
  ht_pane_id :: string
  ht_provider :: provider
  ht_session_id :: string
  ht_name :: string

record hook_native_name_request =
  hn_provider :: provider
  hn_session_id :: string
  hn_name :: string

record hook_alert =
  ha_provider :: provider
  ha_session_id :: string
  ha_name :: string
  ha_status :: status
  ha_attention_reason :: "string option"

record hook_result =
  hr_disposition :: hook_disposition
  hr_provider :: provider
  hr_session_id :: "string option"
  hr_status :: "status option"
  hr_unread :: bool
  hr_reason :: "string option"
  hr_provider_output :: "json option"
  hr_tag_request :: "hook_tag_request option"
  hr_native_name_request :: "hook_native_name_request option"
  hr_alert :: "hook_alert option"
  hr_launch_certified :: bool

definition plain_result :: "hook_disposition \<Rightarrow> provider \<Rightarrow> string option \<Rightarrow> string option \<Rightarrow> hook_result" where
  "plain_result disposition p i reason =
     \<lparr> hr_disposition = disposition, hr_provider = p, hr_session_id = i, hr_status = None, hr_unread = False,
       hr_reason = reason, hr_provider_output = None, hr_tag_request = None, hr_native_name_request = None,
       hr_alert = None, hr_launch_certified = False \<rparr>"

definition ignored :: "provider \<Rightarrow> string option \<Rightarrow> string \<Rightarrow> hook_result" where
  "ignored p i reason = plain_result Ignored p i (Some reason)"

record hook_env =
  he_store :: store_env
  he_launch :: launch_env
  he_debug :: "string \<Rightarrow> string"
  he_parse :: "string \<Rightarrow> json option"
  he_file :: "string \<Rightarrow> string option"
  he_canonical :: "string \<Rightarrow> string option"

datatype hook_error = Hook_bail string | Hook_store store_error

section \<open>Checking what a provider sends\<close>

definition max_hook_payload_bytes :: nat where "max_hook_payload_bytes = 1048576"
definition max_id_bytes :: nat where "max_id_bytes = 512"
definition max_text_bytes :: nat where "max_text_bytes = 8192"

definition bad_text :: "string \<Rightarrow> hook_error" where
  "bad_text key = Hook_bail (''hook field '' @ [CHR 0x22] @ key @ [CHR 0x22] @ '' is empty, too long, or contains NUL'')"

definition field_error :: "string \<Rightarrow> string \<Rightarrow> hook_error" where
  "field_error key what = Hook_bail (''hook field '' @ [CHR 0x22] @ key @ [CHR 0x22] @ what)"

definition text_ok :: "string \<Rightarrow> nat \<Rightarrow> bool" where
  "text_ok v limit \<longleftrightarrow> \<not> (v = [] \<or> length v > limit \<or> contains_nul v)"

definition validate_text :: "string \<Rightarrow> string \<Rightarrow> nat \<Rightarrow> hook_error + unit" where
  "validate_text key v limit = ensure (text_ok v limit) (bad_text key)"

definition valid_event :: "provider \<Rightarrow> string \<Rightarrow> bool" where
  "valid_event p event \<longleftrightarrow>
     event \<in> {''SessionStart'', ''UserPromptSubmit'', ''PermissionRequest'', ''PreToolUse'', ''PostToolUse'',
       ''Stop'', ''SessionEnd''}
     \<or> (case p of
          Codex \<Rightarrow> False
        | Claude \<Rightarrow> event \<in> {''Notification'', ''StopFailure''}
        | Opencode \<Rightarrow> event \<in> {''SessionHeartbeat'', ''PermissionReply'', ''QuestionRequest'', ''QuestionReply'',
            ''StopFailure''}
        | Muse \<Rightarrow> event \<in> {''PostToolUseFailure'', ''Notification''})"

definition unsupported :: "hook_env \<Rightarrow> provider \<Rightarrow> string \<Rightarrow> hook_error" where
  "unsupported env p event =
     Hook_bail (''unsupported '' @ provider_as_str p @ '' hook event '' @ he_debug env event)"

definition optional_text :: "(string \<times> json) list \<Rightarrow> string \<Rightarrow> nat \<Rightarrow> hook_error + string option" where
  "optional_text obj key limit =
     (case map_of obj key of
        None \<Rightarrow> Inr None
      | Some J_null \<Rightarrow> Inr None
      | Some v \<Rightarrow>
          rbind (ok_or (json_as_str v) (field_error key '' must be a string'')) (\<lambda>t.
          rbind (ensure (text_ok t limit) (bad_text key)) (\<lambda>_. Inr (Some t))))"

definition required_text :: "(string \<times> json) list \<Rightarrow> string \<Rightarrow> nat \<Rightarrow> hook_error + string" where
  "required_text obj key limit =
     rbind (optional_text obj key limit) (\<lambda>v.
     ok_or v (Hook_bail (''missing hook field '' @ [CHR 0x22] @ key @ [CHR 0x22])))"

definition optional_bool :: "(string \<times> json) list \<Rightarrow> string \<Rightarrow> hook_error + bool option" where
  "optional_bool obj key =
     (case map_of obj key of
        None \<Rightarrow> Inr None
      | Some v \<Rightarrow> rbind (ok_or (json_as_bool v) (field_error key '' must be a boolean'')) (\<lambda>b. Inr (Some b)))"

definition optional_array_len :: "(string \<times> json) list \<Rightarrow> string \<Rightarrow> hook_error + nat option" where
  "optional_array_len obj key =
     (case map_of obj key of
        None \<Rightarrow> Inr None
      | Some v \<Rightarrow>
          rbind (ok_or (json_as_array v) (field_error key '' must be an array'')) (\<lambda>vs. Inr (Some (length vs))))"

definition or_default :: "'a \<Rightarrow> 'a option \<Rightarrow> 'a" where
  "or_default d v = (case v of None \<Rightarrow> d | Some x \<Rightarrow> x)"

definition parse_hook_object :: "hook_env \<Rightarrow> provider \<Rightarrow> (string \<times> json) list \<Rightarrow> hook_error + hook_payload" where
  "parse_hook_object env p obj =
     rbind (required_text obj ''session_id'' max_id_bytes) (\<lambda>session_id.
     rbind (required_text obj ''hook_event_name'' 64) (\<lambda>event.
     rbind (ensure (valid_event p event) (unsupported env p event)) (\<lambda>_.
     rbind (optional_text obj ''cwd'' max_text_bytes) (\<lambda>cwd.
     rbind (optional_text obj ''transcript_path'' max_text_bytes) (\<lambda>transcript_path.
     rbind (optional_text obj ''tool_name'' 512) (\<lambda>tool_name.
     rbind (optional_text obj ''notification_type'' 512) (\<lambda>notification_type.
     rbind (optional_text obj ''error'' max_text_bytes) (\<lambda>err.
     rbind (optional_text obj ''source'' 512) (\<lambda>source.
     rbind (optional_text obj ''originator'' 512) (\<lambda>originator.
     rbind (optional_text obj ''entrypoint'' 512) (\<lambda>entrypoint.
     rbind (optional_text obj ''thread_source'' 512) (\<lambda>thread_source.
     rbind (optional_text obj ''parent_session_id'' max_id_bytes) (\<lambda>parent_session_id.
     rbind (optional_text obj ''session_title'' 2048) (\<lambda>session_title.
     rbind (optional_text obj ''desired_name'' 2048) (\<lambda>desired_name.
     rbind (optional_text obj ''native_name_error'' max_text_bytes) (\<lambda>native_name_error.
     rbind (optional_text obj ''model'' 512) (\<lambda>model.
     rbind (optional_bool obj ''deleted'') (\<lambda>deleted.
     rbind (optional_array_len obj ''background_tasks'') (\<lambda>background_tasks.
     Inr \<lparr> hp_session_id = session_id, hp_hook_event_name = event, hp_cwd = cwd,
           hp_transcript_path = transcript_path, hp_tool_name = tool_name,
           hp_notification_type = notification_type, hp_error = err, hp_source = source,
           hp_originator = originator, hp_entrypoint = entrypoint, hp_thread_source = thread_source,
           hp_parent_session_id = parent_session_id, hp_session_title = session_title,
           hp_desired_name = desired_name, hp_native_name_error = native_name_error, hp_model = model,
           hp_deleted = or_default False deleted,
           hp_background_tasks = or_default 0 background_tasks \<rparr>)))))))))))))))))))"

definition parse_hook_payload :: "hook_env \<Rightarrow> provider \<Rightarrow> string \<Rightarrow> hook_error + hook_payload" where
  "parse_hook_payload env p input =
     (let bytes = take (max_hook_payload_bytes + 1) input in
     rbind (ensure (length bytes \<le> max_hook_payload_bytes)
       (Hook_bail ''provider hook payload exceeds 1048576 bytes'')) (\<lambda>_.
     rbind (ok_or (he_parse env bytes) (Hook_bail ''invalid provider hook JSON'')) (\<lambda>v.
     case v of
       J_obj obj \<Rightarrow> parse_hook_object env p obj
     | _ \<Rightarrow> Inl (Hook_bail ''provider hook payload must be a JSON object''))))"

fun validate_fields :: "(string \<times> string option \<times> nat) list \<Rightarrow> hook_error + unit" where
  "validate_fields [] = Inr ()"
| "validate_fields ((key, v, limit) # rest) =
     (case v of
        None \<Rightarrow> validate_fields rest
      | Some t \<Rightarrow> rbind (validate_text key t limit) (\<lambda>_. validate_fields rest))"

definition validate_payload :: "hook_env \<Rightarrow> provider \<Rightarrow> hook_payload \<Rightarrow> hook_error + unit" where
  "validate_payload env p pl =
     rbind (validate_text ''session_id'' (hp_session_id pl) max_id_bytes) (\<lambda>_.
     rbind (validate_text ''hook_event_name'' (hp_hook_event_name pl) 64) (\<lambda>_.
     rbind (ensure (valid_event p (hp_hook_event_name pl)) (unsupported env p (hp_hook_event_name pl))) (\<lambda>_.
     validate_fields
       [(''cwd'', hp_cwd pl, max_text_bytes), (''transcript_path'', hp_transcript_path pl, max_text_bytes),
        (''session_title'', hp_session_title pl, 2048), (''desired_name'', hp_desired_name pl, 2048),
        (''error'', hp_error pl, max_text_bytes)])))"

definition owner_token_field :: "string \<Rightarrow> string option" where
  "owner_token_field t = (if t = [] then None else Some t)"

definition validate_context :: "hook_context \<Rightarrow> hook_error + unit" where
  "validate_context ctx =
     rbind (ensure (f64_is_finite (hc_now ctx) \<and> \<not> f64_lt (hc_now ctx) 0)
       (Hook_bail ''hook observation time must be finite and non-negative'')) (\<lambda>_.
     rbind (validate_fields
       [(''PIKA_SESSION_ID'', hc_expected_session_id ctx, max_id_bytes), (''PIKA_NAME'', hc_desired_name ctx, 2048),
        (''PIKA_LAUNCH_TOKEN'', hc_launch_token ctx, max_id_bytes),
        (''PIKA_OWNER_TOKEN'', owner_token_field (hc_owner_token ctx), max_id_bytes),
        (''TMUX_PANE'', hc_pane_id ctx, 512), (''hook_fingerprint'', Some (hc_hook_fingerprint ctx), 512)]) (\<lambda>_.
     rbind (ensure (\<not> ((case hc_owner_pid ctx of None \<Rightarrow> False | Some n \<Rightarrow> n \<le> 0)
         \<or> (case hc_owner_start_time ctx of None \<Rightarrow> False | Some n \<Rightarrow> n < 0)))
       (Hook_bail ''hook owner PID generation is invalid'')) (\<lambda>_.
     ensure (\<not> (hc_exact_home_verified ctx
         \<and> (hc_pane_id ctx = None \<or> hc_owner_pid ctx = None \<or> hc_owner_start_time ctx = None)))
       (Hook_bail ''exact home verification requires pane and PID-generation evidence''))))"

section \<open>Enrichment from the transcript\<close>

text \<open>One line of a text up to and with its newline, and the rest.\<close>

definition next_line :: "string \<Rightarrow> string \<times> string" where
  "next_line s =
     (let body = takeWhile (\<lambda>c. c \<noteq> CHR 0x0A) s; rest = dropWhile (\<lambda>c. c \<noteq> CHR 0x0A) s in
      (body @ take 1 rest, drop 1 rest))"

definition first_some :: "'a option \<Rightarrow> 'a option \<Rightarrow> 'a option" where
  "first_some a b = (case a of None \<Rightarrow> b | Some v \<Rightarrow> Some v)"

definition get_str :: "(string \<times> json) list \<Rightarrow> string \<Rightarrow> string option" where
  "get_str obj key = Option.bind (map_of obj key) json_as_str"

definition enrich_from_metadata :: "(string \<times> json) list \<Rightarrow> hook_payload \<Rightarrow> hook_payload" where
  "enrich_from_metadata obj pl =
     (let identity = Option.bind (Option.bind (first_some (map_of obj ''id'') (map_of obj ''session_id'')) json_as_str)
            (\<lambda>v. if text_ok v max_id_bytes then Some v else None);
          pl1 = (case identity of None \<Rightarrow> pl | Some i \<Rightarrow> pl\<lparr>hp_session_id := i\<rparr>);
          pl2 = (case get_str obj ''originator'' of None \<Rightarrow> pl1 | Some v \<Rightarrow> pl1\<lparr>hp_originator := Some v\<rparr>);
          pl3 = (case map_of obj ''source'' of
                   Some (J_str v) \<Rightarrow> pl2\<lparr>hp_source := Some v\<rparr>
                 | Some (J_obj entries) \<Rightarrow>
                     if map_of entries ''subagent'' \<noteq> None then pl2\<lparr>hp_thread_source := Some ''subagent''\<rparr> else pl2
                 | _ \<Rightarrow> pl2);
          pl4 = (if get_str obj ''thread_source'' = Some ''subagent''
                 then pl3\<lparr>hp_thread_source := Some ''subagent''\<rparr> else pl3);
          parent = Option.bind (first_some (map_of obj ''parent_session_id'') (map_of obj ''parent_thread_id'')) json_as_str
      in case parent of None \<Rightarrow> pl4 | Some v \<Rightarrow> pl4\<lparr>hp_parent_session_id := Some v\<rparr>)"

definition enrich_codex_payload :: "hook_env \<Rightarrow> string \<Rightarrow> hook_payload \<Rightarrow> hook_payload" where
  "enrich_codex_payload env path pl =
     (case he_file env path of
        None \<Rightarrow> pl
      | Some content \<Rightarrow>
          let line = fst (next_line (take 262144 content)) in
          if \<not> utf8_valid line then pl
          else (case he_parse env line of
            None \<Rightarrow> pl
          | Some v \<Rightarrow>
              if Option.bind (json_get v ''type'') json_as_str \<noteq> Some ''session_meta'' then pl
              else (case json_get v ''payload'' of
                Some (J_obj metadata) \<Rightarrow> enrich_from_metadata metadata pl
              | _ \<Rightarrow> pl)))"

fun claude_lines :: "hook_env \<Rightarrow> nat \<Rightarrow> string \<Rightarrow> hook_payload \<Rightarrow> hook_payload" where
  "claude_lines env 0 rest pl = pl"
| "claude_lines env (Suc n) rest pl =
     (let (line, rest') = next_line rest in
      if \<not> utf8_valid line \<or> line = [] then pl
      else if \<not> contains_str ''entrypoint'' line \<or> \<not> contains_str (hp_session_id pl) line
      then claude_lines env n rest' pl
      else (case he_parse env line of
        None \<Rightarrow> claude_lines env n rest' pl
      | Some v \<Rightarrow>
          if Option.bind (json_get v ''sessionId'') json_as_str \<noteq> Some (hp_session_id pl)
          then claude_lines env n rest' pl
          else (case Option.bind (json_get v ''entrypoint'') json_as_str of
            Some e \<Rightarrow> pl\<lparr>hp_entrypoint := Some e\<rparr>
          | None \<Rightarrow> pl)))"

definition enrich_claude_payload :: "hook_env \<Rightarrow> string \<Rightarrow> hook_payload \<Rightarrow> hook_payload" where
  "enrich_claude_payload env path pl =
     (case he_file env path of
        None \<Rightarrow> pl
      | Some content \<Rightarrow> claude_lines env 256 (take 1048576 content) pl)"

definition enrich_hook_payload :: "hook_env \<Rightarrow> provider \<Rightarrow> hook_payload \<Rightarrow> hook_payload" where
  "enrich_hook_payload env p pl =
     (case hp_transcript_path pl of
        None \<Rightarrow> pl
      | Some path \<Rightarrow>
          (case p of
             Codex \<Rightarrow> enrich_codex_payload env path pl
           | Claude \<Rightarrow> enrich_claude_payload env path pl
           | Opencode \<Rightarrow> pl
           | Muse \<Rightarrow> pl))"

section \<open>What an event says\<close>

definition asks_question :: "provider \<Rightarrow> hook_payload \<Rightarrow> bool" where
  "asks_question p pl \<longleftrightarrow>
     p = Codex \<and> hp_tool_name pl = Some ''request_user_input''
     \<or> p = Claude \<and> hp_tool_name pl = Some ''AskUserQuestion''
     \<or> p = Muse \<and> hp_tool_name pl = Some ''request_user_input''"

definition event_verdict ::
  "provider \<Rightarrow> hook_payload \<Rightarrow> status \<times> bool \<times> string option \<times> string option" where
  "event_verdict p pl =
     (let event = hp_hook_event_name pl in
      if event = ''PreToolUse'' \<and> asks_question p pl then (NeedsYou, True, Some ''question'', None)
      else if event \<in> {''UserPromptSubmit'', ''PermissionReply'', ''QuestionReply''} then (Working, False, None, None)
      else if event = ''PermissionRequest'' then (NeedsYou, True, Some ''permission'', None)
      else if event = ''QuestionRequest'' then (NeedsYou, True, Some ''question'', None)
      else if event = ''Notification'' then
        (if hp_notification_type pl = Some ''permission_prompt'' then (NeedsYou, True, Some ''permission'', None)
         else if hp_notification_type pl \<in> {Some ''agent_needs_input'', Some ''elicitation_dialog''}
         then (NeedsYou, True, Some ''question'', None)
         else if hp_notification_type pl \<in> {Some ''agent_completed'', Some ''idle_prompt''}
         then (Ready, True, Some ''completed'', None)
         else (Working, False, None, None))
      else if event = ''Stop'' \<and> p = Claude \<and> hp_background_tasks pl > 0 then (Working, False, None, None)
      else if event = ''Stop'' then (Ready, True, Some ''completed'', None)
      else if event = ''StopFailure''
      then (Error, True, Some ''failed'', Some (or_default ''Claude turn failed'' (hp_error pl)))
      else if event = ''PostToolUseFailure''
      then (Error, True, Some ''failed'', Some (or_default ''Muse tool failed'' (hp_error pl)))
      else if event = ''SessionEnd'' then (Parked, False, None, None)
      else if event = ''SessionStart'' then (Ready, False, None, None)
      else (Working, False, None, None))"

definition event_state :: "provider \<Rightarrow> hook_payload \<Rightarrow> status_observation" where
  "event_state p pl =
     (let (st, unread, reason, err) = event_verdict p pl in
      \<lparr> o_kind = Lifecycle, o_status = st, o_unread = unread, o_attention_reason = reason, o_error = err,
        o_observed_at = f64_zero, o_source = ''hook:'' @ hp_hook_event_name pl \<rparr>)"

definition preserve_unread_on_session_end :: "session \<Rightarrow> bool" where
  "preserve_unread_on_session_end s \<longleftrightarrow>
     s_unread s \<and> s_status s \<noteq> OpenTwice \<and> \<not> (s_status s = Error \<and> s_attention_reason s = Some ''identity'')"

text \<open>The observation a hook records: the event's own, or the unread result a closing session leaves.\<close>

definition hook_observed :: "provider \<Rightarrow> hook_payload \<Rightarrow> hook_context \<Rightarrow> session option \<Rightarrow> status_observation" where
  "hook_observed p pl ctx existing =
     (let ob = event_state p pl;
          ob1 = (if hc_pane_attached ctx \<and> o_status ob = Ready then ob\<lparr>o_unread := False\<rparr> else ob) in
      case existing of
        Some current \<Rightarrow>
          if hp_hook_event_name pl = ''SessionEnd'' \<and> preserve_unread_on_session_end current
          then ob1\<lparr> o_status := s_status current, o_unread := True, o_attention_reason := s_attention_reason current,
                    o_error := s_error current, o_observed_at := s_last_event_at current \<rparr>
          else ob1\<lparr>o_observed_at := hc_now ctx\<rparr>
      | None \<Rightarrow> ob1\<lparr>o_observed_at := hc_now ctx\<rparr>)"

section \<open>Workers, paths and names\<close>

definition worker_originator :: "hook_env \<Rightarrow> provider \<Rightarrow> hook_payload \<Rightarrow> hook_context \<Rightarrow> string option" where
  "worker_originator env p pl ctx =
     (case p of
        Codex \<Rightarrow>
          if hp_source pl = Some ''exec'' then Some ''codex-exec''
          else if hp_thread_source pl = Some ''subagent'' then Some ''codex-subagent''
          else Option.bind (hp_originator pl) (\<lambda>origin.
            if eq_ignore_ascii_case origin ''codex_exec''
               \<or> list_ex (\<lambda>v. eq_ignore_ascii_case v origin) (hc_codex_worker_originators ctx)
            then Some origin else None)
      | Claude \<Rightarrow> if hp_entrypoint pl = Some ''sdk-cli'' then Some ''claude-sdk-cli'' else None
      | Opencode \<Rightarrow>
          if hp_parent_session_id pl \<noteq> None then Some ''opencode-subagent''
          else Option.bind (hp_session_title pl) (\<lambda>title.
            find (\<lambda>v. starts_with (se_lower (he_store env) v) (se_lower (he_store env) title))
              (hc_opencode_worker_title_prefixes ctx))
      | Muse \<Rightarrow> hp_parent_session_id pl)"

definition ends_with_char :: "char \<Rightarrow> string \<Rightarrow> bool" where
  "ends_with_char c s \<longleftrightarrow> s \<noteq> [] \<and> last s = c"

definition opencode_placeholder_title :: "string \<Rightarrow> bool" where
  "opencode_placeholder_title v \<longleftrightarrow>
     starts_with ''New session - '' v \<or> contains_str '' (fork #'' v \<and> ends_with_char (CHR '')'') v"

definition same_optional_path :: "hook_env \<Rightarrow> string option \<Rightarrow> string option \<Rightarrow> bool" where
  "same_optional_path env left right =
     (case (left, right) of
        (Some a, Some b) \<Rightarrow>
          (case (he_canonical env a, he_canonical env b) of
             (Some x, Some y) \<Rightarrow> x = y
           | _ \<Rightarrow> a = b)
      | _ \<Rightarrow> False)"

definition short :: "string \<Rightarrow> string" where
  "short v = (if length v = 8 \<or> length v > 8 \<and> \<not> utf8_continuation (v ! 8) then take 8 v else v)"

text \<open>A provider that shares one server keeps its lease but none of the terminal's inherited identity.\<close>

definition shared_context :: "provider \<Rightarrow> hook_context \<Rightarrow> hook_context" where
  "shared_context p ctx =
     (if p = Codex \<and> hc_codex_shared_owner ctx
      then ctx\<lparr> hc_expected_provider := None, hc_expected_session_id := None, hc_desired_name := None,
                hc_launch_token := None, hc_owner_token := [], hc_pane_id := None, hc_pane_session := None,
                hc_pane_attached := False, hc_exact_home_verified := False \<rparr>
      else ctx)"

section \<open>A transaction\<close>

text \<open>Steps on the store that may fail; a failing transaction is rolled back by whoever runs it.\<close>

type_synonym 'a tx = "store_db \<Rightarrow> hook_error + 'a \<times> store_db"

definition tx_return :: "'a \<Rightarrow> 'a tx" where
  "tx_return x = (\<lambda>db. Inr (x, db))"

definition tx_bind :: "'a tx \<Rightarrow> ('a \<Rightarrow> 'b tx) \<Rightarrow> 'b tx" where
  "tx_bind m f = (\<lambda>db. rbind (m db) (\<lambda>(x, db'). f x db'))"

definition tx_get :: "(store_db \<Rightarrow> 'a) \<Rightarrow> 'a tx" where
  "tx_get f = (\<lambda>db. Inr (f db, db))"

definition tx_do :: "(store_db \<Rightarrow> 'a \<times> store_db) \<Rightarrow> 'a tx" where
  "tx_do f = (\<lambda>db. Inr (f db))"

definition tx_put :: "(store_db \<Rightarrow> store_db) \<Rightarrow> unit tx" where
  "tx_put f = (\<lambda>db. Inr ((), f db))"

definition tx_try :: "(store_db \<Rightarrow> store_error + 'a \<times> store_db) \<Rightarrow> 'a tx" where
  "tx_try f = (\<lambda>db. case f db of Inl e \<Rightarrow> Inl (Hook_store e) | Inr r \<Rightarrow> Inr r)"

definition tx_when :: "bool \<Rightarrow> 'a tx \<Rightarrow> unit tx" where
  "tx_when b m = (if b then tx_bind m (\<lambda>_. tx_return ()) else tx_return ())"

definition record_hook :: "hook_observation \<Rightarrow> unit tx" where
  "record_hook ob = tx_try (\<lambda>db. rbind (record_hook_observation ob db) (\<lambda>db'. Inr ((), db')))"

section \<open>Admission of a launch\<close>

datatype launch_decision = Ignore string | Use "string option"

definition launch_binding_error_key :: "string \<Rightarrow> string" where
  "launch_binding_error_key token = ''launch_binding_error:'' @ token"

definition attached_launch_key :: "string \<Rightarrow> string" where
  "attached_launch_key token = ''attached_launch:'' @ token"

definition conflict_text :: "string \<Rightarrow> session \<Rightarrow> provider \<Rightarrow> string \<Rightarrow> string" where
  "conflict_text label winner p competitor =
     label @ '': '' @ provider_as_str (s_provider winner) @ '':'' @ short (s_session_id winner) @ '', ''
       @ provider_as_str p @ '':'' @ short competitor"

definition record_launch_conflict ::
  "(nat \<Rightarrow> f64) \<Rightarrow> string option \<Rightarrow> session \<Rightarrow> provider \<Rightarrow> string \<Rightarrow> string \<Rightarrow> f64 \<Rightarrow> unit tx" where
  "record_launch_conflict wall token winner p competitor label observed_at =
     (let err = conflict_text label winner p competitor;
          st = (if s_provider winner = p then OpenTwice else Error);
          ob = \<lparr> o_kind = Safety, o_status = st, o_unread = True, o_attention_reason = Some ''identity'',
                 o_error = Some err, o_observed_at = observed_at, o_source = ''launch-conflict'' \<rparr>;
          updated = winner\<lparr> s_status := st, s_unread := True, s_attention_reason := Some ''identity'',
            s_error := Some err, s_last_event_at := observed_at, s_last_activity_at := observed_at \<rparr> in
      tx_bind (case token of None \<Rightarrow> tx_return () | Some t \<Rightarrow> tx_put (set_meta (launch_binding_error_key t) err)) (\<lambda>_.
      tx_bind (tx_put (capture_identity_interruption (s_provider winner) (s_session_id winner))) (\<lambda>_.
      tx_bind (tx_try (record_status_observation (s_provider winner) (s_session_id winner) ob)) (\<lambda>_.
      tx_bind (tx_try (upsert_session (wall 1) updated True)) (\<lambda>_. tx_return ())))))"

definition launch_mismatch ::
  "hook_env \<Rightarrow> pending_launch \<Rightarrow> provider \<Rightarrow> hook_payload \<Rightarrow> hook_context \<Rightarrow> string option" where
  "launch_mismatch env pending p pl ctx =
     (if pl_provider pending \<noteq> p then
        Some (''expected provider '' @ provider_as_str (pl_provider pending) @ '', observed '' @ provider_as_str p)
      else if pl_expected_session_id pending \<noteq> None \<and> pl_expected_session_id pending \<noteq> Some (hp_session_id pl) then
        Some (''expected session '' @ or_default [] (pl_expected_session_id pending) @ '', observed '' @ hp_session_id pl)
      else if p = Codex \<and> hp_parent_session_id pl \<noteq> None then
        Some ''expected a new root thread, observed child thread''
      else if pl_tmux_pane pending \<noteq> None \<and> hc_pane_id ctx \<noteq> pl_tmux_pane pending then
        Some (''expected pane '' @ or_default [] (pl_tmux_pane pending) @ '', observed ''
          @ or_default ''none'' (hc_pane_id ctx))
      else if \<not> same_optional_path env (Some (pl_cwd pending)) (hp_cwd pl) then
        Some (''expected cwd '' @ pl_cwd pending @ '', observed '' @ or_default ''none'' (hp_cwd pl))
      else None)"

definition note_refusal :: "hook_payload \<Rightarrow> string \<Rightarrow> string \<Rightarrow> unit tx" where
  "note_refusal pl token text =
     (if hp_hook_event_name pl \<noteq> ''SessionEnd'' then tx_put (set_meta (launch_binding_error_key token) text)
      else tx_return ())"

definition refuse_competitor ::
  "(nat \<Rightarrow> f64) \<Rightarrow> string \<Rightarrow> provider \<Rightarrow> string \<Rightarrow> provider \<Rightarrow> string \<Rightarrow> hook_payload \<Rightarrow> hook_context \<Rightarrow> unit tx" where
  "refuse_competitor wall token bound_provider bound_id p i pl ctx =
     (if hp_hook_event_name pl = ''SessionEnd'' then tx_return ()
      else tx_bind (tx_get (\<lambda>db. get_session db bound_provider bound_id)) (\<lambda>winner.
        case winner of
          Some s \<Rightarrow> record_launch_conflict wall (Some token) s p i
            ''launch token observed competing provider identities'' (hc_now ctx)
        | None \<Rightarrow> tx_put (set_meta (launch_binding_error_key token)
            (''refused competing '' @ provider_as_str p @ '':'' @ i))))"

definition try_switch ::
  "(nat \<Rightarrow> f64) \<Rightarrow> string \<Rightarrow> provider \<Rightarrow> string \<Rightarrow> provider \<Rightarrow> string \<Rightarrow> hook_payload \<Rightarrow> hook_context \<Rightarrow> bool tx" where
  "try_switch wall token bound_provider bound_id p i pl ctx =
     (case (hc_owner_pid ctx, hc_owner_start_time ctx) of
        (Some pid, Some start) \<Rightarrow>
          if p = Opencode \<and> hp_hook_event_name pl \<noteq> ''SessionEnd'' \<and> bound_provider = p
          then tx_do (switch_launch_binding (wall 0) token p bound_id i pid start)
          else tx_return False
      | _ \<Rightarrow> tx_return False)"

definition claim_launch ::
  "(nat \<Rightarrow> f64) \<Rightarrow> string \<Rightarrow> provider \<Rightarrow> string \<Rightarrow> hook_payload \<Rightarrow> hook_context \<Rightarrow> launch_decision tx" where
  "claim_launch wall token p i pl ctx =
     tx_bind (tx_get (\<lambda>db. launch_binding_of db token)) (\<lambda>binding.
     case binding of
       Some (bound_provider, bound_id) \<Rightarrow>
         if (bound_provider, bound_id) = (p, i) then tx_return (Use (Some token))
         else tx_bind (try_switch wall token bound_provider bound_id p i pl ctx) (\<lambda>switched.
           if switched then tx_return (Use (Some token))
           else tx_bind (refuse_competitor wall token bound_provider bound_id p i pl ctx) (\<lambda>_.
             tx_return (Ignore ''competing launch identity'')))
     | None \<Rightarrow>
         tx_bind (tx_do (bind_launch (wall 0) token p i)) (\<lambda>bound.
         tx_return (if bound then Use (Some token) else Ignore ''competing launch identity'')))"

definition admit_token ::
  "hook_env \<Rightarrow> (nat \<Rightarrow> f64) \<Rightarrow> provider \<Rightarrow> string \<Rightarrow> hook_payload \<Rightarrow> hook_context \<Rightarrow> launch_decision tx" where
  "admit_token env wall p i pl ctx =
     (case hc_launch_token ctx of
        None \<Rightarrow> tx_return (Use None)
      | Some token \<Rightarrow>
          tx_bind (tx_get (\<lambda>db. get_pending db token)) (\<lambda>pending.
          case pending of
            None \<Rightarrow>
              tx_bind (tx_get (\<lambda>db. launch_binding_of db token)) (\<lambda>binding.
              if binding = None then tx_return (Use None) else claim_launch wall token p i pl ctx)
          | Some pending \<Rightarrow>
              (case launch_mismatch env pending p pl ctx of
                 Some mismatch \<Rightarrow>
                   tx_bind (note_refusal pl (pl_token pending) (''refused launch hook: '' @ mismatch)) (\<lambda>_.
                   tx_return (Ignore mismatch))
               | None \<Rightarrow> claim_launch wall token p i pl ctx)))"

definition validate_launch ::
  "hook_env \<Rightarrow> (nat \<Rightarrow> f64) \<Rightarrow> provider \<Rightarrow> string \<Rightarrow> hook_payload \<Rightarrow> hook_context \<Rightarrow> launch_decision tx" where
  "validate_launch env wall p i pl ctx =
     tx_bind (tx_get (\<lambda>db. Option.bind (hc_pane_id ctx) (find_pending_for_pane db))) (\<lambda>pane_pending.
     case pane_pending of
       Some pending \<Rightarrow>
         if hc_launch_token ctx \<noteq> Some (pl_token pending) then
           tx_bind (note_refusal pl (pl_token pending) ''refused launch hook: missing or wrong PIKA_LAUNCH_TOKEN'') (\<lambda>_.
           tx_return (Ignore ''missing or wrong launch token for pane''))
         else admit_token env wall p i pl ctx
     | None \<Rightarrow> admit_token env wall p i pl ctx)"

definition is_fresh_launch_start ::
  "provider \<Rightarrow> hook_payload \<Rightarrow> string option \<Rightarrow> session option \<Rightarrow> store_db \<Rightarrow> bool" where
  "is_fresh_launch_start p pl token existing db \<longleftrightarrow>
     hp_hook_event_name pl = ''SessionStart''
     \<and> (case existing of None \<Rightarrow> True
         | Some s \<Rightarrow> s_source s = ''pending-launch'' \<and> s_session_id s = hp_session_id pl)
     \<and> (case Option.bind token (get_pending db) of
          None \<Rightarrow> False
        | Some pending \<Rightarrow> pl_provider pending = p
            \<and> (case pl_expected_session_id pending of None \<Rightarrow> True | Some i \<Rightarrow> i = hp_session_id pl))"

definition initial_provider_name_output :: "provider \<Rightarrow> hook_payload \<Rightarrow> hook_context \<Rightarrow> bool \<Rightarrow> json option" where
  "initial_provider_name_output p pl ctx fresh =
     (if p \<noteq> Claude \<or> \<not> fresh \<or> hc_expected_session_id ctx \<noteq> Some (hp_session_id pl) \<or> hp_session_title pl \<noteq> None
      then None
      else map_option (\<lambda>name. J_obj [(''hookSpecificOutput'',
        J_obj [(''hookEventName'', J_str ''SessionStart''), (''sessionTitle'', J_str name)])]) (hc_desired_name ctx))"

definition initial_native_name_request ::
  "provider \<Rightarrow> hook_payload \<Rightarrow> hook_context \<Rightarrow> bool \<Rightarrow> hook_native_name_request option" where
  "initial_native_name_request p pl ctx fresh =
     (if p \<noteq> Codex \<or> \<not> fresh \<or> hp_session_title pl \<noteq> None then None
      else map_option (\<lambda>name. \<lparr> hn_provider = p, hn_session_id = hp_session_id pl, hn_name = name \<rparr>)
        (hc_desired_name ctx))"

definition update_owner :: "provider \<Rightarrow> string \<Rightarrow> hook_payload \<Rightarrow> hook_context \<Rightarrow> unit tx" where
  "update_owner p i pl ctx =
     (case hc_owner_pid ctx of
        None \<Rightarrow> tx_return ()
      | Some pid \<Rightarrow>
          if hp_hook_event_name pl = ''SessionEnd'' then
            tx_bind (tx_do (delete_live_owners_observed_through p i (Some pid) (Some (hc_owner_token ctx)) (hc_now ctx)))
              (\<lambda>_. tx_return ())
          else
            tx_bind (tx_when (p = Opencode) (tx_do (delete_other_live_owner_sessions p pid i))) (\<lambda>_.
            tx_bind (tx_try (set_live_owner
              \<lparr> lo_provider = p, lo_session_id = i, lo_pid = pid, lo_start_time = hc_owner_start_time ctx,
                lo_owner_token = hc_owner_token ctx, lo_last_seen = hc_now ctx \<rparr>)) (\<lambda>_. tx_return ())))"

section \<open>Projecting an admitted hook\<close>

definition hook_name ::
  "provider \<Rightarrow> hook_payload \<Rightarrow> hook_context \<Rightarrow> string option \<Rightarrow> session option \<Rightarrow> session option \<Rightarrow> store_db
    \<Rightarrow> string option" where
  "hook_name p pl ctx token existing placeholder db =
     (let requested = first_some (hp_desired_name pl) (hc_desired_name ctx) in
      if p = Opencode \<and> hp_hook_event_name pl = ''SessionStart'' \<and> requested \<noteq> None
         \<and> (hp_native_name_error pl \<noteq> None \<or> hp_session_title pl \<noteq> requested)
      then requested
      else first_some (hp_session_title pl)
        (first_some (if token = None then None
             else map_option pl_name (Option.bind (hc_launch_token ctx) (get_pending db)))
        (first_some (Option.bind existing s_name)
        (first_some (Option.bind placeholder s_name) (hc_desired_name ctx)))))"

text \<open>Why an unknown conversation outside every pane is not put on the board.\<close>

definition unplaced_reason ::
  "provider \<Rightarrow> hook_payload \<Rightarrow> hook_context \<Rightarrow> string option \<Rightarrow> session option \<Rightarrow> session option \<Rightarrow> string option
    \<Rightarrow> string option" where
  "unplaced_reason p pl ctx token existing placeholder name =
     (if existing = None \<and> token = None \<and> placeholder = None \<and> hc_pane_id ctx = None then
        (if p = Opencode \<and> first_some (hp_desired_name pl) (hc_desired_name ctx) = None
            \<and> (case name of None \<Rightarrow> False | Some n \<Rightarrow> opencode_placeholder_title n)
         then Some ''provider-generated placeholder title''
         else if name = None then Some ''unnamed external conversation'' else None)
      else None)"

definition hook_session ::
  "provider \<Rightarrow> string \<Rightarrow> hook_payload \<Rightarrow> hook_context \<Rightarrow> string option \<Rightarrow> session option \<Rightarrow> session option
    \<Rightarrow> string option \<Rightarrow> bool \<Rightarrow> status_projection \<Rightarrow> session" where
  "hook_session p i pl ctx token existing placeholder name session_live projection =
     (let managed = (token \<noteq> None \<or> placeholder \<noteq> None
            \<or> (case existing of None \<Rightarrow> False | Some s \<Rightarrow> s_managed s)) in
      \<lparr> s_provider = p, s_session_id = i, s_name = name,
        s_cwd = first_some (hp_cwd pl) (first_some (Option.bind existing s_cwd) (Option.bind placeholder s_cwd)),
        s_branch = Option.bind existing s_branch,
        s_transcript_path = first_some (hp_transcript_path pl) (Option.bind existing s_transcript_path),
        s_tmux_session = first_some (hc_pane_session ctx) (Option.bind existing s_tmux_session),
        s_tmux_pane = first_some (hc_pane_id ctx) (Option.bind existing s_tmux_pane),
        s_root_pid =
          (if p = Codex \<and> hc_codex_shared_owner ctx then
             Option.bind (Option.bind existing s_root_pid) (\<lambda>pid. if Some pid \<noteq> hc_owner_pid ctx then Some pid else None)
           else first_some (hc_owner_pid ctx) (Option.bind existing s_root_pid)),
        s_status = p_status projection, s_unread = p_unread projection,
        s_model = first_some (hp_model pl) (Option.bind existing s_model),
        s_source = (if managed then ''managed'' else ''external''), s_managed = managed,
        s_error = p_error projection, s_attention_reason = p_attention_reason projection,
        s_created_at = (case existing of None \<Rightarrow> hc_now ctx | Some s \<Rightarrow> s_created_at s),
        s_updated_at = hc_now ctx, s_last_event_at = p_observed_at projection, s_last_activity_at = hc_now ctx,
        s_live = session_live, s_attached = hc_pane_attached ctx, s_home_state = ''unknown'',
        s_cpu_percent = None, s_rss_kb = None, s_input_tokens = None, s_output_tokens = None,
        s_cached_input_tokens = None, s_cache_write_tokens = None, s_total_tokens = None,
        s_estimated_cost_usd = None,
        s_active_thread_id = (if hp_session_id pl \<noteq> i then Some (hp_session_id pl) else None) \<rparr>)"

definition newly_actionable :: "session option \<Rightarrow> session \<Rightarrow> bool" where
  "newly_actionable existing s \<longleftrightarrow>
     \<not> (case existing of
          None \<Rightarrow> False
        | Some before \<Rightarrow> s_unread before \<and> s_status before = s_status s
            \<and> s_attention_reason before = s_attention_reason s \<and> s_error before = s_error s)"

definition certify_hook :: "(nat \<Rightarrow> f64) \<Rightarrow> string \<Rightarrow> provider \<Rightarrow> string \<Rightarrow> hook_context \<Rightarrow> bool tx" where
  "certify_hook wall token p i ctx =
     tx_bind (tx_get (\<lambda>db. get_pending db token)) (\<lambda>pending.
     case pending of
       Some pending \<Rightarrow>
         if hc_exact_home_verified ctx \<and> pl_root_pid pending = hc_owner_pid ctx
            \<and> pl_root_pid_start pending = hc_owner_start_time ctx
         then (case (hc_owner_pid ctx, hc_owner_start_time ctx) of
             (Some pid, Some start) \<Rightarrow> tx_do (certify_launch (wall 3) token p i pid start)
           | _ \<Rightarrow> tx_return False)
         else tx_return False
     | None \<Rightarrow> tx_bind (tx_do (delete_pending token)) (\<lambda>_. tx_return False))"

definition note_attached :: "hook_env \<Rightarrow> string \<Rightarrow> provider \<Rightarrow> string \<Rightarrow> unit tx" where
  "note_attached env token p i =
     tx_bind (tx_get (\<lambda>db. get_meta db (attached_launch_key token))) (\<lambda>attached.
     tx_when (attached \<noteq> None)
       (tx_bind (tx_put (record_attach (he_store env) p i)) (\<lambda>_.
        tx_put (delete_meta (attached_launch_key token)))))"

definition finish_launch ::
  "hook_env \<Rightarrow> (nat \<Rightarrow> f64) \<Rightarrow> string option \<Rightarrow> provider \<Rightarrow> string \<Rightarrow> hook_context \<Rightarrow> bool tx" where
  "finish_launch env wall token p i ctx =
     (case token of
        None \<Rightarrow> tx_return False
      | Some t \<Rightarrow>
          tx_bind (certify_hook wall t p i ctx) (\<lambda>certified.
          tx_bind (note_attached env t p i) (\<lambda>_. tx_return certified)))"

definition hook_outcome ::
  "provider \<Rightarrow> string \<Rightarrow> hook_payload \<Rightarrow> hook_context \<Rightarrow> bool \<Rightarrow> session option \<Rightarrow> session \<Rightarrow> bool \<Rightarrow> bool \<Rightarrow> hook_result" where
  "hook_outcome p i pl ctx fresh existing s watched certified =
     \<lparr> hr_disposition = Updated, hr_provider = p, hr_session_id = Some i, hr_status = Some (s_status s),
       hr_unread = s_unread s, hr_reason = s_attention_reason s,
       hr_provider_output = initial_provider_name_output p pl ctx fresh,
       hr_tag_request =
         (if watched then map_option (\<lambda>pane. \<lparr> ht_pane_id = pane, ht_provider = p, ht_session_id = i,
            ht_name = display_name s \<rparr>) (hc_pane_id ctx) else None),
       hr_native_name_request = initial_native_name_request p pl ctx fresh,
       hr_alert =
         (if watched \<and> s_unread s \<and> newly_actionable existing s \<and> \<not> hc_pane_attached ctx
             \<and> s_status s \<in> {NeedsYou, Ready, Error}
          then Some \<lparr> ha_provider = p, ha_session_id = i, ha_name = display_name s, ha_status = s_status s,
            ha_attention_reason = s_attention_reason s \<rparr> else None),
       hr_launch_certified = certified \<rparr>"

text \<open>What is recorded for the observation, projected and stored.\<close>

definition store_observation :: "provider \<Rightarrow> string \<Rightarrow> hook_payload \<Rightarrow> hook_context \<Rightarrow> status_observation \<Rightarrow> unit tx" where
  "store_observation p i pl ctx ob =
     tx_bind (tx_try (record_status_observation p i ob)) (\<lambda>_.
     tx_when (hp_hook_event_name pl \<noteq> ''SessionEnd'')
       (tx_do (clear_status_observation_observed_through p i Runtime (hc_now ctx))))"

definition observed_fallback :: "status_observation \<Rightarrow> projection_fallback" where
  "observed_fallback ob =
     \<lparr> fb_status = o_status ob, fb_unread = o_unread ob, fb_attention_reason = o_attention_reason ob,
       fb_error = o_error ob, fb_observed_at = o_observed_at ob \<rparr>"

definition store_projection ::
  "(nat \<Rightarrow> f64) \<Rightarrow> provider \<Rightarrow> string \<Rightarrow> hook_context \<Rightarrow> session option \<Rightarrow> session \<Rightarrow> unit tx" where
  "store_projection wall p i ctx placeholder s =
     tx_bind (tx_try (upsert_session (wall 2) s True)) (\<lambda>_.
     tx_bind (case hc_owner_pid ctx of
         Some pid \<Rightarrow> tx_when (p = Codex \<and> hc_codex_shared_owner ctx) (tx_do (clear_shared_root_pid p i pid))
       | None \<Rightarrow> tx_return ()) (\<lambda>_.
     case placeholder of
       Some old \<Rightarrow> tx_when (s_session_id old \<noteq> i) (tx_do (delete_session p (s_session_id old) False))
     | None \<Rightarrow> tx_return ()))"

definition project_hook ::
  "hook_env \<Rightarrow> (nat \<Rightarrow> f64) \<Rightarrow> provider \<Rightarrow> string \<Rightarrow> hook_payload \<Rightarrow> hook_context \<Rightarrow> string option \<Rightarrow> session option
    \<Rightarrow> session option \<Rightarrow> string option \<Rightarrow> bool \<Rightarrow> bool \<Rightarrow> hook_result tx" where
  "project_hook env wall p i pl ctx token existing placeholder name fresh session_live =
     (let ob = hook_observed p pl ctx existing in
      tx_bind (store_observation p i pl ctx ob) (\<lambda>_.
      tx_bind (tx_get (\<lambda>db. project_status (status_observations db p i) session_live ''unknown''
        (observed_fallback ob))) (\<lambda>projection.
      let s = hook_session p i pl ctx token existing placeholder name session_live projection in
      tx_bind (store_projection wall p i ctx placeholder s) (\<lambda>_.
      tx_bind (tx_get (\<lambda>db. is_watched (he_store env) db p i)) (\<lambda>watched.
      tx_bind (finish_launch env wall token p i ctx) (\<lambda>certified.
      tx_return (hook_outcome p i pl ctx fresh existing s watched certified)))))))"

definition admitted_hook ::
  "hook_env \<Rightarrow> (nat \<Rightarrow> f64) \<Rightarrow> provider \<Rightarrow> string \<Rightarrow> hook_payload \<Rightarrow> hook_context \<Rightarrow> string option \<Rightarrow> session option
    \<Rightarrow> hook_result tx" where
  "admitted_hook env wall p i pl ctx token existing =
     tx_bind (tx_get (is_fresh_launch_start p pl token existing)) (\<lambda>fresh.
     tx_bind (update_owner p i pl ctx) (\<lambda>_.
     tx_bind (tx_get (\<lambda>db. hp_hook_event_name pl \<noteq> ''SessionEnd'' \<or> live_owners db p i \<noteq> [])) (\<lambda>session_live.
     if p = Opencode \<and> hp_hook_event_name pl = ''SessionHeartbeat'' then
       tx_return ((plain_result Owner_only p (Some i) None)\<lparr>
         hr_status := map_option s_status existing,
         hr_unread := (case existing of None \<Rightarrow> False | Some s \<Rightarrow> s_unread s) \<rparr>)
     else
       tx_bind (tx_get (\<lambda>db. Option.bind (hc_pane_id ctx) (\<lambda>pane. get_session db p (''unbound:'' @ pane)))) (\<lambda>placeholder.
       tx_bind (tx_get (hook_name p pl ctx token existing placeholder)) (\<lambda>name.
       case unplaced_reason p pl ctx token existing placeholder name of
         Some reason \<Rightarrow> tx_return (plain_result Owner_only p (Some i) (Some reason))
       | None \<Rightarrow> project_hook env wall p i pl ctx token existing placeholder name fresh session_live)))))"

section \<open>The whole transaction\<close>

definition known_hook ::
  "hook_env \<Rightarrow> (nat \<Rightarrow> f64) \<Rightarrow> provider \<Rightarrow> string \<Rightarrow> hook_payload \<Rightarrow> hook_context \<Rightarrow> session option \<Rightarrow> hook_result tx" where
  "known_hook env wall p i pl ctx existing =
     tx_bind (tx_get (\<lambda>db. is_untracked db p i \<or> is_untracked db p (hp_session_id pl))) (\<lambda>untracked.
     if untracked then
       tx_bind (tx_do (delete_live_owners p i None None)) (\<lambda>_.
       tx_return (ignored p (Some i) ''conversation is explicitly untracked''))
     else
       tx_bind (record_hook
         \<lparr> ho_provider = p, ho_fingerprint = hc_hook_fingerprint ctx, ho_event_name = hp_hook_event_name pl,
           ho_session_id = hp_session_id pl, ho_observed_at = hc_now ctx, ho_source = hp_source pl,
           ho_managed = (hc_launch_token ctx \<noteq> None) \<rparr>) (\<lambda>_.
       if p = Opencode \<and> hp_hook_event_name pl = ''SessionEnd'' \<and> hp_deleted pl then
         tx_bind (tx_do (delete_live_owners_observed_through p i None None (hc_now ctx))) (\<lambda>_.
         tx_bind (tx_get (\<lambda>db. live_owners db p i \<noteq> [])) (\<lambda>alive.
         if alive then tx_return (ignored p (Some i) ''stale session deletion'')
         else
           tx_bind (tx_do (delete_recovery_owner p i)) (\<lambda>_.
           tx_bind (tx_do (delete_session p i False)) (\<lambda>_.
           tx_return (plain_result Deleted p (Some i) None)))))
       else
         tx_bind (validate_launch env wall p i pl ctx) (\<lambda>decision.
         case decision of
           Ignore reason \<Rightarrow> tx_return (ignored p (Some i) reason)
         | Use token \<Rightarrow> admitted_hook env wall p i pl ctx token existing)))"

definition muse_helper :: "provider \<Rightarrow> hook_payload \<Rightarrow> hook_context \<Rightarrow> store_db \<Rightarrow> bool" where
  "muse_helper p pl ctx db \<longleftrightarrow>
     p = Muse \<and> (case Option.bind (hc_launch_token ctx) (launch_binding_of db) of
       None \<Rightarrow> False
     | Some binding \<Rightarrow> binding \<noteq> (p, hp_session_id pl))"

text \<open>The Codex conversation a child thread of the same pane and directory continues.\<close>

definition continued_parent :: "hook_env \<Rightarrow> provider \<Rightarrow> hook_payload \<Rightarrow> hook_context \<Rightarrow> store_db \<Rightarrow> session option" where
  "continued_parent env p pl ctx db =
     (case hp_parent_session_id pl of
        None \<Rightarrow> None
      | Some parent_id \<Rightarrow>
          if p = Codex \<and> get_session_by_thread db p (hp_session_id pl) = None then
            Option.bind (get_session_by_thread db p parent_id) (\<lambda>parent.
              if same_optional_path env (s_cwd parent) (hp_cwd pl) \<and> s_tmux_pane parent = hc_pane_id ctx
                 \<and> hc_pane_id ctx \<noteq> None
              then Some parent else None)
          else None)"

definition hook_transaction ::
  "hook_env \<Rightarrow> (nat \<Rightarrow> f64) \<Rightarrow> provider \<Rightarrow> hook_payload \<Rightarrow> hook_context \<Rightarrow> hook_result tx" where
  "hook_transaction env wall p pl ctx =
     (let i = hp_session_id pl in
      tx_bind (tx_get (muse_helper p pl ctx)) (\<lambda>helper.
      if helper then tx_return (ignored p (Some i) ''Muse helper cannot claim its parent's launch'')
      else
        tx_bind (tx_get (\<lambda>db. is_untracked db p i)) (\<lambda>untracked.
        if untracked then
          tx_bind (tx_do (delete_live_owners p i None None)) (\<lambda>_.
          tx_return (ignored p (Some i) ''conversation is explicitly untracked''))
        else if worker_originator env p pl ctx \<noteq> None then
          tx_bind (tx_do (delete_session p i False)) (\<lambda>_.
          tx_return (ignored p (Some i) ''subordinate automation worker''))
        else
          tx_bind (tx_get (continued_parent env p pl ctx)) (\<lambda>parent.
          case parent of
            Some parent \<Rightarrow>
              if s_status parent = Working then
                tx_bind (record_launch_conflict wall None parent p i ''multiple active Codex continuation threads''
                  (hc_now ctx)) (\<lambda>_.
                tx_return (ignored p (Some (s_session_id parent)) ''concurrent continuation''))
              else known_hook env wall p (s_session_id parent) pl ctx (Some parent)
          | None \<Rightarrow>
              tx_bind (tx_get (\<lambda>db. get_session_by_thread db p i)) (\<lambda>existing.
              known_hook env wall p (case existing of None \<Rightarrow> i | Some s \<Rightarrow> s_session_id s) pl ctx existing)))))"

definition handle_hook ::
  "hook_env \<Rightarrow> (nat \<Rightarrow> f64) \<Rightarrow> provider \<Rightarrow> hook_payload \<Rightarrow> hook_context \<Rightarrow> hook_result tx" where
  "handle_hook env wall p payload context db =
     (let pl = enrich_hook_payload env p payload; i = hp_session_id pl in
      rbind (validate_payload env p pl) (\<lambda>_.
      rbind (validate_context context) (\<lambda>_.
      if hc_ephemeral context then Inr (ignored p (Some i) ''ephemeral consultation'', db)
      else let ctx = shared_context p context in
      if hc_expected_provider ctx \<noteq> None \<and> hc_expected_provider ctx \<noteq> Some p
      then Inr (ignored p (Some i) ''inherited provider identity does not match'', db)
      else if (p = Claude \<or> p = Muse) \<and> hc_expected_session_id ctx \<noteq> None \<and> hc_expected_session_id ctx \<noteq> Some i
      then Inr (ignored p (Some i) ''inherited conversation identity does not match'', db)
      else hook_transaction env wall p pl ctx db)))"

definition hook_stdout :: "(json \<Rightarrow> string) \<Rightarrow> provider \<Rightarrow> hook_result \<Rightarrow> string" where
  "hook_stdout encode p r =
     (case hr_provider_output r of
        Some v \<Rightarrow> encode v
      | None \<Rightarrow> if p = Codex then ''{}'' else [])"

definition certify_hook_home ::
  "f64 \<Rightarrow> string \<Rightarrow> hook_tag_request \<Rightarrow> i64 \<Rightarrow> i64 \<Rightarrow> store_db \<Rightarrow> bool \<times> store_db" where
  "certify_hook_home now token tag pid start db =
     (case get_pending db token of
        None \<Rightarrow> (False, db)
      | Some pending \<Rightarrow>
          if pl_provider pending \<noteq> ht_provider tag \<or> pl_tmux_pane pending \<noteq> Some (ht_pane_id tag)
             \<or> pl_root_pid pending \<noteq> Some pid \<or> pl_root_pid_start pending \<noteq> Some start
             \<or> launch_binding_of db token \<noteq> Some (ht_provider tag, ht_session_id tag)
          then (False, db)
          else certify_launch now token (ht_provider tag) (ht_session_id tag) pid start db)"

section \<open>Process exit\<close>

fun delete_generations :: "live_owner list \<Rightarrow> bool tx" where
  "delete_generations [] = tx_return True"
| "delete_generations (r # rs) =
     tx_bind (tx_do (delete_live_owner_generation r)) (\<lambda>n. if n = 0 then tx_return False else delete_generations rs)"

definition exit_failure :: "provider \<Rightarrow> int \<Rightarrow> f64 \<Rightarrow> status_observation" where
  "exit_failure p code observed_at =
     \<lparr> o_kind = Runtime, o_status = Error, o_unread = True, o_attention_reason = Some ''exited'',
       o_error = Some (provider_as_str p @ '' exited with status '' @ signed_decimal code),
       o_observed_at = observed_at, o_source = ''process-exit'' \<rparr>"

definition exit_parked :: "f64 \<Rightarrow> status_observation" where
  "exit_parked observed_at =
     \<lparr> o_kind = Lifecycle, o_status = Parked, o_unread = False, o_attention_reason = None, o_error = None,
       o_observed_at = observed_at, o_source = ''process-exit'' \<rparr>"

definition record_exit_evidence :: "provider \<Rightarrow> string \<Rightarrow> int \<Rightarrow> f64 \<Rightarrow> session \<Rightarrow> unit tx" where
  "record_exit_evidence p i code observed_at target =
     (if code \<noteq> 0 \<and> code \<noteq> 130 then
        tx_bind (tx_try (record_status_observation p i (exit_failure p code observed_at))) (\<lambda>_. tx_return ())
      else
        tx_when (\<not> (s_unread target \<and> s_status target \<in> {Ready, NeedsYou, Error, OpenTwice}))
          (tx_bind (tx_do (clear_status_observation p i Runtime)) (\<lambda>_.
           tx_try (record_status_observation p i (exit_parked observed_at)))))"

definition exited_session :: "session \<Rightarrow> f64 \<Rightarrow> status_projection \<Rightarrow> session" where
  "exited_session target observed_at projection =
     target\<lparr> s_status := p_status projection, s_unread := p_unread projection,
             s_attention_reason := p_attention_reason projection, s_error := p_error projection,
             s_last_event_at := p_observed_at projection, s_root_pid := None, s_updated_at := observed_at,
             s_last_activity_at := observed_at \<rparr>"

definition session_fallback :: "session \<Rightarrow> projection_fallback" where
  "session_fallback s =
     \<lparr> fb_status = s_status s, fb_unread = s_unread s, fb_attention_reason = s_attention_reason s,
       fb_error = s_error s, fb_observed_at = s_last_event_at s \<rparr>"

definition settle_exit :: "(nat \<Rightarrow> f64) \<Rightarrow> provider \<Rightarrow> string \<Rightarrow> int \<Rightarrow> f64 \<Rightarrow> session \<Rightarrow> bool tx" where
  "settle_exit wall p i code observed_at target =
     tx_bind (record_exit_evidence p i code observed_at target) (\<lambda>_.
     tx_bind (tx_get (\<lambda>db. project_status (status_observations db p i) False ''unknown'' (session_fallback target)))
       (\<lambda>projection.
     tx_bind (tx_try (upsert_session (wall 2) (exited_session target observed_at projection) True)) (\<lambda>_.
     tx_bind (tx_try (clear_session_runtime p i observed_at)) (\<lambda>_.
     tx_return True))))"

definition release_exit :: "string option \<Rightarrow> provider \<Rightarrow> string \<Rightarrow> bool \<Rightarrow> unit tx" where
  "release_exit token p i recovered =
     tx_bind (tx_when recovered (tx_do (delete_recovery_owner p i))) (\<lambda>_.
     case token of
       None \<Rightarrow> tx_return ()
     | Some t \<Rightarrow> tx_bind (tx_do (delete_launch_binding_if t p i)) (\<lambda>_. tx_return ()))"

definition exit_authority :: "provider \<Rightarrow> string \<Rightarrow> string option \<Rightarrow> string option \<Rightarrow> store_db \<Rightarrow> live_owner list \<times> bool" where
  "exit_authority p i token owner_token db =
     (filter (\<lambda>r. lo_owner_token r = or_default [] owner_token) (live_owners db p i),
      case token of
        None \<Rightarrow> False
      | Some t \<Rightarrow> (case get_recovery_owner db p i of None \<Rightarrow> False | Some r \<Rightarrow> ro_launch_token r = t))"

definition exit_target :: "provider \<Rightarrow> string option \<Rightarrow> string option \<Rightarrow> store_db \<Rightarrow> session option" where
  "exit_target p session_id token db =
     (let bound = Option.bind (Option.bind token (launch_binding_of db)) (\<lambda>(q, i). if q = p then Some i else None) in
      Option.bind (first_some bound session_id) (get_session db p))"

definition bound_exit ::
  "(nat \<Rightarrow> f64) \<Rightarrow> provider \<Rightarrow> int \<Rightarrow> string option \<Rightarrow> string option \<Rightarrow> f64 \<Rightarrow> session \<Rightarrow> bool tx" where
  "bound_exit wall p code token owner_token observed_at target =
     (let i = s_session_id target in
      tx_bind (tx_get (\<lambda>db. is_untracked db p i)) (\<lambda>untracked.
      if untracked then
        tx_bind (release_exit token p i False) (\<lambda>_. tx_return False)
      else
        tx_bind (tx_get (exit_authority p i token owner_token)) (\<lambda>(matching, recovered).
        if matching = [] \<and> \<not> recovered then tx_return False
        else
          tx_bind (delete_generations matching) (\<lambda>exact.
          if \<not> exact then tx_return False
          else
            tx_bind (release_exit token p i recovered) (\<lambda>_.
            tx_bind (tx_get (\<lambda>db. live_owners db p i \<noteq> [])) (\<lambda>still_live.
            if still_live then tx_return True
            else settle_exit wall p i code observed_at target))))))"

definition handle_process_exit ::
  "hook_env \<Rightarrow> (nat \<Rightarrow> f64) \<Rightarrow> provider \<Rightarrow> int \<Rightarrow> string option \<Rightarrow> string option \<Rightarrow> string option \<Rightarrow> f64 \<Rightarrow> bool tx" where
  "handle_process_exit env wall p code session_id token owner_token observed_at =
     tx_bind (tx_get (exit_target p session_id token)) (\<lambda>target.
     case target of
       None \<Rightarrow>
         (case token of
            None \<Rightarrow> tx_return False
          | Some t \<Rightarrow>
              tx_do (record_pending_launch_exit (he_launch env) t p session_id owner_token code observed_at))
     | Some target \<Rightarrow> bound_exit wall p code token owner_token observed_at target)"

end
