(* ===== verification/Reconcile.thy ===== *)
theory Reconcile
  imports Processes Hooks "HOL-Library.Product_Lexorder"
begin

text \<open>
  Reconciliation (src/core.rs, first part, with the paired server of src/mobile_opencode.rs): from one
  complete observation of processes and panes, who owns each stored conversation, where its home is and
  whether it is open twice; the projection of that to the store in small transactions, each given up
  when anyone else committed since the observation began. What the providers' own files say is part of
  the observation \<open>scan\<close>; \<open>core_env\<close> holds the certificate files, the directories and the processes
  as they are read at the moment of use.
\<close>

section \<open>Owners of a conversation\<close>

record shared_binding =
  sb_version :: nat
  sb_token :: string
  sb_thread :: string
  sb_server_pid :: i64
  sb_server_start :: u64
  sb_native_pid :: i64
  sb_native_start :: u64
  sb_supervisor_pid :: i64
  sb_supervisor_start :: u64
  sb_port :: nat

record core_env =
  ce_store :: store_env
  ce_uuid :: "string \<Rightarrow> bool"
  ce_certificate :: "string \<Rightarrow> shared_binding option"
  ce_machine :: "i64 \<Rightarrow> process_record option"
  ce_directory :: "string \<Rightarrow> string option"

definition exact_thread :: "string \<Rightarrow> bool" where
  "exact_thread thread \<longleftrightarrow>
     starts_with ''ses_'' thread \<and> length thread \<le> 128
     \<and> list_all (\<lambda>c. is_ascii_alphanumeric c \<or> c = CHR ''_'') thread"

definition read_binding :: "core_env \<Rightarrow> string \<Rightarrow> shared_binding option" where
  "read_binding env thread =
     (if \<not> exact_thread thread then None
      else (case ce_certificate env thread of
        None \<Rightarrow> None
      | Some b \<Rightarrow> if sb_version b = 1 \<and> sb_thread b = thread \<and> sb_port b \<noteq> 0 then Some b else None))"

definition alive_generation :: "core_env \<Rightarrow> i64 \<Rightarrow> u64 \<Rightarrow> bool" where
  "alive_generation env pid start \<longleftrightarrow> map_option pr_start_time (ce_machine env pid) = Some start"

fun adjacent :: "'a \<Rightarrow> 'a \<Rightarrow> 'a list \<Rightarrow> bool" where
  "adjacent a b (x # y # rest) = (x = a \<and> y = b \<or> adjacent a b (y # rest))"
| "adjacent a b _ = False"

definition pair_processes :: "core_env \<Rightarrow> shared_binding \<Rightarrow> bool" where
  "pair_processes env b =
     (case (ce_machine env (sb_native_pid b), ce_machine env (sb_server_pid b)) of
        (Some native, Some server) \<Rightarrow>
          pr_parent_pid native = Some (sb_supervisor_pid b) \<and> pr_parent_pid server = Some (sb_supervisor_pid b)
          \<and> alive_generation env (sb_supervisor_pid b) (sb_supervisor_start b)
          \<and> pr_provider native = Some Opencode \<and> pr_provider server = Some Opencode
          \<and> adjacent ''--session'' (sb_thread b) (pr_argv native) \<and> ''serve'' \<in> set (pr_argv server)
      | _ \<Rightarrow> False)"

definition matches_owner :: "core_env \<Rightarrow> shared_binding \<Rightarrow> recovery_owner \<Rightarrow> bool" where
  "matches_owner env b owner \<longleftrightarrow>
     ro_provider owner = Opencode \<and> ro_session_id owner = sb_thread b \<and> ro_launch_token owner = sb_token b
     \<and> ro_pid owner = sb_native_pid b \<and> u64_try_from (ro_start_time owner) = Some (sb_native_start b)
     \<and> alive_generation env (sb_native_pid b) (sb_native_start b)
     \<and> alive_generation env (sb_server_pid b) (sb_server_start b) \<and> pair_processes env b"

definition paired_server :: "core_env \<Rightarrow> recovery_owner \<Rightarrow> process_record \<Rightarrow> bool" where
  "paired_server env owner server =
     (case read_binding env (ro_session_id owner) of
        None \<Rightarrow> False
      | Some b \<Rightarrow> matches_owner env b owner \<and> pr_pid server = sb_server_pid b
          \<and> pr_start_time server = sb_server_start b \<and> pr_provider server = Some Opencode)"

record identity_owners =
  io_direct :: "i64 set"
  io_leases :: "i64 set"
  io_recovery :: "recovery_owner option"

definition owner_pids :: "identity_owners \<Rightarrow> i64 set" where
  "owner_pids owners =
     io_direct owners \<union> io_leases owners \<union> (case io_recovery owners of None \<Rightarrow> {} | Some r \<Rightarrow> {ro_pid r})"

definition proves_pane :: "identity_owners \<Rightarrow> i64 \<Rightarrow> pane \<Rightarrow> bool" where
  "proves_pane owners pid pn \<longleftrightarrow>
     pid \<in> io_direct owners
     \<or> (case io_recovery owners of None \<Rightarrow> False | Some r \<Rightarrow> ro_pid r = pid \<and> pn_launch_token pn = Some (ro_launch_token r))"

definition identity_strings :: "session \<Rightarrow> string list" where
  "identity_strings s =
     s_session_id s # (case s_active_thread_id s of None \<Rightarrow> [] | Some a \<Rightarrow> if a \<noteq> s_session_id s then [a] else [])"

definition certified_pane_sibling :: "core_env \<Rightarrow> identity_owners \<Rightarrow> processes \<Rightarrow> i64 \<Rightarrow> i64 \<Rightarrow> bool" where
  "certified_pane_sibling env owners ps pid owner_pid =
     (case (io_recovery owners, map_of ps pid) of
        (Some owner, Some r) \<Rightarrow> ro_pid owner = owner_pid \<and> paired_server env owner r
      | _ \<Rightarrow> False)"

definition advisory_shared_owner ::
  "core_env \<Rightarrow> provider \<Rightarrow> i64 set \<Rightarrow> recovery_owner option \<Rightarrow> process_record option \<Rightarrow> bool" where
  "advisory_shared_owner env p direct recovery record =
     (case record of
        None \<Rightarrow> False
      | Some r \<Rightarrow>
          if p = Codex then (direct \<noteq> {} \<or> recovery \<noteq> None) \<and> shared_provider_process r p
          else if p = Opencode then (case recovery of None \<Rightarrow> False | Some owner \<Rightarrow> paired_server env owner r)
          else False)"

definition direct_owners :: "core_env \<Rightarrow> session \<Rightarrow> processes \<Rightarrow> i64 set" where
  "direct_owners env s ps =
     (\<Union>i \<in> set (identity_strings s). find_session_processes (ce_uuid env) i (s_provider s) ps)"

definition recovery_valid :: "session \<Rightarrow> processes \<Rightarrow> recovery_owner \<Rightarrow> store_db \<Rightarrow> bool" where
  "recovery_valid s ps owner db \<longleftrightarrow>
     (case map_of ps (ro_pid owner) of
        None \<Rightarrow> False
      | Some r \<Rightarrow> u64_try_from (ro_start_time owner) = Some (pr_start_time r) \<and> pr_provider r = Some (s_provider s))
     \<and> launch_binding_of db (ro_launch_token owner) = Some (s_provider s, s_session_id s)"

definition check_recovery :: "session \<Rightarrow> processes \<Rightarrow> recovery_owner option tx" where
  "check_recovery s ps =
     tx_bind (tx_get (\<lambda>db. get_recovery_owner db (s_provider s) (s_session_id s))) (\<lambda>owner.
     case owner of
       None \<Rightarrow> tx_return None
     | Some owner \<Rightarrow>
         tx_bind (tx_get (recovery_valid s ps owner)) (\<lambda>valid.
         if valid then tx_return (Some owner)
         else tx_bind (tx_do (delete_recovery_owner (s_provider s) (s_session_id s))) (\<lambda>_. tx_return None)))"

text \<open>\<open>LIVE_OWNER_LEASE_SECONDS\<close> is 300.\<close>

definition lease_seconds :: f64 where "lease_seconds = 0x4072C00000000000"

definition owner_generation_valid :: "session \<Rightarrow> processes \<Rightarrow> live_owner \<Rightarrow> bool" where
  "owner_generation_valid s ps owner =
     (case map_of ps (lo_pid owner) of
        None \<Rightarrow> False
      | Some r \<Rightarrow> pr_provider r = Some (s_provider s)
          \<and> (case lo_start_time owner of None \<Rightarrow> True | Some start \<Rightarrow> u64_try_from start = Some (pr_start_time r)))"

definition lease_expired :: "session \<Rightarrow> processes \<Rightarrow> f64 \<Rightarrow> live_owner \<Rightarrow> bool" where
  "lease_expired s ps t owner \<longleftrightarrow>
     \<not> owner_generation_valid s ps owner
     \<or> (case map_of ps (lo_pid owner) of None \<Rightarrow> False | Some r \<Rightarrow> shared_provider_process r (s_provider s))
       \<and> f64_lt lease_seconds (f64_sub t (lo_last_seen owner))"

fun check_leases ::
  "core_env \<Rightarrow> session \<Rightarrow> processes \<Rightarrow> f64 \<Rightarrow> i64 set \<Rightarrow> recovery_owner option \<Rightarrow> live_owner list \<Rightarrow> i64 set \<Rightarrow> i64 set tx"
where
  "check_leases env s ps t direct recovery [] leases = tx_return leases"
| "check_leases env s ps t direct recovery (owner # owners) leases =
     (if lease_expired s ps t owner then
        tx_bind (tx_do (delete_live_owners (lo_provider owner) (lo_session_id owner) (Some (lo_pid owner))
          (Some (lo_owner_token owner)))) (\<lambda>_. check_leases env s ps t direct recovery owners leases)
      else if \<not> advisory_shared_owner env (s_provider s) direct recovery (map_of ps (lo_pid owner)) then
        check_leases env s ps t direct recovery owners (insert (lo_pid owner) leases)
      else check_leases env s ps t direct recovery owners leases)"

text \<open>Runtime launchers are folded into the native clients they started.\<close>

definition canonical_owners :: "processes \<Rightarrow> identity_owners \<Rightarrow> identity_owners" where
  "canonical_owners ps owners =
     (let canonical = canonical_identity_pids (owner_pids owners) ps in
      \<lparr> io_direct = io_direct owners \<inter> canonical, io_leases = io_leases owners \<inter> canonical,
        io_recovery = (case io_recovery owners of
          None \<Rightarrow> None | Some r \<Rightarrow> if ro_pid r \<in> canonical then Some r else None) \<rparr>)"

definition identity_owners_of :: "core_env \<Rightarrow> session \<Rightarrow> processes \<Rightarrow> f64 \<Rightarrow> identity_owners tx" where
  "identity_owners_of env s ps t =
     (let direct = direct_owners env s ps in
      tx_bind (check_recovery s ps) (\<lambda>recovery.
      tx_bind (tx_get (\<lambda>db. live_owners db (s_provider s) (s_session_id s))) (\<lambda>owners.
      tx_bind (check_leases env s ps t direct recovery owners {}) (\<lambda>leases.
      tx_return (canonical_owners ps \<lparr> io_direct = direct, io_leases = leases, io_recovery = recovery \<rparr>)))))"
section \<open>Judging one conversation\<close>

definition tagged_panes :: "session \<Rightarrow> pane list \<Rightarrow> pane list" where
  "tagged_panes s panes =
     filter (\<lambda>pn. pn_provider pn = Some (s_provider s) \<and> pn_session_id pn = Some (s_session_id s)) panes"

definition processes_below :: "pane list \<Rightarrow> processes \<Rightarrow> i64 set" where
  "processes_below panes ps = (\<Union>pn \<in> set panes. set (process_tree (pn_pane_pid pn) ps))"

record verdict =
  v_outside :: "i64 list"
  v_safety :: "status option"
  v_exact :: "(pane \<times> i64) option"
  v_ambiguous :: bool
  v_incomplete :: bool

definition identity_selection ::
  "core_env \<Rightarrow> session \<Rightarrow> pane list \<Rightarrow> processes \<Rightarrow> identity_owners \<Rightarrow> identity_pane_selection" where
  "identity_selection env s panes ps owners =
     identity_pane_candidates_with_advisory (ce_uuid env) (tagged_panes s panes) (s_provider s) (owner_pids owners) ps
       (proves_pane owners) (certified_pane_sibling env owners ps)"

definition judge ::
  "core_env \<Rightarrow> session \<Rightarrow> pane list \<Rightarrow> processes \<Rightarrow> identity_owners \<Rightarrow> string list \<Rightarrow> verdict" where
  "judge env s panes ps owners conflicts =
     (let identities = owner_pids owners;
          outside = sorted_list_of_set (identities - processes_below (tagged_panes s panes) ps);
          selection = identity_selection env s panes ps owners;
          candidates = ip_candidates selection;
          safety = (if conflicts \<noteq> [] \<or> card identities > 1 \<or> length candidates > 1 \<or> candidates \<noteq> [] \<and> outside \<noteq> []
                    then Some OpenTwice
                    else if ip_ambiguous_provider selection \<or> ip_incomplete_root selection then Some Error
                    else None) in
      \<lparr> v_outside = outside, v_safety = safety,
        v_exact = (if safety \<noteq> None then None
          else (case candidates of
            [] \<Rightarrow> None
          | (pn, pid) # _ \<Rightarrow>
              if identities \<subseteq> set (process_tree (pn_pane_pid pn) ps) then Some (pn, pid) else None)),
        v_ambiguous = ip_ambiguous_provider selection, v_incomplete = ip_incomplete_root selection \<rparr>)"

definition home_state :: "verdict \<Rightarrow> string" where
  "home_state v =
     (if v_safety v = Some OpenTwice then ''open_twice''
      else if v_ambiguous v then ''identity_unproven''
      else if v_incomplete v then ''identity_incomplete''
      else if v_exact v \<noteq> None then ''exact''
      else if v_outside v \<noteq> [] then ''outside''
      else ''missing'')"

definition exclusive_outside_owner :: "provider \<Rightarrow> processes \<Rightarrow> i64 \<Rightarrow> bool" where
  "exclusive_outside_owner p ps pid =
     (case map_of ps pid of None \<Rightarrow> True | Some r \<Rightarrow> p \<noteq> Codex \<or> \<not> shared_provider_process r p)"

definition conflict_message :: "string list \<Rightarrow> string" where
  "conflict_message conflicts =
     (if conflicts = [] then ''the exact conversation has more than one live owner''
      else ''multiple active Codex continuation threads: ''
        @ concat (case map (char_prefix 8) conflicts of [] \<Rightarrow> [] | first # rest \<Rightarrow> first # map (\<lambda>c. '', '' @ c) rest))"

definition safety_message :: "verdict \<Rightarrow> string list \<Rightarrow> string" where
  "safety_message v conflicts =
     (if v_incomplete v then ''a tagged pane's process root was missing from the complete observation''
      else if v_ambiguous v then ''a tagged pane contains an unverified live provider process''
      else conflict_message conflicts)"

text \<open>Where the conversation runs, as far as the observation proves it.\<close>

definition located :: "verdict \<Rightarrow> pane list \<Rightarrow> processes \<Rightarrow> session \<Rightarrow> session" where
  "located v tagged ps s =
     (let s1 = s\<lparr> s_live := (v_exact v \<noteq> None \<or> v_outside v \<noteq> []),
                  s_attached := (case v_exact v of None \<Rightarrow> False | Some (pn, _) \<Rightarrow> pn_attached pn),
                  s_home_state := home_state v \<rparr> in
      case v_exact v of
        Some (pn, pid) \<Rightarrow>
          s1\<lparr> s_tmux_session := Some (pn_session_name pn), s_tmux_pane := Some (pn_pane_id pn), s_root_pid := Some pid \<rparr>
      | None \<Rightarrow>
          let s2 = s1\<lparr>s_root_pid := find (exclusive_outside_owner (s_provider s) ps) (v_outside v)\<rparr> in
          (case tagged of
             [] \<Rightarrow> s2\<lparr> s_tmux_session := None, s_tmux_pane := None \<rparr>
           | [pn] \<Rightarrow> s2\<lparr> s_tmux_session := Some (pn_session_name pn), s_tmux_pane := Some (pn_pane_id pn) \<rparr>
           | _ \<Rightarrow> s2))"

definition forget_runtime :: "verdict \<Rightarrow> pane list \<Rightarrow> processes \<Rightarrow> f64 \<Rightarrow> session \<Rightarrow> unit tx" where
  "forget_runtime v tagged ps t s =
     (if v_exact v \<noteq> None then tx_return ()
      else
        tx_bind (tx_when (find (exclusive_outside_owner (s_provider s) ps) (v_outside v) = None)
          (tx_try (clear_session_runtime (s_provider s) (s_session_id s) t))) (\<lambda>_.
        tx_when (tagged = []) (tx_try (clear_session_home (s_provider s) (s_session_id s) t))))"

definition safety_observation :: "verdict \<Rightarrow> string list \<Rightarrow> f64 \<Rightarrow> status \<Rightarrow> status_observation" where
  "safety_observation v conflicts t st =
     \<lparr> o_kind = Safety, o_status = st, o_unread = True, o_attention_reason = Some ''identity'',
       o_error = Some (safety_message v conflicts), o_observed_at = t, o_source = ''reconcile'' \<rparr>"

text \<open>The safety evidence is written or taken back; the result is what the projection reads.\<close>

definition record_safety :: "verdict \<Rightarrow> string list \<Rightarrow> f64 \<Rightarrow> session \<Rightarrow> status_observation list tx" where
  "record_safety v conflicts t s =
     tx_bind (tx_get (\<lambda>db. status_observations db (s_provider s) (s_session_id s))) (\<lambda>obs.
     let others = filter (\<lambda>ob. o_kind ob \<noteq> Safety) obs in
     case v_safety v of
       Some st \<Rightarrow>
         let ob = safety_observation v conflicts t st in
         tx_bind (tx_try (record_status_observation (s_provider s) (s_session_id s) ob)) (\<lambda>_. tx_return (others @ [ob]))
     | None \<Rightarrow>
         tx_bind (tx_do (clear_status_observation (s_provider s) (s_session_id s) Safety)) (\<lambda>_.
         tx_bind (tx_do (clear_identity_interruption (s_provider s) (s_session_id s))) (\<lambda>_. tx_return others)))"

definition projected :: "status_projection \<Rightarrow> session \<Rightarrow> session" where
  "projected pr s =
     s\<lparr> s_status := p_status pr, s_unread := p_unread pr, s_attention_reason := p_attention_reason pr,
        s_error := p_error pr, s_last_event_at := p_observed_at pr \<rparr>"

definition marked_unsafe :: "verdict \<Rightarrow> string list \<Rightarrow> session \<Rightarrow> session" where
  "marked_unsafe v conflicts s =
     (if v_safety v = Some OpenTwice
      then s\<lparr> s_attention_reason := Some ''identity'', s_error := Some (conflict_message conflicts) \<rparr>
      else if v_ambiguous v
      then s\<lparr> s_attention_reason := Some ''identity'',
              s_error := Some ''a tagged pane contains an unverified live provider process'' \<rparr>
      else if v_incomplete v
      then s\<lparr> s_attention_reason := Some ''identity'',
              s_error := Some ''a tagged pane's process root was missing from the complete observation'' \<rparr>
      else s)"

definition reconcile_one_in ::
  "core_env \<Rightarrow> pane list \<Rightarrow> processes \<Rightarrow> f64 \<Rightarrow> string list \<Rightarrow> session \<Rightarrow> session tx" where
  "reconcile_one_in env panes ps t conflicts s =
     (let tagged = tagged_panes s panes in
      tx_bind (identity_owners_of env s ps t) (\<lambda>owners.
      let v = judge env s panes ps owners conflicts; s1 = located v tagged ps s in
      tx_bind (forget_runtime v tagged ps t s) (\<lambda>_.
      tx_bind (record_safety v conflicts t s) (\<lambda>obs.
      tx_return (marked_unsafe v conflicts
        (projected (project_status obs (s_live s1) (s_home_state s1) (session_fallback s1)) s1))))))"
section \<open>What the providers say\<close>

type_synonym candidates = "((provider \<times> string) \<times> candidate) list"

text \<open>\<open>f64::max\<close>, and \<open>CONTINUATION_FRESH_SECONDS\<close>, 1800.\<close>

definition f64_fmax :: "f64 \<Rightarrow> f64 \<Rightarrow> f64" where
  "f64_fmax a b = (if f64_is_nan a then b else if f64_is_nan b then a else if f64_lt a b then b else a)"

definition continuation_fresh_seconds :: f64 where "continuation_fresh_seconds = 0x409C200000000000"

definition canonical_directory :: "core_env \<Rightarrow> string option \<Rightarrow> string option" where
  "canonical_directory env v =
     Option.bind v (\<lambda>path. if starts_with ''/'' path then ce_directory env path else None)"

definition continuation_pane :: "session \<Rightarrow> pane list \<Rightarrow> pane option" where
  "continuation_pane s panes =
     find (\<lambda>pn. pn_provider pn = Some (s_provider s) \<and> pn_session_id pn = Some (s_session_id s)
       \<or> s_tmux_pane s = Some (pn_pane_id pn) \<and> pn_provider pn = None \<and> pn_session_id pn = None) panes"

definition same_candidate_identity :: "core_env \<Rightarrow> session \<Rightarrow> candidate \<Rightarrow> bool" where
  "same_candidate_identity env s c \<longleftrightarrow>
     (case (s_name s, c_name c) of (Some l, Some r) \<Rightarrow> eq_ignore_ascii_case l r | _ \<Rightarrow> False)
     \<and> (case (s_cwd s, c_cwd c) of
          (Some l, Some r) \<Rightarrow>
            (case (canonical_directory env (Some l), canonical_directory env (Some r)) of
               (Some x, Some y) \<Rightarrow> x = y
             | _ \<Rightarrow> l = r)
        | _ \<Rightarrow> True)"

definition freshly_working :: "f64 \<Rightarrow> candidate \<Rightarrow> bool" where
  "freshly_working cutoff c \<longleftrightarrow> c_lifecycle_status c = Some Working \<and> f64_le cutoff (c_updated_at c)"

definition continues :: "core_env \<Rightarrow> session \<Rightarrow> f64 \<Rightarrow> candidate \<Rightarrow> bool" where
  "continues env s cutoff c \<longleftrightarrow>
     c_provider c = Codex
     \<and> (case c_parent_session_id c of None \<Rightarrow> False | Some parent \<Rightarrow> parent = s_session_id s \<or> parent = provider_thread_id s)
     \<and> freshly_working cutoff c \<and> same_candidate_identity env s c"

definition current_candidate :: "session \<Rightarrow> candidates \<Rightarrow> candidate option" where
  "current_candidate s cs =
     first_some (map_of cs (s_provider s, provider_thread_id s)) (map_of cs (s_provider s, s_session_id s))"

definition working_threads :: "core_env \<Rightarrow> session \<Rightarrow> candidates \<Rightarrow> f64 \<Rightarrow> (string \<times> candidate) list" where
  "working_threads env s cs cutoff =
     fold (\<lambda>c. put_key (c_session_id c) c)
       ((case current_candidate s cs of None \<Rightarrow> [] | Some c \<Rightarrow> if freshly_working cutoff c then [c] else [])
         @ filter (continues env s cutoff) (map snd cs)) []"

definition continuation_candidate ::
  "core_env \<Rightarrow> session \<Rightarrow> candidates \<Rightarrow> pane list \<Rightarrow> processes \<Rightarrow> f64 \<Rightarrow> candidate option \<times> string list" where
  "continuation_candidate env s cs panes ps t =
     (let current = current_candidate s cs in
      if s_provider s \<noteq> Codex then (current, [])
      else if (case continuation_pane s panes of
          None \<Rightarrow> True
        | Some pn \<Rightarrow> provider_process (pn_pane_pid pn) (Some Codex) ps = None) then (current, [])
      else let working = map snd (working_threads env s cs (f64_sub t continuation_fresh_seconds)) in
        if length working > 1 then
          (current, map c_session_id (sort_by (\<lambda>l r. f64_total_cmp (c_updated_at r) (c_updated_at l)) working))
        else (case working of c # _ \<Rightarrow> Some c | [] \<Rightarrow> current, []))"

definition merge_session_candidate :: "candidate \<Rightarrow> session \<Rightarrow> session" where
  "merge_session_candidate c s =
     s\<lparr> s_name := first_some (c_name c) (s_name s), s_cwd := first_some (c_cwd c) (s_cwd s),
        s_branch := first_some (c_branch c) (s_branch s),
        s_transcript_path := first_some (c_transcript_path c) (s_transcript_path s),
        s_model := first_some (c_model c) (s_model s),
        s_last_activity_at := f64_fmax (s_last_activity_at s) (c_updated_at c),
        s_live := (s_live s \<or> c_live c) \<rparr>"

definition session_from_candidate :: "candidate \<Rightarrow> session" where
  "session_from_candidate c =
     \<lparr> s_provider = c_provider c, s_session_id = c_session_id c, s_name = c_name c, s_cwd = c_cwd c,
       s_branch = c_branch c, s_transcript_path = c_transcript_path c, s_tmux_session = None,
       s_tmux_pane = None, s_root_pid = c_pid c,
       s_status = or_default (if c_live c then Ready else Parked) (c_lifecycle_status c), s_unread = False,
       s_model = c_model c, s_source = c_source c, s_managed = True, s_error = None, s_attention_reason = None,
       s_created_at = c_created_at c, s_updated_at = c_updated_at c, s_last_event_at = c_updated_at c,
       s_last_activity_at = c_updated_at c, s_live = c_live c, s_attached = False,
       s_home_state = (if c_live c then ''outside'' else ''missing''), s_cpu_percent = None, s_rss_kb = None,
       s_input_tokens = None, s_output_tokens = None, s_cached_input_tokens = None,
       s_cache_write_tokens = None, s_total_tokens = None, s_estimated_cost_usd = None,
       s_active_thread_id = None \<rparr>"

section \<open>Pending launches\<close>

definition recover_confirmed_pending :: "f64 \<Rightarrow> session \<Rightarrow> pane list \<Rightarrow> processes \<Rightarrow> bool tx" where
  "recover_confirmed_pending now s panes ps =
     (if \<not> has_exact_home s then tx_return False
      else (case find (\<lambda>pn. s_tmux_pane s = Some (pn_pane_id pn) \<and> s_tmux_session s = Some (pn_session_name pn)
          \<and> \<not> pn_dead pn \<and> pn_provider pn = Some (s_provider s) \<and> pn_session_id pn = Some (s_session_id s)) panes of
        None \<Rightarrow> tx_return False
      | Some pn \<Rightarrow>
          (case (pn_launch_token pn, Option.bind (s_root_pid s) (map_of ps)) of
             (Some token, Some owner) \<Rightarrow>
               (case i64_try_from (pr_start_time owner) of
                  None \<Rightarrow> tx_return False
                | Some start \<Rightarrow> tx_do (recover_confirmed_launch now token s (pr_pid owner) start))
           | _ \<Rightarrow> tx_return False)))"

definition overdue_message :: "bool \<Rightarrow> string" where
  "overdue_message live =
     ''Pika has not confirmed this launch. ''
     @ (if live then ''A provider process is present in this launch's exact terminal, but its conversation identity remains unconfirmed.''
        else ''Pika has not independently verified a live provider process in this launch's exact terminal.'')
     @ '' Enter checks the retained terminal if it still exists; it never starts a replacement. X hides only this entry.''"

definition session_from_pending_with_runtime :: "f64 \<Rightarrow> pending_launch \<Rightarrow> bool \<Rightarrow> session" where
  "session_from_pending_with_runtime now pl live =
     (let overdue = f64_lt 0x405E000000000000 (f64_sub now (pl_created_at pl)) in
      \<lparr> s_provider = pl_provider pl,
        s_session_id = or_default (''pending:'' @ pl_token pl) (pl_expected_session_id pl),
        s_name = Some (pl_name pl), s_cwd = Some (pl_cwd pl), s_branch = None, s_transcript_path = None,
        s_tmux_session = pl_tmux_session pl, s_tmux_pane = pl_tmux_pane pl, s_root_pid = pl_root_pid pl,
        s_status = (if overdue then Error else Starting), s_unread = False, s_model = None,
        s_source = ''pending-launch'', s_managed = True,
        s_error = (if overdue then Some (overdue_message live) else None),
        s_attention_reason = Some (if overdue then ''launch not confirmed'' else ''starting provider conversation''),
        s_created_at = pl_created_at pl, s_updated_at = pl_created_at pl, s_last_event_at = pl_created_at pl,
        s_last_activity_at = pl_created_at pl, s_live = live, s_attached = False, s_home_state = ''starting'',
        s_cpu_percent = None, s_rss_kb = None, s_input_tokens = None, s_output_tokens = None,
        s_cached_input_tokens = None, s_cache_write_tokens = None, s_total_tokens = None,
        s_estimated_cost_usd = None, s_active_thread_id = None \<rparr>)"

definition session_from_pending :: "f64 \<Rightarrow> pending_launch \<Rightarrow> session" where
  "session_from_pending now pl = session_from_pending_with_runtime now pl False"

definition pending_runtime_live :: "pane list \<Rightarrow> processes \<Rightarrow> pending_launch \<Rightarrow> bool" where
  "pending_runtime_live panes ps pl =
     (case (pl_tmux_session pl, pl_tmux_pane pl) of
        (Some session_name, Some pane_id) \<Rightarrow>
          list_ex (\<lambda>pn. pn_session_name pn = session_name \<and> pn_pane_id pn = pane_id \<and> \<not> pn_dead pn
            \<and> pn_launch_token pn = Some (pl_token pl)
            \<and> provider_process (pn_pane_pid pn) (Some (pl_provider pl)) ps \<noteq> None) panes
      | _ \<Rightarrow> False)"
section \<open>A whole reconciliation\<close>

datatype source_state = Source_present | Source_archived | Source_deleted | Source_unknown

text \<open>Who gets in between: the board that asked was closed, or another connection committed.\<close>

datatype disturbance = Fence_moved | Other_commit

datatype core_error = Fenced | Superseded | Unobserved string | Tmux_unobserved string | Core_tx hook_error

text \<open>One observation: the processes, the panes, what the providers' files say, who disturbs the \<open>n\<close>-th
  batch, the clock at each use for a conversation, and what others commit after the last batch.\<close>

record scan =
  sc_processes :: process_observation
  sc_panes :: "string + pane list"
  sc_tmux_available :: bool
  sc_source_states :: "session list \<Rightarrow> provider \<times> string \<Rightarrow> source_state option"
  sc_named :: "candidate list"
  sc_records :: "provider \<Rightarrow> (string \<times> f64) list \<Rightarrow> candidate list"
  sc_disturbed :: "nat \<Rightarrow> disturbance option"
  sc_clock :: "provider \<times> string \<Rightarrow> nat \<Rightarrow> f64"
  sc_after :: "store_db \<Rightarrow> store_db"

record inventory =
  iv_sessions :: "session list"
  iv_pending :: "pending_launch list"
  iv_pending_live :: "string set"
  iv_candidates :: candidates

text \<open>A run keeps the batches it committed when it is given up; the number counts the batches.\<close>

type_synonym 'a recon = "nat \<times> store_db \<Rightarrow> (core_error + 'a) \<times> nat \<times> store_db"

definition rc_return :: "'a \<Rightarrow> 'a recon" where
  "rc_return x = (\<lambda>w. (Inr x, w))"

definition rc_fail :: "core_error \<Rightarrow> 'a recon" where
  "rc_fail e = (\<lambda>w. (Inl e, w))"

definition rc_bind :: "'a recon \<Rightarrow> ('a \<Rightarrow> 'b recon) \<Rightarrow> 'b recon" where
  "rc_bind m f = (\<lambda>w. case m w of (Inl e, w') \<Rightarrow> (Inl e, w') | (Inr x, w') \<Rightarrow> f x w')"

definition rc_get :: "(store_db \<Rightarrow> 'a) \<Rightarrow> 'a recon" where
  "rc_get f = (\<lambda>(n, db). (Inr (f db), (n, db)))"

definition reconciled_write :: "scan \<Rightarrow> 'a tx \<Rightarrow> 'a recon" where
  "reconciled_write sc m =
     (\<lambda>(n, db). case sc_disturbed sc n of
        Some Fence_moved \<Rightarrow> (Inl Fenced, (n, db))
      | Some Other_commit \<Rightarrow> (Inl Superseded, (n, db))
      | None \<Rightarrow> (case m db of
          Inl e \<Rightarrow> (Inl (Core_tx e), (n, db))
        | Inr (x, db') \<Rightarrow> (Inr x, (Suc n, db'))))"

definition reconcile_write_batch :: nat where "reconcile_write_batch = 64"

function chunks :: "nat \<Rightarrow> 'a list \<Rightarrow> 'a list list" where
  "chunks n xs = (if xs = [] \<or> n = 0 then [] else take n xs # chunks n (drop n xs))"
  by pat_completeness auto
termination
  by (relation "measure (\<lambda>(n, xs). length xs)") auto

declare chunks.simps [simp del]

fun tx_each :: "('a \<Rightarrow> 'b tx) \<Rightarrow> 'a list \<Rightarrow> 'b list tx" where
  "tx_each f [] = tx_return []"
| "tx_each f (x # xs) = tx_bind (f x) (\<lambda>y. tx_bind (tx_each f xs) (\<lambda>ys. tx_return (y # ys)))"

fun write_batches :: "scan \<Rightarrow> ('a \<Rightarrow> 'b tx) \<Rightarrow> 'a list list \<Rightarrow> 'b list recon" where
  "write_batches sc f [] = rc_return []"
| "write_batches sc f (batch # batches) =
     rc_bind (reconciled_write sc (tx_each f batch)) (\<lambda>ys.
     rc_bind (write_batches sc f batches) (\<lambda>yss. rc_return (ys @ yss)))"

definition in_batches :: "scan \<Rightarrow> ('a \<Rightarrow> 'b tx) \<Rightarrow> 'a list \<Rightarrow> 'b list recon" where
  "in_batches sc f xs = write_batches sc f (chunks reconcile_write_batch xs)"

section \<open>Names the providers confirm\<close>

fun eligible_candidates ::
  "(provider \<times> string) set \<Rightarrow> (provider \<times> string) set \<Rightarrow> candidate list \<Rightarrow> candidate list" where
  "eligible_candidates known hidden [] = []"
| "eligible_candidates known hidden (c # cs) =
     (let key = (c_provider c, c_session_id c) in
      if (case c_name c of None \<Rightarrow> False | Some name \<Rightarrow> \<not> blank name) \<and> key \<notin> hidden \<and> key \<notin> known
      then c # eligible_candidates (insert key known) hidden cs
      else eligible_candidates known hidden cs)"

definition admit_candidate :: "core_env \<Rightarrow> scan \<Rightarrow> candidate \<Rightarrow> session option tx" where
  "admit_candidate env sc c =
     tx_bind (tx_try (watch_named_session (ce_store env) (sc_clock sc (c_provider c, c_session_id c) 4)
       (session_from_candidate c))) (\<lambda>watched.
     if watched then tx_get (\<lambda>db. get_session db (c_provider c) (c_session_id c)) else tx_return None)"

definition admit_named_candidates ::
  "core_env \<Rightarrow> scan \<Rightarrow> (provider \<times> string) set \<Rightarrow> session list \<Rightarrow> session list recon" where
  "admit_named_candidates env sc hidden stored =
     (let known = (\<Union>s \<in> set stored. (\<lambda>i. (s_provider s, i)) ` set (identity_strings s)) in
      rc_bind (in_batches sc (admit_candidate env sc) (eligible_candidates known hidden (sc_named sc))) (\<lambda>admitted.
      rc_return (stored @ List.map_filter (\<lambda>x. x) admitted)))"

section \<open>Records and forks\<close>

definition note_activity ::
  "session \<Rightarrow> (provider \<times> (string \<times> f64) list) list \<Rightarrow> (provider \<times> (string \<times> f64) list) list" where
  "note_activity s wanted =
     (let activity = or_default [] (map_of wanted (s_provider s)) in
      put_key (s_provider s)
        (fold (\<lambda>i act. put_key i (case map_of act i of None \<Rightarrow> s_last_activity_at s
             | Some v \<Rightarrow> f64_fmax v (s_last_activity_at s)) act) (identity_strings s) activity) wanted)"

definition candidate_map :: "scan \<Rightarrow> session list \<Rightarrow> candidates" where
  "candidate_map sc stored =
     fold (\<lambda>c. put_key (c_provider c, c_session_id c) c)
       (concat (map (\<lambda>(p, activity). sc_records sc p activity) (fold note_activity stored []))) []"

definition distinct_fork_name :: "candidate \<Rightarrow> session \<Rightarrow> bool" where
  "distinct_fork_name c parent \<longleftrightarrow>
     (case (c_name c, s_name parent) of (Some child, Some name) \<Rightarrow> \<not> eq_ignore_ascii_case child name | _ \<Rightarrow> False)"

definition skip_independent_codex_fork :: "candidate \<Rightarrow> session \<Rightarrow> (provider \<times> string) set \<Rightarrow> bool" where
  "skip_independent_codex_fork c parent known \<longleftrightarrow>
     \<not> distinct_fork_name c parent \<or> (Codex, c_session_id c) \<in> known \<or> s_active_thread_id parent = Some (c_session_id c)"

definition forked_in_pane :: "core_env \<Rightarrow> pane list \<Rightarrow> processes \<Rightarrow> candidate \<Rightarrow> session \<Rightarrow> bool" where
  "forked_in_pane env panes ps c parent =
     (case find (\<lambda>pn. pn_provider pn = Some Codex \<and> pn_session_id pn = Some (s_session_id parent)) panes of
        None \<Rightarrow> False
      | Some pn \<Rightarrow>
          find_session_processes (ce_uuid env) (c_session_id c) Codex ps \<inter> set (process_tree (pn_pane_pid pn) ps) \<noteq> {})"

fun update_first :: "('a \<Rightarrow> bool) \<Rightarrow> ('a \<Rightarrow> 'a) \<Rightarrow> 'a list \<Rightarrow> 'a list" where
  "update_first P f [] = []"
| "update_first P f (x # xs) = (if P x then f x # xs else x # update_first P f xs)"

definition parent_of_fork :: "string \<Rightarrow> session \<Rightarrow> bool" where
  "parent_of_fork parent_id s \<longleftrightarrow>
     s_provider s = Codex \<and> (s_session_id s = parent_id \<or> s_active_thread_id s = Some parent_id)"

definition import_fork ::
  "core_env \<Rightarrow> pane list \<Rightarrow> processes \<Rightarrow> (provider \<times> string) set \<Rightarrow> candidate \<Rightarrow> session list \<times> session list
    \<Rightarrow> session list \<times> session list" where
  "import_fork env panes ps known c = (\<lambda>(stored, forks).
     case c_parent_session_id c of
       None \<Rightarrow> (stored, forks)
     | Some parent_id \<Rightarrow>
         (case find (parent_of_fork parent_id) stored of
            None \<Rightarrow> (stored, forks)
          | Some parent \<Rightarrow>
              if skip_independent_codex_fork c parent known then (stored, forks)
              else if forked_in_pane env panes ps c parent then
                (update_first (parent_of_fork parent_id)
                   (\<lambda>s. merge_session_candidate c (s\<lparr>s_active_thread_id := Some (c_session_id c)\<rparr>)) stored, forks)
              else (stored, forks @ [(session_from_candidate c)\<lparr>s_managed := False\<rparr>])))"

section \<open>The run\<close>

definition removed_by_provider ::
  "(provider \<times> string) set \<Rightarrow> (provider \<times> string \<Rightarrow> source_state option) \<Rightarrow> session \<Rightarrow> bool" where
  "removed_by_provider hidden states s \<longleftrightarrow>
     s_identity s \<in> hidden \<and> states (s_identity s) \<noteq> Some Source_present
     \<or> states (s_identity s) \<in> {Some Source_archived, Some Source_deleted}"

definition hidden_reason :: "source_state option \<Rightarrow> string" where
  "hidden_reason st =
     (case st of Some Source_archived \<Rightarrow> ''archived'' | Some Source_deleted \<Rightarrow> ''deleted'' | _ \<Rightarrow> ''source-unavailable'')"

definition candidate_observation :: "pane list \<Rightarrow> session \<Rightarrow> candidate \<Rightarrow> status \<Rightarrow> status_observation" where
  "candidate_observation panes s c st =
     (let attached = list_ex (\<lambda>pn. pn_attached pn \<and> pn_provider pn = Some (s_provider s)
        \<and> pn_session_id pn = Some (s_session_id s)) panes in
      \<lparr> o_kind = Lifecycle, o_status = st,
        o_unread = (st = Ready \<and> f64_lt (s_last_event_at s) (c_updated_at c) \<and> \<not> attached),
        o_attention_reason = (if st = Ready then Some ''completed'' else None), o_error = None,
        o_observed_at = f64_fmax (c_updated_at c) (s_last_activity_at s), o_source = c_source c \<rparr>)"

definition merge_continuation :: "candidate option \<Rightarrow> session \<Rightarrow> session" where
  "merge_continuation c s =
     (case c of
        None \<Rightarrow> s
      | Some c \<Rightarrow> merge_session_candidate c
          (if c_session_id c \<noteq> s_session_id s then s\<lparr>s_active_thread_id := Some (c_session_id c)\<rparr> else s))"

definition project_stored ::
  "core_env \<Rightarrow> scan \<Rightarrow> pane list \<Rightarrow> processes \<Rightarrow> candidates \<Rightarrow> session \<Rightarrow> session tx" where
  "project_stored env sc panes ps cs s =
     (let t = sc_clock sc (s_identity s);
          (c, conflicts) = continuation_candidate env s cs panes ps (t 0);
          s1 = merge_continuation c s in
      tx_bind (case Option.bind c (\<lambda>c. map_option (candidate_observation panes s1 c) (c_lifecycle_status c)) of
          None \<Rightarrow> tx_return ()
        | Some ob \<Rightarrow> tx_bind (tx_try (record_status_observation (s_provider s) (s_session_id s) ob)) (\<lambda>_. tx_return ())) (\<lambda>_.
      tx_bind (reconcile_one_in env panes ps (t 1) conflicts s1) (\<lambda>s2.
      tx_bind (recover_confirmed_pending (t 2) s2 panes ps) (\<lambda>_.
      tx_bind (tx_try (upsert_session (t 3) s2 False)) (\<lambda>_. tx_return s2)))))"

definition with_runtime :: "session list \<Rightarrow> session \<Rightarrow> session" where
  "with_runtime rows s =
     (case find (\<lambda>r. s_identity r = s_identity s) (rev rows) of
        None \<Rightarrow> s
      | Some r \<Rightarrow> s\<lparr> s_live := s_live r, s_attached := s_attached r, s_home_state := s_home_state r,
          s_cpu_percent := s_cpu_percent r, s_rss_kb := s_rss_kb r \<rparr>)"

definition taken_inventory ::
  "core_env \<Rightarrow> pane list \<Rightarrow> processes \<Rightarrow> candidates \<Rightarrow> session list \<Rightarrow> store_db \<Rightarrow> inventory" where
  "taken_inventory env panes ps cs rows db =
     \<lparr> iv_sessions = map (with_runtime rows) (list_sessions (ce_store env) db),
       iv_pending = list_visible_pending db,
       iv_pending_live = pl_token ` {pl \<in> set (list_visible_pending db). pending_runtime_live panes ps pl},
       iv_candidates = cs \<rparr>"

definition reconcile_observed ::
  "core_env \<Rightarrow> scan \<Rightarrow> processes \<Rightarrow> pane list \<Rightarrow> session list \<Rightarrow> session list \<Rightarrow> inventory recon" where
  "reconcile_observed env sc ps panes listed hidden_sessions =
     (let hidden = s_identity ` set hidden_sessions;
          states = sc_source_states sc (listed @ hidden_sessions);
          removed = filter (removed_by_provider hidden states) (listed @ hidden_sessions);
          kept = filter (\<lambda>s. s_identity s \<notin> s_identity ` set removed) (listed @ hidden_sessions) in
      rc_bind (admit_named_candidates env sc hidden kept) (\<lambda>stored.
      let cs = candidate_map sc stored;
          (stored, forks) = fold (import_fork env panes ps (s_identity ` set stored)) (map snd cs) (stored, []) in
      rc_bind (in_batches sc (\<lambda>s. tx_put (hide_provider_session (sc_clock sc (s_identity s) 5) (s_provider s)
        (s_session_id s) (hidden_reason (states (s_identity s))))) removed) (\<lambda>_.
      rc_bind (in_batches sc (\<lambda>s. tx_do (restore_provider_session (s_provider s) (s_session_id s)))
        (filter (\<lambda>s. s_identity s \<in> hidden \<and> states (s_identity s) = Some Source_present) stored)) (\<lambda>_.
      rc_bind (in_batches sc (project_stored env sc panes ps cs) stored) (\<lambda>rows.
      rc_bind (in_batches sc (\<lambda>s. tx_try (upsert_session (sc_clock sc (s_identity s) 6) s False)) forks) (\<lambda>_.
      rc_get (\<lambda>db. taken_inventory env panes ps cs rows (sc_after sc db))))))))"

definition reconcile_local :: "core_env \<Rightarrow> scan \<Rightarrow> store_db \<Rightarrow> (core_error + inventory) \<times> store_db" where
  "reconcile_local env sc db =
     (let (result, (n, db')) =
        (case require_complete ''reconcile ownership'' (sc_processes sc) of
           Inl msg \<Rightarrow> (Inl (Unobserved msg), (0, db))
         | Inr ps \<Rightarrow>
             (case sc_panes sc of
                Inl err \<Rightarrow>
                  if sc_tmux_available sc then (Inl (Tmux_unobserved err), (0, db))
                  else reconcile_observed env sc ps [] (list_sessions (ce_store env) db) (list_provider_hidden_sessions db) (0, db)
              | Inr panes \<Rightarrow>
                  reconcile_observed env sc ps panes (list_sessions (ce_store env) db) (list_provider_hidden_sessions db) (0, db)))
      in (result, db'))"

end
