(* ===== verification/Opening.thy ===== *)
theory Opening
  imports Reconcile
begin

text \<open>
  Acting on a conversation (src/core.rs, with the pane operations of src/tmux.rs), first part: the
  world such an action runs in, what it reads and commands, the exact binding of a pane to a
  conversation and its revalidation, and the weaker binding of an unverified terminal.

  An action takes steps. At each step it reads the processes, the panes, one process or the clock, runs
  one operation of the store, or gives tmux one command; \<open>outside\<close> says what it finds there, and what
  other connections committed to the store before. \<open>wo_past\<close> and \<open>wo_log\<close> are a ghost history: the
  store at every earlier step, and the commands with the step they were given at.
\<close>

section \<open>The world\<close>

text \<open>Commands of tmux that act; the condition on the pane's generation and tags is checked by the
  server in the same queue, so an answer without error means it held.\<close>

datatype tmux_command =
    New_session string string
  | Configure pane
  | Tag_pane pane provider "string option" string string
  | Untag_pane pane
  | Respawn pane string provider "string list" "string option" string
  | Attach pane "string option"
  | Attach_unverified pane
  | Terminate i64 u64

record shared_recovery =
  sr_provider :: provider
  sr_session_id :: string
  sr_owners :: "live_owner list"

datatype refusal =
    Unobservable string
  | Tmux_failed string
  | Store_refused store_error
  | Ownership_refused hook_error
  | Panes_found nat
  | Owned_twice "i64 list"
  | Pane_root_unverified
  | Unverified_rival provider
  | Other_pane string
  | Root_disappeared
  | Root_changed
  | Provider_changed
  | Ignored_pane_gone
  | Ignored_pane_changed
  | Ignored_root_gone
  | Ignored_root_changed
  | Ignored_pane_live provider
  | Provider_outside
  | Provider_disappeared
  | Ancestry_changed string
  | Pane_gone
  | Pane_changed
  | Certificate_changed
  | Capture_changed
  | Handoff_changed
  | Other_refusal string
  | Panicked string

datatype open_error =
    Refused refusal
  | Not_found string
  | Ambiguous "session list"
  | Outside_live "i64 list"
  | Shared_owner_confirmation shared_recovery
  | Identity_unproven
  | Identity_open_twice
  | Reconcile_failed core_error

datatype source_availability =
  Source_available | Source_unavailable | Source_is_archived | Source_is_deleted | Requires_reconciliation

datatype receipt_delivery = Tmux_client | Invoking_terminal | Delivery_failed

text \<open>How an attachment went: refused before a client was there; a client of tmux that ended with this
  code without the hand-over; or a hand-over, after which the receipt is delivered and the client
  ends with this code.\<close>

datatype attachment = Attach_failed string | Not_attached int | Handed_over int receipt_delivery

record outside =
  ou_processes :: "nat \<Rightarrow> process_observation"
  ou_panes :: "nat \<Rightarrow> string + pane list"
  ou_process :: "nat \<Rightarrow> i64 \<Rightarrow> process_record option"
  ou_clock :: "nat \<Rightarrow> f64"
  ou_others :: "nat \<Rightarrow> store_db \<Rightarrow> store_db"
  ou_reply :: "nat \<Rightarrow> tmux_command \<Rightarrow> string option"
  ou_attached :: "nat \<Rightarrow> pane \<Rightarrow> attachment"
  ou_output :: "nat \<Rightarrow> string \<Rightarrow> string + string"
  ou_scan :: "nat \<Rightarrow> scan"
  ou_source :: "nat \<Rightarrow> session \<Rightarrow> source_availability"
  ou_browse :: "nat \<Rightarrow> provider \<Rightarrow> string list"
  ou_found :: "nat \<Rightarrow> provider \<Rightarrow> string \<Rightarrow> candidate list"
  ou_is_directory :: "nat \<Rightarrow> string \<Rightarrow> bool"
  ou_uuid :: "nat \<Rightarrow> string"
  ou_deadline :: "nat \<Rightarrow> nat"
  ou_current_exe :: "nat \<Rightarrow> string option"

record world =
  wo_past :: "store_db list"
  wo_db :: store_db
  wo_log :: "(nat \<times> tmux_command) list"

definition wo_step :: "world \<Rightarrow> nat" where
  "wo_step w = length (wo_past w)"

definition passed :: "outside \<Rightarrow> world \<Rightarrow> world" where
  "passed ou w = w\<lparr>wo_past := wo_past w @ [wo_db w], wo_db := ou_others ou (wo_step w) (wo_db w)\<rparr>"

type_synonym 'a act = "world \<Rightarrow> (open_error + 'a) \<times> world"

definition act_return :: "'a \<Rightarrow> 'a act" where
  "act_return x = (\<lambda>w. (Inr x, w))"

definition act_fail :: "open_error \<Rightarrow> 'a act" where
  "act_fail e = (\<lambda>w. (Inl e, w))"

definition act_bind :: "'a act \<Rightarrow> ('a \<Rightarrow> 'b act) \<Rightarrow> 'b act" where
  "act_bind m f = (\<lambda>w. case m w of (Inl e, w') \<Rightarrow> (Inl e, w') | (Inr x, w') \<Rightarrow> f x w')"

definition act_then :: "'a act \<Rightarrow> 'b act \<Rightarrow> 'b act" where
  "act_then m k = act_bind m (\<lambda>_. k)"

definition act_when :: "bool \<Rightarrow> unit act \<Rightarrow> unit act" where
  "act_when b m = (if b then m else act_return ())"

definition require :: "bool \<Rightarrow> refusal \<Rightarrow> unit act" where
  "require b r = (if b then act_return () else act_fail (Refused r))"

definition required :: "'a option \<Rightarrow> refusal \<Rightarrow> 'a act" where
  "required v r = (case v of None \<Rightarrow> act_fail (Refused r) | Some x \<Rightarrow> act_return x)"

definition reading :: "outside \<Rightarrow> (nat \<Rightarrow> 'a) \<Rightarrow> 'a act" where
  "reading ou f = (\<lambda>w. (Inr (f (wo_step w)), passed ou w))"

text \<open>An operation of the store, on what the others left; its error rolls it back. That SQLite itself fails, a
  full disk or a lock that is not released, is not modelled.\<close>

definition storing :: "outside \<Rightarrow> (store_db \<Rightarrow> 'a \<times> store_db) \<Rightarrow> 'a act" where
  "storing ou f = (\<lambda>w. let w1 = passed ou w; (x, db) = f (wo_db w1) in (Inr x, w1\<lparr>wo_db := db\<rparr>))"

definition looking :: "outside \<Rightarrow> (store_db \<Rightarrow> 'a) \<Rightarrow> 'a act" where
  "looking ou f = storing ou (\<lambda>db. (f db, db))"

definition trying :: "outside \<Rightarrow> (store_db \<Rightarrow> store_error + 'a \<times> store_db) \<Rightarrow> 'a act" where
  "trying ou f = (\<lambda>w. let w1 = passed ou w in
     case f (wo_db w1) of
       Inl e \<Rightarrow> (Inl (Refused (Store_refused e)), w1)
     | Inr (x, db) \<Rightarrow> (Inr x, w1\<lparr>wo_db := db\<rparr>))"

definition transacting :: "outside \<Rightarrow> 'a tx \<Rightarrow> 'a act" where
  "transacting ou m = (\<lambda>w. let w1 = passed ou w in
     case m (wo_db w1) of
       Inl e \<Rightarrow> (Inl (Refused (Ownership_refused e)), w1)
     | Inr (x, db) \<Rightarrow> (Inr x, w1\<lparr>wo_db := db\<rparr>))"

definition commanding :: "outside \<Rightarrow> tmux_command \<Rightarrow> unit act" where
  "commanding ou c = (\<lambda>w. let w1 = (passed ou w)\<lparr>wo_log := wo_log w @ [(wo_step w, c)]\<rparr> in
     case ou_reply ou (wo_step w) c of
       None \<Rightarrow> (Inr (), w1)
     | Some err \<Rightarrow> (Inl (Refused (Tmux_failed err)), w1))"

section \<open>Readings\<close>

definition clock :: "outside \<Rightarrow> f64 act" where "clock ou = reading ou (ou_clock ou)"

definition observe_complete :: "outside \<Rightarrow> string \<Rightarrow> processes act" where
  "observe_complete ou operation =
     act_bind (reading ou (ou_processes ou)) (\<lambda>ob.
     case require_complete operation ob of
       Inl msg \<Rightarrow> act_fail (Refused (Unobservable msg))
     | Inr ps \<Rightarrow> act_return ps)"

definition list_panes :: "outside \<Rightarrow> pane list act" where
  "list_panes ou =
     act_bind (reading ou (ou_panes ou)) (\<lambda>r.
     case r of Inl err \<Rightarrow> act_fail (Refused (Tmux_failed err)) | Inr panes \<Rightarrow> act_return panes)"

definition names_pane :: "string \<Rightarrow> pane \<Rightarrow> bool" where
  "names_pane target pn \<longleftrightarrow>
     target = pn_pane_id pn \<or> target = pn_session_name pn \<or> target = pn_session_name pn @ '':'' @ pn_pane_id pn"

definition get_pane :: "outside \<Rightarrow> string \<Rightarrow> pane option act" where
  "get_pane ou target = act_bind (list_panes ou) (\<lambda>panes. act_return (find (names_pane target) panes))"

definition process_now :: "outside \<Rightarrow> i64 \<Rightarrow> process_record option act" where
  "process_now ou pid = reading ou (\<lambda>n. ou_process ou n pid)"

fun revalidate_each :: "outside \<Rightarrow> process_generation \<Rightarrow> process_record list \<Rightarrow> unit act" where
  "revalidate_each ou root [] = act_return ()"
| "revalidate_each ou root (expected # path) =
     act_bind (process_now ou (pr_pid expected)) (\<lambda>current.
     case revalidate_path root (\<lambda>_. current) [expected] of
       Inl msg \<Rightarrow> act_fail (Refused (Ancestry_changed msg))
     | Inr _ \<Rightarrow> revalidate_each ou root path)"

definition revalidate_ancestry ::
  "outside \<Rightarrow> process_generation \<Rightarrow> process_generation \<Rightarrow> processes \<Rightarrow> unit act" where
  "revalidate_ancestry ou root descendant ps =
     (case ancestry_path root descendant ps of
        None \<Rightarrow> act_fail (Refused (Ancestry_changed
          ''the provider is no longer descended from the exact pane generation''))
      | Some path \<Rightarrow> revalidate_each ou root path)"

section \<open>The exact binding of a pane\<close>

record exact_binding =
  eb_pane :: pane
  eb_pane_start :: u64
  eb_provider_pid :: i64
  eb_provider_start :: u64
  eb_launcher :: "process_generation option"

definition same_pane_generation :: "pane \<Rightarrow> pane \<Rightarrow> bool" where
  "same_pane_generation l r \<longleftrightarrow>
     pn_pane_id l = pn_pane_id r \<and> pn_session_name l = pn_session_name r \<and> pn_pane_pid l = pn_pane_pid r
     \<and> f64_eq (pn_created l) (pn_created r)"

definition same_exact_binding :: "exact_binding \<Rightarrow> exact_binding \<Rightarrow> bool" where
  "same_exact_binding l r \<longleftrightarrow>
     same_pane_generation (eb_pane l) (eb_pane r) \<and> eb_pane_start l = eb_pane_start r
     \<and> eb_provider_pid l = eb_provider_pid r \<and> eb_provider_start l = eb_provider_start r"

definition same_handoff_binding :: "exact_binding \<Rightarrow> exact_binding \<Rightarrow> bool" where
  "same_handoff_binding expected current \<longleftrightarrow>
     same_pane_generation (eb_pane expected) (eb_pane current) \<and> eb_pane_start expected = eb_pane_start current
     \<and> pn_provider (eb_pane expected) = pn_provider (eb_pane current)
     \<and> pn_session_id (eb_pane expected) = pn_session_id (eb_pane current)
     \<and> pn_launch_token (eb_pane expected) = pn_launch_token (eb_pane current)
     \<and> (same_exact_binding expected current
        \<or> eb_launcher current = Some \<lparr> pg_pid = eb_provider_pid expected, pg_start_time = eb_provider_start expected \<rparr>)"

text \<open>The pane read again is the tagged pane it was.\<close>

definition still_tagged :: "session \<Rightarrow> pane \<Rightarrow> pane \<Rightarrow> bool" where
  "still_tagged s old fresh \<longleftrightarrow>
     same_pane_generation old fresh \<and> pn_provider fresh = Some (s_provider s)
     \<and> pn_session_id fresh = Some (s_session_id s) \<and> pn_launch_token fresh = pn_launch_token old"

definition recheck_pane :: "outside \<Rightarrow> session \<Rightarrow> processes \<Rightarrow> processes \<Rightarrow> pane \<Rightarrow> unit act" where
  "recheck_pane ou s ps now_ps skipped =
     act_bind (get_pane ou (pn_pane_id skipped)) (\<lambda>found.
     act_bind (required found Ignored_pane_gone) (\<lambda>fresh.
     act_then (require (still_tagged s skipped fresh) Ignored_pane_changed) (
     act_bind (required (map_option generation (map_of now_ps (pn_pane_pid fresh))) Ignored_root_gone) (\<lambda>fresh_root.
     act_bind (required (map_option generation (map_of ps (pn_pane_pid skipped))) Ignored_root_gone) (\<lambda>old_root.
     act_then (require (fresh_root = old_root) Ignored_root_changed) (
     require (list_all (\<lambda>pid. provider_at now_ps pid \<noteq> Some (s_provider s)) (process_tree_generation fresh_root now_ps))
       (Ignored_pane_live (s_provider s))))))))"

fun recheck_panes :: "outside \<Rightarrow> session \<Rightarrow> processes \<Rightarrow> processes \<Rightarrow> pane list \<Rightarrow> unit act" where
  "recheck_panes ou s ps now_ps [] = act_return ()"
| "recheck_panes ou s ps now_ps (pn # panes) =
     act_then (recheck_pane ou s ps now_ps pn) (recheck_panes ou s ps now_ps panes)"

definition recheck_ignored :: "outside \<Rightarrow> session \<Rightarrow> processes \<Rightarrow> pane list \<Rightarrow> i64 \<Rightarrow> unit act" where
  "recheck_ignored ou s ps others pid =
     (if others = [] then act_return ()
      else act_bind (observe_complete ou ''recheck ignored tagged panes before an exact action'') (\<lambda>now_ps.
        act_then (require (map_option generation (map_of now_ps pid) = map_option generation (map_of ps pid))
          Provider_changed)
        (recheck_panes ou s ps now_ps others)))"

text \<open>The certificate of a provider whose arguments do not name the conversation is read again. The code
  expects one to be there and panics otherwise.\<close>

definition recheck_certificate :: "outside \<Rightarrow> session \<Rightarrow> identity_owners \<Rightarrow> i64 \<Rightarrow> unit act" where
  "recheck_certificate ou s owners pid =
     (if pid \<in> io_direct owners then act_return ()
      else (case io_recovery owners of
        None \<Rightarrow> act_fail (Refused (Panicked ''certified pane proof''))
      | Some before \<Rightarrow>
          act_bind (looking ou (\<lambda>db. get_recovery_owner db (s_provider s) (s_session_id s))) (\<lambda>current.
          if (case current of
                None \<Rightarrow> False
              | Some owner \<Rightarrow> ro_pid owner = ro_pid before \<and> ro_start_time owner = ro_start_time before
                  \<and> ro_launch_token owner = ro_launch_token before)
          then act_bind (looking ou (\<lambda>db. launch_binding_of db (ro_launch_token before))) (\<lambda>b.
            require (b = Some (s_provider s, s_session_id s)) Certificate_changed)
          else act_fail (Refused Certificate_changed))))"

definition bind_candidate ::
  "outside \<Rightarrow> session \<Rightarrow> processes \<Rightarrow> pane list \<Rightarrow> identity_owners \<Rightarrow> pane \<Rightarrow> i64 \<Rightarrow> exact_binding act" where
  "bind_candidate ou s ps tagged owners pn pid =
     act_bind (required (map_option generation (map_of ps (pn_pane_pid pn))) Root_disappeared) (\<lambda>root.
     act_bind (process_now ou (pn_pane_pid pn)) (\<lambda>current.
     act_then (require (map_option generation current = Some root) Root_changed) (
     act_then (recheck_ignored ou s ps (filter (\<lambda>other. pn_pane_id other \<noteq> pn_pane_id pn) tagged) pid) (
     act_then (require (pid \<in> set (process_tree_generation root ps)) Provider_outside) (
     act_bind (required (map_of ps pid) Provider_disappeared) (\<lambda>r.
     let provider_generation = \<lparr> pg_pid = pid, pg_start_time = pr_start_time r \<rparr> in
     act_then (revalidate_ancestry ou root provider_generation ps) (
     act_bind (get_pane ou (pn_pane_id pn)) (\<lambda>found.
     act_bind (required found Pane_gone) (\<lambda>fresh.
     act_then (require (still_tagged s pn fresh) Pane_changed) (
     act_then (revalidate_ancestry ou root provider_generation ps) (
     act_then (recheck_certificate ou s owners pid) (
     act_return \<lparr> eb_pane = fresh, eb_pane_start = pg_start_time root, eb_provider_pid = pid,
       eb_provider_start = pr_start_time r, eb_launcher = runtime_launcher_generation pid ps \<rparr>))))))))))))"

definition exact_pane_binding :: "core_env \<Rightarrow> outside \<Rightarrow> session \<Rightarrow> string option \<Rightarrow> exact_binding act" where
  "exact_pane_binding env ou s expected =
     act_bind (observe_complete ou ''verify the exact pane'') (\<lambda>ps.
     act_bind (list_panes ou) (\<lambda>panes.
     act_then (require (tagged_panes s panes \<noteq> []) (Panes_found 0)) (
     act_bind (clock ou) (\<lambda>t.
     act_bind (transacting ou (identity_owners_of env s ps t)) (\<lambda>owners.
     act_then (require (card (owner_pids owners) \<le> 1) (Owned_twice (sorted_list_of_set (owner_pids owners)))) (
     let sel = identity_selection env s panes ps owners in
     act_then (require (\<not> ip_incomplete_root sel) Pane_root_unverified) (
     act_then (require (\<not> ip_ambiguous_provider sel) (Unverified_rival (s_provider s))) (
     case ip_candidates sel of
       [(pn, pid)] \<Rightarrow>
         act_then (require (expected = None \<or> expected = Some (pn_pane_id pn)) (Other_pane (or_default [] expected)))
           (bind_candidate ou s ps (tagged_panes s panes) owners pn pid)
     | cs \<Rightarrow> act_fail (Refused (Panes_found (length cs)))))))))))"
section \<open>What tmux is told\<close>

definition is_pika_session :: "string \<Rightarrow> bool" where
  "is_pika_session name \<longleftrightarrow>
     starts_with ''pika-c-'' name \<or> starts_with ''pika-a-'' name \<or> starts_with ''pika-o-'' name
     \<or> starts_with ''pika-m-'' name"

definition internal_name :: "provider \<Rightarrow> string \<Rightarrow> string" where
  "internal_name p identity =
     ''pika-'' @ (case p of Codex \<Rightarrow> ''c'' | Claude \<Rightarrow> ''a'' | Opencode \<Rightarrow> ''o'' | Muse \<Rightarrow> ''m'') @ ''-''
       @ concat (take 10 (filter (\<lambda>c. c \<noteq> ''-'') (utf8_chars identity)))"

definition configure_exact_home :: "outside \<Rightarrow> pane \<Rightarrow> unit act" where
  "configure_exact_home ou pn =
     act_then (require (is_pika_session (pn_session_name pn))
       (Other_refusal ''Pika will not configure a user-owned tmux pane'')) (commanding ou (Configure pn))"

definition create_holding_session :: "outside \<Rightarrow> string \<Rightarrow> string \<Rightarrow> pane act" where
  "create_holding_session ou name cwd =
     act_then (commanding ou (New_session name cwd)) (
     act_bind (get_pane ou name) (\<lambda>found. required found (Other_refusal ''tmux holding pane disappeared'')))"

definition prepared_as ::
  "pane \<Rightarrow> provider \<Rightarrow> string option \<Rightarrow> string \<Rightarrow> string \<Rightarrow> pane \<Rightarrow> bool" where
  "prepared_as expected p session_id name token current \<longleftrightarrow>
     pn_session_name current = pn_session_name expected \<and> pn_pane_pid current = pn_pane_pid expected
     \<and> f64_eq (pn_created current) (pn_created expected)
     \<and> pn_current_command current = pn_current_command expected \<and> pn_provider current = Some p
     \<and> pn_session_id current = session_id \<and> pn_name current = Some name \<and> pn_launch_token current = Some token"

definition require_prepared_pane ::
  "outside \<Rightarrow> pane \<Rightarrow> provider \<Rightarrow> string option \<Rightarrow> string \<Rightarrow> string \<Rightarrow> pane act" where
  "require_prepared_pane ou expected p session_id name token =
     act_bind (get_pane ou (pn_pane_id expected)) (\<lambda>found.
     act_bind (required found (Other_refusal ''tmux pane disappeared before provider execution'')) (\<lambda>current.
     act_then (require (prepared_as expected p session_id name token current)
       (Other_refusal ''tmux pane generation or exact launch reservation changed; provider was not started''))
     (act_return current)))"

definition prepare_agent_pane ::
  "outside \<Rightarrow> pane \<Rightarrow> provider \<Rightarrow> string option \<Rightarrow> string \<Rightarrow> string \<Rightarrow> pane act" where
  "prepare_agent_pane ou pn p session_id name token =
     act_bind (get_pane ou (pn_pane_id pn)) (\<lambda>found.
     act_bind (required found (Other_refusal ''tmux pane disappeared before launch reservation'')) (\<lambda>fresh.
     act_then (require (pn_session_name fresh = pn_session_name pn \<and> pn_pane_pid fresh = pn_pane_pid pn
         \<and> f64_eq (pn_created fresh) (pn_created pn))
       (Other_refusal ''tmux pane generation changed before launch reservation'')) (
     act_then (commanding ou (Tag_pane fresh p session_id name token))
       (require_prepared_pane ou fresh p session_id name token))))"

definition start_prepared_agent ::
  "outside \<Rightarrow> pane \<Rightarrow> string \<Rightarrow> provider \<Rightarrow> string list \<Rightarrow> string option \<Rightarrow> string \<Rightarrow> string \<Rightarrow> pane act" where
  "start_prepared_agent ou pn cwd p argv session_id name token =
     act_bind (require_prepared_pane ou pn p session_id name token) (\<lambda>reserved.
     act_bind (reading ou (ou_current_exe ou)) (\<lambda>exe.
     act_then (require (exe \<noteq> None) (Other_refusal ''no current executable'')) (
     act_then (commanding ou (Respawn reserved cwd p argv session_id token)) (
     act_bind (get_pane ou (pn_pane_id reserved)) (\<lambda>found.
     act_bind (required found (Other_refusal ''tmux agent pane disappeared after respawn'')) (\<lambda>launched.
     act_then (require (pn_provider launched = Some p \<and> pn_session_id launched = session_id
         \<and> pn_launch_token launched = Some token)
       (Other_refusal ''provider may have started, but the tmux launch reservation changed''))
     (act_return launched)))))))"

text \<open>The hand-over runs the caller's commit once a client shows the pane; its error detaches. The options
  and key bindings the code sets for the client before it (\<open>ensure_rgb\<close>, \<open>ensure_terminal_reply_guard\<close>,
  \<open>configure_return_navigation\<close>) are part of the command \<open>Attach\<close>, and their failure of its.\<close>

definition hand_over :: "outside \<Rightarrow> tmux_command \<Rightarrow> pane \<Rightarrow> unit act \<Rightarrow> (int \<times> receipt_delivery option) act" where
  "hand_over ou c pn on_started =
     (\<lambda>w. let n = wo_step w; w1 = (passed ou w)\<lparr>wo_log := wo_log w @ [(n, c)]\<rparr> in
      case ou_attached ou n pn of
        Attach_failed err \<Rightarrow> (Inl (Refused (Tmux_failed err)), w1)
      | Not_attached code \<Rightarrow> (Inr (code, None), w1)
      | Handed_over code delivery \<Rightarrow> act_then on_started (act_return (code, Some delivery)) w1)"

definition attach_exact :: "outside \<Rightarrow> pane \<Rightarrow> string \<Rightarrow> unit act \<Rightarrow> (int \<times> receipt_delivery option) act" where
  "attach_exact ou pn receipt on_started =
     act_then (configure_exact_home ou pn) (hand_over ou (Attach pn (Some receipt)) pn on_started)"

section \<open>Using a binding\<close>

definition capture_exact :: "core_env \<Rightarrow> outside \<Rightarrow> session \<Rightarrow> string act" where
  "capture_exact env ou s =
     act_bind (exact_pane_binding env ou s (s_tmux_pane s)) (\<lambda>before.
     act_bind (reading ou (\<lambda>n. ou_output ou n (pn_pane_id (eb_pane before)))) (\<lambda>r.
     case r of
       Inl err \<Rightarrow> act_fail (Refused (Tmux_failed err))
     | Inr output \<Rightarrow>
         act_bind (exact_pane_binding env ou s (Some (pn_pane_id (eb_pane before)))) (\<lambda>after.
         act_then (require (same_exact_binding before after) Capture_changed) (act_return output))))"

definition clear_exact_tags :: "core_env \<Rightarrow> outside \<Rightarrow> session \<Rightarrow> unit act" where
  "clear_exact_tags env ou s =
     act_bind (exact_pane_binding env ou s (s_tmux_pane s)) (\<lambda>b. commanding ou (Untag_pane (eb_pane b)))"

definition confirm_exact_handoff :: "core_env \<Rightarrow> outside \<Rightarrow> session \<Rightarrow> exact_binding \<Rightarrow> unit act" where
  "confirm_exact_handoff env ou s expected =
     act_bind (exact_pane_binding env ou s (Some (pn_pane_id (eb_pane expected)))) (\<lambda>current.
     require (same_handoff_binding expected current) Handoff_changed)"

definition record_opened :: "core_env \<Rightarrow> outside \<Rightarrow> provider \<Rightarrow> string \<Rightarrow> unit act" where
  "record_opened env ou p i = storing ou (\<lambda>db. ((), record_attach (ce_store env) p i db))"

definition record_opened_pending :: "core_env \<Rightarrow> outside \<Rightarrow> pending_launch \<Rightarrow> unit act" where
  "record_opened_pending env ou pl =
     (case pl_expected_session_id pl of
        Some i \<Rightarrow> record_opened env ou (pl_provider pl) i
      | None \<Rightarrow> storing ou (\<lambda>db. ((), set_meta (attached_launch_key (pl_token pl)) ''1'' db)))"

definition record_exact_handoff :: "core_env \<Rightarrow> outside \<Rightarrow> session \<Rightarrow> exact_binding \<Rightarrow> f64 \<Rightarrow> unit act" where
  "record_exact_handoff env ou s expected event_at =
     act_then (confirm_exact_handoff env ou s expected) (
     act_then (record_opened env ou (s_provider s) (s_session_id s)) (
     act_bind (clock ou) (\<lambda>t.
     act_then (storing ou (acknowledge_attention t (s_provider s) (s_session_id s) event_at True)) (act_return ()))))"

section \<open>The terminal nothing certifies\<close>

record unverified_binding =
  ub_pane :: pane
  ub_pane_start :: u64
  ub_provider_pid :: i64
  ub_provider_start :: u64

definition same_unverified_binding :: "unverified_binding \<Rightarrow> unverified_binding \<Rightarrow> bool" where
  "same_unverified_binding l r \<longleftrightarrow>
     same_pane_generation (ub_pane l) (ub_pane r) \<and> pn_provider (ub_pane l) = pn_provider (ub_pane r)
     \<and> pn_session_id (ub_pane l) = pn_session_id (ub_pane r) \<and> pn_name (ub_pane l) = pn_name (ub_pane r)
     \<and> pn_launch_token (ub_pane l) = pn_launch_token (ub_pane r) \<and> ub_pane_start l = ub_pane_start r
     \<and> ub_provider_pid l = ub_provider_pid r \<and> ub_provider_start l = ub_provider_start r"

text \<open>The tagged panes that may be the terminal; a known idle shell is none, an unknown root an error.\<close>

fun busy_tagged :: "session \<Rightarrow> processes \<Rightarrow> pane list \<Rightarrow> pane list option" where
  "busy_tagged s ps [] = Some []"
| "busy_tagged s ps (pn # panes) =
     (if is_pika_session (pn_session_name pn) \<and> \<not> pn_dead pn \<and> pn_provider pn = Some (s_provider s)
         \<and> pn_session_id pn = Some (s_session_id s)
      then (case map_of ps (pn_pane_pid pn) of
          None \<Rightarrow> None
        | Some root \<Rightarrow> map_option (\<lambda>rest. if observed_idle_shell root ps then rest else pn # rest) (busy_tagged s ps panes))
      else busy_tagged s ps panes)"

definition terminal_clients :: "session \<Rightarrow> processes \<Rightarrow> pane \<Rightarrow> i64 set" where
  "terminal_clients s ps pn =
     canonical_identity_pids
       {pid \<in> set (process_tree (pn_pane_pid pn) ps). provider_at ps pid = Some (s_provider s)
          \<and> (case map_of ps pid of None \<Rightarrow> True | Some r \<Rightarrow> \<not> shared_provider_process r (s_provider s))} ps"

definition unverified_pane_binding :: "outside \<Rightarrow> session \<Rightarrow> unverified_binding act" where
  "unverified_pane_binding ou s =
     act_bind (observe_complete ou ''inspect the existing terminal'') (\<lambda>ps.
     act_bind (list_panes ou) (\<lambda>panes.
     act_bind (required (busy_tagged s ps panes) Root_disappeared) (\<lambda>tagged.
     case tagged of
       [pn] \<Rightarrow>
         act_bind (required (map_of ps (pn_pane_pid pn)) Root_disappeared) (\<lambda>root.
         case sorted_list_of_set (terminal_clients s ps pn) of
           [pid] \<Rightarrow>
             act_bind (required (map_of ps pid) Provider_disappeared) (\<lambda>r.
             act_then (revalidate_ancestry ou (generation root) (generation r) ps) (
             act_return \<lparr> ub_pane = pn, ub_pane_start = pr_start_time root, ub_provider_pid = pid,
               ub_provider_start = pr_start_time r \<rparr>))
         | _ \<Rightarrow> act_fail (Refused (Other_refusal
             ''Pika could not find one unique non-helper provider process in the tagged terminal'')))
     | _ \<Rightarrow> act_fail (Refused (Panes_found (length tagged))))))"

definition revalidate_unverified_pane :: "outside \<Rightarrow> session \<Rightarrow> unverified_binding \<Rightarrow> unit act" where
  "revalidate_unverified_pane ou s expected =
     act_bind (unverified_pane_binding ou s) (\<lambda>current.
     require (same_unverified_binding expected current)
       (Other_refusal ''the existing terminal changed; Pika refused the unverified handoff''))"

fun outside_generations :: "provider \<Rightarrow> processes \<Rightarrow> i64 list \<Rightarrow> refusal + (i64 \<times> u64) list" where
  "outside_generations p ps [] = Inr []"
| "outside_generations p ps (pid # pids) =
     (case map_of ps pid of
        None \<Rightarrow> Inl Provider_disappeared
      | Some r \<Rightarrow>
          if shared_provider_process r p then Inl (Other_refusal ''Pika will never terminate shared provider infrastructure'')
          else rbind (outside_generations p ps pids) (\<lambda>rest. Inr ((pid, pr_start_time r) # rest)))"

definition outside_identity_generations :: "core_env \<Rightarrow> outside \<Rightarrow> session \<Rightarrow> (i64 \<times> u64) list act" where
  "outside_identity_generations env ou s =
     act_bind (observe_complete ou ''inspect outside ownership'') (\<lambda>ps.
     act_bind (list_panes ou) (\<lambda>panes.
     case outside_generations (s_provider s) ps (sorted_list_of_set (direct_owners env s ps - processes_below panes ps)) of
       Inl r \<Rightarrow> act_fail (Refused r)
     | Inr found \<Rightarrow> act_return found))"

end
