(* ===== verification/Resuming.thy ===== *)
theory Resuming
  imports Opening Resolve
begin

text \<open>
  Acting on a conversation (src/core.rs), second part: opening by name or choice, attaching, the
  recovery of pending and shared conversations, and the two protocols that may start a provider:
  resuming a conversation under its reservation, and launching a new one.
\<close>

record pika_config =
  pk_executable :: "provider \<Rightarrow> string"
  pk_default_provider :: provider
  pk_arguments :: "string list"
  pk_claude_mobile :: bool
  pk_current_exe :: "string option"
  pk_opencode_shared :: "string list \<Rightarrow> bool"
  pk_current_dir :: "string option"
  pk_pid :: i64
  pk_launch :: launch_env
  pk_uuid_text :: "string \<Rightarrow> string option"

datatype open_target = Opened_session session | Opened_pending pending_launch

record open_receipt =
  rc_target :: open_target
  rc_kind :: string
  rc_exit_code :: int
  rc_delivery :: "receipt_delivery option"

section \<open>Receipts\<close>

definition control_char :: "string \<Rightarrow> bool" where
  "control_char c = has_control c"

definition receipt_text :: "string \<Rightarrow> string" where
  "receipt_text v = trim (concat (take 120 (map (\<lambda>c. if control_char c then '' '' else c) (utf8_chars v))))"

definition fingerprint :: "string \<Rightarrow> string" where "fingerprint v = char_prefix 8 v"

text \<open>The separator is U+00B7 between blanks.\<close>

definition middle_dot :: string where "middle_dot = '' '' @ map char_of [194, 183 :: nat] @ '' ''"

definition joined :: "string list \<Rightarrow> string" where
  "joined parts = (case parts of [] \<Rightarrow> [] | first # rest \<Rightarrow> first @ concat (map (\<lambda>v. middle_dot @ v) rest))"

definition continuity_receipt :: "session \<Rightarrow> string \<Rightarrow> string" where
  "continuity_receipt s kind =
     (let meaning = (if kind = ''ATTACHED LIVE'' then ''same live home''
            else if kind = ''RESUMED EXACT'' then ''same conversation resumed''
            else if kind = ''NEW HOME'' then ''same conversation'' @ middle_dot @ ''protected new home''
            else ''exact conversation'');
          i = provider_thread_id s in
      joined
        ([''CONTINUITY PROVEN'', receipt_text (display_name s), kind, meaning, provider_as_str (s_provider s),
          ''exact id '' @ fingerprint i]
         @ (if i \<noteq> s_session_id s then [''home '' @ fingerprint (s_session_id s)] else [])))"

definition pending_receipt :: "pending_launch \<Rightarrow> string \<Rightarrow> string" where
  "pending_receipt pl kind =
     joined
       [if kind = ''STARTUP TERMINAL'' then ''STARTUP EXITED'' @ middle_dot @ ''existing terminal only'' else ''PIKA HOME READY'',
        receipt_text (pl_name pl), kind, ''identity pending'', provider_as_str (pl_provider pl),
        case pl_expected_session_id pl of
          Some expected \<Rightarrow> ''expected id '' @ fingerprint expected
        | None \<Rightarrow> ''launch '' @ fingerprint (pl_token pl)]"

section \<open>Fresh observations\<close>

definition reconciled :: "core_env \<Rightarrow> outside \<Rightarrow> inventory act" where
  "reconciled env ou = (\<lambda>w.
     let n = wo_step w; w1 = passed ou w; (r, db) = reconcile_local env (ou_scan ou n) (wo_db w1) in
     case r of
       Inl e \<Rightarrow> (Inl (Reconcile_failed e), w1\<lparr>wo_db := db\<rparr>)
     | Inr iv \<Rightarrow> (Inr iv, w1\<lparr>wo_db := db\<rparr>))"

text \<open>A superseded observation is repeated, the others are not.\<close>

fun attempts :: "nat \<Rightarrow> 'a act \<Rightarrow> 'a act" where
  "attempts 0 m = act_fail (Refused (Other_refusal ''Pika state kept changing during verification''))"
| "attempts (Suc k) m =
     (\<lambda>w. case m w of (Inl (Reconcile_failed Superseded), w') \<Rightarrow> attempts k m w' | r \<Rightarrow> r)"

definition fresh_observation :: "'a act \<Rightarrow> 'a act" where "fresh_observation m = attempts 3 m"

definition reconcile_for_action :: "core_env \<Rightarrow> outside \<Rightarrow> inventory act" where
  "reconcile_for_action env ou = fresh_observation (reconciled env ou)"

definition cached_inventory :: "core_env \<Rightarrow> outside \<Rightarrow> inventory act" where
  "cached_inventory env ou =
     act_bind (looking ou (list_sessions (ce_store env))) (\<lambda>sessions.
     act_bind (looking ou list_visible_pending) (\<lambda>pending.
     act_return \<lparr> iv_sessions = sessions, iv_pending = pending, iv_pending_live = {}, iv_candidates = [] \<rparr>))"

section \<open>Attaching\<close>

definition attach_if ::
  "bool \<Rightarrow> (int \<times> receipt_delivery option) act \<Rightarrow> (int \<times> receipt_delivery option) act" where
  "attach_if attach m = (if attach then m else act_return (0, None))"

definition attach_binding ::
  "core_env \<Rightarrow> outside \<Rightarrow> session \<Rightarrow> exact_binding \<Rightarrow> string \<Rightarrow> f64 \<Rightarrow> bool \<Rightarrow> (int \<times> receipt_delivery option) act" where
  "attach_binding env ou s b kind event_at attach =
     attach_if attach (attach_exact ou (eb_pane b) (continuity_receipt s kind) (record_exact_handoff env ou s b event_at))"

definition receipt_of :: "open_target \<Rightarrow> string \<Rightarrow> int \<times> receipt_delivery option \<Rightarrow> open_receipt" where
  "receipt_of target kind outcome =
     \<lparr> rc_target = target, rc_kind = kind, rc_exit_code = fst outcome, rc_delivery = snd outcome \<rparr>"

definition attach_home :: "core_env \<Rightarrow> outside \<Rightarrow> session \<Rightarrow> bool \<Rightarrow> open_receipt act" where
  "attach_home env ou s attach =
     act_bind (exact_pane_binding env ou s (s_tmux_pane s)) (\<lambda>b.
     act_bind (attach_binding env ou s b ''ATTACHED LIVE'' (s_last_event_at s) attach) (\<lambda>outcome.
     act_return (receipt_of (Opened_session s) ''ATTACHED LIVE'' outcome)))"

definition recover_existing_session :: "core_env \<Rightarrow> outside \<Rightarrow> session \<Rightarrow> bool \<Rightarrow> open_receipt act" where
  "recover_existing_session env ou s attach =
     act_bind (reconcile_for_action env ou) (\<lambda>iv.
     case find (\<lambda>c. s_identity c = s_identity s) (iv_sessions iv) of
       None \<Rightarrow> act_fail (Not_found (display_name s))
     | Some s \<Rightarrow>
         if s_status s = OpenTwice then act_fail Identity_open_twice
         else if \<not> has_exact_home s then act_fail Identity_unproven
         else attach_home env ou s attach)"

definition open_unverified_terminal :: "outside \<Rightarrow> session \<Rightarrow> unverified_binding \<Rightarrow> open_receipt act" where
  "open_unverified_terminal ou s expected =
     act_then (revalidate_unverified_pane ou s expected) (
     act_bind (hand_over ou (Attach_unverified (ub_pane expected)) (ub_pane expected)
       (revalidate_unverified_pane ou s expected)) (\<lambda>outcome.
     act_return (receipt_of (Opened_session s) ''UNVERIFIED TERMINAL'' (fst outcome, None))))"

section \<open>Pending launches\<close>

definition pending_session_with_runtime :: "pika_config \<Rightarrow> outside \<Rightarrow> pending_launch \<Rightarrow> bool \<Rightarrow> session act" where
  "pending_session_with_runtime pk ou pl live =
     act_bind (clock ou) (\<lambda>t.
     let s = session_from_pending_with_runtime t pl live in
     act_bind (looking ou (\<lambda>db. get_pending_exit (pk_launch pk) db (pl_token pl))) (\<lambda>receipt.
     case receipt of
       None \<Rightarrow> act_return s
     | Some e \<Rightarrow>
         if px_provider e = pl_provider pl \<and> f64_eq (px_pending_created_at e) (pl_created_at pl) then
           act_return (s\<lparr> s_status := Error, s_home_state := ''startup-exited'',
             s_attention_reason := Some ''startup exited before confirmation'',
             s_error := Some (provider_as_str (pl_provider pl) @ '' exited during startup (code ''
               @ signed_decimal (px_code e) @ ''). Enter checks the retained terminal if it still exists; no replacement client is started and the conversation identity remains unconfirmed.''),
             s_last_event_at := px_observed_at e, s_updated_at := px_observed_at e \<rparr>)
         else act_return s))"

definition open_pending_terminal ::
  "core_env \<Rightarrow> pika_config \<Rightarrow> outside \<Rightarrow> pending_launch \<Rightarrow> string \<Rightarrow> bool \<Rightarrow> open_receipt act" where
  "open_pending_terminal env pk ou pl token attach =
     act_bind (required (pl_tmux_pane pl)
       (Other_refusal ''This conversation is still starting and has no terminal home yet.'')) (\<lambda>pane_id.
     act_bind (get_pane ou pane_id) (\<lambda>found.
     act_bind (required found Pane_gone) (\<lambda>pn.
     act_then (require (pn_launch_token pn = Some token \<and> (pn_provider pn = None \<or> pn_provider pn = Some (pl_provider pl)))
       (Other_refusal ''Pika refused a pending home whose exact launch identity changed'')) (
     act_bind (looking ou (\<lambda>db. get_pending_exit (pk_launch pk) db token)) (\<lambda>receipt.
     let kind = (if receipt \<noteq> None then ''STARTUP TERMINAL'' else ''ATTACHED STARTING'') in
     act_bind (attach_if attach (attach_exact ou pn (pending_receipt pl kind) (record_opened_pending env ou pl))) (\<lambda>outcome.
     act_return (receipt_of (Opened_pending pl) kind outcome)))))))"

definition open_pending :: "core_env \<Rightarrow> pika_config \<Rightarrow> outside \<Rightarrow> string \<Rightarrow> bool \<Rightarrow> open_receipt act" where
  "open_pending env pk ou token attach =
     act_bind (looking ou (\<lambda>db. get_pending db token)) (\<lambda>pending.
     act_bind (looking ou (\<lambda>db. launch_binding_of db token)) (\<lambda>b.
     act_bind (case b of
         None \<Rightarrow> act_return None
       | Some (p, i) \<Rightarrow> looking ou (\<lambda>db. get_session db p i)) (\<lambda>certified.
     case certified of
       Some s \<Rightarrow> recover_existing_session env ou s attach
     | None \<Rightarrow>
         act_bind (required pending (Other_refusal ''That launch is no longer pending.'')) (\<lambda>pl.
         open_pending_terminal env pk ou pl token attach))))"

definition split_provider_query :: "string \<Rightarrow> provider option \<times> string" where
  "split_provider_query query =
     (case split_once (CHR '':'') query of
        None \<Rightarrow> (None, query)
      | Some (prefix_text, v) \<Rightarrow>
          (case provider_from_str prefix_text of Inr p \<Rightarrow> (Some p, v) | Inl _ \<Rightarrow> (None, query)))"

definition resolve_pending :: "outside \<Rightarrow> string \<Rightarrow> pending_launch list act" where
  "resolve_pending ou query =
     (let (p, name) = split_provider_query query in
      act_bind (looking ou list_pending) (\<lambda>pending.
      act_return (filter (\<lambda>pl. (p = None \<or> p = Some (pl_provider pl)) \<and> eq_ignore_ascii_case (pl_name pl) name) pending)))"
section \<open>Names\<close>

definition merge_found ::
  "candidate \<Rightarrow> session list \<times> (provider \<times> string) set \<times> candidates \<Rightarrow> session list \<times> (provider \<times> string) set \<times> candidates"
where
  "merge_found c = (\<lambda>(sessions, known, metadata).
     let k = (c_provider c, c_session_id c);
         hit = (\<lambda>s. s_provider s = c_provider c \<and> (s_session_id s = c_session_id c \<or> s_active_thread_id s = Some (c_session_id c)));
         metadata' = put_key k c metadata in
     if list_ex hit sessions then (update_first hit (merge_session_candidate c) sessions, known, metadata')
     else if k \<in> known then (sessions, known, metadata')
     else (sessions @ [session_from_candidate c], insert k known, metadata'))"

fun find_everywhere ::
  "outside \<Rightarrow> provider option \<Rightarrow> string \<Rightarrow> provider list \<Rightarrow> session list \<times> (provider \<times> string) set \<times> candidates
    \<Rightarrow> (session list \<times> (provider \<times> string) set \<times> candidates) act" where
  "find_everywhere ou only query [] found = act_return found"
| "find_everywhere ou only query (p # ps) found =
     (if only \<noteq> None \<and> only \<noteq> Some p then find_everywhere ou only query ps found
      else act_bind (reading ou (\<lambda>n. ou_found ou n p query)) (\<lambda>cs.
        find_everywhere ou only query ps (fold merge_found cs found)))"

definition evidence_of :: "source_availability \<Rightarrow> evidence_state" where
  "evidence_of a =
     (case a of Source_available \<Rightarrow> Available | Source_is_archived \<Rightarrow> Archived | Source_is_deleted \<Rightarrow> Missing
      | Source_unavailable \<Rightarrow> Unknown | Requires_reconciliation \<Rightarrow> Unknown)"

definition name_choice :: "core_env \<Rightarrow> (session \<Rightarrow> source_availability) \<Rightarrow> candidates \<Rightarrow> session \<Rightarrow> name_candidate" where
  "name_choice env source metadata s =
     \<lparr> n_provider = s_provider s, n_session_id = s_session_id s, n_active_thread_id = s_active_thread_id s,
       n_name = s_name s, n_live = s_live s, n_exact_home = has_exact_home s, n_status = s_status s, n_local = True,
       n_evidence = \<lparr> e_state = evidence_of (source s), e_canonical_cwd = canonical_directory env (s_cwd s),
         e_provider_updated_at = map_option c_updated_at (map_of metadata (s_provider s, provider_thread_id s)) \<rparr> \<rparr>"

definition resolve_local :: "core_env \<Rightarrow> outside \<Rightarrow> string \<Rightarrow> session list act" where
  "resolve_local env ou query =
     act_bind (fresh_observation (reconciled env ou)) (\<lambda>iv.
     act_bind (looking ou (list_untracked_sessions (ce_store env))) (\<lambda>untracked.
     act_bind (looking ou (list_unconfirmed_sessions (ce_store env))) (\<lambda>unconfirmed.
     let sessions = iv_sessions iv @ untracked @ unconfirmed; (only, raw) = split_provider_query query in
     act_bind (find_everywhere ou only raw provider_all (sessions, s_identity ` set sessions, iv_candidates iv)) (\<lambda>(sessions, known, metadata).
     let sessions = (case only of None \<Rightarrow> sessions | Some p \<Rightarrow> filter (\<lambda>s. s_provider s = p) sessions) in
     act_bind (reading ou (ou_source ou)) (\<lambda>source.
     case resolve_name (se_lower (ce_store env)) raw (map (name_choice env source metadata) sessions) of
       Inr indexes \<Rightarrow> act_return (List.map_filter (\<lambda>k. if k < length sessions then Some (sessions ! k) else None) indexes)
     | Inl NotFound \<Rightarrow> act_return []
     | Inl e \<Rightarrow> act_fail (Refused (Other_refusal ''the saved conversation is not available'')))))))"

section \<open>Shared owners\<close>

definition blocks_shared_recovery :: "session \<Rightarrow> processes \<Rightarrow> pane \<Rightarrow> bool" where
  "blocks_shared_recovery s ps pn \<longleftrightarrow>
     \<not> pn_dead pn \<and> pn_provider pn = Some (s_provider s)
     \<and> (case pn_session_id pn of None \<Rightarrow> False | Some i \<Rightarrow> i \<in> set (identity_strings s))
     \<and> (case map_of ps (pn_pane_pid pn) of None \<Rightarrow> True | Some root \<Rightarrow> \<not> observed_idle_shell root ps)"

definition current_shared_owner :: "session \<Rightarrow> processes \<Rightarrow> f64 \<Rightarrow> live_owner \<Rightarrow> bool" where
  "current_shared_owner s ps at owner \<longleftrightarrow>
     (case map_of ps (lo_pid owner) of
        None \<Rightarrow> False
      | Some r \<Rightarrow> pr_provider r = Some (s_provider s)
          \<and> Option.bind (lo_start_time owner) u64_try_from = Some (pr_start_time r)
          \<and> shared_provider_process r (s_provider s)
          \<and> f64_le (f64_sub at (lo_last_seen owner)) lease_seconds)"

definition capture_shared_owner_recovery :: "core_env \<Rightarrow> outside \<Rightarrow> session \<Rightarrow> shared_recovery option act" where
  "capture_shared_owner_recovery env ou s =
     act_bind (observe_complete ou ''verify shared-provider recovery ownership'') (\<lambda>ps.
     act_bind (list_panes ou) (\<lambda>panes.
     if direct_owners env s ps \<noteq> {} then act_return None
     else if list_ex (blocks_shared_recovery s ps) panes then act_return None
     else act_bind (looking ou (\<lambda>db. live_owners db (s_provider s) (s_session_id s))) (\<lambda>owners.
       if owners = [] then act_return None
       else act_bind (clock ou) (\<lambda>at.
         if \<not> list_all (current_shared_owner s ps at) owners then act_return None
         else act_return (Some \<lparr> sr_provider = s_provider s, sr_session_id = s_session_id s, sr_owners = owners \<rparr>)))))"

definition shared_owner_open_error :: "core_env \<Rightarrow> outside \<Rightarrow> session \<Rightarrow> open_error option act" where
  "shared_owner_open_error env ou s =
     (if \<not> (s_live s \<and> s_home_state s = ''outside'') then act_return None
      else act_bind (capture_shared_owner_recovery env ou s) (\<lambda>recovery.
        case recovery of
          Some r \<Rightarrow> act_return (Some (Shared_owner_confirmation r))
        | None \<Rightarrow> act_bind (looking ou (\<lambda>db. live_owners db (s_provider s) (s_session_id s))) (\<lambda>owners.
            act_return (Some (Outside_live (map lo_pid owners))))))"

section \<open>The reservation\<close>

definition reserve_resume_after_stale_proof ::
  "outside \<Rightarrow> provider \<Rightarrow> string \<Rightarrow> string \<Rightarrow> i64 \<Rightarrow> i64 \<Rightarrow> bool act" where
  "reserve_resume_after_stale_proof ou p i token pid start =
     act_bind (clock ou) (\<lambda>t.
     act_bind (storing ou (reserve_resume t p i token pid start)) (\<lambda>reserved.
     if reserved then act_return True
     else act_bind (looking ou (\<lambda>db. get_resume_reservation db p i)) (\<lambda>row.
       case row of
         None \<Rightarrow> act_return False
       | Some row \<Rightarrow>
           (case (lr_owner_pid row, lr_owner_start_time row) of
              (Some stale_pid, Some stale_start) \<Rightarrow>
                act_bind (observe_complete ou ''verify a stale resume reservation'') (\<lambda>ps.
                if (case map_of ps stale_pid of None \<Rightarrow> True | Some r \<Rightarrow> u64_try_from stale_start \<noteq> Some (pr_start_time r))
                then act_bind (clock ou) (\<lambda>t2. storing ou (reclaim_resume_if_generation t2 row token pid start))
                else act_return False)
            | _ \<Rightarrow> act_return False))))"

definition active_resume_owner_pids :: "provider \<Rightarrow> string \<Rightarrow> processes \<Rightarrow> store_db \<Rightarrow> i64 set" where
  "active_resume_owner_pids p i ps db =
     lo_pid ` set (filter (\<lambda>owner. case map_of ps (lo_pid owner) of
         None \<Rightarrow> False
       | Some r \<Rightarrow> pr_provider r = Some p
           \<and> (case lo_start_time owner of None \<Rightarrow> True | Some start \<Rightarrow> u64_try_from start = Some (pr_start_time r)))
       (live_owners db p i))"

section \<open>Retiring a dead launch of the same name\<close>

definition ensuring :: "refusal + unit \<Rightarrow> unit act" where
  "ensuring r = (case r of Inl e \<Rightarrow> act_fail (Refused e) | Inr _ \<Rightarrow> act_return ())"

definition ensure_pending_identity_for_resume :: "session \<Rightarrow> pending_launch \<Rightarrow> refusal + unit" where
  "ensure_pending_identity_for_resume s pl =
     ensure (pl_expected_session_id pl \<in> {None, Some (s_session_id s)} \<and> pl_candidate_session_id pl \<in> {None, Some (s_session_id s)})
       (Other_refusal ''a pending launch is bound to a different conversation identity. No launch state was retired.'')"

definition touches_launch :: "pending_launch \<Rightarrow> pane \<Rightarrow> bool" where
  "touches_launch pl pn \<longleftrightarrow>
     pl_tmux_pane pl = Some (pn_pane_id pn) \<or> pl_tmux_session pl = Some (pn_session_name pn)
     \<or> pn_launch_token pn = Some (pl_token pl)"

definition ensure_pending_runtime_owner_absent ::
  "(string \<Rightarrow> bool) \<Rightarrow> pending_launch \<Rightarrow> pane list \<Rightarrow> processes \<Rightarrow> refusal + unit" where
  "ensure_pending_runtime_owner_absent uuid pl panes ps =
     (case pl_root_pid pl of
        None \<Rightarrow> Inl (Other_refusal ''a pending launch whose owner is not yet observable'')
      | Some pid \<Rightarrow>
          (case pl_root_pid_start pl of
             None \<Rightarrow> Inl (Other_refusal ''a pending launch without a verifiable owner generation'')
           | Some start \<Rightarrow>
               if (case map_of ps pid of None \<Rightarrow> False | Some r \<Rightarrow> u64_try_from start = Some (pr_start_time r))
               then Inl (Other_refusal ''a live pending launch owner'')
               else if list_ex (touches_launch pl) panes
               then Inl (Other_refusal ''a pending launch terminal that could not be disproved'')
               else if (case pl_candidate_session_id pl of None \<Rightarrow> False
                 | Some i \<Rightarrow> find_session_processes uuid i (pl_provider pl) ps \<noteq> {})
               then Inl (Other_refusal ''a provider process associated with its pending launch'')
               else Inr ()))"

definition carries_launch_token :: "string \<Rightarrow> process_record \<Rightarrow> bool" where
  "carries_launch_token token r \<longleftrightarrow>
     token \<in> set (pr_argv r) \<and> ''--launch-token'' \<in> set (pr_argv r) \<or> (''--launch-token='' @ token) \<in> set (pr_argv r)"

definition ensure_pending_exit_is_authenticated :: "retirement_snapshot \<Rightarrow> processes \<Rightarrow> refusal + unit" where
  "ensure_pending_exit_is_authenticated snapshot ps =
     (if pl_expected_session_id (rs_pending snapshot) \<noteq> None \<or> rs_binding snapshot \<noteq> None
      then Inl (Other_refusal ''a UUID-bound pending launch; Pika will not reinterpret it as an unbound name reservation'')
      else if rs_authenticated_exit snapshot = None
      then Inl (Other_refusal ''a dead pending owner but no authenticated launch-exit receipt'')
      else if list_ex (\<lambda>(_, r). carries_launch_token (pl_token (rs_pending snapshot)) r) ps
      then Inl (Other_refusal ''a process carrying its pending launch token'')
      else Inr ())"

definition launch_changed :: refusal where
  "launch_changed = Other_refusal ''the pending launch changed during recovery; no second provider was launched''"

definition retire_pending ::
  "core_env \<Rightarrow> pika_config \<Rightarrow> outside \<Rightarrow> session \<Rightarrow> pane list \<Rightarrow> processes \<Rightarrow> pending_launch \<Rightarrow> unit act" where
  "retire_pending env pk ou s panes ps pl =
     act_bind (looking ou (\<lambda>db. pending_retirement_state (pk_launch pk) db (pl_token pl))) (\<lambda>found.
     act_bind (required found launch_changed) (\<lambda>snapshot.
     act_then (require (same_pending (rs_pending snapshot) pl) launch_changed) (
     act_then (ensuring (ensure_pending_identity_for_resume s pl)) (
     act_then (ensuring (ensure_pending_runtime_owner_absent (ce_uuid env) pl panes ps)) (
     act_then (ensuring (ensure_pending_exit_is_authenticated snapshot ps)) (
     act_then (require (rs_binding snapshot = None \<or> rs_binding snapshot = Some (s_provider s, s_session_id s))
       (Other_refusal ''a pending launch bound to a different conversation identity'')) (
     act_bind (clock ou) (\<lambda>t.
     act_bind (storing ou (retire_pending_if_unchanged (pk_launch pk) t snapshot
       ''same-name exact conversation reopened after complete observation disproved the pending owner'')) (\<lambda>retired.
     require retired launch_changed)))))))))"

fun retire_each ::
  "core_env \<Rightarrow> pika_config \<Rightarrow> outside \<Rightarrow> session \<Rightarrow> pane list \<Rightarrow> processes \<Rightarrow> pending_launch list \<Rightarrow> unit act" where
  "retire_each env pk ou s panes ps [] = act_return ()"
| "retire_each env pk ou s panes ps (pl # pls) =
     act_then (retire_pending env pk ou s panes ps pl) (retire_each env pk ou s panes ps pls)"

definition retire_dead_same_name_pending ::
  "core_env \<Rightarrow> pika_config \<Rightarrow> outside \<Rightarrow> session \<Rightarrow> pane list \<Rightarrow> processes \<Rightarrow> unit act" where
  "retire_dead_same_name_pending env pk ou s panes ps =
     act_bind (looking ou list_pending) (\<lambda>pending.
     retire_each env pk ou s panes ps
       (filter (\<lambda>pl. pl_provider pl = s_provider s \<and> eq_ignore_ascii_case (pl_name pl) (display_name s)) pending))"
section \<open>Starting a provider\<close>

definition new_argv :: "pika_config \<Rightarrow> provider \<Rightarrow> string \<Rightarrow> string option \<Rightarrow> string list" where
  "new_argv pk p name session_id =
     (case p of
        Claude \<Rightarrow> [pk_executable pk p, ''--name'', name]
          @ (case session_id of None \<Rightarrow> [] | Some i \<Rightarrow> [''--session-id'', i])
      | _ \<Rightarrow> [pk_executable pk p])"

definition resume_argv :: "pika_config \<Rightarrow> provider \<Rightarrow> string \<Rightarrow> string list" where
  "resume_argv pk p i =
     (case p of
        Codex \<Rightarrow> [pk_executable pk p, ''resume'', i]
      | Muse \<Rightarrow> [pk_executable pk p, ''resume'', i]
      | Claude \<Rightarrow> [pk_executable pk p, ''--resume'', i]
      | Opencode \<Rightarrow> [pk_executable pk p, ''--session'', i])"

definition launch_argv :: "pika_config \<Rightarrow> string list \<Rightarrow> string list" where
  "launch_argv pk argv = argv @ pk_arguments pk"

definition wrapped_launch :: "pika_config \<Rightarrow> string \<Rightarrow> string \<Rightarrow> string list \<Rightarrow> string list" where
  "wrapped_launch pk helper token argv =
     (case pk_current_exe pk of None \<Rightarrow> argv | Some exe \<Rightarrow> [exe, helper, ''--launch-token'', token, ''--''] @ argv)"

definition shared_launch_argv :: "pika_config \<Rightarrow> provider \<Rightarrow> string \<Rightarrow> string list \<Rightarrow> string list" where
  "shared_launch_argv pk p token argv =
     (if p = Claude \<and> pk_claude_mobile pk then wrapped_launch pk ''_claude-shared-launch'' token argv
      else if p = Opencode \<and> pk_opencode_shared pk argv then wrapped_launch pk ''_opencode-shared-launch'' token argv
      else argv)"

definition existing_cwd :: "outside \<Rightarrow> string option \<Rightarrow> string act" where
  "existing_cwd ou v =
     act_bind (reading ou (ou_is_directory ou)) (\<lambda>is_dir.
     case v of
       None \<Rightarrow> act_fail (Refused (Other_refusal ''the saved working directory no longer exists''))
     | Some path \<Rightarrow>
         act_then (require (is_dir path) (Other_refusal ''the saved working directory no longer exists'')) (act_return path))"

definition free_tmux_name :: "string \<Rightarrow> pane list \<Rightarrow> string" where
  "free_tmux_name base panes =
     (let names = map pn_session_name panes in
      if base \<notin> set names then base
      else or_default base (find (\<lambda>name. name \<notin> set names)
        (map (\<lambda>k. base @ ''-'' @ decimal k) [2..<length panes + 3])))"

definition require_idle_pane :: "pane \<Rightarrow> processes \<Rightarrow> bool \<Rightarrow> refusal + unit" where
  "require_idle_pane pn ps allow_holder =
     (let shell = to_ascii_lowercase (or_default (pn_current_command pn) (file_name (pn_current_command pn))) in
      if pn_dead pn then Inl (Other_refusal ''Pika will not reuse a dead pane without a live generation to bind'')
      else if shell \<notin> {''bash'', ''dash'', ''fish'', ''ksh'', ''sh'', ''tcsh'', ''zsh''} \<and> \<not> (allow_holder \<and> shell = ''sleep'')
      then Inl (Other_refusal ''the saved Pika pane is running a program; Pika refused to replace it'')
      else if process_tree (pn_pane_pid pn) ps \<noteq> [pn_pane_pid pn]
      then Inl (Other_refusal ''the saved Pika pane acquired another process; Pika refused to replace it'')
      else Inr ())"

definition ensure_new_identity_unowned ::
  "(string \<Rightarrow> bool) \<Rightarrow> string option \<Rightarrow> provider \<Rightarrow> processes \<Rightarrow> refusal + unit" where
  "ensure_new_identity_unowned uuid reserved p ps =
     (case reserved of
        None \<Rightarrow> Inr ()
      | Some i \<Rightarrow> ensure (find_session_processes uuid i p ps = {})
          (Other_refusal ''the reserved conversation UUID acquired another owner before provider execution''))"

definition start_of :: "process_record option \<Rightarrow> i64 option" where
  "start_of r = Option.bind r (\<lambda>r. i64_try_from (pr_start_time r))"

text \<open>The wrapper's owner token is drawn and registered; of the environment only that token is modelled.\<close>

definition register_launch_wrapper :: "pika_config \<Rightarrow> outside \<Rightarrow> string \<Rightarrow> unit act" where
  "register_launch_wrapper pk ou token =
     act_bind (reading ou (ou_uuid ou)) (\<lambda>owner_token.
     act_bind (storing ou (register_pending_wrapper_owner (pk_launch pk) token owner_token)) (\<lambda>registered.
     require registered (Other_refusal ''the launch reservation changed before its wrapper could be registered'')))"

definition set_required_launch_phase :: "outside \<Rightarrow> string \<Rightarrow> launch_phase \<Rightarrow> unit act" where
  "set_required_launch_phase ou token phase =
     act_bind (storing ou (set_launch_phase token phase)) (\<lambda>kept.
     require kept (Other_refusal ''the recoverable launch record disappeared before provider execution''))"

definition bind_required :: "outside \<Rightarrow> string \<Rightarrow> provider \<Rightarrow> string \<Rightarrow> unit act" where
  "bind_required ou token p i =
     act_bind (clock ou) (\<lambda>t.
     act_bind (storing ou (bind_launch t token p i)) (\<lambda>bound.
     require bound (Other_refusal ''the recoverable launch token was already bound to another conversation'')))"

text \<open>A fresh private holder, recorded, tagged and brought to the phase that may start a provider.\<close>

definition allocate_holder ::
  "outside \<Rightarrow> string \<Rightarrow> string \<Rightarrow> provider \<Rightarrow> string option \<Rightarrow> string \<Rightarrow> string \<Rightarrow> pane act" where
  "allocate_holder ou tmux_name cwd p session_id name token =
     act_bind (create_holding_session ou tmux_name cwd) (\<lambda>allocated.
     act_bind (process_now ou (pn_pane_pid allocated)) (\<lambda>holder.
     act_then (storing ou (finalize_pending_pane token (pn_session_name allocated) (pn_pane_id allocated)
       (Some (pn_pane_pid allocated)) (start_of holder))) (
     act_then (configure_exact_home ou allocated) (
     act_bind (prepare_agent_pane ou allocated p session_id name token) (\<lambda>prepared.
     act_then (set_required_launch_phase ou token Pane_prepared) (act_return prepared))))))"

fun wait_for_exact_binding :: "nat \<Rightarrow> core_env \<Rightarrow> outside \<Rightarrow> session \<Rightarrow> string \<Rightarrow> exact_binding act" where
  "wait_for_exact_binding 0 env ou s pane_id = exact_pane_binding env ou s (Some pane_id)"
| "wait_for_exact_binding (Suc k) env ou s pane_id =
     (\<lambda>w. case exact_pane_binding env ou s (Some pane_id) w of
        (Inl _, w') \<Rightarrow> wait_for_exact_binding k env ou s pane_id w'
      | found \<Rightarrow> found)"

definition await_binding :: "core_env \<Rightarrow> outside \<Rightarrow> session \<Rightarrow> string \<Rightarrow> exact_binding act" where
  "await_binding env ou s pane_id =
     act_bind (reading ou (ou_deadline ou)) (\<lambda>k. wait_for_exact_binding k env ou s pane_id)"

section \<open>Resuming\<close>

record resume_context =
  rx_session :: session
  rx_pending :: pending_launch
  rx_token :: string
  rx_event :: f64
  rx_identity :: string
  rx_tmux_name :: string
  rx_attach :: bool

definition attach_existing_reserved ::
  "core_env \<Rightarrow> outside \<Rightarrow> resume_context \<Rightarrow> exact_binding \<Rightarrow> open_receipt act" where
  "attach_existing_reserved env ou rx b =
     act_then (storing ou (delete_pending (rx_token rx))) (
     act_bind (attach_binding env ou (rx_session rx) b ''ATTACHED LIVE'' (rx_event rx) (rx_attach rx)) (\<lambda>outcome.
     act_return (receipt_of (Opened_session (rx_session rx)) ''ATTACHED LIVE'' outcome)))"

definition inspect_initial_resume_ownership ::
  "core_env \<Rightarrow> outside \<Rightarrow> resume_context \<Rightarrow> processes \<Rightarrow> (pane list \<times> open_receipt option) act" where
  "inspect_initial_resume_ownership env ou rx ps =
     (let s = rx_session rx in
      act_bind (looking ou (active_resume_owner_pids (s_provider s) (s_session_id s) ps)) (\<lambda>owners.
      act_then (require (owners = {}) (Owned_twice (sorted_list_of_set owners))) (
      act_bind (list_panes ou) (\<lambda>panes.
      let exact = find_session_processes (ce_uuid env) (rx_identity rx) (s_provider s) ps in
      act_then (require (exact \<subseteq> processes_below panes ps) Provider_outside) (
      if exact = {} then act_return (panes, None)
      else act_bind (exact_pane_binding env ou s None) (\<lambda>b.
        act_bind (attach_existing_reserved env ou rx b) (\<lambda>receipt. act_return (panes, Some receipt))))))))"

definition ensure_resume_launch_unclaimed ::
  "core_env \<Rightarrow> outside \<Rightarrow> session \<Rightarrow> string \<Rightarrow> processes \<Rightarrow> pane \<Rightarrow> unit act" where
  "ensure_resume_launch_unclaimed env ou s identity ps prepared =
     act_bind (looking ou (active_resume_owner_pids (s_provider s) (s_session_id s) ps)) (\<lambda>owners.
     act_then (require (owners = {}) (Owned_twice (sorted_list_of_set owners))) (
     act_then (require (find_session_processes (ce_uuid env) identity (s_provider s) ps = {}) Provider_outside) (
     ensuring (require_idle_pane prepared ps True))))"

definition prepare_resume_pane ::
  "core_env \<Rightarrow> pika_config \<Rightarrow> outside \<Rightarrow> resume_context \<Rightarrow> pane list \<Rightarrow> (pane \<times> string \<times> string list) act" where
  "prepare_resume_pane env pk ou rx panes =
     (let s = rx_session rx;
          argv = shared_launch_argv pk (s_provider s) (rx_token rx) (launch_argv pk (resume_argv pk (s_provider s) (rx_identity rx))) in
      act_then (register_launch_wrapper pk ou (rx_token rx)) (
      act_bind (existing_cwd ou (s_cwd s)) (\<lambda>cwd.
      act_bind (allocate_holder ou (free_tmux_name (rx_tmux_name rx) panes) cwd (s_provider s) (Some (s_session_id s))
        (display_name s) (rx_token rx)) (\<lambda>prepared.
      act_then (bind_required ou (rx_token rx) (s_provider s) (s_session_id s)) (act_return (prepared, cwd, argv))))))"

definition certify_resume_generation :: "outside \<Rightarrow> session \<Rightarrow> string \<Rightarrow> i64 \<Rightarrow> i64 \<Rightarrow> unit act" where
  "certify_resume_generation ou s token pid start =
     act_bind (looking ou (\<lambda>db. get_pending db token)) (\<lambda>pending.
     act_when (pending \<noteq> None) (
       act_bind (clock ou) (\<lambda>t.
       act_bind (storing ou (certify_launch t token (s_provider s) (s_session_id s) pid start)) (\<lambda>certified.
       require certified (Other_refusal ''the launched provider generation could not be certified'')))))"

definition resumed_session :: "session \<Rightarrow> pane \<Rightarrow> i64 \<Rightarrow> f64 \<Rightarrow> session" where
  "resumed_session s pn pid t =
     s\<lparr> s_tmux_session := Some (pn_session_name pn), s_tmux_pane := Some (pn_pane_id pn), s_root_pid := Some pid,
        s_status := Starting, s_live := True, s_home_state := ''starting'', s_last_activity_at := t \<rparr>"

definition settle_resumed ::
  "core_env \<Rightarrow> outside \<Rightarrow> resume_context \<Rightarrow> pane \<Rightarrow> open_receipt act" where
  "settle_resumed env ou rx pn =
     (let s = rx_session rx in
      act_bind (await_binding env ou s (pn_pane_id pn)) (\<lambda>b.
      act_bind (required (i64_try_from (eb_provider_start b)) (Other_refusal ''provider generation does not fit the state store'')) (\<lambda>start.
      act_then (storing ou (observe_launched_generation (rx_token rx) (eb_provider_pid b) start)) (
      act_bind (clock ou) (\<lambda>t.
      let s1 = resumed_session s pn (eb_provider_pid b) t in
      act_bind (clock ou) (\<lambda>t1.
      act_then (trying ou (upsert_session t1 s1 True)) (
      act_then (certify_resume_generation ou s1 (rx_token rx) (eb_provider_pid b) start) (
      act_bind (attach_binding env ou s1 b ''RESUMED EXACT'' (rx_event rx) (rx_attach rx)) (\<lambda>outcome.
      act_return (receipt_of (Opened_session s1) ''RESUMED EXACT'' outcome))))))))))"

definition execute_resume_pane ::
  "core_env \<Rightarrow> outside \<Rightarrow> resume_context \<Rightarrow> pane \<Rightarrow> string \<Rightarrow> string list \<Rightarrow> open_receipt act" where
  "execute_resume_pane env ou rx prepared cwd argv =
     (let s = rx_session rx in
      act_then (set_required_launch_phase ou (rx_token rx) Provider_starting) (
      act_bind (observe_complete ou ''execute the reserved provider launch'') (\<lambda>ps.
      act_then (ensure_resume_launch_unclaimed env ou s (rx_identity rx) ps prepared) (
      act_bind (start_prepared_agent ou prepared cwd (s_provider s) argv (Some (s_session_id s)) (display_name s) (rx_token rx)) (\<lambda>pn.
      settle_resumed env ou rx pn)))))"

definition resume_session_reserved :: "core_env \<Rightarrow> pika_config \<Rightarrow> outside \<Rightarrow> resume_context \<Rightarrow> open_receipt act" where
  "resume_session_reserved env pk ou rx =
     act_bind (observe_complete ou ''start the exact provider process'') (\<lambda>ps.
     act_bind (inspect_initial_resume_ownership env ou rx ps) (\<lambda>(panes, existing).
     case existing of
       Some receipt \<Rightarrow> act_return receipt
     | None \<Rightarrow>
         act_then (retire_dead_same_name_pending env pk ou (rx_session rx) panes ps) (
         act_bind (clock ou) (\<lambda>t.
         act_bind (trying ou (add_pending t (rx_pending rx))) (\<lambda>added.
         act_then (require added (Other_refusal ''the conversation is already starting'')) (
         act_bind (prepare_resume_pane env pk ou rx panes) (\<lambda>(prepared, cwd, argv).
         execute_resume_pane env ou rx prepared cwd argv)))))))"

definition resume_pending :: "session \<Rightarrow> string \<Rightarrow> string \<Rightarrow> string \<Rightarrow> f64 \<Rightarrow> pending_launch" where
  "resume_pending s token cwd tmux_name t =
     \<lparr> pl_token = token, pl_provider = s_provider s, pl_name = display_name s, pl_cwd = cwd,
       pl_tmux_session = Some tmux_name, pl_tmux_pane = None, pl_expected_session_id = Some (s_session_id s),
       pl_root_pid = None, pl_root_pid_start = None, pl_preexisting = None, pl_candidate_session_id = None,
       pl_candidate_observed_at = None, pl_created_at = t \<rparr>"

text \<open>The reservation is released whatever the reserved part comes to.\<close>

definition reserved_resume :: "core_env \<Rightarrow> pika_config \<Rightarrow> outside \<Rightarrow> resume_context \<Rightarrow> open_receipt act" where
  "reserved_resume env pk ou rx = (\<lambda>w.
     let (result, w1) = resume_session_reserved env pk ou rx w in
     case storing ou (release_resume (s_provider (rx_session rx)) (s_session_id (rx_session rx)) (rx_token rx)) w1 of
       (Inl e, w2) \<Rightarrow> (Inl e, w2)
     | (Inr _, w2) \<Rightarrow> (result, w2))"

definition resume_session :: "core_env \<Rightarrow> pika_config \<Rightarrow> outside \<Rightarrow> session \<Rightarrow> bool \<Rightarrow> open_receipt act" where
  "resume_session env pk ou s0 attach =
     act_bind (if s_cwd s0 \<noteq> None then act_return s0
       else act_bind (required (pk_current_dir pk) (Other_refusal ''no current directory'')) (\<lambda>dir.
         act_return (s0\<lparr>s_cwd := Some dir\<rparr>))) (\<lambda>s.
     act_then (existing_cwd ou (s_cwd s)) (
     act_bind (reading ou (ou_uuid ou)) (\<lambda>token.
     act_bind (process_now ou (pk_pid pk)) (\<lambda>own.
     act_bind (required (start_of own) (Other_refusal ''Pika cannot pin its own launch reservation process generation'')) (\<lambda>start.
     act_bind (reserve_resume_after_stale_proof ou (s_provider s) (s_session_id s) token (pk_pid pk) start) (\<lambda>reserved.
     act_then (require reserved (Other_refusal ''the conversation is already being resumed'')) (
     act_bind (existing_cwd ou (s_cwd s)) (\<lambda>cwd.
     act_bind (clock ou) (\<lambda>t.
     let tmux_name = internal_name (s_provider s) (s_session_id s) in
     reserved_resume env pk ou
       \<lparr> rx_session = s, rx_pending = resume_pending s token cwd tmux_name t, rx_token = token,
         rx_event = s_last_event_at s, rx_identity = provider_thread_id s, rx_tmux_name = tmux_name,
         rx_attach = attach \<rparr>)))))))))"
section \<open>Opening\<close>

definition permits_resume :: "source_availability \<Rightarrow> bool" where
  "permits_resume a \<longleftrightarrow> a = Source_available \<or> a = Source_unavailable"

definition select_session :: "core_env \<Rightarrow> outside \<Rightarrow> session \<Rightarrow> unit act" where
  "select_session env ou s =
     act_bind (storing ou (restore_tracking (s_provider s) (s_session_id s))) (\<lambda>restored.
     act_when restored (act_bind (clock ou) (\<lambda>t. act_then (trying ou (upsert_session t s False)) (act_return ()))))"

definition open_homeless :: "core_env \<Rightarrow> pika_config \<Rightarrow> outside \<Rightarrow> session \<Rightarrow> bool \<Rightarrow> open_receipt act" where
  "open_homeless env pk ou s attach =
     act_bind (observe_complete ou ''resume the conversation'') (\<lambda>ps.
     act_bind (list_panes ou) (\<lambda>panes.
     let elsewhere = direct_owners env s ps - processes_below (tagged_panes s panes) ps in
     if elsewhere \<noteq> {} then act_fail (Outside_live (sorted_list_of_set elsewhere))
     else act_bind (shared_owner_open_error env ou s) (\<lambda>err.
       case err of
         Some e \<Rightarrow> act_fail e
       | None \<Rightarrow>
           act_bind (reading ou (ou_source ou)) (\<lambda>source.
           act_then (require (permits_resume (source s)) (Other_refusal ''Pika did not start a provider. Restore the exact conversation.''))
             (resume_session env pk ou s attach)))))"

definition open_session :: "core_env \<Rightarrow> pika_config \<Rightarrow> outside \<Rightarrow> session \<Rightarrow> bool \<Rightarrow> open_receipt act" where
  "open_session env pk ou s0 attach =
     act_then (select_session env ou s0) (
     act_bind (reconcile_for_action env ou) (\<lambda>iv.
     let s = or_default s0 (find (\<lambda>c. s_identity c = s_identity s0) (iv_sessions iv)) in
     if s_status s = OpenTwice then act_fail Identity_open_twice
     else if s_home_state s = ''identity_unproven'' \<or> s_home_state s = ''identity_incomplete'' then act_fail Identity_unproven
     else if has_exact_home s then attach_home env ou s attach
     else open_homeless env pk ou s attach))"

definition same_recovery :: "shared_recovery \<Rightarrow> shared_recovery \<Rightarrow> bool" where
  "same_recovery a b \<longleftrightarrow>
     sr_provider a = sr_provider b \<and> sr_session_id a = sr_session_id b \<and> list_all2 same_owner (sr_owners a) (sr_owners b)"

definition resume_after_shared_owner_confirmation ::
  "core_env \<Rightarrow> pika_config \<Rightarrow> outside \<Rightarrow> session \<Rightarrow> shared_recovery \<Rightarrow> bool \<Rightarrow> open_receipt act" where
  "resume_after_shared_owner_confirmation env pk ou s recovery attach =
     act_then (require (sr_provider recovery = s_provider s \<and> sr_session_id recovery = s_session_id s)
       (Other_refusal ''shared-owner recovery snapshot does not match the selected exact identity'')) (
     act_bind (capture_shared_owner_recovery env ou s) (\<lambda>found.
     act_bind (required found (Other_refusal ''shared-owner state changed; no leases were revoked and no provider was started'')) (\<lambda>current.
     act_then (require (same_recovery current recovery)
       (Other_refusal ''shared-owner lease or process generations changed; no leases were revoked'')) (
     act_bind (storing ou (revoke_live_owners_if_exact (s_provider s) (s_session_id s) (sr_owners recovery))) (\<lambda>revoked.
     act_then (require revoked (Other_refusal ''shared-owner lease set changed; no leases were revoked''))
       (open_session env pk ou s attach))))))"

definition clean_and_attach ::
  "core_env \<Rightarrow> pika_config \<Rightarrow> outside \<Rightarrow> session \<Rightarrow> i64 \<times> u64 \<Rightarrow> bool \<Rightarrow> open_receipt act" where
  "clean_and_attach env pk ou s expected attach =
     act_bind (outside_identity_generations env ou s) (\<lambda>before.
     act_then (require (before = [expected])
       (Other_refusal ''CLEAN AND ATTACH REFUSED: exact ownership changed. No signal was sent.'')) (
     act_then (commanding ou (Terminate (fst expected) (snd expected))) (
     act_bind (outside_identity_generations env ou s) (\<lambda>remaining.
     act_then (require (remaining = [])
       (Other_refusal ''CLEAN AND ATTACH REFUSED: exact provider identity still has a live owner.''))
       (open_session env pk ou s attach)))))"

section \<open>A new conversation\<close>

definition validate_daily_name :: "string \<Rightarrow> refusal + unit" where
  "validate_daily_name name =
     (let trimmed = trim name in
      if trimmed = [] \<or> length trimmed > 120 \<or> has_control trimmed
      then Inl (Other_refusal ''conversation names must contain 1-120 printable characters'')
      else ensure (trimmed = name) (Other_refusal ''conversation names cannot start or end with whitespace''))"

definition validated_launch_token :: "pika_config \<Rightarrow> string \<Rightarrow> string \<Rightarrow> string act" where
  "validated_launch_token pk name launch_token =
     act_bind (required (pk_uuid_text pk launch_token) (Other_refusal ''invalid launch token'')) (\<lambda>token.
     act_then (ensuring (validate_daily_name name)) (act_return token))"

definition attempted :: "'a act \<Rightarrow> 'a option act" where
  "attempted m = (\<lambda>w. case m w of (Inl _, w') \<Rightarrow> (Inr None, w') | (Inr x, w') \<Rightarrow> (Inr (Some x), w'))"

definition start_new_provider ::
  "core_env \<Rightarrow> pika_config \<Rightarrow> outside \<Rightarrow> pending_launch \<Rightarrow> string \<Rightarrow> string list \<Rightarrow> pane act" where
  "start_new_provider env pk ou pl internal argv =
     (let p = pl_provider pl; reserved = pl_expected_session_id pl; token = pl_token pl in
      act_then (register_launch_wrapper pk ou token) (
      act_bind (allocate_holder ou internal (pl_cwd pl) p reserved (pl_name pl) token) (\<lambda>prepared.
      act_then (case reserved of None \<Rightarrow> act_return () | Some i \<Rightarrow> bind_required ou token p i) (
      act_then (set_required_launch_phase ou token Provider_starting) (
      act_bind (observe_complete ou ''execute the reserved provider launch'') (\<lambda>ps.
      act_then (ensuring (ensure_new_identity_unowned (ce_uuid env) reserved p ps)) (
      act_then (ensuring (require_idle_pane prepared ps True)) (
      start_prepared_agent ou prepared (pl_cwd pl) p (shared_launch_argv pk p token argv) reserved (pl_name pl) token))))))))"

definition provisional_session :: "pending_launch \<Rightarrow> string \<Rightarrow> pane \<Rightarrow> session" where
  "provisional_session pl i pn =
     (session_from_pending_with_runtime (pl_created_at pl) pl True)
       \<lparr> s_session_id := i, s_tmux_session := Some (pn_session_name pn), s_tmux_pane := Some (pn_pane_id pn),
         s_root_pid := None, s_status := Starting, s_error := None, s_attention_reason := None \<rparr>"

definition certify_new_home ::
  "core_env \<Rightarrow> outside \<Rightarrow> pending_launch \<Rightarrow> string \<Rightarrow> pane \<Rightarrow> bool \<Rightarrow> (session \<times> exact_binding) option act" where
  "certify_new_home env ou pl i pn shared =
     (let s = provisional_session pl i pn; p = pl_provider pl; token = pl_token pl in
      act_bind (attempted (await_binding env ou s (pn_pane_id pn))) (\<lambda>found.
      case found of
        None \<Rightarrow> act_return None
      | Some b \<Rightarrow>
          act_bind (required (i64_try_from (eb_provider_start b)) (Other_refusal ''provider generation does not fit the state store'')) (\<lambda>start.
          act_then (storing ou (observe_launched_generation token (eb_provider_pid b) start)) (
          act_then (act_when shared (
            act_bind (clock ou) (\<lambda>t.
            act_then (trying ou (upsert_session t
              (s\<lparr>s_root_pid := Some (eb_provider_pid b), s_source := ''private-shared-provider''\<rparr>) True)) (
            act_bind (clock ou) (\<lambda>t1.
            act_then (storing ou (certify_launch t1 token p i (eb_provider_pid b) start)) (act_return ())))))) (
          act_bind (looking ou (\<lambda>db. get_session db p i)) (\<lambda>confirmed.
          act_return (map_option (\<lambda>s. (s, b)) confirmed)))))))"

definition deliver_new_launch ::
  "core_env \<Rightarrow> outside \<Rightarrow> pending_launch \<Rightarrow> pane \<Rightarrow> (session \<times> exact_binding) option \<Rightarrow> bool \<Rightarrow> open_receipt act" where
  "deliver_new_launch env ou pl pn home attach =
     act_bind (looking ou (\<lambda>db. get_pending db (pl_token pl))) (\<lambda>found.
     act_bind (case found of
         Some current \<Rightarrow> act_return current
       | None \<Rightarrow> act_bind (process_now ou (pn_pane_pid pn)) (\<lambda>r.
           act_return (pl\<lparr> pl_tmux_session := Some (pn_session_name pn), pl_tmux_pane := Some (pn_pane_id pn),
             pl_root_pid := Some (pn_pane_pid pn), pl_root_pid_start := start_of r \<rparr>))) (\<lambda>current.
     act_bind (case home of
         Some (s, b) \<Rightarrow> attach_binding env ou s b ''NEW HOME'' (s_last_event_at s) attach
       | None \<Rightarrow> attach_if attach (attach_exact ou pn (pending_receipt current ''NEW HOME'') (record_opened_pending env ou current))) (\<lambda>outcome.
     act_return (receipt_of (Opened_pending current) ''NEW HOME'' outcome))))"

definition finish_reserved_launch ::
  "core_env \<Rightarrow> pika_config \<Rightarrow> outside \<Rightarrow> pending_launch \<Rightarrow> string \<Rightarrow> string list \<Rightarrow> bool \<Rightarrow> bool \<Rightarrow> open_receipt act" where
  "finish_reserved_launch env pk ou pl internal argv shared attach =
     act_bind (start_new_provider env pk ou pl internal argv) (\<lambda>pn.
     act_bind (case pl_expected_session_id pl of
         None \<Rightarrow> act_return None
       | Some i \<Rightarrow> certify_new_home env ou pl i pn shared) (\<lambda>home.
     deliver_new_launch env ou pl pn home attach))"

definition new_pending ::
  "provider \<Rightarrow> string \<Rightarrow> string \<Rightarrow> string \<Rightarrow> string \<Rightarrow> string option \<Rightarrow> string list \<Rightarrow> f64 \<Rightarrow> pending_launch" where
  "new_pending p name token cwd internal reserved known t =
     \<lparr> pl_token = token, pl_provider = p, pl_name = name, pl_cwd = cwd, pl_tmux_session = Some internal,
       pl_tmux_pane = None, pl_expected_session_id = reserved, pl_root_pid = None, pl_root_pid_start = None,
       pl_preexisting = Some known, pl_candidate_session_id = None, pl_candidate_observed_at = None, pl_created_at = t \<rparr>"

definition new_session_with_reserved_thread ::
  "core_env \<Rightarrow> pika_config \<Rightarrow> outside \<Rightarrow> string \<Rightarrow> provider \<Rightarrow> bool \<Rightarrow> string \<Rightarrow> string option \<Rightarrow> open_receipt act" where
  "new_session_with_reserved_thread env pk ou name p attach launch_token shared_thread =
     act_bind (validated_launch_token pk name launch_token) (\<lambda>token.
     act_bind (observe_complete ou ''start a new conversation'') (\<lambda>ps.
     act_then (ensuring (ensure_new_identity_unowned (ce_uuid env) shared_thread p ps)) (
     act_bind (list_panes ou) (\<lambda>panes.
     act_bind (resolve_local env ou name) (\<lambda>saved.
     act_then (require (saved = []) (Other_refusal ''the name already names a saved conversation'')) (
     act_bind (case shared_thread of
         Some thread \<Rightarrow> act_return (Some thread)
       | None \<Rightarrow> if p = Claude then act_bind (reading ou (ou_uuid ou)) (\<lambda>i. act_return (Some i)) else act_return None) (\<lambda>reserved.
     act_bind (required (pk_current_dir pk) (Other_refusal ''no current directory'')) (\<lambda>cwd.
     let argv = launch_argv pk (case shared_thread of Some thread \<Rightarrow> resume_argv pk p thread | None \<Rightarrow> new_argv pk p name reserved);
         internal = free_tmux_name (internal_name p (or_default token reserved)) panes in
     act_bind (reading ou (\<lambda>n. ou_browse ou n p)) (\<lambda>known.
     act_bind (clock ou) (\<lambda>t.
     let pl = new_pending p name token cwd internal reserved known t in
     act_bind (clock ou) (\<lambda>t1.
     act_bind (trying ou (add_pending t1 pl)) (\<lambda>added.
     act_then (require added (Other_refusal ''the conversation is already starting'')) (
     act_then (case shared_thread of None \<Rightarrow> act_return () | Some thread \<Rightarrow> bind_required ou token p thread)
       (finish_reserved_launch env pk ou pl internal argv (shared_thread \<noteq> None) attach))))))))))))))"

definition new_session :: "core_env \<Rightarrow> pika_config \<Rightarrow> outside \<Rightarrow> string \<Rightarrow> provider \<Rightarrow> bool \<Rightarrow> open_receipt act" where
  "new_session env pk ou name p attach =
     act_bind (reading ou (ou_uuid ou)) (\<lambda>token.
     new_session_with_reserved_thread env pk ou name p attach token None)"

definition new_shared_codex_home ::
  "core_env \<Rightarrow> pika_config \<Rightarrow> outside \<Rightarrow> string \<Rightarrow> string \<Rightarrow> string \<Rightarrow> open_receipt act" where
  "new_shared_codex_home env pk ou name launch_token thread_id =
     act_then (require (ce_uuid env thread_id) (Other_refusal ''invalid thread''))
       (new_session_with_reserved_thread env pk ou name Codex False launch_token (Some thread_id))"

definition open_name :: "core_env \<Rightarrow> pika_config \<Rightarrow> outside \<Rightarrow> string \<Rightarrow> bool \<Rightarrow> bool \<Rightarrow> open_receipt act" where
  "open_name env pk ou query attach allow_create =
     act_bind (resolve_local env ou query) (\<lambda>found.
     case found of
       [s] \<Rightarrow>
         act_bind (looking ou (\<lambda>db. get_session db (s_provider s) (s_session_id s))) (\<lambda>row.
         act_then (act_when (row = None) (act_bind (clock ou) (\<lambda>t. act_then (trying ou (upsert_session t s False)) (act_return ()))))
           (open_session env pk ou s attach))
     | _ # _ \<Rightarrow> act_fail (Ambiguous found)
     | [] \<Rightarrow>
         act_bind (resolve_pending ou query) (\<lambda>pending.
         case pending of
           [pl] \<Rightarrow> open_pending env pk ou (pl_token pl) attach
         | _ # _ \<Rightarrow> act_fail (Refused (Other_refusal ''several pending launches match; no new client was launched''))
         | [] \<Rightarrow> if allow_create then new_session env pk ou query (pk_default_provider pk) attach
                 else act_fail (Not_found query)))"

end
