(* ===== verification/Processes_Laws.thy ===== *)
theory Processes_Laws
  imports Processes
begin

text \<open>
  What a snapshot of processes proves: the walk below a root finds exactly its descendants, a
  revalidated ancestry holds in the table it was re-read from, and the selection of panes accounts
  for every provider process it saw.
\<close>

section \<open>Trees\<close>

definition known :: "processes \<Rightarrow> i64 \<Rightarrow> bool" where
  "known ps pid \<longleftrightarrow> map_of ps pid \<noteq> None"

text \<open>A process and one of its children, both in the snapshot.\<close>

definition begets :: "processes \<Rightarrow> (i64 \<times> i64) set" where
  "begets ps = {(p, c). known ps p \<and> known ps c \<and> (\<exists>r \<in> snd ` set ps. pr_parent_pid r = Some p \<and> pr_pid r = c)}"

lemma begets_children: "(p, c) \<in> begets ps \<longleftrightarrow> known ps p \<and> known ps c \<and> c \<in> set (children_of ps p)"
  by (force simp: begets_def children_of_def)

lemma begets_known: "(p, c) \<in> begets ps \<Longrightarrow> known ps p \<and> known ps c"
  by (simp add: begets_def)

lemma walk_distinct: "distinct (walk_tree ps seen stack) \<and> set (walk_tree ps seen stack) \<inter> set seen = {}"
  by (induction ps seen stack rule: walk_tree.induct) auto

lemma walk_sound:
  "pid \<in> set (walk_tree ps seen stack) \<Longrightarrow> known ps pid \<and> (\<exists>s \<in> set stack. (s, pid) \<in> (begets ps)\<^sup>*)"
proof (induction ps seen stack rule: walk_tree.induct)
  case (2 ps seen top stack)
  show ?case
  proof (cases "top \<in> set seen \<or> map_of ps top = None")
    case True
    with 2 show ?thesis by (auto split: if_splits)
  next
    case False
    with "2.prems" consider "pid = top" | "pid \<in> set (walk_tree ps (top # seen) (children_of ps top @ stack))" by auto
    then show ?thesis
    proof cases
      case 1
      with False show ?thesis by (auto simp: known_def)
    next
      case 2
      with "2.IH"(3) False have known: "known ps pid"
        and "\<exists>s \<in> set (children_of ps top @ stack). (s, pid) \<in> (begets ps)\<^sup>*" by auto
      then obtain s where s: "s \<in> set (children_of ps top) \<or> s \<in> set stack" and path: "(s, pid) \<in> (begets ps)\<^sup>*" by auto
      from s show ?thesis
      proof
        assume child: "s \<in> set (children_of ps top)"
        from path known have "known ps s" by (cases rule: converse_rtranclE) (auto simp: begets_def)
        with child False have "(top, s) \<in> begets ps" by (simp add: begets_children known_def)
        with path known show ?thesis by (auto intro: converse_rtrancl_into_rtrancl)
      qed (use path known in auto)
    qed
  qed
qed simp

text \<open>Where a walk has been, it leaves nothing behind.\<close>

definition closed_below :: "processes \<Rightarrow> i64 set \<Rightarrow> i64 set \<Rightarrow> bool" where
  "closed_below ps P Q \<longleftrightarrow> (\<forall>p c. p \<in> P \<longrightarrow> (p, c) \<in> begets ps \<longrightarrow> c \<in> Q)"

lemma closed_belowD: "closed_below ps P Q \<Longrightarrow> p \<in> P \<Longrightarrow> (p, c) \<in> begets ps \<Longrightarrow> c \<in> Q"
  by (auto simp: closed_below_def)

lemma walk_complete:
  "closed_below ps (set seen) (set seen \<union> set stack) \<Longrightarrow>
   closed_below ps (set seen \<union> set (walk_tree ps seen stack)) (set seen \<union> set (walk_tree ps seen stack))
   \<and> (\<forall>s \<in> set stack. known ps s \<longrightarrow> s \<in> set seen \<union> set (walk_tree ps seen stack))"
proof (induction ps seen stack rule: walk_tree.induct)
  case (2 ps seen top stack)
  show ?case
  proof (cases "top \<in> set seen")
    case True
    with "2.prems" have "closed_below ps (set seen) (set seen \<union> set stack)" by (auto simp: closed_below_def)
    from "2.IH"(1) [OF True this] True show ?thesis by auto
  next
    case new: False
    show ?thesis
    proof (cases "map_of ps top = None")
      case True
      then have "closed_below ps (set (top # seen)) (set (top # seen) \<union> set stack)"
        using "2.prems" by (auto simp: closed_below_def begets_def known_def)
      note IH = "2.IH"(2) [OF new True this]
      moreover have "c \<noteq> top" if "(p, c) \<in> begets ps" for p c
        using begets_known [OF that] True by (auto simp: known_def)
      ultimately show ?thesis using True new unfolding closed_below_def
        by (auto simp: known_def)
    next
      case False
      have "closed_below ps (set (top # seen)) (set (top # seen) \<union> set (children_of ps top @ stack))"
        using "2.prems" by (auto simp: closed_below_def begets_children)
      from "2.IH"(3) [OF new False this] False new show ?thesis by auto
    qed
  qed
qed (simp add: closed_below_def)

lemma process_tree_descendants:
  "set (process_tree root ps) = (if known ps root then (begets ps)\<^sup>* `` {root} else {})"
proof (cases "known ps root")
  case True
  let ?R = "set (walk_tree ps [] [root])"
  have closed: "closed_below ps ?R ?R" and root: "root \<in> ?R"
    using walk_complete [of ps "[]" "[root]"] True by (auto simp: closed_below_def)
  have "pid \<in> ?R" if "(root, pid) \<in> (begets ps)\<^sup>*" for pid
    using that by (induction rule: rtrancl_induct) (use root closed_belowD [OF closed] in blast)+
  moreover have "(root, pid) \<in> (begets ps)\<^sup>*" if "pid \<in> ?R" for pid using walk_sound [OF that] by auto
  ultimately show ?thesis using True by (auto simp: process_tree_def known_def simp del: walk_tree.simps)
qed (simp add: process_tree_def known_def)

lemma process_tree_distinct: "distinct (process_tree root ps)"
  using walk_distinct [of ps "[]" "[root]"] by (simp add: process_tree_def del: walk_tree.simps)

lemma process_tree_known: "pid \<in> set (process_tree root ps) \<Longrightarrow> known ps pid"
  using walk_sound [of pid ps "[]" "[root]"] by (simp add: process_tree_def split: if_splits del: walk_tree.simps)

text \<open>(C21) The tree below a process is exactly its descendants: the processes of the snapshot a chain of
  parents leads to, each once, whatever cycles or missing parents the snapshot has; below a process
  the snapshot does not have there is nothing.\<close>

theorem process_tree_exact:
  "set (process_tree root ps) = {pid. map_of ps root \<noteq> None \<and> (root, pid) \<in> (begets ps)\<^sup>*}
   \<and> distinct (process_tree root ps)"
  using process_tree_descendants [of root ps] process_tree_distinct by (auto simp: known_def)

section \<open>Ancestry\<close>

text \<open>A snapshot keys every record by its own pid, as every snapshot that was taken does.\<close>

definition consistent :: "processes \<Rightarrow> bool" where
  "consistent ps \<longleftrightarrow> distinct (map fst ps) \<and> (\<forall>(pid, r) \<in> set ps. pr_pid r = pid)"

lemma consistent_pid: "consistent ps \<Longrightarrow> map_of ps pid = Some r \<Longrightarrow> pr_pid r = pid"
  by (auto simp: consistent_def dest: map_of_SomeD)

lemma consistent_child:
  assumes "consistent ps" and "map_of ps c = Some r" and "pr_parent_pid r = Some p" and "known ps p"
  shows "(p, c) \<in> begets ps"
  using assms consistent_pid [OF assms(1, 2)] by (force simp: begets_def known_def dest: map_of_SomeD)

lemma generation_iff: "generation r = g \<longleftrightarrow> pr_pid r = pg_pid g \<and> pr_start_time r = pg_start_time g"
  by (cases g) (auto simp: generation_def)

text \<open>A chain of parents, each read when the proof is made.\<close>

fun parent_chain :: "(i64 \<Rightarrow> process_record option) \<Rightarrow> i64 \<Rightarrow> process_record list \<Rightarrow> bool" where
  "parent_chain read root [] = False"
| "parent_chain read root (r # rs) =
     (\<exists>now. read (pr_pid r) = Some now \<and> pr_start_time now = pr_start_time r
        \<and> (case rs of [] \<Rightarrow> pr_pid r = root
           | parent # _ \<Rightarrow> pr_parent_pid now = Some (pr_pid parent) \<and> parent_chain read root rs))"

lemma ancestors_to_shape:
  assumes "consistent ps" and "ancestors_to root descendant ps seen current = Some path"
  shows "\<exists>r rs. path = r # rs \<and> map_of ps current = Some r \<and> pr_pid r = current
    \<and> (current = pg_pid descendant \<longrightarrow> generation r = descendant) \<and> generation (last path) = root"
  using assms
proof (induction root descendant ps seen current arbitrary: path rule: ancestors_to.induct)
  case (1 root descendant ps seen current)
  from "1.prems" obtain r where r: "map_of ps current = Some r" and new: "current \<notin> set seen"
    and own: "current = pg_pid descendant \<longrightarrow> generation r = descendant"
    by (subst (asm) ancestors_to.simps) (auto split: if_splits option.splits)
  have pid: "pr_pid r = current" by (rule consistent_pid [OF "1.prems"(1) r])
  show ?case
  proof (cases "current = pg_pid root")
    case True
    with "1.prems" r own new pid show ?thesis
      by (subst (asm) ancestors_to.simps) (auto split: if_splits)
  next
    case False
    with "1.prems" r own new obtain parent rest where parent: "pr_parent_pid r = Some parent"
      and rest: "ancestors_to root descendant ps (current # seen) parent = Some rest" and path: "path = r # rest"
      by (subst (asm) ancestors_to.simps) (auto split: if_splits option.splits)
    have "\<not> (current = pg_pid descendant \<and> generation r \<noteq> descendant)" using own by blast
    from "1.IH" [OF new r this False parent "1.prems"(1) rest] path r pid own show ?thesis by auto
  qed
qed

lemma revalidate_chain:
  assumes "consistent ps" and "ancestors_to root descendant ps seen current = Some path"
    and "revalidate_path root read path = Inr ()"
  shows "parent_chain read (pg_pid root) path"
  using assms
proof (induction root descendant ps seen current arbitrary: path rule: ancestors_to.induct)
  case (1 root descendant ps seen current)
  from "1.prems"(2) obtain r where r: "map_of ps current = Some r" and new: "current \<notin> set seen"
    and own: "\<not> (current = pg_pid descendant \<and> generation r \<noteq> descendant)"
    by (subst (asm) ancestors_to.simps) (auto split: if_splits option.splits)
  have pid: "pr_pid r = current" by (rule consistent_pid [OF "1.prems"(1) r])
  show ?case
  proof (cases "current = pg_pid root")
    case True
    with "1.prems" r own new pid show ?thesis
      by (subst (asm) ancestors_to.simps) (auto split: if_splits option.splits)
  next
    case False
    with "1.prems"(2) r own new obtain parent rest where parent: "pr_parent_pid r = Some parent"
      and rest: "ancestors_to root descendant ps (current # seen) parent = Some rest" and path: "path = r # rest"
      by (subst (asm) ancestors_to.simps) (auto split: if_splits option.splits)
    from ancestors_to_shape [OF "1.prems"(1) rest] obtain q qs where q: "rest = q # qs" "pr_pid q = parent" by blast
    from "1.prems"(3) path pid False obtain now where now: "read (pr_pid r) = Some now" "pr_start_time now = pr_start_time r"
      "pr_parent_pid now = pr_parent_pid r" and go: "revalidate_path root read rest = Inr ()"
      by (auto split: option.splits if_splits)
    from "1.IH" [OF new r own False parent "1.prems"(1) rest go] now q parent path show ?thesis by auto
  qed
qed

lemma parent_chain_descends:
  assumes "consistent fresh" and "parent_chain (map_of fresh) root (r # rs)"
  shows "known fresh root \<and> (root, pr_pid r) \<in> (begets fresh)\<^sup>*"
  using assms(2)
proof (induction rs arbitrary: r)
  case Nil
  then show ?case by (auto simp: known_def)
next
  case (Cons q qs)
  from Cons.prems have rest: "parent_chain (map_of fresh) root (q # qs)" by auto
  from Cons.prems obtain now where now: "map_of fresh (pr_pid r) = Some now" "pr_parent_pid now = Some (pr_pid q)"
    by auto
  from rest have "known fresh (pr_pid q)" by (auto simp: known_def)
  with now consistent_child [OF assms(1)] have "(pr_pid q, pr_pid r) \<in> begets fresh" by blast
  with Cons.IH [OF rest] show ?case by (blast intro: rtrancl_into_rtrancl)
qed

lemma revalidated_start:
  "revalidate_path root read path = Inr () \<Longrightarrow> r \<in> set path \<Longrightarrow>
   map_option pr_start_time (read (pr_pid r)) = Some (pr_start_time r)"
  by (induction path) (auto split: option.splits if_splits)

text \<open>(C12) A proof of ancestry holds in the machine it was read from: when re-reading the chain succeeds, the
  provider is, in the table the readings come from, in the tree below the pane's root, and both are
  the very generations the caller captured. A reused pid, a lost parent or a moved process fails.\<close>

theorem ancestry_proof_holds:
  assumes "consistent ps" and "consistent fresh"
    and "revalidate_ancestry_with root descendant ps (map_of fresh) = Inr ()"
  shows "pg_pid descendant \<in> set (process_tree (pg_pid root) fresh)
    \<and> map_option pr_start_time (map_of fresh (pg_pid descendant)) = Some (pg_start_time descendant)
    \<and> map_option pr_start_time (map_of fresh (pg_pid root)) = Some (pg_start_time root)"
proof -
  from assms(3) obtain path where path: "ancestors_to root descendant ps [] (pg_pid descendant) = Some path"
    and go: "revalidate_path root (map_of fresh) path = Inr ()"
    by (auto simp: revalidate_ancestry_with_def ancestry_path_def rbind_Inr_iff ok_or_def split: option.splits)
  from ancestors_to_shape [OF assms(1) path] obtain r rs where rs: "path = r # rs" "generation r = descendant"
    and root: "generation (last path) = root" by blast
  have chain: "parent_chain (map_of fresh) (pg_pid root) (r # rs)" using revalidate_chain [OF assms(1) path go] rs(1) by simp
  from parent_chain_descends [OF assms(2) this] rs(2)
  have "pg_pid descendant \<in> set (process_tree (pg_pid root) fresh)"
    by (simp add: process_tree_descendants generation_iff)
  moreover have "r \<in> set path" "last path \<in> set path" using rs(1) by simp_all
  note revalidated_start [OF go this(1)] revalidated_start [OF go this(2)]
  ultimately show ?thesis using rs(2) root by (simp add: generation_iff)
qed

definition demo_processes :: processes where
  "demo_processes =
     [(2, \<lparr> pr_pid = 2, pr_parent_pid = Some 1, pr_start_time = 10, pr_argv = [''zsh''] \<rparr>),
      (5, \<lparr> pr_pid = 5, pr_parent_pid = Some 2, pr_start_time = 20, pr_argv = [''/usr/bin/codex'', ''resume'', ''id''] \<rparr>),
      (7, \<lparr> pr_pid = 7, pr_parent_pid = Some 5, pr_start_time = 30, pr_argv = [''codex'', ''exec''] \<rparr>)]"

lemma ancestry_proof_holds_witness:
  "(5 :: int) \<in> set (process_tree 2 demo_processes)"
proof -
  have "revalidate_ancestry_with \<lparr> pg_pid = 2, pg_start_time = 10 \<rparr> \<lparr> pg_pid = 5, pg_start_time = 20 \<rparr> demo_processes
      (map_of demo_processes) = Inr ()" by code_simp
  moreover have "consistent demo_processes" by (simp add: consistent_def demo_processes_def)
  ultimately show ?thesis using ancestry_proof_holds [of demo_processes demo_processes] by fastforce
qed

section \<open>The selection of panes\<close>

text \<open>Whether a provider process in a tagged pane is accounted for by the owner the selection found there.\<close>

definition accounted ::
  "(string \<Rightarrow> bool) \<Rightarrow> (i64 \<Rightarrow> i64 \<Rightarrow> bool) \<Rightarrow> processes \<Rightarrow> pane \<Rightarrow> i64 \<Rightarrow> i64 \<Rightarrow> bool" where
  "accounted uuid advisory ps pn owner pid \<longleftrightarrow>
     pid = owner \<or> advisory pid owner \<or> is_provider_helper uuid pid owner (pn_pane_pid pn) ps"

lemma find_SomeD: "find P xs = Some x \<Longrightarrow> P x \<and> x \<in> set xs"
  by (induction xs) (auto split: if_splits)

lemma proven_owner_Some:
  assumes "proven_owner pids proves ps pn = Some owner"
  shows "owner \<in> set (process_tree (pn_pane_pid pn) ps) \<and> proves owner pn \<and> (finite pids \<longrightarrow> owner \<in> pids)"
  using find_SomeD [OF assms [unfolded proven_owner_def]] by (cases "finite pids") simp_all

lemma proven_owner_None:
  "finite pids \<Longrightarrow> proven_owner pids proves ps pn = None \<Longrightarrow> pid \<in> pids \<Longrightarrow>
   pid \<in> set (process_tree (pn_pane_pid pn) ps) \<Longrightarrow> \<not> proves pid pn"
  by (auto simp: proven_owner_def find_None_iff)

definition selection_sound ::
  "(string \<Rightarrow> bool) \<Rightarrow> provider \<Rightarrow> i64 set \<Rightarrow> processes \<Rightarrow> (i64 \<Rightarrow> pane \<Rightarrow> bool) \<Rightarrow> (i64 \<Rightarrow> i64 \<Rightarrow> bool)
    \<Rightarrow> pane set \<Rightarrow> identity_pane_selection \<Rightarrow> bool" where
  "selection_sound uuid p pids ps proves advisory panes sel \<longleftrightarrow>
     (\<forall>pn owner. (pn, owner) \<in> set (ip_candidates sel) \<longrightarrow> pn \<in> panes \<and> owner \<in> pids \<and> proves owner pn
        \<and> owner \<in> set (process_tree (pn_pane_pid pn) ps))
     \<and> (\<not> ip_incomplete_root sel \<longrightarrow> (\<forall>pn \<in> panes. known ps (pn_pane_pid pn)))
     \<and> (\<not> ip_incomplete_root sel \<longrightarrow> \<not> ip_ambiguous_provider sel \<longrightarrow>
          (\<forall>pn \<in> panes. \<forall>pid \<in> provider_pids p pn ps. \<exists>owner.
             (pn, owner) \<in> set (ip_candidates sel) \<and> accounted uuid advisory ps pn owner pid))"

lemma selection_sound_empty:
  "selection_sound uuid p pids ps proves advisory {}
    \<lparr> ip_candidates = [], ip_ambiguous_provider = False, ip_incomplete_root = False \<rparr>"
  by (simp add: selection_sound_def)

lemma select_pane_sound:
  assumes "finite pids" and sound: "selection_sound uuid p pids ps proves advisory panes sel"
  shows "selection_sound uuid p pids ps proves advisory (insert pn panes) (select_pane uuid p pids ps proves advisory pn sel)"
proof (cases "map_of ps (pn_pane_pid pn) = None")
  case True
  with sound show ?thesis by (simp add: selection_sound_def select_pane_def)
next
  case root: False
  show ?thesis
  proof (cases "proven_owner pids proves ps pn")
    case None
    with sound root show ?thesis by (simp add: selection_sound_def select_pane_def known_def)
  next
    case (Some owner)
    from proven_owner_Some [OF Some] assms(1) have owner: "owner \<in> set (process_tree (pn_pane_pid pn) ps)"
      "proves owner pn" "owner \<in> pids" by simp_all
    have "accounted uuid advisory ps pn owner pid"
      if "\<not> (\<exists>pid \<in> provider_pids p pn ps. \<not> advisory pid owner \<and> unverified_provider uuid pid owner (pn_pane_pid pn) ps)"
        "pid \<in> provider_pids p pn ps" for pid
      using that by (auto simp: accounted_def unverified_provider_def)
    with sound root Some owner show ?thesis
      unfolding selection_sound_def select_pane_def known_def by (simp split: if_split) blast
  qed
qed

lemma selection_is_sound:
  assumes "finite pids"
  shows "selection_sound uuid p pids ps proves advisory (set panes)
    (identity_pane_candidates_with_advisory uuid panes p pids ps proves advisory)"
proof -
  have "selection_sound uuid p pids ps proves advisory (S \<union> set panes)
      (fold (select_pane uuid p pids ps proves advisory) panes sel)"
    if "selection_sound uuid p pids ps proves advisory S sel" for S sel
    using that
  proof (induction panes arbitrary: S sel)
    case (Cons pn panes)
    from Cons.IH [OF select_pane_sound [OF assms Cons.prems]] show ?case by simp
  qed simp
  from this [OF selection_sound_empty] show ?thesis by (simp add: identity_pane_candidates_with_advisory_def)
qed

end
