(* ===== verification/Hooks_Laws.thy ===== *)
theory Hooks_Laws
  imports Hooks Store_Laws
begin

text \<open>
  What hooks and process exits may do to the session store. A transaction is related to the stores it
  starts and ends in by any reflexive and transitive relation its single operations respect; two such
  relations are the reachability by the operations of the store and the untracked conversations being
  the same.
\<close>

section \<open>Relations a transaction respects\<close>

definition obeys :: "(store_db \<Rightarrow> store_db \<Rightarrow> bool) \<Rightarrow> 'a tx \<Rightarrow> bool" where
  "obeys R m \<longleftrightarrow> (\<forall>db x db'. m db = Inr (x, db') \<longrightarrow> R db db')"

locale transaction_relation =
  fixes R :: "store_db \<Rightarrow> store_db \<Rightarrow> bool"
  assumes refl: "R db db"
    and trans: "R db1 db2 \<Longrightarrow> R db2 db3 \<Longrightarrow> R db1 db3"
begin

lemma return: "obeys R (tx_return x)"
  by (simp add: obeys_def tx_return_def refl)

lemma get: "obeys R (tx_get f)"
  by (simp add: obeys_def tx_get_def refl)

lemma chain:
  assumes "obeys R m" and "\<And>x. obeys R (f x)"
  shows "obeys R (tx_bind m f)"
  using assms trans unfolding obeys_def tx_bind_def rbind_Inr_iff by (fastforce split: prod.splits)

lemma choosing: "(\<And>db. obeys R (g (f db))) \<Longrightarrow> obeys R (tx_bind (tx_get f) g)"
  by (fastforce simp: obeys_def tx_bind_def tx_get_def)

lemma doing: "(\<And>db. R db (snd (f db))) \<Longrightarrow> obeys R (tx_do f)"
  unfolding obeys_def tx_do_def by (metis Inr_inject snd_conv)

lemma putting: "(\<And>db. R db (f db)) \<Longrightarrow> obeys R (tx_put f)"
  by (auto simp: obeys_def tx_put_def)

lemma trying: "(\<And>db b db'. f db = Inr (b, db') \<Longrightarrow> R db db') \<Longrightarrow> obeys R (tx_try f)"
  by (auto simp: obeys_def tx_try_def split: sum.splits)

lemma conditional: "obeys R m \<Longrightarrow> obeys R (tx_when b m)"
  by (simp add: tx_when_def chain return)

lemma related: "obeys R m \<Longrightarrow> m db = Inr (x, db') \<Longrightarrow> R db db'"
  unfolding obeys_def by blast

end

text \<open>The operations a hook or an exit runs.\<close>

locale store_relation = transaction_relation R for env :: hook_env and R :: "store_db \<Rightarrow> store_db \<Rightarrow> bool" +
  assumes meta: "R db (set_meta k v db)" "R db (delete_meta k db)"
    and upsert: "upsert_session now s keep db = Inr (b, db') \<Longrightarrow> R db db'"
    and runtime: "clear_session_runtime p i t db = Inr (b, db') \<Longrightarrow> R db db'"
    and shared: "R db (snd (clear_shared_root_pid p i pid db))"
    and delete: "R db (snd (delete_session p i keep db))"
    and observe: "record_status_observation p i ob db = Inr (b, db') \<Longrightarrow> R db db'"
    and clear: "R db (snd (clear_status_observation p i kind db))"
    and clear_through: "R db (snd (clear_status_observation_observed_through p i kind t db))"
    and capture: "R db (capture_identity_interruption p i db)"
    and attach: "R db (record_attach (he_store env) p i db)"
    and hook: "record_hook_observation ho db = Inr db' \<Longrightarrow> R db db'"
    and pending: "R db (snd (delete_pending token db))"
    and exit_receipt: "R db (snd (record_pending_launch_exit (he_launch env) token p reported owner code t db))"
    and bind: "R db (snd (bind_launch now token p i db))"
    and unbind: "R db (snd (delete_launch_binding_if token p i db))"
    and recovery: "R db (snd (delete_recovery_owner p i db))"
    and certify: "R db (snd (certify_launch now token p i pid start db))"
    and switch: "R db (snd (switch_launch_binding now token p i j pid start db))"
    and own: "set_live_owner lo db = Inr (b, db') \<Longrightarrow> R db db'"
    and owners: "R db (snd (delete_live_owners p i pid_opt owner_opt db))"
    and owners_through: "R db (snd (delete_live_owners_observed_through p i pid_opt owner_opt t db))"
    and other_owners: "R db (snd (delete_other_live_owner_sessions p pid i db))"
    and generation: "R db (snd (delete_live_owner_generation lo db))"
begin

lemma recording: "obeys R (record_hook ho)"
  unfolding record_hook_def by (rule trying) (auto simp: rbind_Inr_iff intro: hook)

lemma attempts:
  "obeys R (tx_try (upsert_session now s keep))" "obeys R (tx_try (clear_session_runtime p i t))"
  "obeys R (tx_try (record_status_observation p i ob))" "obeys R (tx_try (set_live_owner lo))"
  by (rule trying, erule upsert, rule trying, erule runtime, rule trying, erule observe, rule trying, erule own)

lemmas rules = return get chain conditional recording

lemmas steps =
  doing [OF shared] doing [OF delete] doing [OF clear] doing [OF clear_through] putting [OF capture]
  putting [OF attach] doing [OF pending] doing [OF exit_receipt] doing [OF bind] doing [OF unbind]
  doing [OF recovery] doing [OF certify] doing [OF switch] doing [OF owners] doing [OF owners_through]
  doing [OF other_owners] doing [OF generation] putting [OF meta(1)] putting [OF meta(2)] attempts

lemma conflict: "obeys R (record_launch_conflict wall token winner p i label t)"
  unfolding record_launch_conflict_def Let_def
  by (intro rules steps) (auto intro: rules steps split: option.split)

lemma refusal: "obeys R (note_refusal pl token txt)"
  by (simp add: note_refusal_def rules steps)

lemma competitor: "obeys R (refuse_competitor wall token q j p i pl ctx)"
  unfolding refuse_competitor_def by (auto intro!: rules steps conflict split: option.split)

lemma switching: "obeys R (try_switch wall token q j p i pl ctx)"
  unfolding try_switch_def by (auto intro!: rules steps split: option.split)

lemma claiming: "obeys R (claim_launch wall token p i pl ctx)"
  unfolding claim_launch_def by (auto intro!: rules steps competitor switching split: option.split)

lemma admission: "obeys R (admit_token env wall p i pl ctx)"
  unfolding admit_token_def by (auto intro!: rules refusal claiming split: option.split)

lemma validation: "obeys R (validate_launch env wall p i pl ctx)"
  unfolding validate_launch_def by (auto intro!: rules refusal admission split: option.split)

lemma owning: "obeys R (update_owner p i pl ctx)"
  unfolding update_owner_def by (auto intro!: rules steps split: option.split)

lemma certifying: "obeys R (certify_hook wall token p i ctx)"
  unfolding certify_hook_def by (auto intro!: rules steps split: option.split)

lemma finishing: "obeys R (finish_launch env wall token p i ctx)"
  unfolding finish_launch_def note_attached_def by (auto intro!: rules steps certifying split: option.split)

lemma observing: "obeys R (store_observation p i pl ctx ob)"
  unfolding store_observation_def by (intro rules steps)

lemma storing: "obeys R (store_projection wall p i ctx placeholder s)"
  unfolding store_projection_def by (auto intro!: rules steps split: option.split)

lemma projecting: "obeys R (project_hook env wall p i pl ctx token existing placeholder name fresh live)"
  unfolding project_hook_def Let_def by (intro rules observing storing finishing)

lemma admitted: "obeys R (admitted_hook env wall p i pl ctx token existing)"
  unfolding admitted_hook_def by (auto intro!: rules owning projecting split: option.split)

lemma known: "obeys R (known_hook env wall p i pl ctx existing)"
  unfolding known_hook_def by (auto intro!: rules steps validation admitted split: launch_decision.split)

lemma transaction: "obeys R (hook_transaction env wall p pl ctx)"
  unfolding hook_transaction_def Let_def by (auto intro!: rules steps conflict known split: option.split)

lemma hook_handled: "handle_hook env wall p payload context db = Inr (r, db') \<Longrightarrow> R db db'"
  using transaction unfolding obeys_def handle_hook_def
  by (auto simp: Let_def rbind_Inr_iff refl split: if_splits)

lemma exiting: "obeys R (handle_process_exit env wall p code session_id token owner_token t)"
proof -
  have generations: "obeys R (delete_generations rs)" for rs
    by (induction rs) (auto intro!: rules steps)
  have evidence: "obeys R (record_exit_evidence p i code t target)" for i target
    unfolding record_exit_evidence_def by (auto intro!: rules steps)
  have settle: "obeys R (settle_exit wall p i code t target)" for i target
    unfolding settle_exit_def by (intro rules steps evidence)
  have release: "obeys R (release_exit tok p i recovered)" for tok i recovered
    unfolding release_exit_def by (auto intro!: rules steps split: option.split)
  have bound: "obeys R (bound_exit wall p code tok owner_token t target)" for tok target
    unfolding bound_exit_def Let_def by (auto intro!: rules steps generations settle release)
  show ?thesis
    unfolding handle_process_exit_def by (auto intro!: rules steps bound split: option.split)
qed

lemma exit_handled:
  "handle_process_exit env wall p code session_id token owner_token t db = Inr (b, db') \<Longrightarrow> R db db'"
  using exiting unfolding obeys_def by blast

end

section \<open>Hooks and exits are operations of the store\<close>

datatype ledger_op = Store_write store_op | Put_meta string string | Drop_meta string

fun ledger_step :: "hook_env \<Rightarrow> ledger_op \<Rightarrow> store_db \<Rightarrow> store_error + store_db" where
  "ledger_step env (Store_write op) db = store_step (he_store env) (he_launch env) op db"
| "ledger_step env (Put_meta k v) db = Inr (set_meta k v db)"
| "ledger_step env (Drop_meta k) db = Inr (delete_meta k db)"

lemma one_write: "ledger_step env op db = Inr db' \<Longrightarrow> reachable (ledger_step env) db db'"
  by (rule reachable.step [OF reachable.start])

lemma session_write:
  "session_step (he_store env) op db = Inr db' \<Longrightarrow> reachable (ledger_step env) db db'"
  by (rule one_write [of _ "Store_write (Session_op op)"]) simp

lemma evidence_write:
  "evidence_step (he_store env) op db = Inr db' \<Longrightarrow> reachable (ledger_step env) db db'"
  by (rule one_write [of _ "Store_write (Evidence_op op)"]) simp

lemma launch_write:
  "launch_step (he_launch env) op db = Inr db' \<Longrightarrow> reachable (ledger_step env) db db'"
  by (rule one_write [of _ "Store_write (Launch_op op)"]) simp

lemma binding_write: "binding_step op db = Inr db' \<Longrightarrow> reachable (ledger_step env) db db'"
  by (rule one_write [of _ "Store_write (Binding_op op)"]) simp

lemma owner_write: "owner_step op db = Inr db' \<Longrightarrow> reachable (ledger_step env) db db'"
  by (rule one_write [of _ "Store_write (Owner_op op)"]) simp

interpretation written: store_relation env "reachable (ledger_step env)" for env
proof
  show "reachable (ledger_step env) db db" for db by (rule reachable.start)
  show "reachable (ledger_step env) a c" if "reachable (ledger_step env) a b" "reachable (ledger_step env) b c" for a b c
    using that(2, 1) by (rule reachable_trans)
  show "reachable (ledger_step env) db (set_meta k v db)" for db k v by (rule one_write [of _ "Put_meta k v"]) simp
  show "reachable (ledger_step env) db (delete_meta k db)" for db k by (rule one_write [of _ "Drop_meta k"]) simp
  show "reachable (ledger_step env) db db'" if "upsert_session now s keep db = Inr (b, db')" for now s keep db b db'
    using that by (intro session_write [of _ "Upsert now s keep"]) (simp add: checked_Inr)
  show "reachable (ledger_step env) db db'" if "clear_session_runtime p i t db = Inr (b, db')" for p i t db b db'
    using that by (intro session_write [of _ "Clear_runtime p i t"]) (simp add: checked_Inr)
  show "reachable (ledger_step env) db (snd (clear_shared_root_pid p i pid db))" for p i pid db
    by (rule session_write [of _ "Clear_shared_pid p i pid"]) simp
  show "reachable (ledger_step env) db (snd (delete_session p i keep db))" for p i keep db
    by (rule session_write [of _ "Delete_session p i keep"]) simp
  show "reachable (ledger_step env) db db'" if "record_status_observation p i ob db = Inr (b, db')" for p i ob db b db'
    using that by (intro evidence_write [of _ "Record_observation p i ob"]) (simp add: checked_Inr)
  show "reachable (ledger_step env) db (snd (clear_status_observation p i kind db))" for p i kind db
    by (rule evidence_write [of _ "Clear_observation p i kind"]) simp
  show "reachable (ledger_step env) db (snd (clear_status_observation_observed_through p i kind t db))" for p i kind t db
    by (rule evidence_write [of _ "Clear_observation_through p i kind t"]) simp
  show "reachable (ledger_step env) db (capture_identity_interruption p i db)" for p i db
    by (rule evidence_write [of _ "Capture_interruption p i"]) simp
  show "reachable (ledger_step env) db (record_attach (he_store env) p i db)" for p i db
    by (rule evidence_write [of _ "Attach p i"]) simp
  show "reachable (ledger_step env) db db'" if "record_hook_observation ho db = Inr db'" for ho db db'
    using that by (intro evidence_write [of _ "Hook ho"]) simp
  show "reachable (ledger_step env) db (snd (delete_pending token db))" for token db
    by (rule launch_write [of _ "Delete_pending token"]) simp
  show "reachable (ledger_step env) db
      (snd (record_pending_launch_exit (he_launch env) token p reported owner code t db))" for token p reported owner code t db
    by (rule launch_write [of _ "Record_exit token p reported owner code t"]) simp
  show "reachable (ledger_step env) db (snd (bind_launch now token p i db))" for now token p i db
    by (rule binding_write [of "Bind now token p i"]) simp
  show "reachable (ledger_step env) db (snd (delete_launch_binding_if token p i db))" for token p i db
    by (rule binding_write [of "Delete_binding_if token p i"]) simp
  show "reachable (ledger_step env) db (snd (delete_recovery_owner p i db))" for p i db
    by (rule binding_write [of "Delete_recovery p i"]) simp
  show "reachable (ledger_step env) db (snd (certify_launch now token p i pid start db))" for now token p i pid start db
    by (rule binding_write [of "Certify now token p i pid start"]) simp
  show "reachable (ledger_step env) db (snd (switch_launch_binding now token p i j pid start db))"
    for now token p i j pid start db
    by (rule binding_write [of "Switch_binding now token p i j pid start"]) simp
  show "reachable (ledger_step env) db db'" if "set_live_owner lo db = Inr (b, db')" for lo db b db'
    using that by (intro owner_write [of "Own lo"]) (simp add: checked_Inr)
  show "reachable (ledger_step env) db (snd (delete_live_owners p i pid_opt owner_opt db))" for p i pid_opt owner_opt db
    by (rule owner_write [of "Delete_owners p i pid_opt owner_opt"]) simp
  show "reachable (ledger_step env) db (snd (delete_live_owners_observed_through p i pid_opt owner_opt t db))"
    for p i pid_opt owner_opt t db
    by (rule owner_write [of "Delete_owners_through p i pid_opt owner_opt t"]) simp
  show "reachable (ledger_step env) db (snd (delete_other_live_owner_sessions p pid i db))" for p pid i db
    by (rule owner_write [of "Delete_other_owners p pid i"]) simp
  show "reachable (ledger_step env) db (snd (delete_live_owner_generation lo db))" for lo db
    by (rule owner_write [of "Delete_owner_generation lo"]) simp
qed

text \<open>No single operation of a hook or an exit touches the table of untracked conversations.\<close>

interpretation choices: store_relation env "\<lambda>db db'. st_untracked db' = st_untracked db" for env
proof -
  have evidence: "evidence_step se op db = Inr db' \<Longrightarrow> st_untracked db' = st_untracked db" for se op db db'
    by (drule evidence_frame) (simp add: same_choices_def)
  have launch: "launch_step le op db = Inr db' \<Longrightarrow> st_untracked db' = st_untracked db" for le op db db'
    by (drule launch_frame) simp
  have binding: "binding_step op db = Inr db' \<Longrightarrow> st_untracked db' = st_untracked db" for op db db'
    by (drule binding_frame) simp
  have owner: "owner_step op db = Inr db' \<Longrightarrow> st_untracked db' = st_untracked db" for op db db'
    by (drule owner_frame) simp
  show "store_relation env (\<lambda>db db'. st_untracked db' = st_untracked db)"
  proof
    show "st_untracked db' = st_untracked db" if "upsert_session now s keep db = Inr (b, db')" for now s keep db b db'
      using upsert_frame [OF that] by (simp add: same_choices_def)
    show "st_untracked db' = st_untracked db" if "clear_session_runtime p i t db = Inr (b, db')" for p i t db b db'
      using that by (auto simp: clear_session_runtime_def rbind_Inr_iff split: if_splits)
    show "st_untracked (snd (clear_shared_root_pid p i pid db)) = st_untracked db" for p i pid db
      by (simp add: clear_shared_root_pid_def split: option.split)
    show "st_untracked (snd (delete_session p i keep db)) = st_untracked db" for p i keep db
      by (simp add: delete_session_def Let_def)
    show "st_untracked db' = st_untracked db" if "record_status_observation p i ob db = Inr (b, db')" for p i ob db b db'
      using that by (intro evidence [of _ "Record_observation p i ob"]) (simp add: checked_Inr)
    show "st_untracked (record_attach (he_store env) p i db) = st_untracked db" for p i db
      by (intro evidence [of "he_store env" "Attach p i"]) simp
    show "st_untracked (capture_identity_interruption p i db) = st_untracked db" for p i db
      by (intro evidence [of undefined "Capture_interruption p i"]) simp
    show "st_untracked db' = st_untracked db" if "record_hook_observation ho db = Inr db'" for ho db db'
      using that by (intro evidence [of _ "Hook ho"]) simp
    show "st_untracked (snd (record_pending_launch_exit (he_launch env) token p reported own code t db)) = st_untracked db"
      for token p reported own code t db
      by (intro launch [of "he_launch env" "Record_exit token p reported own code t"]) simp
    show "st_untracked (snd (bind_launch now token p i db)) = st_untracked db" for now token p i db
      by (intro binding [of "Bind now token p i"]) simp
    show "st_untracked (snd (certify_launch now token p i pid start db)) = st_untracked db" for now token p i pid start db
      by (intro binding [of "Certify now token p i pid start"]) simp
    show "st_untracked (snd (switch_launch_binding now token p i j pid start db)) = st_untracked db"
      for now token p i j pid start db
      by (intro binding [of "Switch_binding now token p i j pid start"]) simp
    show "st_untracked db' = st_untracked db" if "set_live_owner lo db = Inr (b, db')" for lo db b db'
      using that by (intro owner [of "Own lo"]) (simp add: checked_Inr)
  qed (simp_all add: clear_status_observation_def clear_status_observation_observed_through_def Let_def
      delete_pending_def delete_launch_binding_if_def delete_recovery_owner_def delete_live_owners_def
      delete_live_owners_observed_through_def delete_other_live_owner_sessions_def
      delete_live_owner_generation_def remove_live_owners_def)
qed

lemma legacy_attach_frame [simp]:
  "st_sessions (legacy_attach se v db) = st_sessions db" "st_bindings (legacy_attach se v db) = st_bindings db"
  "st_pending (legacy_attach se v db) = st_pending db" "st_recovery_owners (legacy_attach se v db) = st_recovery_owners db"
  by (auto simp: legacy_attach_def set_meta_def split: option.splits sum.splits)

lemma record_attach_frame [simp]:
  "st_sessions (record_attach se p i db) = st_sessions db" "st_bindings (record_attach se p i db) = st_bindings db"
  "st_pending (record_attach se p i db) = st_pending db" "st_recovery_owners (record_attach se p i db) = st_recovery_owners db"
  by (auto simp: record_attach_def Let_def set_meta_def split: option.splits)

text \<open>Nor does any of them put a launch on the list of pending ones, or change one that is there.\<close>

definition no_new_pending :: "store_db \<Rightarrow> store_db \<Rightarrow> bool" where
  "no_new_pending db db' \<longleftrightarrow> (\<forall>token pending. get_pending db' token = Some pending \<longrightarrow> get_pending db token = Some pending)"

lemma same_pending: "st_pending db' = st_pending db \<Longrightarrow> no_new_pending db db'"
  by (simp add: no_new_pending_def get_pending_def)

lemma row_by_delete_key: "row_by key k (delete_where (\<lambda>r. key r = j) rows) = (if k = j then None else row_by key k rows)"
  by (induction rows) (auto simp: delete_where_def row_by_Cons row_by_def)

lemma get_pending_remove: "get_pending (remove_pending token db) t = (if t = token then None else get_pending db t)"
  by (simp add: get_pending_def remove_pending_def row_by_delete_key)

lemma removed_pending: "st_pending db' = st_pending (remove_pending token db) \<Longrightarrow> no_new_pending db db'"
  unfolding no_new_pending_def using get_pending_remove [of token db] by (auto simp: get_pending_def split: if_splits)

lemma launch_meta_pending [simp]: "st_pending (drop_launch_meta token db) = st_pending db"
  by (simp add: drop_launch_meta_def drop_receipts_def delete_meta_def)

interpretation launches: store_relation env no_new_pending for env
proof
  show "no_new_pending a c" if "no_new_pending a b" "no_new_pending b c" for a b c
    using that by (auto simp: no_new_pending_def)
  show "no_new_pending db db'" if "upsert_session now s keep db = Inr (b, db')" for now s keep db b db'
    using that by (intro same_pending) (auto simp: upsert_session_Inr written_store_def refresh_interruption_def
      insert_session_event_def Let_def split: if_splits)
  show "no_new_pending db db'" if "clear_session_runtime p i t db = Inr (b, db')" for p i t db b db'
    using that by (intro same_pending) (auto simp: clear_session_runtime_def rbind_Inr_iff update_session_def split: if_splits)
  show "no_new_pending db (snd (clear_shared_root_pid p i pid db))" for p i pid db
    by (intro same_pending) (simp add: clear_shared_root_pid_def update_session_def split: option.split)
  show "no_new_pending db (snd (delete_session p i keep db))" for p i keep db
    by (intro same_pending) (simp add: delete_session_def delete_evidence_def delete_live_owner_rows_def Let_def)
  show "no_new_pending db db'" if "record_status_observation p i ob db = Inr (b, db')" for p i ob db b db'
    using that by (intro same_pending) (auto simp: record_status_observation_def rbind_Inr_iff Let_def
      split: option.splits if_splits)
  show "no_new_pending db (record_attach (he_store env) p i db)" for p i db
    by (intro same_pending) simp
  show "no_new_pending db (capture_identity_interruption p i db)" for p i db
    by (intro same_pending) (simp add: capture_identity_interruption_def split: option.split)
  show "no_new_pending db db'" if "record_hook_observation ho db = Inr db'" for ho db db'
    using that by (intro same_pending) (auto simp: record_hook_observation_def rbind_Inr_iff Let_def
      split: option.splits if_splits)
  show "no_new_pending db (snd (delete_pending token db))" for token db
    by (rule removed_pending [of _ token]) (simp add: delete_pending_def)
  show "no_new_pending db (snd (record_pending_launch_exit (he_launch env) token p reported own code t db))"
    for token p reported own code t db
    by (intro same_pending) (simp add: record_pending_launch_exit_def set_meta_def Let_def split: option.split)
  show "no_new_pending db (snd (bind_launch now token p i db))" for now token p i db
    by (intro same_pending) (auto simp: bind_launch_def Let_def split: option.split)
  show "no_new_pending db (snd (certify_launch now token p i pid start db))" for now token p i pid start db
  proof (cases "fst (certify_launch now token p i pid start db)")
    case True
    then show ?thesis
      by (intro removed_pending [of _ token]) (auto simp: certify_launch_def remove_pending_def put_recovery_owner_def split: if_splits)
  next
    case False
    then show ?thesis by (intro same_pending) (auto simp: certify_launch_def split: if_splits)
  qed
  show "no_new_pending db (snd (switch_launch_binding now token p i j pid start db))"
    for now token p i j pid start db
    by (intro same_pending) (simp add: switch_launch_binding_def Let_def put_recovery_owner_def delete_recovery_owner_def)
  show "no_new_pending db db'" if "set_live_owner lo db = Inr (b, db')" for lo db b db'
    using that by (intro same_pending) (auto simp: set_live_owner_def rbind_Inr_iff Let_def split: if_splits option.splits)
qed (auto intro!: same_pending simp: set_meta_def delete_meta_def clear_status_observation_def
    clear_status_observation_observed_through_def Let_def delete_launch_binding_if_def delete_recovery_owner_def
    delete_live_owners_def delete_live_owners_observed_through_def delete_other_live_owner_sessions_def
    delete_live_owner_generation_def remove_live_owners_def)

section \<open>The store under hooks, exits and its own operations\<close>

datatype life_op =
  Store_life store_op
| Hook_life "nat \<Rightarrow> f64" provider hook_payload hook_context
| Exit_life "nat \<Rightarrow> f64" provider int "string option" "string option" "string option" f64
| Certify_life f64 string hook_tag_request i64 i64

fun life_step :: "hook_env \<Rightarrow> life_op \<Rightarrow> store_db \<Rightarrow> hook_error + store_db" where
  "life_step env (Store_life op) db =
     (case store_step (he_store env) (he_launch env) op db of Inl e \<Rightarrow> Inl (Hook_store e) | Inr db' \<Rightarrow> Inr db')"
| "life_step env (Hook_life wall p payload ctx) db = rbind (handle_hook env wall p payload ctx db) (\<lambda>(r, db'). Inr db')"
| "life_step env (Exit_life wall p code session_id token owner_token t) db =
     rbind (handle_process_exit env wall p code session_id token owner_token t db) (\<lambda>(b, db'). Inr db')"
| "life_step env (Certify_life now token tag pid start) db = Inr (snd (certify_hook_home now token tag pid start db))"

lemma certify_home_reachable: "reachable (ledger_step env) db (snd (certify_hook_home now token tag pid start db))"
  by (auto simp: certify_hook_home_def intro: reachable.start written.certify split: option.split)

lemma life_reachable: "life_step env op db = Inr db' \<Longrightarrow> reachable (ledger_step env) db db'"
  by (cases op)
    (auto simp: rbind_Inr_iff intro: written.hook_handled written.exit_handled certify_home_reachable one_write
      [of _ "Store_write x" for x] split: sum.splits)

lemma ledger_step_inv: "store_inv db \<Longrightarrow> ledger_step env op db = Inr db' \<Longrightarrow> store_inv db'"
  by (cases op) (auto intro: inv_store_step)

interpretation ledger_writes: guarded_machine "ledger_step env" store_inv for env
  by unfold_locales (rule ledger_step_inv)

interpretation life: guarded_machine "life_step env" store_inv for env
  by unfold_locales (use life_reachable ledger_writes.reachable_inv in blast)

section \<open>Inside a transaction\<close>

lemma tx_bind_Inr: "tx_bind m f db = Inr (y, db2) \<longleftrightarrow> (\<exists>x db1. m db = Inr (x, db1) \<and> f x db1 = Inr (y, db2))"
  by (auto simp: tx_bind_def rbind_Inr_iff)

lemma tx_get_Inr: "tx_get f db = Inr (y, db1) \<longleftrightarrow> y = f db \<and> db1 = db"
  by (auto simp: tx_get_def)

lemma tx_return_Inr: "tx_return x db = Inr (y, db1) \<longleftrightarrow> y = x \<and> db1 = db"
  by (auto simp: tx_return_def)

lemma tx_do_Inr: "tx_do f db = Inr (y, db1) \<longleftrightarrow> f db = (y, db1)"
  by (auto simp: tx_do_def)

lemma tx_put_Inr: "tx_put f db = Inr (y, db1) \<longleftrightarrow> db1 = f db"
  by (auto simp: tx_put_def)

lemma tx_try_Inr: "tx_try f db = Inr (y, db1) \<longleftrightarrow> f db = Inr (y, db1)"
  by (auto simp: tx_try_def split: sum.splits)

lemmas tx_Inr = tx_bind_Inr tx_get_Inr tx_return_Inr tx_do_Inr tx_put_Inr tx_try_Inr

lemma silent_owners: "store_inv db \<Longrightarrow> is_untracked db p i \<Longrightarrow> snd (delete_live_owners p i None None db) = db"
proof -
  assume "store_inv db" and "is_untracked db p i"
  then have "silent db (p, i)" by (simp add: store_inv_def untracked_silentD is_untracked_def)
  then have "(p, i) \<notin> lo_identity ` set (st_live_owners db)" by (simp add: silent_def)
  then have "delete_where (owner_selected p i None None) (st_live_owners db) = st_live_owners db"
    unfolding delete_where_def by (intro filter_True) (force simp: owner_selected_def)
  then show ?thesis by (simp add: delete_live_owners_def remove_live_owners_def)
qed

lemma untracked_ignored:
  assumes "store_inv db" and "is_untracked db p (hp_session_id pl)"
    and "hook_transaction env wall p pl ctx db = Inr (r, db')"
  shows "hr_disposition r = Ignored \<and> db' = db"
  using assms silent_owners [OF assms(1, 2)]
  by (auto simp: hook_transaction_def Let_def tx_Inr ignored_def plain_result_def split: if_splits)

text \<open>The three ways a hook gets past the checks: not at all, ignored, or to the transaction.\<close>

lemma handle_hook_Inr:
  assumes "handle_hook env wall p payload ctx db = Inr (r, db')"
  shows "hr_disposition r = Ignored \<and> \<not> hr_launch_certified r \<and> db' = db
    \<or> hook_transaction env wall p (enrich_hook_payload env p payload) (shared_context p ctx) db = Inr (r, db')"
  using assms by (auto simp: handle_hook_def Let_def rbind_Inr_iff ignored_def plain_result_def split: if_splits)

text \<open>A hook that updates or certifies has reached the projection of a conversation that is tracked.\<close>

definition shows_up :: "hook_result \<Rightarrow> bool" where
  "shows_up r \<longleftrightarrow> hr_disposition r = Updated \<or> hr_launch_certified r"

lemma shows_up_simps [simp]:
  "\<not> shows_up (ignored p i txt)" "disposition \<noteq> Updated \<Longrightarrow> \<not> shows_up (plain_result disposition p i reason)"
  "\<not> shows_up ((plain_result Owner_only p i reason)\<lparr>hr_status := st, hr_unread := u\<rparr>)"
  by (simp_all add: shows_up_def ignored_def plain_result_def)

lemma ex_decision: "(\<exists>d. P d) \<longleftrightarrow> (\<exists>reason. P (Ignore reason)) \<or> (\<exists>token. P (Use token))"
  by (metis launch_decision.exhaust)

lemma claim_token:
  assumes "claim_launch wall token p i pl ctx db = Inr (Use t, db')"
  shows "t = Some token"
  using assms by (auto simp: claim_launch_def tx_Inr split: option.splits if_splits)

lemma admit_token_use:
  assumes "admit_token env wall p i pl ctx db = Inr (Use t, db')"
  shows "t = None \<or> t = hc_launch_token ctx"
  using assms by (auto simp: admit_token_def tx_Inr split: option.splits if_splits dest: claim_token)

lemma validate_token:
  assumes "validate_launch env wall p i pl ctx db = Inr (Use t, db')"
  shows "t = None \<or> t = hc_launch_token ctx"
  using assms by (auto simp: validate_launch_def tx_Inr split: option.splits if_splits dest: admit_token_use)

lemma keeps_untracked:
  assumes "obeys (\<lambda>db db'. st_untracked db' = st_untracked db) m" and "m db = Inr (x, db')"
  shows "st_untracked db' = st_untracked db"
  using assms unfolding obeys_def by blast

context store_relation
begin

lemma admitted_projects:
  assumes "admitted_hook env wall p i pl ctx token existing db = Inr (r, db')" and "shows_up r"
  shows "\<exists>placeholder name fresh live db1. R db db1 \<and> st_untracked db1 = st_untracked db
    \<and> project_hook env wall p i pl ctx token existing placeholder name fresh live db1 = Inr (r, db')"
proof -
  from assms obtain db1 placeholder name fresh live where owner: "update_owner p i pl ctx db = Inr ((), db1)"
    and project: "project_hook env wall p i pl ctx token existing placeholder name fresh live db1 = Inr (r, db')"
    by (auto simp: admitted_hook_def tx_Inr split: if_splits option.splits)
  have "st_untracked db1 = st_untracked db" by (rule keeps_untracked [OF choices.owning owner])
  with project related [OF owning owner] show ?thesis by blast
qed

lemma known_projects:
  assumes "known_hook env wall p i pl ctx existing db = Inr (r, db')" and "shows_up r"
  shows "\<exists>token placeholder name fresh live db1. R db db1 \<and> \<not> is_untracked db1 p i
    \<and> (token = None \<or> token = hc_launch_token ctx)
    \<and> project_hook env wall p i pl ctx token existing placeholder name fresh live db1 = Inr (r, db')"
proof -
  from assms obtain ho db1 token db2 where tracked: "\<not> is_untracked db p i"
    and hook: "record_hook ho db = Inr ((), db1)" and launch: "validate_launch env wall p i pl ctx db1 = Inr (Use token, db2)"
    and admitted: "admitted_hook env wall p i pl ctx token existing db2 = Inr (r, db')"
    by (auto simp: known_hook_def tx_Inr ex_decision split: if_splits)
  obtain placeholder name fresh live db3 where u: "st_untracked db3 = st_untracked db2" and R3: "R db2 db3"
    and project: "project_hook env wall p i pl ctx token existing placeholder name fresh live db3 = Inr (r, db')"
    using admitted_projects [OF admitted assms(2)] by blast
  have "st_untracked db1 = st_untracked db" by (rule keeps_untracked [OF choices.recording hook])
  moreover have "st_untracked db2 = st_untracked db1" by (rule keeps_untracked [OF choices.validation launch])
  ultimately have "\<not> is_untracked db3 p i" using tracked u by (simp add: is_untracked_def)
  moreover have "R db db3"
    using trans [OF related [OF recording hook] trans [OF related [OF validation launch] R3]] .
  ultimately show ?thesis using project validate_token [OF launch] by blast
qed

lemma transaction_projects:
  assumes "hook_transaction env wall p pl ctx db = Inr (r, db')" and "shows_up r"
  shows "\<exists>i existing token placeholder name fresh live db1. R db db1 \<and> \<not> is_untracked db1 p i
    \<and> (token = None \<or> token = hc_launch_token ctx)
    \<and> project_hook env wall p i pl ctx token existing placeholder name fresh live db1 = Inr (r, db')"
proof -
  from assms obtain i existing where "known_hook env wall p i pl ctx existing db = Inr (r, db')"
    by (auto simp: hook_transaction_def Let_def tx_Inr split: if_splits option.splits)
  from known_projects [OF this assms(2)] show ?thesis by blast
qed

end

section \<open>What is stored is what is reported\<close>

definition shows_as :: "session \<Rightarrow> store_db \<Rightarrow> bool" where
  "shows_as s db \<longleftrightarrow> (\<exists>row. get_session db (s_provider s) (s_session_id s) = Some row
     \<and> s_status row = s_status s \<and> s_unread row = s_unread s \<and> s_attention_reason row = s_attention_reason s
     \<and> s_error row = s_error s)"

lemma upsert_shows:
  assumes "\<not> is_untracked db (s_provider s) (s_session_id s)" and "upsert_session now s keep db = Inr (b, db')"
  shows "shows_as s db'"
proof -
  from assms have b: "b" by (simp add: upsert_session_Inr)
  with assms(2) have "get_session db' = get_session (written_store now s keep db)"
    by (intro get_session_upsert) simp
  then show ?thesis
    by (auto simp: shows_as_def get_session_written s_identity_def written_row_def stored_session_def merge_session_def
      split: option.split)
qed

lemma shows_same_sessions: "shows_as s db \<Longrightarrow> st_sessions db' = st_sessions db \<Longrightarrow> shows_as s db'"
  by (simp add: shows_as_def get_session_def)

lemma shared_shows: "shows_as s db \<Longrightarrow> shows_as s (snd (clear_shared_root_pid p i pid db))"
  by (auto simp: shows_as_def clear_shared_root_pid_def get_session_update s_identity_def split: option.split)

lemma get_session_delete_other:
  "(q, j) \<noteq> (p, i) \<Longrightarrow> get_session (snd (delete_session p i keep db)) q j = get_session db q j"
proof -
  assume other: "(q, j) \<noteq> (p, i)"
  have "st_sessions (snd (delete_session p i keep db)) = delete_where (\<lambda>s. s_identity s = (p, i)) (st_sessions db)"
    by (simp add: delete_session_def Let_def delete_evidence_def delete_live_owner_rows_def)
  then show ?thesis using other by (simp add: get_session_def row_by_delete_other)
qed

lemma delete_shows:
  "shows_as s db \<Longrightarrow> (p, i) \<noteq> s_identity s \<Longrightarrow> shows_as s (snd (delete_session p i keep db))"
  using get_session_delete_other [of "s_provider s" "s_session_id s" p i keep db]
  by (auto simp: shows_as_def s_identity_def)

lemma projection_shows:
  assumes "store_projection wall p i ctx placeholder s db = Inr (u, db')"
    and "\<not> is_untracked db p i" and s: "s_provider s = p" "s_session_id s = i"
  shows "shows_as s db'"
proof -
  let ?shared = "case hc_owner_pid ctx of
      Some pid \<Rightarrow> tx_when (p = Codex \<and> hc_codex_shared_owner ctx) (tx_do (clear_shared_root_pid p i pid))
    | None \<Rightarrow> tx_return ()"
  let ?old = "case placeholder of
      Some old \<Rightarrow> tx_when (s_session_id old \<noteq> i) (tx_do (delete_session p (s_session_id old) False))
    | None \<Rightarrow> tx_return ()"
  from assms(1) obtain b db1 u1 db2 where up: "upsert_session (wall 2) s True db = Inr (b, db1)"
    and shared: "?shared db1 = Inr (u1, db2)" and old: "?old db2 = Inr (u, db')"
    unfolding store_projection_def tx_bind_Inr tx_try_Inr by blast
  have "shows_as s db1" using upsert_shows [OF _ up] assms by simp
  moreover have "db2 = db1 \<or> (\<exists>pid. db2 = snd (clear_shared_root_pid p i pid db1))"
    using shared by (auto simp: tx_when_def tx_Inr split: option.splits if_splits) (metis snd_conv)
  ultimately have 2: "shows_as s db2" by (auto intro: shared_shows)
  have "db' = db2 \<or> (\<exists>j. j \<noteq> i \<and> db' = snd (delete_session p j False db2))"
    using old by (auto simp: tx_when_def tx_Inr split: option.splits if_splits)
  with 2 s show ?thesis by (auto simp: s_identity_def intro: delete_shows)
qed

lemma note_attached_frame:
  assumes "note_attached env token p i db = Inr (u, db')"
  shows "st_sessions db' = st_sessions db \<and> st_bindings db' = st_bindings db \<and> st_pending db' = st_pending db
    \<and> st_recovery_owners db' = st_recovery_owners db"
  using assms by (auto simp: note_attached_def tx_Inr tx_when_def delete_meta_def split: if_splits)

lemma certify_hook_frame:
  assumes "certify_hook wall token p i ctx db = Inr (certified, db')"
  shows "st_sessions db' = st_sessions db"
  using assms
  by (auto simp: certify_hook_def tx_Inr certify_launch_def delete_pending_def remove_pending_def drop_launch_meta_def
      drop_receipts_def delete_meta_def put_recovery_owner_def split: option.splits if_splits)

lemma finish_sessions:
  assumes "finish_launch env wall token p i ctx db = Inr (certified, db')"
  shows "st_sessions db' = st_sessions db"
  using assms by (auto simp: finish_launch_def tx_Inr split: option.splits dest!: certify_hook_frame note_attached_frame)

lemma project_hook_Inr:
  assumes "project_hook env wall p i pl ctx token existing placeholder name fresh live db = Inr (r, db')"
  obtains db1 projection s db2 certified watched where
    "store_observation p i pl ctx (hook_observed p pl ctx existing) db = Inr ((), db1)"
    "s = hook_session p i pl ctx token existing placeholder name live projection"
    "store_projection wall p i ctx placeholder s db1 = Inr ((), db2)"
    "finish_launch env wall token p i ctx db2 = Inr (certified, db')"
    "r = hook_outcome p i pl ctx fresh existing s watched certified"
  using assms by (auto simp: project_hook_def Let_def tx_Inr)

lemma projected_result:
  assumes "project_hook env wall p i pl ctx token existing placeholder name fresh live db = Inr (r, db')"
    and "\<not> is_untracked db p i"
  shows "hr_session_id r = Some i \<and> (\<exists>row. get_session db' p i = Some row \<and> hr_status r = Some (s_status row)
    \<and> hr_unread r = s_unread row \<and> hr_reason r = s_attention_reason row)"
proof -
  from assms(1) obtain db1 projection s db2 certified watched where
    ob: "store_observation p i pl ctx (hook_observed p pl ctx existing) db = Inr ((), db1)"
    and s: "s = hook_session p i pl ctx token existing placeholder name live projection"
    and store: "store_projection wall p i ctx placeholder s db1 = Inr ((), db2)"
    and finish: "finish_launch env wall token p i ctx db2 = Inr (certified, db')"
    and r: "r = hook_outcome p i pl ctx fresh existing s watched certified"
    by (rule project_hook_Inr)
  have ids: "s_provider s = p" "s_session_id s = i" by (simp_all add: s hook_session_def Let_def)
  have "st_untracked db1 = st_untracked db" by (rule keeps_untracked [OF choices.observing ob])
  then have "\<not> is_untracked db1 p i" using assms(2) by (simp add: is_untracked_def)
  from projection_shows [OF store this ids] have "shows_as s db'"
    by (rule shows_same_sessions) (rule finish_sessions [OF finish])
  with ids show ?thesis by (auto simp: shows_as_def r hook_outcome_def)
qed

lemma certified_facts:
  assumes "certify_launch now token p i pid start db = (True, db')"
  shows "launch_binding_of db' token = Some (p, i) \<and> get_pending db' token = None
    \<and> (case get_pending db token of None \<Rightarrow> True | Some pending \<Rightarrow> generation_matches pending p pid start)
    \<and> map_option (\<lambda>r. (ro_pid r, ro_start_time r, ro_launch_token r)) (get_recovery_owner db' p i) = Some (pid, start, token)"
  using assms by (auto simp: certify_launch_def recovery_owner_put ro_identity_def split: option.splits if_splits)

lemma finished_certified:
  assumes "finish_launch env wall token p i ctx db = Inr (True, db')"
  shows "\<exists>t pid start pending. token = Some t \<and> hc_exact_home_verified ctx \<and> hc_owner_pid ctx = Some pid
    \<and> hc_owner_start_time ctx = Some start \<and> get_pending db t = Some pending
    \<and> pl_provider pending = p \<and> pl_root_pid pending = Some pid \<and> pl_root_pid_start pending = Some start
    \<and> get_pending db' t = None \<and> launch_binding_of db' t = Some (p, i)
    \<and> map_option (\<lambda>r. (ro_pid r, ro_start_time r, ro_launch_token r)) (get_recovery_owner db' p i) = Some (pid, start, t)"
proof -
  from assms obtain t db1 where t: "token = Some t" and certify: "certify_hook wall t p i ctx db = Inr (True, db1)"
    and attached: "note_attached env t p i db1 = Inr ((), db')"
    by (auto simp: finish_launch_def tx_Inr split: option.splits)
  from certify obtain pending pid start where pending: "get_pending db t = Some pending"
    and ctx: "hc_exact_home_verified ctx" "hc_owner_pid ctx = Some pid" "hc_owner_start_time ctx = Some start"
    and certifies: "certify_launch (wall 3) t p i pid start db = (True, db1)"
    by (auto simp: certify_hook_def tx_Inr split: option.splits if_splits)
  have frame: "get_pending db' = get_pending db1" "launch_binding_of db' = launch_binding_of db1"
      "get_recovery_owner db' = get_recovery_owner db1"
    using note_attached_frame [OF attached]
    by (simp_all add: get_pending_def launch_binding_of_def get_recovery_owner_def fun_eq_iff)
  show ?thesis
    using certified_facts [OF certifies] pending ctx t unfolding frame by (auto simp: generation_matches_def)
qed

section \<open>Exits\<close>

definition same_evidence :: "store_db \<Rightarrow> store_db \<Rightarrow> bool" where
  "same_evidence db db' \<longleftrightarrow> st_sessions db' = st_sessions db \<and> st_observations db' = st_observations db"

lemma generations_evidence:
  "delete_generations rs db = Inr (b, db') \<Longrightarrow> same_evidence db db'"
proof (induction rs arbitrary: db)
  case (Cons r rs)
  obtain n db1 where one: "delete_live_owner_generation r db = (n, db1)" by force
  then have "same_evidence db db1"
    by (auto simp: same_evidence_def delete_live_owner_generation_def remove_live_owners_def Let_def)
  moreover have "db' = db1 \<or> same_evidence db1 db'"
    using Cons.prems Cons.IH [of db1] by (auto simp: tx_bind_Inr tx_do_Inr tx_return_Inr one split: if_splits)
  ultimately show ?case by (auto simp: same_evidence_def)
qed (simp add: tx_Inr same_evidence_def)

lemma release_evidence: "release_exit token p i recovered db = Inr (u, db') \<Longrightarrow> same_evidence db db'"
  by (auto simp: release_exit_def tx_Inr tx_when_def same_evidence_def delete_recovery_owner_def
      delete_launch_binding_if_def split: option.splits if_splits)

lemma upsert_owners: "upsert_session now s keep db = Inr (b, db') \<Longrightarrow> st_live_owners db' = st_live_owners db"
  by (auto simp: upsert_session_Inr written_store_def refresh_interruption_def insert_session_event_def Let_def
      split: if_splits)

lemma record_owners: "record_status_observation p i ob db = Inr (b, db') \<Longrightarrow> st_live_owners db' = st_live_owners db"
  by (auto simp: record_status_observation_def rbind_Inr_iff Let_def split: option.splits if_splits)

lemma runtime_owners: "clear_session_runtime p i t db = Inr (b, db') \<Longrightarrow> st_live_owners db' = st_live_owners db"
  by (auto simp: clear_session_runtime_def rbind_Inr_iff update_session_def split: if_splits)

lemma settle_owners:
  assumes "settle_exit wall p i code t target db = Inr (b, db')"
  shows "st_live_owners db' = st_live_owners db"
  using assms
  by (auto simp: settle_exit_def tx_Inr record_exit_evidence_def tx_when_def clear_status_observation_def
      split: if_splits dest!: upsert_owners record_owners runtime_owners)

lemma bound_exit_Inr:
  assumes "bound_exit wall p code token owner_token t target db = Inr (b, db')"
  shows "same_evidence db db' \<or> (\<not> is_untracked db p (s_session_id target)
    \<and> exit_authority p (s_session_id target) token owner_token db \<noteq> ([], False)
    \<and> live_owners db' p (s_session_id target) = [])"
proof -
  let ?i = "s_session_id target"
  obtain matching recovered where auth: "exit_authority p ?i token owner_token db = (matching, recovered)" by force
  consider "same_evidence db db'"
    | db2 where "\<not> is_untracked db p ?i" "\<not> (matching = [] \<and> \<not> recovered)"
        "live_owners db2 p ?i = []" "settle_exit wall p ?i code t target db2 = Inr (b, db')"
  proof (cases "is_untracked db p ?i \<or> matching = [] \<and> \<not> recovered")
    case True
    with assms auth have "same_evidence db db'"
      by (auto simp: bound_exit_def Let_def tx_Inr same_evidence_def dest!: release_evidence split: if_splits)
    with that show ?thesis by blast
  next
    case False
    with assms auth obtain exact db1 where gen: "delete_generations matching db = Inr (exact, db1)"
      and rest: "(if \<not> exact then tx_return False else
          tx_bind (release_exit token p ?i recovered) (\<lambda>_.
          tx_bind (tx_get (\<lambda>db. live_owners db p ?i \<noteq> [])) (\<lambda>still_live.
          if still_live then tx_return True else settle_exit wall p ?i code t target))) db1 = Inr (b, db')"
      by (auto simp: bound_exit_def Let_def tx_bind_Inr tx_get_Inr)
    note e1 = generations_evidence [OF gen]
    show ?thesis
    proof (cases exact)
      case False
      with rest e1 that show ?thesis by (simp add: tx_return_Inr)
    next
      case True
      with rest obtain u db2 where rel: "release_exit token p ?i recovered db1 = Inr (u, db2)"
        and last: "(if live_owners db2 p ?i \<noteq> [] then tx_return True else settle_exit wall p ?i code t target) db2
          = Inr (b, db')"
        by (auto simp: tx_bind_Inr tx_get_Inr)
      show ?thesis
      proof (cases "live_owners db2 p ?i = []")
        case True
        with last \<open>\<not> (is_untracked db p ?i \<or> matching = [] \<and> \<not> recovered)\<close> that show ?thesis by simp
      next
        case False
        with last have "db' = db2" by (simp add: tx_return_Inr)
        with e1 release_evidence [OF rel] that show ?thesis by (simp add: same_evidence_def)
      qed
    qed
  qed
  then show ?thesis
  proof cases
    case 1
    then show ?thesis by blast
  next
    case 2
    with settle_owners [OF 2(4)] auth show ?thesis by (auto simp: live_owners_def)
  qed
qed

section \<open>What hooks and exits do to the store\<close>

text \<open>A launch of Claude in a pane, and the first hook of the process that was started there.\<close>

definition demo_hook_env :: hook_env where
  "demo_hook_env =
     \<lparr> he_store = demo_env, he_launch = demo_launch_env, he_debug = (\<lambda>s. s), he_parse = (\<lambda>_. None),
       he_file = (\<lambda>_. None), he_canonical = (\<lambda>_. None) \<rparr>"

definition demo_pending :: pending_launch where
  "demo_pending =
     \<lparr> pl_token = ''tok'', pl_provider = Claude, pl_name = ''work'', pl_cwd = ''/w'', pl_tmux_session = None,
       pl_tmux_pane = Some ''%1'', pl_expected_session_id = None, pl_root_pid = Some 7,
       pl_root_pid_start = Some 1, pl_preexisting = None, pl_candidate_session_id = None,
       pl_candidate_observed_at = None, pl_created_at = 2 \<rparr>"

definition demo_hook_store :: store_db where
  "demo_hook_store = empty_store\<lparr>st_pending := [demo_pending]\<rparr>"

definition demo_payload :: "string \<Rightarrow> string \<Rightarrow> hook_payload" where
  "demo_payload i event =
     \<lparr> hp_session_id = i, hp_hook_event_name = event, hp_cwd = Some ''/w'', hp_transcript_path = None,
       hp_tool_name = None, hp_notification_type = None, hp_error = None, hp_source = None,
       hp_originator = None, hp_entrypoint = None, hp_thread_source = None, hp_parent_session_id = None,
       hp_session_title = None, hp_desired_name = None, hp_native_name_error = None, hp_model = None,
       hp_deleted = False, hp_background_tasks = 0 \<rparr>"

definition demo_context :: hook_context where
  "demo_context =
     (hook_context_at 5)\<lparr> hc_launch_token := Some ''tok'', hc_owner_token := ''own'', hc_owner_pid := Some 7,
       hc_owner_start_time := Some 1, hc_pane_id := Some ''%1'', hc_exact_home_verified := True \<rparr>"

definition demo_wall :: "nat \<Rightarrow> f64" where "demo_wall n = 6"

lemma demo_runs:
  "case handle_hook demo_hook_env demo_wall Claude (demo_payload ''s'' ''Stop'') demo_context demo_hook_store of
     Inl e \<Rightarrow> False
   | Inr (r, db) \<Rightarrow> hr_disposition r = Updated \<and> hr_launch_certified r"
  by code_simp

definition demo_owner :: live_owner where
  "demo_owner =
     \<lparr> lo_provider = Claude, lo_session_id = ''s'', lo_pid = 7, lo_start_time = Some 1, lo_owner_token = ''own'',
       lo_last_seen = 5 \<rparr>"

definition demo_exit_store :: store_db where
  "demo_exit_store = empty_store\<lparr>st_sessions := [bare_session Claude ''s'' Working False], st_live_owners := [demo_owner]\<rparr>"

lemma demo_exits:
  "case handle_process_exit demo_hook_env demo_wall Claude 1 (Some ''s'') None (Some ''own'') 9 demo_exit_store of
     Inl e \<Rightarrow> False
   | Inr (b, db) \<Rightarrow> st_sessions db \<noteq> st_sessions demo_exit_store"
  by code_simp

lemma demo_run_ok:
  "\<exists>r db. handle_hook demo_hook_env demo_wall Claude (demo_payload ''s'' ''Stop'') demo_context demo_hook_store = Inr (r, db)
    \<and> hr_disposition r = Updated \<and> hr_launch_certified r"
  using demo_runs by (auto split: sum.splits prod.splits)

lemma demo_inv: "store_inv demo_hook_store"
  by (simp add: inv_defs demo_hook_store_def empty_store_def unique_by_def)

text \<open>Everything a hook, a process exit or a certification of a home does to the store is a sequence of the
  store's own writes: each of these transactions refines a run of the ledger's operations, and so
  keeps every invariant those keep.\<close>

lemma hooks_act_through_the_store:
  assumes "life_step env op db = Inr db'"
  shows "reachable (ledger_step env) db db' \<and> (store_inv db \<longrightarrow> store_inv db')"
  using life_reachable [OF assms] ledger_writes.reachable_inv by blast

text \<open>(C31) No hook ever marks a conversation untracked or takes the mark away, and a hook of a conversation its
  user untracked is ignored: it changes nothing at all in the store.\<close>

theorem untracked_conversations_ignore_hooks:
  assumes "store_inv db" and "handle_hook env wall p payload ctx db = Inr (r, db')"
  shows "st_untracked db' = st_untracked db
    \<and> (is_untracked db p (hp_session_id (enrich_hook_payload env p payload)) \<longrightarrow> hr_disposition r = Ignored \<and> db' = db)"
  using handle_hook_Inr [OF assms(2)] untracked_ignored [OF assms(1)] choices.hook_handled [OF assms(2)]
  by blast

lemma untracked_conversations_ignore_hooks_witness:
  "\<exists>r db'. handle_hook demo_hook_env demo_wall Claude (demo_payload ''s'' ''Stop'') demo_context demo_hook_store = Inr (r, db')
    \<and> st_untracked db' = []"
proof -
  from demo_run_ok obtain r db
    where run: "handle_hook demo_hook_env demo_wall Claude (demo_payload ''s'' ''Stop'') demo_context demo_hook_store = Inr (r, db)"
    by blast
  from untracked_conversations_ignore_hooks [OF demo_inv run] have "st_untracked db = []"
    by (simp add: demo_hook_store_def empty_store_def)
  with run show ?thesis by blast
qed

text \<open>What a hook reports back is what the store now holds: an update names a stored conversation, and its
  status, unread mark and reason are those of the stored row, not those the provider claimed.\<close>

theorem hook_reports_what_is_stored:
  assumes "handle_hook env wall p payload ctx db = Inr (r, db')" and "hr_disposition r = Updated"
  shows "\<exists>i row. hr_session_id r = Some i \<and> get_session db' p i = Some row \<and> hr_status r = Some (s_status row)
    \<and> hr_unread r = s_unread row \<and> hr_reason r = s_attention_reason row"
proof -
  from handle_hook_Inr [OF assms(1)] assms(2)
  have "hook_transaction env wall p (enrich_hook_payload env p payload) (shared_context p ctx) db = Inr (r, db')" by auto
  from written.transaction_projects [OF this] assms(2) projected_result show ?thesis unfolding shows_up_def by blast
qed

lemma hook_reports_what_is_stored_witness:
  "\<exists>r db' i row. handle_hook demo_hook_env demo_wall Claude (demo_payload ''s'' ''Stop'') demo_context demo_hook_store
      = Inr (r, db')
    \<and> get_session db' Claude i = Some row \<and> hr_status r = Some (s_status row)"
proof -
  from demo_run_ok obtain r db
    where run: "handle_hook demo_hook_env demo_wall Claude (demo_payload ''s'' ''Stop'') demo_context demo_hook_store = Inr (r, db)"
      and updated: "hr_disposition r = Updated"
    by blast
  from hook_reports_what_is_stored [OF run updated] run show ?thesis by blast
qed

lemma project_certified:
  assumes "project_hook env wall p i pl ctx token existing placeholder name fresh live db = Inr (r, db')"
    and "hr_launch_certified r"
  shows "\<exists>db1. no_new_pending db db1 \<and> hr_session_id r = Some i
    \<and> finish_launch env wall token p i ctx db1 = Inr (True, db')"
proof -
  from assms(1) obtain db1 projection s db2 certified watched where
    ob: "store_observation p i pl ctx (hook_observed p pl ctx existing) db = Inr ((), db1)"
    and store: "store_projection wall p i ctx placeholder s db1 = Inr ((), db2)"
    and finish: "finish_launch env wall token p i ctx db2 = Inr (certified, db')"
    and r: "r = hook_outcome p i pl ctx fresh existing s watched certified"
    by (rule project_hook_Inr)
  have "no_new_pending db db2"
    using launches.trans [OF launches.related [OF launches.observing ob] launches.related [OF launches.storing store]] .
  with finish r assms(2) show ?thesis by (auto simp: hook_outcome_def)
qed

text \<open>(C7) A hook certifies a launch only on exact evidence: the pane's home was verified, the token is the one
  the hook carried, the process generation is the one the launch recorded, and the provider is the
  one that was launched. The launch is then no longer pending, its token is bound to the
  conversation, and that process generation is the recovery owner. A shared Codex server never
  certifies anything.\<close>

theorem hook_certification_is_exact:
  assumes "handle_hook env wall p payload ctx db = Inr (r, db')" and "hr_launch_certified r"
  shows "\<not> (p = Codex \<and> hc_codex_shared_owner ctx)
    \<and> (\<exists>t i pid start pending. hc_launch_token ctx = Some t \<and> hr_session_id r = Some i \<and> hc_exact_home_verified ctx
        \<and> hc_owner_pid ctx = Some pid \<and> hc_owner_start_time ctx = Some start
        \<and> get_pending db t = Some pending
        \<and> pl_provider pending = p \<and> pl_root_pid pending = Some pid \<and> pl_root_pid_start pending = Some start
        \<and> get_pending db' t = None \<and> launch_binding_of db' t = Some (p, i)
        \<and> map_option (\<lambda>o1. (ro_pid o1, ro_start_time o1, ro_launch_token o1)) (get_recovery_owner db' p i)
          = Some (pid, start, t))"
proof -
  let ?ctx = "shared_context p ctx"
  from handle_hook_Inr [OF assms(1)] assms(2)
  have "hook_transaction env wall p (enrich_hook_payload env p payload) ?ctx db = Inr (r, db')" by auto
  from launches.transaction_projects [OF this] assms(2) obtain i existing token placeholder name fresh live db0
    where first: "no_new_pending db db0" and token: "token = None \<or> token = hc_launch_token ?ctx"
    and project: "project_hook env wall p i (enrich_hook_payload env p payload) ?ctx token existing placeholder name
      fresh live db0 = Inr (r, db')"
    unfolding shows_up_def by blast
  from project_certified [OF project assms(2)] obtain db1 where second: "no_new_pending db0 db1"
    and id: "hr_session_id r = Some i" and finish: "finish_launch env wall token p i ?ctx db1 = Inr (True, db')" by blast
  note before = launches.trans [OF first second]
  from finished_certified [OF finish] obtain t pid start pending where t: "token = Some t"
    and evidence: "hc_exact_home_verified ?ctx" "hc_owner_pid ?ctx = Some pid" "hc_owner_start_time ?ctx = Some start"
    and pending: "get_pending db1 t = Some pending" "pl_provider pending = p" "pl_root_pid pending = Some pid"
      "pl_root_pid_start pending = Some start"
    and after: "get_pending db' t = None" "launch_binding_of db' t = Some (p, i)"
      "map_option (\<lambda>r. (ro_pid r, ro_start_time r, ro_launch_token r)) (get_recovery_owner db' p i) = Some (pid, start, t)"
    by blast
  from evidence(1) have same: "?ctx = ctx" and own: "\<not> (p = Codex \<and> hc_codex_shared_owner ctx)"
    by (auto simp: shared_context_def split: if_splits)
  from token t same have "hc_launch_token ctx = Some t" by simp
  moreover from before pending(1) have "get_pending db t = Some pending" by (simp add: no_new_pending_def)
  moreover note evidence [unfolded same] own id pending after
  ultimately have "\<not> (p = Codex \<and> hc_codex_shared_owner ctx) \<and> hc_launch_token ctx = Some t \<and> hr_session_id r = Some i
    \<and> hc_exact_home_verified ctx \<and> hc_owner_pid ctx = Some pid \<and> hc_owner_start_time ctx = Some start
    \<and> get_pending db t = Some pending \<and> pl_provider pending = p \<and> pl_root_pid pending = Some pid
    \<and> pl_root_pid_start pending = Some start \<and> get_pending db' t = None \<and> launch_binding_of db' t = Some (p, i)
    \<and> map_option (\<lambda>o1. (ro_pid o1, ro_start_time o1, ro_launch_token o1)) (get_recovery_owner db' p i)
      = Some (pid, start, t)" by simp
  then show ?thesis by blast
qed

lemma hook_certification_is_exact_witness:
  "\<exists>r db' i. handle_hook demo_hook_env demo_wall Claude (demo_payload ''s'' ''Stop'') demo_context demo_hook_store
      = Inr (r, db')
    \<and> hr_session_id r = Some i \<and> get_pending db' ''tok'' = None \<and> launch_binding_of db' ''tok'' = Some (Claude, i)"
proof -
  from demo_run_ok obtain r db
    where run: "handle_hook demo_hook_env demo_wall Claude (demo_payload ''s'' ''Stop'') demo_context demo_hook_store = Inr (r, db)"
      and certified: "hr_launch_certified r"
    by blast
  from hook_certification_is_exact [OF run certified] run show ?thesis by (auto simp: demo_context_def)
qed

text \<open>What the store holds about one conversation, and the exit of another: every operation of it names the
  conversation it is about.\<close>

definition rows_of :: "provider \<times> string \<Rightarrow> store_db \<Rightarrow>
    session list \<times> observation_row list \<times> session_event list \<times> identity_interruption list
    \<times> live_owner list \<times> recovery_owner list \<times> launch_binding list" where
  "rows_of k db =
     (filter (\<lambda>s. s_identity s = k) (st_sessions db),
      filter (\<lambda>r. (ob_provider r, ob_session_id r) = k) (st_observations db),
      filter (\<lambda>e. (ev_provider e, ev_session_id e) = k) (st_events db),
      filter (\<lambda>r. ii_identity r = k) (st_interruptions db),
      filter (\<lambda>r. lo_identity r = k) (st_live_owners db),
      filter (\<lambda>r. ro_identity r = k) (st_recovery_owners db),
      filter (\<lambda>r. lb_identity r = k) (st_bindings db))"

interpretation elsewhere: transaction_relation "\<lambda>db db'. rows_of k db' = rows_of k db" for k
  by unfold_locales simp_all

lemma filter_delete_where:
  "(\<And>r. hit r \<Longrightarrow> \<not> P r) \<Longrightarrow> filter P (delete_where hit rows) = filter P rows"
  by (induction rows) (auto simp: delete_where_def)

lemma filter_update_where:
  "(\<And>r. hit r \<Longrightarrow> \<not> P r \<and> \<not> P (f r)) \<Longrightarrow> filter P (update_where hit f rows) = filter P rows"
  by (induction rows) (auto simp: update_where_def)

lemma filter_upsert_row:
  "\<not> P new \<Longrightarrow> (\<And>r. key r = key new \<Longrightarrow> \<not> P r \<and> \<not> P (f r)) \<Longrightarrow> filter P (upsert_row key new f rows) = filter P rows"
  by (simp add: upsert_row_def filter_update_where)

lemma filter_insert_or_ignore: "\<not> P new \<Longrightarrow> filter P (insert_or_ignore key new rows) = filter P rows"
  by (simp add: insert_or_ignore_def)

lemmas filter_rows = filter_delete_where filter_update_where filter_upsert_row filter_insert_or_ignore

lemma upsert_elsewhere:
  assumes "s_identity s \<noteq> k" and "upsert_session now s keep db = Inr (b, db')"
  shows "rows_of k db' = rows_of k db"
proof -
  have named: "(s_provider s, s_session_id s) \<noteq> k" using assms(1) by (simp add: s_identity_def)
  have written: "rows_of k (written_store now s keep db) = rows_of k db"
    using assms(1) named
    by (auto simp: written_store_def refresh_interruption_def rows_of_def Let_def initial_observation_def ii_identity_def
        intro!: filter_rows)
  have "rows_of k (insert_session_event s event d) = rows_of k d" for event d
    using named by (simp add: insert_session_event_def rows_of_def Let_def)
  with written assms(2) show ?thesis by (auto simp: upsert_session_Inr split: if_splits)
qed

lemma record_elsewhere:
  assumes "(p, i) \<noteq> k" and "record_status_observation p i ob db = Inr (b, db')"
  shows "rows_of k db' = rows_of k db"
  using assms
  by (auto simp: record_status_observation_def rbind_Inr_iff Let_def rows_of_def ob_key_def
      intro!: filter_update_where split: option.splits if_splits)

lemma runtime_elsewhere:
  assumes "(p, i) \<noteq> k" and "clear_session_runtime p i t db = Inr (b, db')"
  shows "rows_of k db' = rows_of k db"
  using assms
  by (auto simp: clear_session_runtime_def rbind_Inr_iff update_session_def rows_of_def s_identity_def
      intro!: filter_update_where split: if_splits)

lemma clear_elsewhere: "(p, i) \<noteq> k \<Longrightarrow> rows_of k (snd (clear_status_observation p i kind db)) = rows_of k db"
  by (auto simp: clear_status_observation_def rows_of_def same_observation_def ob_key_def intro!: filter_delete_where)

lemma settle_elsewhere:
  assumes "(p, i) \<noteq> k" and "s_identity target = (p, i)"
  shows "obeys (\<lambda>db db'. rows_of k db' = rows_of k db) (settle_exit wall p i code t target)"
proof -
  have "s_identity (exited_session target t projection) \<noteq> k" for projection
    using assms by (simp add: exited_session_def s_identity_def)
  then show ?thesis unfolding settle_exit_def record_exit_evidence_def
    by (auto intro!: elsewhere.chain elsewhere.return elsewhere.get elsewhere.trying elsewhere.doing elsewhere.conditional
        clear_elsewhere [OF assms(1)] dest: upsert_elsewhere record_elsewhere [OF assms(1)] runtime_elsewhere [OF assms(1)])
qed

lemma generations_elsewhere:
  "\<forall>r \<in> set rs. lo_identity r \<noteq> k \<Longrightarrow> obeys (\<lambda>db db'. rows_of k db' = rows_of k db) (delete_generations rs)"
proof (induction rs)
  case (Cons r rs)
  have "rows_of k (snd (delete_live_owner_generation r db)) = rows_of k db" for db
    using Cons.prems
    by (auto simp: delete_live_owner_generation_def remove_live_owners_def rows_of_def lo_key_def lo_identity_def
        intro!: filter_delete_where)
  with Cons show ?case
    by (auto intro!: elsewhere.chain elsewhere.return elsewhere.doing)
qed (simp add: elsewhere.return)

lemma release_elsewhere:
  assumes "(p, i) \<noteq> k"
  shows "obeys (\<lambda>db db'. rows_of k db' = rows_of k db) (release_exit token p i recovered)"
proof -
  have "rows_of k (snd (delete_recovery_owner p i db)) = rows_of k db"
    "rows_of k (snd (delete_launch_binding_if t p i db)) = rows_of k db" for t db
    using assms by (auto simp: delete_recovery_owner_def delete_launch_binding_if_def rows_of_def intro!: filter_delete_where)
  then show ?thesis unfolding release_exit_def
    by (auto intro!: elsewhere.chain elsewhere.return elsewhere.doing elsewhere.conditional split: option.split)
qed

lemma bound_elsewhere:
  assumes "s_identity target = (p, s_session_id target)" and "(p, s_session_id target) \<noteq> k"
  shows "obeys (\<lambda>db db'. rows_of k db' = rows_of k db) (bound_exit wall p code token owner_token t target)"
proof -
  let ?i = "s_session_id target"
  have own: "obeys (\<lambda>db db'. rows_of k db' = rows_of k db) (delete_generations matching)"
    if "exit_authority p ?i token owner_token db = (matching, recovered)" for db matching recovered
    using that assms(2) by (intro generations_elsewhere) (auto simp: exit_authority_def live_owners_def)
  show ?thesis unfolding bound_exit_def Let_def
    by (intro elsewhere.choosing)
      (auto intro!: elsewhere.choosing elsewhere.chain elsewhere.return own release_elsewhere
        settle_elsewhere assms split: prod.split)
qed

text \<open>(C30) The exit of a process touches one conversation at most, and only with authority. The conversation is
  the one its launch is bound to, or else the one it names; the rows of every other conversation, its
  status, evidence, events, interruptions, owners and bindings, are untouched, and an exit that finds no
  conversation touches none. When the conversation or its status evidence changes, it was tracked, the
  report's wrapper token named a live owner of it or its launch the recovery owner, and no other live
  owner is left: a stale report about a conversation someone else now runs cannot park it or mark it failed.\<close>

theorem exit_needs_authority:
  assumes "handle_process_exit env wall p code session_id token owner_token t db = Inr (b, db')"
  shows "case exit_target p session_id token db of
      None \<Rightarrow> \<forall>k. rows_of k db' = rows_of k db
    | Some target \<Rightarrow>
        (\<forall>k. k \<noteq> (p, s_session_id target) \<longrightarrow> rows_of k db' = rows_of k db)
        \<and> (same_evidence db db'
           \<or> (\<not> is_untracked db p (s_session_id target)
              \<and> (or_default [] owner_token \<in> lo_owner_token ` set (live_owners db p (s_session_id target))
                 \<or> (\<exists>r. get_recovery_owner db p (s_session_id target) = Some r \<and> token = Some (ro_launch_token r)))
              \<and> live_owners db' p (s_session_id target) = []))"
proof (cases "exit_target p session_id token db")
  case None
  with assms have "rows_of k db' = rows_of k db" for k
    by (auto simp: handle_process_exit_def tx_Inr rows_of_def record_pending_launch_exit_def set_meta_def Let_def
        split: option.splits if_splits)
  with None show ?thesis by simp
next
  case (Some target)
  with assms have run: "bound_exit wall p code token owner_token t target db = Inr (b, db')"
    by (simp add: handle_process_exit_def tx_Inr)
  from Some have "s_identity target = (p, s_session_id target)"
    by (auto simp: exit_target_def get_session_def s_identity_def split: option.splits bind_splits dest!: row_by_Some)
  from bound_elsewhere [OF this] run have frame: "rows_of k db' = rows_of k db" if "k \<noteq> (p, s_session_id target)" for k
    using that by (auto simp: obeys_def)
  have "or_default [] owner_token \<in> lo_owner_token ` set (live_owners db p (s_session_id target))
       \<or> (\<exists>r. get_recovery_owner db p (s_session_id target) = Some r \<and> token = Some (ro_launch_token r))"
    if "exit_authority p (s_session_id target) token owner_token db \<noteq> ([], False)"
    using that by (force simp: exit_authority_def filter_empty_conv split: option.splits)
  with bound_exit_Inr [OF run] frame Some show ?thesis by auto
qed

lemma exit_needs_authority_witness:
  "\<exists>b db'. handle_process_exit demo_hook_env demo_wall Claude 1 (Some ''s'') None (Some ''own'') 9 demo_exit_store = Inr (b, db')
    \<and> live_owners db' Claude ''s'' = []"
proof -
  from demo_exits obtain b db
    where run: "handle_process_exit demo_hook_env demo_wall Claude 1 (Some ''s'') None (Some ''own'') 9 demo_exit_store = Inr (b, db)"
      and changed: "st_sessions db \<noteq> st_sessions demo_exit_store"
    by (auto split: sum.splits prod.splits)
  from changed have moved: "\<not> same_evidence demo_exit_store db" by (simp add: same_evidence_def)
  have "exit_target Claude (Some ''s'') None demo_exit_store \<noteq> None"
    by (auto simp: exit_target_def first_some_def get_session_def demo_exit_store_def empty_store_def row_by_Cons
        bare_session_def s_identity_def)
  then obtain target where target: "exit_target Claude (Some ''s'') None demo_exit_store = Some target" by blast
  with exit_needs_authority [OF run] moved have none: "live_owners db Claude (s_session_id target) = []" by simp
  from target have "s_session_id target = ''s''"
    by (auto simp: exit_target_def first_some_def get_session_def demo_exit_store_def empty_store_def row_by_Cons
        bare_session_def s_identity_def)
  with run none show ?thesis by auto
qed

end
