(* ===== verification/Reconcile_Laws.thy ===== *)
theory Reconcile_Laws
  imports Reconcile Processes_Laws Hooks_Laws
begin

text \<open>
  What reconciliation guarantees: every batch is a run of the store's own operations, nothing is
  written on partial evidence, what its user untracked stays untracked, an exact home is proven by the
  one owner of the conversation, and two owners are reported as open twice.
\<close>

section \<open>Batches through the store\<close>

text \<open>\<open>permitted\<close> says which conversations the run may hide.\<close>

locale batch_relation = transaction_relation R
  for env :: core_env and permitted :: "provider \<times> string \<Rightarrow> bool" and R :: "store_db \<Rightarrow> store_db \<Rightarrow> bool" +
  assumes upsert: "upsert_session now s keep db = Inr (b, db') \<Longrightarrow> R db db'"
    and runtime: "clear_session_runtime p i t db = Inr (b, db') \<Longrightarrow> R db db'"
    and home: "clear_session_home p i t db = Inr (b, db') \<Longrightarrow> R db db'"
    and observe: "record_status_observation p i ob db = Inr (b, db') \<Longrightarrow> R db db'"
    and clear: "R db (snd (clear_status_observation p i kind db))"
    and interruption: "R db (snd (clear_identity_interruption p i db))"
    and recovery: "R db (snd (delete_recovery_owner p i db))"
    and owners: "R db (snd (delete_live_owners p i pid_opt owner_opt db))"
    and confirm: "R db (snd (recover_confirmed_launch now token s pid start db))"
    and watch: "watch_named_session (ce_store env) now c db = Inr (b, db') \<Longrightarrow> R db db'"
    and restore: "R db (snd (restore_provider_session p i db))"
    and hide: "permitted (p, i) \<Longrightarrow> R db (hide_provider_session now p i state db)"
begin

lemmas rules = return get chain conditional

lemma attempts:
  "obeys R (tx_try (upsert_session now s keep))" "obeys R (tx_try (clear_session_runtime p i t))"
  "obeys R (tx_try (clear_session_home p i t))" "obeys R (tx_try (record_status_observation p i ob))"
  "obeys R (tx_try (watch_named_session (ce_store env) now s))"
  by (rule trying, erule upsert, rule trying, erule runtime, rule trying, erule home, rule trying, erule observe,
      rule trying, erule watch)

lemmas steps = doing [OF clear] doing [OF interruption] doing [OF recovery] doing [OF owners] doing [OF confirm]
  doing [OF restore] attempts

lemma leases: "obeys R (check_leases env s ps t direct rec los leases)"
  by (induction los arbitrary: leases) (auto intro!: rules steps)

lemma owning: "obeys R (identity_owners_of env s ps t)"
  unfolding identity_owners_of_def check_recovery_def Let_def by (auto intro!: rules steps leases split: option.split)

lemma one: "obeys R (reconcile_one_in env panes ps t conflicts s)"
  unfolding reconcile_one_in_def forget_runtime_def record_safety_def Let_def
  by (auto intro!: rules steps owning split: option.split)

lemma confirming: "obeys R (recover_confirmed_pending now s panes ps)"
  unfolding recover_confirmed_pending_def by (auto intro!: rules steps split: option.split)

lemma projecting: "obeys R (project_stored env sc panes ps cs s)"
  unfolding project_stored_def Let_def case_prod_beta
  by (auto intro!: rules steps one confirming split: option.split)

lemma admitting: "obeys R (admit_candidate env sc c)"
  unfolding admit_candidate_def by (auto intro!: rules steps)

lemma each: "(\<And>x. x \<in> set xs \<Longrightarrow> obeys R (f x)) \<Longrightarrow> obeys R (tx_each f xs)"
  by (induction xs) (auto intro!: rules)

text \<open>A run given up at a batch has moved as far as the batches before it.\<close>

definition settles :: "'a recon \<Rightarrow> bool" where
  "settles m \<longleftrightarrow> (\<forall>n db r n' db'. m (n, db) = (r, (n', db')) \<longrightarrow> R db db')"

lemma settles_return: "settles (rc_return x)"
  by (simp add: settles_def rc_return_def refl)

lemma settles_get: "settles (rc_get f)"
  by (simp add: settles_def rc_get_def refl)

lemma settles_bind: "settles m \<Longrightarrow> (\<And>x. settles (f x)) \<Longrightarrow> settles (rc_bind m f)"
  unfolding settles_def rc_bind_def by (fastforce intro: trans split: prod.splits sum.splits)

lemma settles_write: "obeys R m \<Longrightarrow> settles (reconciled_write sc m)"
  unfolding settles_def reconciled_write_def obeys_def
  by (auto simp: refl split: option.splits disturbance.splits sum.splits prod.splits)

lemma settles_batches:
  "(\<And>x. x \<in> set (concat batches) \<Longrightarrow> obeys R (f x)) \<Longrightarrow> settles (write_batches sc f batches)"
  by (induction batches) (auto intro!: settles_return settles_bind settles_write each)

lemma settles_in_batches:
  assumes "\<And>x. x \<in> set xs \<Longrightarrow> obeys R (f x)"
  shows "settles (in_batches sc f xs)"
proof -
  have "set (concat (chunks n xs)) \<subseteq> set xs" for n
    by (induction n xs rule: chunks.induct) (subst chunks.simps, auto dest: in_set_takeD in_set_dropD)
  then show ?thesis unfolding in_batches_def by (intro settles_batches assms) blast
qed

lemma settles_admission: "settles (admit_named_candidates env sc hidden stored)"
  unfolding admit_named_candidates_def Let_def
  by (intro settles_bind settles_in_batches settles_return) (rule admitting)

lemma settles_observed:
  assumes "\<And>s. s \<in> set (listed @ hidden) \<Longrightarrow>
    removed_by_provider (s_identity ` set hidden) (sc_source_states sc (listed @ hidden)) s \<Longrightarrow> permitted (s_identity s)"
  shows "settles (reconcile_observed env sc ps panes listed hidden)"
  unfolding reconcile_observed_def Let_def case_prod_beta
  using assms
  by (intro settles_bind settles_admission settles_in_batches settles_get putting hide steps projecting)
    (auto simp: s_identity_def)

lemma settles_local:
  assumes "\<And>s. s \<in> set (list_sessions (ce_store env) db @ list_provider_hidden_sessions db) \<Longrightarrow>
      removed_by_provider (s_identity ` set (list_provider_hidden_sessions db))
        (sc_source_states sc (list_sessions (ce_store env) db @ list_provider_hidden_sessions db)) s \<Longrightarrow>
      permitted (s_identity s)"
    and "reconcile_local env sc db = (r, db')"
  shows "R db db'"
  using settles_observed [OF assms(1)] assms(2)
  unfolding reconcile_local_def settles_def Let_def
  by (auto simp: refl split: sum.splits if_splits prod.splits)

end
section \<open>Reconciliation is made of the store's operations\<close>

lemma store_op_reachable: "store_step se le op db = Inr db' \<Longrightarrow> reachable (store_step se le) db db'"
  by (rule reachable.step [OF reachable.start])

interpretation batches: batch_relation env "\<lambda>_. True" "reachable (store_step (ce_store env) le)" for env le
proof
  note one = store_op_reachable [of "ce_store env" le]
  show "reachable (store_step (ce_store env) le) db db" for db by (rule reachable.start)
  show "reachable (store_step (ce_store env) le) a c"
    if "reachable (store_step (ce_store env) le) a b" "reachable (store_step (ce_store env) le) b c" for a b c
    using that(2, 1) by (rule reachable_trans)
  show "reachable (store_step (ce_store env) le) db db'" if "upsert_session now s keep db = Inr (b, db')"
    for now s keep db b db'
    using that by (intro one [of "Session_op (Upsert now s keep)"]) (simp add: checked_Inr)
  show "reachable (store_step (ce_store env) le) db db'" if "clear_session_runtime p i t db = Inr (b, db')"
    for p i t db b db'
    using that by (intro one [of "Session_op (Clear_runtime p i t)"]) (simp add: checked_Inr)
  show "reachable (store_step (ce_store env) le) db db'" if "clear_session_home p i t db = Inr (b, db')"
    for p i t db b db'
    using that by (intro one [of "Session_op (Clear_home p i t)"]) (simp add: checked_Inr)
  show "reachable (store_step (ce_store env) le) db db'" if "record_status_observation p i ob db = Inr (b, db')"
    for p i ob db b db'
    using that by (intro one [of "Evidence_op (Record_observation p i ob)"]) (simp add: checked_Inr)
  show "reachable (store_step (ce_store env) le) db (snd (clear_status_observation p i kind db))" for p i kind db
    by (rule one [of "Evidence_op (Clear_observation p i kind)"]) simp
  show "reachable (store_step (ce_store env) le) db (snd (clear_identity_interruption p i db))" for p i db
    by (rule one [of "Evidence_op (Clear_interruption p i)"]) simp
  show "reachable (store_step (ce_store env) le) db (snd (delete_recovery_owner p i db))" for p i db
    by (rule one [of "Binding_op (Delete_recovery p i)"]) simp
  show "reachable (store_step (ce_store env) le) db (snd (delete_live_owners p i pid_opt owner_opt db))"
    for p i pid_opt owner_opt db
    by (rule one [of "Owner_op (Delete_owners p i pid_opt owner_opt)"]) simp
  show "reachable (store_step (ce_store env) le) db (snd (recover_confirmed_launch now token s pid start db))"
    for now token s pid start db
    by (rule one [of "Binding_op (Recover_confirmed now token s pid start)"]) simp
  show "reachable (store_step (ce_store env) le) db db'" if "watch_named_session (ce_store env) now c db = Inr (b, db')"
    for now c db b db'
    using that by (intro one [of "Session_op (Watch_named now c)"]) (simp add: checked_Inr)
  show "reachable (store_step (ce_store env) le) db (snd (restore_provider_session p i db))" for p i db
    by (rule one [of "Session_op (Restore_provider p i)"]) simp
  show "reachable (store_step (ce_store env) le) db (hide_provider_session now p i state db)" for now p i state db
    by (rule one [of "Session_op (Hide_provider now p i state)"]) simp
qed

text \<open>What its user untracked stays so; only what a provider hid can come back by itself.\<close>

definition user_untracked :: "store_db \<Rightarrow> provider \<times> string \<Rightarrow> bool" where
  "user_untracked db k \<longleftrightarrow> is_untracked db (fst k) (snd k) \<and> st_meta db (provider_hidden_key (fst k) (snd k)) = None"

definition keeps_untracked_of :: "provider \<times> string \<Rightarrow> store_db \<Rightarrow> store_db \<Rightarrow> bool" where
  "keeps_untracked_of k db db' \<longleftrightarrow> (user_untracked db k \<longrightarrow> user_untracked db' k)"

lemma keeps_same: "st_untracked db' = st_untracked db \<Longrightarrow> st_meta db' = st_meta db \<Longrightarrow> keeps_untracked_of k db db'"
  by (simp add: keeps_untracked_of_def user_untracked_def is_untracked_def)

lemma hidden_keys [simp]:
  "provider_hidden_key p i = provider_hidden_key q j \<longleftrightarrow> (p, i) = (q, j)"
  "provider_hidden_key p i \<noteq> tracking_choice_key q j" "provider_hidden_key p i \<noteq> launch_phase_key t"
  "provider_hidden_key p i \<noteq> pending_launch_wrapper_owner_key t" "provider_hidden_key p i \<noteq> pending_launch_exit_key t"
  by (cases p; cases q; simp add: provider_hidden_key_def)
    (simp_all add: provider_hidden_key_def tracking_choice_key_def launch_phase_key_def
      pending_launch_wrapper_owner_key_def pending_launch_exit_key_def)

lemma upsert_meta: "upsert_session now s keep db = Inr (b, db') \<Longrightarrow> st_untracked db' = st_untracked db \<and> st_meta db' = st_meta db"
  by (auto simp: upsert_session_Inr written_store_def refresh_interruption_def insert_session_event_def Let_def
      split: if_splits)

lemma watch_named_keeps:
  assumes "watch_named_session se now c db = Inr (b, db')"
  shows "st_untracked db' = st_untracked db \<and> (\<forall>p i. st_meta db' (provider_hidden_key p i) = st_meta db (provider_hidden_key p i))"
proof -
  define kept :: "store_db \<Rightarrow> bool" where "kept x \<longleftrightarrow> st_untracked x = st_untracked db
    \<and> (\<forall>p i. st_meta x (provider_hidden_key p i) = st_meta db (provider_hidden_key p i))" for x
  have marked: "kept (if st_meta x (tracking_choice_key q j) = None then set_meta (tracking_choice_key q j) v x else x)"
    if "kept x" for x q j v
    using that by (simp add: kept_def set_meta_def)
  have start: "kept db" by (simp add: kept_def)
  have written: "kept (snd r)" if "upsert_session now s keep db = Inr r" for s keep r
    using upsert_meta [of now s keep db "fst r" "snd r"] that by (simp add: kept_def)
  let ?p = "s_provider c" and ?i = "s_session_id c"
  let ?F = "if get_session db ?p ?i = None
    then rbind (upsert_session now (c\<lparr>s_source := ''external'', s_managed := False\<rparr>) False db) (\<lambda>r. Inr (snd r))
    else Inr db"
  have "kept db'"
  proof (cases "db' = db")
    case False
    have here: "\<not> (is_untracked db ?p ?i \<or> st_meta db (provider_hidden_key ?p ?i) \<noteq> None)"
      (is "\<not> ?here")
    proof
      assume ?here
      from assms have "Inr (False, db) = (Inr (b, db') :: store_error + _)"
        unfolding watch_named_session_def Let_def if_P [OF \<open>?here\<close>] .
      with False show False by simp
    qed
    have same: "\<not> (case get_session_by_thread db ?p ?i of None \<Rightarrow> False | Some row \<Rightarrow> s_session_id row \<noteq> ?i)"
      (is "\<not> ?renamed")
    proof
      assume ?renamed
      from assms have "Inr (False, db) = (Inr (b, db') :: store_error + _)"
        unfolding watch_named_session_def Let_def if_not_P [OF here] if_P [OF \<open>?renamed\<close>] .
      with False show False by simp
    qed
    have "rbind ?F (\<lambda>x. Inr (\<not> is_watched se db ?p ?i,
        if st_meta x (tracking_choice_key ?p ?i) = None
        then set_meta (tracking_choice_key ?p ?i) ''provider-explicit-name'' x else x)) = Inr (b, db')"
      using assms unfolding watch_named_session_def Let_def if_not_P [OF here] if_not_P [OF same] .
    then obtain x where x: "?F = Inr x"
      and db': "db' = (if st_meta x (tracking_choice_key ?p ?i) = None
        then set_meta (tracking_choice_key ?p ?i) ''provider-explicit-name'' x else x)"
      by (simp only: rbind_Inr_iff prod.inject sum.inject) blast
    have "kept x"
    proof (cases "get_session db ?p ?i = None")
      case True
      then obtain r where "upsert_session now (c\<lparr>s_source := ''external'', s_managed := False\<rparr>) False db = Inr r"
        and "x = snd r"
        using x by (auto simp: rbind_Inr_iff)
      then show ?thesis using written by simp
    next
      case False
      from x have "Inr db = (Inr x :: store_error + _)" unfolding if_not_P [OF False] .
      then show ?thesis using start by simp
    qed
    then show ?thesis unfolding db' by (rule marked)
  qed (simp add: start)
  then show ?thesis by (simp add: kept_def)
qed

lemma certify_keeps: "keeps_untracked_of k db (snd (certify_launch now token p i pid start db))"
  by (simp add: keeps_untracked_of_def user_untracked_def is_untracked_def certify_launch_def drop_launch_meta_def
      drop_receipts_def delete_meta_def remove_pending_def put_recovery_owner_def)

lemma confirm_keeps: "keeps_untracked_of k db (snd (recover_confirmed_launch now token s pid start db))"
proof -
  have "keeps_untracked_of k db (update_pending token f db)" for f
    by (rule keeps_same) (simp_all add: update_pending_def)
  then show ?thesis
    using certify_keeps by (auto simp: recover_confirmed_launch_def keeps_untracked_of_def split: option.split)
qed

lemma restore_keeps: "keeps_untracked_of k db (snd (restore_provider_session p i db))"
proof (cases "k = (p, i)")
  case True
  then show ?thesis by (simp add: restore_provider_session_def keeps_untracked_of_def user_untracked_def)
next
  case False
  then show ?thesis
    by (cases k) (auto simp: restore_provider_session_def keeps_untracked_of_def user_untracked_def is_untracked_def
      drop_untracked_def delete_meta_def delete_where_def)
qed

lemma hide_keeps: "(p, i) \<noteq> k \<Longrightarrow> keeps_untracked_of k db (hide_provider_session now p i state db)"
proof -
  let ?db' = "hide_provider_session now p i state db"
  assume "(p, i) \<noteq> k"
  then have "provider_hidden_key (fst k) (snd k) \<noteq> provider_hidden_key p i" by (cases k) auto
  then have "st_meta ?db' (provider_hidden_key (fst k) (snd k)) = st_meta db (provider_hidden_key (fst k) (snd k))"
    by (simp add: hide_provider_session_def update_session_def delete_live_owner_rows_def delete_evidence_def
        put_untracked_def set_meta_def)
  moreover have "st_untracked ?db' = st_untracked (put_untracked now p i db)"
    by (simp add: hide_provider_session_def update_session_def delete_live_owner_rows_def delete_evidence_def
        put_untracked_def set_meta_def)
  ultimately show ?thesis
    by (simp add: keeps_untracked_of_def user_untracked_def is_untracked_def ut_ids_put_untracked)
qed

interpretation untracking: batch_relation env "\<lambda>j. j \<noteq> k" "keeps_untracked_of k" for env k
proof
  show "keeps_untracked_of k a c" if "keeps_untracked_of k a b" "keeps_untracked_of k b c" for a b c
    using that by (simp add: keeps_untracked_of_def)
  show "keeps_untracked_of k db db'" if "upsert_session now s keep db = Inr (b, db')" for now s keep db b db'
    using upsert_meta [OF that] by (intro keeps_same) simp_all
  show "keeps_untracked_of k db db'" if "clear_session_runtime p i t db = Inr (b, db')" for p i t db b db'
    using that by (intro keeps_same) (auto simp: clear_session_runtime_def rbind_Inr_iff update_session_def split: if_splits)
  show "keeps_untracked_of k db db'" if "clear_session_home p i t db = Inr (b, db')" for p i t db b db'
    using that by (intro keeps_same) (auto simp: clear_session_home_def rbind_Inr_iff update_session_def split: if_splits)
  show "keeps_untracked_of k db db'" if "record_status_observation p i ob db = Inr (b, db')" for p i ob db b db'
    using that by (intro keeps_same) (auto simp: record_status_observation_def rbind_Inr_iff Let_def
      split: option.splits if_splits)
  show "keeps_untracked_of k db (snd (recover_confirmed_launch now token s pid start db))" for now token s pid start db
    by (rule confirm_keeps)
  show "keeps_untracked_of k db db'" if "watch_named_session (ce_store env) now c db = Inr (b, db')" for now c db b db'
    using watch_named_keeps [OF that] by (simp add: keeps_untracked_of_def user_untracked_def is_untracked_def)
  show "keeps_untracked_of k db (snd (restore_provider_session p i db))" for p i db
    by (rule restore_keeps)
  show "keeps_untracked_of k db (hide_provider_session now p i state db)" if "(p, i) \<noteq> k" for now p i state db
    by (rule hide_keeps [OF that])
qed (auto intro!: keeps_same simp: clear_status_observation_def clear_identity_interruption_def delete_recovery_owner_def
    delete_live_owners_def remove_live_owners_def Let_def)
lemma hidden_are_marked:
  "s \<in> set (list_provider_hidden_sessions db) \<Longrightarrow> \<not> user_untracked db (s_identity s)"
  by (auto simp: list_provider_hidden_sessions_def user_untracked_def s_identity_def)

lemma listed_are_tracked: "s \<in> set (list_sessions se db) \<Longrightarrow> \<not> user_untracked db (s_identity s)"
  using list_sessions_tracked [of s se db] by (auto simp: user_untracked_def s_identity_def)

text \<open>A whole reconciliation is nothing but a sequence of the store's own operations, also when a
  batch is refused half way: every table invariant the store keeps survives it.\<close>

lemma reconciliation_acts_through_the_store:
  assumes "store_inv db"
  shows "reachable (store_step (ce_store env) le) db (snd (reconcile_local env sc db))
   \<and> store_inv (snd (reconcile_local env sc db))"
proof -
  obtain r db' where run: "reconcile_local env sc db = (r, db')" by fastforce
  have "reachable (store_step (ce_store env) le) db db'"
    using batches.settles_local [OF _ run] by blast
  then show ?thesis using store.reachable_inv assms by (auto simp: run)
qed

text \<open>(C22) What its user untracked is not brought back: no reading of the providers, the processes and
  the panes, however it was interrupted, makes such a conversation tracked again.\<close>

theorem reconciliation_keeps_untracked:
  assumes "user_untracked db k"
  shows "user_untracked (snd (reconcile_local env sc db)) k"
proof -
  obtain r db' where run: "reconcile_local env sc db = (r, db')" by fastforce
  have "keeps_untracked_of k db db'"
  proof (rule untracking.settles_local [OF _ run])
    fix s assume "s \<in> set (list_sessions (ce_store env) db @ list_provider_hidden_sessions db)"
    then have "\<not> user_untracked db (s_identity s)"
      using listed_are_tracked hidden_are_marked by (metis Un_iff set_append)
    with assms show "s_identity s \<noteq> k" by blast
  qed
  with assms run show ?thesis by (simp add: keeps_untracked_of_def)
qed

text \<open>(C23) Nothing is concluded from half an observation: without a complete table of the processes, or
  without the panes of a running tmux, reconciliation is an error and the store is as it was.\<close>

theorem partial_observation_changes_nothing:
  assumes "po_state (sc_processes sc) \<noteq> Complete \<or> (sc_tmux_available sc \<and> sc_panes sc = Inl err)"
  shows "\<exists>e. reconcile_local env sc db = (Inl e, db)"
proof (cases "require_complete ''reconcile ownership'' (sc_processes sc)")
  case (Inl msg)
  then show ?thesis by (simp add: reconcile_local_def)
next
  case (Inr ps)
  then have "sc_tmux_available sc \<and> sc_panes sc = Inl err"
    using assms by (cases "po_state (sc_processes sc)") (auto simp: require_complete_def)
  with Inr show ?thesis by (simp add: reconcile_local_def)
qed
section \<open>Who owns a conversation\<close>

text \<open>The processes whose arguments name the conversation.\<close>

definition carriers :: "core_env \<Rightarrow> session \<Rightarrow> processes \<Rightarrow> i64 set" where
  "carriers env s ps =
     {q. \<exists>r. map_of ps q = Some r \<and> (\<exists>i \<in> set (identity_strings s). carries_identity (ce_uuid env) i (s_provider s) r)}"

definition launcher :: "processes \<Rightarrow> i64 \<Rightarrow> bool" where
  "launcher ps q \<longleftrightarrow> (\<exists>c \<in> fst ` set ps. map_option pg_pid (runtime_launcher_generation c ps) = Some q)"

lemma launcher_known:
  "map_option pg_pid (runtime_launcher_generation c ps) = Some q \<Longrightarrow> launcher ps q"
proof -
  assume run: "map_option pg_pid (runtime_launcher_generation c ps) = Some q"
  then obtain r where "map_of ps c = Some r"
    by (cases "map_of ps c") (simp_all add: runtime_launcher_generation_def)
  then have "c \<in> fst ` set ps" by (force dest: map_of_SomeD)
  with run show ?thesis by (auto simp: launcher_def)
qed

lemma canonical_subset: "canonical_identity_pids pids ps \<subseteq> pids"
  by (auto simp: canonical_identity_pids_def)

lemma canonical_keeps: "q \<in> pids \<Longrightarrow> \<not> launcher ps q \<Longrightarrow> q \<in> canonical_identity_pids pids ps"
  using launcher_known by (auto simp: canonical_identity_pids_def)

lemma consistent_record: "consistent ps \<Longrightarrow> (q, r) \<in> set ps \<Longrightarrow> pr_pid r = q \<and> map_of ps q = Some r"
  by (auto simp: consistent_def)

lemma found_carries:
  assumes "consistent ps"
  shows "pr_pid ` {r \<in> snd ` set ps. carries_identity uuid i p r}
    = {q. \<exists>r. map_of ps q = Some r \<and> carries_identity uuid i p r}"
  using consistent_record [OF assms] by (force dest: map_of_SomeD)

lemma direct_are_carriers: "consistent ps \<Longrightarrow> direct_owners env s ps \<subseteq> carriers env s ps"
  unfolding direct_owners_def find_session_processes_def
  using canonical_subset found_carries by (fastforce simp: carriers_def)

lemma carriers_are_direct:
  assumes "consistent ps" and "q \<in> carriers env s ps" and "\<not> launcher ps q"
  shows "q \<in> direct_owners env s ps"
proof -
  from assms(2) obtain r i where "map_of ps q = Some r" "i \<in> set (identity_strings s)"
    "carries_identity (ce_uuid env) i (s_provider s) r" by (auto simp: carriers_def)
  then have "q \<in> find_session_processes (ce_uuid env) i (s_provider s) ps"
    unfolding find_session_processes_def found_carries [OF assms(1)] by (intro canonical_keeps assms(3)) blast
  with \<open>i \<in> _\<close> show ?thesis by (auto simp: direct_owners_def)
qed

lemma finite_direct: "finite (direct_owners env s ps)"
  unfolding direct_owners_def find_session_processes_def
  by (auto intro!: finite_subset [OF canonical_subset] finite_imageI)

lemma canonical_owner_pids: "owner_pids (canonical_owners ps owners) = canonical_identity_pids (owner_pids owners) ps"
  using canonical_subset [of "owner_pids owners" ps]
  by (auto simp: canonical_owners_def Let_def owner_pids_def split: option.splits if_splits)

lemma check_leases_finite:
  "check_leases env s ps t direct recovery owners leases db = Inr (found, db') \<Longrightarrow> finite leases \<Longrightarrow> finite found"
  by (induction owners arbitrary: leases db) (auto simp: tx_return_def tx_bind_Inr split: if_splits)

lemma check_recovery_valid:
  "check_recovery s ps db = Inr (recovery, db') \<Longrightarrow> recovery = Some r \<Longrightarrow>
   get_recovery_owner db (s_provider s) (s_session_id s) = Some r \<and> recovery_valid s ps r db"
  by (auto simp: check_recovery_def tx_bind_Inr tx_get_def tx_return_def split: option.splits if_splits)

lemma owners_outcome:
  assumes "identity_owners_of env s ps t db = Inr (owners, db1)"
  obtains leases recovery where "finite leases"
    and "\<And>r. recovery = Some r \<Longrightarrow>
      get_recovery_owner db (s_provider s) (s_session_id s) = Some r \<and> recovery_valid s ps r db"
    and "owners = canonical_owners ps \<lparr> io_direct = direct_owners env s ps, io_leases = leases, io_recovery = recovery \<rparr>"
proof -
  from assms obtain recovery db2 rows leases db3 where recovery: "check_recovery s ps db = Inr (recovery, db2)"
    and leases: "check_leases env s ps t (direct_owners env s ps) recovery rows {} db2 = Inr (leases, db3)"
    and owners: "owners = canonical_owners ps \<lparr> io_direct = direct_owners env s ps, io_leases = leases, io_recovery = recovery \<rparr>"
    unfolding identity_owners_of_def Let_def by (auto simp: tx_bind_Inr tx_return_def tx_get_def)
  show thesis by (rule that [OF check_leases_finite [OF leases finite.emptyI] check_recovery_valid [OF recovery] owners])
qed

text \<open>What one reconciliation reports, in terms of its verdict.\<close>

lemma reconcile_one_outcome:
  assumes "reconcile_one_in env panes ps t conflicts s db = Inr (s', db')"
  obtains owners db1 v s1 obs others where "identity_owners_of env s ps t db = Inr (owners, db1)"
    and "v = judge env s panes ps owners conflicts" and "s1 = located v (tagged_panes s panes) ps s"
    and "obs = others @ (case v_safety v of None \<Rightarrow> [] | Some st \<Rightarrow> [safety_observation v conflicts t st])"
    and "\<And>ob. ob \<in> set others \<Longrightarrow> o_kind ob \<noteq> Safety"
    and "s' = marked_unsafe v conflicts (projected (project_status obs (s_live s1) (s_home_state s1) (session_fallback s1)) s1)"
proof -
  let ?v = "\<lambda>owners. judge env s panes ps owners conflicts"
  let ?s1 = "\<lambda>owners. located (?v owners) (tagged_panes s panes) ps s"
  from assms obtain owners db1 db2 obs db3 where owners: "identity_owners_of env s ps t db = Inr (owners, db1)"
    and obs: "record_safety (?v owners) conflicts t s db2 = Inr (obs, db3)"
    and s': "s' = marked_unsafe (?v owners) conflicts
      (projected (project_status obs (s_live (?s1 owners)) (s_home_state (?s1 owners)) (session_fallback (?s1 owners))) (?s1 owners))"
    unfolding reconcile_one_in_def Let_def by (simp add: tx_bind_Inr) (auto simp: tx_return_def)
  from obs have "\<exists>others. obs = others @ (case v_safety (?v owners) of None \<Rightarrow> [] | Some st \<Rightarrow> [safety_observation (?v owners) conflicts t st])
      \<and> (\<forall>ob \<in> set others. o_kind ob \<noteq> Safety)"
    unfolding record_safety_def Let_def
    by (cases "v_safety (?v owners)") (auto simp: tx_bind_Inr tx_return_def)
  with owners s' show thesis by (auto intro!: that)
qed
lemma marked_unsafe_same [simp]:
  "s_home_state (marked_unsafe v conflicts s) = s_home_state s" "s_live (marked_unsafe v conflicts s) = s_live s"
  "s_tmux_pane (marked_unsafe v conflicts s) = s_tmux_pane s" "s_tmux_session (marked_unsafe v conflicts s) = s_tmux_session s"
  "s_root_pid (marked_unsafe v conflicts s) = s_root_pid s" "s_status (marked_unsafe v conflicts s) = s_status s"
  "s_unread (marked_unsafe v conflicts s) = s_unread s"
  by (simp_all add: marked_unsafe_def)

lemma projected_same [simp]:
  "s_home_state (projected pr s) = s_home_state s" "s_live (projected pr s) = s_live s"
  "s_tmux_pane (projected pr s) = s_tmux_pane s" "s_tmux_session (projected pr s) = s_tmux_session s"
  "s_root_pid (projected pr s) = s_root_pid s" "s_status (projected pr s) = p_status pr"
  "s_unread (projected pr s) = p_unread pr" "s_attention_reason (projected pr s) = p_attention_reason pr"
  by (simp_all add: projected_def)

lemma located_home [simp]: "s_home_state (located v tagged ps s) = home_state v"
  by (auto simp: located_def Let_def split: option.split list.split)

lemma located_exact:
  "v_exact v = Some (pn, pid) \<Longrightarrow>
   s_live (located v tagged ps s) \<and> s_tmux_pane (located v tagged ps s) = Some (pn_pane_id pn)
   \<and> s_tmux_session (located v tagged ps s) = Some (pn_session_name pn) \<and> s_root_pid (located v tagged ps s) = Some pid"
  by (simp add: located_def Let_def)

lemma safety_of_verdict:
  "v_safety (judge env s panes ps owners conflicts) = Some OpenTwice \<longleftrightarrow>
     conflicts \<noteq> [] \<or> card (owner_pids owners) > 1 \<or> length (ip_candidates (identity_selection env s panes ps owners)) > 1
     \<or> ip_candidates (identity_selection env s panes ps owners) \<noteq> []
       \<and> sorted_list_of_set (owner_pids owners - processes_below (tagged_panes s panes) ps) \<noteq> []"
  by (simp add: judge_def Let_def)

lemma no_safety:
  "v_safety (judge env s panes ps owners conflicts) = None \<Longrightarrow>
   \<not> card (owner_pids owners) > 1 \<and> \<not> length (ip_candidates (identity_selection env s panes ps owners)) > 1
   \<and> \<not> ip_ambiguous_provider (identity_selection env s panes ps owners)
   \<and> \<not> ip_incomplete_root (identity_selection env s panes ps owners)"
  unfolding judge_def Let_def by (simp split: if_splits)

lemma exact_verdict:
  "v_exact (judge env s panes ps owners conflicts) = Some (pn, pid) \<Longrightarrow>
   v_safety (judge env s panes ps owners conflicts) = None
   \<and> (\<exists>rest. ip_candidates (identity_selection env s panes ps owners) = (pn, pid) # rest)
   \<and> owner_pids owners \<subseteq> set (process_tree (pn_pane_pid pn) ps)"
  unfolding judge_def Let_def by (auto split: if_splits list.splits)

lemma home_exact: "home_state v = ''exact'' \<longleftrightarrow>
    v_safety v \<noteq> Some OpenTwice \<and> \<not> v_ambiguous v \<and> \<not> v_incomplete v \<and> v_exact v \<noteq> None"
  by (simp add: home_state_def)

text \<open>A sole candidate is the only owner, and the rest of the tagged panes runs nothing of the provider.\<close>

lemma sole_candidate:
  assumes "finite (owner_pids owners)" and few: "card (owner_pids owners) \<le> 1"
    and only: "ip_candidates (identity_selection env s panes ps owners) = [(pn, pid)]"
    and clean: "\<not> ip_ambiguous_provider (identity_selection env s panes ps owners)"
      "\<not> ip_incomplete_root (identity_selection env s panes ps owners)"
  shows "pn \<in> set (tagged_panes s panes)" and "owner_pids owners = {pid}" and "proves_pane owners pid pn"
    and "pid \<in> set (process_tree (pn_pane_pid pn) ps)"
    and "\<And>other q. other \<in> set (tagged_panes s panes) \<Longrightarrow> q \<in> provider_pids (s_provider s) other ps \<Longrightarrow>
      other = pn \<and> accounted (ce_uuid env) (certified_pane_sibling env owners ps) ps pn pid q"
proof -
  let ?sel = "identity_selection env s panes ps owners"
  have sound: "selection_sound (ce_uuid env) (s_provider s) (owner_pids owners) ps (proves_pane owners)
      (certified_pane_sibling env owners ps) (set (tagged_panes s panes)) ?sel"
    unfolding identity_selection_def by (rule selection_is_sound [OF assms(1)])
  from sound only show "pn \<in> set (tagged_panes s panes)" "proves_pane owners pid pn"
    "pid \<in> set (process_tree (pn_pane_pid pn) ps)" by (simp_all add: selection_sound_def)
  from sound only have "pid \<in> owner_pids owners" by (simp add: selection_sound_def)
  with few assms(1) show "owner_pids owners = {pid}"
    by (metis card_le_Suc0_iff_eq One_nat_def is_singletonI' is_singleton_the_elem singletonD empty_iff)
  show "other = pn \<and> accounted (ce_uuid env) (certified_pane_sibling env owners ps) ps pn pid q"
    if "other \<in> set (tagged_panes s panes)" "q \<in> provider_pids (s_provider s) other ps" for other q
    using sound only clean that unfolding selection_sound_def by auto
qed

text \<open>An exact verdict rests on a sole candidate.\<close>

lemma exact_home:
  assumes "finite (owner_pids owners)"
    and "v_exact (judge env s panes ps owners conflicts) = Some (pn, pid)"
  shows "pn \<in> set (tagged_panes s panes)" and "owner_pids owners = {pid}" and "proves_pane owners pid pn"
    and "pid \<in> set (process_tree (pn_pane_pid pn) ps)"
    and "\<And>other q. other \<in> set (tagged_panes s panes) \<Longrightarrow> q \<in> provider_pids (s_provider s) other ps \<Longrightarrow>
      other = pn \<and> accounted (ce_uuid env) (certified_pane_sibling env owners ps) ps pn pid q"
proof -
  let ?sel = "identity_selection env s panes ps owners"
  from exact_verdict [OF assms(2)] obtain rest where safe: "v_safety (judge env s panes ps owners conflicts) = None"
    and first: "ip_candidates ?sel = (pn, pid) # rest" by blast
  note clean = no_safety [OF safe]
  with first have "ip_candidates ?sel = [(pn, pid)]" "card (owner_pids owners) \<le> 1" by simp_all
  note alone = sole_candidate [OF assms(1) this(2,1)] clean
  then show "pn \<in> set (tagged_panes s panes)" "owner_pids owners = {pid}" "proves_pane owners pid pn"
    "pid \<in> set (process_tree (pn_pane_pid pn) ps)" by blast+
  show "other = pn \<and> accounted (ce_uuid env) (certified_pane_sibling env owners ps) ps pn pid q"
    if "other \<in> set (tagged_panes s panes)" "q \<in> provider_pids (s_provider s) other ps" for other q
    using alone that by blast
qed


lemma owners_finite:
  assumes "identity_owners_of env s ps t db = Inr (owners, db1)"
  shows "finite (owner_pids owners)"
proof -
  from owners_outcome [OF assms] obtain leases recovery where leases: "finite leases"
    and folded: "owners = canonical_owners ps \<lparr> io_direct = direct_owners env s ps, io_leases = leases, io_recovery = recovery \<rparr>"
    by metis
  show ?thesis unfolding folded canonical_owner_pids
    by (rule finite_subset [OF canonical_subset]) (auto simp: owner_pids_def finite_direct leases split: option.split)
qed

lemma owners_contain:
  assumes "consistent ps" and "identity_owners_of env s ps t db = Inr (owners, db1)"
    and "q \<in> carriers env s ps" and "\<not> launcher ps q"
  shows "q \<in> owner_pids owners"
proof -
  from owners_outcome [OF assms(2)] obtain leases recovery where
    folded: "owners = canonical_owners ps \<lparr> io_direct = direct_owners env s ps, io_leases = leases, io_recovery = recovery \<rparr>"
    by metis
  have "q \<in> owner_pids \<lparr> io_direct = direct_owners env s ps, io_leases = leases, io_recovery = recovery \<rparr>"
    using carriers_are_direct [OF assms(1,3,4)] by (simp add: owner_pids_def)
  from canonical_keeps [OF this assms(4)] show ?thesis by (simp only: folded canonical_owner_pids)
qed

text \<open>What an owner that proves a pane rests on, and what excuses another process beside it.\<close>

definition certified_for :: "session \<Rightarrow> processes \<Rightarrow> store_db \<Rightarrow> i64 \<Rightarrow> pane \<Rightarrow> bool" where
  "certified_for s ps db pid pn \<longleftrightarrow>
     (\<exists>r. get_recovery_owner db (s_provider s) (s_session_id s) = Some r \<and> recovery_valid s ps r db
        \<and> ro_pid r = pid \<and> pn_launch_token pn = Some (ro_launch_token r))"

definition excused :: "core_env \<Rightarrow> session \<Rightarrow> processes \<Rightarrow> store_db \<Rightarrow> pane \<Rightarrow> i64 \<Rightarrow> i64 \<Rightarrow> bool" where
  "excused env s ps db pn pid q \<longleftrightarrow>
     q = pid \<or> is_provider_helper (ce_uuid env) q pid (pn_pane_pid pn) ps
     \<or> (\<exists>r server. get_recovery_owner db (s_provider s) (s_session_id s) = Some r \<and> ro_pid r = pid
          \<and> map_of ps q = Some server \<and> paired_server env r server)"

lemma owners_evidence:
  assumes "consistent ps" and "identity_owners_of env s ps t db = Inr (owners, db1)"
  shows "proves_pane owners pid pn \<Longrightarrow> pid \<in> carriers env s ps \<or> certified_for s ps db pid pn"
    and "accounted (ce_uuid env) (certified_pane_sibling env owners ps) ps pn pid q \<Longrightarrow> excused env s ps db pn pid q"
proof -
  from owners_outcome [OF assms(2)] obtain leases recovery where
    recovery: "\<And>r. recovery = Some r \<Longrightarrow>
      get_recovery_owner db (s_provider s) (s_session_id s) = Some r \<and> recovery_valid s ps r db"
    and folded: "owners = canonical_owners ps \<lparr> io_direct = direct_owners env s ps, io_leases = leases, io_recovery = recovery \<rparr>"
    by metis
  show "pid \<in> carriers env s ps \<or> certified_for s ps db pid pn" if "proves_pane owners pid pn"
    using that recovery direct_are_carriers [OF assms(1), of env s] unfolding certified_for_def
    by (auto simp: folded canonical_owners_def Let_def proves_pane_def split: option.splits if_splits)
  show "excused env s ps db pn pid q" if "accounted (ce_uuid env) (certified_pane_sibling env owners ps) ps pn pid q"
    using that recovery unfolding excused_def
    by (auto simp: accounted_def certified_pane_sibling_def folded canonical_owners_def Let_def
      split: option.splits if_splits)
qed

text \<open>(C3) A conversation is shown as sitting in a pane only on proof: the pane carries its tag, the one owner is in
  the pane's process tree and either names the conversation in its arguments or is the certified
  owner of exactly this launch; every other process naming it is a runtime launcher; and no tagged
  pane runs another process of the provider that the owner does not account for.\<close>

theorem exact_home_is_proven:
  assumes "consistent ps" and "reconcile_one_in env panes ps t conflicts s db = Inr (s', db')"
    and "s_home_state s' = ''exact''"
  shows "\<exists>pn pid. pn \<in> set (tagged_panes s panes) \<and> s_live s' \<and> s_root_pid s' = Some pid
    \<and> s_tmux_pane s' = Some (pn_pane_id pn) \<and> s_tmux_session s' = Some (pn_session_name pn)
    \<and> pid \<in> set (process_tree (pn_pane_pid pn) ps)
    \<and> (pid \<in> carriers env s ps \<or> certified_for s ps db pid pn)
    \<and> (\<forall>q \<in> carriers env s ps. q = pid \<or> launcher ps q)
    \<and> (\<forall>other \<in> set (tagged_panes s panes). \<forall>q \<in> provider_pids (s_provider s) other ps.
         other = pn \<and> excused env s ps db pn pid q)"
proof -
  from reconcile_one_outcome [OF assms(2)] obtain owners db1 v obs s1 where
    owners: "identity_owners_of env s ps t db = Inr (owners, db1)"
    and v: "v = judge env s panes ps owners conflicts" and s1: "s1 = located v (tagged_panes s panes) ps s"
    and s': "s' = marked_unsafe v conflicts (projected (project_status obs (s_live s1) (s_home_state s1) (session_fallback s1)) s1)"
    by metis
  from assms(3) have "home_state v = ''exact''" by (simp add: s' s1)
  then obtain pn pid where exact: "v_exact v = Some (pn, pid)" by (auto simp: home_exact)
  note found = exact_home [OF owners_finite [OF owners] exact [unfolded v]]
  have place: "s_live s'" "s_root_pid s' = Some pid" "s_tmux_pane s' = Some (pn_pane_id pn)"
      "s_tmux_session s' = Some (pn_session_name pn)"
    using located_exact [OF exact, of "tagged_panes s panes" ps s] by (simp_all add: s' s1)
  have only: "q = pid \<or> launcher ps q" if "q \<in> carriers env s ps" for q
    using owners_contain [OF assms(1) owners that] found(2) by blast
  have others: "other = pn \<and> excused env s ps db pn pid q"
    if "other \<in> set (tagged_panes s panes)" "q \<in> provider_pids (s_provider s) other ps" for other q
    using found(5) [OF that] owners_evidence(2) [OF assms(1) owners] by blast
  show ?thesis
    by (intro exI [of _ pn] exI [of _ pid] conjI ballI found(1,4) place
      owners_evidence(1) [OF assms(1) owners found(3)] only others)
qed

lemma only_safety:
  assumes "\<And>ob. ob \<in> set others \<Longrightarrow> o_kind ob \<noteq> Safety" and "o_kind item = Safety"
  shows "newest Safety (others @ [item]) = Some item"
  using assms by (intro newest_strict) auto

text \<open>(C10) Two clients on one conversation are never passed over: when two processes other than runtime
  launchers name it, its home state is open twice, it is unread for the reason of its identity, and it
  is not shown as attached. A single tagged pane is still recorded as where it is.\<close>

theorem two_owners_are_open_twice:
  assumes "consistent ps" and "reconcile_one_in env panes ps t conflicts s db = Inr (s', db')"
    and "{a, b} \<subseteq> carriers env s ps" and "a \<noteq> b" and "\<not> launcher ps a" and "\<not> launcher ps b"
  shows "s_home_state s' = ''open_twice'' \<and> s_status s' = OpenTwice \<and> s_unread s'
    \<and> s_attention_reason s' = Some ''identity'' \<and> \<not> s_attached s'"
proof -
  from reconcile_one_outcome [OF assms(2)] obtain owners db1 v obs s1 others where
    owners: "identity_owners_of env s ps t db = Inr (owners, db1)"
    and v: "v = judge env s panes ps owners conflicts" and s1: "s1 = located v (tagged_panes s panes) ps s"
    and obs: "obs = others @ (case v_safety v of None \<Rightarrow> [] | Some st \<Rightarrow> [safety_observation v conflicts t st])"
    and kinds: "\<And>ob. ob \<in> set others \<Longrightarrow> o_kind ob \<noteq> Safety"
    and s': "s' = marked_unsafe v conflicts (projected (project_status obs (s_live s1) (s_home_state s1) (session_fallback s1)) s1)"
    by metis
  have "{a, b} \<subseteq> owner_pids owners" using owners_contain [OF assms(1) owners] assms by auto
  then have "card {a, b} \<le> card (owner_pids owners)" by (intro card_mono owners_finite [OF owners])
  with assms(4) have twice: "v_safety v = Some OpenTwice" unfolding v by (simp add: safety_of_verdict)
  then have "v_exact v = None" unfolding v by (intro not_Some_eq [THEN iffD1] allI) (auto dest: exact_verdict)
  let ?item = "safety_observation v conflicts t OpenTwice"
  have "newest Safety obs = Some ?item"
    using only_safety [of others ?item] kinds twice by (simp add: obs safety_observation_def)
  then have "safety_failure (newest Safety obs) = Some ?item" by (simp add: safety_failure_Some safety_observation_def)
  then have "project_status obs live home fb = from_observation ?item OpenTwice True ''safety_precedence''" for live home fb
    by (simp add: project_status_def safety_observation_def)
  moreover have "s_home_state s1 = ''open_twice''" by (simp add: s1 home_state_def twice)
  moreover have "\<not> s_attached s1" using \<open>v_exact v = None\<close> by (auto simp: s1 located_def Let_def split: list.split)
  ultimately show ?thesis by (simp add: s' marked_unsafe_def twice projected_def from_observation_def)
qed
section \<open>Runs of it\<close>

definition demo_core :: core_env where
  "demo_core = \<lparr> ce_store = demo_env, ce_uuid = (\<lambda>v. v = ''id''), ce_certificate = (\<lambda>_. None),
     ce_machine = map_of demo_processes, ce_directory = Some \<rparr>"

definition demo_pane :: pane where
  "demo_pane = \<lparr> pn_session_name = ''work'', pn_pane_id = ''%1'', pn_pane_pid = 2, pn_cwd = ''/w'',
     pn_current_command = ''codex'', pn_attached = True, pn_dead = False, pn_dead_status = None, pn_activity = 0,
     pn_created = 0, pn_provider = Some Codex, pn_session_id = Some ''id'', pn_name = None, pn_launch_token = None \<rparr>"

definition demo_twins :: processes where
  "demo_twins = demo_processes @
     [(9, \<lparr> pr_pid = 9, pr_parent_pid = Some 1, pr_start_time = 40, pr_argv = [''codex'', ''resume'', ''id''] \<rparr>)]"

definition demo_scan :: scan where
  "demo_scan = \<lparr> sc_processes = \<lparr> po_processes = demo_processes, po_state = Complete \<rparr>, sc_panes = Inr [demo_pane],
     sc_tmux_available = True, sc_source_states = (\<lambda>_ _. Some Source_present), sc_named = [], sc_records = (\<lambda>_ _. []),
     sc_disturbed = (\<lambda>_. None), sc_clock = (\<lambda>_ _. 0), sc_after = id \<rparr>"
abbreviation "demo_session \<equiv> bare_session Codex ''id'' Ready False"

definition demo_db :: store_db where "demo_db = empty_store\<lparr>st_sessions := [demo_session]\<rparr>"

text \<open>With a clock that reads a number, judging one conversation always completes.\<close>

definition completes :: "'a tx \<Rightarrow> bool" where "completes m \<longleftrightarrow> (\<forall>db. \<exists>r. m db = Inr r)"

lemma completes_bind: "completes m \<Longrightarrow> (\<And>x. completes (f x)) \<Longrightarrow> completes (tx_bind m f)"
  unfolding completes_def tx_bind_def rbind_def by (auto split: sum.split) (metis sum.distinct(1))

lemma completes_rules:
  "completes (tx_return x)" "completes (tx_get g)" "completes (tx_do d)"
  "completes m \<Longrightarrow> completes (tx_when b m)"
  by (simp_all add: completes_def tx_return_def tx_get_def tx_do_def tx_when_def tx_bind_def rbind_def split: sum.split)
    (metis sum.distinct(1))

lemma completes_try:
  "not_null_real t = Inr u \<Longrightarrow> completes (tx_try (clear_session_runtime p i t))"
  "not_null_real t = Inr u \<Longrightarrow> completes (tx_try (clear_session_home p i t))"
  "not_null_real (o_observed_at ob) = Inr u \<Longrightarrow> completes (tx_try (record_status_observation p i ob))"
  by (simp_all add: completes_def tx_try_def clear_session_runtime_def clear_session_home_def
    record_status_observation_def rbind_def Let_def ex_bool_eq split: option.split)

lemma completes_leases: "completes (check_leases env s ps t direct recovery owners leases)"
  by (induction owners arbitrary: leases) (auto intro: completes_rules completes_bind)

lemma reconcile_one_completes:
  "not_null_real t = Inr u \<Longrightarrow> completes (reconcile_one_in env panes ps t conflicts s)"
  unfolding reconcile_one_in_def identity_owners_of_def check_recovery_def forget_runtime_def record_safety_def Let_def
  by (auto intro!: completes_rules completes_bind completes_leases completes_try simp: safety_observation_def
    split: option.split)

lemmas run_defs = tx_bind_def rbind_def tx_return_def tx_get_def tx_do_def tx_try_def tx_when_def

lemma demo_owners:
  assumes "canonical_owners ps \<lparr> io_direct = direct_owners demo_core demo_session ps, io_leases = {}, io_recovery = None \<rparr> = owners"
  shows "identity_owners_of demo_core demo_session ps t demo_db = Inr (owners, demo_db)"
proof -
  have "get_recovery_owner demo_db p i = None" "live_owners demo_db p i = []" for p i
    by (simp_all add: get_recovery_owner_def live_owners_def demo_db_def empty_store_def)
  with assms show ?thesis by (simp add: identity_owners_of_def check_recovery_def run_defs Let_def)
qed

lemma demo_home:
  "\<exists>s' db'. reconcile_one_in demo_core [demo_pane] demo_processes 0 [] demo_session demo_db = Inr (s', db')
    \<and> s_home_state s' = ''exact''"
proof -
  let ?owners = "\<lparr> io_direct = {5}, io_leases = {}, io_recovery = None \<rparr>"
  have "canonical_owners demo_processes \<lparr> io_direct = direct_owners demo_core demo_session demo_processes,
      io_leases = {}, io_recovery = None \<rparr> = ?owners" by code_simp
  note demo_owners [OF this]
  moreover have "v_exact (judge demo_core demo_session [demo_pane] demo_processes ?owners []) = Some (demo_pane, 5)"
    by code_simp
  moreover note exact_verdict [OF this]
  moreover have "\<not> v_ambiguous (judge demo_core demo_session [demo_pane] demo_processes ?owners [])
      \<and> \<not> v_incomplete (judge demo_core demo_session [demo_pane] demo_processes ?owners [])"
    by code_simp
  ultimately show ?thesis
    by (simp add: reconcile_one_in_def forget_runtime_def record_safety_def run_defs Let_def home_state_def
      clear_status_observation_def clear_identity_interruption_def split: prod.split)
qed

text \<open>The pane of the running example: its shell 2 runs the client 5, whose helper 7 is accounted for.\<close>

lemma exact_home_is_proven_witness:
  "\<exists>s' db' pid. reconcile_one_in demo_core [demo_pane] demo_processes 0 [] demo_session demo_db = Inr (s', db')
    \<and> s_root_pid s' = Some pid \<and> pid \<in> set (process_tree 2 demo_processes)"
proof -
  have "consistent demo_processes" by (simp add: consistent_def demo_processes_def)
  moreover obtain s' db' where "reconcile_one_in demo_core [demo_pane] demo_processes 0 [] demo_session demo_db = Inr (s', db')"
    "s_home_state s' = ''exact''" using demo_home by blast
  ultimately obtain pn pid where "pn \<in> set (tagged_panes demo_session [demo_pane])" "s_root_pid s' = Some pid"
    "pid \<in> set (process_tree (pn_pane_pid pn) demo_processes)"
    using exact_home_is_proven [of demo_processes demo_core "[demo_pane]" 0 "[]" demo_session demo_db s' db'] by blast
  moreover from this(1) have "pn_pane_pid pn = 2" by (auto simp: tagged_panes_def demo_pane_def split: if_splits)
  ultimately show ?thesis using \<open>reconcile_one_in _ _ _ _ _ _ _ = _\<close> by auto
qed

lemma demo_carriers: "{5, 9} \<subseteq> carriers demo_core demo_session demo_twins"
proof -
  have "map_of demo_twins 5 = Some (snd (demo_twins ! 1)) \<and> map_of demo_twins 9 = Some (snd (demo_twins ! 3))"
    by (simp add: demo_twins_def demo_processes_def)
  moreover have "carries_identity (ce_uuid demo_core) ''id'' Codex (snd (demo_twins ! 1))
      \<and> carries_identity (ce_uuid demo_core) ''id'' Codex (snd (demo_twins ! 3))"
    by code_simp
  ultimately show ?thesis by (auto simp: carriers_def identity_strings_def bare_session_def)
qed

lemma demo_twice:
  "\<exists>s' db'. reconcile_one_in demo_core [demo_pane] demo_twins 0 [] demo_session demo_db = Inr (s', db')"
proof -
  have "not_null_real 0 = Inr ()" by code_simp
  from reconcile_one_completes [OF this] show ?thesis by (fastforce simp: completes_def)
qed

lemma two_owners_are_open_twice_witness:
  "\<exists>s' db'. reconcile_one_in demo_core [demo_pane] demo_twins 0 [] demo_session demo_db = Inr (s', db')
    \<and> s_status s' = OpenTwice"
proof -
  obtain s' db' where run: "reconcile_one_in demo_core [demo_pane] demo_twins 0 [] demo_session demo_db = Inr (s', db')"
    using demo_twice by blast
  moreover have "consistent demo_twins" by (simp add: consistent_def demo_twins_def demo_processes_def)
  moreover have "\<not> launcher demo_twins 5 \<and> \<not> launcher demo_twins 9" by code_simp
  ultimately show ?thesis
    using two_owners_are_open_twice [of demo_twins demo_core "[demo_pane]" 0 "[]" demo_session demo_db s' db' 5 9] demo_carriers
    by auto
qed
lemma reconciliation_keeps_untracked_witness:
  "user_untracked (snd (reconcile_local demo_core demo_scan
     (run (store_step demo_env demo_launch_env) demo_ops empty_store))) (Claude, ''a'')"
proof (rule reconciliation_keeps_untracked)
  have "st_meta (run (store_step demo_env demo_launch_env) demo_ops empty_store) (provider_hidden_key Claude ''a'') = None"
    by code_simp
  then show "user_untracked (run (store_step demo_env demo_launch_env) demo_ops empty_store) (Claude, ''a'')"
    by (simp add: user_untracked_def demo_untracked)
qed

lemma partial_observation_changes_nothing_witness:
  "\<exists>e. reconcile_local demo_core
     (demo_scan\<lparr>sc_processes := \<lparr> po_processes = demo_processes, po_state = Partial [''41''] \<rparr>\<rparr>) demo_db = (Inl e, demo_db)"
  by (rule partial_observation_changes_nothing [of _ "[]"]) simp

end
