(* ===== verification/Opening_Laws.thy ===== *)
theory Opening_Laws
  imports Resuming Reconcile_Laws
begin

text \<open>
  What acting on a conversation guarantees: an exact binding is exact, recovery never launches anything,
  a resume starts at most one provider and only on proof that no other client runs, and a reservation
  changes hands only when its holder is disproved and is given back at the end, but for one error
  path, which a concrete world takes.
\<close>

section \<open>Histories\<close>

lemma wo_step_passed [simp]: "wo_step (passed ou w) = Suc (wo_step w)"
  by (simp add: wo_step_def passed_def)

lemma passed_log [simp]: "wo_log (passed ou w) = wo_log w"
  by (simp add: passed_def)

lemma passed_past [simp]: "wo_past (passed ou w) = wo_past w @ [wo_db w]"
  by (simp add: passed_def)

text \<open>A later world keeps the history; \<open>Q\<close> holds of every command given since.\<close>

definition issued :: "(store_db list \<Rightarrow> nat \<Rightarrow> tmux_command \<Rightarrow> bool) \<Rightarrow> world \<Rightarrow> world \<Rightarrow> bool" where
  "issued Q w w' \<longleftrightarrow>
     (\<exists>past. wo_past w' = wo_past w @ past)
     \<and> (\<exists>new. wo_log w' = wo_log w @ new \<and> (\<forall>(m, c) \<in> set new. Q (wo_past w') m c))"

lemma issued_same: "wo_past w' = wo_past w @ past \<Longrightarrow> wo_log w' = wo_log w \<Longrightarrow> issued Q w w'"
  by (simp add: issued_def)

lemmas act_defs = act_return_def act_fail_def act_bind_def act_then_def act_when_def require_def required_def
  reading_def storing_def looking_def trying_def transacting_def commanding_def

lemma act_bind_Inr:
  "act_bind m f w = (Inr y, w') \<longleftrightarrow> (\<exists>x w1. m w = (Inr x, w1) \<and> f x w1 = (Inr y, w'))"
  by (auto simp: act_bind_def split: prod.splits sum.splits)

lemma act_then_Inr:
  "act_then m k w = (Inr y, w') \<longleftrightarrow> (\<exists>x w1. m w = (Inr x, w1) \<and> k w1 = (Inr y, w'))"
  by (simp add: act_then_def act_bind_Inr)

lemma act_simps [simp]:
  "act_return x w = (Inr y, w') \<longleftrightarrow> y = x \<and> w' = w"
  "act_fail e w \<noteq> (Inr v1, w')"
  "require b r w = (Inr u, w') \<longleftrightarrow> b \<and> w' = w"
  "required v r w = (Inr z, w') \<longleftrightarrow> v = Some z \<and> w' = w"
  "reading ou f w = (Inr a, w') \<longleftrightarrow> a = f (wo_step w) \<and> w' = passed ou w"
  by (auto simp: act_defs split: option.splits)

locale history_policy =
  fixes ou :: outside and Q :: "store_db list \<Rightarrow> nat \<Rightarrow> tmux_command \<Rightarrow> bool"
  assumes later: "Q past m c \<Longrightarrow> Q (past @ since) m c"
begin

definition obeyed :: "'a act \<Rightarrow> bool" where
  "obeyed a \<longleftrightarrow> (\<forall>w r w'. a w = (r, w') \<longrightarrow> issued Q w w')"

lemma issued_refl: "issued Q w w"
  by (simp add: issued_def)

lemma issued_trans:
  assumes "issued Q a b" and "issued Q b c"
  shows "issued Q a c"
proof -
  from assms(1) obtain p1 n1 where a: "wo_past b = wo_past a @ p1" "wo_log b = wo_log a @ n1"
    "\<forall>(m, c) \<in> set n1. Q (wo_past b) m c" by (auto simp: issued_def)
  from assms(2) obtain p2 n2 where b: "wo_past c = wo_past b @ p2" "wo_log c = wo_log b @ n2"
    "\<forall>(m, k) \<in> set n2. Q (wo_past c) m k" by (auto simp: issued_def)
  from a(3) later b(1) have "\<forall>(m, k) \<in> set n1. Q (wo_past c) m k" by fastforce
  with a b show ?thesis by (auto simp: issued_def)
qed

lemma obeyed_return: "obeyed (act_return x)" and obeyed_fail: "obeyed (act_fail e)"
  by (simp_all add: obeyed_def act_defs issued_refl)

lemma obeyed_bind: "obeyed m \<Longrightarrow> (\<And>x. obeyed (f x)) \<Longrightarrow> obeyed (act_bind m f)"
  unfolding obeyed_def act_bind_def by (fastforce intro: issued_trans split: prod.splits sum.splits)

lemma obeyed_then: "obeyed m \<Longrightarrow> obeyed k \<Longrightarrow> obeyed (act_then m k)"
  unfolding act_then_def by (rule obeyed_bind)

lemma obeyed_when: "obeyed m \<Longrightarrow> obeyed (act_when b m)"
  by (simp add: act_when_def obeyed_return)

lemma obeyed_require: "obeyed (require b r)" and obeyed_required: "obeyed (required v r)"
  by (auto simp: require_def required_def obeyed_return obeyed_fail split: option.split)

lemma obeyed_ensuring: "obeyed (ensuring v)"
  by (auto simp: ensuring_def obeyed_return obeyed_fail split: sum.split)

lemma obeyed_reading: "obeyed (reading ou f)"
  by (auto simp: obeyed_def reading_def intro: issued_same)

lemma obeyed_storing: "obeyed (storing ou f)" and obeyed_looking: "obeyed (looking ou g)"
  by (auto simp: obeyed_def storing_def looking_def Let_def intro!: issued_same split: prod.splits)

lemma obeyed_trying: "obeyed (trying ou f)"
  by (auto simp: obeyed_def trying_def Let_def intro!: issued_same split: prod.splits sum.splits)

lemma obeyed_transacting: "obeyed (transacting ou m)"
  by (auto simp: obeyed_def transacting_def Let_def intro!: issued_same split: prod.splits sum.splits)

lemma obeyed_commanding: "(\<And>past m. Q past m c) \<Longrightarrow> obeyed (commanding ou c)"
  by (auto simp: obeyed_def commanding_def issued_def Let_def split: option.splits)

lemmas obeyed_rules = obeyed_return obeyed_fail obeyed_bind obeyed_then obeyed_when obeyed_require obeyed_required
  obeyed_ensuring obeyed_reading obeyed_storing obeyed_looking obeyed_trying obeyed_transacting

lemma obeyed_observing: "obeyed (clock ou)" "obeyed (observe_complete ou operation)" "obeyed (list_panes ou)"
  "obeyed (get_pane ou target)" "obeyed (process_now ou pid)"
  unfolding clock_def observe_complete_def list_panes_def get_pane_def process_now_def
  by (auto intro!: obeyed_rules split: sum.split)

lemma obeyed_revalidate_each: "obeyed (revalidate_each ou root path)"
  by (induction path) (auto intro!: obeyed_rules obeyed_observing split: sum.split)

lemma obeyed_revalidate: "obeyed (revalidate_ancestry ou root descendant ps)"
  unfolding revalidate_ancestry_def by (auto intro!: obeyed_rules obeyed_revalidate_each split: option.split)

lemma obeyed_recheck_panes: "obeyed (recheck_panes ou s ps now_ps panes)"
  by (induction panes) (auto simp: recheck_pane_def intro!: obeyed_rules obeyed_observing)

lemma obeyed_rechecks: "obeyed (recheck_ignored ou s ps others pid)" "obeyed (recheck_certificate ou s owners pid)"
  unfolding recheck_ignored_def recheck_certificate_def
  by (auto intro!: obeyed_rules obeyed_observing obeyed_recheck_panes split: option.split)

lemma obeyed_bind_candidate: "obeyed (bind_candidate ou s ps tagged owners pn pid)"
  unfolding bind_candidate_def Let_def
  by (intro obeyed_rules obeyed_observing obeyed_revalidate obeyed_rechecks)

text \<open>Binding a pane gives no command at all.\<close>

lemma obeyed_binding: "obeyed (exact_pane_binding env ou s expected)"
  unfolding exact_pane_binding_def Let_def
  by (auto intro!: obeyed_rules obeyed_observing obeyed_bind_candidate split: list.split prod.split)

lemma obeyed_unverified: "obeyed (unverified_pane_binding ou s)" "obeyed (revalidate_unverified_pane ou s b)"
proof -
  show binding: "obeyed (unverified_pane_binding ou s)"
    unfolding unverified_pane_binding_def Let_def
    by (auto intro!: obeyed_rules obeyed_observing obeyed_revalidate split: list.split)
  show "obeyed (revalidate_unverified_pane ou s b)"
    unfolding revalidate_unverified_pane_def by (intro obeyed_rules binding)
qed

lemma obeyed_recording: "obeyed (record_exact_handoff env ou s b t)" "obeyed (record_opened_pending env ou pl)"
  unfolding record_exact_handoff_def confirm_exact_handoff_def record_opened_def record_opened_pending_def
  by (auto intro!: obeyed_rules obeyed_observing obeyed_binding split: option.split)

lemma obeyed_reconciled: "obeyed (reconciled env ou)"
  by (auto simp: obeyed_def reconciled_def Let_def intro!: issued_same split: prod.splits sum.splits)

lemma obeyed_attempts: "obeyed m \<Longrightarrow> obeyed (attempts k m)"
proof (induction k)
  case 0
  then show ?case by (simp add: obeyed_fail)
next
  case (Suc k)
  show ?case unfolding obeyed_def
  proof (intro allI impI)
    fix w r w' assume run: "attempts (Suc k) m w = (r, w')"
    obtain r1 w1 where first: "m w = (r1, w1)" by fastforce
    with Suc.prems have one: "issued Q w w1" by (auto simp: obeyed_def)
    from run first have "(r, w') = (r1, w1) \<or> attempts k m w1 = (r, w')"
      by (auto split: sum.splits open_error.splits core_error.splits)
    with one Suc.IH [OF Suc.prems] show "issued Q w w'" unfolding obeyed_def by (blast intro: issued_trans)
  qed
qed

lemma obeyed_reconcile: "obeyed (reconcile_for_action env ou)"
  unfolding reconcile_for_action_def fresh_observation_def by (intro obeyed_attempts obeyed_reconciled)

lemma obeyed_hand_over: "(\<And>past m. Q past m c) \<Longrightarrow> obeyed k \<Longrightarrow> obeyed (hand_over ou c pn k)"
proof -
  assume c: "\<And>past m. Q past m c" and k: "obeyed k"
  show ?thesis unfolding obeyed_def
  proof (intro allI impI)
    fix w r w' assume run: "hand_over ou c pn k w = (r, w')"
    let ?w1 = "(passed ou w)\<lparr>wo_log := wo_log w @ [(wo_step w, c)]\<rparr>"
    have one: "issued Q w ?w1" using c by (simp add: issued_def)
    have rest: "issued Q ?w1 w'" if "act_then k (act_return (code, Some delivery)) ?w1 = (r, w')" for code delivery
      using obeyed_then [OF k obeyed_return [of "(code, Some delivery)"]] that unfolding obeyed_def by blast
    show "issued Q w w'"
    proof (cases "ou_attached ou (wo_step w) pn")
      case (Handed_over code delivery)
      with run have "issued Q ?w1 w'" by (intro rest [of code delivery]) (simp add: hand_over_def Let_def)
      with one show ?thesis by (rule issued_trans)
    qed (use run one in \<open>simp_all add: hand_over_def Let_def\<close>)
  qed
qed

end

section \<open>Policies on what is commanded\<close>

text \<open>A policy that lets a home be configured and shown to a client.\<close>

locale attaching_policy = history_policy +
  assumes configure_allowed: "Q past m (Configure pn)"
    and attach_allowed: "Q past m (tmux_command.Attach pn receipt)"
    and attach_unverified_allowed: "Q past m (Attach_unverified pn)"
begin

lemma obeyed_configure: "obeyed (configure_exact_home ou pn)"
  unfolding configure_exact_home_def by (intro obeyed_rules obeyed_commanding configure_allowed)

lemma obeyed_attach: "obeyed k \<Longrightarrow> obeyed (attach_exact ou pn receipt k)"
  unfolding attach_exact_def by (intro obeyed_rules obeyed_configure obeyed_hand_over attach_allowed)

lemma obeyed_attach_if: "obeyed m \<Longrightarrow> obeyed (attach_if attach m)"
  by (simp add: attach_if_def obeyed_return)

lemma obeyed_attach_binding: "obeyed (attach_binding env ou s b kind t attach)"
  unfolding attach_binding_def by (intro obeyed_attach_if obeyed_attach obeyed_recording)

lemma obeyed_attach_home: "obeyed (attach_home env ou s attach)"
  unfolding attach_home_def by (intro obeyed_rules obeyed_binding obeyed_attach_binding)

lemma obeyed_recover: "obeyed (recover_existing_session env ou s attach)"
  unfolding recover_existing_session_def
  by (auto intro!: obeyed_rules obeyed_reconcile obeyed_attach_home split: option.split)

lemma obeyed_open_unverified: "obeyed (open_unverified_terminal ou s b)"
  unfolding open_unverified_terminal_def
  by (intro obeyed_rules obeyed_unverified obeyed_hand_over attach_unverified_allowed)

lemma obeyed_open_pending: "obeyed (open_pending env pk ou token attach)"
  unfolding open_pending_def open_pending_terminal_def Let_def
  by (auto intro!: obeyed_rules obeyed_observing obeyed_recover obeyed_attach_if obeyed_attach obeyed_recording
    split: option.split)

end

text \<open>A policy that also lets a private holder be made and tagged. What it does not speak of is the one
  command that starts a provider: \<open>R\<close> says when that is given, and it is given at most once.\<close>

definition one_start ::
  "(store_db list \<Rightarrow> nat \<Rightarrow> tmux_command \<Rightarrow> bool) \<Rightarrow> (store_db list \<Rightarrow> tmux_command \<Rightarrow> bool) \<Rightarrow> world \<Rightarrow> world \<Rightarrow> bool" where
  "one_start Q R w w' \<longleftrightarrow>
     issued Q w w'
     \<or> (\<exists>w1 c w2. issued Q w w1 \<and> R (wo_past w1) c \<and> wo_past w2 = wo_past w1 @ [wo_db w1]
          \<and> wo_log w2 = wo_log w1 @ [(wo_step w1, c)] \<and> issued Q w2 w')"

locale starting_policy = attaching_policy +
  fixes R :: "store_db list \<Rightarrow> tmux_command \<Rightarrow> bool"
  assumes holder_allowed: "Q past m (New_session name cwd)"
    and tag_allowed: "Q past m (Tag_pane pn p i name token)"
begin

definition starts_from :: "world \<Rightarrow> 'a act \<Rightarrow> bool" where
  "starts_from w a \<longleftrightarrow> (\<forall>r w'. a w = (r, w') \<longrightarrow> one_start Q R w w')"

lemma quiet_start: "issued Q a b \<Longrightarrow> one_start Q R b c \<Longrightarrow> one_start Q R a c"
  unfolding one_start_def by (blast intro: issued_trans)

lemma start_quiet: "one_start Q R a b \<Longrightarrow> issued Q b c \<Longrightarrow> one_start Q R a c"
  unfolding one_start_def by (blast intro: issued_trans)

lemma starts_quiet: "obeyed a \<Longrightarrow> starts_from w a"
  by (auto simp: obeyed_def starts_from_def one_start_def)

lemma starts_after:
  assumes "obeyed m" and "\<And>x w1. m w = (Inr x, w1) \<Longrightarrow> starts_from w1 (f x)"
  shows "starts_from w (act_bind m f)"
  unfolding starts_from_def
proof (intro allI impI)
  fix r w' assume run: "act_bind m f w = (r, w')"
  obtain r1 w1 where m: "m w = (r1, w1)" by fastforce
  with assms(1) have q: "issued Q w w1" by (auto simp: obeyed_def)
  show "one_start Q R w w'"
  proof (cases r1)
    case (Inr x)
    with run m have "f x w1 = (r, w')" by (simp add: act_bind_def)
    with assms(2) [of x w1] m Inr have "one_start Q R w1 w'" by (auto simp: starts_from_def)
    with q show ?thesis by (rule quiet_start)
  qed (use run m q in \<open>simp add: act_bind_def one_start_def\<close>)
qed

lemma starts_then:
  assumes "obeyed m" and "\<And>x w1. m w = (Inr x, w1) \<Longrightarrow> starts_from w1 k"
  shows "starts_from w (act_then m k)"
  unfolding act_then_def using assms by (rule starts_after)

lemma starts_before:
  assumes "starts_from w m" and "\<And>x. obeyed (f x)"
  shows "starts_from w (act_bind m f)"
  using assms unfolding starts_from_def obeyed_def act_bind_def
  by (fastforce intro: start_quiet split: prod.splits sum.splits)

lemma starts_commanding: "R (wo_past w) c \<Longrightarrow> starts_from w (commanding ou c)"
  unfolding starts_from_def one_start_def
proof (intro allI impI disjI2)
  fix r w' assume "R (wo_past w) c" and "commanding ou c w = (r, w')"
  then show "\<exists>w1 k w2. issued Q w w1 \<and> R (wo_past w1) k \<and> wo_past w2 = wo_past w1 @ [wo_db w1]
      \<and> wo_log w2 = wo_log w1 @ [(wo_step w1, k)] \<and> issued Q w2 w'"
    by (intro exI [of _ w] exI [of _ c] exI [of _ w'])
      (auto simp: commanding_def Let_def issued_refl split: option.splits)
qed

lemma obeyed_prepared: "obeyed (require_prepared_pane ou pn p i name token)"
  unfolding require_prepared_pane_def by (intro obeyed_rules obeyed_observing)

lemma obeyed_prepare: "obeyed (prepare_agent_pane ou pn p i name token)"
  unfolding prepare_agent_pane_def
  by (intro obeyed_rules obeyed_observing obeyed_commanding tag_allowed obeyed_prepared)

lemma obeyed_phase: "obeyed (set_required_launch_phase ou token phase)" "obeyed (bind_required ou token p i)"
  "obeyed (register_launch_wrapper pk ou token)" "obeyed (existing_cwd ou v)"
  unfolding set_required_launch_phase_def bind_required_def register_launch_wrapper_def existing_cwd_def
  by (auto intro!: obeyed_rules obeyed_observing split: option.split)

lemma obeyed_allocate: "obeyed (allocate_holder ou name cwd p i daily token)"
  unfolding allocate_holder_def create_holding_session_def
  by (intro obeyed_rules obeyed_observing obeyed_commanding holder_allowed obeyed_configure obeyed_prepare obeyed_phase)

lemma starts_prepared:
  assumes "\<And>reserved past. prepared_as pn p i name token reserved
    \<Longrightarrow> R (wo_past w @ past) (Respawn reserved cwd p argv i token)"
  shows "starts_from w (start_prepared_agent ou pn cwd p argv i name token)"
  unfolding start_prepared_agent_def
proof (rule starts_after [OF obeyed_prepared], rule starts_after [OF obeyed_reading], rule starts_then [OF obeyed_require])
  fix reserved w1 exe w2 x w3
  assume run: "require_prepared_pane ou pn p i name token w = (Inr reserved, w1)"
    and "reading ou (ou_current_exe ou) w1 = (Inr exe, w2)"
    and "require (exe \<noteq> None) (Other_refusal ''no current executable'') w2 = (Inr x, w3)"
  moreover from run obeyed_prepared obtain past where "wo_past w1 = wo_past w @ past" unfolding obeyed_def issued_def by blast
  ultimately have "wo_past w3 = wo_past w @ past @ [wo_db w1]" by simp
  moreover from run have "prepared_as pn p i name token reserved"
    by (auto simp: require_prepared_pane_def act_bind_Inr act_then_Inr)
  ultimately have "R (wo_past w3) (Respawn reserved cwd p argv i token)" by (simp add: assms)
  note start = starts_commanding [OF this]
  show "starts_from w3 (act_then (commanding ou (Respawn reserved cwd p argv i token))
      (act_bind (get_pane ou (pn_pane_id reserved)) (\<lambda>found.
       act_bind (required found (Other_refusal ''tmux agent pane disappeared after respawn'')) (\<lambda>launched.
       act_then (require (pn_provider launched = Some p \<and> pn_session_id launched = i \<and> pn_launch_token launched = Some token)
         (Other_refusal ''provider may have started, but the tmux launch reservation changed''))
         (act_return launched)))))"
    unfolding act_then_def by (rule starts_before [OF start]) (intro obeyed_rules obeyed_observing)
qed

end

section \<open>Recovery and attachment launch nothing\<close>

definition only_shows :: "tmux_command \<Rightarrow> bool" where
  "only_shows c \<longleftrightarrow> (\<exists>pn receipt. c = Configure pn \<or> c = tmux_command.Attach pn receipt \<or> c = Attach_unverified pn)"

interpretation showing: attaching_policy ou "\<lambda>past m c. only_shows c" for ou
  by unfold_locales (auto simp: only_shows_def)

text \<open>(C24) The recovery of a conversation whose home still runs, of a pending launch, or of a terminal nothing
  certifies, only configures a pane and shows it to a client: whatever the processes, tmux, the
  clock and the other connections do, and however it ends, it makes no session, tags or untags no
  pane, starts no provider and signals no process.\<close>

theorem recovery_never_launches:
  assumes "recover_existing_session env ou s attach w = (r, w')
    \<or> open_pending env pk ou token attach w = (r, w')
    \<or> open_unverified_terminal ou s b w = (r, w')"
  shows "\<exists>new. wo_log w' = wo_log w @ new \<and> (\<forall>(m, c) \<in> set new. only_shows c)"
proof -
  from assms have "issued (\<lambda>past m c. only_shows c) w w'"
  proof (elim disjE)
    assume "recover_existing_session env ou s attach w = (r, w')"
    with showing.obeyed_recover show ?thesis unfolding showing.obeyed_def by blast
  next
    assume "open_pending env pk ou token attach w = (r, w')"
    with showing.obeyed_open_pending show ?thesis unfolding showing.obeyed_def by blast
  next
    assume "open_unverified_terminal ou s b w = (r, w')"
    with showing.obeyed_open_unverified show ?thesis unfolding showing.obeyed_def by blast
  qed
  then show ?thesis by (auto simp: issued_def)
qed

section \<open>Starting a provider\<close>

definition no_start :: "tmux_command \<Rightarrow> bool" where
  "no_start c \<longleftrightarrow> (case c of Respawn _ _ _ _ _ _ \<Rightarrow> False | Untag_pane _ \<Rightarrow> False | Terminate _ _ \<Rightarrow> False | _ \<Rightarrow> True)"

context starting_policy
begin

lemma obeyed_wait: "obeyed (wait_for_exact_binding k env ou s pane_id)"
proof (induction k)
  case (Suc k)
  then show ?case using obeyed_binding [of env s "Some pane_id"] unfolding obeyed_def
    by (fastforce intro: issued_trans split: prod.splits sum.splits)
qed (simp add: obeyed_binding)

lemma obeyed_await: "obeyed (await_binding env ou s pane_id)"
  unfolding await_binding_def by (intro obeyed_rules obeyed_wait)

lemma obeyed_certify: "obeyed (certify_resume_generation ou s token pid start)"
  unfolding certify_resume_generation_def by (intro obeyed_rules obeyed_observing)

lemma obeyed_settle: "obeyed (settle_resumed env ou rx pn)"
  unfolding settle_resumed_def Let_def
  by (intro obeyed_rules obeyed_observing obeyed_await obeyed_certify obeyed_attach_binding)

text \<open>A start that rests on what held earlier, and still does.\<close>

definition starts_given :: "(store_db list \<Rightarrow> bool) \<Rightarrow> 'a act \<Rightarrow> bool" where
  "starts_given P a \<longleftrightarrow> (\<forall>past since. P past \<longrightarrow> P (past @ since)) \<and> (\<forall>w. P (wo_past w) \<longrightarrow> starts_from w a)"

lemma given_after:
  assumes "obeyed m" and "\<And>x. starts_given P (f x)"
  shows "starts_given P (act_bind m f)"
  unfolding starts_given_def
proof (intro conjI allI impI)
  fix w :: world assume here: "P (wo_past w)"
  show "starts_from w (act_bind m f)"
  proof (rule starts_after [OF assms(1)])
    fix x w1 assume "m w = (Inr x, w1)"
    with assms(1) obtain since where "wo_past w1 = wo_past w @ since" unfolding obeyed_def issued_def by blast
    with here assms(2) [of x] show "starts_from w1 (f x)" unfolding starts_given_def by metis
  qed
qed (use assms(2) in \<open>auto simp: starts_given_def\<close>)

lemma given_then: "obeyed m \<Longrightarrow> starts_given P k \<Longrightarrow> starts_given P (act_then m k)"
  unfolding act_then_def by (rule given_after)

lemma given_quiet: "(\<And>past since. P past \<Longrightarrow> P (past @ since)) \<Longrightarrow> obeyed a \<Longrightarrow> starts_given P a"
  by (simp add: starts_given_def starts_quiet)

lemma obeyed_inspect: "obeyed (inspect_initial_resume_ownership env ou rx ps)"
  unfolding inspect_initial_resume_ownership_def attach_existing_reserved_def Let_def
  by (auto intro!: obeyed_rules obeyed_observing obeyed_binding obeyed_attach_binding)

lemma obeyed_retire: "obeyed (retire_dead_same_name_pending env pk ou s panes ps)"
proof -
  have "obeyed (retire_each env pk ou s panes ps pls)" for pls
    by (induction pls) (auto simp: retire_pending_def intro!: obeyed_rules obeyed_observing)
  then show ?thesis unfolding retire_dead_same_name_pending_def by (intro obeyed_rules)
qed

lemma obeyed_pane: "obeyed (prepare_resume_pane env pk ou rx panes)"
  unfolding prepare_resume_pane_def Let_def by (intro obeyed_rules obeyed_phase obeyed_allocate)

lemma obeyed_reservation: "obeyed (reserve_resume_after_stale_proof ou p i token pid start)"
  unfolding reserve_resume_after_stale_proof_def
  by (auto intro!: obeyed_rules obeyed_observing split: option.split)

end

text \<open>The store as a step found it, after what the other connections committed before.\<close>

definition store_at :: "outside \<Rightarrow> store_db list \<Rightarrow> nat \<Rightarrow> store_db" where
  "store_at ou past j = ou_others ou j (past ! j)"

definition recorded_starting :: "store_db \<Rightarrow> string \<Rightarrow> bool" where
  "recorded_starting db token \<longleftrightarrow>
     get_pending db token \<noteq> None \<and> get_launch_phase db token = Some Provider_starting"

text \<open>The pane a provider may be started in, by the complete observation of step \<open>k\<close>: it carries the tags of
  the launch, the launch was recorded as starting before, and the pane ran nothing but its holder.\<close>

definition ready_pane ::
  "outside \<Rightarrow> store_db list \<Rightarrow> pane \<Rightarrow> provider \<Rightarrow> string option \<Rightarrow> string \<Rightarrow> nat \<Rightarrow> processes \<Rightarrow> bool" where
  "ready_pane ou past pn p i token k ps \<longleftrightarrow>
     pn_provider pn = Some p \<and> pn_session_id pn = i \<and> pn_launch_token pn = Some token
     \<and> k < length past \<and> recorded_starting (past ! k) token
     \<and> require_complete ''execute the reserved provider launch'' (ou_processes ou k) = Inr ps
     \<and> process_tree (pn_pane_pid pn) ps = [pn_pane_pid pn]"

text \<open>The proof a resume of \<open>s\<close> rests on when it starts a provider: it held the reservation under its token,
  the pane is ready, in the same observation no process named the conversation, and in the store as
  it stood after that observation no lease had a running owner.\<close>

definition resume_proof :: "core_env \<Rightarrow> outside \<Rightarrow> session \<Rightarrow> store_db list \<Rightarrow> tmux_command \<Rightarrow> bool" where
  "resume_proof env ou s past c \<longleftrightarrow>
     (\<exists>pn cwd argv token h row k j ps.
        c = Respawn pn cwd (s_provider s) argv (Some (s_session_id s)) token
        \<and> ready_pane ou past pn (s_provider s) (Some (s_session_id s)) token k ps
        \<and> h \<le> k \<and> k < j \<and> j < length past
        \<and> get_resume_reservation (past ! h) (s_provider s) (s_session_id s) = Some row \<and> lr_token row = token
        \<and> find_session_processes (ce_uuid env) (provider_thread_id s) (s_provider s) ps = {}
        \<and> active_resume_owner_pids (s_provider s) (s_session_id s) ps (store_at ou past j) = {})"

text \<open>The proof the launch of a new conversation rests on: the pane is ready, and when the conversation's
  identity is already fixed, no process of the same observation named it.\<close>

definition launch_proof :: "core_env \<Rightarrow> outside \<Rightarrow> provider \<Rightarrow> string option \<Rightarrow> store_db list \<Rightarrow> tmux_command \<Rightarrow> bool" where
  "launch_proof env ou p thread past c \<longleftrightarrow>
     (\<exists>pn cwd argv i token k ps.
        c = Respawn pn cwd p argv i token \<and> ready_pane ou past pn p i token k ps \<and> thread \<in> {None, i}
        \<and> (case i of None \<Rightarrow> True | Some identity \<Rightarrow> find_session_processes (ce_uuid env) identity p ps = {}))"

interpretation quiet: attaching_policy ou "\<lambda>past m c. no_start c" for ou
  by unfold_locales (auto simp: no_start_def)

interpretation launching: starting_policy ou "\<lambda>past m c. no_start c" "launch_proof env ou p thread" for ou env p thread
  by unfold_locales (auto simp: no_start_def)

interpretation resuming: starting_policy ou "\<lambda>past m c. no_start c" "resume_proof env ou s" for ou env s
  by unfold_locales (auto simp: no_start_def)

lemma observe_complete_Inr:
  "observe_complete ou operation w = (Inr ps, w') \<longleftrightarrow>
     require_complete operation (ou_processes ou (wo_step w)) = Inr ps \<and> w' = passed ou w"
  by (auto simp: observe_complete_def act_bind_Inr split: sum.splits)

lemma looking_Inr:
  "looking ou f w = (Inr x, w') \<longleftrightarrow> x = f (ou_others ou (wo_step w) (wo_db w)) \<and> w' = passed ou w"
  by (auto simp: looking_def storing_def Let_def passed_def)

lemma storing_Inr:
  "storing ou f w = (Inr x, w') \<longleftrightarrow>
     (\<exists>db. f (ou_others ou (wo_step w) (wo_db w)) = (x, db) \<and> w' = (passed ou w)\<lparr>wo_db := db\<rparr>)"
  by (auto simp: storing_def Let_def passed_def split: prod.splits)

lemma ensuring_Inr: "ensuring v w = (Inr u, w') \<longleftrightarrow> v = Inr () \<and> w' = w"
  by (auto simp: ensuring_def act_defs split: sum.splits)

lemma idle_alone: "require_idle_pane pn ps holder = Inr () \<Longrightarrow> process_tree (pn_pane_pid pn) ps = [pn_pane_pid pn]"
  unfolding require_idle_pane_def Let_def by (simp split: if_splits)

lemma phase_recorded:
  "set_required_launch_phase ou token Provider_starting w = (Inr u, w') \<Longrightarrow> recorded_starting (wo_db w') token"
  by (auto simp: set_required_launch_phase_def act_bind_Inr storing_Inr set_launch_phase_def recorded_starting_def
      get_launch_phase_def put_phase_def set_meta_def get_pending_def launch_phase_parse_def split: if_splits)

lemma unclaimed_facts:
  assumes "ensure_resume_launch_unclaimed env ou s identity ps prepared w = (Inr u, w')"
  shows "w' = passed ou w \<and> find_session_processes (ce_uuid env) identity (s_provider s) ps = {}
    \<and> process_tree (pn_pane_pid prepared) ps = [pn_pane_pid prepared]
    \<and> active_resume_owner_pids (s_provider s) (s_session_id s) ps (ou_others ou (wo_step w) (wo_db w)) = {}"
  using assms unfolding ensure_resume_launch_unclaimed_def
  by (auto simp: act_bind_Inr act_then_Inr looking_Inr ensuring_Inr idle_alone)

text \<open>Held: the reservation with this token was in the store at an earlier step.\<close>

definition held :: "session \<Rightarrow> string \<Rightarrow> store_db list \<Rightarrow> bool" where
  "held s token past \<longleftrightarrow>
     (\<exists>h row. h < length past \<and> get_resume_reservation (past ! h) (s_provider s) (s_session_id s) = Some row
        \<and> lr_token row = token)"

lemma held_later: "held s token past \<Longrightarrow> held s token (past @ since)"
  unfolding held_def by (metis length_append nth_append trans_less_add1)

lemma issued_past: "issued Q w w' \<Longrightarrow> \<exists>since. wo_past w' = wo_past w @ since"
  by (auto simp: issued_def)

lemma execute_starts:
  assumes identity: "rx_identity rx = provider_thread_id (rx_session rx)" and "held (rx_session rx) (rx_token rx) (wo_past w)"
  shows "resuming.starts_from env ou (rx_session rx) w (execute_resume_pane env ou rx prepared cwd argv)"
  unfolding execute_resume_pane_def Let_def
proof (rule resuming.starts_then [OF resuming.obeyed_phase(1)], rule resuming.starts_after [OF quiet.obeyed_observing(2)],
    rule resuming.starts_then)
  let ?s = "rx_session rx"
  show "quiet.obeyed (ensure_resume_launch_unclaimed env ou ?s (rx_identity rx) ps prepared)" for ps
    unfolding ensure_resume_launch_unclaimed_def by (intro quiet.obeyed_rules)
  fix x w1 ps w2 y w3
  assume phase: "set_required_launch_phase ou (rx_token rx) Provider_starting w = (Inr x, w1)"
    and seen: "observe_complete ou ''execute the reserved provider launch'' w1 = (Inr ps, w2)"
    and free: "ensure_resume_launch_unclaimed env ou ?s (rx_identity rx) ps prepared w2 = (Inr y, w3)"
  from phase resuming.obeyed_phase(1) have "issued (\<lambda>past m c. no_start c) w w1" unfolding quiet.obeyed_def by blast
  with held_later assms(2) obtain h row where h: "h < wo_step w1"
    "get_resume_reservation (wo_past w1 ! h) (s_provider ?s) (s_session_id ?s) = Some row" "lr_token row = rx_token rx"
    unfolding held_def wo_step_def by (metis issued_past)
  from seen have ps: "require_complete ''execute the reserved provider launch'' (ou_processes ou (wo_step w1)) = Inr ps"
    and w2: "w2 = passed ou w1" by (simp_all add: observe_complete_Inr)
  note recorded = phase_recorded [OF phase]
  note free = unclaimed_facts [OF free, unfolded identity]
  have past: "wo_past w3 = wo_past w1 @ [wo_db w1, wo_db w2]" using free w2 by simp
  have "resume_proof env ou ?s (wo_past w3 @ since)
      (Respawn reserved cwd (s_provider ?s) argv (Some (s_session_id ?s)) (rx_token rx))"
    if "prepared_as prepared (s_provider ?s) (Some (s_session_id ?s)) (display_name ?s) (rx_token rx) reserved"
    for reserved since
    unfolding resume_proof_def ready_pane_def past
    by (intro exI [of _ reserved] exI [of _ cwd] exI [of _ argv] exI [of _ "rx_token rx"] exI [of _ h] exI [of _ row]
        exI [of _ "wo_step w1"] exI [of _ "Suc (wo_step w1)"] exI [of _ ps] conjI refl ps,
      use that free h w2 recorded in \<open>auto simp: prepared_as_def nth_append wo_step_def store_at_def\<close>)
  note started = resuming.starts_prepared [OF this]
  show "resuming.starts_from env ou ?s w3 (act_bind (start_prepared_agent ou prepared cwd (s_provider ?s) argv
      (Some (s_session_id ?s)) (display_name ?s) (rx_token rx)) (settle_resumed env ou rx))"
    by (rule resuming.starts_before [OF started]) (assumption | rule resuming.obeyed_settle)+
qed

section \<open>The reservation\<close>

lemma row_by_snoc_new: "key r \<notin> key ` set rows \<Longrightarrow> row_by key (key r) (rows @ [r]) = Some r"
  using row_by_None [of key "key r" rows] by (simp add: row_by_append row_by_Cons)

lemma new_reservation_identity [simp]: "lr_identity (new_reservation t p i token pid start) = (p, i)"
  by (simp add: lr_identity_def new_reservation_def)

lemma reserve_resume_held:
  assumes "reserve_resume t p i token pid start db = (True, db')"
  shows "get_resume_reservation db p i = None
    \<and> get_resume_reservation db' p i = Some (new_reservation t p i token pid start)"
proof -
  let ?new = "new_reservation t p i token pid start"
  from assms have free: "row_by lr_identity (p, i) (st_reservations db) = None"
    by (simp add: reserve_resume_def get_resume_reservation_def)
  then have "lr_identity ?new \<notin> lr_identity ` set (st_reservations db)" by (simp add: row_by_None)
  with assms row_by_snoc_new [OF this] free show ?thesis
    by (auto simp: reserve_resume_def get_resume_reservation_def insert_or_ignore_def)
qed

lemma replace_reservation_held:
  assumes "replace_reservation hit new db = (True, db')"
  shows "list_ex hit (st_reservations db)
    \<and> row_by lr_identity (lr_identity new) (st_reservations db') = Some new"
proof -
  from assms have "lr_identity new \<notin> lr_identity ` set (delete_where hit (st_reservations db))"
    and hit: "list_ex hit (st_reservations db)"
    and db': "db' = db\<lparr>st_reservations := delete_where hit (st_reservations db) @ [new]\<rparr>"
    by (auto simp: replace_reservation_def Let_def split: if_splits)
  from row_by_snoc_new [OF this(1)] hit show ?thesis by (simp add: db')
qed

text \<open>The recorded owner is gone: the table has no process at its pid of its start.\<close>

definition owner_gone :: "processes \<Rightarrow> i64 \<Rightarrow> i64 \<Rightarrow> bool" where
  "owner_gone ps pid start \<longleftrightarrow> (\<forall>r. map_of ps pid = Some r \<longrightarrow> u64_try_from start \<noteq> Some (pr_start_time r))"

lemma owner_gone_case:
  "(case map_of ps pid of None \<Rightarrow> True | Some r \<Rightarrow> u64_try_from start \<noteq> Some (pr_start_time r)) = owner_gone ps pid start"
  by (simp add: owner_gone_def split: option.split)

text \<open>What the reservation of a conversation rests on, between two worlds: no row was there when it was
  made, or a complete observation disproved the owner of the row that was read before, and that very
  row was still there when it was replaced.\<close>

definition reservation_free :: "outside \<Rightarrow> world \<Rightarrow> world \<Rightarrow> provider \<Rightarrow> string \<Rightarrow> bool" where
  "reservation_free ou w w' p i \<longleftrightarrow>
     (\<exists>j. wo_step w \<le> j \<and> j < wo_step w' \<and> get_resume_reservation (store_at ou (wo_past w') j) p i = None)
     \<or> (\<exists>j k m row pid start ps. wo_step w \<le> j \<and> j < k \<and> k < m \<and> m < wo_step w'
          \<and> get_resume_reservation (store_at ou (wo_past w') j) p i = Some row
          \<and> lr_owner_pid row = Some pid \<and> lr_owner_start_time row = Some start
          \<and> require_complete ''verify a stale resume reservation'' (ou_processes ou k) = Inr ps
          \<and> owner_gone ps pid start
          \<and> list_ex (same_reservation row) (st_reservations (store_at ou (wo_past w') m)))"

lemma wo_step_db [simp]: "wo_step (w\<lparr>wo_db := db\<rparr>) = wo_step w"
  by (simp add: wo_step_def)

lemma reservation_made:
  assumes "reserve_resume_after_stale_proof ou p i token pid start w = (Inr True, w')"
  shows "(\<exists>row. get_resume_reservation (wo_db w') p i = Some row \<and> lr_token row = token
      \<and> lr_owner_pid row = Some pid \<and> lr_owner_start_time row = Some start)
    \<and> reservation_free ou w w' p i"
proof -
  let ?n = "wo_step w"
  let ?w1 = "passed ou w"
  let ?held = "\<exists>row. get_resume_reservation (wo_db w') p i = Some row \<and> lr_token row = token
      \<and> lr_owner_pid row = Some pid \<and> lr_owner_start_time row = Some start"
  obtain ok db where first: "reserve_resume (ou_clock ou ?n) p i token pid start (ou_others ou (wo_step ?w1) (wo_db ?w1)) = (ok, db)"
    by fastforce
  let ?w2 = "(passed ou ?w1)\<lparr>wo_db := db\<rparr>"
  show ?thesis
  proof (cases ok)
    case True
    with assms first have w': "w' = ?w2"
      by (auto simp: reserve_resume_after_stale_proof_def clock_def act_bind_Inr storing_Inr)
    from first True have "reserve_resume (ou_clock ou ?n) p i token pid start (ou_others ou (wo_step ?w1) (wo_db ?w1)) = (True, db)"
      by simp
    note made = reserve_resume_held [OF this]
    from made w' have ?held by (auto simp: new_reservation_def)
    moreover have "reservation_free ou w w' p i" unfolding reservation_free_def
      by (intro disjI1 exI [of _ "Suc ?n"] conjI)
        (use made w' in \<open>auto simp: store_at_def wo_step_def nth_append passed_def\<close>)
    ultimately show ?thesis by blast
  next
    case False
    let ?w3 = "passed ou ?w2"
    let ?w4 = "passed ou ?w3"
    let ?w5 = "passed ou ?w4"
    from assms first False obtain row stale_pid stale_start ps db'
      where row: "get_resume_reservation (ou_others ou (wo_step ?w2) (wo_db ?w2)) p i = Some row"
        and owner: "lr_owner_pid row = Some stale_pid" "lr_owner_start_time row = Some stale_start"
        and ps: "require_complete ''verify a stale resume reservation'' (ou_processes ou (wo_step ?w3)) = Inr ps"
        and gone: "owner_gone ps stale_pid stale_start"
        and replaced: "reclaim_resume_if_generation (ou_clock ou (wo_step ?w4)) row token pid start
          (ou_others ou (wo_step ?w5) (wo_db ?w5)) = (True, db')" and w': "w' = (passed ou ?w5)\<lparr>wo_db := db'\<rparr>"
      unfolding reserve_resume_after_stale_proof_def clock_def owner_gone_case
      by (auto simp: act_bind_Inr storing_Inr looking_Inr observe_complete_Inr split: option.splits if_splits)
    note taken = replace_reservation_held [OF replaced [unfolded reclaim_resume_if_generation_def]]
    have same: "lr_provider row = p \<and> lr_session_id row = i"
      using row by (auto simp: get_resume_reservation_def lr_identity_def dest: row_by_Some)
    from taken same w' have ?held by (auto simp: get_resume_reservation_def new_reservation_def lr_identity_def)
    moreover have "reservation_free ou w w' p i" unfolding reservation_free_def
      by (intro disjI2 exI [of _ "wo_step ?w2"] exI [of _ "wo_step ?w3"] exI [of _ "wo_step ?w5"] exI [of _ row]
          exI [of _ stale_pid] exI [of _ stale_start] exI [of _ ps] conjI owner ps gone)
        (use row taken w' in \<open>auto simp: store_at_def wo_step_def nth_append\<close>)
    ultimately show ?thesis by blast
  qed
qed

text \<open>(C13) A conversation is reserved for one resume at a time: when Pika obtains the reservation, the row
  carries its token and its own process generation, and either no row was there, or a complete
  observation made in between showed that the recorded owner's generation no longer runs and the
  very row it had read was still there when it was replaced. A live holder keeps its reservation.\<close>

theorem reservation_needs_disproof:
  assumes "reserve_resume_after_stale_proof ou p i token pid start w = (Inr True, w')"
  shows "(\<exists>row. get_resume_reservation (wo_db w') p i = Some row \<and> lr_token row = token
      \<and> lr_owner_pid row = Some pid \<and> lr_owner_start_time row = Some start)
    \<and> reservation_free ou w w' p i"
  using assms by (rule reservation_made)

section \<open>Resuming starts once, on proof, and gives the reservation back\<close>

lemma reserved_starts:
  assumes "rx_identity rx = provider_thread_id (rx_session rx)"
  shows "resuming.starts_given env ou (rx_session rx) (held (rx_session rx) (rx_token rx)) (resume_session_reserved env pk ou rx)"
proof -
  let ?s = "rx_session rx"
  let ?P = "held ?s (rx_token rx)"
  note later = held_later [of ?s "rx_token rx"]
  have run: "resuming.starts_given env ou ?s ?P (execute_resume_pane env ou rx prepared cwd argv)" for prepared cwd argv
    using execute_starts [OF assms] later by (simp add: resuming.starts_given_def)
  have ready: "resuming.starts_given env ou ?s ?P (act_return receipt)" for receipt :: open_receipt
    by (rule resuming.given_quiet) (erule later, rule quiet.obeyed_return)
  show ?thesis unfolding resume_session_reserved_def
    by (intro resuming.given_after quiet.obeyed_observing resuming.obeyed_inspect)
      (auto intro!: resuming.given_then resuming.given_after resuming.obeyed_retire quiet.obeyed_observing
        quiet.obeyed_trying quiet.obeyed_require resuming.obeyed_pane run ready split: prod.split option.split)
qed

lemma reserved_resume_starts:
  assumes "rx_identity rx = provider_thread_id (rx_session rx)" and "held (rx_session rx) (rx_token rx) (wo_past w)"
  shows "resuming.starts_from env ou (rx_session rx) w (reserved_resume env pk ou rx)"
  unfolding resuming.starts_from_def
proof (intro allI impI)
  fix r w' assume run: "reserved_resume env pk ou rx w = (r, w')"
  let ?release = "storing ou (release_resume (s_provider (rx_session rx)) (s_session_id (rx_session rx)) (rx_token rx))"
  obtain r1 w1 r2 w2 where part: "resume_session_reserved env pk ou rx w = (r1, w1)" "?release w1 = (r2, w2)" by (meson surj_pair)
  with run have "w' = w2" by (auto simp: reserved_resume_def split: sum.splits)
  moreover have "one_start (\<lambda>past m c. no_start c) (resume_proof env ou (rx_session rx)) w w1"
    using reserved_starts [OF assms(1)] assms(2) part(1) unfolding resuming.starts_given_def resuming.starts_from_def by blast
  moreover have "issued (\<lambda>past m c. no_start c) w1 w2"
    using part(2) quiet.obeyed_storing unfolding quiet.obeyed_def by blast
  ultimately show "one_start (\<lambda>past m c. no_start c) (resume_proof env ou (rx_session rx)) w w'"
    using resuming.start_quiet by blast
qed

text \<open>Resuming in the directory Pika runs in, when the conversation has none.\<close>

definition placed :: "pika_config \<Rightarrow> session \<Rightarrow> session" where
  "placed pk s = (if s_cwd s \<noteq> None then s else s\<lparr>s_cwd := pk_current_dir pk\<rparr>)"

lemma placed_thread [simp]: "provider_thread_id (placed pk s) = provider_thread_id s"
  by (simp add: placed_def provider_thread_id_def split: option.split)

lemma placed_same [simp]: "s_provider (placed pk s) = s_provider s" "s_session_id (placed pk s) = s_session_id s"
  by (simp_all add: placed_def)

lemma placed_keeps [simp]: "resume_proof env ou (placed pk s) = resume_proof env ou s" "held (placed pk s) = held s"
  by (simp_all add: resume_proof_def held_def fun_eq_iff)

lemma existing_cwd_past: "existing_cwd ou v w = (Inr cwd, w') \<Longrightarrow> wo_past w' = wo_past w @ [wo_db w]"
  by (auto simp: existing_cwd_def act_bind_Inr act_then_Inr split: option.splits)

text \<open>What a resume does for a conversation whose directory is settled.\<close>

lemma resume_placed_starts:
  assumes "resume_at = (\<lambda>token start. act_bind (reserve_resume_after_stale_proof ou (s_provider s) (s_session_id s) token pid start)
      (\<lambda>reserved. act_then (require reserved r) (act_bind (existing_cwd ou (s_cwd s)) (\<lambda>cwd.
        act_bind (clock ou) (\<lambda>t. reserved_resume env pk ou (rx token cwd t))))))"
    and "\<And>token cwd t. rx_session (rx token cwd t) = s \<and> rx_token (rx token cwd t) = token
      \<and> rx_identity (rx token cwd t) = provider_thread_id s"
  shows "resuming.starts_from env ou s w (resume_at token start)"
  unfolding assms(1)
proof (rule resuming.starts_after [OF resuming.obeyed_reservation], rule resuming.starts_then [OF quiet.obeyed_require],
    rule resuming.starts_after [OF resuming.obeyed_phase(4)])
  fix reserved w1 x w2 cwd w3
  assume "reserve_resume_after_stale_proof ou (s_provider s) (s_session_id s) token pid start w = (Inr reserved, w1)"
    and "require reserved r w1 = (Inr x, w2)" and dir: "existing_cwd ou (s_cwd s) w2 = (Inr cwd, w3)"
  then obtain row where "get_resume_reservation (wo_db w2) (s_provider s) (s_session_id s) = Some row" "lr_token row = token"
    using reservation_made [of ou "s_provider s" "s_session_id s" token pid start w w1] by auto
  with existing_cwd_past [OF dir] have held: "held s token (wo_past w3)"
    unfolding held_def by (metis length_append_singleton lessI nth_append_length)
  have "resuming.starts_given env ou s (held s token) (act_bind (clock ou) (\<lambda>t. reserved_resume env pk ou (rx token cwd t)))"
    using reserved_resume_starts [of "rx token cwd t" for t] assms(2) held_later [of s token]
    by (intro resuming.given_after quiet.obeyed_observing) (auto simp: resuming.starts_given_def)
  with held show "resuming.starts_from env ou s w3 (act_bind (clock ou) (\<lambda>t. reserved_resume env pk ou (rx token cwd t)))"
    by (simp add: resuming.starts_given_def)
qed

lemma act_units: "act_bind (act_return x) f = f x" "act_bind (act_fail e) f = act_fail e"
  by (simp_all add: act_bind_def act_return_def act_fail_def fun_eq_iff)

lemma resume_starts: "resuming.starts_from env ou s w (resume_session env pk ou s attach)"
proof -
  let ?body = "\<lambda>s. act_then (existing_cwd ou (s_cwd s)) (act_bind (reading ou (ou_uuid ou)) (\<lambda>token.
     act_bind (process_now ou (pk_pid pk)) (\<lambda>own.
     act_bind (required (start_of own) (Other_refusal ''Pika cannot pin its own launch reservation process generation'')) (\<lambda>start.
     act_bind (reserve_resume_after_stale_proof ou (s_provider s) (s_session_id s) token (pk_pid pk) start) (\<lambda>reserved.
     act_then (require reserved (Other_refusal ''the conversation is already being resumed'')) (
     act_bind (existing_cwd ou (s_cwd s)) (\<lambda>cwd.
     act_bind (clock ou) (\<lambda>t.
     reserved_resume env pk ou
       \<lparr> rx_session = s, rx_pending = resume_pending s token cwd (internal_name (s_provider s) (s_session_id s)) t, rx_token = token,
         rx_event = s_last_event_at s, rx_identity = provider_thread_id s,
         rx_tmux_name = internal_name (s_provider s) (s_session_id s), rx_attach = attach \<rparr>))))))))"
  have body: "resuming.starts_from env ou s1 w (?body s1)" for s1 w
    by (intro resuming.starts_then resuming.starts_after resuming.obeyed_phase quiet.obeyed_reading
        quiet.obeyed_observing quiet.obeyed_required resume_placed_starts [OF refl]) simp
  show ?thesis
  proof (cases "s_cwd s \<noteq> None \<or> pk_current_dir pk \<noteq> None")
    case True
    have "resume_session env pk ou s attach = ?body (placed pk s)"
    proof (cases "s_cwd s")
      case None
      with True obtain dir where dir: "pk_current_dir pk = Some dir" by blast
      with None have "placed pk s = s\<lparr>s_cwd := Some dir\<rparr>" by (simp add: placed_def)
      then show ?thesis unfolding resume_session_def Let_def by (simp only: None dir required_def option.simps act_units simp_thms if_False)
    qed (simp add: resume_session_def placed_def act_units Let_def)
    with body [of "placed pk s" w] show ?thesis by (simp add: resuming.starts_from_def)
  next
    case False
    then have "resume_session env pk ou s attach w = (Inl (Refused (Other_refusal ''no current directory'')), w)"
      by (simp add: resume_session_def act_defs)
    then show ?thesis by (simp add: resuming.starts_from_def one_start_def quiet.issued_refl)
  qed
qed

text \<open>What one start means for the log.\<close>

lemma one_start_log:
  assumes "one_start (\<lambda>past m c. no_start c) R w w'"
  shows "\<exists>new. wo_log w' = wo_log w @ new \<and> length (filter (\<lambda>(m, c). \<not> no_start c) new) \<le> 1
    \<and> (\<forall>(m, c) \<in> set new. no_start c \<or> R (take m (wo_past w')) c)"
  using assms unfolding one_start_def
proof (elim disjE exE conjE)
  assume "issued (\<lambda>past m c. no_start c) w w'"
  then obtain new where new: "wo_log w' = wo_log w @ new" "\<forall>(m, c) \<in> set new. no_start c" by (auto simp: issued_def)
  then have "filter (\<lambda>(m, c). \<not> no_start c) new = []" by (auto simp: filter_empty_conv)
  with new show ?thesis by (intro exI [of _ new]) auto
next
  fix w1 c w2
  assume before: "issued (\<lambda>past m c. no_start c) w w1" and rests: "R (wo_past w1) c"
    and past: "wo_past w2 = wo_past w1 @ [wo_db w1]" and log: "wo_log w2 = wo_log w1 @ [(wo_step w1, c)]"
    and after: "issued (\<lambda>past m c. no_start c) w2 w'"
  from before obtain n1 where n1: "wo_log w1 = wo_log w @ n1" "\<forall>(m, c) \<in> set n1. no_start c" by (auto simp: issued_def)
  from after obtain n2 p2 where n2: "wo_log w' = wo_log w2 @ n2" "\<forall>(m, c) \<in> set n2. no_start c"
    "wo_past w' = wo_past w2 @ p2" by (auto simp: issued_def)
  have quiet: "filter (\<lambda>(m, c). \<not> no_start c) n1 = []" "filter (\<lambda>(m, c). \<not> no_start c) n2 = []"
    using n1(2) n2(2) by (auto simp: filter_empty_conv)
  have "take (wo_step w1) (wo_past w') = wo_past w1" using n2(3) past by (simp add: wo_step_def)
  with rests n1 n2 quiet log show ?thesis
    by (intro exI [of _ "n1 @ (wo_step w1, c) # n2"]) auto
qed

text \<open>(C4) Resuming a conversation starts at most one provider, and signals and untags nothing. When it does
  start one, it is for this conversation, in a pane tagged with it and the launch's token, and on
  proof: the resume reservation was held under the same token, the launch was recorded as starting,
  and one complete observation after that showed no process naming the conversation and nothing in
  the pane but its holder; the store read after the observation named no lease with a running owner.\<close>

theorem resume_starts_once_on_proof:
  assumes "resume_session env pk ou s attach w = (r, w')"
  shows "\<exists>new. wo_log w' = wo_log w @ new \<and> length (filter (\<lambda>(m, c). \<not> no_start c) new) \<le> 1
    \<and> (\<forall>(m, c) \<in> set new. no_start c \<or> resume_proof env ou s (take m (wo_past w')) c)"
  using resume_starts [of env ou s w pk attach] assms
  by (intro one_start_log) (auto simp: resuming.starts_from_def)

text \<open>A condition on the store that the other connections keep.\<close>

locale store_condition =
  fixes ou :: outside and P :: "store_db \<Rightarrow> bool"
  assumes others_keep: "P db \<Longrightarrow> P (ou_others ou n db)"
begin

definition kept :: "'a act \<Rightarrow> bool" where
  "kept m \<longleftrightarrow> (\<forall>w r w'. P (wo_db w) \<longrightarrow> m w = (r, w') \<longrightarrow> P (wo_db w'))"

text \<open>Kept unless the operation answers that it has what it was asked for.\<close>

definition kept_or_had :: "bool act \<Rightarrow> bool" where
  "kept_or_had m \<longleftrightarrow> (\<forall>w r w'. P (wo_db w) \<longrightarrow> m w = (r, w') \<longrightarrow> P (wo_db w') \<or> r = Inr True)"

lemma kept_passed: "P (wo_db w) \<Longrightarrow> P (wo_db (passed ou w))"
  by (simp add: passed_def others_keep)

lemma kept_plain: "kept (act_return x)" "kept (act_fail e)" "kept (require b r)" "kept (required v r)"
  by (auto simp: kept_def act_return_def act_fail_def require_def required_def split: option.splits)

lemma kept_reading: "kept (reading ou f)"
  by (auto simp: kept_def reading_def kept_passed)

lemma kept_looking: "kept (looking ou f)"
  by (auto simp: kept_def looking_def storing_def Let_def kept_passed)

lemma kept_bind:
  assumes m: "kept m" and f: "\<And>x. kept (f x)"
  shows "kept (act_bind m f)"
  unfolding kept_def
proof (intro allI impI)
  fix w r w' assume P: "P (wo_db w)" and run: "act_bind m f w = (r, w')"
  obtain r1 w1 where first: "m w = (r1, w1)" by fastforce
  with P m have "P (wo_db w1)" unfolding kept_def by blast
  with f first run show "P (wo_db w')" by (cases r1) (auto simp: kept_def act_bind_def)
qed

lemma kept_then: "kept m \<Longrightarrow> kept k \<Longrightarrow> kept (act_then m k)"
  unfolding act_then_def by (rule kept_bind)

lemmas kept_rules = kept_plain kept_reading kept_looking kept_bind kept_then

lemma kept_observing: "kept (clock ou)" "kept (observe_complete ou operation)" "kept (process_now ou pid)"
    "kept (existing_cwd ou v)"
  unfolding clock_def observe_complete_def process_now_def existing_cwd_def
  by (auto intro!: kept_rules split: sum.split option.split)

lemma had_quiet: "kept m \<Longrightarrow> kept_or_had m"
  by (auto simp: kept_def kept_or_had_def)

lemma had_after:
  assumes m: "kept m" and f: "\<And>x. kept_or_had (f x)"
  shows "kept_or_had (act_bind m f)"
  unfolding kept_or_had_def
proof (intro allI impI)
  fix w r w' assume P: "P (wo_db w)" and run: "act_bind m f w = (r, w')"
  obtain r1 w1 where first: "m w = (r1, w1)" by fastforce
  with P m have "P (wo_db w1)" unfolding kept_def by blast
  with f first run show "P (wo_db w') \<or> r = Inr True" by (cases r1) (auto simp: kept_or_had_def act_bind_def)
qed

lemma had_storing:
  assumes "\<And>db db'. P db \<Longrightarrow> f db = (False, db') \<Longrightarrow> P db'"
  shows "kept_or_had (storing ou f)"
  unfolding kept_or_had_def
proof (intro allI impI)
  fix w r w' assume "P (wo_db w)" and run: "storing ou f w = (r, w')"
  then have "P (wo_db (passed ou w))" by (intro kept_passed)
  with run assms show "P (wo_db w') \<or> r = Inr True"
    by (cases "f (wo_db (passed ou w))"; cases "fst (f (wo_db (passed ou w)))") (auto simp: storing_def Let_def)
qed

lemma had_if:
  assumes "kept_or_had m" and "kept_or_had k"
  shows "kept_or_had (act_bind m (\<lambda>b. if b then act_return True else k))"
  unfolding kept_or_had_def
proof (intro allI impI)
  fix w r w' assume P: "P (wo_db w)" and run: "act_bind m (\<lambda>b. if b then act_return True else k) w = (r, w')"
  obtain r1 w1 where m: "m w = (r1, w1)" by fastforce
  with P assms(1) have one: "P (wo_db w1) \<or> r1 = Inr True" unfolding kept_or_had_def by blast
  show "P (wo_db w') \<or> r = Inr True"
  proof (cases "r1 = Inr True")
    case True
    with run m show ?thesis by (simp add: act_bind_def act_return_def)
  next
    case False
    with one have "P (wo_db w1)" by blast
    with assms(2) have k: "k w1 = (r, w') \<Longrightarrow> P (wo_db w') \<or> r = Inr True" unfolding kept_or_had_def by blast
    with run m False \<open>P (wo_db w1)\<close> show ?thesis by (cases r1) (auto simp: act_bind_def split: if_splits)
  qed
qed

end

text \<open>A row of the conversation under the token.\<close>

definition reserved_under :: "provider \<Rightarrow> string \<Rightarrow> string \<Rightarrow> store_db \<Rightarrow> bool" where
  "reserved_under p i token db \<longleftrightarrow>
     list_ex (\<lambda>row. lr_identity row = (p, i) \<and> lr_token row = token) (st_reservations db)"

text \<open>The others never reserve under the token this process drew.\<close>

definition token_is_ours :: "outside \<Rightarrow> provider \<Rightarrow> string \<Rightarrow> string \<Rightarrow> bool" where
  "token_is_ours ou p i token \<longleftrightarrow>
     (\<forall>n db. \<not> reserved_under p i token db \<longrightarrow> \<not> reserved_under p i token (ou_others ou n db))"

lemma reserve_refused: "reserve_resume t p i token pid start db = (False, db') \<Longrightarrow> st_reservations db' = st_reservations db"
  by (auto simp: reserve_resume_def get_resume_reservation_def insert_or_ignore_def new_reservation_def lr_identity_def
      row_by_None dest!: row_by_Some)

lemma reclaim_refused: "replace_reservation hit new db = (False, db') \<Longrightarrow> db' = db"
  by (auto simp: replace_reservation_def Let_def split: if_splits)

interpretation unreserved: store_condition ou
    "\<lambda>db. token_is_ours ou p i token \<and> \<not> reserved_under p i token db" for ou p i token
  by unfold_locales (auto simp: token_is_ours_def)

lemma reserving_hands: "unreserved.kept_or_had ou p i token (reserve_resume_after_stale_proof ou p i token pid start)"
proof -
  have one: "unreserved.kept_or_had ou p i token (storing ou (reserve_resume t p i token pid start))" for t
    by (rule unreserved.had_storing) (auto simp: reserved_under_def dest: reserve_refused)
  have two: "unreserved.kept_or_had ou p i token (storing ou (reclaim_resume_if_generation t row token pid start))" for t row
    by (rule unreserved.had_storing) (auto simp: reclaim_resume_if_generation_def dest: reclaim_refused)
  show ?thesis unfolding reserve_resume_after_stale_proof_def
    by (intro unreserved.had_after [OF unreserved.kept_observing(1)] unreserved.had_if [OF one]
        unreserved.had_after [OF unreserved.kept_looking])
      (auto intro!: unreserved.had_after [OF unreserved.kept_observing(2)] two
        unreserved.had_after [OF unreserved.kept_observing(1)] unreserved.had_quiet [OF unreserved.kept_plain(1)]
        split: option.split)
qed

lemma released_under:
  assumes "reserved_resume env pk ou rx w = (r, w')"
  shows "\<not> reserved_under (s_provider (rx_session rx)) (s_session_id (rx_session rx)) (rx_token rx) (wo_db w')"
proof -
  let ?release = "release_resume (s_provider (rx_session rx)) (s_session_id (rx_session rx)) (rx_token rx)"
  obtain r1 w1 where "resume_session_reserved env pk ou rx w = (r1, w1)" by fastforce
  with assms have "w' = (passed ou w1)\<lparr>wo_db := snd (?release (wo_db (passed ou w1)))\<rparr>"
    by (auto simp: reserved_resume_def storing_def Let_def split: prod.splits)
  then show ?thesis by (auto simp: release_resume_def reserved_under_def Let_def list_ex_iff)
qed

text \<open>The directory of the conversation was there at step \<open>n\<close> and had vanished when it was looked at again, as
  the last thing that was done.\<close>

definition directory_vanished :: "outside \<Rightarrow> string option \<Rightarrow> nat \<Rightarrow> open_error + 'a \<Rightarrow> world \<Rightarrow> bool" where
  "directory_vanished ou cwd n r w' \<longleftrightarrow>
     r = Inl (Refused (Other_refusal ''the saved working directory no longer exists''))
     \<and> (\<exists>dir m. cwd = Some dir \<and> ou_is_directory ou n dir \<and> n < m \<and> \<not> ou_is_directory ou m dir \<and> Suc m = wo_step w')"

lemma existing_cwd_case:
  "existing_cwd ou v w =
     (case v of
        Some dir \<Rightarrow> if ou_is_directory ou (wo_step w) dir then (Inr dir, passed ou w)
          else (Inl (Refused (Other_refusal ''the saved working directory no longer exists'')), passed ou w)
      | None \<Rightarrow> (Inl (Refused (Other_refusal ''the saved working directory no longer exists'')), passed ou w))"
  by (simp add: existing_cwd_def act_defs split: option.split)

lemma act_bind_cases:
  assumes "act_bind m f w = (r, w')"
  obtains (failed) e where "m w = (Inl e, w')" "r = Inl e"
  | (went) x w1 where "m w = (Inr x, w1)" "f x w1 = (r, w')"
  using assms by (cases "m w"; cases "fst (m w)") (auto simp: act_bind_def)

text \<open>From the draw of the token on: the reservation, the second look at the directory, and the rest.\<close>

lemma reserving_returns:
  fixes rx :: "string \<Rightarrow> f64 \<Rightarrow> resume_context"
  assumes run: "act_bind (reserve_resume_after_stale_proof ou (s_provider s) (s_session_id s) token pid start) (\<lambda>reserved.
      act_then (require reserved refusal) (act_bind (existing_cwd ou (s_cwd s)) (\<lambda>cwd. act_bind (clock ou) (\<lambda>t.
        reserved_resume env pk ou (rx cwd t))))) w = (r, w')"
    and rx: "\<And>cwd t. rx_session (rx cwd t) = s \<and> rx_token (rx cwd t) = token"
    and dir: "s_cwd s = Some dir" "ou_is_directory ou n dir" "n < wo_step w"
    and free: "token_is_ours ou (s_provider s) (s_session_id s) token"
      "\<not> reserved_under (s_provider s) (s_session_id s) token (wo_db w)"
  shows "\<not> reserved_under (s_provider s) (s_session_id s) token (wo_db w') \<or> directory_vanished ou (s_cwd s) n r w'"
  using run
proof (cases rule: act_bind_cases)
  case (failed e)
  with reserving_hands [of ou "s_provider s" "s_session_id s" token pid start] free show ?thesis
    unfolding unreserved.kept_or_had_def by blast
next
  case (went reserved w1)
  from went(1) resuming.obeyed_reservation have "issued (\<lambda>past m c. no_start c) w w1" unfolding quiet.obeyed_def by blast
  with issued_past dir(3) have later: "n < wo_step w1" by (fastforce simp: wo_step_def)
  show ?thesis
  proof (cases reserved)
    case False
    with went have "w' = w1" by (simp add: act_then_def act_bind_def require_def act_fail_def)
    moreover from went(1) reserving_hands [of ou "s_provider s" "s_session_id s" token pid start] free False
    have "\<not> reserved_under (s_provider s) (s_session_id s) token (wo_db w1)"
      unfolding unreserved.kept_or_had_def by blast
    ultimately show ?thesis by simp
  next
    case True
    with went(2) have "act_bind (existing_cwd ou (s_cwd s)) (\<lambda>cwd. act_bind (clock ou) (\<lambda>t.
        reserved_resume env pk ou (rx cwd t))) w1 = (r, w')"
      by (simp add: act_then_def act_bind_def require_def act_return_def)
    then show ?thesis
    proof (cases rule: act_bind_cases)
      case (failed e)
      with dir later show ?thesis
        by (auto simp: existing_cwd_case directory_vanished_def split: if_splits)
    next
      case (went cwd w2)
      then obtain t w3 where "reserved_resume env pk ou (rx cwd t) w3 = (r, w')"
        by (auto simp: act_bind_def clock_def reading_def)
      from released_under [OF this] rx show ?thesis by simp
    qed
  qed
qed

lemma resume_returns:
  assumes "resume_session env pk ou s attach w = (r, w')"
    and token: "token = ou_uuid ou (Suc (wo_step w))"
    and ours: "token_is_ours ou (s_provider s) (s_session_id s) token"
    and free: "\<not> reserved_under (s_provider s) (s_session_id s) token (wo_db w)"
  shows "\<not> reserved_under (s_provider s) (s_session_id s) token (wo_db w')
    \<or> directory_vanished ou (s_cwd (placed pk s)) (wo_step w) r w'"
proof (cases "s_cwd s \<noteq> None \<or> pk_current_dir pk \<noteq> None")
  case False
  with assms show ?thesis by (simp add: resume_session_def act_defs)
next
  case True
  let ?s = "placed pk s"
  let ?free = "\<lambda>w. \<not> reserved_under (s_provider s) (s_session_id s) token (wo_db w)"
  let ?keeps = "\<lambda>m. unreserved.kept ou (s_provider s) (s_session_id s) token m"
  let ?rest = "\<lambda>token start. act_bind (reserve_resume_after_stale_proof ou (s_provider ?s) (s_session_id ?s) token (pk_pid pk) start) (\<lambda>reserved.
     act_then (require reserved (Other_refusal ''the conversation is already being resumed'')) (
     act_bind (existing_cwd ou (s_cwd ?s)) (\<lambda>cwd.
     act_bind (clock ou) (\<lambda>t.
     reserved_resume env pk ou
       \<lparr> rx_session = ?s, rx_pending = resume_pending ?s token cwd (internal_name (s_provider ?s) (s_session_id ?s)) t, rx_token = token,
         rx_event = s_last_event_at ?s, rx_identity = provider_thread_id ?s,
         rx_tmux_name = internal_name (s_provider ?s) (s_session_id ?s), rx_attach = attach \<rparr>))))"
  let ?own = "\<lambda>token. act_bind (process_now ou (pk_pid pk)) (\<lambda>own.
     act_bind (required (start_of own) (Other_refusal ''Pika cannot pin its own launch reservation process generation''))
       (\<lambda>start. ?rest token start))"
  have "act_then (existing_cwd ou (s_cwd ?s)) (act_bind (reading ou (ou_uuid ou)) ?own) w = (r, w')"
    using assms(1) True by (auto simp: resume_session_def placed_def required_def act_units Let_def)
  then have "act_bind (existing_cwd ou (s_cwd ?s)) (\<lambda>_. act_bind (reading ou (ou_uuid ou)) ?own) w = (r, w')"
    by (simp add: act_then_def)
  then show ?thesis
  proof (cases rule: act_bind_cases)
    case (failed e)
    with unreserved.kept_observing(4) [of ou "s_provider s" "s_session_id s" token] ours free show ?thesis
      unfolding unreserved.kept_def by blast
  next
    case (went path w1)
    then have dir: "s_cwd ?s = Some path" "ou_is_directory ou (wo_step w) path" and w1: "w1 = passed ou w"
      by (auto simp: existing_cwd_case split: option.splits if_splits)
    have "token = ou_uuid ou (wo_step w1)" by (simp add: token w1)
    moreover have "act_bind (reading ou (ou_uuid ou)) f w1 = f (ou_uuid ou (wo_step w1)) (passed ou w1)"
      for f :: "string \<Rightarrow> open_receipt act" by (simp add: act_bind_def reading_def)
    ultimately have own: "?own token (passed ou w1) = (r, w')" using went(2) by (simp only:)
    have free2: "?free (passed ou w1)"
      using unreserved.kept_passed [of ou "s_provider s" "s_session_id s" token] ours free w1 by blast
    from own show ?thesis
    proof (cases rule: act_bind_cases)
      case (failed e)
      then show ?thesis by (simp add: process_now_def reading_def)
    next
      case (went own w2)
      then have w2: "w2 = passed ou (passed ou w1)" by (simp add: process_now_def)
      have free3: "?free w2"
        using unreserved.kept_passed [of ou "s_provider s" "s_session_id s" token] ours free2 w2 by blast
      show ?thesis
      proof (cases "start_of own")
        case None
        with went(2) free3 show ?thesis by (simp add: act_bind_def required_def act_fail_def)
      next
        case (Some start)
        with went(2) have "?rest token start w2 = (r, w')" by (simp add: act_bind_def required_def act_return_def)
        from reserving_returns [OF this _ dir] ours free3 w1 w2 show ?thesis by simp
      qed
    qed
  qed
qed

text \<open>(C25) A resume gives its reservation back. Let the token it draws be one that no store has and that no other
  connection reserves with. Whatever the resume comes to, an attachment, a start, a refusal or an error
  at any step of any part of it, no reservation of the conversation under that token is left, with one
  exception: the conversation's directory, there at the beginning, had vanished when it was looked at
  again after the reservation was taken, and that error is the result.\<close>

theorem resume_returns_its_reservation:
  assumes "resume_session env pk ou s attach w = (r, w')"
    and "token = ou_uuid ou (Suc (wo_step w))"
    and "token_is_ours ou (s_provider s) (s_session_id s) token"
    and "\<not> reserved_under (s_provider s) (s_session_id s) token (wo_db w)"
  shows "\<not> reserved_under (s_provider s) (s_session_id s) token (wo_db w')
    \<or> directory_vanished ou (s_cwd (placed pk s)) (wo_step w) r w'"
  using assms by (rule resume_returns)

section \<open>A new conversation\<close>

context starting_policy
begin

lemma obeyed_attempted: "obeyed m \<Longrightarrow> obeyed (attempted m)"
  unfolding obeyed_def attempted_def by (fastforce split: prod.splits sum.splits)

lemma obeyed_find: "obeyed (find_everywhere ou only query ps found)"
proof (induction ps arbitrary: found)
  case (Cons p ps)
  then show ?case by (cases "only \<noteq> None \<and> only \<noteq> Some p") (simp, simp only: find_everywhere.simps if_False, intro obeyed_rules)
qed (simp add: obeyed_return)

lemma obeyed_resolve: "obeyed (resolve_local env ou query)"
  unfolding resolve_local_def fresh_observation_def Let_def
  by (auto intro!: obeyed_rules obeyed_attempts obeyed_reconciled obeyed_find
      split: prod.split sum.split name_resolution_error.split)

lemma obeyed_home: "obeyed (certify_new_home env ou pl i pn shared)"
  unfolding certify_new_home_def Let_def
  by (auto intro!: obeyed_rules obeyed_observing obeyed_attempted obeyed_await split: option.split)

lemma obeyed_deliver: "obeyed (deliver_new_launch env ou pl pn home attach)"
  unfolding deliver_new_launch_def
  by (auto intro!: obeyed_rules obeyed_observing obeyed_attach_binding obeyed_attach_if obeyed_attach obeyed_recording
      split: option.split prod.split)

end

lemma new_provider_starts:
  assumes "pl_provider pl = p" and "thread \<in> {None, pl_expected_session_id pl}"
  shows "launching.starts_from env ou p thread w (start_new_provider env pk ou pl internal argv)"
  unfolding start_new_provider_def Let_def
proof (rule launching.starts_then [OF launching.obeyed_phase(3)], rule launching.starts_after [OF launching.obeyed_allocate],
    rule launching.starts_then, goal_cases)
  case 1
  then show ?case by (auto intro: launching.obeyed_phase quiet.obeyed_return split: option.split)
next
  case (2 x wa prepared wb y w0)
  let ?i = "pl_expected_session_id pl"
  let ?token = "pl_token pl"
  show ?case
  proof (rule launching.starts_then [OF launching.obeyed_phase(1)], rule launching.starts_after [OF quiet.obeyed_observing(2)],
      rule launching.starts_then [OF quiet.obeyed_ensuring], rule launching.starts_then [OF quiet.obeyed_ensuring])
    fix x w1 ps w2 y w3 z w4
    assume phase: "set_required_launch_phase ou ?token Provider_starting w0 = (Inr x, w1)"
      and seen: "observe_complete ou ''execute the reserved provider launch'' w1 = (Inr ps, w2)"
      and unowned: "ensuring (ensure_new_identity_unowned (ce_uuid env) ?i (pl_provider pl) ps) w2 = (Inr y, w3)"
      and idle: "ensuring (require_idle_pane prepared ps True) w3 = (Inr z, w4)"
    note recorded = phase_recorded [OF phase]
    from seen unowned idle have ps: "require_complete ''execute the reserved provider launch'' (ou_processes ou (wo_step w1)) = Inr ps"
      and past: "wo_past w4 = wo_past w1 @ [wo_db w1]" and alone: "process_tree (pn_pane_pid prepared) ps = [pn_pane_pid prepared]"
      by (auto simp: observe_complete_Inr ensuring_Inr idle_alone)
    from unowned have free: "case ?i of None \<Rightarrow> True | Some i \<Rightarrow> find_session_processes (ce_uuid env) i (pl_provider pl) ps = {}"
      by (auto simp: ensuring_Inr ensure_new_identity_unowned_def ensure_def split: option.splits if_splits)
    have "launch_proof env ou p thread (wo_past w4 @ since) (Respawn reserved (pl_cwd pl) (pl_provider pl) argv' ?i ?token)"
      if "prepared_as prepared (pl_provider pl) ?i (pl_name pl) ?token reserved" for reserved since argv'
      unfolding launch_proof_def ready_pane_def past
      by (intro exI [of _ reserved] exI [of _ "pl_cwd pl"] exI [of _ argv'] exI [of _ ?i] exI [of _ ?token]
          exI [of _ "wo_step w1"] exI [of _ ps] conjI refl ps,
        use that assms ps alone free recorded in \<open>auto simp: prepared_as_def nth_append wo_step_def\<close>)
    then show "launching.starts_from env ou p thread w4 (start_prepared_agent ou prepared (pl_cwd pl) (pl_provider pl)
        (shared_launch_argv pk (pl_provider pl) ?token argv) ?i (pl_name pl) ?token)"
      by (rule launching.starts_prepared)
  qed
qed

lemma launch_finishes:
  assumes "pl_provider pl = p" and "thread \<in> {None, pl_expected_session_id pl}"
  shows "launching.starts_from env ou p thread w (finish_reserved_launch env pk ou pl internal argv shared attach)"
  unfolding finish_reserved_launch_def
  by (rule launching.starts_before [OF new_provider_starts [OF assms]])
    (auto intro!: quiet.obeyed_rules launching.obeyed_home launching.obeyed_deliver split: option.split)

lemma new_conversation_starts:
  "launching.starts_from env ou p thread w (new_session_with_reserved_thread env pk ou name p attach token thread)"
proof -
  have reserve: "quiet.obeyed (case thread of Some t \<Rightarrow> act_return (Some t)
      | None \<Rightarrow> if p = Claude then act_bind (reading ou (ou_uuid ou)) (\<lambda>i. act_return (Some i)) else act_return None)"
    by (auto intro!: quiet.obeyed_rules split: option.split)
  have bind: "quiet.obeyed (case thread of None \<Rightarrow> act_return () | Some t \<Rightarrow> bind_required ou tok p t)" for tok
    by (auto intro!: quiet.obeyed_rules launching.obeyed_phase split: option.split)
  have same: "thread \<in> {None, reserved}"
    if "(case thread of Some t \<Rightarrow> act_return (Some t)
      | None \<Rightarrow> if p = Claude then act_bind (reading ou (ou_uuid ou)) (\<lambda>i. act_return (Some i)) else act_return None) v
      = (Inr reserved, v')" for reserved v v'
    using that by (auto split: option.splits)
  show ?thesis unfolding new_session_with_reserved_thread_def validated_launch_token_def Let_def
    by (intro launching.starts_after launching.starts_then quiet.obeyed_rules quiet.obeyed_observing launching.obeyed_resolve
        reserve bind launch_finishes) (auto simp: new_pending_def dest: same)
qed

text \<open>(C11) Starting a new conversation starts at most one provider, and signals and untags nothing. When it
  does start one, it is the chosen provider, in a pane tagged for this launch that ran nothing but
  its holder, after the launch was recorded as starting; a reserved conversation is the one that is
  started, and no process of the same complete observation named it.\<close>

theorem new_conversation_starts_once:
  assumes "new_session_with_reserved_thread env pk ou name p attach token thread w = (r, w')"
  shows "\<exists>new. wo_log w' = wo_log w @ new \<and> length (filter (\<lambda>(m, c). \<not> no_start c) new) \<le> 1
    \<and> (\<forall>(m, c) \<in> set new. no_start c \<or> launch_proof env ou p thread (take m (wo_past w')) c)"
  using new_conversation_starts [of env ou p thread w pk name attach token] assms
  by (intro one_start_log) (auto simp: launching.starts_from_def)

section \<open>The exact binding\<close>

lemma step_mono: "issued Q w w' \<Longrightarrow> wo_step w \<le> wo_step w'"
  by (auto simp: issued_def wo_step_def)

lemma list_panes_Inr:
  "list_panes ou w = (Inr panes, w') \<longleftrightarrow> ou_panes ou (wo_step w) = Inr panes \<and> w' = passed ou w"
  by (auto simp: list_panes_def act_bind_Inr split: sum.splits)

lemma get_pane_Inr:
  "get_pane ou target w = (Inr (Some pn), w') \<Longrightarrow>
   w' = passed ou w \<and> (\<exists>panes. ou_panes ou (wo_step w) = Inr panes \<and> pn \<in> set panes)"
  by (auto simp: get_pane_def act_bind_Inr list_panes_Inr dest!: sym [of "Some pn"] find_SomeD)

text \<open>Every process of a path was read again between two steps, of the same generation and, but for the
  pane's root, under the same parent.\<close>

definition rechecked :: "outside \<Rightarrow> process_generation \<Rightarrow> process_record list \<Rightarrow> nat \<Rightarrow> nat \<Rightarrow> bool" where
  "rechecked ou root path a b \<longleftrightarrow>
     (\<forall>r \<in> set path. \<exists>k now. a \<le> k \<and> k < b \<and> ou_process ou k (pr_pid r) = Some now
        \<and> pr_start_time now = pr_start_time r
        \<and> (pr_pid r = pg_pid root \<or> pr_parent_pid now = pr_parent_pid r))"

lemma rechecked_wider: "rechecked ou root path a b \<Longrightarrow> a' \<le> a \<Longrightarrow> b \<le> b' \<Longrightarrow> rechecked ou root path a' b'"
  unfolding rechecked_def by (meson le_trans less_le_trans)

lemma revalidate_each_rechecks:
  "revalidate_each ou root path w = (Inr u, w') \<Longrightarrow> wo_step w \<le> wo_step w' \<and> rechecked ou root path (wo_step w) (wo_step w')"
proof (induction path arbitrary: w)
  case (Cons r path)
  then obtain now where now: "ou_process ou (wo_step w) (pr_pid r) = Some now" "pr_start_time now = pr_start_time r"
    "pr_pid r = pg_pid root \<or> pr_parent_pid now = pr_parent_pid r"
    and rest: "revalidate_each ou root path (passed ou w) = (Inr u, w')"
    by (auto simp: act_bind_Inr process_now_def split: sum.splits option.splits if_splits)
  from Cons.IH [OF rest] have ih: "Suc (wo_step w) \<le> wo_step w'" "rechecked ou root path (Suc (wo_step w)) (wo_step w')"
    by simp_all
  have "rechecked ou root path (wo_step w) (wo_step w')" using ih(2) by (rule rechecked_wider) simp_all
  with now ih(1) show ?case unfolding rechecked_def by (auto intro!: exI [of _ "wo_step w"])
qed (simp add: rechecked_def)

lemma revalidate_rechecks:
  assumes "revalidate_ancestry ou root descendant ps w = (Inr u, w')"
  shows "\<exists>path. ancestry_path root descendant ps = Some path \<and> wo_step w \<le> wo_step w'
    \<and> rechecked ou root path (wo_step w) (wo_step w')"
  using assms revalidate_each_rechecks unfolding revalidate_ancestry_def by (fastforce split: option.splits)

lemma bind_candidate_facts:
  assumes "bind_candidate ou s ps tagged owners pn pid w = (Inr b, w')"
  shows "\<exists>root r path j panes. map_of ps (pn_pane_pid pn) = Some root \<and> map_of ps pid = Some r
    \<and> eb_pane_start b = pg_start_time (generation root) \<and> eb_provider_pid b = pid \<and> eb_provider_start b = pr_start_time r
    \<and> still_tagged s pn (eb_pane b)
    \<and> ancestry_path (generation root) \<lparr> pg_pid = pid, pg_start_time = pr_start_time r \<rparr> ps = Some path
    \<and> wo_step w \<le> j \<and> j < wo_step w' \<and> ou_panes ou j = Inr panes \<and> eb_pane b \<in> set panes
    \<and> rechecked ou (generation root) path (Suc j) (wo_step w')"
proof -
  from assms obtain root r w1 w2 w3 w4 fresh w5 x y where root: "map_of ps (pn_pane_pid pn) = Some root"
    and skipped: "recheck_ignored ou s ps (filter (\<lambda>other. pn_pane_id other \<noteq> pn_pane_id pn) tagged) pid w1 = (Inr x, w2)"
    and w1: "w1 = passed ou w" and r: "map_of ps pid = Some r"
    and once: "revalidate_ancestry ou (generation root) \<lparr> pg_pid = pid, pg_start_time = pr_start_time r \<rparr> ps w2 = (Inr (), w3)"
    and pane: "get_pane ou (pn_pane_id pn) w3 = (Inr (Some fresh), w4)" and tagged: "still_tagged s pn fresh"
    and again: "revalidate_ancestry ou (generation root) \<lparr> pg_pid = pid, pg_start_time = pr_start_time r \<rparr> ps w4 = (Inr (), w5)"
    and certificate: "recheck_certificate ou s owners pid w5 = (Inr y, w')"
    and b: "b = \<lparr> eb_pane = fresh, eb_pane_start = pg_start_time (generation root), eb_provider_pid = pid,
      eb_provider_start = pr_start_time r, eb_launcher = runtime_launcher_generation pid ps \<rparr>"
    unfolding bind_candidate_def Let_def process_now_def
    by (auto simp: act_bind_Inr act_then_Inr)
  have skip: "wo_step w1 \<le> wo_step w2"
    using skipped quiet.obeyed_rechecks(1) step_mono unfolding quiet.obeyed_def by blast
  have last: "wo_step w5 \<le> wo_step w'"
    using certificate quiet.obeyed_rechecks(2) step_mono unfolding quiet.obeyed_def by blast
  from revalidate_rechecks [OF once] have first: "wo_step w2 \<le> wo_step w3" by blast
  from get_pane_Inr [OF pane] obtain panes where w4: "w4 = passed ou w3"
    and panes: "ou_panes ou (wo_step w3) = Inr panes" "fresh \<in> set panes" by blast
  from revalidate_rechecks [OF again] obtain path where path: "ancestry_path (generation root)
      \<lparr> pg_pid = pid, pg_start_time = pr_start_time r \<rparr> ps = Some path" "wo_step w4 \<le> wo_step w5"
    and re: "rechecked ou (generation root) path (wo_step w4) (wo_step w5)" by blast
  have "rechecked ou (generation root) path (Suc (wo_step w3)) (wo_step w')"
    using re last w4 by (auto intro: rechecked_wider)
  with root r tagged b path panes skip first last w1 w4 show ?thesis
    by (intro exI [of _ root] exI [of _ r] exI [of _ path] exI [of _ "wo_step w3"] exI [of _ panes]) auto
qed

text \<open>What an exact binding \<open>b\<close> of \<open>s\<close> rests on, between the worlds it was made in: \<open>ps\<close> is the complete
  observation at its first step, \<open>panes\<close> the panes listed after it, and \<open>db\<close> the store the owners were
  read from.\<close>

definition exactly_bound :: "core_env \<Rightarrow> outside \<Rightarrow> session \<Rightarrow> world \<Rightarrow> world \<Rightarrow> exact_binding \<Rightarrow> bool" where
  "exactly_bound env ou s w w' b \<longleftrightarrow>
     (\<exists>ps panes db pn root r path j later.
        require_complete ''verify the exact pane'' (ou_processes ou (wo_step w)) = Inr ps
        \<and> ou_panes ou (Suc (wo_step w)) = Inr panes
        \<and> db = store_at ou (wo_past w') (wo_step w + 3)
        \<and> pn \<in> set (tagged_panes s panes) \<and> still_tagged s pn (eb_pane b)
        \<and> Suc (wo_step w) < j \<and> j < wo_step w' \<and> ou_panes ou j = Inr later \<and> eb_pane b \<in> set later
        \<and> map_of ps (pn_pane_pid pn) = Some root \<and> pr_start_time root = eb_pane_start b
        \<and> map_of ps (eb_provider_pid b) = Some r \<and> pr_start_time r = eb_provider_start b
        \<and> eb_provider_pid b \<in> set (process_tree (pn_pane_pid pn) ps)
        \<and> ancestry_path (generation root) \<lparr> pg_pid = eb_provider_pid b, pg_start_time = eb_provider_start b \<rparr> ps = Some path
        \<and> rechecked ou (generation root) path (Suc j) (wo_step w')
        \<and> (eb_provider_pid b \<in> carriers env s ps \<or> certified_for s ps db (eb_provider_pid b) pn)
        \<and> (\<forall>q \<in> carriers env s ps. q = eb_provider_pid b \<or> launcher ps q)
        \<and> (\<forall>other \<in> set (tagged_panes s panes). \<forall>q \<in> provider_pids (s_provider s) other ps.
             other = pn \<and> excused env s ps db pn (eb_provider_pid b) q))"

lemma transacting_Inr:
  "transacting ou m w = (Inr x, w') \<longleftrightarrow>
     (\<exists>db. m (ou_others ou (wo_step w) (wo_db w)) = Inr (x, db) \<and> w' = (passed ou w)\<lparr>wo_db := db\<rparr>)"
  by (auto simp: transacting_def Let_def passed_def split: sum.splits)

lemma past_kept: "issued Q w w' \<Longrightarrow> k < wo_step w \<Longrightarrow> wo_past w' ! k = wo_past w ! k"
  by (auto simp: issued_def wo_step_def nth_append)

lemma sole_Inr:
  "(case cs of [(pn, pid)] \<Rightarrow> f pn pid | ds \<Rightarrow> act_fail (Refused (Panes_found (length ds)))) w = (Inr y, w') \<longleftrightarrow>
     (\<exists>pn pid. cs = [(pn, pid)] \<and> f pn pid w = (Inr y, w'))"
proof (cases cs)
  case (Cons first rest)
  then show ?thesis by (cases first; cases rest) auto
qed simp

lemma exact_binding_facts:
  assumes consistent: "\<And>ps. require_complete ''verify the exact pane'' (ou_processes ou (wo_step w)) = Inr ps \<Longrightarrow> consistent ps"
    and run: "exact_pane_binding env ou s expected w = (Inr b, w')"
  shows "expected \<in> {None, Some (pn_pane_id (eb_pane b))} \<and> exactly_bound env ou s w w' b"
proof -
  let ?w3 = "passed ou (passed ou (passed ou w))"
  from run obtain ps panes owners db1 pn pid
    where ps: "require_complete ''verify the exact pane'' (ou_processes ou (wo_step w)) = Inr ps"
      and panes: "ou_panes ou (Suc (wo_step w)) = Inr panes"
      and owners: "identity_owners_of env s ps (ou_clock ou (wo_step w + 2)) (ou_others ou (wo_step w + 3) (wo_db ?w3)) = Inr (owners, db1)"
      and few: "card (owner_pids owners) \<le> 1"
      and clean: "\<not> ip_incomplete_root (identity_selection env s panes ps owners)"
        "\<not> ip_ambiguous_provider (identity_selection env s panes ps owners)"
      and only: "ip_candidates (identity_selection env s panes ps owners) = [(pn, pid)]"
      and expected: "expected = None \<or> expected = Some (pn_pane_id pn)"
      and bind: "bind_candidate ou s ps (tagged_panes s panes) owners pn pid ((passed ou ?w3)\<lparr>wo_db := db1\<rparr>) = (Inr b, w')"
    unfolding exact_pane_binding_def clock_def Let_def
    by (auto simp: act_bind_Inr act_then_Inr observe_complete_Inr list_panes_Inr transacting_Inr sole_Inr numeral_eq_Suc)
  let ?w4 = "(passed ou ?w3)\<lparr>wo_db := db1\<rparr>"
  have table: "consistent ps" using consistent ps .
  from bind quiet.obeyed_bind_candidate have "issued (\<lambda>past m c. no_start c) ?w4 w'" unfolding quiet.obeyed_def by blast
  from past_kept [OF this, of "wo_step w + 3"] have db: "store_at ou (wo_past w') (wo_step w + 3) = ou_others ou (wo_step w + 3) (wo_db ?w3)"
    by (simp add: store_at_def wo_step_def nth_append passed_def)
  from bind_candidate_facts [OF bind] obtain root r path j later where root: "map_of ps (pn_pane_pid pn) = Some root"
    and r: "map_of ps pid = Some r" and b: "eb_pane_start b = pg_start_time (generation root)" "eb_provider_pid b = pid"
      "eb_provider_start b = pr_start_time r" "still_tagged s pn (eb_pane b)"
    and path: "ancestry_path (generation root) \<lparr> pg_pid = pid, pg_start_time = pr_start_time r \<rparr> ps = Some path"
    and j: "Suc (Suc (Suc (Suc (wo_step w)))) \<le> j" "j < wo_step w'" "ou_panes ou j = Inr later" "eb_pane b \<in> set later"
    and re: "rechecked ou (generation root) path (Suc j) (wo_step w')"
    by auto
  note alone = sole_candidate [OF owners_finite [OF owners] few only clean(2,1)]
  note evidence = owners_evidence [OF table owners]
  have carrier: "q = pid \<or> launcher ps q" if "q \<in> carriers env s ps" for q
    using owners_contain [OF table owners that] alone(2) by blast
  have others: "other = pn \<and> excused env s ps (store_at ou (wo_past w') (wo_step w + 3)) pn pid q"
    if "other \<in> set (tagged_panes s panes)" "q \<in> provider_pids (s_provider s) other ps" for other q
    using alone(5) [OF that] evidence(2) db by metis
  have named: "pid \<in> carriers env s ps \<or> certified_for s ps (store_at ou (wo_past w') (wo_step w + 3)) pid pn"
    using evidence(1) [OF alone(3)] db by simp
  have after: "Suc (wo_step w) < j" and started: "pr_start_time root = pg_start_time (generation root)"
    using j(1) by (simp_all add: generation_def)
  have "exactly_bound env ou s w w' b" unfolding exactly_bound_def b(1-3)
    by (intro exI [of _ ps] exI [of _ panes] exI [of _ "store_at ou (wo_past w') (wo_step w + 3)"] exI [of _ pn]
        exI [of _ root] exI [of _ r] exI [of _ path] exI [of _ j] exI [of _ later] conjI ballI impI refl
        ps panes alone(1,4) b(4) after j(2-4) root started r path re named carrier others)
  moreover have "expected \<in> {None, Some (pn_pane_id (eb_pane b))}"
    using expected b(4) by (auto simp: still_tagged_def same_pane_generation_def)
  ultimately show ?thesis by blast
qed

text \<open>(C5) An exact binding is exact. When Pika binds a conversation to a pane before acting on it, then in one
  complete observation the provider ran in the tree of a tagged pane, of the generations the binding
  records; it named the conversation or was its certified owner, every other process naming it was a
  launcher, and no tagged pane ran another client of the provider; the pane was listed again later
  with the same generation and tags; and after that every link from the provider to the pane's root
  was read again, unchanged.\<close>

theorem exact_binding_is_exact:
  assumes "\<And>ps. require_complete ''verify the exact pane'' (ou_processes ou (wo_step w)) = Inr ps \<Longrightarrow> consistent ps"
    and "exact_pane_binding env ou s expected w = (Inr b, w')"
  shows "expected \<in> {None, Some (pn_pane_id (eb_pane b))} \<and> exactly_bound env ou s w w' b"
  using assms by (rule exact_binding_facts)

section \<open>Runs of it\<close>

definition demo_outside :: outside where
  "demo_outside = \<lparr> ou_processes = (\<lambda>_. \<lparr> po_processes = demo_processes, po_state = Complete \<rparr>),
     ou_panes = (\<lambda>_. Inr [demo_pane]), ou_process = (\<lambda>_. map_of demo_processes), ou_clock = (\<lambda>_. 0),
     ou_others = (\<lambda>_ db. db), ou_reply = (\<lambda>_ _. None), ou_attached = (\<lambda>_ _. Handed_over 0 Tmux_client),
     ou_output = (\<lambda>_ _. Inr []), ou_scan = (\<lambda>_. demo_scan), ou_source = (\<lambda>_ _. Source_available),
     ou_browse = (\<lambda>_ _. []), ou_found = (\<lambda>_ _ _. []), ou_is_directory = (\<lambda>_ _. True), ou_uuid = (\<lambda>_. ''u''),
     ou_deadline = (\<lambda>_. 0), ou_current_exe = (\<lambda>_. Some ''pika'') \<rparr>"

definition demo_world :: world where "demo_world = \<lparr> wo_past = [], wo_db = demo_db, wo_log = [] \<rparr>"

definition demo_config :: pika_config where
  "demo_config = \<lparr> pk_executable = provider_as_str, pk_default_provider = Codex, pk_arguments = [], pk_claude_mobile = False,
     pk_current_exe = None, pk_opencode_shared = (\<lambda>_. False), pk_current_dir = Some ''/w'', pk_pid = 2,
     pk_launch = demo_launch_env, pk_uuid_text = Some \<rparr>"

lemma demo_outside_simps [simp]:
  "ou_processes demo_outside n = \<lparr> po_processes = demo_processes, po_state = Complete \<rparr>"
  "ou_panes demo_outside n = Inr [demo_pane]" "ou_process demo_outside n = map_of demo_processes"
  "ou_clock demo_outside n = 0" "ou_others demo_outside n db = db"
  by (simp_all add: demo_outside_def)

lemma recovery_never_launches_witness:
  "\<exists>r w'. open_pending demo_core demo_config demo_outside ''t'' True demo_world = (r, w')
    \<and> list_all (\<lambda>(m, c). only_shows c) (wo_log w')"
proof -
  obtain r w' where run: "open_pending demo_core demo_config demo_outside ''t'' True demo_world = (r, w')"
    by (metis surj_pair)
  from recovery_never_launches [OF disjI2 [OF disjI1 [OF run]]] run show ?thesis
    by (auto simp: demo_world_def list_all_iff)
qed

lemma resume_starts_once_on_proof_witness:
  "\<exists>r w'. resume_session demo_core demo_config demo_outside demo_session True demo_world = (r, w')
    \<and> length (filter (\<lambda>(m, c). \<not> no_start c) (wo_log w')) \<le> 1"
proof -
  obtain r w' where run: "resume_session demo_core demo_config demo_outside demo_session True demo_world = (r, w')"
    by (metis surj_pair)
  from resume_starts_once_on_proof [OF run] run show ?thesis by (auto simp: demo_world_def)
qed

lemma new_conversation_starts_once_witness:
  "\<exists>r w'. new_session_with_reserved_thread demo_core demo_config demo_outside ''name'' Codex True ''u'' None demo_world = (r, w')
    \<and> length (filter (\<lambda>(m, c). \<not> no_start c) (wo_log w')) \<le> 1"
proof -
  obtain r w' where run: "new_session_with_reserved_thread demo_core demo_config demo_outside ''name'' Codex True ''u'' None
      demo_world = (r, w')" by (metis surj_pair)
  from new_conversation_starts_once [OF run] run show ?thesis by (auto simp: demo_world_def)
qed

text \<open>A world in which the directory of the conversation vanishes after the first look: the reservation stays.\<close>

definition vanishing_outside :: outside where
  "vanishing_outside = demo_outside\<lparr>ou_is_directory := (\<lambda>n _. n = 0)\<rparr>"

theorem vanished_directory_keeps_reservation:
  "\<exists>w'. resume_session demo_core demo_config vanishing_outside demo_session True demo_world
      = (Inl (Refused (Other_refusal ''the saved working directory no longer exists'')), w')
    \<and> reserved_under Codex ''id'' ''u'' (wo_db w')"
proof -
  have start: "start_of (map_of demo_processes 2) = Some 10" by code_simp
  show ?thesis
    by (simp add: resume_session_def act_defs existing_cwd_case bare_session_def demo_world_def vanishing_outside_def
      clock_def process_now_def reserve_resume_after_stale_proof_def reserve_resume_def get_resume_reservation_def
      demo_db_def empty_store_def wo_step_def passed_def demo_outside_def demo_config_def start
      insert_or_ignore_def new_reservation_def reserved_under_def lr_identity_def)
qed

lemma resume_returns_its_reservation_witness:
  "\<exists>r w'. resume_session demo_core demo_config demo_outside demo_session True demo_world = (r, w')
    \<and> \<not> reserved_under Codex ''id'' ''u'' (wo_db w')"
proof -
  obtain r w' where run: "resume_session demo_core demo_config demo_outside demo_session True demo_world = (r, w')"
    by (metis surj_pair)
  have "\<not> reserved_under Codex ''id'' ''u'' (wo_db w') \<or>
      directory_vanished demo_outside (s_cwd (placed demo_config demo_session)) (wo_step demo_world) r w'"
    using resume_returns_its_reservation [OF run refl]
    by (simp add: token_is_ours_def bare_session_def demo_world_def demo_outside_def
        reserved_under_def demo_db_def empty_store_def)
  moreover have "\<not> directory_vanished demo_outside cwd n r w'" for cwd n
    by (simp add: directory_vanished_def demo_outside_def)
  ultimately show ?thesis using run by blast
qed

lemma reservation_needs_disproof_witness:
  "\<exists>w' row. reserve_resume_after_stale_proof demo_outside Codex ''id'' ''u'' 2 10 demo_world = (Inr True, w')
    \<and> get_resume_reservation (wo_db w') Codex ''id'' = Some row \<and> lr_token row = ''u''"
proof -
  have "fst (reserve_resume 0 Codex ''id'' ''u'' 2 10 demo_db)"
    by (simp add: reserve_resume_def get_resume_reservation_def demo_db_def empty_store_def)
  then obtain db where "reserve_resume 0 Codex ''id'' ''u'' 2 10 demo_db = (True, db)" by (auto simp: prod_eq_iff)
  then have "\<exists>w'. reserve_resume_after_stale_proof demo_outside Codex ''id'' ''u'' 2 10 demo_world = (Inr True, w')"
    by (auto simp: reserve_resume_after_stale_proof_def clock_def act_bind_Inr storing_Inr demo_world_def passed_def)
  then obtain w' where run: "reserve_resume_after_stale_proof demo_outside Codex ''id'' ''u'' 2 10 demo_world = (Inr True, w')" by blast
  from reservation_needs_disproof [OF run] run show ?thesis by blast
qed

text \<open>The pane of the running example is bound: its shell 2 runs the client 5, which names the conversation.\<close>

lemma exact_binding_is_exact_witness:
  "\<exists>b w'. exact_pane_binding demo_core demo_outside demo_session None demo_world = (Inr b, w')
    \<and> exactly_bound demo_core demo_outside demo_session demo_world w' b"
proof -
  let ?owners = "\<lparr> io_direct = {5}, io_leases = {}, io_recovery = None \<rparr>"
  have "canonical_owners demo_processes \<lparr> io_direct = direct_owners demo_core demo_session demo_processes,
      io_leases = {}, io_recovery = None \<rparr> = ?owners" by code_simp
  note owners = demo_owners [OF this]
  have selection: "ip_candidates (identity_selection demo_core demo_session [demo_pane] demo_processes ?owners) = [(demo_pane, 5)]"
    "\<not> ip_incomplete_root (identity_selection demo_core demo_session [demo_pane] demo_processes ?owners)"
    "\<not> ip_ambiguous_provider (identity_selection demo_core demo_session [demo_pane] demo_processes ?owners)"
    by code_simp+
  have path: "ancestry_path \<lparr> pg_pid = 2, pg_start_time = 10 \<rparr> \<lparr> pg_pid = 5, pg_start_time = 20 \<rparr> demo_processes
      = Some [snd (demo_processes ! 1), snd (demo_processes ! 0)]" by code_simp
  have tables: "map_of demo_processes 2 = Some (snd (demo_processes ! 0))" "map_of demo_processes 5 = Some (snd (demo_processes ! 1))"
    "tagged_panes demo_session [demo_pane] = [demo_pane]" "5 \<in> set (process_tree_generation \<lparr> pg_pid = 2, pg_start_time = 10 \<rparr> demo_processes)"
    "generation (snd (demo_processes ! 0)) = \<lparr> pg_pid = 2, pg_start_time = 10 \<rparr>" "pr_start_time (snd (demo_processes ! Suc 0)) = 20"
    "card (owner_pids ?owners) \<le> Suc 0" "pn_pane_pid demo_pane = 2" "still_tagged demo_session demo_pane demo_pane"
    "find (names_pane (pn_pane_id demo_pane)) [demo_pane] = Some demo_pane"
    by code_simp+
  have again: "revalidate_ancestry demo_outside \<lparr> pg_pid = 2, pg_start_time = 10 \<rparr> \<lparr> pg_pid = 5, pg_start_time = 20 \<rparr> demo_processes w
      = (Inr (), passed demo_outside (passed demo_outside w))" for w
    unfolding revalidate_ancestry_def path
    by (simp add: process_now_def act_bind_def reading_def act_return_def demo_processes_def)
  have pane: "get_pane demo_outside (pn_pane_id demo_pane) w = (Inr (Some demo_pane), passed demo_outside w)" for w
    by (simp add: get_pane_def act_bind_Inr list_panes_Inr names_pane_def)
  have seen: "observe_complete demo_outside operation w = (Inr demo_processes, passed demo_outside w)" for operation w
    by (simp add: observe_complete_Inr require_complete_def)
  have wdb: "wo_db (passed demo_outside w) = wo_db w" for w by (simp add: passed_def)
  have candidate: "\<exists>b w'. bind_candidate demo_outside demo_session demo_processes [demo_pane] ?owners demo_pane 5 w = (Inr b, w')" for w
    unfolding bind_candidate_def Let_def recheck_ignored_def recheck_certificate_def
    by (simp add: act_bind_Inr act_then_Inr process_now_def tables again pane)
  have "\<exists>b w'. exact_pane_binding demo_core demo_outside demo_session None demo_world = (Inr b, w')"
    unfolding exact_pane_binding_def clock_def Let_def
    by (simp add: act_bind_Inr act_then_Inr seen list_panes_Inr transacting_Inr sole_Inr wdb demo_world_def owners selection tables candidate)
  then obtain b w' where run: "exact_pane_binding demo_core demo_outside demo_session None demo_world = (Inr b, w')" by blast
  have "consistent demo_processes" by (simp add: consistent_def demo_processes_def)
  then have "consistent ps" if "require_complete ''verify the exact pane'' (ou_processes demo_outside (wo_step demo_world)) = Inr ps" for ps
    using that by (simp add: require_complete_def)
  from exact_binding_is_exact [OF this run] run show ?thesis by blast
qed

end
