(* ===== verification/Spec2Isabelle.thy ===== *)
theory Spec2Isabelle
  imports Status_Projection Attention Resolve Policy_Once Memory_Laws Lifecycle_Laws Feed_Laws Store_Laws Registry_Laws Opening_Laws
begin

text \<open>
  A verification development of Pika, the terminal board over conversations with coding agents
  (Codex, Claude, OpenCode, Muse). It models the parts of the program that decide: what a
  conversation's status is, who owns it, what may be started, shown, remembered, paid for or run.
  The paths below are relative to src/src/.

  \<^bold>\<open>The program and its parts.\<close> Providers report events through hooks (hooks.rs); a hook is one
  transaction of the session store (store.rs, a SQLite database), which keeps the conversations, their
  status evidence, pending launches, resume reservations, live owners and the user's tracking choices.
  A reconciliation (core.rs) observes the processes (process.rs), the panes of tmux and the providers'
  records and brings the store up to date with them; opening a conversation attaches a client to the
  pane that holds it, resumes it in a fresh pane or launches a new one (core.rs, tmux.rs).
  The status of a conversation is projected from its evidence (status.rs), queued for attention
  (attention.rs, wait.rs), resolved from the names people type (resolve.rs) and published to
  subscribers and other machines (activity_feed.rs). Beside it runs an assistant: every provider call
  it makes is reserved in a ledger (assistant_policy.rs), its background work is bounded by a saved
  approval (assistant_lifecycle.rs), its records live in a memory with versioned forgetting
  (assistant_memory.rs, assistant_preferences.rs), and the tools it writes for itself are interpreted
  and admitted by a registry (assistant_evolution.rs).

  \<^bold>\<open>Conventions.\<close> A fallible function returns a sum, the error on the left; a SQLite table is a list of
  rows with the constraints of its schema checked where the code relies on them; a transaction is a
  function of the store whose error leaves the store as it was; methods that read the clock, draw a
  random token, decode JSON or lower-case Unicode take the reading, the token or the function as an
  argument. \<open>f64\<close> is its 64 bits, with the IEEE comparisons and the order SQLite sorts by; \<open>u64\<close> and
  \<open>i64\<close> are \<open>nat\<close> and \<open>int\<close> with the saturating and checked operations written out; a string is its
  UTF-8 bytes. A panic of the code is a branch of the model.

  \<^bold>\<open>Theories.\<close>
  \<^item> Prelude, F64, Text, Json: results, arithmetic, tables as lists, comparators with the stable sort
    (locale \<open>three_way\<close>), state machines with an invariant and a forward order (\<open>guarded_machine\<close>,
    \<open>monotone_machine\<close>), strings of bytes, and the values of serde_json.
  \<^item> Once: the abstract at-most-once ledger and the simulation contract \<open>once_refinement\<close>.
  \<^item> Model (model.rs), Status_Projection (status.rs), Attention (attention.rs, wait.rs), Resolve
    (resolve.rs): the pure core of the board.
  \<^item> Policy (assistant_policy.rs) with Policy_Ledger and Policy_Once: reservations, receipts, grants and
    approvals; the invariant, the allowance bounds and the refinement of Once.
  \<^item> Memory (assistant_memory.rs, assistant_preferences.rs) with Memory_Laws: records, revisions,
    forgetting with its generation, the bounded working set.
  \<^item> Lifecycle (assistant_lifecycle.rs) with Lifecycle_Laws: background roots, the allowance, pausing,
    and the second refinement of Once.
  \<^item> Feed (activity_feed.rs) with Feed_Laws: labels, frames in every wire version, the receiver, the
    published state and its subscriptions.
  \<^item> Store and Launches (store.rs) with Store_Machine and Store_Laws: the operations on conversations and
    evidence, on launches, bindings, owners and reservations; one state machine with their invariant;
    untracking, reservations, bindings, receipts and acknowledgements.
  \<^item> Interpreter and Registry (assistant_evolution.rs) with their laws: the metered expression language
    against a budget-free meaning and its exact cost, termination and limits; candidates, evaluations, grants, activations
    and invocations, the writers interleaving between the locks of each operation.
  \<^item> Hooks (hooks.rs) with Hooks_Laws: parsing, enrichment, admission, the whole hook transaction and
    process exits; the locale \<open>transaction_relation\<close> lifts any relation to transactions, \<open>store_relation\<close>
    any relation single store operations respect to whole hooks (interpreted three times); the first gives
    the frame of a process exit.
  \<^item> Processes (process.rs, the panes of model.rs) with Processes_Laws: which provider a command line runs,
    the tree below a process against the descendants it should have, proofs of ancestry that are read
    again, launchers and helpers, and which tagged panes hold a proven owner.
  \<^item> Reconcile (core.rs, the certificate of mobile_opencode.rs) with Reconcile_Laws: who owns a
    conversation, the verdict on its home, continuations and forks, and a whole reconciliation in
    bounded batches any of which can be refused; the locale \<open>batch_relation\<close> lifts a relation to it and is
    interpreted twice.
  \<^item> Opening and Resuming (core.rs, the pane operations of tmux.rs, open_history.rs) with Opening_Laws:
    the exact binding of a pane, attachment with its hand-over, recovery, the resume reservation and
    protocol, and new launches. An action runs against a world that other processes and connections
    change between any two of its steps; the record \<open>outside\<close> gives what each step finds and
    \<open>world\<close> keeps, as a ghost, the store at every step and the commands given to tmux. The locales
    \<open>history_policy\<close>, \<open>attaching_policy\<close> and \<open>starting_policy\<close> prove once, operation by operation, that a
    policy on those commands is obeyed; they are interpreted for recovery, resuming and launching. The
    locale \<open>store_condition\<close> does the same for a condition on the store, for the reservation of a resume.

  \<^bold>\<open>Bounds and fuel.\<close> Loops of the code that follow data (work lists of the forgetting, the string
  scanners, parent chains) are recursive functions with a proved measure. The interpreter has the fuel
  of the code itself: every check costs one unit of it, and the checks a result takes are exactly one for
  each expression evaluated and each value node copied. The first 256
  lines and 1 MiB of a transcript are the limits of the code, as are the three observations an action
  makes before it gives up. How often a launch is polled before its deadline is given by \<open>outside\<close>;
  every theorem holds for any number. No other fuel is used.

  \<^bold>\<open>Interaction.\<close> Hooks, exits and certifications are shown to be runs of the store's own operations, so
  the invariant of the store machine holds along any mixture of them. The policy ledger and the
  background roots implement the same abstract ledger. The registry's operations are interleaved at
  the granularity of the locks they take. Opening uses the process selection, the owners and the
  reconciliation of those theories and the operations of the store, one at a time, with other
  connections in between.

  \<^bold>\<open>Not modelled.\<close> Terminal user interfaces, how tmux and the kernel carry a command out, the
  environment a launch wrapper passes on, the import and adoption of unnamed conversations, sockets, file formats of the
  providers, updating, setup, mobile pairing and the natural-language side of the assistant: they are
  input and output around the decisions above. The crates (serde_json, rusqlite, uuid, sha2, ssh) are
  arguments or tables; an operation of the store fails for its own reasons and its constraints only, not
  because SQLite does.
\<close>

end
